(* ===== verification/Prelude.thy ===== *)
theory Prelude
  imports "HOL-Library.Word"
begin

text \<open>
  Shared ground of the development: the names of the C integer types, the C shift
  operators, the collections of simplification rules the component theories fill, and
  the lemmas on words and on finite iteration that more than one component needs.

  C's \<^verbatim>\<open>uint8_t\<close>, \<^verbatim>\<open>uint16_t\<close> and \<^verbatim>\<open>uint32_t\<close> are words of that width. A C
  \<^verbatim>\<open>int\<close> that only carries a small non-negative number or an error code is an \<^typ>\<open>int\<close>;
  where the code relies on its width it is a \<^typ>\<open>32 word\<close> read with \<^const>\<open>sint\<close>.
\<close>

unbundle bit_operations_syntax

type_synonym u8 = "8 word"
type_synonym u16 = "16 word"
type_synonym u32 = "32 word"

text \<open>The shifts of the C code; the count is what the code writes on the right.\<close>

abbreviation shl :: "'a::len word \<Rightarrow> nat \<Rightarrow> 'a word" where
  "shl w n \<equiv> push_bit n w"

abbreviation shr :: "'a::len word \<Rightarrow> nat \<Rightarrow> 'a word" where
  "shr w n \<equiv> drop_bit n w"

named_theorems reg_addr \<open>numeric addresses of the memory mapped registers\<close>
named_theorems bus_simps \<open>what a register holds after a driver operation\<close>
named_theorems bit_rules \<open>single bits of register values\<close>

subsection \<open>Bits of words\<close>

text \<open>Two words are equal when they agree on every bit below the width.\<close>

lemma word_eq_bits:
  "(v :: 'a::len word) = w \<longleftrightarrow> (\<forall>n < LENGTH('a). bit v n = bit w n)"
  by (auto intro: bit_word_eqI)

lemma bit_two_power [bit_rules]:
  "bit (2 ^ n :: 'a::len word) k \<longleftrightarrow> k = n \<and> n < LENGTH('a)"
  by (auto simp: bit_exp_iff)

lemma bit_one_word [bit_rules]: "bit (1 :: 'a::len word) k \<longleftrightarrow> k = 0"
  by (simp add: bit_1_iff)

text \<open>The mask \<^verbatim>\<open>((1 << n) - 1)\<close> of the C macros.\<close>

lemma shl_one_minus_one: "shl 1 n - 1 = (mask n :: 'a::len word)"
  by (simp add: mask_eq_exp_minus_1)

text \<open>Setting and clearing one bit, and testing it, as the drivers do.\<close>

lemma bit_or_one:
  "bit (w OR shl 1 n :: 'a::len word) k \<longleftrightarrow> (if k = n \<and> n < LENGTH('a) then True else bit w k)"
  by (auto simp: bit_or_iff bit_rules)

lemma bit_and_not_one:
  "bit (w AND NOT (shl 1 n) :: 'a::len word) k \<longleftrightarrow> (if k = n then False else bit w k)"
  by (auto simp: bit_and_iff bit_not_iff bit_rules dest: bit_imp_le_length)

lemma and_two_power_eq_zero [simp]:
  "(w :: 'a::len word) AND 2 ^ n = 0 \<longleftrightarrow> \<not> bit w n"
proof -
  have "w AND 2 ^ n = (if bit w n then 2 ^ n else 0)"
    by (rule bit_word_eqI) (auto simp: bit_and_iff bit_rules)
  moreover have "bit w n \<Longrightarrow> 2 ^ n \<noteq> (0 :: 'a word)"
    using bit_imp_le_length [of w n] by (auto simp: word_eq_bits bit_rules)
  ultimately show ?thesis by auto
qed

lemma ucast_ucast_u8 [simp]: "ucast (ucast (c :: u8) :: u32) = c"
  by (rule bit_word_eqI) (simp add: bit_simps)

lemma all_ones: "(0xFFFFFFFF :: u32) = - 1"
  by simp

lemma shr_and_one: "shr w n AND 1 = of_bool (bit (w :: 'a::len word) n)"
  by (simp add: and_one_eq mod_2_eq_odd bit_iff_odd_drop_bit)

subsection \<open>Shifts and masks as arithmetic\<close>

lemma unat_and_mask: "unat (w AND mask n :: 'a::len word) = unat w mod 2 ^ n"
  by (simp only: take_bit_eq_mask [symmetric] unsigned_take_bit_eq) (rule take_bit_eq_mod)

lemma unat_shr: "unat (shr w n :: 'a::len word) = unat w div 2 ^ n"
proof -
  have "take_bit LENGTH('a) (unat w) = unat w"
    by (simp add: take_bit_nat_eq_self)
  then show ?thesis
    by (simp only: unsigned_drop_bit_eq) (rule drop_bit_eq_div)
qed

lemma unat_ucast_mod:
  "unat (ucast (w :: 'a::len word) :: 'b::len word) = unat w mod 2 ^ LENGTH('b)"
  by (simp only: unsigned_ucast_eq) (rule take_bit_eq_mod)

text \<open>The masks the code writes as numerals.\<close>

lemma numeral_masks:
  "(3 :: 'a::len word) = mask 2" "(7 :: 'a::len word) = mask 3" "(0xF :: 'a::len word) = mask 4"
  "(0x1F :: 'a::len word) = mask 5" "(0xFF :: 'a::len word) = mask 8" "(0xFFFF :: 'a::len word) = mask 16"
  by (simp_all add: mask_eq_exp_minus_1)

subsection \<open>Iterated pointer arithmetic\<close>

lemma unat_u32: "unat (w :: u32) < 4294967296"
  using unsigned_less [of w] by simp

lemma offset_eq:
  fixes a d :: u32
  assumes "n < 2 ^ 32"
  shows "a = d + of_nat n \<longleftrightarrow> unat (a - d) = n"
proof
  assume "a = d + of_nat n"
  with assms show "unat (a - d) = n" by (simp add: unat_of_nat)
next
  assume "unat (a - d) = n"
  then have "of_nat (unat (a - d)) = (of_nat n :: u32)" by simp
  then have "a - d = of_nat n" by simp
  then show "a = d + of_nat n" by (simp add: algebra_simps)
qed

text \<open>Within a block that is not longer than the address space, offsets name distinct addresses.\<close>

lemma of_nat_word_inj:
  assumes "i < 2 ^ LENGTH('a)" and "j < 2 ^ LENGTH('a)"
  shows "(of_nat i :: 'a::len word) = of_nat j \<longleftrightarrow> i = j"
  using assms by (auto simp: word_of_nat_eq_iff take_bit_nat_eq_self)

lemma add_of_nat_word_inj:
  assumes "i < 2 ^ LENGTH('a)" and "j < 2 ^ LENGTH('a)"
  shows "(p :: 'a::len word) + of_nat i = p + of_nat j \<longleftrightarrow> i = j"
  using assms by (simp add: of_nat_word_inj)

subsection \<open>Counted loops\<close>

text \<open>\<^verbatim>\<open>for (x = ...) body\<close> over the values the variable takes, in a body that may not return.\<close>

fun for_each :: "('a \<Rightarrow> 'd \<Rightarrow> 'd option) \<Rightarrow> 'a list \<Rightarrow> 'd \<Rightarrow> 'd option" where
  "for_each body [] d = Some d"
| "for_each body (x # xs) d = (case body x d of None \<Rightarrow> None | Some d \<Rightarrow> for_each body xs d)"

lemma for_each_append:
  "for_each body (xs @ ys) d = (case for_each body xs d of None \<Rightarrow> None | Some d \<Rightarrow> for_each body ys d)"
  by (induction xs arbitrary: d) (auto split: option.split)

end
