(* ===== verification/Bus.thy ===== *)
theory Bus
  imports Prelude
begin

text \<open>
  Memory mapped registers, and the read-modify-write macros of \<^verbatim>\<open>rflpc17xx/tools.h\<close>.

  The peripherals are not part of the repository: they are a parameter of every driver
  definition, a \<open>device\<close> with one function for a volatile read of an address and one
  for a volatile write, and the two instructions that mask and unmask the interrupts. A driver is a function on the device's state \<open>'d\<close> and performs
  its accesses in the order the C code does. Nothing is assumed of a device in a
  definition. A theorem that needs a register to behave as storage says so with the
  locale \<open>config_regs\<close>: the registers of the set \<open>A\<close> hold what was last written to
  them and change on no other access, as the configuration registers of the LPC17xx
  user manual do.
\<close>

type_synonym addr = u32

record 'd device =
  dev_rd :: "addr \<Rightarrow> 'd \<Rightarrow> u32 \<times> 'd"
  dev_wr :: "addr \<Rightarrow> u32 \<Rightarrow> 'd \<Rightarrow> 'd"
  cpsid_i :: "'d \<Rightarrow> 'd"
  cpsie_i :: "'d \<Rightarrow> 'd"

text \<open>The value a read of the register would return now.\<close>

definition peek :: "'d device \<Rightarrow> addr \<Rightarrow> 'd \<Rightarrow> u32" where
  "peek D a d = fst (dev_rd D a d)"

subsection \<open>Read-modify-write\<close>

text \<open>\<^verbatim>\<open>reg = f(reg)\<close>: one volatile read, then one volatile write.\<close>

definition rmw :: "'d device \<Rightarrow> addr \<Rightarrow> (u32 \<Rightarrow> u32) \<Rightarrow> 'd \<Rightarrow> 'd" where
  "rmw D a f d = (let (x, d') = dev_rd D a d in dev_wr D a (f x) d')"

text \<open>\<^verbatim>\<open>reg |= v\<close> and \<^verbatim>\<open>reg &= v\<close>.\<close>

definition reg_or :: "'d device \<Rightarrow> addr \<Rightarrow> u32 \<Rightarrow> 'd \<Rightarrow> 'd" where
  "reg_or D a v = rmw D a (\<lambda>x. x OR v)"

definition reg_and :: "'d device \<Rightarrow> addr \<Rightarrow> u32 \<Rightarrow> 'd \<Rightarrow> 'd" where
  "reg_and D a v = rmw D a (\<lambda>x. x AND v)"

text \<open>The macros of \<^verbatim>\<open>tools.h\<close>.\<close>

definition RFLPC_SET_BIT :: "'d device \<Rightarrow> addr \<Rightarrow> nat \<Rightarrow> 'd \<Rightarrow> 'd" where
  "RFLPC_SET_BIT D a b = reg_or D a (shl 1 b)"

definition RFLPC_CLR_BIT :: "'d device \<Rightarrow> addr \<Rightarrow> nat \<Rightarrow> 'd \<Rightarrow> 'd" where
  "RFLPC_CLR_BIT D a b = reg_and D a (NOT (shl 1 b))"

definition RFLPC_SET_BITS_VAL :: "'d device \<Rightarrow> addr \<Rightarrow> nat \<Rightarrow> u32 \<Rightarrow> nat \<Rightarrow> 'd \<Rightarrow> 'd" where
  "RFLPC_SET_BITS_VAL D a bit_pos bit_val bit_count d =
     (let msk = shl (shl 1 bit_count - 1) bit_pos;
          d = reg_and D a (NOT msk) d;
          d = reg_or D a (shl bit_val bit_pos AND msk) d
      in d)"

text \<open>Registers of eight bits: the access transfers the low byte.\<close>

definition rd8 :: "'d device \<Rightarrow> addr \<Rightarrow> 'd \<Rightarrow> u8 \<times> 'd" where
  "rd8 D a d = (let (x, d') = dev_rd D a d in (ucast x, d'))"

definition wr8 :: "'d device \<Rightarrow> addr \<Rightarrow> u8 \<Rightarrow> 'd \<Rightarrow> 'd" where
  "wr8 D a v = dev_wr D a (ucast v)"

text \<open>\<^verbatim>\<open>*(&reg + i)\<close>, the \<open>i\<close>-th word after a register.\<close>

definition word_at :: "addr \<Rightarrow> nat \<Rightarrow> addr" where
  "word_at a i = a + of_nat (4 * i)"

subsection \<open>Polling\<close>

text \<open>
  \<^verbatim>\<open>do x = reg; while (!p(x))\<close>, and every loop of the drivers that spins on one register.
  A loop the device never lets go is \<^const>\<open>None\<close>.
\<close>

partial_function (option) poll ::
  "'d device \<Rightarrow> addr \<Rightarrow> (u32 \<Rightarrow> bool) \<Rightarrow> 'd \<Rightarrow> (u32 \<times> 'd) option" where
  "poll D a p d =
     (let (x, d') = dev_rd D a d in if p x then Some (x, d') else poll D a p d')"

text \<open>The device after \<open>n\<close> reads of one register.\<close>

fun after_reads :: "'d device \<Rightarrow> addr \<Rightarrow> nat \<Rightarrow> 'd \<Rightarrow> 'd" where
  "after_reads D a 0 d = d"
| "after_reads D a (Suc n) d = after_reads D a n (snd (dev_rd D a d))"

text \<open>Polling returns at the first read that satisfies the condition.\<close>

lemma poll_returns:
  assumes "p (peek D a (after_reads D a n d))"
    and "\<forall>k < n. \<not> p (peek D a (after_reads D a k d))"
  shows "poll D a p d = Some (dev_rd D a (after_reads D a n d))"
  using assms
proof (induction n arbitrary: d)
  case 0
  then show ?case
    by (subst poll.simps) (simp add: peek_def split_def)
next
  case (Suc n)
  have first: "\<not> p (fst (dev_rd D a d))"
    using Suc.prems(2) by (auto simp: peek_def dest: spec [of _ 0])
  have rest: "\<forall>k < n. \<not> p (peek D a (after_reads D a k (snd (dev_rd D a d))))"
  proof (intro allI impI)
    fix k assume "k < n"
    then show "\<not> p (peek D a (after_reads D a k (snd (dev_rd D a d))))"
      using Suc.prems(2) [rule_format, of "Suc k"] by simp
  qed
  have "poll D a p (snd (dev_rd D a d)) =
      Some (dev_rd D a (after_reads D a n (snd (dev_rd D a d))))"
    using Suc.prems(1) rest by (intro Suc.IH) simp_all
  then show ?case
    using first by (subst poll.simps) (simp add: split_def)
qed

lemma poll_terminates:
  assumes "p (peek D a (after_reads D a n d))"
  shows "\<exists>x d'. poll D a p d = Some (x, d') \<and> p x"
proof -
  define m where "m = (LEAST k. p (peek D a (after_reads D a k d)))"
  have m: "p (peek D a (after_reads D a m d))"
    unfolding m_def using assms by (rule LeastI)
  have "\<forall>k < m. \<not> p (peek D a (after_reads D a k d))"
    unfolding m_def using not_less_Least by blast
  with m have "poll D a p d = Some (dev_rd D a (after_reads D a m d))"
    by (rule poll_returns)
  with m show ?thesis
    by (metis peek_def prod.collapse)
qed

text \<open>A polling loop that returned made its last read in a state that the reads before it reach,
  and that read satisfied the condition.\<close>

lemma poll_last:
  assumes step: "\<And>e. P e \<Longrightarrow> P (snd (dev_rd D a e))"
    and start: "P d" and result: "poll D a p d = Some (x, d')"
  shows "\<exists>e. P e \<and> dev_rd D a e = (x, d') \<and> p x"
proof -
  let ?Q = "\<lambda>E b p d r. case r of (x, d') \<Rightarrow> E = D \<longrightarrow> b = a \<longrightarrow> P d \<longrightarrow>
      (\<exists>e. P e \<and> dev_rd D a e = (x, d') \<and> p x)"
  have "?Q E b p d r" if "poll E b p d = Some r" for E b p d r
  proof (rule poll.raw_induct [where P = ?Q, OF _ that])
    fix f and E :: "'a device" and b p d r
    assume IH: "\<And>E b p d r. f E b p d = Some r \<Longrightarrow> ?Q E b p d r"
      and eq: "(let (x, d') = dev_rd E b d in if p x then Some (x, d') else f E b p d') = Some r"
    show "?Q E b p d r"
    proof (cases "p (fst (dev_rd E b d))")
      case True
      with eq show ?thesis by (auto simp: split_def)
    next
      case False
      with eq IH [of E b p "snd (dev_rd E b d)" r] step [of d] show ?thesis
        by (auto simp: split_def)
    qed
  qed
  from this [OF result] start show ?thesis by simp
qed

lemma poll_invariant:
  assumes "\<And>e. P e \<Longrightarrow> P (snd (dev_rd D a e))" and "P d" and "poll D a p d = Some (x, d')"
  shows "P d'"
  using poll_last [of P D a d p x d'] assms by (metis snd_conv)

lemma poll_result: "poll D a p d = Some (x, d') \<Longrightarrow> p x"
  using poll_last [of "\<lambda>_. True" D a d p x d'] by auto

subsection \<open>Registers that are plain storage\<close>

locale config_regs =
  fixes D :: "'d device"
    and A :: "addr set"
  assumes peek_wr_same: "a \<in> A \<Longrightarrow> peek D a (dev_wr D a v d) = v"
    and peek_wr_other: "a \<in> A \<Longrightarrow> b \<noteq> a \<Longrightarrow> peek D a (dev_wr D b v d) = peek D a d"
    and peek_rd: "a \<in> A \<Longrightarrow> peek D a (snd (dev_rd D b d)) = peek D a d"
    and peek_cpsid: "a \<in> A \<Longrightarrow> peek D a (cpsid_i D d) = peek D a d"
    and peek_cpsie: "a \<in> A \<Longrightarrow> peek D a (cpsie_i D d) = peek D a d"
begin

lemma peek_wr:
  "a \<in> A \<Longrightarrow> peek D a (dev_wr D b v d) = (if b = a then v else peek D a d)"
  by (simp add: peek_wr_same peek_wr_other)

lemma peek_rmw:
  "a \<in> A \<Longrightarrow> peek D a (rmw D b f d) = (if b = a then f (peek D a d) else peek D a d)"
  by (simp add: rmw_def split_def Let_def peek_wr peek_rd) (simp add: peek_def)

lemma peek_reg_or:
  "a \<in> A \<Longrightarrow> peek D a (reg_or D b v d) = (if b = a then peek D a d OR v else peek D a d)"
  by (simp add: reg_or_def peek_rmw)

lemma peek_reg_and:
  "a \<in> A \<Longrightarrow> peek D a (reg_and D b v d) = (if b = a then peek D a d AND v else peek D a d)"
  by (simp add: reg_and_def peek_rmw)

lemma peek_set_bit:
  "a \<in> A \<Longrightarrow> peek D a (RFLPC_SET_BIT D b n d) =
     (if b = a then peek D a d OR shl 1 n else peek D a d)"
  by (simp add: RFLPC_SET_BIT_def peek_reg_or)

lemma peek_clr_bit:
  "a \<in> A \<Longrightarrow> peek D a (RFLPC_CLR_BIT D b n d) =
     (if b = a then peek D a d AND NOT (shl 1 n) else peek D a d)"
  by (simp add: RFLPC_CLR_BIT_def peek_reg_and)

lemma peek_set_bits_val:
  "a \<in> A \<Longrightarrow> peek D a (RFLPC_SET_BITS_VAL D b pos v cnt d) =
     (if b = a then (peek D a d AND NOT (shl (mask cnt) pos)) OR (shl v pos AND shl (mask cnt) pos)
      else peek D a d)"
  by (simp only: RFLPC_SET_BITS_VAL_def Let_def peek_reg_or peek_reg_and shl_one_minus_one)
    simp

lemma peek_wr8:
  "a \<in> A \<Longrightarrow> peek D a (wr8 D b v d) = (if b = a then ucast v else peek D a d)"
  by (simp add: wr8_def peek_wr)

lemma peek_rd8: "a \<in> A \<Longrightarrow> peek D a (snd (rd8 D b d)) = peek D a d"
  by (simp add: rd8_def split_def Let_def peek_rd)

lemmas peek_ops = peek_wr peek_rmw peek_reg_or peek_reg_and peek_set_bit peek_clr_bit
  peek_set_bits_val peek_rd peek_wr8 peek_rd8 peek_cpsid peek_cpsie

text \<open>Reading a storage register any number of times leaves every storage register alone.\<close>

lemma peek_after_reads: "a \<in> A \<Longrightarrow> peek D a (after_reads D b n d) = peek D a d"
  by (induction n arbitrary: d) (simp_all add: peek_rd)

lemma peek_poll:
  assumes "a \<in> A" and "poll D b p d = Some (x, d')"
  shows "peek D a d' = peek D a d"
  using poll_invariant [of "\<lambda>e. peek D a e = peek D a d" D b, OF _ _ assms(2)] peek_rd [OF assms(1)]
  by simp

end

lemma config_regs_subset: "config_regs D A \<Longrightarrow> B \<subseteq> A \<Longrightarrow> config_regs D B"
  by (auto simp: config_regs_def)

subsection \<open>Fields of a storage register\<close>

text \<open>
  The value \<^const>\<open>RFLPC_SET_BITS_VAL\<close> leaves in a register, bit by bit: the field holds the
  low bits of the new value, every other bit is kept.
\<close>

definition put_field :: "u32 \<Rightarrow> nat \<Rightarrow> u32 \<Rightarrow> nat \<Rightarrow> u32" where
  "put_field w pos v cnt = (w AND NOT (shl (mask cnt) pos)) OR (shl v pos AND shl (mask cnt) pos)"

definition get_field :: "u32 \<Rightarrow> nat \<Rightarrow> nat \<Rightarrow> u32" where
  "get_field w pos cnt = take_bit cnt (shr w pos)"

lemma bit_put_field [bit_rules]:
  "bit (put_field w pos v cnt) k \<longleftrightarrow>
     (if pos \<le> k \<and> k < pos + cnt \<and> k < 32 then bit v (k - pos) else bit w k)"
  by (auto simp: put_field_def bit_or_iff bit_and_iff bit_not_iff bit_push_bit_iff bit_mask_iff
      dest: bit_imp_le_length)

lemma get_put_field:
  "pos + cnt \<le> 32 \<Longrightarrow> get_field (put_field w pos v cnt) pos cnt = take_bit cnt v"
  by (rule bit_word_eqI)
    (auto simp: get_field_def bit_take_bit_iff bit_drop_bit_eq bit_put_field)

lemma get_put_field_other:
  assumes "pos' + cnt' \<le> pos \<or> pos + cnt \<le> pos'"
  shows "get_field (put_field w pos v cnt) pos' cnt' = get_field w pos' cnt'"
  using assms
  by (intro bit_word_eqI)
    (auto simp: get_field_def bit_take_bit_iff bit_drop_bit_eq bit_put_field)

text \<open>Clearing a field and setting a value that fits it, as the code does without the macro.\<close>

lemma clear_set_field:
  assumes "take_bit cnt v = v"
  shows "w AND NOT (shl (mask cnt) n) OR shl v n = put_field w n v cnt"
proof (rule bit_word_eqI)
  fix k assume k: "k < LENGTH(32)"
  have fits: "j < cnt" if "bit v j" for j
  proof -
    from that have "bit (take_bit cnt v) j" by (simp only: assms)
    then show ?thesis by (simp add: bit_take_bit_iff)
  qed
  have "bit v (k - n) \<longleftrightarrow> bit v (k - n) \<and> k - n < cnt"
    using fits by blast
  then show "bit (w AND NOT (shl (mask cnt) n) OR shl v n) k = bit (put_field w n v cnt) k"
    using k
    by (cases "n \<le> k"; cases "k - n < cnt")
      (simp_all add: bit_put_field bit_or_iff bit_and_iff bit_not_iff bit_push_bit_iff bit_mask_iff, linarith+)
qed

context config_regs
begin

lemma peek_field_update:
  "a \<in> A \<Longrightarrow> take_bit cnt v = v \<Longrightarrow>
    peek D a (reg_or D b (shl v n) (reg_and D b (NOT (shl (mask cnt) n)) d)) =
    (if b = a then put_field (peek D a d) n v cnt else peek D a d)"
  by (simp only: peek_reg_or peek_reg_and clear_set_field if_True if_False split: if_split) simp

lemmas peek_field1 = peek_field_update [of _ 1, folded numeral_masks]
lemmas peek_field2 = peek_field_update [of _ 2, folded numeral_masks]
lemmas peek_field3 = peek_field_update [of _ 3, folded numeral_masks]

end

subsection \<open>Devices to evaluate drivers on\<close>

text \<open>
  The memory device: every address is storage. It interprets the locale, and theorems
  about configuration registers are evaluated on it.
\<close>

definition mem_device :: "(addr \<Rightarrow> u32) device" where
  "mem_device = \<lparr>dev_rd = (\<lambda>a d. (d a, d)), dev_wr = (\<lambda>a v d. d(a := v)),
     cpsid_i = (\<lambda>d. d), cpsie_i = (\<lambda>d. d)\<rparr>"

lemma peek_mem_device [simp]: "peek mem_device a d = d a"
  by (simp add: peek_def mem_device_def)

lemma mem_device_simps [simp]:
  "dev_rd mem_device a d = (d a, d)" "dev_wr mem_device a v d = d(a := v)"
  "cpsid_i mem_device d = d" "cpsie_i mem_device d = d"
  by (simp_all add: mem_device_def)

interpretation mem: config_regs mem_device A
  by unfold_locales simp_all

text \<open>A device whose status registers, the addresses of \<open>S\<close>, always read as \<open>v\<close>.\<close>

definition status_device :: "addr set \<Rightarrow> u32 \<Rightarrow> (addr \<Rightarrow> u32) device" where
  "status_device S v = \<lparr>dev_rd = (\<lambda>a d. (if a \<in> S then v else d a, d)), dev_wr = (\<lambda>a v d. d(a := v)),
     cpsid_i = (\<lambda>d. d), cpsie_i = (\<lambda>d. d)\<rparr>"

lemma status_device_simps [simp]:
  "dev_rd (status_device S v) a d = (if a \<in> S then v else d a, d)"
  "dev_wr (status_device S v) a w d = d(a := w)"
  "cpsid_i (status_device S v) d = d" "cpsie_i (status_device S v) d = d"
  "peek (status_device S v) a d = (if a \<in> S then v else d a)"
  by (simp_all add: status_device_def peek_def)

lemma after_reads_status [simp]: "after_reads (status_device S v) a n d = d"
  by (induction n) simp_all

interpretation status: config_regs "status_device S v" "- S"
  by unfold_locales simp_all

text \<open>
  The scripted device: the addresses of \<open>S\<close> are status registers whose reads come from
  a script (0 when it is exhausted), every other address is storage. The log keeps the
  writes and the changes of the interrupt mask, the last one first.
\<close>

datatype event = Wr addr u32 | Mask | Unmask

record script_state =
  ram :: "addr \<Rightarrow> u32"
  inputs :: "addr \<Rightarrow> u32 list"
  log :: "event list"

definition script_device :: "addr set \<Rightarrow> script_state device" where
  "script_device S =
     \<lparr>dev_rd = (\<lambda>a d. if a \<in> S then
          (case inputs d a of [] \<Rightarrow> (0, d)
           | x # xs \<Rightarrow> (x, d\<lparr>inputs := (inputs d)(a := xs)\<rparr>))
        else (ram d a, d)),
      dev_wr = (\<lambda>a v d. d\<lparr>ram := (ram d)(a := v), log := Wr a v # log d\<rparr>),
      cpsid_i = (\<lambda>d. d\<lparr>log := Mask # log d\<rparr>),
      cpsie_i = (\<lambda>d. d\<lparr>log := Unmask # log d\<rparr>)\<rparr>"

lemma script_device_rd:
  "dev_rd (script_device S) a d = (if a \<in> S then
      (case inputs d a of [] \<Rightarrow> (0, d) | x # xs \<Rightarrow> (x, d\<lparr>inputs := (inputs d)(a := xs)\<rparr>))
     else (ram d a, d))"
  by (simp add: script_device_def)

lemma script_device_wr:
  "dev_wr (script_device S) a v d = d\<lparr>ram := (ram d)(a := v), log := Wr a v # log d\<rparr>"
  "cpsid_i (script_device S) d = d\<lparr>log := Mask # log d\<rparr>"
  "cpsie_i (script_device S) d = d\<lparr>log := Unmask # log d\<rparr>"
  by (simp_all add: script_device_def)

lemma poll_script_Cons:
  assumes "a \<in> S" and "inputs d a = x # xs"
  shows "poll (script_device S) a p d =
    (let d' = d\<lparr>inputs := (inputs d)(a := xs)\<rparr>
     in if p x then Some (x, d') else poll (script_device S) a p d')"
  using assms by (subst poll.simps) (simp add: script_device_rd Let_def)

lemma poll_script_log:
  assumes "poll (script_device S) a p d = Some (x, d')"
  shows "log d' = log d"
  using poll_invariant [of "\<lambda>e. log e = log d" "script_device S" a, OF _ _ assms]
  by (auto simp: script_device_rd split: list.splits if_splits)

lemma poll_status:
  "a \<in> S \<Longrightarrow> p v \<Longrightarrow> poll (status_device S v) a p d = Some (v, d)"
  by (subst poll.simps) simp

interpretation script: config_regs "script_device S" "- S"
  by unfold_locales
    (auto simp: peek_def script_device_rd script_device_wr split: list.splits)

end
