(* ===== verification/TinyMem.thy ===== *)
theory TinyMem
  imports Bus
begin

text \<open>
  \<^verbatim>\<open>rflpc17xx/tinylibc/memcpy.c\<close> and \<^verbatim>\<open>memset.c\<close>. Memory is a function from byte addresses
  to bytes; a word access is little endian, as the Cortex-M3 of the LPC17xx. A \<^verbatim>\<open>size_t\<close>
  is a \<^typ>\<open>u32\<close> and pointers are addresses, so both wrap. Duff's device is one function:
  the \<^verbatim>\<open>switch\<close> jumps into the loop body, which runs the rest of the body once and then
  eight steps for every further round of \<^verbatim>\<open>while (--count > 0)\<close>.
\<close>

type_synonym mem = "addr \<Rightarrow> u8"

definition ld32 :: "mem \<Rightarrow> addr \<Rightarrow> u32" where
  "ld32 m a = ucast (m a) OR shl (ucast (m (a + 1))) 8 OR
     shl (ucast (m (a + 2))) 16 OR shl (ucast (m (a + 3))) 24"

definition st32 :: "addr \<Rightarrow> u32 \<Rightarrow> mem \<Rightarrow> mem" where
  "st32 a v m = m(a := ucast v, a + 1 := ucast (shr v 8),
     a + 2 := ucast (shr v 16), a + 3 := ucast (shr v 24))"

definition IS_WORD_ALIGNED :: "addr \<Rightarrow> bool" where
  "IS_WORD_ALIGNED a \<longleftrightarrow> a AND 3 = 0"

section \<open>Duff's device\<close>

function duff_rounds :: "('s \<Rightarrow> 's) \<Rightarrow> int \<Rightarrow> 's \<Rightarrow> 's" where
  "duff_rounds step count s =
     (let count' = count - 1 in
      if count' > 0 then duff_rounds step count' ((step ^^ 8) s) else s)"
  by auto
termination by (relation "measure (\<lambda>(_, count, _). nat count)") auto

declare duff_rounds.simps [simp del]

definition duff :: "('s \<Rightarrow> 's) \<Rightarrow> u32 \<Rightarrow> int \<Rightarrow> 's \<Rightarrow> 's" where
  "duff step n count s =
     duff_rounds step count ((step ^^ (if n mod 8 = 0 then 8 else unat (n mod 8))) s)"

section \<open>memcpy\<close>

text \<open>The state of a copy loop: destination pointer, source pointer, memory.\<close>

type_synonym copy_state = "addr \<times> addr \<times> mem"

fun byte_copy1 :: "copy_state \<Rightarrow> copy_state" where
  "byte_copy1 (bdest, bsrc, m) = (bdest + 1, bsrc + 1, m(bdest := m bsrc))"

fun word_copy1 :: "copy_state \<Rightarrow> copy_state" where
  "word_copy1 (wdest, wsrc, m) = (wdest + 4, wsrc + 4, st32 wdest (ld32 m wsrc) m)"

definition rflpc_memcpy_unaligned_fast :: "addr \<Rightarrow> addr \<Rightarrow> u32 \<Rightarrow> mem \<Rightarrow> addr \<times> mem" where
  "rflpc_memcpy_unaligned_fast dest src n m =
     (let count = uint ((n + 7) div 8);
          (_, _, m) = duff byte_copy1 n count (dest, src, m)
      in (dest, m))"

definition rflpc_memcpy_aligned_fast :: "addr \<Rightarrow> addr \<Rightarrow> u32 \<Rightarrow> mem \<Rightarrow> addr \<times> mem" where
  "rflpc_memcpy_aligned_fast dest src n m =
     (let count = uint ((n div 4 + 7) div 8);
          (wdest, wsrc, m) = duff word_copy1 (n div 4) count (dest, src, m);
          n = n mod 4;
          m = (if n \<noteq> 0 then snd (rflpc_memcpy_unaligned_fast wdest wsrc n m) else m)
      in (dest, m))"

definition memcpy :: "addr \<Rightarrow> addr \<Rightarrow> u32 \<Rightarrow> mem \<Rightarrow> addr \<times> mem" where
  "memcpy dest src n m =
     (if n = 0 then (dest, m)
      else if IS_WORD_ALIGNED dest \<and> IS_WORD_ALIGNED src then rflpc_memcpy_aligned_fast dest src n m
      else rflpc_memcpy_unaligned_fast dest src n m)"

section \<open>memset\<close>

type_synonym set_state = "addr \<times> mem"

fun byte_set1 :: "u32 \<Rightarrow> set_state \<Rightarrow> set_state" where
  "byte_set1 c (bdest, m) = (bdest + 1, m(bdest := ucast c))"

fun word_set1 :: "u32 \<Rightarrow> set_state \<Rightarrow> set_state" where
  "word_set1 v (wdest, m) = (wdest + 4, st32 wdest v m)"

definition rflpc_memset_unaligned_fast :: "addr \<Rightarrow> u32 \<Rightarrow> u32 \<Rightarrow> mem \<Rightarrow> addr \<times> mem" where
  "rflpc_memset_unaligned_fast dest c n m =
     (let count = uint ((n + 7) div 8);
          (_, m) = duff (byte_set1 c) n count (dest, m)
      in (dest, m))"

definition rflpc_memset_aligned_fast :: "addr \<Rightarrow> u32 \<Rightarrow> u32 \<Rightarrow> mem \<Rightarrow> addr \<times> mem" where
  "rflpc_memset_aligned_fast dest c n m =
     (let val = shl c 24 OR shl c 16 OR shl c 8 OR c;
          count = uint ((n div 4 + 7) div 8);
          (wdest, m) = duff (word_set1 val) (n div 4) count (dest, m);
          n = n mod 4;
          m = (if n \<noteq> 0 then snd (rflpc_memset_unaligned_fast wdest c n m) else m)
      in (dest, m))"

text \<open>The head loop \<^verbatim>\<open>while (n && !IS_WORD_ALIGNED(bdest))\<close>.\<close>

function memset_head :: "u32 \<Rightarrow> u32 \<Rightarrow> addr \<Rightarrow> mem \<Rightarrow> u32 \<times> addr \<times> mem" where
  "memset_head c n bdest m =
     (if n \<noteq> 0 \<and> \<not> IS_WORD_ALIGNED bdest
      then memset_head c (n - 1) (bdest + 1) (m(bdest := ucast c))
      else (n, bdest, m))"
  by auto
termination
  by (relation "measure (\<lambda>(c, n, b, m). unat n)") (auto simp: unat_minus_one unat_gt_0)

declare memset_head.simps [simp del]

definition memset :: "addr \<Rightarrow> u32 \<Rightarrow> u32 \<Rightarrow> mem \<Rightarrow> addr \<times> mem" where
  "memset dest c n m =
     (if n = 0 then (dest, m)
      else let c = c AND 0xFF;
               (n, bdest, m) = memset_head c n dest m
           in if n \<noteq> 0 then rflpc_memset_aligned_fast bdest c n m else (dest, m))"

section \<open>How many steps Duff's device takes\<close>

lemma duff_rounds_eq: "duff_rounds step count s = (step ^^ (8 * nat (count - 1))) s"
proof (induction step count s rule: duff_rounds.induct)
  case (1 step count s)
  show ?case
  proof (cases "count - 1 > 0")
    case True
    then have "duff_rounds step count s = (step ^^ (8 * nat (count - 2))) ((step ^^ 8) s)"
      using 1 by (subst duff_rounds.simps) (simp add: Let_def)
    also have "\<dots> = (step ^^ (8 * nat (count - 2) + 8)) s"
      by (simp add: funpow_add)
    also have "8 * nat (count - 2) + 8 = 8 * nat (count - 1)"
      using True by (simp add: nat_diff_distrib)
    finally show ?thesis .
  next
    case False
    then show ?thesis by (subst duff_rounds.simps) simp
  qed
qed

text \<open>The number of steps, for a block of \<open>n\<close> elements.\<close>

definition duff_steps :: "nat \<Rightarrow> nat" where
  "duff_steps n = (if n mod 8 = 0 then 8 else n mod 8) + 8 * ((n + 7) div 8 - 1)"

lemma duff_steps_zero: "duff_steps 0 = 8"
  by (simp add: duff_steps_def)

lemma duff_steps_pos: "0 < n \<Longrightarrow> duff_steps n = n"
proof -
  assume "0 < n"
  define q where "q = n div 8"
  define r where "r = n mod 8"
  have n: "n = 8 * q + r" "r < 8" by (simp_all add: q_def r_def)
  show ?thesis
  proof (cases "r = 0")
    case True
    then have "(n + 7) div 8 = q" using n by simp
    moreover have "q \<noteq> 0" using n True \<open>0 < n\<close> by auto
    ultimately show ?thesis using n True by (auto simp: duff_steps_def)
  next
    case False
    then have "(n + 7) div 8 = q + 1" using n by simp
    then show ?thesis using n False by (auto simp: duff_steps_def)
  qed
qed

lemma duff_eq:
  assumes "unat n \<le> 2 ^ 32 - 8"
  shows "duff step n (uint ((n + 7) div 8)) s = (step ^^ duff_steps (unat n)) s"
proof -
  have "unat (n + 7) = unat n + 7"
    using assms by (subst unat_add_lem [THEN iffD1]) auto
  then have cnt: "nat (uint ((n + 7) div 8) - 1) = (unat n + 7) div 8 - 1"
    by (simp add: nat_diff_distrib' unat_div unat_eq_nat_uint [symmetric])
  have "unat (n mod 8) = unat n mod 8"
    by (simp add: unat_mod)
  moreover have "n mod 8 = 0 \<longleftrightarrow> unat n mod 8 = 0"
    by (metis calculation unat_eq_0)
  ultimately show ?thesis
    by (simp add: duff_def duff_rounds_eq cnt duff_steps_def funpow_add add.commute)
qed

section \<open>Reference: one byte after the other\<close>

fun byte_copy :: "addr \<Rightarrow> addr \<Rightarrow> nat \<Rightarrow> mem \<Rightarrow> mem" where
  "byte_copy d s 0 m = m"
| "byte_copy d s (Suc n) m = byte_copy (d + 1) (s + 1) n (m(d := m s))"

lemma byte_steps:
  "(byte_copy1 ^^ n) (d, s, m) = (d + of_nat n, s + of_nat n, byte_copy d s n m)"
  by (induction n arbitrary: d s m)
    (simp_all add: funpow_Suc_right algebra_simps del: funpow.simps(2))

lemma byte_copy_add:
  "byte_copy d s (j + k) m = byte_copy (d + of_nat j) (s + of_nat j) k (byte_copy d s j m)"
  by (induction j arbitrary: d s m) (simp_all add: algebra_simps)

lemma ucast_ld32:
  "(ucast (ld32 m a) :: u8) = m a" "(ucast (shr (ld32 m a) 8) :: u8) = m (a + 1)"
  "(ucast (shr (ld32 m a) 16) :: u8) = m (a + 2)" "(ucast (shr (ld32 m a) 24) :: u8) = m (a + 3)"
  by (rule bit_word_eqI, auto simp: ld32_def bit_simps dest: bit_imp_le_length)+

lemma funpow4: "(f ^^ 4) x = f (f (f (f x)))"
  by (simp add: numeral_eq_Suc)

lemma word_copy1_bytes:
  assumes "d - s \<noteq> 1" and "d - s \<noteq> 2" and "d - s \<noteq> 3"
  shows "word_copy1 (d, s, m) = (byte_copy1 ^^ 4) (d, s, m)"
proof -
  have "s + 1 \<noteq> d" "s + 2 \<noteq> d" "s + 3 \<noteq> d" using assms by auto
  moreover from this have "s + 2 \<noteq> d + 1" "s + 3 \<noteq> d + 1" "s + 3 \<noteq> d + 2"
    by (auto simp: algebra_simps)
  ultimately show ?thesis
    by (simp add: st32_def ucast_ld32 funpow4 algebra_simps)
qed

text \<open>
  Between word aligned pointers words either coincide or do not meet, so copying whole
  words is copying their bytes in order, also where the blocks overlap.
\<close>

lemma word_steps:
  assumes "d - s \<noteq> 1" and "d - s \<noteq> 2" and "d - s \<noteq> 3"
  shows "(word_copy1 ^^ n) (d, s, m) = (byte_copy1 ^^ (4 * n)) (d, s, m)"
proof (induction n)
  case (Suc n)
  have "(word_copy1 ^^ Suc n) (d, s, m) = word_copy1 ((byte_copy1 ^^ (4 * n)) (d, s, m))"
    by (simp add: Suc)
  also have "\<dots> = (byte_copy1 ^^ 4) ((byte_copy1 ^^ (4 * n)) (d, s, m))"
    using assms by (subst byte_steps, subst word_copy1_bytes) (auto simp: byte_steps)
  also have "\<dots> = (byte_copy1 ^^ (4 + 4 * n)) (d, s, m)"
    by (simp add: funpow_add)
  finally show ?case by simp
qed simp

lemma take_bit_push_bit_self: "take_bit k (push_bit k w) = (0 :: 'a::len word)"
  by (rule bit_word_eqI) (auto simp: bit_simps)

lemma aligned_diff:
  assumes "IS_WORD_ALIGNED d" and "IS_WORD_ALIGNED s"
  shows "d - s \<noteq> 1" and "d - s \<noteq> 2" and "d - s \<noteq> 3"
proof -
  have "w = push_bit 2 (drop_bit 2 w)" if "w AND 3 = 0" for w :: u32
    using that bits_ident [of 2 w] by (simp add: take_bit_eq_mask mask_eq_exp_minus_1)
  moreover have pd: "push_bit 2 a - push_bit 2 b = push_bit 2 (a - b)" for a b :: u32
    by (simp add: push_bit_eq_mult left_diff_distrib)
  ultimately have "d - s = push_bit 2 (drop_bit 2 d - drop_bit 2 s)"
    using assms by (metis IS_WORD_ALIGNED_def)
  then have "take_bit 2 (d - s) = 0"
    by (metis (no_types) take_bit_push_bit_self)
  then show "d - s \<noteq> 1" "d - s \<noteq> 2" "d - s \<noteq> 3" by auto
qed

text \<open>The block a forward copy leaves, where no byte is overwritten before it is read.\<close>

lemma byte_copy_apply:
  assumes "n \<le> 2 ^ 32" and "d = s \<or> n \<le> unat (d - s)"
  shows "byte_copy d s n m a = (if unat (a - d) < n then m (s + (a - d)) else m a)"
  using assms
proof (induction n arbitrary: a)
  case (Suc n)
  have last: "byte_copy d s (Suc n) m =
      (byte_copy d s n m)(d + of_nat n := byte_copy d s n m (s + of_nat n))"
    using byte_copy_add [of d s n 1 m] by simp
  have n: "unat (of_nat n :: u32) = n"
    using Suc.prems by (simp add: unat_of_nat)
  have "\<not> unat (s + of_nat n - d) < n"
  proof (cases "d = s")
    case True
    then show ?thesis using n by simp
  next
    case False
    with Suc.prems have le: "Suc n \<le> unat (d - s)" by simp
    define x where "x = d - s"
    have "unat (of_nat n - x) \<ge> n"
      using le n unat_u32 [of x]
      by (simp add: x_def [symmetric] unat_sub_if')
    then show ?thesis by (simp add: x_def algebra_simps)
  qed
  then have src: "byte_copy d s n m (s + of_nat n) = m (s + of_nat n)"
    using Suc by auto
  show ?case
  proof (cases "a = d + of_nat n")
    case True
    then show ?thesis using n by (simp add: last src del: byte_copy.simps)
  next
    case False
    then have "unat (a - d) \<noteq> n"
      using Suc.prems by (simp add: offset_eq)
    then show ?thesis using False Suc by (auto simp: last simp del: byte_copy.simps)
  qed
qed simp

text \<open>A forward copy of any length: a byte before the destination stays, and as long as the copy has not
  reached its own output, the bytes are the source's.\<close>

lemma byte_copy_outside: "n \<le> unat (a - d) \<Longrightarrow> byte_copy d s n m a = m a"
proof (induction n)
  case (Suc n)
  have "byte_copy d s (Suc n) m = (byte_copy d s n m)(d + of_nat n := byte_copy d s n m (s + of_nat n))"
    using byte_copy_add [of d s n 1 m] by simp
  moreover have "a \<noteq> d + of_nat n"
  proof
    assume "a = d + of_nat n"
    then have "unat (a - d) \<le> n" by (simp add: unat_of_nat)
    with Suc.prems show False by simp
  qed
  ultimately show ?case using Suc by (simp del: byte_copy.simps)
qed simp

lemma byte_copy_prefix:
  assumes i: "unat i < n" "n \<le> 2 ^ 32" "unat i < unat (d - s)"
  shows "byte_copy d s n m (d + i) = m (s + i)"
proof -
  obtain j where n: "n = Suc (unat i) + j" using i(1) less_iff_Suc_add by auto
  define m1 where "m1 = byte_copy d s (Suc (unat i)) m"
  have split: "byte_copy d s n m = byte_copy (d + of_nat (Suc (unat i))) (s + of_nat (Suc (unat i))) j m1"
    using byte_copy_add [of d s "Suc (unat i)" j m] by (simp only: n m1_def)
  have "d + i - (d + of_nat (Suc (unat i))) = - 1" by simp
  then have "unat (d + i - (d + of_nat (Suc (unat i)))) = 2 ^ 32 - 1" by (simp add: unsigned_minus_1_eq_mask mask_eq_exp_minus_1)
  then have "j \<le> unat (d + i - (d + of_nat (Suc (unat i))))" using i(2) n by simp
  then have "byte_copy d s n m (d + i) = m1 (d + i)" unfolding split by (rule byte_copy_outside)
  also have "\<dots> = m (s + i)"
    using byte_copy_apply [of "Suc (unat i)" d s m "d + i"] i by (simp add: m1_def)
  finally show ?thesis .
qed


section \<open>memcpy is a forward copy\<close>

lemma unat_div4: "unat (n div 4 :: u32) = unat n div 4"
  by (simp add: unat_div)

lemma unat_mod4: "unat (n mod 4 :: u32) = unat n mod 4"
  by (simp add: unat_mod)

lemma duff_eq_div4: "duff step (n div 4) (uint ((n div 4 + 7) div 8)) s = (step ^^ duff_steps (unat n div 4)) s"
proof -
  have "unat n < 2 ^ 32" using unat_u32 [of n] by simp
  then have "unat n div 4 \<le> 2 ^ 32 - 8" by simp
  then show ?thesis
    using duff_eq [of "n div 4"] by (simp add: unat_div4)
qed

lemma memcpy_unaligned_bytes:
  assumes "0 < unat n" and "unat n \<le> 2 ^ 32 - 8"
  shows "rflpc_memcpy_unaligned_fast d s n m = (d, byte_copy d s (unat n) m)"
  using assms
  by (simp add: rflpc_memcpy_unaligned_fast_def duff_eq duff_steps_pos byte_steps)

lemma memcpy_aligned_bytes:
  assumes "IS_WORD_ALIGNED d" and "IS_WORD_ALIGNED s"
  shows "rflpc_memcpy_aligned_fast d s n m =
    (d, byte_copy d s (4 * duff_steps (unat n div 4) + unat n mod 4) m)"
proof -
  define w where "w = 4 * duff_steps (unat n div 4)"
  have words: "duff word_copy1 (n div 4) (uint ((n div 4 + 7) div 8)) (d, s, m) =
      (d + of_nat w, s + of_nat w, byte_copy d s w m)"
    by (simp only: duff_eq_div4 word_steps [OF aligned_diff [OF assms]] byte_steps w_def)
  have "unat (n mod 4) \<le> 2 ^ 32 - 8"
    by (simp add: unat_mod4)
  then have tail: "(if n mod 4 \<noteq> 0
      then snd (rflpc_memcpy_unaligned_fast (d + of_nat w) (s + of_nat w) (n mod 4) m') else m') =
      byte_copy (d + of_nat w) (s + of_nat w) (unat n mod 4) m'" for m'
    using memcpy_unaligned_bytes [of "n mod 4"]
    by (cases "n mod 4 = 0") (auto simp: unat_mod4 [symmetric] unat_gt_0)
  show ?thesis
    by (simp only: rflpc_memcpy_aligned_fast_def words Let_def case_prod_conv tail
        byte_copy_add w_def [symmetric])
qed

text \<open>The requests the routine serves as a copy of \<open>n\<close> bytes.\<close>

definition memcpy_ok :: "addr \<Rightarrow> addr \<Rightarrow> u32 \<Rightarrow> bool" where
  "memcpy_ok d s n \<longleftrightarrow> n = 0 \<or>
     (if IS_WORD_ALIGNED d \<and> IS_WORD_ALIGNED s then 4 \<le> unat n else unat n \<le> 2 ^ 32 - 8)"

lemma memcpy_bytes:
  assumes "memcpy_ok d s n"
  shows "memcpy d s n m = (d, byte_copy d s (unat n) m)"
proof (cases "n = 0")
  case False
  show ?thesis
  proof (cases "IS_WORD_ALIGNED d \<and> IS_WORD_ALIGNED s")
    case True
    with assms False have "0 < unat n div 4" by (simp add: memcpy_ok_def)
    then have "4 * duff_steps (unat n div 4) + unat n mod 4 = unat n"
      by (simp add: duff_steps_pos)
    then show ?thesis
      using True False memcpy_aligned_bytes [of d s n m] by (simp add: memcpy_def)
  next
    case no: False
    then show ?thesis
      using assms False memcpy_unaligned_bytes [of n]
      by (auto simp: memcpy_def memcpy_ok_def unat_gt_0)
  qed
qed (simp add: memcpy_def)

section \<open>memset fills\<close>

definition fill_bytes :: "addr \<Rightarrow> nat \<Rightarrow> u8 \<Rightarrow> mem \<Rightarrow> mem" where
  "fill_bytes d n b m = (\<lambda>a. if unat (a - d) < n then b else m a)"

lemma fill_bytes_0 [simp]: "fill_bytes d 0 b m = m"
  by (simp add: fill_bytes_def)

lemma fill_bytes_Suc:
  assumes "n < 2 ^ 32"
  shows "(fill_bytes d n b m)(d + of_nat n := b) = fill_bytes d (Suc n) b m"
proof
  fix a
  have "a = d + of_nat n \<longleftrightarrow> unat (a - d) = n"
    using assms by (simp add: offset_eq)
  then show "((fill_bytes d n b m)(d + of_nat n := b)) a = fill_bytes d (Suc n) b m a"
    by (auto simp: fill_bytes_def)
qed

lemma byte_set_steps:
  "n \<le> 2 ^ 32 \<Longrightarrow> (byte_set1 c ^^ n) (d, m) = (d + of_nat n, fill_bytes d n (ucast c) m)"
proof (induction n)
  case (Suc n)
  then show ?case
    using fill_bytes_Suc [of n d "ucast c" m] by (simp add: algebra_simps)
qed simp

lemma bit_ff: "bit (0xFF :: u32) k \<longleftrightarrow> k < 8"
  using bit_mask_iff [of 8 k, where ?'a = u32] by (auto simp: mask_eq_exp_minus_1)

lemma memset_word_bytes:
  assumes "c AND 0xFF = c"
  shows "word_set1 (shl c 24 OR shl c 16 OR shl c 8 OR c) (d, m) = (byte_set1 c ^^ 4) (d, m)"
proof -
  have c: "k < 8" if "bit c k" for k
  proof -
    have "bit c k = (bit c k \<and> bit (0xFF :: u32) k)"
      using bit_and_iff [of c "0xFF" k] unfolding assms .
    with that show ?thesis unfolding bit_ff by blast
  qed
  let ?v = "shl c 24 OR shl c 16 OR shl c 8 OR c"
  have "(ucast ?v :: u8) = ucast c" "(ucast (shr ?v 8) :: u8) = ucast c"
    "(ucast (shr ?v 16) :: u8) = ucast c" "(ucast (shr ?v 24) :: u8) = ucast c"
    by (rule bit_word_eqI, auto simp: bit_simps dest: c)+
  then show ?thesis
    by (simp add: st32_def funpow4 algebra_simps)
qed

lemma memset_word_steps:
  assumes "c AND 0xFF = c"
  shows "(word_set1 (shl c 24 OR shl c 16 OR shl c 8 OR c) ^^ n) s = (byte_set1 c ^^ (4 * n)) s"
proof (induction n)
  case (Suc n)
  have "(byte_set1 c ^^ (4 * Suc n)) s = (byte_set1 c ^^ 4) ((byte_set1 c ^^ (4 * n)) s)"
    by (simp add: funpow_add)
  with Suc show ?case
    using memset_word_bytes [OF assms] by (cases "(byte_set1 c ^^ (4 * n)) s") simp
qed simp

text \<open>The bytes the head loop sets: up to the next word boundary.\<close>

definition head_len :: "addr \<Rightarrow> u32 \<Rightarrow> nat" where
  "head_len b n = min (unat n) (unat (- b AND 3))"

lemma unat_and3: "unat (w AND 3 :: u32) = unat w mod 4"
proof -
  have "w AND 3 = w mod 4"
    using take_bit_eq_mask [of 2 w] by (simp add: mask_eq_exp_minus_1 take_bit_eq_mod)
  then show ?thesis by (simp add: unat_mod4)
qed

lemma pred_mod4: "u mod 4 \<noteq> 0 \<Longrightarrow> (u - 1) mod 4 = u mod 4 - (1 :: nat)"
  by (cases u) (auto simp: mod_Suc split: if_splits)

lemma sub_mod4: "x \<le> 4 * k \<Longrightarrow> (4 * k - x) mod 4 = 0 \<longleftrightarrow> x mod 4 = (0 :: nat)"
  by (auto simp: mod_eq_0_iff_dvd dest: dvd_diffD1 intro: dvd_diff_nat)

lemma aligned_neg: "IS_WORD_ALIGNED b \<longleftrightarrow> unat (- b) mod 4 = 0"
proof -
  have "unat (- b) = (if unat b = 0 then 0 else 4294967296 - unat b)"
    using unat_sub_if' [of 0 b] by simp
  then have "unat (- b) mod 4 = 0 \<longleftrightarrow> unat b mod 4 = 0"
    using unat_u32 [of b] sub_mod4 [of "unat b" 1073741824] by (simp del: mod_eq_0_iff_dvd)
  moreover have "b AND 3 = 0 \<longleftrightarrow> unat (b AND 3) = 0" by (simp add: unat_eq_0)
  ultimately show ?thesis by (simp add: IS_WORD_ALIGNED_def unat_and3)
qed

lemma head_len_step:
  assumes "n \<noteq> 0" and "\<not> IS_WORD_ALIGNED b"
  shows "head_len b n = Suc (head_len (b + 1) (n - 1))"
proof -
  define u where "u = unat (- b)"
  have ne: "u mod 4 \<noteq> 0" using assms(2) by (simp add: aligned_neg u_def)
  then have "- b \<noteq> 0" by (auto simp: u_def)
  then have "unat (- (b + 1)) = u - 1"
    using unat_minus_one [of "- b"] by (simp add: u_def)
  then have b: "unat (- (b + 1)) mod 4 = u mod 4 - 1"
    using pred_mod4 [OF ne] by simp
  have n: "unat (n - 1) = unat n - 1" "0 < unat n"
    using assms(1) by (simp_all add: unat_minus_one unat_gt_0)
  have "min a c = Suc (min (a - 1) (c - 1))" if "0 < a" "c \<noteq> 0" for a c :: nat
    using that by auto
  from this [OF n(2) ne] show ?thesis
    unfolding head_len_def unat_and3 b n(1) by (simp add: u_def)
qed

lemma memset_head_eq:
  "memset_head c n b m =
     (n - of_nat (head_len b n), b + of_nat (head_len b n), fill_bytes b (head_len b n) (ucast c) m)"
proof (induction c n b m rule: memset_head.induct)
  case (1 c n b m)
  show ?case
  proof (cases "n \<noteq> 0 \<and> \<not> IS_WORD_ALIGNED b")
    case True
    have len: "head_len (b + 1) (n - 1) < 2 ^ 32"
      using unat_u32 [of "n - 1"] by (simp add: head_len_def)
    have "fill_bytes (b + 1) k (ucast c) (m(b := ucast c)) = fill_bytes b (Suc k) (ucast c) m"
      if "k < 2 ^ 32" for k
      using byte_set_steps [of k c "b + 1" "m(b := ucast c)"] byte_set_steps [of "Suc k" c b m] that
      by (simp add: funpow_Suc_right del: funpow.simps(2))
    from this [OF len] 1 [OF True] True head_len_step [of n b] show ?thesis
      by (subst memset_head.simps) (simp add: algebra_simps del: fun_upd_apply)
  next
    case False
    then have "head_len b n = 0" by (auto simp: head_len_def aligned_neg unat_and3)
    with False show ?thesis by (subst memset_head.simps) auto
  qed
qed

lemma memset_aligned_fill:
  assumes "c AND 0xFF = c" and "4 \<le> unat n"
  shows "rflpc_memset_aligned_fast d c n m = (d, fill_bytes d (unat n) (ucast c) m)"
proof -
  define w where "w = 4 * (unat n div 4)"
  have w: "w \<le> 2 ^ 32" "w + unat n mod 4 = unat n" "unat n \<le> 2 ^ 32"
    using unat_u32 [of n] by (simp_all add: w_def)
  have words: "duff (word_set1 (shl c 24 OR shl c 16 OR shl c 8 OR c)) (n div 4)
      (uint ((n div 4 + 7) div 8)) (d, m) = (byte_set1 c ^^ w) (d, m)"
    using assms by (simp add: duff_eq_div4 memset_word_steps duff_steps_pos w_def)
  have tail: "(if n mod 4 \<noteq> 0 then snd (rflpc_memset_unaligned_fast d' c (n mod 4) m') else m') =
      snd ((byte_set1 c ^^ (unat n mod 4)) (d', m'))" for d' m'
  proof -
    have "unat n mod 4 \<le> 2 ^ 32 - 8" by simp
    then show ?thesis
      using duff_eq [of "n mod 4" "byte_set1 c" "(d', m')"] duff_steps_pos [of "unat n mod 4"]
      by (cases "n mod 4 = 0")
        (auto simp: rflpc_memset_unaligned_fast_def unat_mod4 split_def unat_eq_0 [symmetric])
  qed
  have "snd ((byte_set1 c ^^ (unat n mod 4)) ((byte_set1 c ^^ w) (d, m))) =
      snd ((byte_set1 c ^^ unat n) (d, m))"
    using w(2) funpow_add [of "unat n mod 4" w "byte_set1 c"] by (simp add: add.commute)
  then show ?thesis
    using w words tail
    by (simp add: rflpc_memset_aligned_fast_def split_def Let_def byte_set_steps)
qed


text \<open>The requests memset serves: what is left after the head is empty or at least a word.\<close>

definition memset_ok :: "addr \<Rightarrow> u32 \<Rightarrow> bool" where
  "memset_ok d n \<longleftrightarrow> unat n \<le> unat (- d AND 3) \<or> unat (- d AND 3) + 4 \<le> unat n"

lemma fill_bytes_add:
  assumes "j + k \<le> 2 ^ 32"
  shows "fill_bytes (d + of_nat j) k b (fill_bytes d j b m) = fill_bytes d (j + k) b m"
proof -
  have "(byte_set1 (ucast b) ^^ (k + j)) (d, m) =
      (byte_set1 (ucast b) ^^ k) ((byte_set1 (ucast b) ^^ j) (d, m))"
    by (simp add: funpow_add)
  moreover have "ucast (ucast b :: u32) = b"
    by (rule bit_word_eqI) (simp add: bit_simps)
  ultimately show ?thesis
    using assms by (simp add: byte_set_steps add.commute)
qed

lemma memset_eq:
  assumes "memset_ok d n"
  shows "memset d c n m =
    (if unat n \<le> unat (- d AND 3) then d else d + (- d AND 3), fill_bytes d (unat n) (ucast c) m)"
proof (cases "n = 0")
  case False
  define h where "h = unat (- d AND 3)"
  have c: "ucast (c AND 0xFF) = (ucast c :: u8)" "(c AND 0xFF) AND 0xFF = c AND 0xFF"
    by (rule bit_word_eqI; unfold bit_unsigned_iff bit_and_iff bit_ff; auto)+
  show ?thesis
  proof (cases "unat n \<le> h")
    case True
    then have "head_len d n = unat n" by (simp add: head_len_def h_def)
    with True False show ?thesis
      by (simp add: memset_def memset_head_eq c h_def)
  next
    case small: False
    then have hl: "head_len d n = h" by (simp add: head_len_def h_def)
    have n4: "h + 4 \<le> unat n" using assms small by (simp add: memset_ok_def h_def)
    have un: "unat (n - of_nat h) = unat n - h"
      using n4 unat_u32 [of n] by (simp add: unat_sub_if' unat_of_nat)
    then have "n - of_nat h \<noteq> 0" using n4 by auto
    moreover have "of_nat h = - d AND 3" by (simp add: h_def)
    moreover have "fill_bytes (d + of_nat h) (unat n - h) (ucast c) (fill_bytes d h (ucast c) m) =
        fill_bytes d (unat n) (ucast c) m"
      using fill_bytes_add [of h "unat n - h" d "ucast c" m] n4 unat_u32 [of n] by simp
    ultimately show ?thesis
      using False small n4 un
      by (simp add: memset_def memset_head_eq hl c memset_aligned_fill Let_def h_def)
  qed
qed (simp add: memset_def)


text \<open>A word read back, and what a word access depends on.\<close>

lemma ld32_st32: "ld32 (st32 a v m) a = v"
proof -
  have ne: "a \<noteq> a + 1" "a \<noteq> a + 2" "a \<noteq> a + 3" "a + 1 \<noteq> a + 2" "a + 1 \<noteq> a + 3" "a + 2 \<noteq> a + 3"
    by simp_all
  show ?thesis
  proof (rule bit_word_eqI)
    fix n assume "n < LENGTH(32)"
    then show "bit (ld32 (st32 a v m) a) n = bit v n"
      by (cases "24 \<le> n"; cases "16 \<le> n"; cases "8 \<le> n") (use ne in \<open>auto simp: ld32_def st32_def bit_simps\<close>)
  qed
qed

text \<open>A word store changes its four bytes only.\<close>

lemma st32_other: "unat (b - a) \<ge> 4 \<Longrightarrow> st32 a v m b = m b"
  by (auto simp: st32_def)

lemma ld32_cong:
  assumes "\<And>i. i < 4 \<Longrightarrow> m (a + of_nat i) = m' (a + of_nat i)"
  shows "ld32 m a = ld32 m' a"
  using assms [of 0] assms [of 1] assms [of 2] assms [of 3] by (simp add: ld32_def)

section \<open>The contract clients rely on\<close>

text \<open>A routine that copies a block, for the requests it accepts.\<close>

locale block_copier =
  fixes copy :: "addr \<Rightarrow> addr \<Rightarrow> u32 \<Rightarrow> mem \<Rightarrow> addr \<times> mem"
    and ok :: "addr \<Rightarrow> addr \<Rightarrow> u32 \<Rightarrow> bool"
  assumes copy_apply: "ok d s n \<Longrightarrow>
      snd (copy d s n m) a = (if a - d < n then m (s + (a - d)) else m a)"
    and copy_ret: "fst (copy d s n m) = d"
begin

text \<open>The destination holds the source block, everything outside it is untouched.\<close>

lemma copied: "ok d s n \<Longrightarrow> i < n \<Longrightarrow> snd (copy d s n m) (d + i) = m (s + i)"
  by (simp add: copy_apply)

lemma untouched: "ok d s n \<Longrightarrow> \<not> a - d < n \<Longrightarrow> snd (copy d s n m) a = m a"
  by (simp add: copy_apply)

text \<open>Copying there and back restores the block, when the blocks are apart.\<close>

lemma copy_back:
  assumes "ok d s n" and "ok s d n"
  shows "snd (copy s d n (snd (copy d s n m))) a = (if a - s < n then m a else snd (copy d s n m) a)"
  using assms by (simp add: copy_apply)

end

definition memcpy_apart :: "addr \<Rightarrow> addr \<Rightarrow> u32 \<Rightarrow> bool" where
  "memcpy_apart d s n \<longleftrightarrow> memcpy_ok d s n \<and> (d = s \<or> n \<le> d - s)"

lemma memcpy_apply:
  assumes "memcpy_apart d s n"
  shows "snd (memcpy d s n m) a = (if a - d < n then m (s + (a - d)) else m a)"
  using assms byte_copy_apply [of "unat n" d s m a] unat_u32 [of n]
  by (auto simp: memcpy_apart_def memcpy_bytes word_less_nat_alt word_le_nat_alt)

lemma memcpy_fst: "fst (memcpy d s n m) = d"
  by (simp add: memcpy_def rflpc_memcpy_aligned_fast_def rflpc_memcpy_unaligned_fast_def
      Let_def split_def)

interpretation memcpy: block_copier memcpy memcpy_apart
  by unfold_locales (simp_all add: memcpy_apply memcpy_fst)

section \<open>Properties\<close>

text \<open>C1. memcpy copies: for every request but a non-empty one of fewer than four bytes between two
  word aligned pointers (and one of more than \<^verbatim>\<open>SIZE_MAX - 7\<close> bytes between unaligned ones), the
  destination block holds what the source block held, no other byte changes, and \<^verbatim>\<open>dest\<close> is
  returned. The blocks may overlap as long as the destination does not start inside the
  source.\<close>

theorem memcpy_copies:
  assumes "n = 0 \<or> (if IS_WORD_ALIGNED d \<and> IS_WORD_ALIGNED s then 4 \<le> n else n \<le> 0xFFFFFFF8)"
    and "d = s \<or> n \<le> d - s"
  shows "memcpy d s n m = (d, \<lambda>a. if a - d < n then m (s + (a - d)) else m a)"
proof -
  have "memcpy_apart d s n"
    using assms by (auto simp: memcpy_apart_def memcpy_ok_def word_le_nat_alt split: if_splits)
  then show ?thesis
    by (simp add: prod_eq_iff fun_eq_iff memcpy.copy_apply memcpy.copy_ret)
qed

lemma memcpy_copies_witness:
  "fst (memcpy 0x20000101 0x10000000 9 (\<lambda>a. ucast a)) = 0x20000101 \<and>
   snd (memcpy 0x20000101 0x10000000 9 (\<lambda>a. ucast a)) 0x20000109 = 8 \<and>
   snd (memcpy 0x20000101 0x10000000 9 (\<lambda>a. ucast a)) 0x2000010A = 0x0A"
  using memcpy_copies [of 9 "0x20000101" "0x10000000" "\<lambda>a. ucast a"]
  by (simp_all add: IS_WORD_ALIGNED_def)

text \<open>C25. A request of one to three bytes between two word aligned pointers is not served: the word
  loop of Duff's device is entered with a count of zero, runs once, and the routine copies
  32 bytes before the one to three it was asked for.\<close>

theorem memcpy_short_aligned_overruns:
  assumes "IS_WORD_ALIGNED d" and "IS_WORD_ALIGNED s" and "0 < n" and "n < 4"
    and "32 + n \<le> d - s"
  shows "memcpy d s n m = (d, \<lambda>a. if a - d < 32 + n then m (s + (a - d)) else m a)"
proof -
  have n: "unat n div 4 = 0" "unat n mod 4 = unat n" "unat (32 + n) = 32 + unat n"
    using assms(4) by (auto simp: word_less_nat_alt unat_word_ariths)
  have "memcpy d s n m = (d, byte_copy d s (32 + unat n) m)"
    using assms memcpy_aligned_bytes [of d s n m]
    by (auto simp: memcpy_def duff_steps_zero n)
  moreover have "byte_copy d s (32 + unat n) m a =
      (if a - d < 32 + n then m (s + (a - d)) else m a)" for a
    using byte_copy_apply [of "32 + unat n" d s m a] assms(5) n(3) unat_u32 [of "32 + n"]
    by (simp add: word_less_nat_alt word_le_nat_alt)
  ultimately show ?thesis by (simp add: fun_eq_iff)
qed

lemma memcpy_short_aligned_overruns_witness:
  "snd (memcpy 0x20000100 0x10000000 2 (\<lambda>a. ucast a)) 0x20000121 = 0x21"
  using memcpy_short_aligned_overruns [of "0x20000100" "0x10000000" 2 "\<lambda>a. ucast a"]
  by (simp add: IS_WORD_ALIGNED_def)

text \<open>C12. memset fills: unless one to three bytes are left when the head loop has reached a word
  boundary, the block holds the low byte of \<^verbatim>\<open>c\<close> everywhere and no other byte changes. The
  pointer returned is \<^verbatim>\<open>dest\<close> only when \<^verbatim>\<open>dest\<close> is word aligned or the block ends before the next
  boundary; otherwise it is that boundary.\<close>

theorem memset_fills:
  assumes "n \<le> - d AND 3 \<or> (- d AND 3) + 4 \<le> n"
  shows "memset d c n m =
    (if n \<le> - d AND 3 then d else d + (- d AND 3), \<lambda>a. if a - d < n then ucast c else m a)"
proof -
  have "unat ((- d AND 3) + 4) = unat (- d AND 3) + 4"
    by (simp add: unat_word_ariths unat_and3)
  then have "memset_ok d n"
    using assms by (simp add: memset_ok_def word_le_nat_alt)
  then show ?thesis
    by (simp add: memset_eq fill_bytes_def word_le_nat_alt word_less_nat_alt fun_eq_iff)
qed

lemma memset_fills_witness:
  "fst (memset 0x10000003 0x1FF 9 (\<lambda>a. 0)) = 0x10000004 \<and>
   snd (memset 0x10000003 0x1FF 9 (\<lambda>a. 0)) 0x1000000B = 0xFF \<and>
   snd (memset 0x10000003 0x1FF 9 (\<lambda>a. 0)) 0x1000000C = 0"
  using memset_fills [of 9 "0x10000003" "0x1FF" "\<lambda>a. 0"]
  by (simp_all add: word_le_nat_alt unsigned_numeral)

end
