(* ===== verification/Rand.thy ===== *)
theory Rand
  imports Prelude
begin

text \<open>
  \<^verbatim>\<open>rflpc17xx/tinylibc/rand.c\<close>: the pseudo-random generator. The seed is an
  \<^verbatim>\<open>unsigned int\<close>, so every step wraps at 32 bits. \<^verbatim>\<open>int result\<close> receives three groups of
  bits by shift and exclusive or.
\<close>

definition RAND_MAX :: int where "RAND_MAX = 2147483647"

definition rand_r :: "u32 \<Rightarrow> u32 \<times> u32" where
  "rand_r seed =
     (let next = seed;
          next = next * 1103515245;
          next = next + 12345;
          result = (next div 65536) mod 2048;
          next = next * 1103515245;
          next = next + 12345;
          result = shl result 10;
          result = result XOR (next div 65536) mod 1024;
          next = next * 1103515245;
          next = next + 12345;
          result = shl result 10;
          result = result XOR (next div 65536) mod 1024
      in (result, next))"

text \<open>The static variable \<^verbatim>\<open>_seed\<close> is the state of \<^verbatim>\<open>srand\<close> and \<^verbatim>\<open>rand\<close>.\<close>

definition srand :: "u32 \<Rightarrow> u32 \<Rightarrow> u32" where
  "srand seed old = seed"

definition rand :: "u32 \<Rightarrow> u32 \<times> u32" where
  "rand seed = rand_r seed"

section \<open>The seed sequence\<close>

text \<open>One step of the linear congruence, over the integers.\<close>

definition lcg :: "int \<Rightarrow> int" where "lcg x = x * 1103515245 + 12345"

definition next_seed :: "u32 \<Rightarrow> u32" where "next_seed s = snd (rand_r s)"

lemma next_seed_lcg: "next_seed (of_int x) = of_int ((lcg ^^ 3) x)"
  by (simp add: next_seed_def rand_r_def Let_def lcg_def numeral_eq_Suc)
 
fun geo :: "nat \<Rightarrow> int" where
  "geo 0 = 0"
| "geo (Suc n) = 1 + 1103515245 * geo n"

lemma lcg_iter: "(lcg ^^ n) x = 1103515245 ^ n * x + 12345 * geo n"
  by (induction n) (simp_all add: lcg_def algebra_simps)

lemma geo_pow: "1103515244 * geo n = 1103515245 ^ n - 1"
  by (induction n) (simp_all add: algebra_simps)

lemma geo_double: "geo (2 * m) = geo m * (1 + 1103515245 ^ m)"
proof -
  have "1103515244 * geo (2 * m) = 1103515244 * (geo m * (1 + 1103515245 ^ m))"
    by (simp only: geo_pow mult.assoc [symmetric]) (simp add: power_mult power2_eq_square algebra_simps)
  then show ?thesis by simp
qed

lemma geo_odd: "odd (geo n) \<longleftrightarrow> odd n"
  by (induction n) auto

lemma one_plus_pow: "\<exists>q. 1 + 1103515245 ^ m = 2 * (2 * q + 1 :: int)"
proof -
  have "(1103515245 :: int) ^ m mod 4 = 1"
    using power_mod [of "1103515245 :: int" 4 m] by simp
  then have "1 + 1103515245 ^ m = 2 * (2 * ((1103515245 ^ m) div 4) + 1 :: int)"
    using div_mult_mod_eq [of "1103515245 ^ m :: int" 4] by simp
  then show ?thesis ..
qed

text \<open>The power of two in the geometric sum is the power of two in its length.\<close>

lemma two_power_dvd_geo: "2 ^ k dvd geo n \<longleftrightarrow> 2 ^ k dvd n"
proof (induction k arbitrary: n)
  case (Suc k)
  show ?case
  proof (cases "odd n")
    case True
    then have "odd (geo n)" by (simp add: geo_odd)
    with True show ?thesis using dvd_mult_left [of 2] by (metis power_Suc)
  next
    case False
    then obtain m where m: "n = 2 * m" by blast
    obtain q where q: "1 + 1103515245 ^ m = 2 * (2 * q + 1 :: int)"
      using one_plus_pow by blast
    have "geo n = 2 * (geo m * (2 * q + 1))"
      unfolding m geo_double q by (rule mult.left_commute)
    then have "2 ^ Suc k dvd geo n \<longleftrightarrow> 2 ^ k dvd geo m * (2 * q + 1)"
      by (simp only: power_Suc dvd_mult_cancel_left) simp
    also have "\<dots> \<longleftrightarrow> 2 ^ k dvd geo m"
      by (rule coprime_dvd_mult_left_iff) simp
    finally have step: "2 ^ Suc k dvd geo n \<longleftrightarrow> 2 ^ k dvd geo m" .
    have "2 ^ Suc k dvd n \<longleftrightarrow> 2 ^ k dvd m"
      by (simp only: m power_Suc dvd_mult_cancel_left) simp
    with step Suc show ?thesis by blast
  qed
qed simp

lemma lcg_fixed: "2 ^ k dvd (lcg ^^ n) x - x \<longleftrightarrow> 2 ^ k dvd n"
proof -
  have "(lcg ^^ n) x - x = geo n * (1103515244 * x + 12345)"
  proof -
    have pow: "1103515245 ^ n = 1 + 1103515244 * geo n" using geo_pow [of n] by simp
    show ?thesis by (simp only: lcg_iter pow) (simp add: algebra_simps)
  qed
  moreover have "coprime (2 ^ k) (1103515244 * x + 12345)" by simp
  ultimately show ?thesis
    by (simp add: coprime_dvd_mult_left_iff two_power_dvd_geo)
qed

lemma next_seed_iter: "(next_seed ^^ n) (of_int x) = of_int ((lcg ^^ (3 * n)) x)"
  by (induction n) (simp_all add: next_seed_lcg funpow_add)

section \<open>The range\<close>

lemma rand_r_bits:
  assumes "31 \<le> k"
  shows "\<not> bit (fst (rand_r s)) k"
proof -
  have mod_bits: "(y :: u32) mod 2048 = take_bit 11 y" "y mod 1024 = take_bit 10 y" for y
    by (simp_all add: take_bit_eq_mod)
  show ?thesis
    using assms by (auto simp: rand_r_def Let_def mod_bits bit_simps)
qed

section \<open>Properties\<close>

text \<open>\<^verbatim>\<open>rand\<close> returns a non-negative \<^verbatim>\<open>int\<close> of at most \<^verbatim>\<open>RAND_MAX\<close>.\<close>

theorem rand_range: "0 \<le> sint (fst (rand seed)) \<and> sint (fst (rand seed)) \<le> RAND_MAX"
proof -
  let ?r = "fst (rand_r seed)"
  have "take_bit 31 ?r = ?r"
    by (rule bit_word_eqI) (metis bit_take_bit_iff not_less rand_r_bits)
  then have "uint ?r < 2 ^ 31"
    by (metis take_bit_int_less_exp unsigned_take_bit_eq)
  then have "sint ?r = uint ?r"
    using signed_take_bit_int_eq_self [of 31 "uint ?r"] order_trans [of "- (2 ^ 31)" 0 "uint ?r"]
    by (simp add: sint_uint)
  with \<open>uint ?r < 2 ^ 31\<close> show ?thesis
    by (simp add: rand_def RAND_MAX_def)
qed

text \<open>The seed sequence has full period: \<open>n\<close> calls of \<^verbatim>\<open>rand_r\<close> bring a seed back exactly when
  \<open>n\<close> is a multiple of \<open>2 ^ 32\<close>, whatever the seed.\<close>

theorem rand_r_period: "((\<lambda>s. snd (rand_r s)) ^^ n) seed = seed \<longleftrightarrow> 2 ^ 32 dvd n"
proof -
  obtain x where x: "seed = of_int x"
    by (metis word_of_int_uint)
  have "((\<lambda>s. snd (rand_r s)) ^^ n) seed = of_int ((lcg ^^ (3 * n)) x)"
    using next_seed_iter [of n x] by (simp add: next_seed_def [abs_def] x)
  also have "\<dots> = seed \<longleftrightarrow> 2 ^ 32 dvd (lcg ^^ (3 * n)) x - x"
    by (simp add: x word_of_int_eq_iff take_bit_eq_mod mod_eq_dvd_iff)
  also have "\<dots> \<longleftrightarrow> 2 ^ 32 dvd n"
  proof -
    have "coprime (2 ^ 32 :: nat) 3"
      by (simp only: coprime_power_left_iff coprime_left_2_iff_odd) simp
    then show ?thesis
      by (simp only: lcg_fixed coprime_dvd_mult_right_iff)
  qed
  finally show ?thesis .
qed

end
