(* ===== verification/Printf.thy ===== *)
theory Printf
  imports Prelude
begin

text \<open>
  \<^verbatim>\<open>rflpc17xx/tinylibc/printf.c\<close>. The output function is the function pointer
  \<^verbatim>\<open>_rflpc_putchar\<close>: a parameter \<open>putc\<close> acting on the state \<open>'s\<close> of whatever it drives.
  Each macro of the file is a function on the pair of the variable \<^verbatim>\<open>count\<close> and that
  state. The format is the characters before its terminator; the terminator itself is the
  empty rest, and a step past it, which in C reads outside the string, is \<^const>\<open>None\<close>, as
  is a \<^verbatim>\<open>va_arg\<close> with no argument left. The characters of a \<^verbatim>\<open>%s\<close> argument are looked up by
  \<open>str_at\<close>, the C strings in memory.
\<close>

type_synonym 's out = "nat \<times> 's"

definition PUTCHAR :: "(nat \<Rightarrow> 's \<Rightarrow> 's) \<Rightarrow> nat \<Rightarrow> 's out \<Rightarrow> 's out" where
  "PUTCHAR putc c st = (fst st + 1, putc c (snd st))"

fun PUTS :: "(nat \<Rightarrow> 's \<Rightarrow> 's) \<Rightarrow> string \<Rightarrow> 's out \<Rightarrow> 's out" where
  "PUTS putc [] st = st"
| "PUTS putc (c # str) st = PUTS putc str (PUTCHAR putc (of_char c) st)"

section \<open>Hexadecimal numbers\<close>

definition PUT_HEXA_DIGIT :: "(nat \<Rightarrow> 's \<Rightarrow> 's) \<Rightarrow> u32 \<Rightarrow> nat \<Rightarrow> 's out \<Rightarrow> 's out" where
  "PUT_HEXA_DIGIT putc d a_letter st =
     (if d \<le> 9 then PUTCHAR putc (48 + unat d) st
      else PUTCHAR putc (a_letter + (unat d - 0xA)) st)"

text \<open>\<^verbatim>\<open>while ((b > 0) && (((val) >> b) & 0xF) == 0) b -= 4\<close>\<close>

function hexa_skip :: "u32 \<Rightarrow> int \<Rightarrow> int" where
  "hexa_skip val b = (if b > 0 \<and> shr val (nat b) AND 0xF = 0 then hexa_skip val (b - 4) else b)"
  by auto
termination by (relation "measure (\<lambda>(_, b). nat b)") auto

text \<open>\<^verbatim>\<open>for ( ; b >= 0 ; b -= 4)\<close>\<close>

function hexa_emit ::
  "(nat \<Rightarrow> 's \<Rightarrow> 's) \<Rightarrow> u32 \<Rightarrow> nat \<Rightarrow> int \<Rightarrow> 's out \<Rightarrow> 's out" where
  "hexa_emit putc val a_letter b st =
     (if b \<ge> 0
      then hexa_emit putc val a_letter (b - 4)
             (PUT_HEXA_DIGIT putc (shr val (nat b) AND 0xF) a_letter st)
      else st)"
  by auto
termination by (relation "measure (\<lambda>(_, _, _, b, _). nat (b + 1))") auto

declare hexa_skip.simps [simp del] hexa_emit.simps [simp del]

definition PUT_HEXA_VAL ::
  "(nat \<Rightarrow> 's \<Rightarrow> 's) \<Rightarrow> u32 \<Rightarrow> nat \<Rightarrow> nat \<Rightarrow> bool \<Rightarrow> 's out \<Rightarrow> 's out" where
  "PUT_HEXA_VAL putc val a_letter bits print_zero st =
     (let b = int bits - 4;
          b = (if \<not> print_zero then hexa_skip val b else b)
      in hexa_emit putc val a_letter b st)"

section \<open>Decimal numbers\<close>

text \<open>\<^verbatim>\<open>while ((val) / (max_pow) >= 10) max_pow *= 10\<close>\<close>

function int_max_pow :: "u32 \<Rightarrow> u32 \<Rightarrow> u32" where
  "int_max_pow val max_pow =
     (if val div max_pow \<ge> 10 then int_max_pow val (max_pow * 10) else max_pow)"
  by auto

lemma max_pow_step:
  assumes "(val :: u32) div p \<ge> 10"
  shows "unat (p * 10) = unat p * 10" and "0 < unat p" and "unat p * 10 \<le> unat val"
proof -
  have q: "10 \<le> unat val div unat p"
    using assms by (simp add: word_le_nat_alt unat_div)
  show p: "0 < unat p" using q by (cases "unat p") auto
  show le: "unat p * 10 \<le> unat val"
    using q p by (simp add: less_eq_div_iff_mult_less_eq mult.commute)
  show "unat (p * 10) = unat p * 10"
    using le unat_u32 [of val] by (simp add: unat_word_ariths)
qed

termination int_max_pow
proof (relation "measure (\<lambda>(val, p). 4294967296 - unat p)", goal_cases)
  case (2 val p)
  then show ?case
    using max_pow_step [of val p] unat_u32 [of val] unat_u32 [of p] by simp
qed simp

text \<open>\<^verbatim>\<open>for ( ; max_pow >= 1; max_pow /= 10)\<close>\<close>

function int_emit :: "(nat \<Rightarrow> 's \<Rightarrow> 's) \<Rightarrow> u32 \<Rightarrow> u32 \<Rightarrow> 's out \<Rightarrow> 's out" where
  "int_emit putc val max_pow st =
     (if max_pow \<ge> 1
      then int_emit putc (val mod max_pow) (max_pow div 10)
             (PUTCHAR putc (48 + unat (val div max_pow)) st)
      else st)"
  by auto
termination
  by (relation "measure (\<lambda>(_, _, p, _). unat p)")
    (auto simp: word_le_nat_alt unat_div)

declare int_max_pow.simps [simp del] int_emit.simps [simp del]

definition PUT_INT_NUMBER :: "(nat \<Rightarrow> 's \<Rightarrow> 's) \<Rightarrow> u32 \<Rightarrow> 's out \<Rightarrow> 's out" where
  "PUT_INT_NUMBER putc i st = (let max_pow = int_max_pow i 1 in int_emit putc i max_pow st)"

section \<open>The format loop\<close>

text \<open>The local variables the conversions read and write.\<close>

record conv =
  print_zero :: bool
  ccount :: nat

definition next_arg :: "u32 list \<Rightarrow> (u32 \<times> u32 list) option" where
  "next_arg args = (case args of [] \<Rightarrow> None | a # as \<Rightarrow> Some (a, as))"

text \<open>The flags after a \<^verbatim>\<open>%\<close>: a \<^verbatim>\<open>0\<close>, then a width of 2 to 4 digits, stored in bytes.\<close>

definition printf_flags :: "string \<Rightarrow> conv \<Rightarrow> string \<times> conv" where
  "printf_flags format cv =
     (let (format, cv) =
        (if format \<noteq> [] \<and> hd format = CHR ''0'' then (tl format, cv\<lparr>print_zero := True\<rparr>)
         else (format, cv))
      in case format of
           c # rest \<Rightarrow>
             if 50 \<le> (of_char c :: nat) \<and> of_char c \<le> (52 :: nat)
             then (rest, cv\<lparr>ccount := (of_char c - 48) div 2\<rparr>) else (c # rest, cv)
         | [] \<Rightarrow> ([], cv))"

text \<open>The inner \<^verbatim>\<open>switch\<close>, on the conversion character (\<^const>\<open>None\<close> at the terminator).\<close>

definition printf_conv ::
  "(nat \<Rightarrow> 's \<Rightarrow> 's) \<Rightarrow> (u32 \<Rightarrow> string) \<Rightarrow> char option \<Rightarrow> conv \<Rightarrow> u32 list \<Rightarrow> 's out
    \<Rightarrow> (conv \<times> u32 list \<times> 's out) option" where
  "printf_conv putc str_at c cv args st =
     (case c of
        Some CHR ''%'' \<Rightarrow> Some (cv, args, PUTCHAR putc 37 st)
      | _ \<Rightarrow>
        (case next_arg args of
           None \<Rightarrow> None
         | Some (arg, args) \<Rightarrow>
             Some (
               if c = Some CHR ''d'' \<or> c = Some CHR ''i'' then
                 let (i, st) = (if sint arg < 0 then (- arg, PUTCHAR putc 45 st) else (arg, st))
                 in (cv, args, PUT_INT_NUMBER putc i st)
               else if c = Some CHR ''u'' then (cv, args, PUT_INT_NUMBER putc arg st)
               else if c = Some CHR ''p'' \<or> c = Some CHR ''P'' then
                 let st = PUTCHAR putc 48 st;
                     st = PUTCHAR putc 120 st;
                     a_letter = (if c = Some CHR ''p'' then 97 else 65)
                 in (cv, args, PUT_HEXA_VAL putc arg a_letter (4 * 8) True st)
               else if c = Some CHR ''x'' \<or> c = Some CHR ''X'' then
                 let a_letter = (if c = Some CHR ''x'' then 97 else 65);
                     st = PUT_HEXA_VAL putc arg a_letter (ccount cv * 8) (print_zero cv) st
                 in (cv\<lparr>print_zero := False\<rparr>, args, st)
               else if c = Some CHR ''c'' then
                 (cv, args, PUTCHAR putc (unat (ucast arg :: u8)) st)
               else if c = Some CHR ''s'' then (cv, args, PUTS putc (str_at arg) st)
               else (cv, args, st))))"

text \<open>\<^verbatim>\<open>while (*format)\<close>. After a conversion \<^verbatim>\<open>++format\<close> steps over its character; there is
  none when the format ended after the \<^verbatim>\<open>%\<close> or its flags.\<close>

lemma printf_flags_length: "length (fst (printf_flags format cv)) \<le> length format"
  by (auto simp: printf_flags_def split: list.splits)

function printf_loop ::
  "(nat \<Rightarrow> 's \<Rightarrow> 's) \<Rightarrow> (u32 \<Rightarrow> string) \<Rightarrow> string \<Rightarrow> conv \<Rightarrow> u32 list \<Rightarrow> 's out \<Rightarrow> 's out option" where
  "printf_loop putc str_at format cv args st =
     (case format of
        [] \<Rightarrow> Some st
      | f # rest \<Rightarrow>
          if f = CHR ''%'' then
            let (rest, cv) = printf_flags rest cv in
            (case rest of
               [] \<Rightarrow> None
             | c # rest \<Rightarrow>
                 (case printf_conv putc str_at (Some c) cv args st of
                    None \<Rightarrow> None
                  | Some (cv, args, st) \<Rightarrow> printf_loop putc str_at rest cv args st))
          else printf_loop putc str_at rest cv args (PUTCHAR putc (of_char f) st))"
  by pat_completeness auto
termination
proof (relation "measure (\<lambda>(_, _, format, _). length format)", goal_cases)
  case (2 putc str_at format cv args st f rest p r cv' c rest' a cv'' b args' st')
  then have "length (c # rest') \<le> length rest"
    using printf_flags_length [of rest cv] by (metis fst_conv)
  with 2 show ?case by simp
qed auto

declare printf_loop.simps [simp del]

text \<open>\<^verbatim>\<open>printf\<close> with \<^verbatim>\<open>RFLPC_CONFIG_ENABLE_ATOMIC_PRINTF\<close>: the interrupts are switched off and on
  around the loop, by the functions passed for them.\<close>

definition printf ::
  "(nat \<Rightarrow> 's \<Rightarrow> 's) \<Rightarrow> ('s \<Rightarrow> 's) \<Rightarrow> ('s \<Rightarrow> 's) \<Rightarrow> (u32 \<Rightarrow> string) \<Rightarrow> string \<Rightarrow> u32 list \<Rightarrow> 's
    \<Rightarrow> (nat \<times> 's) option" where
  "printf putc irq_disable irq_enable str_at format args s =
     (case printf_loop putc str_at format \<lparr>print_zero = False, ccount = 4\<rparr> args
             (0, irq_disable s) of
        None \<Rightarrow> None
      | Some (count, s) \<Rightarrow> Some (count, irq_enable s))"

section \<open>Digits\<close>

text \<open>Reference: the digits of a number, most significant first and without leading zeros; and
  a fixed number of them.\<close>

fun digits :: "nat \<Rightarrow> nat \<Rightarrow> nat list" where
  "digits B n = (if n < B \<or> B < 2 then [n] else digits B (n div B) @ [n mod B])"

fun fixed_digits :: "nat \<Rightarrow> nat \<Rightarrow> nat \<Rightarrow> nat list" where
  "fixed_digits B 0 n = []"
| "fixed_digits B (Suc k) n = (n div B ^ k mod B) # fixed_digits B k n"

declare digits.simps [simp del]

text \<open>Digits determine the number.\<close>

lemma digits_value:
  assumes "2 \<le> B"
  shows "foldl (\<lambda>acc d. B * acc + d) 0 (digits B n) = n"
  using assms by (induction B n rule: digits.induct) (subst digits.simps, auto)

lemma digits_lead: "2 \<le> B \<Longrightarrow> n \<noteq> 0 \<Longrightarrow> hd (digits B n) \<noteq> 0"
proof (induction B n rule: digits.induct)
  case (1 B n)
  have ne: "digits B m \<noteq> []" for m by (subst digits.simps) auto
  show ?case
  proof (cases "n < B")
    case True
    with 1 show ?thesis by (subst digits.simps) auto
  next
    case False
    with 1 have "n div B \<noteq> 0" by (simp add: div_eq_0_iff)
    with 1 False ne show ?thesis by (subst digits.simps) auto
  qed
qed

lemma digits_bound: "2 \<le> B \<Longrightarrow> d \<in> set (digits B n) \<Longrightarrow> d < B"
proof (induction B n rule: digits.induct)
  case (1 B n)
  then show ?case by (subst (asm) digits.simps) (auto split: if_splits)
qed

lemma mod_mult_div: "0 < a \<Longrightarrow> n mod (a * b) div a = n div a mod (b :: nat)"
  by (simp add: mod_mult2_eq)

lemma fixed_digits_mod: "j \<le> k \<Longrightarrow> 0 < B \<Longrightarrow> fixed_digits B j (n mod B ^ k) = fixed_digits B j n"
proof (induction j)
  case (Suc j)
  have "n mod B ^ k div B ^ j mod B = n div B ^ j mod B"
  proof -
    obtain e where k: "k = j + Suc e" using Suc.prems(1) less_iff_Suc_add [of j k] by auto
    have "n mod B ^ k div B ^ j = n div B ^ j mod B ^ Suc e"
      unfolding k power_add using Suc.prems(2) by (intro mod_mult_div) simp
    then show ?thesis by (simp add: mod_mod_cancel)
  qed
  with Suc show ?case by simp
qed simp

lemma fixed_digits_snoc: "fixed_digits B (Suc k) n = fixed_digits B k (n div B) @ [n mod B]"
  by (induction k arbitrary: n) (simp_all add: div_mult2_eq)

lemma digits_fixed:
  assumes "2 \<le> B" and "n < B ^ Suc k" and "k = 0 \<or> B ^ k \<le> n"
  shows "digits B n = fixed_digits B (Suc k) n"
  using assms(2,3)
proof (induction k arbitrary: n)
  case 0
  then show ?case using assms(1) by (subst digits.simps) simp
next
  case (Suc k)
  have "B \<le> B ^ Suc k" using assms(1) by (intro self_le_power) auto
  also have "B ^ Suc k \<le> n" using Suc.prems(2) by blast
  finally have "B \<le> n" .
  then have "digits B n = digits B (n div B) @ [n mod B]"
    using assms(1) by (subst digits.simps) simp
  also have "digits B (n div B) = fixed_digits B (Suc k) (n div B)"
    using Suc.prems assms(1)
    by (intro Suc.IH) (simp_all add: less_mult_imp_div_less less_eq_div_iff_mult_less_eq mult.commute)
  finally show ?case by (simp only: fixed_digits_snoc)
qed

text \<open>Sending a list of characters.\<close>

definition emit :: "(nat \<Rightarrow> 's \<Rightarrow> 's) \<Rightarrow> nat list \<Rightarrow> 's out \<Rightarrow> 's out" where
  "emit putc cs st = fold (PUTCHAR putc) cs st"

lemma emit_simps [simp]:
  "emit putc [] st = st" "emit putc (c # cs) st = emit putc cs (PUTCHAR putc c st)"
  "emit putc (cs @ ds) st = emit putc ds (emit putc cs st)"
  by (simp_all add: emit_def)

lemma emit_eq: "emit putc cs (n, s) = (n + length cs, fold putc cs s)"
  by (induction cs arbitrary: n s) (simp_all add: PUTCHAR_def)

lemma PUTS_emit: "PUTS putc str st = emit putc (map of_char str) st"
  by (induction putc str st rule: PUTS.induct) simp_all

subsection \<open>The decimal printer\<close>

lemma int_emit_fixed:
  assumes "unat p = 10 ^ k" and "unat val < 10 ^ Suc k"
  shows "int_emit putc val p st =
    emit putc (map ((+) 48) (fixed_digits 10 (Suc k) (unat val))) st"
  using assms
proof (induction k arbitrary: val p st)
  case 0
  then have p: "p = 1" by (metis power_0 unat_1 word_unat_eq_iff)
  show ?case
    using 0 unfolding p
    by (subst int_emit.simps, subst int_emit.simps) (simp add: word_le_nat_alt unat_div)
next
  case (Suc k)
  have p: "1 \<le> p" using Suc.prems(1) by (simp add: word_le_nat_alt)
  have dp: "unat (p div 10) = 10 ^ k" using Suc.prems(1) by (simp add: unat_div)
  have dv: "unat (val div p) = unat val div 10 ^ Suc k mod 10"
    using Suc.prems by (simp add: unat_div less_mult_imp_div_less)
  have mv: "unat (val mod p) = unat val mod 10 ^ Suc k"
    using Suc.prems by (simp add: unat_mod)
  then have "unat (val mod p) < 10 ^ Suc k" by simp
  note rest = Suc.IH [OF dp this, unfolded mv, unfolded fixed_digits_mod [OF le_refl zero_less_numeral]]
  show ?case
    using p by (subst int_emit.simps, subst fixed_digits.simps(2)) (simp only: if_True dv rest list.map emit_simps)
qed

lemma int_max_pow_power:
  assumes "unat p = 10 ^ j" and "j = 0 \<or> 10 ^ j \<le> unat val"
  shows "\<exists>k. unat (int_max_pow val p) = 10 ^ k \<and> unat val < 10 ^ Suc k \<and>
    (k = 0 \<or> 10 ^ k \<le> unat val)"
  using assms
proof (induction val p arbitrary: j rule: int_max_pow.induct)
  case (1 val p)
  show ?case
  proof (cases "val div p \<ge> 10")
    case True
    have "\<exists>k. unat (int_max_pow val (p * 10)) = 10 ^ k \<and> unat val < 10 ^ Suc k \<and>
        (k = 0 \<or> 10 ^ k \<le> unat val)"
      using max_pow_step [OF True] 1 (2) by (intro 1(1) [OF True, of "Suc j"]) (simp_all add: mult.commute)
    with True show ?thesis by (subst int_max_pow.simps) simp
  next
    case False
    then have "unat val div 10 ^ j < 10" using 1 (2) by (simp add: not_le word_less_nat_alt unat_div)
    then have "unat val < 10 ^ Suc j" by (simp add: div_less_iff_less_mult)
    with False 1 show ?thesis by (subst int_max_pow.simps) auto
  qed
qed

lemma PUT_INT_NUMBER_emit:
  "PUT_INT_NUMBER putc i st = emit putc (map ((+) 48) (digits 10 (unat i))) st"
proof -
  obtain k where k: "unat (int_max_pow i 1) = 10 ^ k" "unat i < 10 ^ Suc k" "k = 0 \<or> 10 ^ k \<le> unat i"
    using int_max_pow_power [of 1 0 i] by auto
  then show ?thesis
    by (simp only: PUT_INT_NUMBER_def Let_def int_emit_fixed)
      (simp only: digits_fixed [OF _ k(2,3)])
qed

subsection \<open>The hexadecimal printer\<close>

text \<open>The character of a digit, where \<open>a\<close> is the letter for ten.\<close>

definition hexa_char :: "nat \<Rightarrow> nat \<Rightarrow> nat" where
  "hexa_char a d = (if d \<le> 9 then 48 + d else a + (d - 10))"

lemma unat_nibble: "unat (shr val (4 * j) AND 0xF :: u32) = unat val div 16 ^ j mod 16"
  unfolding numeral_masks unat_and_mask unat_shr by (simp add: power_mult)

lemma PUT_HEXA_DIGIT_emit:
  "PUT_HEXA_DIGIT putc d a st = PUTCHAR putc (hexa_char a (unat d)) st"
  by (simp add: PUT_HEXA_DIGIT_def hexa_char_def word_le_nat_alt)

lemma hexa_emit_fixed:
  "hexa_emit putc val a (4 * int j) st =
    emit putc (map (hexa_char a) (fixed_digits 16 (Suc j) (unat val))) st"
proof (induction j arbitrary: st)
  case 0
  show ?case
    using unat_nibble [of 0 val]
    by (subst hexa_emit.simps, subst hexa_emit.simps) (simp add: PUT_HEXA_DIGIT_emit)
next
  case (Suc j)
  have "4 * int (Suc j) - 4 = 4 * int j" "nat (4 * int (Suc j)) = 4 * Suc j" by simp_all
  then show ?case
    by (subst hexa_emit.simps, subst fixed_digits.simps(2))
      (simp only: Suc if_True PUT_HEXA_DIGIT_emit unat_nibble list.map emit_simps, simp)
qed

lemma hexa_skip_stop:
  "\<exists>k \<le> j. hexa_skip val (4 * int j) = 4 * int k \<and>
     unat val mod 16 ^ Suc j < 16 ^ Suc k \<and> (k = 0 \<or> 16 ^ k \<le> unat val mod 16 ^ Suc j)"
proof (induction j)
  case 0
  show ?case by (subst hexa_skip.simps) simp
next
  case (Suc j)
  define d where "d = unat val div 16 ^ Suc j mod 16"
  have split: "unat val mod 16 ^ Suc (Suc j) = 16 ^ Suc j * d + unat val mod 16 ^ Suc j"
    using mod_mult2_eq [of "unat val" "16 ^ Suc j" 16] by (simp add: d_def mult.commute)
  have nib: "shr val (nat (4 * int (Suc j))) AND 0xF = 0 \<longleftrightarrow> d = 0"
  proof -
    have "nat (4 * int (Suc j)) = 4 * Suc j" by simp
    then show ?thesis
      unfolding d_def unat_nibble [symmetric] by (simp only: unat_eq_0)
  qed
  show ?case
  proof (cases "d = 0")
    case True
    then have "hexa_skip val (4 * int (Suc j)) = hexa_skip val (4 * int j)"
      using nib by (subst hexa_skip.simps) simp
    with Suc True split show ?thesis by (auto intro: le_SucI)
  next
    case False
    then have "hexa_skip val (4 * int (Suc j)) = 4 * int (Suc j)"
      using nib by (subst hexa_skip.simps) simp
    moreover have "16 ^ Suc j \<le> unat val mod 16 ^ Suc (Suc j)"
      unfolding split using False by (intro trans_le_add1) simp
    ultimately show ?thesis by (intro exI [of _ "Suc j"]) simp
  qed
qed

lemma PUT_HEXA_VAL_emit:
  assumes "bits = 4 * Suc j"
  shows "PUT_HEXA_VAL putc val a bits pz st =
    emit putc (map (hexa_char a)
      (if pz then fixed_digits 16 (Suc j) (unat val) else digits 16 (unat val mod 2 ^ bits))) st"
proof (cases pz)
  case True
  then show ?thesis using assms hexa_emit_fixed [of putc val a j] by (simp add: PUT_HEXA_VAL_def)
next
  case False
  obtain k where k: "k \<le> j" "hexa_skip val (4 * int j) = 4 * int k"
    "unat val mod 16 ^ Suc j < 16 ^ Suc k" "k = 0 \<or> 16 ^ k \<le> unat val mod 16 ^ Suc j"
    using hexa_skip_stop by blast
  have "digits 16 (unat val mod 16 ^ Suc j) = fixed_digits 16 (Suc k) (unat val)"
    using digits_fixed [OF _ k(3,4)] fixed_digits_mod [of "Suc k" "Suc j" 16 "unat val"] k(1) by simp
  moreover have "(2 :: nat) ^ bits = 16 ^ Suc j"
    unfolding assms power_mult by simp
  moreover have "int bits - 4 = 4 * int j" using assms by simp
  ultimately show ?thesis
    using False by (simp only: PUT_HEXA_VAL_def Let_def k(2) hexa_emit_fixed if_True if_False not_False_eq_True)
qed

section \<open>What a format means\<close>

text \<open>The pieces of a format: literal characters and the conversions, with their arguments.\<close>

datatype item =
    Lit char
  | Percent
  | Dec u32
  | Uns u32
  | Hex bool bool nat u32    \<comment> \<open>upper case, leading zeros, width or 0, value\<close>
  | Ptr bool u32
  | Chr u32
  | Str u32

fun item_ok :: "item \<Rightarrow> bool" where
  "item_ok (Lit c) \<longleftrightarrow> c \<noteq> CHR ''%''"
| "item_ok (Hex _ _ w _) \<longleftrightarrow> w \<in> {0, 2, 3, 4}"
| "item_ok _ \<longleftrightarrow> True"

fun item_fmt :: "item \<Rightarrow> string" where
  "item_fmt (Lit c) = [c]"
| "item_fmt Percent = ''%%''"
| "item_fmt (Dec _) = ''%d''"
| "item_fmt (Uns _) = ''%u''"
| "item_fmt (Hex up z w _) =
     ''%'' @ (if z then ''0'' else []) @ (if w = 0 then [] else if w = 2 then ''2'' else if w = 3 then ''3'' else ''4'') @
     (if up then ''X'' else ''x'')"
| "item_fmt (Ptr up _) = (if up then ''%P'' else ''%p'')"
| "item_fmt (Chr _) = ''%c''"
| "item_fmt (Str _) = ''%s''"

fun item_args :: "item \<Rightarrow> u32 list" where
  "item_args (Lit _) = []"
| "item_args Percent = []"
| "item_args (Dec v) = [v]"
| "item_args (Uns v) = [v]"
| "item_args (Hex _ _ _ v) = [v]"
| "item_args (Ptr _ v) = [v]"
| "item_args (Chr v) = [v]"
| "item_args (Str v) = [v]"

text \<open>The characters of an item. \<open>cc\<close> is the number of bytes a \<^verbatim>\<open>%x\<close> prints: 4 at the start, and
  whatever the last width said from then on.\<close>

definition dec_chars :: "nat \<Rightarrow> nat list" where
  "dec_chars n = map ((+) 48) (digits 10 n)"

definition hex_chars :: "bool \<Rightarrow> bool \<Rightarrow> nat \<Rightarrow> nat \<Rightarrow> nat list" where
  "hex_chars up zeros bytes n = map (hexa_char (if up then 65 else 97))
     (if zeros then fixed_digits 16 (2 * bytes) n else digits 16 (n mod 256 ^ bytes))"

definition item_bytes :: "nat \<Rightarrow> item \<Rightarrow> nat" where
  "item_bytes cc it = (case it of Hex _ _ w _ \<Rightarrow> if w = 0 then cc else w div 2 | _ \<Rightarrow> cc)"

fun item_out :: "(u32 \<Rightarrow> string) \<Rightarrow> nat \<Rightarrow> item \<Rightarrow> nat list" where
  "item_out str_at cc (Lit c) = [of_char c]"
| "item_out str_at cc Percent = [37]"
| "item_out str_at cc (Dec v) =
     (if sint v < 0 then 45 # dec_chars (nat (- sint v)) else dec_chars (nat (sint v)))"
| "item_out str_at cc (Uns v) = dec_chars (unat v)"
| "item_out str_at cc (Hex up z w v) = hex_chars up z (if w = 0 then cc else w div 2) (unat v)"
| "item_out str_at cc (Ptr up v) = 48 # 120 # hex_chars up True 4 (unat v)"
| "item_out str_at cc (Chr v) = [unat v mod 256]"
| "item_out str_at cc (Str v) = map of_char (str_at v)"

fun render :: "(u32 \<Rightarrow> string) \<Rightarrow> nat \<Rightarrow> item list \<Rightarrow> nat list" where
  "render str_at cc [] = []"
| "render str_at cc (it # its) = item_out str_at cc it @ render str_at (item_bytes cc it) its"

lemma PUT_HEXA_bytes:
  assumes "0 < bytes"
  shows "PUT_HEXA_VAL putc val (if up then 65 else 97) (bytes * 8) pz st =
    emit putc (hex_chars up pz bytes (unat val)) st"
proof -
  obtain j where j: "2 * bytes = Suc j" using assms by (cases "2 * bytes") auto
  then have "bytes * 8 = 4 * Suc j" by simp
  moreover have "(2 :: nat) ^ (bytes * 8) = 256 ^ bytes"
    by (simp add: mult.commute [of bytes] power_mult)
  ultimately show ?thesis
    by (simp only: PUT_HEXA_VAL_emit hex_chars_def j)
qed

lemma sint_u32: "sint (v :: u32) = (if uint v < 2 ^ 31 then uint v else uint v - 2 ^ 32)"
proof -
  have "sint v = (uint v + 2 ^ 31) mod 2 ^ 32 - 2 ^ 31"
    by (simp add: sint_uint signed_take_bit_eq_take_bit_shift take_bit_eq_mod)
  moreover have range: "0 \<le> uint v" "uint v < 2 ^ 32"
    by (simp, rule order_less_le_trans [OF unsigned_less]) simp
  moreover have "(uint v + 2 ^ 31) mod 2 ^ 32 =
      (if uint v < 2 ^ 31 then uint v + 2 ^ 31 else uint v + 2 ^ 31 - 2 ^ 32)"
  proof (cases "uint v < 2 ^ 31")
    case True
    then show ?thesis using range by simp
  next
    case False
    have "(uint v + 2 ^ 31) mod 2 ^ 32 = (uint v + 2 ^ 31 - 2 ^ 32) mod 2 ^ 32"
      by (simp only: minus_mod_self2)
    also have "\<dots> = uint v + 2 ^ 31 - 2 ^ 32"
      using range False by (intro mod_pos_pos_trivial) simp_all
    finally show ?thesis using False by simp
  qed
  ultimately show ?thesis by simp
qed

lemma neg_value:
  assumes "sint (v :: u32) < 0"
  shows "unat (- v) = nat (- sint v)"
proof -
  have "\<not> uint v < 2 ^ 31"
    using assms unsigned_greater_eq [of v] by (simp add: sint_u32 split: if_splits)
  then have "sint v = uint v - 2 ^ 32" "v \<noteq> 0" by (auto simp: sint_u32)
  moreover from this have "unat (- v) = 2 ^ 32 - unat v"
    using unat_sub_if' [of 0 v] by (simp add: unat_eq_0)
  ultimately show ?thesis
    by (simp add: nat_diff_distrib')
qed

lemma pos_value:
  assumes "\<not> sint (v :: u32) < 0"
  shows "unat v = nat (sint v)"
proof -
  have "uint v < 2 ^ 32" by (rule order_less_le_trans [OF unsigned_less]) simp
  with assms have "sint v = uint v" by (simp add: sint_u32 split: if_splits)
  then show ?thesis by simp
qed

lemma flags_none:
  "(of_char c :: nat) < 48 \<or> 52 < (of_char c :: nat) \<Longrightarrow> printf_flags (c # rest) cv = (c # rest, cv)"
  by (auto simp: printf_flags_def)

lemma printf_lit:
  "c \<noteq> CHR ''%'' \<Longrightarrow> printf_loop putc str_at (c # rest) cv args st =
     printf_loop putc str_at rest cv args (PUTCHAR putc (of_char c) st)"
  by (subst printf_loop.simps) simp

lemma printf_percent:
  assumes "printf_flags rest cv = (c # rest', cv')"
    and "printf_conv putc str_at (Some c) cv' args st = Some (cv'', args', st')"
  shows "printf_loop putc str_at (CHR ''%'' # rest) cv args st =
    printf_loop putc str_at rest' cv'' args' st'"
  by (subst printf_loop.simps) (simp add: assms)

text \<open>One step of the format loop per item.\<close>

lemma printf_item:
  assumes "item_ok it" and "0 < cc"
  shows "printf_loop putc str_at (item_fmt it @ rest) \<lparr>print_zero = False, ccount = cc\<rparr>
      (item_args it @ args) st =
    printf_loop putc str_at rest \<lparr>print_zero = False, ccount = item_bytes cc it\<rparr> args
      (emit putc (item_out str_at cc it) st)"
proof (cases it)
  case (Hex up z w v)
  have w: "w \<in> {0, 2, 3, 4}" using assms(1) Hex by simp
  let ?b = "if w = 0 then cc else w div 2"
  have flags: "printf_flags (tl (item_fmt it) @ rest) \<lparr>print_zero = False, ccount = cc\<rparr> =
      ((if up then CHR ''X'' else CHR ''x'') # rest, \<lparr>print_zero = z, ccount = ?b\<rparr>)"
    using w unfolding Hex by (cases z; cases up) (auto simp: printf_flags_def)
  have "0 < ?b" using w assms(2) by auto
  then have conv: "printf_conv putc str_at (Some (if up then CHR ''X'' else CHR ''x''))
      \<lparr>print_zero = z, ccount = ?b\<rparr> (v # args) st =
      Some (\<lparr>print_zero = False, ccount = ?b\<rparr>, args, emit putc (hex_chars up z ?b (unat v)) st)"
    using PUT_HEXA_bytes [of ?b putc v up z st]
    by (cases up) (simp_all add: printf_conv_def next_arg_def)
  have "item_fmt it = CHR ''%'' # tl (item_fmt it)" by (simp add: Hex)
  then show ?thesis
    using printf_percent [OF flags conv] by (simp add: Hex item_bytes_def)
next
  case (Ptr up v)
  then show ?thesis
    using PUT_HEXA_bytes [of 4 putc v up True]
    by (cases up) (simp_all add: printf_percent [OF flags_none] printf_conv_def next_arg_def
        item_bytes_def)
qed (use assms in \<open>simp_all add: printf_lit printf_percent [OF flags_none] printf_conv_def
    next_arg_def item_bytes_def PUT_INT_NUMBER_emit PUTS_emit dec_chars_def neg_value pos_value unat_ucast_mod\<close>)

lemma item_bytes_pos: "item_ok it \<Longrightarrow> 0 < cc \<Longrightarrow> 0 < item_bytes cc it"
  by (cases it) (auto simp: item_bytes_def)

lemma printf_items:
  assumes "\<forall>it \<in> set its. item_ok it" and "0 < cc"
  shows "printf_loop putc str_at (concat (map item_fmt its)) \<lparr>print_zero = False, ccount = cc\<rparr>
      (concat (map item_args its)) st = Some (emit putc (render str_at cc its) st)"
  using assms
proof (induction its arbitrary: cc st)
  case Nil
  then show ?case by (subst printf_loop.simps) simp
next
  case (Cons it its)
  then show ?case by (simp add: printf_item item_bytes_pos)
qed

section \<open>Properties\<close>

text \<open>A decimal conversion prints the number: the characters are its digits, most significant
  first, none of them leading zeros, and reading them back gives the number.\<close>

theorem put_int_number_decimal:
  shows "PUT_INT_NUMBER putc i (n, s) =
      (let ds = digits 10 (unat i) in (n + length ds, fold putc (map ((+) 48) ds) s)) \<and>
    foldl (\<lambda>acc d. 10 * acc + d) 0 (digits 10 (unat i)) = unat i \<and>
    list_all (\<lambda>d. d < 10) (digits 10 (unat i)) \<and>
    (hd (digits 10 (unat i)) = 0) = (i = 0)"
proof (intro conjI)
  show "PUT_INT_NUMBER putc i (n, s) =
      (let ds = digits 10 (unat i) in (n + length ds, fold putc (map ((+) 48) ds) s))"
    by (simp add: PUT_INT_NUMBER_emit emit_eq Let_def)
  show "list_all (\<lambda>d. d < 10) (digits 10 (unat i))"
    using digits_bound [of 10 _ "unat i"] by (simp add: list_all_iff)
  show "(hd (digits 10 (unat i)) = 0) = (i = 0)"
  proof -
    have "digits 10 0 = [0]" by (simp add: digits.simps)
    then show ?thesis using digits_lead [of 10 "unat i"] by (cases "i = 0") (simp_all add: unat_eq_0)
  qed
qed (simp add: digits_value)

text \<open>C2. printf means its format: on a format built from literal characters and the conversions
  \<^verbatim>\<open>%% %d %u %x %X %p %P %c %s\<close>, with the \<^verbatim>\<open>0\<close> flag and the widths 2 to 4 on \<^verbatim>\<open>x\<close> and \<^verbatim>\<open>X\<close>, it
  sends exactly the characters of the rendered items, in order, between switching the
  interrupts off and on, and returns their number.\<close>

theorem printf_renders:
  assumes "\<forall>it \<in> set its. item_ok it"
  shows "printf putc irq_disable irq_enable str_at (concat (map item_fmt its))
      (concat (map item_args its)) s =
    Some (length (render str_at 4 its), irq_enable (fold putc (render str_at 4 its) (irq_disable s)))"
  using assms by (simp add: printf_def printf_items emit_eq)

lemma printf_renders_witness:
  "printf (\<lambda>c s. s @ [c]) (\<lambda>s. s) (\<lambda>s. s) (\<lambda>_. ''ok'') ''%d=%s'' [- 42, 7] [] =
    Some (6, map of_char ''-42=ok'')"
proof -
  have s: "sint (- 42 :: u32) = - 42" by (simp add: sint_u32)
  have d: "dec_chars 42 = [52, 50]" by (simp add: dec_chars_def digits.simps)
  show ?thesis
    using printf_renders [of "[Dec (- 42), Lit CHR ''='', Str 7]" "\<lambda>c s. s @ [c]" "\<lambda>s. s" "\<lambda>s. s" "\<lambda>_. ''ok''" "[]"]
    by (simp add: s d item_bytes_def)
qed

text \<open>The width of a conversion is not its own: \<^verbatim>\<open>ccount\<close> is never reset, so every later \<^verbatim>\<open>%x\<close> of the
  same call is cut to it.\<close>

lemma printf_sticky_width:
  "printf putc irq_disable irq_enable str_at ''%02x %x'' [0x41, 0x12345678] s =
    Some (5, irq_enable (fold putc (map of_char ''41 78'') (irq_disable s)))"
proof -
  have d: "digits 16 0x78 = [7, 8]" "digits 16 0x41 = [4, 1]"
    by (simp_all add: digits.simps)
  have f: "fixed_digits 16 2 n = [n div 16 mod 16, n mod 16]" for n
    by (simp add: numeral_2_eq_2)
  let ?its = "[Hex False True 2 0x41, Lit CHR '' '', Hex False False 0 0x12345678]"
  have out: "render str_at 4 ?its = map of_char ''41 78''"
    by (simp add: item_bytes_def hex_chars_def hexa_char_def d f unsigned_numeral)
  have "\<forall>it \<in> set ?its. item_ok it" by simp
  from printf_items [OF this, of 4 putc str_at "(0, irq_disable s)", unfolded out] show ?thesis
    by (simp add: printf_def emit_eq)
qed

end
