(* ===== verification/Registers.thy ===== *)
theory Registers
  imports Bus
begin

text \<open>
  The register map of \<^verbatim>\<open>rflpc17xx/nxp/LPC17xx.h\<close>. A register block is a C structure;
  \<open>layout\<close> lists its members in order and \<open>reg\<close> computes the address of a member from the
  block's base address by the layout rules of the ABI (each member aligned to its size,
  the alternatives of an anonymous union at one offset). The drivers name registers by the
  constants at the end; their numeric values are evaluated once, in \<open>reg_addr\<close>.
\<close>

section \<open>Layout of a C structure\<close>

text \<open>A member: name, element size in bytes and number of elements; or an anonymous union
  of structures.\<close>

datatype cmember =
    Field string nat nat
  | Union "cmember list list"

type_synonym layout = "cmember list"

definition align_up :: "nat \<Rightarrow> nat \<Rightarrow> nat" where
  "align_up off al = (off + al - 1) div al * al"

fun malign :: "cmember \<Rightarrow> nat" where
  "malign (Field _ s _) = s"
| "malign (Union alts) = foldr max (map (\<lambda>ms. foldr max (map malign ms) 1) alts) 1"

fun msize :: "cmember \<Rightarrow> nat" where
  "msize (Field _ s n) = s * n"
| "msize (Union alts) =
     align_up
       (foldr max (map (\<lambda>ms. fold (\<lambda>m off. align_up off (malign m) + msize m) ms 0) alts) 0)
       (malign (Union alts))"

text \<open>Offset of a named member, searched through anonymous unions.\<close>

fun find_member :: "string \<Rightarrow> cmember \<Rightarrow> nat option"
  and find_alts :: "string \<Rightarrow> cmember list list \<Rightarrow> nat option"
  and find_struct :: "string \<Rightarrow> cmember list \<Rightarrow> nat \<Rightarrow> nat option" where
  "find_member nm (Field f _ _) = (if f = nm then Some 0 else None)"
| "find_member nm (Union alts) = find_alts nm alts"
| "find_alts nm [] = None"
| "find_alts nm (ms # alts) =
     (case find_struct nm ms 0 of Some k \<Rightarrow> Some k | None \<Rightarrow> find_alts nm alts)"
| "find_struct nm [] off = None"
| "find_struct nm (m # ms) off =
     (let o' = align_up off (malign m) in
      case find_member nm m of
        Some k \<Rightarrow> Some (o' + k)
      | None \<Rightarrow> find_struct nm ms (o' + msize m))"

definition offset_of :: "layout \<Rightarrow> string \<Rightarrow> nat option" where
  "offset_of lay nm = find_struct nm lay 0"

text \<open>Address of a member; a name that is not a member has none, and gives the base.\<close>

definition reg :: "addr \<Rightarrow> layout \<Rightarrow> string \<Rightarrow> addr" where
  "reg base lay nm = base + of_nat (case offset_of lay nm of Some k \<Rightarrow> k | None \<Rightarrow> 0)"

section \<open>The register blocks\<close>

definition LPC_SC_TypeDef :: layout where
  "LPC_SC_TypeDef =
    [Field ''FLASHCFG'' 4 1, Field ''RESERVED0'' 4 31, Field ''PLL0CON'' 4 1,
     Field ''PLL0CFG'' 4 1, Field ''PLL0STAT'' 4 1, Field ''PLL0FEED'' 4 1,
     Field ''RESERVED1'' 4 4, Field ''PLL1CON'' 4 1, Field ''PLL1CFG'' 4 1,
     Field ''PLL1STAT'' 4 1, Field ''PLL1FEED'' 4 1, Field ''RESERVED2'' 4 4, Field ''PCON'' 4 1,
     Field ''PCONP'' 4 1, Field ''RESERVED3'' 4 15, Field ''CCLKCFG'' 4 1,
     Field ''USBCLKCFG'' 4 1, Field ''CLKSRCSEL'' 4 1, Field ''RESERVED4'' 4 12,
     Field ''EXTINT'' 4 1, Field ''RESERVED5'' 4 1, Field ''EXTMODE'' 4 1,
     Field ''EXTPOLAR'' 4 1, Field ''RESERVED6'' 4 12, Field ''RSID'' 4 1,
     Field ''RESERVED7'' 4 7, Field ''SCS'' 4 1, Field ''IRCTRIM'' 4 1, Field ''PCLKSEL0'' 4 1,
     Field ''PCLKSEL1'' 4 1, Field ''RESERVED8'' 4 4, Field ''USBIntSt'' 4 1,
     Field ''DMAREQSEL'' 4 1, Field ''CLKOUTCFG'' 4 1]"

definition LPC_PINCON_TypeDef :: layout where
  "LPC_PINCON_TypeDef =
    [Field ''PINSEL0'' 4 1, Field ''PINSEL1'' 4 1, Field ''PINSEL2'' 4 1, Field ''PINSEL3'' 4 1,
     Field ''PINSEL4'' 4 1, Field ''PINSEL5'' 4 1, Field ''PINSEL6'' 4 1, Field ''PINSEL7'' 4 1,
     Field ''PINSEL8'' 4 1, Field ''PINSEL9'' 4 1, Field ''PINSEL10'' 4 1,
     Field ''RESERVED0'' 4 5, Field ''PINMODE0'' 4 1, Field ''PINMODE1'' 4 1,
     Field ''PINMODE2'' 4 1, Field ''PINMODE3'' 4 1, Field ''PINMODE4'' 4 1,
     Field ''PINMODE5'' 4 1, Field ''PINMODE6'' 4 1, Field ''PINMODE7'' 4 1,
     Field ''PINMODE8'' 4 1, Field ''PINMODE9'' 4 1, Field ''PINMODE_OD0'' 4 1,
     Field ''PINMODE_OD1'' 4 1, Field ''PINMODE_OD2'' 4 1, Field ''PINMODE_OD3'' 4 1,
     Field ''PINMODE_OD4'' 4 1, Field ''I2CPADCFG'' 4 1]"

definition LPC_GPIO_TypeDef :: layout where
  "LPC_GPIO_TypeDef =
    [
     Union [[Field ''FIODIR'' 4 1], [Field ''FIODIRL'' 2 1, Field ''FIODIRH'' 2 1], [Field ''FIODIR0'' 1 1, Field ''FIODIR1'' 1 1, Field ''FIODIR2'' 1 1, Field ''FIODIR3'' 1 1]],
     Field ''RESERVED0'' 4 3,
     Union [[Field ''FIOMASK'' 4 1], [Field ''FIOMASKL'' 2 1, Field ''FIOMASKH'' 2 1], [Field ''FIOMASK0'' 1 1, Field ''FIOMASK1'' 1 1, Field ''FIOMASK2'' 1 1, Field ''FIOMASK3'' 1 1]],
     Union [[Field ''FIOPIN'' 4 1], [Field ''FIOPINL'' 2 1, Field ''FIOPINH'' 2 1], [Field ''FIOPIN0'' 1 1, Field ''FIOPIN1'' 1 1, Field ''FIOPIN2'' 1 1, Field ''FIOPIN3'' 1 1]],
     Union [[Field ''FIOSET'' 4 1], [Field ''FIOSETL'' 2 1, Field ''FIOSETH'' 2 1], [Field ''FIOSET0'' 1 1, Field ''FIOSET1'' 1 1, Field ''FIOSET2'' 1 1, Field ''FIOSET3'' 1 1]],
     Union [[Field ''FIOCLR'' 4 1], [Field ''FIOCLRL'' 2 1, Field ''FIOCLRH'' 2 1], [Field ''FIOCLR0'' 1 1, Field ''FIOCLR1'' 1 1, Field ''FIOCLR2'' 1 1, Field ''FIOCLR3'' 1 1]]]"

definition LPC_TIM_TypeDef :: layout where
  "LPC_TIM_TypeDef =
    [Field ''IR'' 4 1, Field ''TCR'' 4 1, Field ''TC'' 4 1, Field ''PR'' 4 1, Field ''PC'' 4 1,
     Field ''MCR'' 4 1, Field ''MR0'' 4 1, Field ''MR1'' 4 1, Field ''MR2'' 4 1,
     Field ''MR3'' 4 1, Field ''CCR'' 4 1, Field ''CR0'' 4 1, Field ''CR1'' 4 1,
     Field ''RESERVED0'' 4 2, Field ''EMR'' 4 1, Field ''RESERVED1'' 4 12, Field ''CTCR'' 4 1]"

definition LPC_PWM_TypeDef :: layout where
  "LPC_PWM_TypeDef =
    [Field ''IR'' 4 1, Field ''TCR'' 4 1, Field ''TC'' 4 1, Field ''PR'' 4 1, Field ''PC'' 4 1,
     Field ''MCR'' 4 1, Field ''MR0'' 4 1, Field ''MR1'' 4 1, Field ''MR2'' 4 1,
     Field ''MR3'' 4 1, Field ''CCR'' 4 1, Field ''CR0'' 4 1, Field ''CR1'' 4 1,
     Field ''CR2'' 4 1, Field ''CR3'' 4 1, Field ''RESERVED0'' 4 1, Field ''MR4'' 4 1,
     Field ''MR5'' 4 1, Field ''MR6'' 4 1, Field ''PCR'' 4 1, Field ''LER'' 4 1,
     Field ''RESERVED1'' 4 7, Field ''CTCR'' 4 1]"

definition LPC_UART_TypeDef :: layout where
  "LPC_UART_TypeDef =
    [
     Union [[Field ''RBR'' 1 1], [Field ''THR'' 1 1], [Field ''DLL'' 1 1], [Field ''RESERVED0'' 4 1]],
     Union [[Field ''DLM'' 1 1], [Field ''IER'' 4 1]],
     Union [[Field ''IIR'' 4 1], [Field ''FCR'' 1 1]], Field ''LCR'' 1 1,
     Field ''RESERVED1'' 1 7, Field ''LSR'' 1 1, Field ''RESERVED2'' 1 7, Field ''SCR'' 1 1,
     Field ''RESERVED3'' 1 3, Field ''ACR'' 4 1, Field ''ICR'' 1 1, Field ''RESERVED4'' 1 3,
     Field ''FDR'' 1 1, Field ''RESERVED5'' 1 7, Field ''TER'' 1 1, Field ''RESERVED6'' 1 39,
     Field ''FIFOLVL'' 1 1]"

definition LPC_UART0_TypeDef :: layout where
  "LPC_UART0_TypeDef =
    [
     Union [[Field ''RBR'' 1 1], [Field ''THR'' 1 1], [Field ''DLL'' 1 1], [Field ''RESERVED0'' 4 1]],
     Union [[Field ''DLM'' 1 1], [Field ''IER'' 4 1]],
     Union [[Field ''IIR'' 4 1], [Field ''FCR'' 1 1]], Field ''LCR'' 1 1,
     Field ''RESERVED1'' 1 7, Field ''LSR'' 1 1, Field ''RESERVED2'' 1 7, Field ''SCR'' 1 1,
     Field ''RESERVED3'' 1 3, Field ''ACR'' 4 1, Field ''ICR'' 1 1, Field ''RESERVED4'' 1 3,
     Field ''FDR'' 1 1, Field ''RESERVED5'' 1 7, Field ''TER'' 1 1, Field ''RESERVED6'' 1 39,
     Field ''FIFOLVL'' 1 1]"

definition LPC_SSP_TypeDef :: layout where
  "LPC_SSP_TypeDef =
    [Field ''CR0'' 4 1, Field ''CR1'' 4 1, Field ''DR'' 4 1, Field ''SR'' 4 1,
     Field ''CPSR'' 4 1, Field ''IMSC'' 4 1, Field ''RIS'' 4 1, Field ''MIS'' 4 1,
     Field ''ICR'' 4 1, Field ''DMACR'' 4 1]"

definition LPC_I2C_TypeDef :: layout where
  "LPC_I2C_TypeDef =
    [Field ''I2CONSET'' 4 1, Field ''I2STAT'' 4 1, Field ''I2DAT'' 4 1, Field ''I2ADR0'' 4 1,
     Field ''I2SCLH'' 4 1, Field ''I2SCLL'' 4 1, Field ''I2CONCLR'' 4 1, Field ''MMCTRL'' 4 1,
     Field ''I2ADR1'' 4 1, Field ''I2ADR2'' 4 1, Field ''I2ADR3'' 4 1,
     Field ''I2DATA_BUFFER'' 4 1, Field ''I2MASK0'' 4 1, Field ''I2MASK1'' 4 1,
     Field ''I2MASK2'' 4 1, Field ''I2MASK3'' 4 1]"

definition LPC_RIT_TypeDef :: layout where
  "LPC_RIT_TypeDef =
    [Field ''RICOMPVAL'' 4 1, Field ''RIMASK'' 4 1, Field ''RICTRL'' 1 1,
     Field ''RESERVED0'' 1 3, Field ''RICOUNTER'' 4 1]"

definition LPC_RTC_TypeDef :: layout where
  "LPC_RTC_TypeDef =
    [Field ''ILR'' 1 1, Field ''RESERVED0'' 1 7, Field ''CCR'' 1 1, Field ''RESERVED1'' 1 3,
     Field ''CIIR'' 1 1, Field ''RESERVED2'' 1 3, Field ''AMR'' 1 1, Field ''RESERVED3'' 1 3,
     Field ''CTIME0'' 4 1, Field ''CTIME1'' 4 1, Field ''CTIME2'' 4 1, Field ''SEC'' 1 1,
     Field ''RESERVED4'' 1 3, Field ''MIN'' 1 1, Field ''RESERVED5'' 1 3, Field ''HOUR'' 1 1,
     Field ''RESERVED6'' 1 3, Field ''DOM'' 1 1, Field ''RESERVED7'' 1 3, Field ''DOW'' 1 1,
     Field ''RESERVED8'' 1 3, Field ''DOY'' 2 1, Field ''RESERVED9'' 2 1, Field ''MONTH'' 1 1,
     Field ''RESERVED10'' 1 3, Field ''YEAR'' 2 1, Field ''RESERVED11'' 2 1,
     Field ''CALIBRATION'' 4 1, Field ''GPREG0'' 4 1, Field ''GPREG1'' 4 1, Field ''GPREG2'' 4 1,
     Field ''GPREG3'' 4 1, Field ''GPREG4'' 4 1, Field ''RTC_AUXEN'' 1 1,
     Field ''RESERVED12'' 1 3, Field ''RTC_AUX'' 1 1, Field ''RESERVED13'' 1 3,
     Field ''ALSEC'' 1 1, Field ''RESERVED14'' 1 3, Field ''ALMIN'' 1 1,
     Field ''RESERVED15'' 1 3, Field ''ALHOUR'' 1 1, Field ''RESERVED16'' 1 3,
     Field ''ALDOM'' 1 1, Field ''RESERVED17'' 1 3, Field ''ALDOW'' 1 1,
     Field ''RESERVED18'' 1 3, Field ''ALDOY'' 2 1, Field ''RESERVED19'' 2 1,
     Field ''ALMON'' 1 1, Field ''RESERVED20'' 1 3, Field ''ALYEAR'' 2 1,
     Field ''RESERVED21'' 2 1]"

definition LPC_ADC_TypeDef :: layout where
  "LPC_ADC_TypeDef =
    [Field ''ADCR'' 4 1, Field ''ADGDR'' 4 1, Field ''RESERVED0'' 4 1, Field ''ADINTEN'' 4 1,
     Field ''ADDR0'' 4 1, Field ''ADDR1'' 4 1, Field ''ADDR2'' 4 1, Field ''ADDR3'' 4 1,
     Field ''ADDR4'' 4 1, Field ''ADDR5'' 4 1, Field ''ADDR6'' 4 1, Field ''ADDR7'' 4 1,
     Field ''ADSTAT'' 4 1, Field ''ADTRM'' 4 1]"

definition LPC_DAC_TypeDef :: layout where
  "LPC_DAC_TypeDef =
    [Field ''DACR'' 4 1, Field ''DACCTRL'' 4 1, Field ''DACCNTVAL'' 2 1]"

definition LPC_GPDMA_TypeDef :: layout where
  "LPC_GPDMA_TypeDef =
    [Field ''DMACIntStat'' 4 1, Field ''DMACIntTCStat'' 4 1, Field ''DMACIntTCClear'' 4 1,
     Field ''DMACIntErrStat'' 4 1, Field ''DMACIntErrClr'' 4 1, Field ''DMACRawIntTCStat'' 4 1,
     Field ''DMACRawIntErrStat'' 4 1, Field ''DMACEnbldChns'' 4 1, Field ''DMACSoftBReq'' 4 1,
     Field ''DMACSoftSReq'' 4 1, Field ''DMACSoftLBReq'' 4 1, Field ''DMACSoftLSReq'' 4 1,
     Field ''DMACConfig'' 4 1, Field ''DMACSync'' 4 1]"

definition LPC_GPDMACH_TypeDef :: layout where
  "LPC_GPDMACH_TypeDef =
    [Field ''DMACCSrcAddr'' 4 1, Field ''DMACCDestAddr'' 4 1, Field ''DMACCLLI'' 4 1,
     Field ''DMACCControl'' 4 1, Field ''DMACCConfig'' 4 1]"

definition LPC_EMAC_TypeDef :: layout where
  "LPC_EMAC_TypeDef =
    [Field ''MAC1'' 4 1, Field ''MAC2'' 4 1, Field ''IPGT'' 4 1, Field ''IPGR'' 4 1,
     Field ''CLRT'' 4 1, Field ''MAXF'' 4 1, Field ''SUPP'' 4 1, Field ''TEST'' 4 1,
     Field ''MCFG'' 4 1, Field ''MCMD'' 4 1, Field ''MADR'' 4 1, Field ''MWTD'' 4 1,
     Field ''MRDD'' 4 1, Field ''MIND'' 4 1, Field ''RESERVED0'' 4 2, Field ''SA0'' 4 1,
     Field ''SA1'' 4 1, Field ''SA2'' 4 1, Field ''RESERVED1'' 4 45, Field ''Command'' 4 1,
     Field ''Status'' 4 1, Field ''RxDescriptor'' 4 1, Field ''RxStatus'' 4 1,
     Field ''RxDescriptorNumber'' 4 1, Field ''RxProduceIndex'' 4 1,
     Field ''RxConsumeIndex'' 4 1, Field ''TxDescriptor'' 4 1, Field ''TxStatus'' 4 1,
     Field ''TxDescriptorNumber'' 4 1, Field ''TxProduceIndex'' 4 1,
     Field ''TxConsumeIndex'' 4 1, Field ''RESERVED2'' 4 10, Field ''TSV0'' 4 1,
     Field ''TSV1'' 4 1, Field ''RSV'' 4 1, Field ''RESERVED3'' 4 3,
     Field ''FlowControlCounter'' 4 1, Field ''FlowControlStatus'' 4 1, Field ''RESERVED4'' 4 34,
     Field ''RxFilterCtrl'' 4 1, Field ''RxFilterWoLStatus'' 4 1, Field ''RxFilterWoLClear'' 4 1,
     Field ''RESERVED5'' 4 1, Field ''HashFilterL'' 4 1, Field ''HashFilterH'' 4 1,
     Field ''RESERVED6'' 4 882, Field ''IntStatus'' 4 1, Field ''IntEnable'' 4 1,
     Field ''IntClear'' 4 1, Field ''IntSet'' 4 1, Field ''RESERVED7'' 4 1,
     Field ''PowerDown'' 4 1, Field ''RESERVED8'' 4 1, Field ''Module_ID'' 4 1]"

section \<open>Base addresses\<close>

definition LPC_GPIO_BASE :: addr where "LPC_GPIO_BASE = 0x2009C000"
definition LPC_APB0_BASE :: addr where "LPC_APB0_BASE = 0x40000000"
definition LPC_APB1_BASE :: addr where "LPC_APB1_BASE = 0x40080000"
definition LPC_AHB_BASE :: addr where "LPC_AHB_BASE = 0x50000000"
definition LPC_CM3_BASE :: addr where "LPC_CM3_BASE = 0xE0000000"
definition LPC_TIM0_BASE :: addr where "LPC_TIM0_BASE = LPC_APB0_BASE + 0x04000"
definition LPC_TIM1_BASE :: addr where "LPC_TIM1_BASE = LPC_APB0_BASE + 0x08000"
definition LPC_UART0_BASE :: addr where "LPC_UART0_BASE = LPC_APB0_BASE + 0x0C000"
definition LPC_PWM1_BASE :: addr where "LPC_PWM1_BASE = LPC_APB0_BASE + 0x18000"
definition LPC_I2C0_BASE :: addr where "LPC_I2C0_BASE = LPC_APB0_BASE + 0x1C000"
definition LPC_RTC_BASE :: addr where "LPC_RTC_BASE = LPC_APB0_BASE + 0x24000"
definition LPC_PINCON_BASE :: addr where "LPC_PINCON_BASE = LPC_APB0_BASE + 0x2C000"
definition LPC_SSP1_BASE :: addr where "LPC_SSP1_BASE = LPC_APB0_BASE + 0x30000"
definition LPC_ADC_BASE :: addr where "LPC_ADC_BASE = LPC_APB0_BASE + 0x34000"
definition LPC_I2C1_BASE :: addr where "LPC_I2C1_BASE = LPC_APB0_BASE + 0x5C000"
definition LPC_SSP0_BASE :: addr where "LPC_SSP0_BASE = LPC_APB1_BASE + 0x08000"
definition LPC_DAC_BASE :: addr where "LPC_DAC_BASE = LPC_APB1_BASE + 0x0C000"
definition LPC_TIM2_BASE :: addr where "LPC_TIM2_BASE = LPC_APB1_BASE + 0x10000"
definition LPC_TIM3_BASE :: addr where "LPC_TIM3_BASE = LPC_APB1_BASE + 0x14000"
definition LPC_UART2_BASE :: addr where "LPC_UART2_BASE = LPC_APB1_BASE + 0x18000"
definition LPC_UART3_BASE :: addr where "LPC_UART3_BASE = LPC_APB1_BASE + 0x1C000"
definition LPC_I2C2_BASE :: addr where "LPC_I2C2_BASE = LPC_APB1_BASE + 0x20000"
definition LPC_RIT_BASE :: addr where "LPC_RIT_BASE = LPC_APB1_BASE + 0x30000"
definition LPC_SC_BASE :: addr where "LPC_SC_BASE = LPC_APB1_BASE + 0x7C000"
definition LPC_EMAC_BASE :: addr where "LPC_EMAC_BASE = LPC_AHB_BASE + 0x00000"
definition LPC_GPDMA_BASE :: addr where "LPC_GPDMA_BASE = LPC_AHB_BASE + 0x04000"
definition LPC_GPDMACH0_BASE :: addr where "LPC_GPDMACH0_BASE = LPC_AHB_BASE + 0x04100"
definition LPC_GPDMACH1_BASE :: addr where "LPC_GPDMACH1_BASE = LPC_AHB_BASE + 0x04120"
definition LPC_GPDMACH2_BASE :: addr where "LPC_GPDMACH2_BASE = LPC_AHB_BASE + 0x04140"
definition LPC_GPDMACH3_BASE :: addr where "LPC_GPDMACH3_BASE = LPC_AHB_BASE + 0x04160"
definition LPC_GPDMACH4_BASE :: addr where "LPC_GPDMACH4_BASE = LPC_AHB_BASE + 0x04180"
definition LPC_GPDMACH5_BASE :: addr where "LPC_GPDMACH5_BASE = LPC_AHB_BASE + 0x041A0"
definition LPC_GPDMACH6_BASE :: addr where "LPC_GPDMACH6_BASE = LPC_AHB_BASE + 0x041C0"
definition LPC_GPDMACH7_BASE :: addr where "LPC_GPDMACH7_BASE = LPC_AHB_BASE + 0x041E0"
definition LPC_GPIO0_BASE :: addr where "LPC_GPIO0_BASE = LPC_GPIO_BASE + 0x00000"
definition LPC_GPIO1_BASE :: addr where "LPC_GPIO1_BASE = LPC_GPIO_BASE + 0x00020"
definition LPC_GPIO2_BASE :: addr where "LPC_GPIO2_BASE = LPC_GPIO_BASE + 0x00040"
definition LPC_GPIO3_BASE :: addr where "LPC_GPIO3_BASE = LPC_GPIO_BASE + 0x00060"
definition LPC_GPIO4_BASE :: addr where "LPC_GPIO4_BASE = LPC_GPIO_BASE + 0x00080"

lemmas base_defs =
  LPC_GPIO_BASE_def LPC_APB0_BASE_def LPC_APB1_BASE_def LPC_AHB_BASE_def LPC_CM3_BASE_def
  LPC_TIM0_BASE_def LPC_TIM1_BASE_def LPC_UART0_BASE_def LPC_PWM1_BASE_def LPC_I2C0_BASE_def
  LPC_RTC_BASE_def LPC_PINCON_BASE_def LPC_SSP1_BASE_def LPC_ADC_BASE_def LPC_I2C1_BASE_def
  LPC_SSP0_BASE_def LPC_DAC_BASE_def LPC_TIM2_BASE_def LPC_TIM3_BASE_def LPC_UART2_BASE_def
  LPC_UART3_BASE_def LPC_I2C2_BASE_def LPC_RIT_BASE_def LPC_SC_BASE_def LPC_EMAC_BASE_def
  LPC_GPDMA_BASE_def LPC_GPDMACH0_BASE_def LPC_GPDMACH1_BASE_def LPC_GPDMACH2_BASE_def
  LPC_GPDMACH3_BASE_def LPC_GPDMACH4_BASE_def LPC_GPDMACH5_BASE_def LPC_GPDMACH6_BASE_def
  LPC_GPDMACH7_BASE_def LPC_GPIO0_BASE_def LPC_GPIO1_BASE_def LPC_GPIO2_BASE_def
  LPC_GPIO3_BASE_def LPC_GPIO4_BASE_def

section \<open>Registers the drivers name\<close>

definition SC_FLASHCFG :: addr where "SC_FLASHCFG = reg LPC_SC_BASE LPC_SC_TypeDef ''FLASHCFG''"
definition SC_PLL0CON :: addr where "SC_PLL0CON = reg LPC_SC_BASE LPC_SC_TypeDef ''PLL0CON''"
definition SC_PLL0CFG :: addr where "SC_PLL0CFG = reg LPC_SC_BASE LPC_SC_TypeDef ''PLL0CFG''"
definition SC_PLL0STAT :: addr where "SC_PLL0STAT = reg LPC_SC_BASE LPC_SC_TypeDef ''PLL0STAT''"
definition SC_PLL0FEED :: addr where "SC_PLL0FEED = reg LPC_SC_BASE LPC_SC_TypeDef ''PLL0FEED''"
definition SC_PCONP :: addr where "SC_PCONP = reg LPC_SC_BASE LPC_SC_TypeDef ''PCONP''"
definition SC_CCLKCFG :: addr where "SC_CCLKCFG = reg LPC_SC_BASE LPC_SC_TypeDef ''CCLKCFG''"
definition SC_CLKSRCSEL :: addr where "SC_CLKSRCSEL = reg LPC_SC_BASE LPC_SC_TypeDef ''CLKSRCSEL''"
definition SC_SCS :: addr where "SC_SCS = reg LPC_SC_BASE LPC_SC_TypeDef ''SCS''"
definition SC_PCLKSEL0 :: addr where "SC_PCLKSEL0 = reg LPC_SC_BASE LPC_SC_TypeDef ''PCLKSEL0''"
definition SC_PCLKSEL1 :: addr where "SC_PCLKSEL1 = reg LPC_SC_BASE LPC_SC_TypeDef ''PCLKSEL1''"
definition PINCON_PINSEL0 :: addr where "PINCON_PINSEL0 = reg LPC_PINCON_BASE LPC_PINCON_TypeDef ''PINSEL0''"
definition PINCON_PINMODE0 :: addr where "PINCON_PINMODE0 = reg LPC_PINCON_BASE LPC_PINCON_TypeDef ''PINMODE0''"
definition PINCON_PINMODE_OD0 :: addr where "PINCON_PINMODE_OD0 = reg LPC_PINCON_BASE LPC_PINCON_TypeDef ''PINMODE_OD0''"
definition PWM1_TCR :: addr where "PWM1_TCR = reg LPC_PWM1_BASE LPC_PWM_TypeDef ''TCR''"
definition PWM1_PR :: addr where "PWM1_PR = reg LPC_PWM1_BASE LPC_PWM_TypeDef ''PR''"
definition PWM1_MCR :: addr where "PWM1_MCR = reg LPC_PWM1_BASE LPC_PWM_TypeDef ''MCR''"
definition PWM1_MR0 :: addr where "PWM1_MR0 = reg LPC_PWM1_BASE LPC_PWM_TypeDef ''MR0''"
definition PWM1_MR1 :: addr where "PWM1_MR1 = reg LPC_PWM1_BASE LPC_PWM_TypeDef ''MR1''"
definition PWM1_MR2 :: addr where "PWM1_MR2 = reg LPC_PWM1_BASE LPC_PWM_TypeDef ''MR2''"
definition PWM1_MR3 :: addr where "PWM1_MR3 = reg LPC_PWM1_BASE LPC_PWM_TypeDef ''MR3''"
definition PWM1_MR4 :: addr where "PWM1_MR4 = reg LPC_PWM1_BASE LPC_PWM_TypeDef ''MR4''"
definition PWM1_MR5 :: addr where "PWM1_MR5 = reg LPC_PWM1_BASE LPC_PWM_TypeDef ''MR5''"
definition PWM1_MR6 :: addr where "PWM1_MR6 = reg LPC_PWM1_BASE LPC_PWM_TypeDef ''MR6''"
definition PWM1_PCR :: addr where "PWM1_PCR = reg LPC_PWM1_BASE LPC_PWM_TypeDef ''PCR''"
definition RIT_RICOMPVAL :: addr where "RIT_RICOMPVAL = reg LPC_RIT_BASE LPC_RIT_TypeDef ''RICOMPVAL''"
definition RIT_RIMASK :: addr where "RIT_RIMASK = reg LPC_RIT_BASE LPC_RIT_TypeDef ''RIMASK''"
definition RIT_RICTRL :: addr where "RIT_RICTRL = reg LPC_RIT_BASE LPC_RIT_TypeDef ''RICTRL''"
definition RIT_RICOUNTER :: addr where "RIT_RICOUNTER = reg LPC_RIT_BASE LPC_RIT_TypeDef ''RICOUNTER''"
definition ADC_ADCR :: addr where "ADC_ADCR = reg LPC_ADC_BASE LPC_ADC_TypeDef ''ADCR''"
definition ADC_ADGDR :: addr where "ADC_ADGDR = reg LPC_ADC_BASE LPC_ADC_TypeDef ''ADGDR''"
definition ADC_ADINTEN :: addr where "ADC_ADINTEN = reg LPC_ADC_BASE LPC_ADC_TypeDef ''ADINTEN''"
definition ADC_ADDR0 :: addr where "ADC_ADDR0 = reg LPC_ADC_BASE LPC_ADC_TypeDef ''ADDR0''"
definition DAC_DACR :: addr where "DAC_DACR = reg LPC_DAC_BASE LPC_DAC_TypeDef ''DACR''"
definition GPDMA_DMACIntTCClear :: addr where "GPDMA_DMACIntTCClear = reg LPC_GPDMA_BASE LPC_GPDMA_TypeDef ''DMACIntTCClear''"
definition GPDMA_DMACIntErrClr :: addr where "GPDMA_DMACIntErrClr = reg LPC_GPDMA_BASE LPC_GPDMA_TypeDef ''DMACIntErrClr''"
definition GPDMA_DMACEnbldChns :: addr where "GPDMA_DMACEnbldChns = reg LPC_GPDMA_BASE LPC_GPDMA_TypeDef ''DMACEnbldChns''"
definition GPDMA_DMACConfig :: addr where "GPDMA_DMACConfig = reg LPC_GPDMA_BASE LPC_GPDMA_TypeDef ''DMACConfig''"
definition EMAC_MAC1 :: addr where "EMAC_MAC1 = reg LPC_EMAC_BASE LPC_EMAC_TypeDef ''MAC1''"
definition EMAC_MAC2 :: addr where "EMAC_MAC2 = reg LPC_EMAC_BASE LPC_EMAC_TypeDef ''MAC2''"
definition EMAC_IPGT :: addr where "EMAC_IPGT = reg LPC_EMAC_BASE LPC_EMAC_TypeDef ''IPGT''"
definition EMAC_IPGR :: addr where "EMAC_IPGR = reg LPC_EMAC_BASE LPC_EMAC_TypeDef ''IPGR''"
definition EMAC_CLRT :: addr where "EMAC_CLRT = reg LPC_EMAC_BASE LPC_EMAC_TypeDef ''CLRT''"
definition EMAC_MAXF :: addr where "EMAC_MAXF = reg LPC_EMAC_BASE LPC_EMAC_TypeDef ''MAXF''"
definition EMAC_SUPP :: addr where "EMAC_SUPP = reg LPC_EMAC_BASE LPC_EMAC_TypeDef ''SUPP''"
definition EMAC_MCFG :: addr where "EMAC_MCFG = reg LPC_EMAC_BASE LPC_EMAC_TypeDef ''MCFG''"
definition EMAC_MCMD :: addr where "EMAC_MCMD = reg LPC_EMAC_BASE LPC_EMAC_TypeDef ''MCMD''"
definition EMAC_MADR :: addr where "EMAC_MADR = reg LPC_EMAC_BASE LPC_EMAC_TypeDef ''MADR''"
definition EMAC_MWTD :: addr where "EMAC_MWTD = reg LPC_EMAC_BASE LPC_EMAC_TypeDef ''MWTD''"
definition EMAC_MRDD :: addr where "EMAC_MRDD = reg LPC_EMAC_BASE LPC_EMAC_TypeDef ''MRDD''"
definition EMAC_MIND :: addr where "EMAC_MIND = reg LPC_EMAC_BASE LPC_EMAC_TypeDef ''MIND''"
definition EMAC_SA0 :: addr where "EMAC_SA0 = reg LPC_EMAC_BASE LPC_EMAC_TypeDef ''SA0''"
definition EMAC_SA1 :: addr where "EMAC_SA1 = reg LPC_EMAC_BASE LPC_EMAC_TypeDef ''SA1''"
definition EMAC_SA2 :: addr where "EMAC_SA2 = reg LPC_EMAC_BASE LPC_EMAC_TypeDef ''SA2''"
definition EMAC_Command :: addr where "EMAC_Command = reg LPC_EMAC_BASE LPC_EMAC_TypeDef ''Command''"
definition EMAC_RxDescriptor :: addr where "EMAC_RxDescriptor = reg LPC_EMAC_BASE LPC_EMAC_TypeDef ''RxDescriptor''"
definition EMAC_RxStatus :: addr where "EMAC_RxStatus = reg LPC_EMAC_BASE LPC_EMAC_TypeDef ''RxStatus''"
definition EMAC_RxDescriptorNumber :: addr where "EMAC_RxDescriptorNumber = reg LPC_EMAC_BASE LPC_EMAC_TypeDef ''RxDescriptorNumber''"
definition EMAC_RxProduceIndex :: addr where "EMAC_RxProduceIndex = reg LPC_EMAC_BASE LPC_EMAC_TypeDef ''RxProduceIndex''"
definition EMAC_RxConsumeIndex :: addr where "EMAC_RxConsumeIndex = reg LPC_EMAC_BASE LPC_EMAC_TypeDef ''RxConsumeIndex''"
definition EMAC_TxDescriptor :: addr where "EMAC_TxDescriptor = reg LPC_EMAC_BASE LPC_EMAC_TypeDef ''TxDescriptor''"
definition EMAC_TxStatus :: addr where "EMAC_TxStatus = reg LPC_EMAC_BASE LPC_EMAC_TypeDef ''TxStatus''"
definition EMAC_TxDescriptorNumber :: addr where "EMAC_TxDescriptorNumber = reg LPC_EMAC_BASE LPC_EMAC_TypeDef ''TxDescriptorNumber''"
definition EMAC_TxProduceIndex :: addr where "EMAC_TxProduceIndex = reg LPC_EMAC_BASE LPC_EMAC_TypeDef ''TxProduceIndex''"
definition EMAC_TxConsumeIndex :: addr where "EMAC_TxConsumeIndex = reg LPC_EMAC_BASE LPC_EMAC_TypeDef ''TxConsumeIndex''"
definition EMAC_RxFilterCtrl :: addr where "EMAC_RxFilterCtrl = reg LPC_EMAC_BASE LPC_EMAC_TypeDef ''RxFilterCtrl''"
definition EMAC_IntStatus :: addr where "EMAC_IntStatus = reg LPC_EMAC_BASE LPC_EMAC_TypeDef ''IntStatus''"
definition EMAC_IntEnable :: addr where "EMAC_IntEnable = reg LPC_EMAC_BASE LPC_EMAC_TypeDef ''IntEnable''"
definition EMAC_IntClear :: addr where "EMAC_IntClear = reg LPC_EMAC_BASE LPC_EMAC_TypeDef ''IntClear''"
definition EMAC_IntSet :: addr where "EMAC_IntSet = reg LPC_EMAC_BASE LPC_EMAC_TypeDef ''IntSet''"

text \<open>Registers of the blocks that exist several times are found from the block's base.\<close>

definition TIM_IR :: "addr \<Rightarrow> addr" where "TIM_IR base = reg base LPC_TIM_TypeDef ''IR''"
definition TIM_TCR :: "addr \<Rightarrow> addr" where "TIM_TCR base = reg base LPC_TIM_TypeDef ''TCR''"
definition TIM_TC :: "addr \<Rightarrow> addr" where "TIM_TC base = reg base LPC_TIM_TypeDef ''TC''"
definition TIM_PR :: "addr \<Rightarrow> addr" where "TIM_PR base = reg base LPC_TIM_TypeDef ''PR''"
definition TIM_PC :: "addr \<Rightarrow> addr" where "TIM_PC base = reg base LPC_TIM_TypeDef ''PC''"
definition TIM_MCR :: "addr \<Rightarrow> addr" where "TIM_MCR base = reg base LPC_TIM_TypeDef ''MCR''"
definition TIM_MR0 :: "addr \<Rightarrow> addr" where "TIM_MR0 base = reg base LPC_TIM_TypeDef ''MR0''"
definition GPIO_FIODIR :: "addr \<Rightarrow> addr" where "GPIO_FIODIR base = reg base LPC_GPIO_TypeDef ''FIODIR''"
definition GPIO_FIOMASK :: "addr \<Rightarrow> addr" where "GPIO_FIOMASK base = reg base LPC_GPIO_TypeDef ''FIOMASK''"
definition GPIO_FIOPIN :: "addr \<Rightarrow> addr" where "GPIO_FIOPIN base = reg base LPC_GPIO_TypeDef ''FIOPIN''"
definition GPIO_FIOSET :: "addr \<Rightarrow> addr" where "GPIO_FIOSET base = reg base LPC_GPIO_TypeDef ''FIOSET''"
definition GPIO_FIOCLR :: "addr \<Rightarrow> addr" where "GPIO_FIOCLR base = reg base LPC_GPIO_TypeDef ''FIOCLR''"
definition UART_RBR :: "addr \<Rightarrow> addr" where "UART_RBR base = reg base LPC_UART_TypeDef ''RBR''"
definition UART_THR :: "addr \<Rightarrow> addr" where "UART_THR base = reg base LPC_UART_TypeDef ''THR''"
definition UART_DLL :: "addr \<Rightarrow> addr" where "UART_DLL base = reg base LPC_UART_TypeDef ''DLL''"
definition UART_DLM :: "addr \<Rightarrow> addr" where "UART_DLM base = reg base LPC_UART_TypeDef ''DLM''"
definition UART_IER :: "addr \<Rightarrow> addr" where "UART_IER base = reg base LPC_UART_TypeDef ''IER''"
definition UART_FCR :: "addr \<Rightarrow> addr" where "UART_FCR base = reg base LPC_UART_TypeDef ''FCR''"
definition UART_LCR :: "addr \<Rightarrow> addr" where "UART_LCR base = reg base LPC_UART_TypeDef ''LCR''"
definition UART_LSR :: "addr \<Rightarrow> addr" where "UART_LSR base = reg base LPC_UART_TypeDef ''LSR''"
definition UART_FDR :: "addr \<Rightarrow> addr" where "UART_FDR base = reg base LPC_UART_TypeDef ''FDR''"
definition SSP_CR0 :: "addr \<Rightarrow> addr" where "SSP_CR0 base = reg base LPC_SSP_TypeDef ''CR0''"
definition SSP_CR1 :: "addr \<Rightarrow> addr" where "SSP_CR1 base = reg base LPC_SSP_TypeDef ''CR1''"
definition SSP_DR :: "addr \<Rightarrow> addr" where "SSP_DR base = reg base LPC_SSP_TypeDef ''DR''"
definition SSP_SR :: "addr \<Rightarrow> addr" where "SSP_SR base = reg base LPC_SSP_TypeDef ''SR''"
definition SSP_CPSR :: "addr \<Rightarrow> addr" where "SSP_CPSR base = reg base LPC_SSP_TypeDef ''CPSR''"
definition SSP_IMSC :: "addr \<Rightarrow> addr" where "SSP_IMSC base = reg base LPC_SSP_TypeDef ''IMSC''"
definition I2C_I2CONSET :: "addr \<Rightarrow> addr" where "I2C_I2CONSET base = reg base LPC_I2C_TypeDef ''I2CONSET''"
definition I2C_I2STAT :: "addr \<Rightarrow> addr" where "I2C_I2STAT base = reg base LPC_I2C_TypeDef ''I2STAT''"
definition I2C_I2DAT :: "addr \<Rightarrow> addr" where "I2C_I2DAT base = reg base LPC_I2C_TypeDef ''I2DAT''"
definition I2C_I2ADR0 :: "addr \<Rightarrow> addr" where "I2C_I2ADR0 base = reg base LPC_I2C_TypeDef ''I2ADR0''"
definition I2C_I2SCLH :: "addr \<Rightarrow> addr" where "I2C_I2SCLH base = reg base LPC_I2C_TypeDef ''I2SCLH''"
definition I2C_I2SCLL :: "addr \<Rightarrow> addr" where "I2C_I2SCLL base = reg base LPC_I2C_TypeDef ''I2SCLL''"
definition I2C_I2CONCLR :: "addr \<Rightarrow> addr" where "I2C_I2CONCLR base = reg base LPC_I2C_TypeDef ''I2CONCLR''"
definition I2C_I2MASK0 :: "addr \<Rightarrow> addr" where "I2C_I2MASK0 base = reg base LPC_I2C_TypeDef ''I2MASK0''"
definition GPDMACH_DMACCSrcAddr :: "addr \<Rightarrow> addr" where "GPDMACH_DMACCSrcAddr base = reg base LPC_GPDMACH_TypeDef ''DMACCSrcAddr''"
definition GPDMACH_DMACCDestAddr :: "addr \<Rightarrow> addr" where "GPDMACH_DMACCDestAddr base = reg base LPC_GPDMACH_TypeDef ''DMACCDestAddr''"
definition GPDMACH_DMACCLLI :: "addr \<Rightarrow> addr" where "GPDMACH_DMACCLLI base = reg base LPC_GPDMACH_TypeDef ''DMACCLLI''"
definition GPDMACH_DMACCControl :: "addr \<Rightarrow> addr" where "GPDMACH_DMACCControl base = reg base LPC_GPDMACH_TypeDef ''DMACCControl''"
definition GPDMACH_DMACCConfig :: "addr \<Rightarrow> addr" where "GPDMACH_DMACCConfig base = reg base LPC_GPDMACH_TypeDef ''DMACCConfig''"

lemmas layout_defs =
  LPC_SC_TypeDef_def LPC_PINCON_TypeDef_def LPC_GPIO_TypeDef_def LPC_TIM_TypeDef_def
  LPC_PWM_TypeDef_def LPC_UART_TypeDef_def LPC_UART0_TypeDef_def LPC_SSP_TypeDef_def
  LPC_I2C_TypeDef_def LPC_RIT_TypeDef_def LPC_RTC_TypeDef_def LPC_ADC_TypeDef_def
  LPC_DAC_TypeDef_def LPC_GPDMA_TypeDef_def LPC_GPDMACH_TypeDef_def LPC_EMAC_TypeDef_def

section \<open>Their numeric values\<close>

lemma SC_FLASHCFG_addr [reg_addr]: "SC_FLASHCFG = 0x400FC000"
  by (simp add: SC_FLASHCFG_def reg_def offset_of_def LPC_SC_TypeDef_def base_defs align_up_def)
lemma SC_PLL0CON_addr [reg_addr]: "SC_PLL0CON = 0x400FC080"
  by (simp add: SC_PLL0CON_def reg_def offset_of_def LPC_SC_TypeDef_def base_defs align_up_def)
lemma SC_PLL0CFG_addr [reg_addr]: "SC_PLL0CFG = 0x400FC084"
  by (simp add: SC_PLL0CFG_def reg_def offset_of_def LPC_SC_TypeDef_def base_defs align_up_def)
lemma SC_PLL0STAT_addr [reg_addr]: "SC_PLL0STAT = 0x400FC088"
  by (simp add: SC_PLL0STAT_def reg_def offset_of_def LPC_SC_TypeDef_def base_defs align_up_def)
lemma SC_PLL0FEED_addr [reg_addr]: "SC_PLL0FEED = 0x400FC08C"
  by (simp add: SC_PLL0FEED_def reg_def offset_of_def LPC_SC_TypeDef_def base_defs align_up_def)
lemma SC_PCONP_addr [reg_addr]: "SC_PCONP = 0x400FC0C4"
  by (simp add: SC_PCONP_def reg_def offset_of_def LPC_SC_TypeDef_def base_defs align_up_def)
lemma SC_CCLKCFG_addr [reg_addr]: "SC_CCLKCFG = 0x400FC104"
  by (simp add: SC_CCLKCFG_def reg_def offset_of_def LPC_SC_TypeDef_def base_defs align_up_def)
lemma SC_CLKSRCSEL_addr [reg_addr]: "SC_CLKSRCSEL = 0x400FC10C"
  by (simp add: SC_CLKSRCSEL_def reg_def offset_of_def LPC_SC_TypeDef_def base_defs align_up_def)
lemma SC_SCS_addr [reg_addr]: "SC_SCS = 0x400FC1A0"
  by (simp add: SC_SCS_def reg_def offset_of_def LPC_SC_TypeDef_def base_defs align_up_def)
lemma SC_PCLKSEL0_addr [reg_addr]: "SC_PCLKSEL0 = 0x400FC1A8"
  by (simp add: SC_PCLKSEL0_def reg_def offset_of_def LPC_SC_TypeDef_def base_defs align_up_def)
lemma SC_PCLKSEL1_addr [reg_addr]: "SC_PCLKSEL1 = 0x400FC1AC"
  by (simp add: SC_PCLKSEL1_def reg_def offset_of_def LPC_SC_TypeDef_def base_defs align_up_def)
lemma PINCON_PINSEL0_addr [reg_addr]: "PINCON_PINSEL0 = 0x4002C000"
  by (simp add: PINCON_PINSEL0_def reg_def offset_of_def LPC_PINCON_TypeDef_def base_defs align_up_def)
lemma PINCON_PINMODE0_addr [reg_addr]: "PINCON_PINMODE0 = 0x4002C040"
  by (simp add: PINCON_PINMODE0_def reg_def offset_of_def LPC_PINCON_TypeDef_def base_defs align_up_def)
lemma PINCON_PINMODE_OD0_addr [reg_addr]: "PINCON_PINMODE_OD0 = 0x4002C068"
  by (simp add: PINCON_PINMODE_OD0_def reg_def offset_of_def LPC_PINCON_TypeDef_def base_defs align_up_def)
lemma PWM1_TCR_addr [reg_addr]: "PWM1_TCR = 0x40018004"
  by (simp add: PWM1_TCR_def reg_def offset_of_def LPC_PWM_TypeDef_def base_defs align_up_def)
lemma PWM1_PR_addr [reg_addr]: "PWM1_PR = 0x4001800C"
  by (simp add: PWM1_PR_def reg_def offset_of_def LPC_PWM_TypeDef_def base_defs align_up_def)
lemma PWM1_MCR_addr [reg_addr]: "PWM1_MCR = 0x40018014"
  by (simp add: PWM1_MCR_def reg_def offset_of_def LPC_PWM_TypeDef_def base_defs align_up_def)
lemma PWM1_MR0_addr [reg_addr]: "PWM1_MR0 = 0x40018018"
  by (simp add: PWM1_MR0_def reg_def offset_of_def LPC_PWM_TypeDef_def base_defs align_up_def)
lemma PWM1_MR1_addr [reg_addr]: "PWM1_MR1 = 0x4001801C"
  by (simp add: PWM1_MR1_def reg_def offset_of_def LPC_PWM_TypeDef_def base_defs align_up_def)
lemma PWM1_MR2_addr [reg_addr]: "PWM1_MR2 = 0x40018020"
  by (simp add: PWM1_MR2_def reg_def offset_of_def LPC_PWM_TypeDef_def base_defs align_up_def)
lemma PWM1_MR3_addr [reg_addr]: "PWM1_MR3 = 0x40018024"
  by (simp add: PWM1_MR3_def reg_def offset_of_def LPC_PWM_TypeDef_def base_defs align_up_def)
lemma PWM1_MR4_addr [reg_addr]: "PWM1_MR4 = 0x40018040"
  by (simp add: PWM1_MR4_def reg_def offset_of_def LPC_PWM_TypeDef_def base_defs align_up_def)
lemma PWM1_MR5_addr [reg_addr]: "PWM1_MR5 = 0x40018044"
  by (simp add: PWM1_MR5_def reg_def offset_of_def LPC_PWM_TypeDef_def base_defs align_up_def)
lemma PWM1_MR6_addr [reg_addr]: "PWM1_MR6 = 0x40018048"
  by (simp add: PWM1_MR6_def reg_def offset_of_def LPC_PWM_TypeDef_def base_defs align_up_def)
lemma PWM1_PCR_addr [reg_addr]: "PWM1_PCR = 0x4001804C"
  by (simp add: PWM1_PCR_def reg_def offset_of_def LPC_PWM_TypeDef_def base_defs align_up_def)
lemma RIT_RICOMPVAL_addr [reg_addr]: "RIT_RICOMPVAL = 0x400B0000"
  by (simp add: RIT_RICOMPVAL_def reg_def offset_of_def LPC_RIT_TypeDef_def base_defs align_up_def)
lemma RIT_RIMASK_addr [reg_addr]: "RIT_RIMASK = 0x400B0004"
  by (simp add: RIT_RIMASK_def reg_def offset_of_def LPC_RIT_TypeDef_def base_defs align_up_def)
lemma RIT_RICTRL_addr [reg_addr]: "RIT_RICTRL = 0x400B0008"
  by (simp add: RIT_RICTRL_def reg_def offset_of_def LPC_RIT_TypeDef_def base_defs align_up_def)
lemma RIT_RICOUNTER_addr [reg_addr]: "RIT_RICOUNTER = 0x400B000C"
  by (simp add: RIT_RICOUNTER_def reg_def offset_of_def LPC_RIT_TypeDef_def base_defs align_up_def)
lemma ADC_ADCR_addr [reg_addr]: "ADC_ADCR = 0x40034000"
  by (simp add: ADC_ADCR_def reg_def offset_of_def LPC_ADC_TypeDef_def base_defs align_up_def)
lemma ADC_ADGDR_addr [reg_addr]: "ADC_ADGDR = 0x40034004"
  by (simp add: ADC_ADGDR_def reg_def offset_of_def LPC_ADC_TypeDef_def base_defs align_up_def)
lemma ADC_ADINTEN_addr [reg_addr]: "ADC_ADINTEN = 0x4003400C"
  by (simp add: ADC_ADINTEN_def reg_def offset_of_def LPC_ADC_TypeDef_def base_defs align_up_def)
lemma ADC_ADDR0_addr [reg_addr]: "ADC_ADDR0 = 0x40034010"
  by (simp add: ADC_ADDR0_def reg_def offset_of_def LPC_ADC_TypeDef_def base_defs align_up_def)
lemma DAC_DACR_addr [reg_addr]: "DAC_DACR = 0x4008C000"
  by (simp add: DAC_DACR_def reg_def offset_of_def LPC_DAC_TypeDef_def base_defs align_up_def)
lemma GPDMA_DMACIntTCClear_addr [reg_addr]: "GPDMA_DMACIntTCClear = 0x50004008"
  by (simp add: GPDMA_DMACIntTCClear_def reg_def offset_of_def LPC_GPDMA_TypeDef_def base_defs align_up_def)
lemma GPDMA_DMACIntErrClr_addr [reg_addr]: "GPDMA_DMACIntErrClr = 0x50004010"
  by (simp add: GPDMA_DMACIntErrClr_def reg_def offset_of_def LPC_GPDMA_TypeDef_def base_defs align_up_def)
lemma GPDMA_DMACEnbldChns_addr [reg_addr]: "GPDMA_DMACEnbldChns = 0x5000401C"
  by (simp add: GPDMA_DMACEnbldChns_def reg_def offset_of_def LPC_GPDMA_TypeDef_def base_defs align_up_def)
lemma GPDMA_DMACConfig_addr [reg_addr]: "GPDMA_DMACConfig = 0x50004030"
  by (simp add: GPDMA_DMACConfig_def reg_def offset_of_def LPC_GPDMA_TypeDef_def base_defs align_up_def)
lemma EMAC_MAC1_addr [reg_addr]: "EMAC_MAC1 = 0x50000000"
  by (simp add: EMAC_MAC1_def reg_def offset_of_def LPC_EMAC_TypeDef_def base_defs align_up_def)
lemma EMAC_MAC2_addr [reg_addr]: "EMAC_MAC2 = 0x50000004"
  by (simp add: EMAC_MAC2_def reg_def offset_of_def LPC_EMAC_TypeDef_def base_defs align_up_def)
lemma EMAC_IPGT_addr [reg_addr]: "EMAC_IPGT = 0x50000008"
  by (simp add: EMAC_IPGT_def reg_def offset_of_def LPC_EMAC_TypeDef_def base_defs align_up_def)
lemma EMAC_IPGR_addr [reg_addr]: "EMAC_IPGR = 0x5000000C"
  by (simp add: EMAC_IPGR_def reg_def offset_of_def LPC_EMAC_TypeDef_def base_defs align_up_def)
lemma EMAC_CLRT_addr [reg_addr]: "EMAC_CLRT = 0x50000010"
  by (simp add: EMAC_CLRT_def reg_def offset_of_def LPC_EMAC_TypeDef_def base_defs align_up_def)
lemma EMAC_MAXF_addr [reg_addr]: "EMAC_MAXF = 0x50000014"
  by (simp add: EMAC_MAXF_def reg_def offset_of_def LPC_EMAC_TypeDef_def base_defs align_up_def)
lemma EMAC_SUPP_addr [reg_addr]: "EMAC_SUPP = 0x50000018"
  by (simp add: EMAC_SUPP_def reg_def offset_of_def LPC_EMAC_TypeDef_def base_defs align_up_def)
lemma EMAC_MCFG_addr [reg_addr]: "EMAC_MCFG = 0x50000020"
  by (simp add: EMAC_MCFG_def reg_def offset_of_def LPC_EMAC_TypeDef_def base_defs align_up_def)
lemma EMAC_MCMD_addr [reg_addr]: "EMAC_MCMD = 0x50000024"
  by (simp add: EMAC_MCMD_def reg_def offset_of_def LPC_EMAC_TypeDef_def base_defs align_up_def)
lemma EMAC_MADR_addr [reg_addr]: "EMAC_MADR = 0x50000028"
  by (simp add: EMAC_MADR_def reg_def offset_of_def LPC_EMAC_TypeDef_def base_defs align_up_def)
lemma EMAC_MWTD_addr [reg_addr]: "EMAC_MWTD = 0x5000002C"
  by (simp add: EMAC_MWTD_def reg_def offset_of_def LPC_EMAC_TypeDef_def base_defs align_up_def)
lemma EMAC_MRDD_addr [reg_addr]: "EMAC_MRDD = 0x50000030"
  by (simp add: EMAC_MRDD_def reg_def offset_of_def LPC_EMAC_TypeDef_def base_defs align_up_def)
lemma EMAC_MIND_addr [reg_addr]: "EMAC_MIND = 0x50000034"
  by (simp add: EMAC_MIND_def reg_def offset_of_def LPC_EMAC_TypeDef_def base_defs align_up_def)
lemma EMAC_SA0_addr [reg_addr]: "EMAC_SA0 = 0x50000040"
  by (simp add: EMAC_SA0_def reg_def offset_of_def LPC_EMAC_TypeDef_def base_defs align_up_def)
lemma EMAC_SA1_addr [reg_addr]: "EMAC_SA1 = 0x50000044"
  by (simp add: EMAC_SA1_def reg_def offset_of_def LPC_EMAC_TypeDef_def base_defs align_up_def)
lemma EMAC_SA2_addr [reg_addr]: "EMAC_SA2 = 0x50000048"
  by (simp add: EMAC_SA2_def reg_def offset_of_def LPC_EMAC_TypeDef_def base_defs align_up_def)
lemma EMAC_Command_addr [reg_addr]: "EMAC_Command = 0x50000100"
  by (simp add: EMAC_Command_def reg_def offset_of_def LPC_EMAC_TypeDef_def base_defs align_up_def)
lemma EMAC_RxDescriptor_addr [reg_addr]: "EMAC_RxDescriptor = 0x50000108"
  by (simp add: EMAC_RxDescriptor_def reg_def offset_of_def LPC_EMAC_TypeDef_def base_defs align_up_def)
lemma EMAC_RxStatus_addr [reg_addr]: "EMAC_RxStatus = 0x5000010C"
  by (simp add: EMAC_RxStatus_def reg_def offset_of_def LPC_EMAC_TypeDef_def base_defs align_up_def)
lemma EMAC_RxDescriptorNumber_addr [reg_addr]: "EMAC_RxDescriptorNumber = 0x50000110"
  by (simp add: EMAC_RxDescriptorNumber_def reg_def offset_of_def LPC_EMAC_TypeDef_def base_defs align_up_def)
lemma EMAC_RxProduceIndex_addr [reg_addr]: "EMAC_RxProduceIndex = 0x50000114"
  by (simp add: EMAC_RxProduceIndex_def reg_def offset_of_def LPC_EMAC_TypeDef_def base_defs align_up_def)
lemma EMAC_RxConsumeIndex_addr [reg_addr]: "EMAC_RxConsumeIndex = 0x50000118"
  by (simp add: EMAC_RxConsumeIndex_def reg_def offset_of_def LPC_EMAC_TypeDef_def base_defs align_up_def)
lemma EMAC_TxDescriptor_addr [reg_addr]: "EMAC_TxDescriptor = 0x5000011C"
  by (simp add: EMAC_TxDescriptor_def reg_def offset_of_def LPC_EMAC_TypeDef_def base_defs align_up_def)
lemma EMAC_TxStatus_addr [reg_addr]: "EMAC_TxStatus = 0x50000120"
  by (simp add: EMAC_TxStatus_def reg_def offset_of_def LPC_EMAC_TypeDef_def base_defs align_up_def)
lemma EMAC_TxDescriptorNumber_addr [reg_addr]: "EMAC_TxDescriptorNumber = 0x50000124"
  by (simp add: EMAC_TxDescriptorNumber_def reg_def offset_of_def LPC_EMAC_TypeDef_def base_defs align_up_def)
lemma EMAC_TxProduceIndex_addr [reg_addr]: "EMAC_TxProduceIndex = 0x50000128"
  by (simp add: EMAC_TxProduceIndex_def reg_def offset_of_def LPC_EMAC_TypeDef_def base_defs align_up_def)
lemma EMAC_TxConsumeIndex_addr [reg_addr]: "EMAC_TxConsumeIndex = 0x5000012C"
  by (simp add: EMAC_TxConsumeIndex_def reg_def offset_of_def LPC_EMAC_TypeDef_def base_defs align_up_def)
lemma EMAC_RxFilterCtrl_addr [reg_addr]: "EMAC_RxFilterCtrl = 0x50000200"
  by (simp add: EMAC_RxFilterCtrl_def reg_def offset_of_def LPC_EMAC_TypeDef_def base_defs align_up_def)
lemma EMAC_IntStatus_addr [reg_addr]: "EMAC_IntStatus = 0x50000FE0"
  by (simp add: EMAC_IntStatus_def reg_def offset_of_def LPC_EMAC_TypeDef_def base_defs align_up_def)
lemma EMAC_IntEnable_addr [reg_addr]: "EMAC_IntEnable = 0x50000FE4"
  by (simp add: EMAC_IntEnable_def reg_def offset_of_def LPC_EMAC_TypeDef_def base_defs align_up_def)
lemma EMAC_IntClear_addr [reg_addr]: "EMAC_IntClear = 0x50000FE8"
  by (simp add: EMAC_IntClear_def reg_def offset_of_def LPC_EMAC_TypeDef_def base_defs align_up_def)
lemma EMAC_IntSet_addr [reg_addr]: "EMAC_IntSet = 0x50000FEC"
  by (simp add: EMAC_IntSet_def reg_def offset_of_def LPC_EMAC_TypeDef_def base_defs align_up_def)
lemma offset_TIM_IR: "offset_of LPC_TIM_TypeDef ''IR'' = Some 0"
  by (simp add: offset_of_def LPC_TIM_TypeDef_def align_up_def)
lemma TIM_IR_addr [reg_addr]: "TIM_IR base = base + 0x0"
  by (simp add: TIM_IR_def reg_def offset_TIM_IR)
lemma offset_TIM_TCR: "offset_of LPC_TIM_TypeDef ''TCR'' = Some 4"
  by (simp add: offset_of_def LPC_TIM_TypeDef_def align_up_def)
lemma TIM_TCR_addr [reg_addr]: "TIM_TCR base = base + 0x4"
  by (simp add: TIM_TCR_def reg_def offset_TIM_TCR)
lemma offset_TIM_TC: "offset_of LPC_TIM_TypeDef ''TC'' = Some 8"
  by (simp add: offset_of_def LPC_TIM_TypeDef_def align_up_def)
lemma TIM_TC_addr [reg_addr]: "TIM_TC base = base + 0x8"
  by (simp add: TIM_TC_def reg_def offset_TIM_TC)
lemma offset_TIM_PR: "offset_of LPC_TIM_TypeDef ''PR'' = Some 12"
  by (simp add: offset_of_def LPC_TIM_TypeDef_def align_up_def)
lemma TIM_PR_addr [reg_addr]: "TIM_PR base = base + 0xC"
  by (simp add: TIM_PR_def reg_def offset_TIM_PR)
lemma offset_TIM_PC: "offset_of LPC_TIM_TypeDef ''PC'' = Some 16"
  by (simp add: offset_of_def LPC_TIM_TypeDef_def align_up_def)
lemma TIM_PC_addr [reg_addr]: "TIM_PC base = base + 0x10"
  by (simp add: TIM_PC_def reg_def offset_TIM_PC)
lemma offset_TIM_MCR: "offset_of LPC_TIM_TypeDef ''MCR'' = Some 20"
  by (simp add: offset_of_def LPC_TIM_TypeDef_def align_up_def)
lemma TIM_MCR_addr [reg_addr]: "TIM_MCR base = base + 0x14"
  by (simp add: TIM_MCR_def reg_def offset_TIM_MCR)
lemma offset_TIM_MR0: "offset_of LPC_TIM_TypeDef ''MR0'' = Some 24"
  by (simp add: offset_of_def LPC_TIM_TypeDef_def align_up_def)
lemma TIM_MR0_addr [reg_addr]: "TIM_MR0 base = base + 0x18"
  by (simp add: TIM_MR0_def reg_def offset_TIM_MR0)
lemma offset_GPIO_FIODIR: "offset_of LPC_GPIO_TypeDef ''FIODIR'' = Some 0"
  by (simp add: offset_of_def LPC_GPIO_TypeDef_def align_up_def)
lemma GPIO_FIODIR_addr [reg_addr]: "GPIO_FIODIR base = base + 0x0"
  by (simp add: GPIO_FIODIR_def reg_def offset_GPIO_FIODIR)
lemma offset_GPIO_FIOMASK: "offset_of LPC_GPIO_TypeDef ''FIOMASK'' = Some 16"
  by (simp add: offset_of_def LPC_GPIO_TypeDef_def align_up_def)
lemma GPIO_FIOMASK_addr [reg_addr]: "GPIO_FIOMASK base = base + 0x10"
  by (simp add: GPIO_FIOMASK_def reg_def offset_GPIO_FIOMASK)
lemma offset_GPIO_FIOPIN: "offset_of LPC_GPIO_TypeDef ''FIOPIN'' = Some 20"
  by (simp add: offset_of_def LPC_GPIO_TypeDef_def align_up_def)
lemma GPIO_FIOPIN_addr [reg_addr]: "GPIO_FIOPIN base = base + 0x14"
  by (simp add: GPIO_FIOPIN_def reg_def offset_GPIO_FIOPIN)
lemma offset_GPIO_FIOSET: "offset_of LPC_GPIO_TypeDef ''FIOSET'' = Some 24"
  by (simp add: offset_of_def LPC_GPIO_TypeDef_def align_up_def)
lemma GPIO_FIOSET_addr [reg_addr]: "GPIO_FIOSET base = base + 0x18"
  by (simp add: GPIO_FIOSET_def reg_def offset_GPIO_FIOSET)
lemma offset_GPIO_FIOCLR: "offset_of LPC_GPIO_TypeDef ''FIOCLR'' = Some 28"
  by (simp add: offset_of_def LPC_GPIO_TypeDef_def align_up_def)
lemma GPIO_FIOCLR_addr [reg_addr]: "GPIO_FIOCLR base = base + 0x1C"
  by (simp add: GPIO_FIOCLR_def reg_def offset_GPIO_FIOCLR)
lemma offset_UART_RBR: "offset_of LPC_UART_TypeDef ''RBR'' = Some 0"
  by (simp add: offset_of_def LPC_UART_TypeDef_def align_up_def)
lemma UART_RBR_addr [reg_addr]: "UART_RBR base = base + 0x0"
  by (simp add: UART_RBR_def reg_def offset_UART_RBR)
lemma offset_UART_THR: "offset_of LPC_UART_TypeDef ''THR'' = Some 0"
  by (simp add: offset_of_def LPC_UART_TypeDef_def align_up_def)
lemma UART_THR_addr [reg_addr]: "UART_THR base = base + 0x0"
  by (simp add: UART_THR_def reg_def offset_UART_THR)
lemma offset_UART_DLL: "offset_of LPC_UART_TypeDef ''DLL'' = Some 0"
  by (simp add: offset_of_def LPC_UART_TypeDef_def align_up_def)
lemma UART_DLL_addr [reg_addr]: "UART_DLL base = base + 0x0"
  by (simp add: UART_DLL_def reg_def offset_UART_DLL)
lemma offset_UART_DLM: "offset_of LPC_UART_TypeDef ''DLM'' = Some 4"
  by (simp add: offset_of_def LPC_UART_TypeDef_def align_up_def)
lemma UART_DLM_addr [reg_addr]: "UART_DLM base = base + 0x4"
  by (simp add: UART_DLM_def reg_def offset_UART_DLM)
lemma offset_UART_IER: "offset_of LPC_UART_TypeDef ''IER'' = Some 4"
  by (simp add: offset_of_def LPC_UART_TypeDef_def align_up_def)
lemma UART_IER_addr [reg_addr]: "UART_IER base = base + 0x4"
  by (simp add: UART_IER_def reg_def offset_UART_IER)
lemma offset_UART_FCR: "offset_of LPC_UART_TypeDef ''FCR'' = Some 8"
  by (simp add: offset_of_def LPC_UART_TypeDef_def align_up_def)
lemma UART_FCR_addr [reg_addr]: "UART_FCR base = base + 0x8"
  by (simp add: UART_FCR_def reg_def offset_UART_FCR)
lemma offset_UART_LCR: "offset_of LPC_UART_TypeDef ''LCR'' = Some 12"
  by (simp add: offset_of_def LPC_UART_TypeDef_def align_up_def)
lemma UART_LCR_addr [reg_addr]: "UART_LCR base = base + 0xC"
  by (simp add: UART_LCR_def reg_def offset_UART_LCR)
lemma offset_UART_LSR: "offset_of LPC_UART_TypeDef ''LSR'' = Some 20"
  by (simp add: offset_of_def LPC_UART_TypeDef_def align_up_def)
lemma UART_LSR_addr [reg_addr]: "UART_LSR base = base + 0x14"
  by (simp add: UART_LSR_def reg_def offset_UART_LSR)
lemma offset_UART_FDR: "offset_of LPC_UART_TypeDef ''FDR'' = Some 40"
  by (simp add: offset_of_def LPC_UART_TypeDef_def align_up_def)
lemma UART_FDR_addr [reg_addr]: "UART_FDR base = base + 0x28"
  by (simp add: UART_FDR_def reg_def offset_UART_FDR)
lemma offset_SSP_CR0: "offset_of LPC_SSP_TypeDef ''CR0'' = Some 0"
  by (simp add: offset_of_def LPC_SSP_TypeDef_def align_up_def)
lemma SSP_CR0_addr [reg_addr]: "SSP_CR0 base = base + 0x0"
  by (simp add: SSP_CR0_def reg_def offset_SSP_CR0)
lemma offset_SSP_CR1: "offset_of LPC_SSP_TypeDef ''CR1'' = Some 4"
  by (simp add: offset_of_def LPC_SSP_TypeDef_def align_up_def)
lemma SSP_CR1_addr [reg_addr]: "SSP_CR1 base = base + 0x4"
  by (simp add: SSP_CR1_def reg_def offset_SSP_CR1)
lemma offset_SSP_DR: "offset_of LPC_SSP_TypeDef ''DR'' = Some 8"
  by (simp add: offset_of_def LPC_SSP_TypeDef_def align_up_def)
lemma SSP_DR_addr [reg_addr]: "SSP_DR base = base + 0x8"
  by (simp add: SSP_DR_def reg_def offset_SSP_DR)
lemma offset_SSP_SR: "offset_of LPC_SSP_TypeDef ''SR'' = Some 12"
  by (simp add: offset_of_def LPC_SSP_TypeDef_def align_up_def)
lemma SSP_SR_addr [reg_addr]: "SSP_SR base = base + 0xC"
  by (simp add: SSP_SR_def reg_def offset_SSP_SR)
lemma offset_SSP_CPSR: "offset_of LPC_SSP_TypeDef ''CPSR'' = Some 16"
  by (simp add: offset_of_def LPC_SSP_TypeDef_def align_up_def)
lemma SSP_CPSR_addr [reg_addr]: "SSP_CPSR base = base + 0x10"
  by (simp add: SSP_CPSR_def reg_def offset_SSP_CPSR)
lemma offset_SSP_IMSC: "offset_of LPC_SSP_TypeDef ''IMSC'' = Some 20"
  by (simp add: offset_of_def LPC_SSP_TypeDef_def align_up_def)
lemma SSP_IMSC_addr [reg_addr]: "SSP_IMSC base = base + 0x14"
  by (simp add: SSP_IMSC_def reg_def offset_SSP_IMSC)
lemma offset_I2C_I2CONSET: "offset_of LPC_I2C_TypeDef ''I2CONSET'' = Some 0"
  by (simp add: offset_of_def LPC_I2C_TypeDef_def align_up_def)
lemma I2C_I2CONSET_addr [reg_addr]: "I2C_I2CONSET base = base + 0x0"
  by (simp add: I2C_I2CONSET_def reg_def offset_I2C_I2CONSET)
lemma offset_I2C_I2STAT: "offset_of LPC_I2C_TypeDef ''I2STAT'' = Some 4"
  by (simp add: offset_of_def LPC_I2C_TypeDef_def align_up_def)
lemma I2C_I2STAT_addr [reg_addr]: "I2C_I2STAT base = base + 0x4"
  by (simp add: I2C_I2STAT_def reg_def offset_I2C_I2STAT)
lemma offset_I2C_I2DAT: "offset_of LPC_I2C_TypeDef ''I2DAT'' = Some 8"
  by (simp add: offset_of_def LPC_I2C_TypeDef_def align_up_def)
lemma I2C_I2DAT_addr [reg_addr]: "I2C_I2DAT base = base + 0x8"
  by (simp add: I2C_I2DAT_def reg_def offset_I2C_I2DAT)
lemma offset_I2C_I2ADR0: "offset_of LPC_I2C_TypeDef ''I2ADR0'' = Some 12"
  by (simp add: offset_of_def LPC_I2C_TypeDef_def align_up_def)
lemma I2C_I2ADR0_addr [reg_addr]: "I2C_I2ADR0 base = base + 0xC"
  by (simp add: I2C_I2ADR0_def reg_def offset_I2C_I2ADR0)
lemma offset_I2C_I2SCLH: "offset_of LPC_I2C_TypeDef ''I2SCLH'' = Some 16"
  by (simp add: offset_of_def LPC_I2C_TypeDef_def align_up_def)
lemma I2C_I2SCLH_addr [reg_addr]: "I2C_I2SCLH base = base + 0x10"
  by (simp add: I2C_I2SCLH_def reg_def offset_I2C_I2SCLH)
lemma offset_I2C_I2SCLL: "offset_of LPC_I2C_TypeDef ''I2SCLL'' = Some 20"
  by (simp add: offset_of_def LPC_I2C_TypeDef_def align_up_def)
lemma I2C_I2SCLL_addr [reg_addr]: "I2C_I2SCLL base = base + 0x14"
  by (simp add: I2C_I2SCLL_def reg_def offset_I2C_I2SCLL)
lemma offset_I2C_I2CONCLR: "offset_of LPC_I2C_TypeDef ''I2CONCLR'' = Some 24"
  by (simp add: offset_of_def LPC_I2C_TypeDef_def align_up_def)
lemma I2C_I2CONCLR_addr [reg_addr]: "I2C_I2CONCLR base = base + 0x18"
  by (simp add: I2C_I2CONCLR_def reg_def offset_I2C_I2CONCLR)
lemma offset_I2C_I2MASK0: "offset_of LPC_I2C_TypeDef ''I2MASK0'' = Some 48"
  by (simp add: offset_of_def LPC_I2C_TypeDef_def align_up_def)
lemma I2C_I2MASK0_addr [reg_addr]: "I2C_I2MASK0 base = base + 0x30"
  by (simp add: I2C_I2MASK0_def reg_def offset_I2C_I2MASK0)
lemma offset_GPDMACH_DMACCSrcAddr: "offset_of LPC_GPDMACH_TypeDef ''DMACCSrcAddr'' = Some 0"
  by (simp add: offset_of_def LPC_GPDMACH_TypeDef_def align_up_def)
lemma GPDMACH_DMACCSrcAddr_addr [reg_addr]: "GPDMACH_DMACCSrcAddr base = base + 0x0"
  by (simp add: GPDMACH_DMACCSrcAddr_def reg_def offset_GPDMACH_DMACCSrcAddr)
lemma offset_GPDMACH_DMACCDestAddr: "offset_of LPC_GPDMACH_TypeDef ''DMACCDestAddr'' = Some 4"
  by (simp add: offset_of_def LPC_GPDMACH_TypeDef_def align_up_def)
lemma GPDMACH_DMACCDestAddr_addr [reg_addr]: "GPDMACH_DMACCDestAddr base = base + 0x4"
  by (simp add: GPDMACH_DMACCDestAddr_def reg_def offset_GPDMACH_DMACCDestAddr)
lemma offset_GPDMACH_DMACCLLI: "offset_of LPC_GPDMACH_TypeDef ''DMACCLLI'' = Some 8"
  by (simp add: offset_of_def LPC_GPDMACH_TypeDef_def align_up_def)
lemma GPDMACH_DMACCLLI_addr [reg_addr]: "GPDMACH_DMACCLLI base = base + 0x8"
  by (simp add: GPDMACH_DMACCLLI_def reg_def offset_GPDMACH_DMACCLLI)
lemma offset_GPDMACH_DMACCControl: "offset_of LPC_GPDMACH_TypeDef ''DMACCControl'' = Some 12"
  by (simp add: offset_of_def LPC_GPDMACH_TypeDef_def align_up_def)
lemma GPDMACH_DMACCControl_addr [reg_addr]: "GPDMACH_DMACCControl base = base + 0xC"
  by (simp add: GPDMACH_DMACCControl_def reg_def offset_GPDMACH_DMACCControl)
lemma offset_GPDMACH_DMACCConfig: "offset_of LPC_GPDMACH_TypeDef ''DMACCConfig'' = Some 16"
  by (simp add: offset_of_def LPC_GPDMACH_TypeDef_def align_up_def)
lemma GPDMACH_DMACCConfig_addr [reg_addr]: "GPDMACH_DMACCConfig base = base + 0x10"
  by (simp add: GPDMACH_DMACCConfig_def reg_def offset_GPDMACH_DMACCConfig)

end
