(* ===== verification/Pinconf.thy ===== *)
theory Pinconf
  imports Registers
begin

text \<open>
  \<^verbatim>\<open>rflpc17xx/pinconf.h\<close> and \<^verbatim>\<open>pinconf.c\<close>: a pin is a byte, port in the three high bits and pin
  number in the five low ones, and \<^verbatim>\<open>rflpc_pin_set\<close> writes its function, its resistor mode and
  its open drain bit.
\<close>

type_synonym rflpc_pin_t = u8

definition RFLPC_PIN_MAKE :: "rflpc_pin_t \<Rightarrow> rflpc_pin_t \<Rightarrow> rflpc_pin_t" where
  "RFLPC_PIN_MAKE port pin = shl port 5 OR pin"

definition RFLPC_PIN_GET_PORT :: "rflpc_pin_t \<Rightarrow> nat" where
  "RFLPC_PIN_GET_PORT p = unat (shr p 5 AND 0x7)"

definition RFLPC_PIN_GET_PIN :: "rflpc_pin_t \<Rightarrow> nat" where
  "RFLPC_PIN_GET_PIN p = unat (p AND 0x1F)"

datatype rflpc_pin_mode_t =
    RFLPC_PIN_MODE_RESISTOR_PULL_UP
  | RFLPC_PIN_MODE_REPEATER
  | RFLPC_PIN_MODE_RESISTOR_NONE
  | RFLPC_PIN_MODE_RESISTOR_PULL_DOWN

fun pin_mode_val :: "rflpc_pin_mode_t \<Rightarrow> u32" where
  "pin_mode_val RFLPC_PIN_MODE_RESISTOR_PULL_UP = 0"
| "pin_mode_val RFLPC_PIN_MODE_REPEATER = 1"
| "pin_mode_val RFLPC_PIN_MODE_RESISTOR_NONE = 2"
| "pin_mode_val RFLPC_PIN_MODE_RESISTOR_PULL_DOWN = 3"

text \<open>The enumeration of the pins the package brings out.\<close>

definition RFLPC_PINS :: "rflpc_pin_t list" where
  "RFLPC_PINS =
     map (\<lambda>i. of_nat i) [0..<32] @
     map (\<lambda>i. RFLPC_PIN_MAKE 1 0 + of_nat i) [0..<32] @
     map (\<lambda>i. RFLPC_PIN_MAKE 2 0 + of_nat i) [0..<14] @
     map (\<lambda>i. RFLPC_PIN_MAKE 3 25 + of_nat i) [0..<2] @
     map (\<lambda>i. RFLPC_PIN_MAKE 4 28 + of_nat i) [0..<2]"

definition rflpc_pin_set ::
  "'d device \<Rightarrow> rflpc_pin_t \<Rightarrow> u32 \<Rightarrow> u32 \<Rightarrow> bool \<Rightarrow> 'd \<Rightarrow> 'd" where
  "rflpc_pin_set D p function mode opendrain d =
     (let register_idx = 2 * RFLPC_PIN_GET_PORT p;
          pin = RFLPC_PIN_GET_PIN p;
          (pin, register_idx) = (if pin \<ge> 16 then (pin - 16, register_idx + 1) else (pin, register_idx));
          d = reg_and D (word_at PINCON_PINSEL0 register_idx) (NOT (shl 3 (pin * 2))) d;
          d = reg_or D (word_at PINCON_PINSEL0 register_idx) (shl (function AND 0x3) (pin * 2)) d;
          d = reg_and D (word_at PINCON_PINMODE0 register_idx) (NOT (shl 3 (pin * 2))) d;
          d = reg_or D (word_at PINCON_PINMODE0 register_idx) (shl (mode AND 0x3) (pin * 2)) d;
          d = (if opendrain
               then reg_or D (word_at PINCON_PINMODE_OD0 (RFLPC_PIN_GET_PORT p)) (shl 1 pin) d
               else reg_and D (word_at PINCON_PINMODE_OD0 (RFLPC_PIN_GET_PORT p)) (NOT (shl 1 pin)) d)
      in d)"

section \<open>The three registers of a pin\<close>

definition pin_half :: "rflpc_pin_t \<Rightarrow> nat" where
  "pin_half p = 2 * RFLPC_PIN_GET_PORT p + RFLPC_PIN_GET_PIN p div 16"

definition PINSEL_of :: "rflpc_pin_t \<Rightarrow> addr" where
  "PINSEL_of p = word_at PINCON_PINSEL0 (pin_half p)"

definition PINMODE_of :: "rflpc_pin_t \<Rightarrow> addr" where
  "PINMODE_of p = word_at PINCON_PINMODE0 (pin_half p)"

definition PINMODE_OD_of :: "rflpc_pin_t \<Rightarrow> addr" where
  "PINMODE_OD_of p = word_at PINCON_PINMODE_OD0 (RFLPC_PIN_GET_PORT p)"

lemma pin_lt: "RFLPC_PIN_GET_PIN p < 32"
  unfolding RFLPC_PIN_GET_PIN_def numeral_masks unat_and_mask by simp

text \<open>For the ports of the package (0 to 4) the registers are distinct.\<close>

lemma pin_regs_distinct:
  assumes "RFLPC_PIN_GET_PORT p \<le> 4"
  shows "PINSEL_of p \<noteq> PINMODE_of p" "PINSEL_of p \<noteq> PINMODE_OD_of p"
    "PINMODE_of p \<noteq> PINMODE_OD_of p"
proof -
  have h: "pin_half p \<le> 9" using assms pin_lt [of p] by (simp add: pin_half_def)
  have base: "PINCON_PINMODE0 = PINCON_PINSEL0 + of_nat 0x40"
    "PINCON_PINMODE_OD0 = PINCON_PINSEL0 + of_nat 0x68"
    by (simp_all add: reg_addr)
  have sel: "PINSEL_of p = PINCON_PINSEL0 + of_nat (4 * pin_half p)"
    by (simp add: PINSEL_of_def word_at_def)
  have mod: "PINMODE_of p = PINCON_PINSEL0 + of_nat (0x40 + 4 * pin_half p)"
    unfolding PINMODE_of_def word_at_def base by (simp only: of_nat_add add.assoc)
  have od: "PINMODE_OD_of p = PINCON_PINSEL0 + of_nat (0x68 + 4 * RFLPC_PIN_GET_PORT p)"
    unfolding PINMODE_OD_of_def word_at_def base by (simp only: of_nat_add add.assoc)
  show "PINSEL_of p \<noteq> PINMODE_of p" "PINSEL_of p \<noteq> PINMODE_OD_of p"
    "PINMODE_of p \<noteq> PINMODE_OD_of p"
    unfolding sel mod od using h assms
    by (subst add_of_nat_word_inj; simp)+
qed

lemma field_mask: "shl 3 n = shl (mask 2) n" "v AND 0x3 = v AND mask 2" for v :: u32
  by (simp_all add: numeral_masks)

lemma put_field_or:
  "w AND NOT (shl 3 n) OR shl (v AND 0x3) n = put_field w n v 2"
  by (rule bit_word_eqI)
    (auto simp: field_mask put_field_def bit_simps)

lemma rflpc_pin_set_regs:
  "rflpc_pin_set D p function mode opendrain d =
     (let pin = RFLPC_PIN_GET_PIN p mod 16;
          d = reg_and D (PINSEL_of p) (NOT (shl 3 (pin * 2))) d;
          d = reg_or D (PINSEL_of p) (shl (function AND 0x3) (pin * 2)) d;
          d = reg_and D (PINMODE_of p) (NOT (shl 3 (pin * 2))) d;
          d = reg_or D (PINMODE_of p) (shl (mode AND 0x3) (pin * 2)) d
      in if opendrain then reg_or D (PINMODE_OD_of p) (shl 1 pin) d
         else reg_and D (PINMODE_OD_of p) (NOT (shl 1 pin)) d)"
proof (cases "RFLPC_PIN_GET_PIN p \<ge> 16")
  case True
  then have "RFLPC_PIN_GET_PIN p mod 16 = RFLPC_PIN_GET_PIN p - 16" "RFLPC_PIN_GET_PIN p div 16 = 1"
    using pin_lt [of p] by (simp_all add: mod_if div_if)
  with True show ?thesis
    by (simp add: rflpc_pin_set_def PINSEL_of_def PINMODE_of_def PINMODE_OD_of_def pin_half_def Let_def)
next
  case False
  then show ?thesis
    by (simp add: rflpc_pin_set_def PINSEL_of_def PINMODE_of_def PINMODE_OD_of_def pin_half_def Let_def)
qed

context config_regs
begin

lemma peek_pin_set:
  assumes "RFLPC_PIN_GET_PORT p \<le> 4" and "a \<in> A"
  shows "peek D a (rflpc_pin_set D p function mode opendrain d) =
    (let pin = RFLPC_PIN_GET_PIN p mod 16 in
     if PINSEL_of p = a then put_field (peek D a d) (2 * pin) function 2
     else if PINMODE_of p = a then put_field (peek D a d) (2 * pin) mode 2
     else if PINMODE_OD_of p = a then
       (if opendrain then peek D a d OR shl 1 pin else peek D a d AND NOT (shl 1 pin))
     else peek D a d)"
proof -
  note peeks = peek_reg_or [OF assms(2)] peek_reg_and [OF assms(2)]
  note distinct = pin_regs_distinct [OF assms(1)] pin_regs_distinct [OF assms(1), symmetric]
  have "peek D a (rflpc_pin_set D p function mode opendrain d) =
      (let w = peek D a d; n = RFLPC_PIN_GET_PIN p mod 16;
           w = (if PINSEL_of p = a then (w AND NOT (shl 3 (n * 2))) OR shl (function AND 3) (n * 2) else w);
           w = (if PINMODE_of p = a then (w AND NOT (shl 3 (n * 2))) OR shl (mode AND 3) (n * 2) else w)
       in if PINMODE_OD_of p = a then (if opendrain then w OR shl 1 n else w AND NOT (shl 1 n)) else w)"
    unfolding rflpc_pin_set_regs Let_def
    by (cases opendrain; cases "PINSEL_of p = a"; cases "PINMODE_of p = a")
      (simp_all only: peeks if_True if_False simp_thms if_cancel)
  then show ?thesis
    by (cases "PINSEL_of p = a"; cases "PINMODE_of p = a"; cases "PINMODE_OD_of p = a")
      (use distinct in \<open>simp_all only: Let_def put_field_or mult.commute [of 2] if_True if_False simp_thms\<close>)
qed

end

text \<open>The registers of a pin lie in the pin block; every other storage register is kept.\<close>

lemma pin_regs_block:
  "PINSEL_of p - 0x4002C000 < 0x88" "PINMODE_of p - 0x4002C000 < 0x88" "PINMODE_OD_of p - 0x4002C000 < 0x88"
proof -
  have port: "RFLPC_PIN_GET_PORT p < 8"
    unfolding RFLPC_PIN_GET_PORT_def numeral_masks unat_and_mask by simp
  then have half: "pin_half p < 16" using pin_lt [of p] by (simp add: pin_half_def)
  have far: "(of_nat (4 * n) :: u32) + of_nat k < 0x88" if "4 * n + k < 0x88" for n k
  proof -
    have "(of_nat (4 * n) :: u32) + of_nat k = of_nat (4 * n + k)" by (simp only: of_nat_add)
    moreover have "unat (of_nat (4 * n + k) :: u32) = 4 * n + k" using that by (simp only: unat_of_nat) simp
    ultimately show ?thesis using that by (simp only: word_less_nat_alt) simp
  qed
  show "PINSEL_of p - 0x4002C000 < 0x88" "PINMODE_of p - 0x4002C000 < 0x88" "PINMODE_OD_of p - 0x4002C000 < 0x88"
    using far [of "pin_half p" 0] far [of "pin_half p" "0x40"] far [of "RFLPC_PIN_GET_PORT p" "0x68"] port half
    by (simp_all add: PINSEL_of_def PINMODE_of_def PINMODE_OD_of_def word_at_def reg_addr add.commute)
qed

lemma pin_block_other:
  "\<not> a - 0x4002C000 < 0x88 \<Longrightarrow> PINSEL_of p \<noteq> a \<and> PINMODE_of p \<noteq> a \<and> PINMODE_OD_of p \<noteq> a"
  using pin_regs_block [of p] by auto

context config_regs
begin

lemma peek_pin_set_other:
  assumes "a \<in> A" and "\<not> a - 0x4002C000 < 0x88"
  shows "peek D a (rflpc_pin_set D p function mode opendrain d) = peek D a d"
  using pin_block_other [OF assms(2), of p]
  by (simp add: rflpc_pin_set_regs Let_def peek_reg_or [OF assms(1)] peek_reg_and [OF assms(1)])

end

section \<open>Properties\<close>

text \<open>\<^verbatim>\<open>rflpc_pin_set\<close> gives the pin, and no other pin, its function and its mode: the two bits
  of the pin in its \<^verbatim>\<open>PINSEL\<close> and \<^verbatim>\<open>PINMODE\<close> registers take the low bits of the arguments, the
  other bits and all other storage registers but the port's open drain register are kept.\<close>

theorem pin_set_function_and_mode:
  assumes "config_regs D A" and "RFLPC_PIN_GET_PORT p \<le> 4" and "r \<in> A" and "r \<noteq> PINMODE_OD_of p"
  shows "peek D r (rflpc_pin_set D p function mode opendrain d) =
    (if r = PINSEL_of p then put_field (peek D r d) (2 * (RFLPC_PIN_GET_PIN p mod 16)) function 2
     else if r = PINMODE_of p then put_field (peek D r d) (2 * (RFLPC_PIN_GET_PIN p mod 16)) mode 2
     else peek D r d)"
  using config_regs.peek_pin_set [OF assms(1-3)] assms(4) by (auto simp: Let_def simp del: push_bit_of_1)

lemma pin_set_function_and_mode_witness:
  "rflpc_pin_set mem_device 0x1B 3 2 True (\<lambda>_. 0xFFFFFFFF) 0x4002C004 = 0xFFFFFFFF \<and>
   rflpc_pin_set mem_device 0x1B 1 2 True (\<lambda>_. 0xFFFFFFFF) 0x4002C044 = 0xFFBFFFFF"
proof -
  have p: "RFLPC_PIN_GET_PORT 0x1B = 0" "RFLPC_PIN_GET_PIN 0x1B = 27"
    by (simp_all add: RFLPC_PIN_GET_PORT_def RFLPC_PIN_GET_PIN_def)
  then have "PINSEL_of 0x1B = 0x4002C004" "PINMODE_of 0x1B = 0x4002C044" "PINMODE_OD_of 0x1B = 0x4002C068"
    by (simp_all add: PINSEL_of_def PINMODE_of_def PINMODE_OD_of_def pin_half_def word_at_def reg_addr)
  moreover have "put_field 0xFFFFFFFF 22 3 2 = 0xFFFFFFFF" "put_field 0xFFFFFFFF 22 2 2 = 0xFFBFFFFF"
    by (simp_all add: put_field_def mask_eq_exp_minus_1)
  ultimately show ?thesis
    using pin_set_function_and_mode [OF mem.config_regs_axioms [of UNIV], of "0x1B" "0x4002C004" 3 2 True "\<lambda>_. 0xFFFFFFFF"]
      pin_set_function_and_mode [OF mem.config_regs_axioms [of UNIV], of "0x1B" "0x4002C044" 1 2 True "\<lambda>_. 0xFFFFFFFF"] p
    by simp
qed

text \<open>The open drain bit is the bit of the pin only for pins 0 to 15: the register holds one bit
  per pin of the whole port, but the bit written is that of the pin's place in its half.\<close>

lemma pin_set_opendrain_bit:
  assumes "config_regs D A" and "RFLPC_PIN_GET_PORT p \<le> 4" and "PINMODE_OD_of p \<in> A"
  shows "peek D (PINMODE_OD_of p) (rflpc_pin_set D p function mode True d) =
    peek D (PINMODE_OD_of p) d OR shl 1 (RFLPC_PIN_GET_PIN p mod 16)"
  using config_regs.peek_pin_set [OF assms] pin_regs_distinct [OF assms(2)]
  by (simp add: Let_def)

end
