(* ===== verification/Interrupt.thy ===== *)
theory Interrupt
  imports Registers
begin

text \<open>
  \<^verbatim>\<open>rflpc17xx/interrupt.h\<close> and \<^verbatim>\<open>interrupt.c\<close>, on the core registers of
  \<^verbatim>\<open>nxp/core_cm3.h\<close>: enabling and disabling a line of the interrupt controller, moving the
  vector table to RAM, and installing a handler.
\<close>

section \<open>Core registers\<close>

definition NVIC_Type :: layout where
  "NVIC_Type =
    [Field ''ISER'' 4 8, Field ''RESERVED0'' 4 24, Field ''ICER'' 4 8, Field ''RSERVED1'' 4 24,
     Field ''ISPR'' 4 8, Field ''RESERVED2'' 4 24, Field ''ICPR'' 4 8, Field ''RESERVED3'' 4 24,
     Field ''IABR'' 4 8, Field ''RESERVED4'' 4 56, Field ''IP'' 1 240, Field ''RESERVED5'' 4 644,
     Field ''STIR'' 4 1]"

definition SCB_Type :: layout where
  "SCB_Type =
    [Field ''CPUID'' 4 1, Field ''ICSR'' 4 1, Field ''VTOR'' 4 1, Field ''AIRCR'' 4 1,
     Field ''SCR'' 4 1, Field ''CCR'' 4 1, Field ''SHP'' 1 12, Field ''SHCSR'' 4 1,
     Field ''CFSR'' 4 1, Field ''HFSR'' 4 1, Field ''DFSR'' 4 1, Field ''MMFAR'' 4 1,
     Field ''BFAR'' 4 1, Field ''AFSR'' 4 1, Field ''PFR'' 4 2, Field ''DFR'' 4 1,
     Field ''ADR'' 4 1, Field ''MMFR'' 4 4, Field ''ISAR'' 4 5]"

definition SysTick_Type :: layout where
  "SysTick_Type = [Field ''CTRL'' 4 1, Field ''LOAD'' 4 1, Field ''VAL'' 4 1, Field ''CALIB'' 4 1]"

definition SCS_BASE :: addr where "SCS_BASE = 0xE000E000"
definition SysTick_BASE :: addr where "SysTick_BASE = SCS_BASE + 0x0010"
definition NVIC_BASE :: addr where "NVIC_BASE = SCS_BASE + 0x0100"
definition SCB_BASE :: addr where "SCB_BASE = SCS_BASE + 0x0D00"

definition NVIC_ISER :: "nat \<Rightarrow> addr" where "NVIC_ISER i = word_at (reg NVIC_BASE NVIC_Type ''ISER'') i"
definition NVIC_ICER :: "nat \<Rightarrow> addr" where "NVIC_ICER i = word_at (reg NVIC_BASE NVIC_Type ''ICER'') i"
definition SCB_VTOR :: addr where "SCB_VTOR = reg SCB_BASE SCB_Type ''VTOR''"
definition SCB_CFSR :: addr where "SCB_CFSR = reg SCB_BASE SCB_Type ''CFSR''"
definition SCB_HFSR :: addr where "SCB_HFSR = reg SCB_BASE SCB_Type ''HFSR''"
definition SCB_DFSR :: addr where "SCB_DFSR = reg SCB_BASE SCB_Type ''DFSR''"
definition SCB_MMFAR :: addr where "SCB_MMFAR = reg SCB_BASE SCB_Type ''MMFAR''"
definition SCB_BFAR :: addr where "SCB_BFAR = reg SCB_BASE SCB_Type ''BFAR''"
definition SYSTICK_CTRL :: addr where "SYSTICK_CTRL = reg SysTick_BASE SysTick_Type ''CTRL''"
definition SYSTICK_LOAD :: addr where "SYSTICK_LOAD = reg SysTick_BASE SysTick_Type ''LOAD''"
definition SYSTICK_VAL :: addr where "SYSTICK_VAL = reg SysTick_BASE SysTick_Type ''VAL''"

lemma core_addr [reg_addr]:
  "NVIC_ISER i = 0xE000E100 + of_nat (4 * i)" "NVIC_ICER i = 0xE000E180 + of_nat (4 * i)"
  "SCB_VTOR = 0xE000ED08" "SCB_CFSR = 0xE000ED28" "SCB_HFSR = 0xE000ED2C" "SCB_DFSR = 0xE000ED30"
  "SCB_MMFAR = 0xE000ED34" "SCB_BFAR = 0xE000ED38"
  "SYSTICK_CTRL = 0xE000E010" "SYSTICK_LOAD = 0xE000E014" "SYSTICK_VAL = 0xE000E018"
  by (simp_all add: NVIC_ISER_def NVIC_ICER_def SCB_VTOR_def SCB_CFSR_def SCB_HFSR_def SCB_DFSR_def
      SCB_MMFAR_def SCB_BFAR_def SYSTICK_CTRL_def SYSTICK_LOAD_def SYSTICK_VAL_def reg_def offset_of_def
      NVIC_Type_def SCB_Type_def SysTick_Type_def SCS_BASE_def SysTick_BASE_def NVIC_BASE_def
      SCB_BASE_def align_up_def word_at_def)

section \<open>Interrupt numbers\<close>

definition IRQn_Type :: "(string \<times> int) list" where
  "IRQn_Type =
    [(''NonMaskableInt_IRQn'', -14), (''MemoryManagement_IRQn'', -12), (''BusFault_IRQn'', -11),
     (''UsageFault_IRQn'', -10), (''SVCall_IRQn'', -5), (''DebugMonitor_IRQn'', -4),
     (''PendSV_IRQn'', -2), (''SysTick_IRQn'', -1), (''WDT_IRQn'', 0), (''TIMER0_IRQn'', 1),
     (''TIMER1_IRQn'', 2), (''TIMER2_IRQn'', 3), (''TIMER3_IRQn'', 4), (''UART0_IRQn'', 5),
     (''UART1_IRQn'', 6), (''UART2_IRQn'', 7), (''UART3_IRQn'', 8), (''PWM1_IRQn'', 9),
     (''I2C0_IRQn'', 10), (''I2C1_IRQn'', 11), (''I2C2_IRQn'', 12), (''SPI_IRQn'', 13),
     (''SSP0_IRQn'', 14), (''SSP1_IRQn'', 15), (''PLL0_IRQn'', 16), (''RTC_IRQn'', 17),
     (''EINT0_IRQn'', 18), (''EINT1_IRQn'', 19), (''EINT2_IRQn'', 20), (''EINT3_IRQn'', 21),
     (''ADC_IRQn'', 22), (''BOD_IRQn'', 23), (''USB_IRQn'', 24), (''CAN_IRQn'', 25),
     (''DMA_IRQn'', 26), (''I2S_IRQn'', 27), (''ENET_IRQn'', 28), (''RIT_IRQn'', 29),
     (''MCPWM_IRQn'', 30), (''QEI_IRQn'', 31), (''PLL1_IRQn'', 32)]"

text \<open>The value of an enumerator.\<close>

definition irq_val :: "string \<Rightarrow> int" where
  "irq_val nm = (case map_of IRQn_Type nm of Some n \<Rightarrow> n | None \<Rightarrow> 0)"

definition TIMER0_IRQn :: int where "TIMER0_IRQn = irq_val ''TIMER0_IRQn''"
definition UART0_IRQn :: int where "UART0_IRQn = irq_val ''UART0_IRQn''"
definition I2C0_IRQn :: int where "I2C0_IRQn = irq_val ''I2C0_IRQn''"
definition SSP0_IRQn :: int where "SSP0_IRQn = irq_val ''SSP0_IRQn''"
definition EINT3_IRQn :: int where "EINT3_IRQn = irq_val ''EINT3_IRQn''"
definition ADC_IRQn :: int where "ADC_IRQn = irq_val ''ADC_IRQn''"
definition DMA_IRQn :: int where "DMA_IRQn = irq_val ''DMA_IRQn''"
definition ENET_IRQn :: int where "ENET_IRQn = irq_val ''ENET_IRQn''"
definition RIT_IRQn :: int where "RIT_IRQn = irq_val ''RIT_IRQn''"
definition SysTick_IRQn :: int where "SysTick_IRQn = irq_val ''SysTick_IRQn''"
definition PLL1_IRQn :: int where "PLL1_IRQn = irq_val ''PLL1_IRQn''"
definition PWM1_IRQn :: int where "PWM1_IRQn = irq_val ''PWM1_IRQn''"

lemma irq_vals [simp]:
  "TIMER0_IRQn = 1" "UART0_IRQn = 5" "I2C0_IRQn = 10" "SSP0_IRQn = 14" "EINT3_IRQn = 21"
  "ADC_IRQn = 22" "DMA_IRQn = 26" "ENET_IRQn = 28" "RIT_IRQn = 29" "SysTick_IRQn = - 1"
  "PLL1_IRQn = 32" "PWM1_IRQn = 9"
  by (simp_all add: TIMER0_IRQn_def UART0_IRQn_def I2C0_IRQn_def SSP0_IRQn_def EINT3_IRQn_def
      ADC_IRQn_def DMA_IRQn_def ENET_IRQn_def RIT_IRQn_def SysTick_IRQn_def PLL1_IRQn_def
      PWM1_IRQn_def irq_val_def IRQn_Type_def)

section \<open>Enabling and disabling a line\<close>

text \<open>
  \<^verbatim>\<open>NVIC->ISER[irq >> 5] |= (1 << irq)\<close>, for the peripheral lines (not negative). C leaves
  a shift by 32 or more open; the core's register shift gives 0, and so does \<^const>\<open>push_bit\<close>.
\<close>

definition rflpc_irq_enable :: "'d device \<Rightarrow> nat \<Rightarrow> 'd \<Rightarrow> 'd" where
  "rflpc_irq_enable D irq = reg_or D (NVIC_ISER (irq div 32)) (shl 1 irq)"

definition rflpc_irq_disable :: "'d device \<Rightarrow> nat \<Rightarrow> 'd \<Rightarrow> 'd" where
  "rflpc_irq_disable D irq = reg_or D (NVIC_ICER (irq div 32)) (shl 1 irq)"

section \<open>The vector table\<close>

definition RFLPC_IRQn_COUNT :: nat where "RFLPC_IRQn_COUNT = nat (PLL1_IRQn + 16 + 1)"

text \<open>The loop of \<^verbatim>\<open>rflpc_irq_init\<close>, which copies entry \<open>i\<close> and the following ones.\<close>

function copy_vectors :: "u32 list \<Rightarrow> nat \<Rightarrow> u32 list \<Rightarrow> u32 list" where
  "copy_vectors rom i ram_vec =
     (if i < RFLPC_IRQn_COUNT then copy_vectors rom (i + 1) (ram_vec[i := rom ! i]) else ram_vec)"
  by auto
termination by (relation "measure (\<lambda>(_, i, _). RFLPC_IRQn_COUNT - i)") auto

declare copy_vectors.simps [simp del]

definition rflpc_irq_init ::
  "'d device \<Rightarrow> u32 list \<Rightarrow> addr \<Rightarrow> u32 list \<times> 'd \<Rightarrow> u32 list \<times> 'd" where
  "rflpc_irq_init D rom ram_addr st =
     (let (ram_vec, d) = st;
          ram_vec = copy_vectors rom 0 ram_vec;
          d = cpsid_i D d;
          d = dev_wr D SCB_VTOR ram_addr d;
          d = cpsie_i D d
      in (ram_vec, d))"

definition rflpc_irq_set_handler :: "int \<Rightarrow> u32 \<Rightarrow> u32 list \<Rightarrow> u32 list" where
  "rflpc_irq_set_handler irq handler ram_vec = ram_vec[nat (irq + 16) := handler]"

lemma count_val [simp]: "RFLPC_IRQn_COUNT = 49"
  by (simp add: RFLPC_IRQn_COUNT_def)

lemma copy_vectors_eq:
  assumes "length ram_vec = 49" and "length rom = 49" and "i \<le> 49"
  shows "copy_vectors rom i ram_vec = take i ram_vec @ drop i rom"
  using assms
proof (induction rom i ram_vec rule: copy_vectors.induct)
  case (1 rom i ram_vec)
  show ?case
  proof (cases "i < 49")
    case True
    then have "copy_vectors rom i ram_vec = take (i + 1) (ram_vec[i := rom ! i]) @ drop (i + 1) rom"
      using 1 by (subst copy_vectors.simps) simp
    also have "\<dots> = take i ram_vec @ rom ! i # drop (i + 1) rom"
      using True 1 by (simp add: take_Suc_conv_app_nth)
    finally show ?thesis using True 1 by (simp add: Cons_nth_drop_Suc)
  next
    case False
    with 1 show ?thesis by (subst copy_vectors.simps) simp
  qed
qed

section \<open>The interrupt controller\<close>

text \<open>
  What the ARMv7-M manual says of the controller: \<^verbatim>\<open>ISER\<close> and \<^verbatim>\<open>ICER\<close> both read as the set of
  enabled lines; a one written to \<^verbatim>\<open>ISER\<close> enables the line, a one written to \<^verbatim>\<open>ICER\<close>
  disables it, zeros have no effect, and reads change nothing.
\<close>

locale nvic =
  fixes D :: "'d device"
    and enabled :: "'d \<Rightarrow> nat \<Rightarrow> bool"
  assumes rd_iser: "i < 8 \<Longrightarrow> k < 32 \<Longrightarrow> bit (peek D (NVIC_ISER i) d) k = enabled d (32 * i + k)"
    and rd_icer: "i < 8 \<Longrightarrow> k < 32 \<Longrightarrow> bit (peek D (NVIC_ICER i) d) k = enabled d (32 * i + k)"
    and rd_enabled: "i < 8 \<Longrightarrow> a \<in> {NVIC_ISER i, NVIC_ICER i} \<Longrightarrow> enabled (snd (dev_rd D a d)) = enabled d"
    and wr_iser: "i < 8 \<Longrightarrow> enabled (dev_wr D (NVIC_ISER i) v d) n =
        (enabled d n \<or> n div 32 = i \<and> bit v (n mod 32))"
    and wr_icer: "i < 8 \<Longrightarrow> enabled (dev_wr D (NVIC_ICER i) v d) n =
        (enabled d n \<and> \<not> (n div 32 = i \<and> bit v (n mod 32)))"
begin

lemma enable_line:
  assumes "irq < 32"
  shows "enabled (rflpc_irq_enable D irq d) n = (enabled d n \<or> n = irq)"
proof -
  have e: "enabled d n" if "n div 32 = 0" "bit (peek D (NVIC_ISER 0) d) (n mod 32)"
    using that rd_iser [of 0 "n mod 32" d] by (simp add: div_eq_0_iff)
  show ?thesis
    using assms e wr_iser [of 0] rd_enabled [of 0 "NVIC_ISER 0"]
    by (auto simp: rflpc_irq_enable_def reg_or_def rmw_def split_def Let_def bit_or_iff bit_rules
        simp flip: peek_def)
qed

lemma disable_word:
  assumes "irq < 32"
  shows "enabled (rflpc_irq_disable D irq d) n = (enabled d n \<and> n div 32 \<noteq> 0)"
proof -
  have w: "enabled (rflpc_irq_disable D irq d) n =
      (enabled d n \<and> \<not> (n div 32 = 0 \<and> (bit (peek D (NVIC_ICER 0) d) (n mod 32) \<or> n mod 32 = irq)))"
    using assms wr_icer [of 0] rd_enabled [of 0 "NVIC_ICER 0"]
    by (auto simp: rflpc_irq_disable_def reg_or_def rmw_def split_def Let_def bit_or_iff bit_rules
        simp flip: peek_def)
  show ?thesis
  proof (cases "n < 32")
    case True
    then show ?thesis using w rd_icer [of 0 n d] by auto
  next
    case False
    then show ?thesis using w by (simp add: div_eq_0_iff)
  qed
qed

text \<open>Disabling leaves no line of the first word enabled; what was enabled can be recovered only
  by enabling every line again.\<close>

lemma disable_then_enable:
  "irq < 32 \<Longrightarrow> n < 32 \<Longrightarrow>
    enabled (rflpc_irq_enable D irq (rflpc_irq_disable D irq d)) n = (n = irq)"
  by (simp add: enable_line disable_word)

end

text \<open>A controller of eight enable words.\<close>

definition nvic_index :: "addr \<Rightarrow> nat" where
  "nvic_index a = unat (a - NVIC_ISER 0) div 4"

definition nvic_device :: "(nat \<Rightarrow> u32) device" where
  "nvic_device =
     \<lparr>dev_rd = (\<lambda>a d.
        (let k = nvic_index a in if k < 8 then d k else if 32 \<le> k \<and> k < 40 then d (k - 32) else 0, d)),
      dev_wr = (\<lambda>a v d.
        let k = nvic_index a in
        if k < 8 then d(k := d k OR v)
        else if 32 \<le> k \<and> k < 40 then d(k - 32 := d (k - 32) AND NOT v) else d),
      cpsid_i = (\<lambda>d. d), cpsie_i = (\<lambda>d. d)\<rparr>"

definition nvic_enabled :: "(nat \<Rightarrow> u32) \<Rightarrow> nat \<Rightarrow> bool" where
  "nvic_enabled d n = bit (d (n div 32)) (n mod 32)"

lemma nvic_index_simps:
  assumes "i < 8"
  shows "nvic_index (NVIC_ISER i) = i" "nvic_index (NVIC_ICER i) = 32 + i"
proof -
  have "NVIC_ISER i - NVIC_ISER 0 = of_nat (4 * i)" "NVIC_ICER i - NVIC_ISER 0 = of_nat (128 + 4 * i)"
    by (simp_all add: reg_addr)
  then show "nvic_index (NVIC_ISER i) = i" "nvic_index (NVIC_ICER i) = 32 + i"
    using assms unfolding nvic_index_def by (simp_all only: unat_of_nat) simp_all
qed

interpretation eight_words: nvic nvic_device nvic_enabled
  by unfold_locales
    (auto simp: nvic_device_def peek_def nvic_index_simps nvic_enabled_def Let_def bit_or_iff bit_and_iff
      bit_not_iff fun_eq_iff)

section \<open>Properties\<close>

text \<open>Enabling a line of the first word enables that line and changes no other; disabling a
  line disables every line of its word, because the enable bits \<^verbatim>\<open>ICER\<close> reads as are written
  back to it.\<close>

theorem irq_enable_disable:
  assumes "nvic D enabled" and "irq < 32"
  shows "enabled (rflpc_irq_enable D irq d) n = (enabled d n \<or> n = irq) \<and>
    enabled (rflpc_irq_disable D irq d) n = (enabled d n \<and> 32 \<le> n)"
  using nvic.enable_line [OF assms] nvic.disable_word [OF assms] by (auto simp: div_eq_0_iff)

lemma irq_enable_disable_witness:
  "nvic_enabled (rflpc_irq_enable nvic_device 5 (\<lambda>_. 0)) 5 \<and>
   \<not> nvic_enabled (rflpc_irq_disable nvic_device 5 (\<lambda>_. 0xFFFFFFFF)) 7"
  using irq_enable_disable [OF eight_words.nvic_axioms, of 5 "\<lambda>_. 0" 5]
    irq_enable_disable [OF eight_words.nvic_axioms, of 5 "\<lambda>_. 0xFFFFFFFF" 7]
  by simp

text \<open>\<^verbatim>\<open>rflpc_irq_init\<close> moves the vector table: RAM holds the ROM table, \<^verbatim>\<open>VTOR\<close> points to it, and a
  handler installed afterwards for any line, system exceptions included, is the entry of that
  line and of no other.\<close>

theorem irq_vectors:
  assumes "config_regs D {SCB_VTOR}" and "length rom = 49" and "length ram_vec = 49"
    and "-16 \<le> irq" and "irq \<le> 32" and "i < 49"
  shows "(let (ram', d') = rflpc_irq_init D rom ram_addr (ram_vec, d) in
      ram' = rom \<and> peek D SCB_VTOR d' = ram_addr \<and>
      rflpc_irq_set_handler irq h ram' ! i = (if int i = irq + 16 then h else rom ! i))"
proof -
  note peeks = config_regs.peek_ops [OF assms(1)]
  have "copy_vectors rom 0 ram_vec = rom" using assms by (simp add: copy_vectors_eq)
  then show ?thesis
    using assms
    by (auto simp: rflpc_irq_init_def Let_def peeks rflpc_irq_set_handler_def nth_list_update)
qed

lemma irq_vectors_witness:
  "rflpc_irq_set_handler 5 0x1234
     (fst (rflpc_irq_init mem_device (map of_nat [0..<49]) 0x10000000 (replicate 49 0, \<lambda>_. 0))) ! 21 =
   0x1234"
  using irq_vectors [OF mem.config_regs_axioms, of "map of_nat [0..<49]" "replicate 49 0" 5 21
      "0x10000000" "\<lambda>_. 0" "0x1234"]
  by (clarsimp simp: split_def Let_def)

end
