(* ===== verification/Clock.thy ===== *)
theory Clock
  imports Interrupt
begin

text \<open>
  \<^verbatim>\<open>rflpc17xx/clock.h\<close> and \<^verbatim>\<open>clock.c\<close>: the start of PLL0 and the system clock it gives. The
  constants of the board's configuration header are the fields of a record; the static
  variable \<^verbatim>\<open>_rflpc_system_clock\<close> is the value \<^verbatim>\<open>rflpc_clock_init\<close> leaves.
\<close>

datatype rflpc_clock_divider_t = RFLPC_CCLK_4 | RFLPC_CCLK | RFLPC_CCLK_2 | RFLPC_CCLK_8

fun divider_val :: "rflpc_clock_divider_t \<Rightarrow> u32" where
  "divider_val RFLPC_CCLK_4 = 0"
| "divider_val RFLPC_CCLK = 1"
| "divider_val RFLPC_CCLK_2 = 2"
| "divider_val RFLPC_CCLK_8 = 3"

text \<open>The configuration of \<^verbatim>\<open>config/config-mbed.h\<close>.\<close>

record clock_config =
  use_main_oscillator :: bool
  main_oscillator_frequency :: u32
  input_divider :: u32
  pll_multiplier :: u32
  cpu_divider :: u32

definition mbed_clock :: clock_config where
  "mbed_clock = \<lparr>use_main_oscillator = True, main_oscillator_frequency = 12000000,
     input_divider = 1, pll_multiplier = 12, cpu_divider = 3\<rparr>"

definition RFLPC_CLOCK_INTERNAL_OSCILLATOR_FREQUENCY :: u32 where
  "RFLPC_CLOCK_INTERNAL_OSCILLATOR_FREQUENCY = 4000000"

definition RFLPC_PLL0_DO_FEED :: "'d device \<Rightarrow> 'd \<Rightarrow> 'd" where
  "RFLPC_PLL0_DO_FEED D d =
     (let d = dev_wr D SC_PLL0FEED 0xAA d;
          d = dev_wr D SC_PLL0FEED 0x55 d
      in d)"

text \<open>The two \<^verbatim>\<open>#ifdef\<close> blocks: starting the main oscillator, and the frequency that results.\<close>

definition start_main_oscillator :: "clock_config \<Rightarrow> 'd device \<Rightarrow> 'd \<Rightarrow> 'd option" where
  "start_main_oscillator C D d =
     (let d = (if 1000000 \<le> main_oscillator_frequency C \<and> main_oscillator_frequency C \<le> 20000000
               then reg_and D SC_SCS (NOT (shl 1 4)) d
               else reg_or D SC_SCS (shl 1 4) d);
          d = reg_or D SC_SCS (shl 1 5) d
      in case poll D SC_SCS (\<lambda>x. x AND shl 1 6 \<noteq> 0) d of
           None \<Rightarrow> None
         | Some (_, d) \<Rightarrow> Some (rmw D SC_CLKSRCSEL (\<lambda>x. (x AND NOT 3) OR 1) d))"

definition clock_frequency :: "clock_config \<Rightarrow> u32" where
  "clock_frequency C =
     (2 * pll_multiplier C *
        ((if use_main_oscillator C then main_oscillator_frequency C
          else RFLPC_CLOCK_INTERNAL_OSCILLATOR_FREQUENCY) div input_divider C)) div cpu_divider C"

definition set_flash_accelerator :: "'d device \<Rightarrow> u32 \<Rightarrow> 'd \<Rightarrow> 'd" where
  "set_flash_accelerator D system_clock d =
     (if system_clock \<le> 20000000 then dev_wr D SC_FLASHCFG 0x3A d
      else if system_clock \<le> 40000000 then dev_wr D SC_FLASHCFG (shl 1 12 OR 0x3A) d
      else if system_clock \<le> 60000000 then dev_wr D SC_FLASHCFG (shl 2 12 OR 0x3A) d
      else if system_clock \<le> 80000000 then dev_wr D SC_FLASHCFG (shl 3 12 OR 0x3A) d
      else if system_clock \<le> 100000000 then dev_wr D SC_FLASHCFG (shl 4 12 OR 0x3A) d
      else d)"

text \<open>\<^verbatim>\<open>rflpc_clock_init\<close>, in its three stretches between the waiting loops: the PLL is disconnected
  and disabled; it is configured and enabled; it is connected.\<close>

definition pll0_stop :: "'d device \<Rightarrow> 'd \<Rightarrow> 'd" where
  "pll0_stop D d =
     (let (stat, d) = dev_rd D SC_PLL0STAT d;
          d = (if stat AND shl 1 24 \<noteq> 0
               then RFLPC_PLL0_DO_FEED D (reg_and D SC_PLL0CON (NOT (shl 1 1)) d) else d);
          d = reg_and D SC_PLL0CON (NOT 1) d;
          d = RFLPC_PLL0_DO_FEED D d
      in d)"

definition pll0_configure :: "clock_config \<Rightarrow> 'd device \<Rightarrow> 'd \<Rightarrow> 'd" where
  "pll0_configure C D d =
     (let d = dev_wr D SC_PLL0CFG (shl (input_divider C - 1) 16 OR (pll_multiplier C - 1)) d;
          d = RFLPC_PLL0_DO_FEED D d;
          d = reg_or D SC_PLL0CON 1 d;
          d = RFLPC_PLL0_DO_FEED D d;
          d = dev_wr D SC_CCLKCFG (cpu_divider C - 1) d
      in d)"

definition pll0_connect :: "clock_config \<Rightarrow> 'd device \<Rightarrow> 'd \<Rightarrow> u32 \<times> 'd" where
  "pll0_connect C D d =
     (let d = reg_or D SC_PLL0CON (shl 1 1) d;
          d = RFLPC_PLL0_DO_FEED D d;
          system_clock = clock_frequency C;
          d = set_flash_accelerator D system_clock d
      in (system_clock, d))"

definition rflpc_clock_init :: "clock_config \<Rightarrow> 'd device \<Rightarrow> 'd \<Rightarrow> (u32 \<times> 'd) option" where
  "rflpc_clock_init C D d =
     (let d = cpsid_i D d;
          d = pll0_stop D d
      in case (if use_main_oscillator C then start_main_oscillator C D d else Some d) of
           None \<Rightarrow> None
         | Some d \<Rightarrow>
             (case poll D SC_PLL0STAT (\<lambda>x. x AND shl 1 26 \<noteq> 0) (pll0_configure C D d) of
                None \<Rightarrow> None
              | Some (_, d) \<Rightarrow>
                  (let (system_clock, d) = pll0_connect C D d
                   in Some (system_clock, cpsie_i D d))))"

definition rflpc_clock_get_system_clock :: "u32 \<Rightarrow> u32" where
  "rflpc_clock_get_system_clock system_clock = system_clock"

section \<open>The feed sequence\<close>

text \<open>A trace of writes in which every write to \<^verbatim>\<open>PLL0CON\<close> or \<^verbatim>\<open>PLL0CFG\<close> is followed at once by the two
  writes that validate it, with the interrupts masked.\<close>

fun feeds :: "bool \<Rightarrow> event list \<Rightarrow> bool" where
  "feeds masked [] \<longleftrightarrow> True"
| "feeds masked (Mask # es) \<longleftrightarrow> feeds True es"
| "feeds masked (Unmask # es) \<longleftrightarrow> feeds False es"
| "feeds masked (Wr a v # es) \<longleftrightarrow>
     (if a = SC_PLL0CON \<or> a = SC_PLL0CFG
      then masked \<and> (case es of
          Wr b x # Wr c y # es' \<Rightarrow> b = SC_PLL0FEED \<and> x = 0xAA \<and> c = SC_PLL0FEED \<and> y = 0x55 \<and> feeds masked es'
        | _ \<Rightarrow> False)
      else feeds masked es)"

abbreviation pll_device :: "script_state device" where
  "pll_device \<equiv> script_device {SC_SCS, SC_PLL0STAT}"

lemma log_script_rd: "log (snd (dev_rd (script_device S) a d)) = log d"
  by (auto simp: script_device_rd split: list.splits)

lemma log_script_ops:
  "log (dev_wr (script_device S) a v d) = Wr a v # log d"
  "log (cpsid_i (script_device S) d) = Mask # log d"
  "log (cpsie_i (script_device S) d) = Unmask # log d"
  "log (reg_or (script_device S) a v d) = Wr a (fst (dev_rd (script_device S) a d) OR v) # log d"
  "log (reg_and (script_device S) a v d) = Wr a (fst (dev_rd (script_device S) a d) AND v) # log d"
  "log (rmw (script_device S) a f d) = Wr a (f (fst (dev_rd (script_device S) a d))) # log d"
  "log (RFLPC_PLL0_DO_FEED (script_device S) d) = Wr SC_PLL0FEED 0x55 # Wr SC_PLL0FEED 0xAA # log d"
  by (simp_all add: script_device_wr reg_or_def reg_and_def rmw_def split_def Let_def log_script_rd
      RFLPC_PLL0_DO_FEED_def)

text \<open>A stretch of the run that keeps the trace well fed, the interrupts being masked.\<close>

definition fed :: "script_state \<Rightarrow> script_state \<Rightarrow> bool" where
  "fed d d' \<longleftrightarrow> (\<exists>es. log d' = rev es @ log d \<and> (\<forall>fs. feeds True (es @ fs) \<longleftrightarrow> feeds True fs))"

lemma fed_refl: "log d' = log d \<Longrightarrow> fed d d'"
  by (auto simp: fed_def intro: exI [of _ "[]"])

lemma fed_trans:
  assumes "fed d d'" and "fed d' d''"
  shows "fed d d''"
proof -
  obtain es es' where "log d' = rev es @ log d" "\<forall>fs. feeds True (es @ fs) \<longleftrightarrow> feeds True fs"
    "log d'' = rev es' @ log d'" "\<forall>fs. feeds True (es' @ fs) \<longleftrightarrow> feeds True fs"
    using assms by (auto simp: fed_def)
  then show ?thesis unfolding fed_def by (intro exI [of _ "es @ es'"]) simp
qed

lemma fed_write: "a \<noteq> SC_PLL0CON \<Longrightarrow> a \<noteq> SC_PLL0CFG \<Longrightarrow> log d' = Wr a v # log d \<Longrightarrow> fed d d'"
  by (auto simp: fed_def intro!: exI [of _ "[Wr a v]"])

lemma fed_feed:
  "a \<in> {SC_PLL0CON, SC_PLL0CFG} \<Longrightarrow> log d' = Wr a v # log d \<Longrightarrow>
    fed d (RFLPC_PLL0_DO_FEED (script_device S) d')"
  by (auto simp: fed_def log_script_ops
      intro!: exI [of _ "[Wr a v, Wr SC_PLL0FEED 0xAA, Wr SC_PLL0FEED 0x55]"])

lemma fed_main_oscillator:
  assumes "start_main_oscillator C (script_device S) d = Some d'"
  shows "fed d d'"
proof -
  obtain x y z where "log d' = Wr SC_CLKSRCSEL x # Wr SC_SCS y # Wr SC_SCS z # log d"
    using assms
    by (auto simp: start_main_oscillator_def Let_def log_script_ops split: option.splits if_splits
        dest!: poll_script_log)
  then show ?thesis
    by (auto simp: fed_def reg_addr intro!: exI [of _ "[Wr SC_SCS z, Wr SC_SCS y, Wr SC_CLKSRCSEL x]"])
qed

lemma fed_flash: "fed d (set_flash_accelerator (script_device S) c d)"
proof -
  have "SC_FLASHCFG \<noteq> SC_PLL0CON" "SC_FLASHCFG \<noteq> SC_PLL0CFG" by (simp_all add: reg_addr)
  then show ?thesis
    by (simp add: set_flash_accelerator_def fed_refl fed_write log_script_ops)
qed

lemma fed_pll0:
  "fed d (pll0_stop (script_device S) d)"
  "fed d (pll0_configure C (script_device S) d)"
  "fed d (snd (pll0_connect C (script_device S) d))"
proof -
  let ?D = "script_device S"
  define d1 where "d1 = (if fst (dev_rd ?D SC_PLL0STAT d) AND shl 1 24 \<noteq> 0
      then RFLPC_PLL0_DO_FEED ?D (reg_and ?D SC_PLL0CON (NOT (shl 1 1)) (snd (dev_rd ?D SC_PLL0STAT d)))
      else snd (dev_rd ?D SC_PLL0STAT d))"
  have "fed d d1"
    unfolding d1_def by (auto intro: fed_refl fed_feed simp: log_script_ops log_script_rd)
  moreover have "fed d1 (RFLPC_PLL0_DO_FEED ?D (reg_and ?D SC_PLL0CON (NOT 1) d1))"
    by (rule fed_feed) (simp_all add: log_script_ops)
  ultimately show "fed d (pll0_stop ?D d)"
    unfolding pll0_stop_def d1_def Let_def split_def by (rule fed_trans)
  have cfg: "fed e (RFLPC_PLL0_DO_FEED ?D (dev_wr ?D SC_PLL0CFG v e))" for e v
    by (rule fed_feed) (simp_all add: log_script_ops)
  have con: "fed e (RFLPC_PLL0_DO_FEED ?D (reg_or ?D SC_PLL0CON v e))" for e v
    by (rule fed_feed) (simp_all add: log_script_ops)
  have cpu: "fed e (dev_wr ?D SC_CCLKCFG v e)" for e v
    by (rule fed_write) (simp_all add: reg_addr log_script_ops)
  show "fed d (pll0_configure C ?D d)"
    unfolding pll0_configure_def Let_def by (rule fed_trans [OF fed_trans [OF cfg con] cpu])
  show "fed d (snd (pll0_connect C ?D d))"
    unfolding pll0_connect_def Let_def snd_conv
    by (rule fed_trans [OF con fed_flash])
qed

context config_regs
begin

lemma peek_feed:
  "a \<in> A \<Longrightarrow> a \<noteq> SC_PLL0FEED \<Longrightarrow> peek D a (RFLPC_PLL0_DO_FEED D d) = peek D a d"
  by (simp add: RFLPC_PLL0_DO_FEED_def peek_wr)

end

lemma or_and_absorb: "(w OR x) AND x = (x :: 'a::len word)"
  by (rule bit_word_eqI) (auto simp: bit_simps)

lemma or_one_two: "((w OR 1) OR 2) AND 3 = (3 :: u32)"
  using or_and_absorb [of w 3] by (simp add: or.assoc)

lemma and_or_one: "((w AND NOT 3) OR 1) AND 3 = (1 :: u32)"
  by (intro bit_word_eqI) (auto simp: numeral_masks bit_simps)

lemma clock_init_mbed_run:
  assumes "config_regs D {SC_PLL0CON, SC_PLL0CFG, SC_CCLKCFG, SC_CLKSRCSEL, SC_FLASHCFG}"
    and "\<And>d. \<exists>n. bit (peek D SC_SCS (after_reads D SC_SCS n d)) 6"
    and "\<And>d. \<exists>n. bit (peek D SC_PLL0STAT (after_reads D SC_PLL0STAT n d)) 26"
  shows "\<exists>d'. rflpc_clock_init mbed_clock D d = Some (96000000, d') \<and>
    peek D SC_PLL0CON d' AND 3 = 3 \<and> peek D SC_PLL0CFG d' = 0xB \<and> peek D SC_CCLKCFG d' = 2 \<and>
    peek D SC_CLKSRCSEL d' AND 3 = 1 \<and> peek D SC_FLASHCFG d' = 0x403A"
proof -
  note peeks = config_regs.peek_ops [OF assms(1)] config_regs.peek_poll [OF assms(1)]
  have bits: "(x :: u32) AND shl 1 6 \<noteq> 0 \<longleftrightarrow> bit x 6" "x AND shl 1 26 \<noteq> 0 \<longleftrightarrow> bit x 26" for x
    using and_two_power_eq_zero [of x 6] and_two_power_eq_zero [of x 26] by simp_all
  let ?o = "reg_or D SC_SCS (shl 1 5) (reg_and D SC_SCS (NOT (shl 1 4)) (pll0_stop D (cpsid_i D d)))"
  obtain x d1 where d1: "poll D SC_SCS (\<lambda>x. bit x 6) ?o = Some (x, d1)"
    using assms(2) [of ?o] poll_terminates [of "\<lambda>x. bit x 6" D SC_SCS] by blast
  let ?c = "rmw D SC_CLKSRCSEL (\<lambda>x. (x AND NOT 3) OR 1) d1"
  obtain y d2 where d2: "poll D SC_PLL0STAT (\<lambda>x. bit x 26) (pll0_configure mbed_clock D ?c) = Some (y, d2)"
    using assms(3) [of "pll0_configure mbed_clock D ?c"]
      poll_terminates [of "\<lambda>x. bit x 26" D SC_PLL0STAT] by blast
  have run: "rflpc_clock_init mbed_clock D d =
      Some (96000000, cpsie_i D (snd (pll0_connect mbed_clock D d2)))"
    using d1 d2 unfolding rflpc_clock_init_def start_main_oscillator_def bits
    by (simp add: rflpc_clock_init_def start_main_oscillator_def mbed_clock_def Let_def split_def
        pll0_connect_def clock_frequency_def)
  have freq: "clock_frequency mbed_clock = 96000000"
    by (simp add: clock_frequency_def mbed_clock_def)
  have flash: "snd (pll0_connect mbed_clock D d2) =
      dev_wr D SC_FLASHCFG 0x403A (RFLPC_PLL0_DO_FEED D (reg_or D SC_PLL0CON 2 d2))"
    by (simp add: pll0_connect_def freq set_flash_accelerator_def Let_def)
  show ?thesis
    unfolding run flash
    using d1 d2
    by (simp add: peeks or_one_two and_or_one [simplified] config_regs.peek_feed [OF assms(1)] pll0_configure_def mbed_clock_def reg_addr)
qed

section \<open>Properties\<close>

text \<open>C27. Whatever the PLL's status registers return and however long they are polled, a run of
  \<^verbatim>\<open>rflpc_clock_init\<close> that returns has followed every write to \<^verbatim>\<open>PLL0CON\<close> and \<^verbatim>\<open>PLL0CFG\<close> by the feed
  sequence, with nothing between and the interrupts masked.\<close>

theorem clock_init_feeds:
  assumes "rflpc_clock_init C (script_device {SC_SCS, SC_PLL0STAT}) d = Some (clk, d')"
    and "log d = []"
  shows "feeds False (rev (log d'))"
proof -
  let ?D = "script_device {SC_SCS, SC_PLL0STAT}"
  define d0 where "d0 = cpsid_i ?D d"
  obtain d1 x d2 where
    d1: "(if use_main_oscillator C then start_main_oscillator C ?D (pll0_stop ?D d0)
          else Some (pll0_stop ?D d0)) = Some d1"
    and d2: "poll ?D SC_PLL0STAT (\<lambda>x. x AND shl 1 26 \<noteq> 0) (pll0_configure C ?D d1) = Some (x, d2)"
    and d': "d' = cpsie_i ?D (snd (pll0_connect C ?D d2))"
    using assms(1) unfolding rflpc_clock_init_def Let_def d0_def [symmetric]
    by (auto split: option.splits prod.splits)
  have "fed (pll0_stop ?D d0) d1"
    using d1 by (auto intro: fed_refl fed_main_oscillator split: if_splits)
  moreover have "fed (pll0_configure C ?D d1) d2"
    using poll_script_log [OF d2] by (rule fed_refl)
  ultimately have "fed d0 (snd (pll0_connect C ?D d2))"
    using fed_pll0 fed_trans by metis
  then obtain es where "log (snd (pll0_connect C ?D d2)) = rev es @ log d0"
    "\<forall>fs. feeds True (es @ fs) \<longleftrightarrow> feeds True fs"
    by (auto simp: fed_def)
  then show ?thesis
    using assms(2) by (simp add: d' d0_def log_script_ops)
qed

lemma clock_init_feeds_witness:
  "\<exists>clk d'. rflpc_clock_init mbed_clock (script_device {SC_SCS, SC_PLL0STAT})
      \<lparr>ram = \<lambda>_. 0, inputs = (\<lambda>_. [0, 0, 0x4000040]), log = []\<rparr> = Some (clk, d') \<and>
    feeds False (rev (log d'))"
proof -
  let ?d = "\<lparr>ram = \<lambda>_. 0, inputs = (\<lambda>_. [0, 0, 0x4000040]), log = []\<rparr>"
  have "\<exists>clk d'. rflpc_clock_init mbed_clock (script_device {SC_SCS, SC_PLL0STAT}) ?d = Some (clk, d')"
    by (simp add: rflpc_clock_init_def pll0_stop_def start_main_oscillator_def pll0_configure_def
        pll0_connect_def mbed_clock_def Let_def split_def reg_or_def reg_and_def rmw_def
        RFLPC_PLL0_DO_FEED_def script_device_rd script_device_wr poll_script_Cons reg_addr)
  then show ?thesis using clock_init_feeds [of mbed_clock ?d] by auto
qed

text \<open>C26. On the mbed board, whenever the oscillator becomes stable and the PLL locks, \<^verbatim>\<open>rflpc_clock_init\<close>
  returns: the system clock is 96 MHz, the PLL is enabled and connected on the main oscillator
  with its divider and multiplier, and the flash accelerator is set for that frequency.\<close>

theorem clock_init_mbed:
  assumes "config_regs D {SC_PLL0CON, SC_PLL0CFG, SC_CCLKCFG, SC_CLKSRCSEL, SC_FLASHCFG}"
    and "\<And>d. \<exists>n. bit (peek D SC_SCS (after_reads D SC_SCS n d)) 6"
    and "\<And>d. \<exists>n. bit (peek D SC_PLL0STAT (after_reads D SC_PLL0STAT n d)) 26"
  shows "\<exists>d'. rflpc_clock_init mbed_clock D d = Some (96000000, d') \<and>
    peek D SC_PLL0CON d' AND 3 = 3 \<and> peek D SC_PLL0CFG d' = 0xB \<and> peek D SC_CCLKCFG d' = 2 \<and>
    peek D SC_CLKSRCSEL d' AND 3 = 1 \<and> peek D SC_FLASHCFG d' = 0x403A"
  by (rule clock_init_mbed_run [OF assms])

lemma clock_init_mbed_witness:
  "\<exists>d'. rflpc_clock_init mbed_clock (status_device {SC_SCS, SC_PLL0STAT} 0xFFFFFFFF) (\<lambda>_. 0) =
     Some (96000000, d') \<and> d' SC_FLASHCFG = 0x403A"
proof -
  let ?D = "status_device {SC_SCS, SC_PLL0STAT} 0xFFFFFFFF"
  have "config_regs ?D {SC_PLL0CON, SC_PLL0CFG, SC_CCLKCFG, SC_CLKSRCSEL, SC_FLASHCFG}"
    by unfold_locales (auto simp: reg_addr)
  moreover have "bit (0xFFFFFFFF :: u32) 6" "bit (0xFFFFFFFF :: u32) 26" by simp_all
  ultimately have "\<exists>d'. rflpc_clock_init mbed_clock ?D (\<lambda>_. 0) = Some (96000000, d') \<and>
      peek ?D SC_PLL0CON d' AND 3 = 3 \<and> peek ?D SC_PLL0CFG d' = 0xB \<and> peek ?D SC_CCLKCFG d' = 2 \<and>
      peek ?D SC_CLKSRCSEL d' AND 3 = 1 \<and> peek ?D SC_FLASHCFG d' = 0x403A"
    by (intro clock_init_mbed) (simp_all add: reg_addr)
  moreover have "SC_FLASHCFG \<notin> {SC_SCS, SC_PLL0STAT}" by (simp add: reg_addr)
  ultimately show ?thesis by auto
qed

end
