(* ===== verification/Startup.thy ===== *)
theory Startup
  imports TinyMem Clock
begin

text \<open>
  \<^verbatim>\<open>rflpc17xx/init.c\<close>: the reset routine. It copies the data section from flash, clears the
  bss section, starts the clock, moves the vector table, fills the stack with a magic word
  and calls \<^verbatim>\<open>main\<close>. The symbols of the linker script are the fields of a record.
\<close>

record linker_symbols =
  text_end :: addr
  data_start :: addr
  data_end :: addr
  bss_start :: addr
  bss_end :: addr
  stack_base :: addr
  sym_start :: u32
  default_exception_handler :: u32
  default_peripheral_handler :: u32
  ram_vector :: addr

definition RFLPC_STACK_SIZE :: nat where "RFLPC_STACK_SIZE = 1024"

text \<open>The ROM vector table \<^verbatim>\<open>_rom_interrupts\<close>.\<close>

definition rom_interrupts :: "linker_symbols \<Rightarrow> u32 list" where
  "rom_interrupts L =
     (let exc = default_exception_handler L; per = default_peripheral_handler L in
      [stack_base L + of_nat RFLPC_STACK_SIZE, sym_start L, exc, exc, exc, exc, exc, 0, 0, 0, 0, exc, 0, 0,
       exc, exc] @
      [per, per, per, per, per, per, per, per, per, per, per, per, per, per, per, per, per, per, per,
       per, per, per, per, per, per, per, per, per, per, per, per, per, per])"

function zero_bss_loop :: "addr \<Rightarrow> addr \<Rightarrow> mem \<Rightarrow> mem" where
  "zero_bss_loop dst lim m = (if dst < lim then zero_bss_loop (dst + 1) lim (m(dst := 0)) else m)"
  by auto

lemma less_step:
  assumes "(dst :: u32) < lim"
  shows "unat (dst + 1) = unat dst + 1"
  using assms unat_u32 [of lim] by (simp add: unat_word_ariths word_less_nat_alt)

termination zero_bss_loop
  by (relation "measure (\<lambda>(dst, lim, _). unat lim - unat dst)")
    (auto simp: less_step word_less_nat_alt)

definition zero_bss :: "linker_symbols \<Rightarrow> mem \<Rightarrow> mem" where
  "zero_bss L m = zero_bss_loop (bss_start L) (bss_end L) m"

function copy_data_loop :: "addr \<Rightarrow> addr \<Rightarrow> addr \<Rightarrow> mem \<Rightarrow> mem" where
  "copy_data_loop src dst lim m =
     (if dst < lim then copy_data_loop (src + 1) (dst + 1) lim (m(dst := m src)) else m)"
  by auto
termination
  by (relation "measure (\<lambda>(_, dst, lim, _). unat lim - unat dst)")
    (auto simp: less_step word_less_nat_alt)

definition copy_data_section :: "linker_symbols \<Rightarrow> mem \<Rightarrow> mem" where
  "copy_data_section L m = copy_data_loop (text_end L) (data_start L) (data_end L) m"

function init_stack_loop :: "addr \<Rightarrow> nat \<Rightarrow> mem \<Rightarrow> mem" where
  "init_stack_loop base i m =
     (if i < RFLPC_STACK_SIZE div 4
      then init_stack_loop base (i + 1) (st32 (word_at base i) 0xFADEBEEF m) else m)"
  by auto
termination by (relation "measure (\<lambda>(_, i, _). RFLPC_STACK_SIZE div 4 - i)") auto

declare zero_bss_loop.simps [simp del] copy_data_loop.simps [simp del] init_stack_loop.simps [simp del]

definition init_stack :: "linker_symbols \<Rightarrow> mem \<Rightarrow> mem" where
  "init_stack L m = init_stack_loop (stack_base L) 0 m"

text \<open>The state the reset routine hands to \<^verbatim>\<open>main\<close>.\<close>

record 'd machine =
  memory :: mem
  vectors :: "u32 list"
  system_clock :: u32
  bus :: 'd

definition start ::
  "linker_symbols \<Rightarrow> clock_config \<Rightarrow> 'd device \<Rightarrow> ('d machine \<Rightarrow> 'd machine option)
    \<Rightarrow> 'd machine \<Rightarrow> 'd machine option" where
  "start L C D main s =
     (let s = s\<lparr>memory := copy_data_section L (memory s)\<rparr>;
          s = s\<lparr>memory := zero_bss L (memory s)\<rparr>
      in case rflpc_clock_init C D (bus s) of
           None \<Rightarrow> None
         | Some (clk, d) \<Rightarrow>
             (let s = s\<lparr>system_clock := clk, bus := d\<rparr>;
                  (v, d) = rflpc_irq_init D (rom_interrupts L) (ram_vector L) (vectors s, bus s);
                  s = s\<lparr>vectors := v, bus := d\<rparr>;
                  s = s\<lparr>memory := init_stack L (memory s)\<rparr>
              in main s))"

section \<open>The loops\<close>

lemma zero_bss_loop_eq:
  "zero_bss_loop dst lim m = (\<lambda>a. if dst \<le> a \<and> a < lim then 0 else m a)"
proof (induction dst lim m rule: zero_bss_loop.induct)
  case (1 dst lim m)
  show ?case
  proof (cases "dst < lim")
    case True
    have "a = dst \<or> dst + 1 \<le> a \<longleftrightarrow> dst \<le> a" for a
      using less_step [OF True] by (auto simp: word_le_nat_alt) (metis Suc_leI le_neq_implies_less word_unat_eq_iff)
    then have "(\<lambda>a. if dst + 1 \<le> a \<and> a < lim then 0 else (m(dst := 0)) a) =
        (\<lambda>a. if dst \<le> a \<and> a < lim then 0 else m a)"
      using True by (auto simp: fun_eq_iff)
    with True show ?thesis
      by (subst zero_bss_loop.simps) (simp only: 1 if_True)
  next
    case False
    then show ?thesis by (subst zero_bss_loop.simps) (auto simp: fun_eq_iff)
  qed
qed

lemma copy_data_loop_eq:
  "dst \<le> lim \<Longrightarrow> copy_data_loop src dst lim m = byte_copy dst src (unat lim - unat dst) m"
proof (induction src dst lim m rule: copy_data_loop.induct)
  case (1 src dst lim m)
  show ?case
  proof (cases "dst < lim")
    case True
    have "dst + 1 \<le> lim" using True less_step [OF True] by (simp add: word_le_nat_alt word_less_nat_alt)
    moreover have "unat lim - unat dst = Suc (unat lim - unat (dst + 1))"
      using True less_step [OF True] by (simp add: word_less_nat_alt)
    ultimately show ?thesis
      using True by (subst copy_data_loop.simps) (simp only: 1(1) if_True byte_copy.simps)
  next
    case False
    with 1 show ?thesis by (subst copy_data_loop.simps) simp
  qed
qed

lemma init_stack_loop_other:
  assumes "unat (b - base) \<ge> 1024 \<or> unat (b - base) < 4 * i"
  shows "init_stack_loop base i m b = m b"
  using assms
proof (induction base i m rule: init_stack_loop.induct)
  case (1 base i m)
  show ?case
  proof (cases "i < 256")
    case True
    have "unat (b - word_at base i) \<ge> 4"
    proof -
      have i: "unat (of_nat (4 * i) :: u32) = 4 * i" using True by (simp only: unat_of_nat) simp
      have "b - word_at base i = (b - base) - of_nat (4 * i)" by (simp add: word_at_def algebra_simps)
      then show ?thesis
        using 1(2) True i unat_u32 [of "b - base"] by (simp only: unat_sub_if') auto
    qed
    then have "st32 (word_at base i) 0xFADEBEEF m b = m b" by (rule st32_other)
    moreover have "init_stack_loop base (i + 1) (st32 (word_at base i) 0xFADEBEEF m) b =
        st32 (word_at base i) 0xFADEBEEF m b"
      using 1 True by (intro 1(1)) (auto simp: RFLPC_STACK_SIZE_def)
    ultimately show ?thesis
      using True by (subst init_stack_loop.simps) (simp add: RFLPC_STACK_SIZE_def)
  next
    case False
    then show ?thesis by (subst init_stack_loop.simps) (simp add: RFLPC_STACK_SIZE_def)
  qed
qed

lemma init_stack_loop_word:
  assumes "i \<le> j" and "j < 256"
  shows "ld32 (init_stack_loop base i m) (word_at base j) = 0xFADEBEEF"
  using assms(1)
proof (induction base i m rule: init_stack_loop.induct)
  case (1 base i m)
  let ?m = "st32 (word_at base i) 0xFADEBEEF m"
  have step: "init_stack_loop base i m = init_stack_loop base (i + 1) ?m"
    using 1(2) assms(2) by (subst init_stack_loop.simps) (simp add: RFLPC_STACK_SIZE_def)
  show ?case
  proof (cases "i = j")
    case True
    have "ld32 (init_stack_loop base (i + 1) ?m) (word_at base j) = ld32 ?m (word_at base j)"
    proof (rule ld32_cong)
      fix k :: nat assume "k < 4"
      then have "unat (of_nat (4 * j + k) :: u32) = 4 * j + k" using assms(2) by (simp only: unat_of_nat) simp
      moreover have "word_at base j + of_nat k - base = of_nat (4 * j + k)" by (simp add: word_at_def)
      moreover have "4 * j + k < 4 * (i + 1)" using True \<open>k < 4\<close> by simp
      ultimately have "unat (word_at base j + of_nat k - base) < 4 * (i + 1)" by (simp only:)
      then show "init_stack_loop base (i + 1) ?m (word_at base j + of_nat k) = ?m (word_at base j + of_nat k)"
        by (intro init_stack_loop_other) blast
    qed
    then show ?thesis unfolding step unfolding True by (simp only: ld32_st32)
  next
    case False
    have "i < RFLPC_STACK_SIZE div 4" "i + 1 \<le> j"
      using False 1(2) assms(2) by (simp_all add: RFLPC_STACK_SIZE_def)
    then show ?thesis unfolding step by (rule 1(1))
  qed
qed

section \<open>Properties\<close>

text \<open>Before \<^verbatim>\<open>main\<close> the sections are set up: the data section holds its image from flash and the
  bss section is zero, byte for byte, and no other memory has changed.\<close>

theorem start_sections:
  assumes "data_start L \<le> data_end L" and "data_end L \<le> bss_start L"
    and "text_end L + (data_end L - data_start L) \<le> data_start L" and "text_end L \<le> data_start L"
  shows "zero_bss L (copy_data_section L m) a =
    (if bss_start L \<le> a \<and> a < bss_end L then 0
     else if data_start L \<le> a \<and> a < data_end L then m (text_end L + (a - data_start L))
     else m a)"
proof -
  let ?n = "unat (data_end L) - unat (data_start L)"
  have "?n \<le> unat (data_start L - text_end L)"
    using assms unat_u32 [of "data_end L"]
    by (auto simp: word_le_nat_alt unat_sub_if' unat_word_ariths split: if_splits)
  moreover have "unat (a - data_start L) < ?n \<longleftrightarrow> data_start L \<le> a \<and> a < data_end L"
    using assms(1) unat_u32 [of "data_end L"]
    by (auto simp: word_le_nat_alt word_less_nat_alt unat_sub_if' split: if_splits)
  ultimately show ?thesis
    using assms(1) unat_u32 [of "data_end L"]
    by (simp add: zero_bss_def copy_data_section_def zero_bss_loop_eq copy_data_loop_eq byte_copy_apply)
qed

lemma start_sections_witness:
  "(let L = \<lparr>text_end = 0x1000, data_start = 0x10000000, data_end = 0x10000008, bss_start = 0x10000008,
      bss_end = 0x10000010, stack_base = 0x10007000, sym_start = 0x101, default_exception_handler = 0x201,
      default_peripheral_handler = 0x301, ram_vector = 0x10007C00\<rparr> in
    zero_bss L (copy_data_section L (\<lambda>a. ucast a)) 0x10000003 = 3 \<and>
    zero_bss L (copy_data_section L (\<lambda>a. ucast a)) 0x1000000F = 0)"
  unfolding Let_def by (subst start_sections; simp add: word_le_nat_alt word_less_nat_alt)+

text \<open>The stack is painted: each of its words reads \<^verbatim>\<open>0xFADEBEEF\<close>, and no byte outside it changes.\<close>

theorem init_stack_painted:
  assumes "j < RFLPC_STACK_SIZE div 4" and "RFLPC_STACK_SIZE \<le> unat (a - stack_base L)"
  shows "ld32 (init_stack L m) (word_at (stack_base L) j) = 0xFADEBEEF \<and> init_stack L m a = m a"
  using assms init_stack_loop_word [of 0 j "stack_base L" m]
    init_stack_loop_other [of a "stack_base L" 0 m]
  by (simp add: init_stack_def RFLPC_STACK_SIZE_def)

lemma init_stack_painted_witness:
  "(let L = \<lparr>text_end = 0x1000, data_start = 0x10000000, data_end = 0x10000008, bss_start = 0x10000008,
      bss_end = 0x10000010, stack_base = 0x10007000, sym_start = 0x101, default_exception_handler = 0x201,
      default_peripheral_handler = 0x301, ram_vector = 0x10007C00\<rparr> in
    ld32 (init_stack L (\<lambda>_. 0)) 0x10007008 = 0xFADEBEEF \<and> init_stack L (\<lambda>_. 0) 0x10007400 = 0)"
  using init_stack_painted [of 2 "0x10007400" "\<lparr>text_end = 0x1000, data_start = 0x10000000,
      data_end = 0x10000008, bss_start = 0x10000008, bss_end = 0x10000010, stack_base = 0x10007000,
      sym_start = 0x101, default_exception_handler = 0x201, default_peripheral_handler = 0x301,
      ram_vector = 0x10007C00\<rparr>" "\<lambda>_. 0"]
  by (simp add: RFLPC_STACK_SIZE_def word_at_def)

text \<open>The steps of the reset routine in one, up to \<^verbatim>\<open>main\<close>.\<close>

lemma start_runs:
  assumes "config_regs D {SC_PLL0CON, SC_PLL0CFG, SC_CCLKCFG, SC_CLKSRCSEL, SC_FLASHCFG, SCB_VTOR}"
    and "\<And>d. \<exists>n. bit (peek D SC_SCS (after_reads D SC_SCS n d)) 6"
    and "\<And>d. \<exists>n. bit (peek D SC_PLL0STAT (after_reads D SC_PLL0STAT n d)) 26"
    and "length (vectors s) = 49"
  shows "\<exists>d'. start L mbed_clock D main s =
      main (s\<lparr>memory := init_stack L (zero_bss L (copy_data_section L (memory s))),
        vectors := rom_interrupts L, system_clock := 96000000, bus := d'\<rparr>) \<and>
    peek D SCB_VTOR d' = ram_vector L"
proof -
  have "config_regs D {SC_PLL0CON, SC_PLL0CFG, SC_CCLKCFG, SC_CLKSRCSEL, SC_FLASHCFG}"
    by (rule config_regs_subset [OF assms(1)]) auto
  then obtain d1 where d1: "rflpc_clock_init mbed_clock D (bus s) = Some (96000000, d1)"
    using clock_init_mbed_run [OF _ assms(2,3)] by blast
  have "length (rom_interrupts L) = 49" by (simp add: rom_interrupts_def Let_def)
  then have "copy_vectors (rom_interrupts L) 0 (vectors s) = rom_interrupts L"
    using assms(4) by (simp add: copy_vectors_eq)
  then have init: "rflpc_irq_init D (rom_interrupts L) (ram_vector L) (vectors s, d1) =
      (rom_interrupts L, cpsie_i D (dev_wr D SCB_VTOR (ram_vector L) (cpsid_i D d1)))"
    by (simp add: rflpc_irq_init_def Let_def)
  then show ?thesis
    using d1
    by (intro exI [of _ "cpsie_i D (dev_wr D SCB_VTOR (ram_vector L) (cpsid_i D d1))"])
      (cases s, simp add: start_def Let_def config_regs.peek_ops [OF assms(1)])
qed

text \<open>The entries of the table: the top of the stack, the reset routine, the default handlers of the exceptions
  and, from entry 16 on, of the peripherals.\<close>

lemma rom_interrupts_entries:
  "rom_interrupts L ! 0 = stack_base L + of_nat RFLPC_STACK_SIZE" "rom_interrupts L ! 1 = sym_start L"
  "i \<in> {2, 3, 4, 5, 6, 11, 14, 15} \<Longrightarrow> rom_interrupts L ! i = default_exception_handler L"
  "16 \<le> i \<Longrightarrow> i < 49 \<Longrightarrow> rom_interrupts L ! i = default_peripheral_handler L"
proof -
  have "rom_interrupts L = take 16 (rom_interrupts L) @ replicate 33 (default_peripheral_handler L)"
    by (simp add: rom_interrupts_def Let_def numeral_eq_Suc)
  moreover have "length (take 16 (rom_interrupts L)) = 16" by (simp add: rom_interrupts_def Let_def)
  ultimately show "16 \<le> i \<Longrightarrow> i < 49 \<Longrightarrow> rom_interrupts L ! i = default_peripheral_handler L"
    by (metis (no_types, lifting) add_less_imp_less_left le_add_diff_inverse not_less nth_append nth_replicate
        numeral_Bit0 numeral_plus_numeral add_num_simps)
qed (auto simp: rom_interrupts_def Let_def)

text \<open>C28. The reset routine reaches \<^verbatim>\<open>main\<close> on a machine that is set up: when the oscillator gets
  stable and the PLL locks after finitely many reads, when the registers of the clock and \<^verbatim>\<open>VTOR\<close> hold
  what is written to them, and the linker script puts the data section after its image in flash and before the
  bss section, \<^verbatim>\<open>main\<close> runs with every word of the stack painted with \<^verbatim>\<open>0xFADEBEEF\<close>, outside
  the stack every byte of the bss section zero, every byte of the data section its byte of the image that follows
  the text section in flash and every other byte of the memory as it was at reset, the clock at 96 MHz, and
  \<^verbatim>\<open>VTOR\<close> on the vector table in RAM, whose entries are the top of the stack, the reset routine and the
  default handlers of the exceptions and of the 33 peripherals. (The table in RAM is a list of its own in the
  model, beside the memory.)\<close>

theorem start_reaches_main:
  assumes "config_regs D {SC_PLL0CON, SC_PLL0CFG, SC_CCLKCFG, SC_CLKSRCSEL, SC_FLASHCFG, SCB_VTOR}"
    and "\<And>d. \<exists>n. bit (peek D SC_SCS (after_reads D SC_SCS n d)) 6"
    and "\<And>d. \<exists>n. bit (peek D SC_PLL0STAT (after_reads D SC_PLL0STAT n d)) 26"
    and "length (vectors s) = 49"
    and "data_start L \<le> data_end L" and "data_end L \<le> bss_start L"
    and "text_end L + (data_end L - data_start L) \<le> data_start L" and "text_end L \<le> data_start L"
  shows "\<exists>m v d. start L mbed_clock D main s =
      main (s\<lparr>memory := m, vectors := v, system_clock := 96000000, bus := d\<rparr>) \<and>
    (\<forall>j < 256. ld32 m (word_at (stack_base L) j) = 0xFADEBEEF) \<and>
    (\<forall>a. 1024 \<le> a - stack_base L \<longrightarrow>
      m a = (if bss_start L \<le> a \<and> a < bss_end L then 0
             else if data_start L \<le> a \<and> a < data_end L then memory s (text_end L + (a - data_start L))
             else memory s a)) \<and>
    length v = 49 \<and> v ! 0 = stack_base L + 1024 \<and> v ! 1 = sym_start L \<and>
    (\<forall>i \<in> {2, 3, 4, 5, 6, 11, 14, 15}. v ! i = default_exception_handler L) \<and>
    (\<forall>i. 16 \<le> i \<longrightarrow> i < 49 \<longrightarrow> v ! i = default_peripheral_handler L) \<and>
    peek D SCB_VTOR d = ram_vector L"
proof -
  let ?m = "init_stack L (zero_bss L (copy_data_section L (memory s)))"
  obtain d where "start L mbed_clock D main s =
      main (s\<lparr>memory := ?m, vectors := rom_interrupts L, system_clock := 96000000, bus := d\<rparr>)"
    "peek D SCB_VTOR d = ram_vector L"
    using start_runs [OF assms(1-4)] by blast
  moreover have "ld32 ?m (word_at (stack_base L) j) = 0xFADEBEEF" if "j < 256" for j
    using init_stack_loop_word [of 0 j] that by (simp add: init_stack_def)
  moreover have "?m a = zero_bss L (copy_data_section L (memory s)) a" if "1024 \<le> a - stack_base L" for a
    using init_stack_loop_other [of a "stack_base L" 0] that by (simp add: init_stack_def word_le_nat_alt)
  moreover have "length (rom_interrupts L) = 49" by (simp add: rom_interrupts_def Let_def)
  ultimately show ?thesis
    using rom_interrupts_entries [where L = L]
    by (intro exI [of _ ?m] exI [of _ "rom_interrupts L"] exI [of _ d])
      (simp add: start_sections [OF assms(5-8)] RFLPC_STACK_SIZE_def)
qed

lemma start_reaches_main_witness:
  "(let L = \<lparr>text_end = 0x1000, data_start = 0x10000000, data_end = 0x10000008, bss_start = 0x10000008,
      bss_end = 0x10000010, stack_base = 0x10007000, sym_start = 0x101, default_exception_handler = 0x201,
      default_peripheral_handler = 0x301, ram_vector = 0x10007C00\<rparr> in
    \<exists>s'. start L mbed_clock (status_device {SC_SCS, SC_PLL0STAT} 0xFFFFFFFF) Some
      \<lparr>memory = \<lambda>a. ucast a, vectors = replicate 49 0, system_clock = 4000000, bus = \<lambda>_. 0\<rparr> = Some s' \<and>
      vectors s' ! 1 = 0x101 \<and> memory s' 0x10000003 = 3 \<and> memory s' 0x1000000F = 0)"
proof -
  let ?L = "\<lparr>text_end = 0x1000, data_start = 0x10000000, data_end = 0x10000008, bss_start = 0x10000008,
      bss_end = 0x10000010, stack_base = 0x10007000, sym_start = 0x101, default_exception_handler = 0x201,
      default_peripheral_handler = 0x301, ram_vector = 0x10007C00\<rparr>"
  let ?D = "status_device {SC_SCS, SC_PLL0STAT} 0xFFFFFFFF"
  let ?s = "\<lparr>memory = \<lambda>a :: u32. ucast a :: u8, vectors = replicate 49 0, system_clock = 4000000, bus = \<lambda>_. 0\<rparr>"
  have regs: "config_regs ?D {SC_PLL0CON, SC_PLL0CFG, SC_CCLKCFG, SC_CLKSRCSEL, SC_FLASHCFG, SCB_VTOR}"
    by unfold_locales (auto simp: reg_addr)
  have "\<exists>m v d. start ?L mbed_clock ?D Some ?s = Some (?s\<lparr>memory := m, vectors := v, system_clock := 96000000, bus := d\<rparr>) \<and>
      v ! 1 = 0x101 \<and> m 0x10000003 = 3 \<and> m 0x1000000F = 0"
    using start_reaches_main [OF regs, of ?s ?L Some] by (auto simp: reg_addr word_le_nat_alt word_less_nat_alt)
  then show ?thesis by (auto simp: Let_def)
qed

end
