(* ===== verification/Timer.thy ===== *)
theory Timer
  imports Clock
begin

text \<open>
  \<^verbatim>\<open>rflpc17xx/drivers/timer.h\<close> and \<^verbatim>\<open>timer.c\<close>: the four timers, and the PWM timer through the
  same functions. Every function is the register accesses of the C function, in order. A
  callback is installed in the RAM vector table of \<^theory_text>\<open>Interrupt\<close>.
\<close>

datatype rflpc_timer_t = RFLPC_TIMER0 | RFLPC_TIMER1 | RFLPC_TIMER2 | RFLPC_TIMER3 | RFLPC_TIMER_PWM

fun timer_val :: "rflpc_timer_t \<Rightarrow> nat" where
  "timer_val RFLPC_TIMER0 = 0"
| "timer_val RFLPC_TIMER1 = 1"
| "timer_val RFLPC_TIMER2 = 2"
| "timer_val RFLPC_TIMER3 = 3"
| "timer_val RFLPC_TIMER_PWM = 4"

datatype rflpc_timer_match_t =
  RFLPC_TIMER_MATCH0 | RFLPC_TIMER_MATCH1 | RFLPC_TIMER_MATCH2 | RFLPC_TIMER_MATCH3

fun match_val :: "rflpc_timer_match_t \<Rightarrow> nat" where
  "match_val RFLPC_TIMER_MATCH0 = 0"
| "match_val RFLPC_TIMER_MATCH1 = 1"
| "match_val RFLPC_TIMER_MATCH2 = 2"
| "match_val RFLPC_TIMER_MATCH3 = 3"

definition RFLPC_TIMER_IRQ_ON_MATCH :: u32 where "RFLPC_TIMER_IRQ_ON_MATCH = 1"
definition RFLPC_TIMER_RESET_ON_MATCH :: u32 where "RFLPC_TIMER_RESET_ON_MATCH = 2"
definition RFLPC_TIMER_STOP_ON_MATCH :: u32 where "RFLPC_TIMER_STOP_ON_MATCH = 4"

fun rflpc_timer_base :: "rflpc_timer_t \<Rightarrow> addr" where
  "rflpc_timer_base RFLPC_TIMER0 = LPC_TIM0_BASE"
| "rflpc_timer_base RFLPC_TIMER1 = LPC_TIM1_BASE"
| "rflpc_timer_base RFLPC_TIMER2 = LPC_TIM2_BASE"
| "rflpc_timer_base RFLPC_TIMER3 = LPC_TIM3_BASE"
| "rflpc_timer_base RFLPC_TIMER_PWM = LPC_PWM1_BASE"

definition rflpc_timer_enable :: "'d device \<Rightarrow> rflpc_timer_t \<Rightarrow> 'd \<Rightarrow> 'd" where
  "rflpc_timer_enable D timer d =
     (if timer = RFLPC_TIMER0 \<or> timer = RFLPC_TIMER1
      then reg_or D SC_PCONP (shl 1 (1 + timer_val timer)) d
      else if timer = RFLPC_TIMER2 \<or> timer = RFLPC_TIMER3
      then reg_or D SC_PCONP (shl 1 (20 + timer_val timer)) d
      else d)"

definition rflpc_timer_disable :: "'d device \<Rightarrow> rflpc_timer_t \<Rightarrow> 'd \<Rightarrow> 'd" where
  "rflpc_timer_disable D timer d =
     (if timer = RFLPC_TIMER0 \<or> timer = RFLPC_TIMER1
      then reg_and D SC_PCONP (NOT (shl 1 (1 + timer_val timer))) d
      else if timer = RFLPC_TIMER2 \<or> timer = RFLPC_TIMER3
      then reg_and D SC_PCONP (NOT (shl 1 (20 + timer_val timer))) d
      else d)"

definition rflpc_timer_set_clock ::
  "'d device \<Rightarrow> rflpc_timer_t \<Rightarrow> rflpc_clock_divider_t \<Rightarrow> 'd \<Rightarrow> 'd" where
  "rflpc_timer_set_clock D timer divider d =
     (if timer = RFLPC_TIMER0 \<or> timer = RFLPC_TIMER1 then
        let d = reg_and D SC_PCLKSEL0 (NOT (shl 3 ((timer_val timer + 1) * 2))) d;
            d = reg_or D SC_PCLKSEL0 (shl (divider_val divider) ((timer_val timer + 1) * 2)) d
        in d
      else if timer = RFLPC_TIMER2 \<or> timer = RFLPC_TIMER3 then
        let d = reg_and D SC_PCLKSEL1 (NOT (shl 3 ((timer_val timer + 4) * 2))) d;
            d = reg_or D SC_PCLKSEL1 (shl (divider_val divider) ((timer_val timer + 4) * 2)) d
        in d
      else d)"

definition rflpc_timer_set_callback ::
  "'d device \<Rightarrow> rflpc_timer_t \<Rightarrow> u32 \<Rightarrow> u32 list \<times> 'd \<Rightarrow> u32 list \<times> 'd" where
  "rflpc_timer_set_callback D timer callback st =
     (let (ram_vec, d) = st;
          ram_vec = rflpc_irq_set_handler (TIMER0_IRQn + int (timer_val timer)) callback ram_vec;
          d = rflpc_irq_enable D (nat (TIMER0_IRQn + int (timer_val timer))) d
      in (ram_vec, d))"

definition rflpc_timer_start :: "'d device \<Rightarrow> rflpc_timer_t \<Rightarrow> 'd \<Rightarrow> 'd" where
  "rflpc_timer_start D timer = reg_or D (TIM_TCR (rflpc_timer_base timer)) 1"

definition rflpc_timer_running :: "'d device \<Rightarrow> rflpc_timer_t \<Rightarrow> 'd \<Rightarrow> u32 \<times> 'd" where
  "rflpc_timer_running D timer d =
     (let (x, d) = dev_rd D (TIM_TCR (rflpc_timer_base timer)) d in (x AND 1, d))"

definition rflpc_timer_stop :: "'d device \<Rightarrow> rflpc_timer_t \<Rightarrow> 'd \<Rightarrow> 'd" where
  "rflpc_timer_stop D timer = reg_and D (TIM_TCR (rflpc_timer_base timer)) (NOT 1)"

definition rflpc_timer_reset :: "'d device \<Rightarrow> rflpc_timer_t \<Rightarrow> 'd \<Rightarrow> 'd" where
  "rflpc_timer_reset D timer d =
     (let d = reg_or D (TIM_TCR (rflpc_timer_base timer)) 2 d;
          d = reg_and D (TIM_TCR (rflpc_timer_base timer)) (NOT 2) d
      in d)"

definition rflpc_timer_get_counter :: "'d device \<Rightarrow> rflpc_timer_t \<Rightarrow> 'd \<Rightarrow> u32 \<times> 'd" where
  "rflpc_timer_get_counter D timer = dev_rd D (TIM_TC (rflpc_timer_base timer))"

definition rflpc_timer_get_pre_scale_counter :: "'d device \<Rightarrow> rflpc_timer_t \<Rightarrow> 'd \<Rightarrow> u32 \<times> 'd" where
  "rflpc_timer_get_pre_scale_counter D timer = dev_rd D (TIM_PC (rflpc_timer_base timer))"

definition rflpc_timer_get_pre_scale_register :: "'d device \<Rightarrow> rflpc_timer_t \<Rightarrow> 'd \<Rightarrow> u32 \<times> 'd" where
  "rflpc_timer_get_pre_scale_register D timer = dev_rd D (TIM_PR (rflpc_timer_base timer))"

definition rflpc_timer_set_counter :: "'d device \<Rightarrow> rflpc_timer_t \<Rightarrow> u32 \<Rightarrow> 'd \<Rightarrow> 'd" where
  "rflpc_timer_set_counter D timer value = dev_wr D (TIM_TC (rflpc_timer_base timer)) value"

definition rflpc_timer_set_pre_scale_counter :: "'d device \<Rightarrow> rflpc_timer_t \<Rightarrow> u32 \<Rightarrow> 'd \<Rightarrow> 'd" where
  "rflpc_timer_set_pre_scale_counter D timer value = dev_wr D (TIM_PC (rflpc_timer_base timer)) value"

definition rflpc_timer_set_pre_scale_register :: "'d device \<Rightarrow> rflpc_timer_t \<Rightarrow> u32 \<Rightarrow> 'd \<Rightarrow> 'd" where
  "rflpc_timer_set_pre_scale_register D timer value = dev_wr D (TIM_PR (rflpc_timer_base timer)) value"

definition rflpc_timer_set_match_value ::
  "'d device \<Rightarrow> rflpc_timer_t \<Rightarrow> rflpc_timer_match_t \<Rightarrow> u32 \<Rightarrow> 'd \<Rightarrow> 'd" where
  "rflpc_timer_set_match_value D timer match_register match_value =
     dev_wr D (word_at (TIM_MR0 (rflpc_timer_base timer)) (match_val match_register)) match_value"

definition rflpc_timer_set_irq_on_match ::
  "'d device \<Rightarrow> rflpc_timer_t \<Rightarrow> rflpc_timer_match_t \<Rightarrow> u32 \<Rightarrow> 'd \<Rightarrow> 'd" where
  "rflpc_timer_set_irq_on_match D timer match_register options d =
     (let d = reg_and D (TIM_MCR (rflpc_timer_base timer)) (NOT (shl 7 (match_val match_register * 3))) d;
          d = reg_or D (TIM_MCR (rflpc_timer_base timer)) (shl options (match_val match_register * 3)) d
      in d)"

definition rflpc_timer_reset_irq ::
  "'d device \<Rightarrow> rflpc_timer_t \<Rightarrow> rflpc_timer_match_t \<Rightarrow> 'd \<Rightarrow> 'd" where
  "rflpc_timer_reset_irq D timer match_register =
     reg_or D (TIM_IR (rflpc_timer_base timer)) (shl 1 (match_val match_register))"

definition rflpc_timer_test_irq ::
  "'d device \<Rightarrow> rflpc_timer_t \<Rightarrow> rflpc_timer_match_t \<Rightarrow> 'd \<Rightarrow> u32 \<times> 'd" where
  "rflpc_timer_test_irq D timer match_register d =
     (let (x, d) = dev_rd D (TIM_IR (rflpc_timer_base timer)) d
      in (x AND shl 1 (match_val match_register), d))"

section \<open>Fields\<close>

lemma divider_fits: "take_bit 2 (divider_val q) = divider_val q"
  by (cases q) simp_all

context config_regs
begin

lemma peek_timer_set_clock:
  assumes "a \<in> A"
  shows "peek D a (rflpc_timer_set_clock D timer divider d) =
    (if a = SC_PCLKSEL0 \<and> (timer = RFLPC_TIMER0 \<or> timer = RFLPC_TIMER1)
     then put_field (peek D a d) (2 * (timer_val timer + 1)) (divider_val divider) 2
     else if a = SC_PCLKSEL1 \<and> (timer = RFLPC_TIMER2 \<or> timer = RFLPC_TIMER3)
     then put_field (peek D a d) (2 * (timer_val timer + 4)) (divider_val divider) 2
     else peek D a d)"
proof -
  have ne: "SC_PCLKSEL0 \<noteq> SC_PCLKSEL1" by (simp add: reg_addr)
  note f = peek_field2 [OF assms divider_fits]
  show ?thesis
    unfolding rflpc_timer_set_clock_def Let_def mult.commute [of 2]
    using ne by (cases timer) (auto simp only: f timer_val.simps rflpc_timer_t.simps split: if_splits)
qed

lemma peek_timer_enable:
  assumes "a \<in> A"
  shows "peek D a (rflpc_timer_enable D timer d) =
    (if a = SC_PCONP \<and> timer \<noteq> RFLPC_TIMER_PWM
     then peek D a d OR shl 1 (if timer_val timer < 2 then 1 + timer_val timer else 20 + timer_val timer)
     else peek D a d)"
  by (cases timer) (simp_all add: rflpc_timer_enable_def peek_reg_or [OF assms])

lemma peek_timer_match:
  assumes "a \<in> A" and "options < 8"
  shows "peek D a (rflpc_timer_set_irq_on_match D timer match_register options d) =
    (if a = TIM_MCR (rflpc_timer_base timer)
     then put_field (peek D a d) (3 * match_val match_register) options 3 else peek D a d)"
proof -
  have "take_bit 3 options = options"
    using assms(2) by (simp add: take_bit_eq_mod word_less_nat_alt mod_word_less)
  from peek_field3 [OF assms(1) this] show ?thesis
    unfolding rflpc_timer_set_irq_on_match_def Let_def mult.commute [of 3] by (auto simp only: split: if_splits)
qed

end

section \<open>Properties\<close>

text \<open>The PWM block can be driven by the timer functions: every register they touch has the
  same offset in the two structures.\<close>

theorem timer_layout_serves_pwm:
  "list_all (\<lambda>nm. offset_of LPC_TIM_TypeDef nm \<noteq> None \<and> offset_of LPC_TIM_TypeDef nm = offset_of LPC_PWM_TypeDef nm)
     [''IR'', ''TCR'', ''TC'', ''PR'', ''PC'', ''MCR'', ''MR0'', ''MR1'', ''MR2'', ''MR3'', ''CCR'', ''CR0'', ''CR1'']"
  by (simp add: offset_of_def LPC_TIM_TypeDef_def LPC_PWM_TypeDef_def align_up_def)

text \<open>Setting the clock divider and the match options of a timer writes exactly their fields: the
  two bits of the timer in its clock selection register, the three bits of the match register
  in the timer's \<^verbatim>\<open>MCR\<close>; the fields of the other timers, of the other match registers and all
  other storage registers are kept.\<close>

theorem timer_fields:
  assumes "config_regs D A" and "a \<in> A" and "options < 8"
  shows "peek D a (rflpc_timer_set_irq_on_match D timer mr options (rflpc_timer_set_clock D timer q d)) =
    (let w = (if a = SC_PCLKSEL0 \<and> timer_val timer < 2
              then put_field (peek D a d) (2 * (timer_val timer + 1)) (divider_val q) 2
              else if a = SC_PCLKSEL1 \<and> timer_val timer \<in> {2, 3}
              then put_field (peek D a d) (2 * (timer_val timer + 4)) (divider_val q) 2
              else peek D a d)
     in if a = TIM_MCR (rflpc_timer_base timer) then put_field w (3 * match_val mr) options 3 else w)"
  unfolding config_regs.peek_timer_match [OF assms] config_regs.peek_timer_set_clock [OF assms(1,2)]
  by (cases timer) simp_all

lemma timer_fields_witness:
  "get_field (rflpc_timer_set_irq_on_match mem_device RFLPC_TIMER2 RFLPC_TIMER_MATCH1 3
     (rflpc_timer_set_clock mem_device RFLPC_TIMER2 RFLPC_CCLK (\<lambda>_. 0xFFFFFFFF)) SC_PCLKSEL1) 12 2 = 1"
  using timer_fields [OF mem.config_regs_axioms [of UNIV], of SC_PCLKSEL1 3 RFLPC_TIMER2
      RFLPC_TIMER_MATCH1 RFLPC_CCLK "\<lambda>_. 0xFFFFFFFF"]
  by (simp add: reg_addr base_defs get_put_field)

text \<open>A timer callback is installed in the entry of the timer's interrupt, and that line is enabled
  and no other.\<close>

theorem timer_callback:
  assumes "nvic D enabled" and "length ram_vec = 49" and "timer \<noteq> RFLPC_TIMER_PWM" and "i < 49"
  shows "(let (v, d') = rflpc_timer_set_callback D timer callback (ram_vec, d) in
    v ! i = (if int i = TIMER0_IRQn + int (timer_val timer) + 16 then callback else ram_vec ! i) \<and>
    enabled d' n = (enabled d n \<or> int n = TIMER0_IRQn + int (timer_val timer)))"
  using assms nvic.enable_line [OF assms(1), of "nat (TIMER0_IRQn + int (timer_val timer))"]
  by (cases timer) (auto simp: rflpc_timer_set_callback_def rflpc_irq_set_handler_def nth_list_update)

lemma timer_callback_witness:
  "fst (rflpc_timer_set_callback nvic_device RFLPC_TIMER1 0x1235 (replicate 49 0, \<lambda>_. 0)) ! 18 = 0x1235"
  using timer_callback [OF eight_words.nvic_axioms, of "replicate 49 0" RFLPC_TIMER1 18 "0x1235" "\<lambda>_. 0" 2]
  by (simp add: split_def Let_def)

text \<open>For the PWM timer the same function takes over the interrupt of UART0.\<close>

lemma pwm_callback_is_uart0:
  "rflpc_timer_set_callback D RFLPC_TIMER_PWM callback (ram_vec, d) =
    (rflpc_irq_set_handler UART0_IRQn callback ram_vec, rflpc_irq_enable D (nat UART0_IRQn) d)"
  by (simp add: rflpc_timer_set_callback_def)

end
