(* ===== verification/Gpio.thy ===== *)
theory Gpio
  imports Pinconf
begin

text \<open>
  \<^verbatim>\<open>rflpc17xx/drivers/gpio.c\<close> and \<^verbatim>\<open>leds.h\<close>: digital input and output by port and pin, and
  the four leds of the mbed board. What the port hardware does with the mask register is
  the locale \<open>gpio_port\<close>, after the user manual.
\<close>

definition gpio_ports :: "addr list" where
  "gpio_ports = [LPC_GPIO0_BASE, LPC_GPIO1_BASE, LPC_GPIO2_BASE, LPC_GPIO3_BASE, LPC_GPIO4_BASE]"

definition RFLPC_GPIO_BASE :: "rflpc_pin_t \<Rightarrow> addr" where
  "RFLPC_GPIO_BASE pin = gpio_ports ! RFLPC_PIN_GET_PORT pin"

definition rflpc_gpio_use_pin :: "'d device \<Rightarrow> rflpc_pin_t \<Rightarrow> rflpc_pin_mode_t \<Rightarrow> 'd \<Rightarrow> 'd" where
  "rflpc_gpio_use_pin D pin mode = rflpc_pin_set D pin 0 (pin_mode_val mode) False"

definition rflpc_gpio_set_pin :: "'d device \<Rightarrow> rflpc_pin_t \<Rightarrow> 'd \<Rightarrow> 'd" where
  "rflpc_gpio_set_pin D pin d =
     (let d = dev_wr D (GPIO_FIOMASK (RFLPC_GPIO_BASE pin)) (NOT (shl 1 (RFLPC_PIN_GET_PIN pin))) d;
          d = dev_wr D (GPIO_FIOSET (RFLPC_GPIO_BASE pin)) 0xFFFFFFFF d
      in d)"

definition rflpc_gpio_clr_pin :: "'d device \<Rightarrow> rflpc_pin_t \<Rightarrow> 'd \<Rightarrow> 'd" where
  "rflpc_gpio_clr_pin D pin d =
     (let d = dev_wr D (GPIO_FIOMASK (RFLPC_GPIO_BASE pin)) (NOT (shl 1 (RFLPC_PIN_GET_PIN pin))) d;
          d = dev_wr D (GPIO_FIOCLR (RFLPC_GPIO_BASE pin)) 0xFFFFFFFF d
      in d)"

definition rflpc_gpio_set_pins_from_mask :: "'d device \<Rightarrow> u8 \<Rightarrow> u32 \<Rightarrow> 'd \<Rightarrow> 'd" where
  "rflpc_gpio_set_pins_from_mask D gpio msk d =
     (let b = RFLPC_GPIO_BASE (RFLPC_PIN_MAKE gpio 0);
          d = dev_wr D (GPIO_FIOMASK b) (NOT msk) d;
          d = reg_or D (GPIO_FIOSET b) msk d
      in d)"

definition rflpc_gpio_clr_pins_from_mask :: "'d device \<Rightarrow> u8 \<Rightarrow> u32 \<Rightarrow> 'd \<Rightarrow> 'd" where
  "rflpc_gpio_clr_pins_from_mask D gpio msk d =
     (let b = RFLPC_GPIO_BASE (RFLPC_PIN_MAKE gpio 0);
          d = dev_wr D (GPIO_FIOMASK b) (NOT msk) d;
          d = reg_or D (GPIO_FIOCLR b) msk d
      in d)"

definition rflpc_gpio_set_pin_val :: "'d device \<Rightarrow> rflpc_pin_t \<Rightarrow> u32 \<Rightarrow> 'd \<Rightarrow> 'd" where
  "rflpc_gpio_set_pin_val D pin val d =
     (if val \<noteq> 0 then rflpc_gpio_set_pin D pin d else rflpc_gpio_clr_pin D pin d)"

definition rflpc_gpio_set_pin_mode_input ::
  "'d device \<Rightarrow> rflpc_pin_t \<Rightarrow> rflpc_pin_mode_t \<Rightarrow> 'd \<Rightarrow> 'd" where
  "rflpc_gpio_set_pin_mode_input D pin mode d =
     (let d = rflpc_gpio_use_pin D pin mode d;
          d = RFLPC_CLR_BIT D (GPIO_FIODIR (RFLPC_GPIO_BASE pin)) (RFLPC_PIN_GET_PIN pin) d
      in d)"

definition rflpc_gpio_set_pin_mode_output :: "'d device \<Rightarrow> rflpc_pin_t \<Rightarrow> u8 \<Rightarrow> 'd \<Rightarrow> 'd" where
  "rflpc_gpio_set_pin_mode_output D pin val d =
     (let d = rflpc_gpio_use_pin D pin RFLPC_PIN_MODE_RESISTOR_PULL_UP d;
          d = rflpc_gpio_set_pin_val D pin (ucast val) d;
          d = RFLPC_SET_BIT D (GPIO_FIODIR (RFLPC_GPIO_BASE pin)) (RFLPC_PIN_GET_PIN pin) d
      in d)"

definition rflpc_gpio_set_val :: "'d device \<Rightarrow> u8 \<Rightarrow> u32 \<Rightarrow> u32 \<Rightarrow> 'd \<Rightarrow> 'd" where
  "rflpc_gpio_set_val D gpio val msk d =
     (let b = RFLPC_GPIO_BASE (RFLPC_PIN_MAKE gpio 0);
          d = dev_wr D (GPIO_FIOMASK b) msk d;
          d = dev_wr D (GPIO_FIOPIN b) val d
      in d)"

definition rflpc_gpio_get_pin :: "'d device \<Rightarrow> rflpc_pin_t \<Rightarrow> 'd \<Rightarrow> u32 \<times> 'd" where
  "rflpc_gpio_get_pin D pin d =
     (let d = dev_wr D (GPIO_FIOMASK (RFLPC_GPIO_BASE pin)) (NOT (shl 1 (RFLPC_PIN_GET_PIN pin))) d;
          (x, d) = dev_rd D (GPIO_FIOPIN (RFLPC_GPIO_BASE pin)) d
      in (shr x (RFLPC_PIN_GET_PIN pin) AND 1, d))"

definition rflpc_gpio_get_val :: "'d device \<Rightarrow> u8 \<Rightarrow> 'd \<Rightarrow> u32 \<times> 'd" where
  "rflpc_gpio_get_val D gpio d =
     (let b = RFLPC_GPIO_BASE (RFLPC_PIN_MAKE gpio 0);
          d = dev_wr D (GPIO_FIOMASK b) 0 d
      in dev_rd D (GPIO_FIOPIN b) d)"

section \<open>The leds\<close>

definition RFLPC_LED_1_PIN :: rflpc_pin_t where "RFLPC_LED_1_PIN = RFLPC_PIN_MAKE 1 18"
definition RFLPC_LED_2_PIN :: rflpc_pin_t where "RFLPC_LED_2_PIN = RFLPC_PIN_MAKE 1 20"
definition RFLPC_LED_3_PIN :: rflpc_pin_t where "RFLPC_LED_3_PIN = RFLPC_PIN_MAKE 1 21"
definition RFLPC_LED_4_PIN :: rflpc_pin_t where "RFLPC_LED_4_PIN = RFLPC_PIN_MAKE 1 23"

definition RFLPC_LED_1 :: u32 where "RFLPC_LED_1 = shl 1 (RFLPC_PIN_GET_PIN RFLPC_LED_1_PIN)"
definition RFLPC_LED_2 :: u32 where "RFLPC_LED_2 = shl 1 (RFLPC_PIN_GET_PIN RFLPC_LED_2_PIN)"
definition RFLPC_LED_3 :: u32 where "RFLPC_LED_3 = shl 1 (RFLPC_PIN_GET_PIN RFLPC_LED_3_PIN)"
definition RFLPC_LED_4 :: u32 where "RFLPC_LED_4 = shl 1 (RFLPC_PIN_GET_PIN RFLPC_LED_4_PIN)"

definition led_port :: u8 where "led_port = of_nat (RFLPC_PIN_GET_PORT RFLPC_LED_1_PIN)"

definition rflpc_led_init :: "'d device \<Rightarrow> 'd \<Rightarrow> 'd" where
  "rflpc_led_init D d =
     (let d = rflpc_gpio_set_pin_mode_output D RFLPC_LED_1_PIN 0 d;
          d = rflpc_gpio_set_pin_mode_output D RFLPC_LED_2_PIN 0 d;
          d = rflpc_gpio_set_pin_mode_output D RFLPC_LED_3_PIN 0 d;
          d = rflpc_gpio_set_pin_mode_output D RFLPC_LED_4_PIN 0 d
      in d)"

definition rflpc_led_set :: "'d device \<Rightarrow> u32 \<Rightarrow> 'd \<Rightarrow> 'd" where
  "rflpc_led_set D l = rflpc_gpio_set_pins_from_mask D led_port l"

definition rflpc_led_clr :: "'d device \<Rightarrow> u32 \<Rightarrow> 'd \<Rightarrow> 'd" where
  "rflpc_led_clr D l = rflpc_gpio_clr_pins_from_mask D led_port l"

definition rflpc_led_val :: "'d device \<Rightarrow> u32 \<Rightarrow> 'd \<Rightarrow> 'd" where
  "rflpc_led_val D l =
     rflpc_gpio_set_val D led_port l (NOT (RFLPC_LED_1 OR RFLPC_LED_2 OR RFLPC_LED_3 OR RFLPC_LED_4))"

definition rflpc_led_binary_value :: "'d device \<Rightarrow> u8 \<Rightarrow> 'd \<Rightarrow> 'd" where
  "rflpc_led_binary_value D v d =
     (let leds = 0;
          leds = (if v AND 1 \<noteq> 0 then leds OR RFLPC_LED_4 else leds);
          leds = (if v AND 2 \<noteq> 0 then leds OR RFLPC_LED_3 else leds);
          leds = (if v AND 4 \<noteq> 0 then leds OR RFLPC_LED_2 else leds);
          leds = (if v AND 8 \<noteq> 0 then leds OR RFLPC_LED_1 else leds)
      in rflpc_led_val D leds d)"

lemma led_vals:
  "RFLPC_LED_1 = 0x40000" "RFLPC_LED_2 = 0x100000" "RFLPC_LED_3 = 0x200000" "RFLPC_LED_4 = 0x800000"
  "led_port = 1"
  by (simp_all add: RFLPC_LED_1_def RFLPC_LED_2_def RFLPC_LED_3_def RFLPC_LED_4_def led_port_def
      RFLPC_LED_1_PIN_def RFLPC_LED_2_PIN_def RFLPC_LED_3_PIN_def RFLPC_LED_4_PIN_def
      RFLPC_PIN_GET_PIN_def RFLPC_PIN_GET_PORT_def RFLPC_PIN_MAKE_def)

section \<open>A port\<close>

text \<open>
  The output latch, the mask and the levels on the pins of a port. A read of \<^verbatim>\<open>FIOPIN\<close> gives the
  levels of the pins whose mask bit is zero. A write to \<^verbatim>\<open>FIOSET\<close>, \<^verbatim>\<open>FIOCLR\<close> or \<^verbatim>\<open>FIOPIN\<close> acts on the
  pins whose mask bit is zero; a read of the port changes neither; no other register does.
\<close>

definition port_regs :: "addr \<Rightarrow> addr set" where
  "port_regs b = {GPIO_FIOMASK b, GPIO_FIOSET b, GPIO_FIOCLR b, GPIO_FIOPIN b}"

locale gpio_port =
  fixes D :: "'d device" and b :: addr
    and out :: "'d \<Rightarrow> u32" and msk :: "'d \<Rightarrow> u32" and pins :: "'d \<Rightarrow> u32"
  assumes mask_wr: "out (dev_wr D (GPIO_FIOMASK b) v d) = out d" "msk (dev_wr D (GPIO_FIOMASK b) v d) = v"
    and set_wr: "out (dev_wr D (GPIO_FIOSET b) v d) = out d OR (v AND NOT (msk d))"
    and clr_wr: "out (dev_wr D (GPIO_FIOCLR b) v d) = out d AND NOT (v AND NOT (msk d))"
    and pin_wr: "out (dev_wr D (GPIO_FIOPIN b) v d) = (out d AND msk d) OR (v AND NOT (msk d))"
    and pin_rd: "fst (dev_rd D (GPIO_FIOPIN b) d) = pins d AND NOT (msk d)"
    and pins_mask: "pins (dev_wr D (GPIO_FIOMASK b) v d) = pins d"
    and keep_rd: "out (snd (dev_rd D a d)) = out d" "msk (snd (dev_rd D a d)) = msk d"
    and keep_wr: "a \<notin> port_regs b \<Longrightarrow> out (dev_wr D a v d) = out d"
begin

lemma out_set_pin:
  "RFLPC_GPIO_BASE pin = b \<Longrightarrow> out (rflpc_gpio_set_pin D pin d) = out d OR shl 1 (RFLPC_PIN_GET_PIN pin)"
  unfolding rflpc_gpio_set_pin_def all_ones by (simp add: set_wr mask_wr)

lemma out_clr_pin:
  "RFLPC_GPIO_BASE pin = b \<Longrightarrow> out (rflpc_gpio_clr_pin D pin d) = out d AND NOT (shl 1 (RFLPC_PIN_GET_PIN pin))"
  unfolding rflpc_gpio_clr_pin_def all_ones by (simp add: clr_wr mask_wr)

text \<open>The read of \<^verbatim>\<open>FIOSET\<close> and \<^verbatim>\<open>FIOCLR\<close> in their read-modify-write does not matter: the mask hides
  every pin that was not asked for.\<close>

lemma out_set_pins:
  "RFLPC_GPIO_BASE (RFLPC_PIN_MAKE gpio 0) = b \<Longrightarrow>
    out (rflpc_gpio_set_pins_from_mask D gpio v d) = out d OR v"
  by (simp add: rflpc_gpio_set_pins_from_mask_def reg_or_def rmw_def split_def Let_def set_wr mask_wr keep_rd)

lemma out_clr_pins:
  "RFLPC_GPIO_BASE (RFLPC_PIN_MAKE gpio 0) = b \<Longrightarrow>
    out (rflpc_gpio_clr_pins_from_mask D gpio v d) = out d AND NOT v"
  by (simp add: rflpc_gpio_clr_pins_from_mask_def reg_or_def rmw_def split_def Let_def clr_wr mask_wr keep_rd)

lemma out_set_val:
  "RFLPC_GPIO_BASE (RFLPC_PIN_MAKE gpio 0) = b \<Longrightarrow>
    out (rflpc_gpio_set_val D gpio v m d) = (out d AND m) OR (v AND NOT m)"
  by (simp add: rflpc_gpio_set_val_def Let_def pin_wr mask_wr)

lemma get_pin_level:
  "RFLPC_GPIO_BASE pin = b \<Longrightarrow>
    fst (rflpc_gpio_get_pin D pin d) = of_bool (bit (pins d) (RFLPC_PIN_GET_PIN pin))"
  using pin_lt [of pin]
  unfolding rflpc_gpio_get_pin_def split_def Let_def fst_conv shr_and_one
  by (simp add: pin_rd mask_wr pins_mask bit_and_iff bit_rules)

lemma get_val_levels:
  "RFLPC_GPIO_BASE (RFLPC_PIN_MAKE gpio 0) = b \<Longrightarrow> fst (rflpc_gpio_get_val D gpio d) = pins d"
  by (simp add: rflpc_gpio_get_val_def Let_def pin_rd mask_wr pins_mask)

end

text \<open>A port whose pins follow its latch.\<close>

definition port_device :: "addr \<Rightarrow> (u32 \<times> u32) device" where
  "port_device b =
     \<lparr>dev_rd = (\<lambda>a (o', m). (if a = GPIO_FIOPIN b then o' AND NOT m
        else if a = GPIO_FIOSET b then o' else if a = GPIO_FIOMASK b then m else 0, (o', m))),
      dev_wr = (\<lambda>a v (o', m).
        if a = GPIO_FIOMASK b then (o', v)
        else if a = GPIO_FIOSET b then (o' OR (v AND NOT m), m)
        else if a = GPIO_FIOCLR b then (o' AND NOT (v AND NOT m), m)
        else if a = GPIO_FIOPIN b then ((o' AND m) OR (v AND NOT m), m)
        else (o', m)),
      cpsid_i = (\<lambda>d. d), cpsie_i = (\<lambda>d. d)\<rparr>"

interpretation latch_port: gpio_port "port_device b" b fst snd fst
  by unfold_locales (auto simp: port_device_def port_regs_def reg_addr split: prod.splits)

section \<open>Properties\<close>

text \<open>Writing digital outputs: setting or clearing a pin, or a mask of pins, or a value under a
  mask changes the latch of exactly those pins; in \<^verbatim>\<open>rflpc_gpio_set_val\<close> the pins of the mask are
  the ones kept. What the hardware returns for a read of \<^verbatim>\<open>FIOSET\<close> or \<^verbatim>\<open>FIOCLR\<close> does not matter.\<close>

theorem gpio_outputs:
  assumes "gpio_port D (RFLPC_GPIO_BASE pin) out msk pins"
    and "RFLPC_GPIO_BASE (RFLPC_PIN_MAKE gpio 0) = RFLPC_GPIO_BASE pin"
  shows "out (rflpc_gpio_set_pin_val D pin val d) =
      (if val \<noteq> 0 then out d OR shl 1 (RFLPC_PIN_GET_PIN pin)
       else out d AND NOT (shl 1 (RFLPC_PIN_GET_PIN pin))) \<and>
    out (rflpc_gpio_set_pins_from_mask D gpio v d) = out d OR v \<and>
    out (rflpc_gpio_clr_pins_from_mask D gpio v d) = out d AND NOT v \<and>
    out (rflpc_gpio_set_val D gpio v m d) = (out d AND m) OR (v AND NOT m) \<and>
    fst (rflpc_gpio_get_pin D pin d) = of_bool (bit (pins d) (RFLPC_PIN_GET_PIN pin))"
  using gpio_port.out_set_pin [OF assms(1) refl] gpio_port.out_clr_pin [OF assms(1) refl]
    gpio_port.out_set_pins [OF assms] gpio_port.out_clr_pins [OF assms] gpio_port.out_set_val [OF assms]
    gpio_port.get_pin_level [OF assms(1) refl]
  by (simp add: rflpc_gpio_set_pin_val_def)

lemma gpio_outputs_witness:
  "fst (rflpc_gpio_set_pins_from_mask (port_device LPC_GPIO1_BASE) 1 0x30 (3, 0xFF)) = 0x33"
proof -
  have "RFLPC_GPIO_BASE 0x32 = LPC_GPIO1_BASE" "RFLPC_GPIO_BASE (RFLPC_PIN_MAKE 1 0) = LPC_GPIO1_BASE"
    by (simp_all add: RFLPC_GPIO_BASE_def RFLPC_PIN_GET_PORT_def RFLPC_PIN_MAKE_def gpio_ports_def)
  then show ?thesis
    using gpio_outputs [of "port_device LPC_GPIO1_BASE" "0x32" fst snd fst 1 0 "(3, 0xFF)" "0x30"]
      latch_port.gpio_port_axioms [of LPC_GPIO1_BASE]
    by simp
qed

text \<open>A number shown on the leds: the four led pins take its four low bits, led 4 the lowest, and
  no other pin of the port changes.\<close>

theorem led_binary_value:
  assumes "gpio_port D LPC_GPIO1_BASE out msk pins"
  shows "bit (out (rflpc_led_binary_value D v d)) n =
    (if n = 23 then bit v 0 else if n = 21 then bit v 1 else if n = 20 then bit v 2
     else if n = 18 then bit v 3 else bit (out d) n)"
proof -
  have b: "RFLPC_GPIO_BASE (RFLPC_PIN_MAKE led_port 0) = LPC_GPIO1_BASE"
    by (simp add: RFLPC_GPIO_BASE_def RFLPC_PIN_GET_PORT_def RFLPC_PIN_MAKE_def gpio_ports_def led_vals)
  have bits: "v AND 1 = 0 \<longleftrightarrow> \<not> bit v 0" "v AND 2 = 0 \<longleftrightarrow> \<not> bit v 1" "v AND 4 = 0 \<longleftrightarrow> \<not> bit v 2"
    "v AND 8 = 0 \<longleftrightarrow> \<not> bit v 3"
    using and_two_power_eq_zero [of v 0] and_two_power_eq_zero [of v 1] and_two_power_eq_zero [of v 2]
      and_two_power_eq_zero [of v 3] by simp_all
  have leds: "RFLPC_LED_1 = shl 1 18" "RFLPC_LED_2 = shl 1 20" "RFLPC_LED_3 = shl 1 21" "RFLPC_LED_4 = shl 1 23"
    by (simp_all add: led_vals)
  have if_or: "(if c then w OR x else w) = w OR (if c then x else 0)" for c and w x :: u32 by simp
  have bit_if: "bit (if c then shl 1 k else 0 :: u32) n \<longleftrightarrow> c \<and> n = k" if "k < 32" for c k
    using that by (auto simp: bit_rules)
  have one: "bit (shl 1 k :: u32) n \<longleftrightarrow> n = k" if "k < 32" for k
    using that by (auto simp: bit_rules)
  show ?thesis
    unfolding rflpc_led_binary_value_def rflpc_led_val_def Let_def gpio_port.out_set_val [OF assms b] leds bits
      if_or bit_or_iff bit_and_iff bit_not_iff
    using bit_imp_le_length [of "out d" n]
    by (simp only: bit_if one) (auto simp: bit_rules)
qed

lemma led_binary_value_witness:
  "bit (fst (rflpc_led_binary_value (port_device LPC_GPIO1_BASE) 8 (0, 0))) 18"
  using led_binary_value [OF latch_port.gpio_port_axioms, of 8 "(0, 0)" 18] by simp

end
