(* ===== verification/Uart.thy ===== *)
theory Uart
  imports Pinconf Clock Printf
begin

text \<open>
  \<^verbatim>\<open>rflpc17xx/drivers/uart.c\<close>: initialising a UART, sending and receiving a byte, the receive
  interrupt. A UART number is the integer behind \<^verbatim>\<open>rflpc_uart_t\<close>. The block itself, whose
  first two registers change meaning with bit 7 of \<^verbatim>\<open>LCR\<close>, is the locale \<open>uart_block\<close>.
\<close>

definition RFLPC_UART0 :: nat where "RFLPC_UART0 = 0"
definition RFLPC_UART2 :: nat where "RFLPC_UART2 = 2"
definition RFLPC_UART3 :: nat where "RFLPC_UART3 = 3"

record uart_pin_conf =
  tx_pin :: rflpc_pin_t
  rx_pin :: rflpc_pin_t
  pin_function :: u32
  base_address :: addr

definition rflpc_uart_config :: "uart_pin_conf list" where
  "rflpc_uart_config =
     [\<lparr>tx_pin = RFLPC_PIN_MAKE 0 2, rx_pin = RFLPC_PIN_MAKE 0 3, pin_function = 1,
       base_address = LPC_UART0_BASE\<rparr>,
      \<lparr>tx_pin = 0, rx_pin = 0, pin_function = 0, base_address = 0\<rparr>,
      \<lparr>tx_pin = 10, rx_pin = 11, pin_function = 1, base_address = LPC_UART2_BASE\<rparr>,
      \<lparr>tx_pin = 0, rx_pin = 1, pin_function = 2, base_address = LPC_UART3_BASE\<rparr>]"

definition BASE_ADDR :: "nat \<Rightarrow> addr" where
  "BASE_ADDR n = base_address (rflpc_uart_config ! n)"

definition rflpc_uart_putchar :: "'d device \<Rightarrow> nat \<Rightarrow> u8 \<Rightarrow> 'd \<Rightarrow> 'd option" where
  "rflpc_uart_putchar D uart_num c d =
     (case poll D (UART_LSR (BASE_ADDR uart_num)) (\<lambda>x. x AND shl 1 5 \<noteq> 0) d of
        None \<Rightarrow> None
      | Some (_, d) \<Rightarrow> Some (wr8 D (UART_THR (BASE_ADDR uart_num)) c d))"

definition rflpc_uart_byte_available :: "'d device \<Rightarrow> nat \<Rightarrow> 'd \<Rightarrow> u32 \<times> 'd" where
  "rflpc_uart_byte_available D uart_num d =
     (let (x, d) = dev_rd D (UART_LSR (BASE_ADDR uart_num)) d in (x AND 1, d))"

definition rflpc_uart_getchar :: "'d device \<Rightarrow> nat \<Rightarrow> 'd \<Rightarrow> (u8 \<times> 'd) option" where
  "rflpc_uart_getchar D uart_num d =
     (case poll D (UART_LSR (BASE_ADDR uart_num)) (\<lambda>x. x AND 1 \<noteq> 0) d of
        None \<Rightarrow> None
      | Some (_, d) \<Rightarrow> Some (rd8 D (UART_RBR (BASE_ADDR uart_num)) d))"

text \<open>\<^verbatim>\<open>_rflpc_uart_init\<close>; the static function always returns 0.\<close>

definition uart_setup ::
  "'d device \<Rightarrow> uart_pin_conf \<Rightarrow> u32 \<Rightarrow> u32 \<Rightarrow> u32 \<Rightarrow> u32 \<Rightarrow> 'd \<Rightarrow> int \<times> 'd" where
  "uart_setup D uart dll dlm divadd mulval d =
     (let b = base_address uart;
          d = wr8 D (UART_LCR b) (3 OR shl 1 7) d;
          d = wr8 D (UART_DLL b) (ucast dll) d;
          d = wr8 D (UART_DLM b) (ucast dlm) d;
          d = wr8 D (UART_FDR b) (ucast (divadd OR shl mulval 4)) d;
          d = wr8 D (UART_FCR b) 7 d;
          d = rflpc_pin_set D (rx_pin uart) (pin_function uart) 0 False d;
          d = rflpc_pin_set D (tx_pin uart) (pin_function uart) 0 False d;
          (x, d) = rd8 D (UART_LCR b) d;
          d = wr8 D (UART_LCR b) (x AND NOT (shl 1 7)) d
      in (0, d))"

definition rflpc_uart_init_ex ::
  "'d device \<Rightarrow> u32 \<Rightarrow> nat \<Rightarrow> u32 \<Rightarrow> u32 \<Rightarrow> u32 \<Rightarrow> u32 \<Rightarrow> 'd \<Rightarrow> int \<times> 'd" where
  "rflpc_uart_init_ex D system_clock uart_num dll dlm divadd mulval d =
     (if rflpc_clock_get_system_clock system_clock \<noteq> 96000000 then (- 1, d)
      else if uart_num = RFLPC_UART0 then
        let d = reg_or D SC_PCONP (shl 1 3) d;
            d = reg_or D SC_PCLKSEL0 (shl (divider_val RFLPC_CCLK_8) 6) d
        in uart_setup D (rflpc_uart_config ! uart_num) dll dlm divadd mulval d
      else if uart_num = RFLPC_UART2 then
        let d = reg_or D SC_PCONP (shl 1 24) d;
            d = reg_or D SC_PCLKSEL1 (shl (divider_val RFLPC_CCLK_8) 16) d
        in uart_setup D (rflpc_uart_config ! uart_num) dll dlm divadd mulval d
      else if uart_num = RFLPC_UART3 then
        let d = reg_or D SC_PCONP (shl 1 25) d;
            d = reg_or D SC_PCLKSEL1 (shl (divider_val RFLPC_CCLK_8) 18) d
        in uart_setup D (rflpc_uart_config ! uart_num) dll dlm divadd mulval d
      else (- 1, d))"

definition rflpc_uart_init :: "'d device \<Rightarrow> u32 \<Rightarrow> nat \<Rightarrow> 'd \<Rightarrow> int \<times> 'd" where
  "rflpc_uart_init D system_clock uart_num = rflpc_uart_init_ex D system_clock uart_num 4 0 5 8"

text \<open>The assertion \<^verbatim>\<open>uart_num != 1\<close> stops the device for good when it fails: \<^const>\<open>None\<close>.\<close>

definition rflpc_uart_set_rx_callback ::
  "'d device \<Rightarrow> nat \<Rightarrow> u32 \<Rightarrow> u32 list \<times> 'd \<Rightarrow> (u32 list \<times> 'd) option" where
  "rflpc_uart_set_rx_callback D uart_num callback st =
     (if uart_num = 1 then None
      else
        (let (ram_vec, d) = st;
             ram_vec = rflpc_irq_set_handler (UART0_IRQn + int uart_num) callback ram_vec;
             d = rflpc_irq_enable D (nat (UART0_IRQn + int uart_num)) d;
             d = reg_or D (UART_IER (BASE_ADDR uart_num)) 1 d
         in Some (ram_vec, d)))"

section \<open>The block\<close>

record uart_state =
  lcr :: u8
  dll :: u8
  dlm :: u8
  fdr :: u8
  ier :: u32
  rx_fifo :: "u8 list"
  sent :: "u8 list"

text \<open>
  After the user manual: with bit 7 of \<^verbatim>\<open>LCR\<close> set the first two registers are the divisor
  latches, otherwise a write to the first sends a byte and a read takes the next received
  one. \<^verbatim>\<open>LSR\<close> has bit 0 set when a byte is there; \<^verbatim>\<open>FCR\<close> with bit 1 clears the receive FIFO.
\<close>

lemma setup_returns: "fst (uart_setup D uart l h divadd mulval d) = 0"
  by (simp add: uart_setup_def Let_def split_def)

locale uart_block =
  fixes D :: "'d device" and b :: addr and U :: "'d \<Rightarrow> uart_state"
  assumes wr_lcr: "U (dev_wr D (UART_LCR b) v d) = (U d)\<lparr>lcr := ucast v\<rparr>"
    and wr_first: "U (dev_wr D (UART_THR b) v d) =
        (if bit (lcr (U d)) 7 then (U d)\<lparr>dll := ucast v\<rparr> else (U d)\<lparr>sent := sent (U d) @ [ucast v]\<rparr>)"
    and wr_second: "U (dev_wr D (UART_DLM b) v d) =
        (if bit (lcr (U d)) 7 then (U d)\<lparr>dlm := ucast v\<rparr> else (U d)\<lparr>ier := v\<rparr>)"
    and wr_fdr: "U (dev_wr D (UART_FDR b) v d) = (U d)\<lparr>fdr := ucast v\<rparr>"
    and wr_fcr: "U (dev_wr D (UART_FCR b) v d) = (U d)\<lparr>rx_fifo := (if bit v 1 then [] else rx_fifo (U d))\<rparr>"
    and rd_lcr: "fst (dev_rd D (UART_LCR b) d) = ucast (lcr (U d))"
    and rd_lsr: "bit (fst (dev_rd D (UART_LSR b) d)) 0 = (rx_fifo (U d) \<noteq> [])"
    and rd_rbr: "\<not> bit (lcr (U d)) 7 \<Longrightarrow> rx_fifo (U d) = c # cs \<Longrightarrow>
        fst (dev_rd D (UART_RBR b) d) = ucast c \<and> U (snd (dev_rd D (UART_RBR b) d)) = (U d)\<lparr>rx_fifo := cs\<rparr>"
    and rd_other: "a \<noteq> UART_RBR b \<Longrightarrow> U (snd (dev_rd D a d)) = U d"
    and wr_other: "a \<notin> {UART_LCR b, UART_THR b, UART_DLM b, UART_FDR b, UART_FCR b} \<Longrightarrow>
        U (dev_wr D a v d) = U d"
begin

lemma reg_or_other: 
  "a \<notin> {UART_RBR b, UART_LCR b, UART_THR b, UART_DLM b, UART_FDR b, UART_FCR b} \<Longrightarrow> U (reg_or D a v d) = U d"
  "a \<notin> {UART_RBR b, UART_LCR b, UART_THR b, UART_DLM b, UART_FDR b, UART_FCR b} \<Longrightarrow> U (reg_and D a v d) = U d"
  by (simp_all add: reg_or_def reg_and_def rmw_def split_def Let_def wr_other rd_other)

lemma putchar_sends:
  assumes "b = BASE_ADDR n" and "rflpc_uart_putchar D n c d = Some d'" and "\<not> bit (lcr (U d)) 7"
  shows "U d' = (U d)\<lparr>sent := sent (U d) @ [c]\<rparr>"
proof -
  have ne: "UART_LSR b \<noteq> UART_RBR b" by (simp add: reg_addr)
  obtain x e where e: "poll D (UART_LSR b) (\<lambda>x. x AND shl 1 5 \<noteq> 0) d = Some (x, e)"
    "d' = wr8 D (UART_THR b) c e"
    using assms by (auto simp: rflpc_uart_putchar_def split: option.splits)
  have "U e = U d"
    using poll_invariant [of "\<lambda>e. U e = U d", OF _ _ e(1)] rd_other [OF ne] by simp
  then show ?thesis
    using assms(3) e(2) by (simp add: wr8_def wr_first)
qed

lemma getchar_takes:
  assumes "b = BASE_ADDR n" and "rflpc_uart_getchar D n d = Some (c, d')" and "\<not> bit (lcr (U d)) 7"
  shows "\<exists>cs. rx_fifo (U d) = c # cs \<and> U d' = (U d)\<lparr>rx_fifo := cs\<rparr>"
proof -
  have ne: "UART_LSR b \<noteq> UART_RBR b" by (simp add: reg_addr)
  obtain x e where e: "poll D (UART_LSR b) (\<lambda>x. x AND 1 \<noteq> 0) d = Some (x, e)"
    "(c, d') = rd8 D (UART_RBR b) e"
    using assms by (auto simp: rflpc_uart_getchar_def split: option.splits)
  obtain e0 where e0: "U e0 = U d" "dev_rd D (UART_LSR b) e0 = (x, e)" "x AND 1 \<noteq> 0"
    using poll_last [of "\<lambda>e. U e = U d", OF _ _ e(1)] rd_other [OF ne] by auto
  have "bit x 0" using e0(3) and_two_power_eq_zero [of x 0] by simp
  then have "rx_fifo (U d) \<noteq> []" using rd_lsr [of e0] e0 by simp
  moreover have "U e = U d" using rd_other [OF ne, of e0] e0 by simp
  ultimately obtain c' cs where "rx_fifo (U e) = c' # cs" "\<not> bit (lcr (U e)) 7"
    using assms(3) by (cases "rx_fifo (U d)") auto
  then show ?thesis
    using rd_rbr [of e c' cs] e(2) \<open>U e = U d\<close> by (auto simp: rd8_def split_def)
qed

lemma pin_set_keeps:
  assumes "b \<in> {LPC_UART0_BASE, LPC_UART2_BASE, LPC_UART3_BASE}" and "p < 16"
  shows "U (rflpc_pin_set D p f m opendrain d) = U d"
proof -
  have "RFLPC_PIN_GET_PORT p = 0" "RFLPC_PIN_GET_PIN p = unat p"
    using assms(2) unfolding RFLPC_PIN_GET_PORT_def RFLPC_PIN_GET_PIN_def numeral_masks unat_and_mask unat_shr
    by (simp_all add: word_less_nat_alt)
  then have "PINSEL_of p = 0x4002C000" "PINMODE_of p = 0x4002C040" "PINMODE_OD_of p = 0x4002C068"
    using assms(2)
    by (simp_all add: PINSEL_of_def PINMODE_of_def PINMODE_OD_of_def pin_half_def word_at_def reg_addr
        word_less_nat_alt)
  then show ?thesis
    using assms(1)
    by (auto simp: rflpc_pin_set_regs Let_def reg_or_other reg_addr base_defs)
qed

text \<open>The first register has two more names.\<close>

lemma first_register: "UART_DLL b = UART_THR b" "UART_RBR b = UART_THR b" "UART_IER b = UART_DLM b"
  by (simp_all add: reg_addr)

lemma setup_state:
  assumes "b \<in> {LPC_UART0_BASE, LPC_UART2_BASE, LPC_UART3_BASE}" and "base_address uart = b"
    and "rx_pin uart < 16" and "tx_pin uart < 16"
  shows "U (snd (uart_setup D uart l h divadd mulval d)) =
    (U d)\<lparr>lcr := 3, dll := ucast l, dlm := ucast h, fdr := ucast (divadd OR shl mulval 4), rx_fifo := []\<rparr>"
proof -
  have "(ucast (ucast (ucast (0x83 :: u32) :: u8) :: u32) AND NOT (shl 1 7) :: u32) = 3" by simp
  moreover have "U (snd (dev_rd D (UART_LCR b) e)) = U e" for e by (rule rd_other) (simp add: reg_addr)
  ultimately show ?thesis
    using assms wr_first wr_second
    by (simp add: uart_setup_def Let_def split_def rd8_def wr8_def wr_lcr wr_fdr wr_fcr rd_lcr
        first_register pin_set_keeps)
qed

lemma init_ex_state:
  assumes "n \<in> {0, 2, 3}" and "b = BASE_ADDR n"
  shows "fst (rflpc_uart_init_ex D 96000000 n l h divadd mulval d) = 0 \<and>
    U (snd (rflpc_uart_init_ex D 96000000 n l h divadd mulval d)) =
      (U d)\<lparr>lcr := 3, dll := ucast l, dlm := ucast h, fdr := ucast (divadd OR shl mulval 4), rx_fifo := []\<rparr>"
proof -
  have b: "b \<in> {LPC_UART0_BASE, LPC_UART2_BASE, LPC_UART3_BASE}"
    using assms by (auto simp: BASE_ADDR_def rflpc_uart_config_def)
  have "rx_pin (rflpc_uart_config ! n) < 16" "tx_pin (rflpc_uart_config ! n) < 16"
    "base_address (rflpc_uart_config ! n) = b"
    using assms by (auto simp: BASE_ADDR_def rflpc_uart_config_def RFLPC_PIN_MAKE_def)
  note conf = setup_state [OF b this(3,1,2)]
  have sc: "U (reg_or D SC_PCONP v e) = U e" "U (reg_or D SC_PCLKSEL0 v e) = U e"
    "U (reg_or D SC_PCLKSEL1 v e) = U e" for v e
    using b by (auto simp: reg_or_other reg_addr base_defs)
  show ?thesis
    using assms(1) conf
    by (auto simp: rflpc_uart_init_ex_def rflpc_clock_get_system_clock_def RFLPC_UART0_def RFLPC_UART2_def
        RFLPC_UART3_def setup_returns sc Let_def)
qed

end

section \<open>A model of the block\<close>

definition uart_device :: "addr \<Rightarrow> uart_state device" where
  "uart_device b =
     \<lparr>dev_rd = (\<lambda>a u.
        if a = UART_LCR b then (ucast (lcr u), u)
        else if a = UART_LSR b then (0x60 OR of_bool (rx_fifo u \<noteq> []), u)
        else if a = UART_RBR b \<and> \<not> bit (lcr u) 7 then
          (case rx_fifo u of [] \<Rightarrow> (0, u) | c # cs \<Rightarrow> (ucast c, u\<lparr>rx_fifo := cs\<rparr>))
        else (0, u)),
      dev_wr = (\<lambda>a v u.
        if a = UART_LCR b then u\<lparr>lcr := ucast v\<rparr>
        else if a = UART_THR b then
          (if bit (lcr u) 7 then u\<lparr>dll := ucast v\<rparr> else u\<lparr>sent := sent u @ [ucast v]\<rparr>)
        else if a = UART_DLM b then (if bit (lcr u) 7 then u\<lparr>dlm := ucast v\<rparr> else u\<lparr>ier := v\<rparr>)
        else if a = UART_FDR b then u\<lparr>fdr := ucast v\<rparr>
        else if a = UART_FCR b then u\<lparr>rx_fifo := (if bit v 1 then [] else rx_fifo u)\<rparr>
        else u),
      cpsid_i = (\<lambda>u. u), cpsie_i = (\<lambda>u. u)\<rparr>"

interpretation model_uart: uart_block "uart_device b" b "\<lambda>u. u"
  by unfold_locales (auto simp: uart_device_def reg_addr bit_or_iff split: list.splits)

section \<open>A sink of characters\<close>

text \<open>What printf's output function promises, from the states it works in: it appends the low byte
  of its argument to what has been sent, and stays in such a state.\<close>

locale char_sink =
  fixes putc :: "nat \<Rightarrow> 's \<Rightarrow> 's" and chars :: "'s \<Rightarrow> u8 list" and ok :: "'s \<Rightarrow> bool"
  assumes putc_appends: "ok s \<Longrightarrow> chars (putc c s) = chars s @ [of_nat c]"
    and putc_ok: "ok s \<Longrightarrow> ok (putc c s)"
begin

lemma fold_appends: "ok s \<Longrightarrow> ok (fold putc cs s) \<and> chars (fold putc cs s) = chars s @ map of_nat cs"
  by (induction cs arbitrary: s) (simp_all add: putc_appends putc_ok)

text \<open>Printing appends the rendered items.\<close>

lemma printf_appends:
  assumes "ok s" and "\<forall>it \<in> set its. item_ok it"
  shows "\<exists>s'. printf putc (\<lambda>s. s) (\<lambda>s. s) str_at (concat (map item_fmt its)) (concat (map item_args its)) s =
      Some (length (render str_at 4 its), s') \<and> ok s' \<and>
    chars s' = chars s @ map of_nat (render str_at 4 its)"
  using assms fold_appends [OF assms(1)] by (simp add: printf_def printf_items emit_eq)

end

text \<open>\<^verbatim>\<open>_rflpc_default_putchar\<close>: the output function of \<^verbatim>\<open>printf.c\<close> until another one is set. Its
  state is \<^const>\<open>None\<close> once a call has not returned.\<close>

definition rflpc_default_putchar :: "'d device \<Rightarrow> nat \<Rightarrow> 'd option \<Rightarrow> 'd option" where
  "rflpc_default_putchar D c od =
     (case od of None \<Rightarrow> None | Some d \<Rightarrow> rflpc_uart_putchar D RFLPC_UART0 (of_nat c) d)"

text \<open>The states in which the UART sends, and what it has sent.\<close>

definition sending :: "('d \<Rightarrow> uart_state) \<Rightarrow> 'd option \<Rightarrow> bool" where
  "sending U od = (case od of None \<Rightarrow> False | Some d \<Rightarrow> \<not> bit (lcr (U d)) 7)"

definition sent_chars :: "('d \<Rightarrow> uart_state) \<Rightarrow> 'd option \<Rightarrow> u8 list" where
  "sent_chars U od = (case od of None \<Rightarrow> [] | Some d \<Rightarrow> sent (U d))"

text \<open>A UART 0 whose transmitter always gets ready again is such a sink.\<close>

locale uart0_ready = uart_block +
  assumes uart0: "b = LPC_UART0_BASE"
    and ready: "\<exists>k. bit (peek D (UART_LSR b) (after_reads D (UART_LSR b) k d)) 5"
begin

lemma base0: "BASE_ADDR RFLPC_UART0 = b"
  by (simp add: uart0 BASE_ADDR_def RFLPC_UART0_def rflpc_uart_config_def)

lemma putchar_returns: "\<exists>d'. rflpc_uart_putchar D RFLPC_UART0 c d = Some d'"
proof -
  have "x AND shl 1 5 \<noteq> 0 \<longleftrightarrow> bit x 5" for x :: u32
    using and_two_power_eq_zero [of x 5] by simp
  then have "(\<lambda>x :: u32. x AND shl 1 5 \<noteq> 0) = (\<lambda>x. bit x 5)" by blast
  moreover obtain x d' where "poll D (UART_LSR b) (\<lambda>x. bit x 5) d = Some (x, d')"
    using ready [of d] poll_terminates [of "\<lambda>x. bit x 5" D "UART_LSR b"] by blast
  ultimately show ?thesis by (simp add: rflpc_uart_putchar_def base0)
qed

end

sublocale uart0_ready \<subseteq> uart: char_sink "rflpc_default_putchar D" "sent_chars U" "sending U"
proof
  fix od c assume "sending U od"
  then obtain d where d: "od = Some d" "\<not> bit (lcr (U d)) 7"
    by (auto simp: sending_def split: option.splits)
  obtain d' where d': "rflpc_uart_putchar D RFLPC_UART0 (of_nat c) d = Some d'"
    using putchar_returns by blast
  note U = putchar_sends [OF base0 [symmetric] d' d(2)]
  show "sent_chars U (rflpc_default_putchar D c od) = sent_chars U od @ [of_nat c]"
    using d' U by (simp add: rflpc_default_putchar_def sent_chars_def d)
  show "sending U (rflpc_default_putchar D c od)"
    using d' U d by (simp add: rflpc_default_putchar_def sending_def d)
qed

context uart0_ready
begin

lemma printf_sends:
  assumes "\<not> bit (lcr (U d)) 7" and "\<forall>it \<in> set its. item_ok it"
  shows "\<exists>d'. printf (rflpc_default_putchar D) (\<lambda>s. s) (\<lambda>s. s) str_at (concat (map item_fmt its))
      (concat (map item_args its)) (Some d) = Some (length (render str_at 4 its), Some d') \<and>
    sent (U d') = sent (U d) @ map of_nat (render str_at 4 its)"
proof -
  have "sending U (Some d)" using assms(1) by (simp add: sending_def)
  from uart.printf_appends [OF this assms(2), of str_at] obtain s' where
    s': "printf (rflpc_default_putchar D) (\<lambda>s. s) (\<lambda>s. s) str_at (concat (map item_fmt its))
        (concat (map item_args its)) (Some d) = Some (length (render str_at 4 its), s')"
      "sending U s'" "sent_chars U s' = sent_chars U (Some d) @ map of_nat (render str_at 4 its)"
    by blast
  then show ?thesis by (cases s') (simp_all add: sending_def sent_chars_def)
qed

end

interpretation model_uart0: uart0_ready "uart_device LPC_UART0_BASE" LPC_UART0_BASE "\<lambda>u. u"
proof
  fix d
  have "bit (peek (uart_device LPC_UART0_BASE) (UART_LSR LPC_UART0_BASE)
      (after_reads (uart_device LPC_UART0_BASE) (UART_LSR LPC_UART0_BASE) 0 d)) 5"
    by (simp add: uart_device_def peek_def reg_addr bit_or_iff)
  then show "\<exists>k. bit (peek (uart_device LPC_UART0_BASE) (UART_LSR LPC_UART0_BASE)
      (after_reads (uart_device LPC_UART0_BASE) (UART_LSR LPC_UART0_BASE) k d)) 5" ..
qed simp

section \<open>Properties\<close>

text \<open>Initialising a UART at 96 MHz returns 0 and leaves it at 8 bits, no parity, one stop bit,
  with the latches and the fractional divider asked for, the latch access bit off again, the
  receive FIFO empty and nothing sent on the way; at any other clock, and for UART 1, it
  returns -1 and touches no register.\<close>

theorem uart_init_block:
  assumes "uart_block D (BASE_ADDR n) U" and "n \<in> {0, 2, 3}"
  shows "(let (ret, d') = rflpc_uart_init_ex D clk n l h divadd mulval d in
    if clk = 96000000
    then ret = 0 \<and> U d' = (U d)\<lparr>lcr := 3, dll := ucast l, dlm := ucast h,
        fdr := ucast (divadd OR shl mulval 4), rx_fifo := []\<rparr>
    else ret = - 1 \<and> d' = d) \<and>
    rflpc_uart_init_ex D clk 1 l h divadd mulval d = (- 1, d)"
  using uart_block.init_ex_state [OF assms(1,2) refl]
  by (auto simp: split_def Let_def rflpc_uart_init_ex_def rflpc_clock_get_system_clock_def RFLPC_UART0_def
      RFLPC_UART2_def RFLPC_UART3_def)

lemma uart_init_block_witness:
  "dll (snd (rflpc_uart_init_ex (uart_device LPC_UART0_BASE) 96000000 0 4 0 5 8
     \<lparr>lcr = 0, dll = 1, dlm = 0, fdr = 0x10, ier = 0, rx_fifo = [1], sent = []\<rparr>)) = 4"
proof -
  have "BASE_ADDR 0 = LPC_UART0_BASE" by (simp add: BASE_ADDR_def rflpc_uart_config_def)
  then show ?thesis
    using uart_init_block [of "uart_device LPC_UART0_BASE" 0 "\<lambda>u. u" 96000000 4 0 5 8
        "\<lparr>lcr = 0, dll = 1, dlm = 0, fdr = 0x10, ier = 0, rx_fifo = [1], sent = []\<rparr>"]
      model_uart.uart_block_axioms [of LPC_UART0_BASE]
    by (simp add: split_def Let_def)
qed

text \<open>Characters go through: a call of \<^verbatim>\<open>rflpc_uart_putchar\<close> that returns has sent that byte and
  nothing else, a call of \<^verbatim>\<open>rflpc_uart_getchar\<close> that returns has taken the oldest received byte.\<close>

theorem uart_transfers:
  assumes "uart_block D (BASE_ADDR n) U" and "\<not> bit (lcr (U d)) 7"
    and "rflpc_uart_putchar D n c d = Some d1" and "rflpc_uart_getchar D n d1 = Some (r, d2)"
  shows "sent (U d2) = sent (U d) @ [c] \<and> rx_fifo (U d) = r # rx_fifo (U d2)"
proof -
  have U: "U d1 = (U d)\<lparr>sent := sent (U d) @ [c]\<rparr>"
    using uart_block.putchar_sends [OF assms(1) refl assms(3,2)] .
  then show ?thesis
    using uart_block.getchar_takes [OF assms(1) refl assms(4)] assms(2) by auto
qed

lemma uart_transfers_witness:
  "(let d = \<lparr>lcr = 3, dll = 4, dlm = 0, fdr = 0x85, ier = 0, rx_fifo = [65, 66], sent = []\<rparr>;
        d2 = d\<lparr>rx_fifo := [66], sent := [72]\<rparr> in
    sent d2 = sent d @ [72] \<and> rx_fifo d = 65 # rx_fifo d2)"
proof -
  let ?d = "\<lparr>lcr = 3, dll = 4, dlm = 0, fdr = 0x85, ier = 0, rx_fifo = [65, 66], sent = []\<rparr>"
  let ?D = "uart_device LPC_UART0_BASE"
  have b: "BASE_ADDR 0 = LPC_UART0_BASE" by (simp add: BASE_ADDR_def rflpc_uart_config_def)
  have p: "rflpc_uart_putchar ?D 0 72 ?d = Some (?d\<lparr>sent := [72]\<rparr>)"
    by (subst rflpc_uart_putchar_def, subst poll.simps)
      (simp add: uart_device_def b reg_addr wr8_def bit_or_iff)
  have g: "rflpc_uart_getchar ?D 0 (?d\<lparr>sent := [72]\<rparr>) = Some (65, ?d\<lparr>sent := [72], rx_fifo := [66]\<rparr>)"
    by (subst rflpc_uart_getchar_def, subst poll.simps)
      (simp add: uart_device_def b reg_addr rd8_def bit_or_iff)
  show ?thesis
    using uart_transfers [OF _ _ p g] model_uart.uart_block_axioms [of LPC_UART0_BASE] b by simp
qed

text \<open>printf on the serial line: on a UART 0 whose transmitter always gets ready again, \<^verbatim>\<open>printf\<close>
  returns, and has sent exactly the characters its format and arguments mean.\<close>

theorem printf_on_uart:
  assumes "uart0_ready D b U" and "\<not> bit (lcr (U d)) 7" and "\<forall>it \<in> set its. item_ok it"
  shows "\<exists>d'. printf (rflpc_default_putchar D) (\<lambda>s. s) (\<lambda>s. s) str_at (concat (map item_fmt its))
      (concat (map item_args its)) (Some d) = Some (length (render str_at 4 its), Some d') \<and>
    sent (U d') = sent (U d) @ map of_nat (render str_at 4 its)"
  by (rule uart0_ready.printf_sends [OF assms])

lemma printf_on_uart_witness:
  "\<exists>d'. printf (rflpc_default_putchar (uart_device LPC_UART0_BASE)) (\<lambda>s. s) (\<lambda>s. s) (\<lambda>_. []) ''n=%u'' [7]
     (Some \<lparr>lcr = 3, dll = 4, dlm = 0, fdr = 0x85, ier = 0, rx_fifo = [], sent = []\<rparr>) = Some (3, Some d') \<and>
   sent d' = [110, 61, 55]"
proof -
  have "digits 10 7 = [7]" by (simp add: digits.simps)
  then show ?thesis
    using printf_on_uart [OF model_uart0.uart0_ready_axioms, of
        "\<lparr>lcr = 3, dll = 4, dlm = 0, fdr = 0x85, ier = 0, rx_fifo = [], sent = []\<rparr>"
        "[Lit CHR ''n'', Lit CHR ''='', Uns 7]" "\<lambda>_. []"]
    by (simp add: dec_chars_def item_bytes_def numeral_3_eq_3)
qed

end
