(* ===== verification/Ethernet.thy ===== *)
theory Ethernet
  imports Pinconf Clock
begin

text \<open>
  \<^verbatim>\<open>rflpc17xx/drivers/ethernet.c\<close> and \<^verbatim>\<open>eth_const.h\<close>: the PHY behind the MII management
  interface, the start of the MAC, the link mode and its negotiation, the MAC address. The
  descriptor rings are in \<^theory_text>\<open>Eth_Ring\<close>. Every wait for the hardware may last for ever, so the
  functions that wait return an option.
\<close>

definition RFLPC_ETH_PHY_ADDR :: u8 where "RFLPC_ETH_PHY_ADDR = 1"
definition RFLPC_ETH_PCENET_BIT :: u32 where "RFLPC_ETH_PCENET_BIT = shl 1 30"
definition RFLPC_ETH_MAC1_RECEIVE_ENABLE :: u32 where "RFLPC_ETH_MAC1_RECEIVE_ENABLE = shl 1 0"
definition RFLPC_ETH_MAC1_SOFT_RESET :: u32 where "RFLPC_ETH_MAC1_SOFT_RESET = shl 1 15"
definition RFLPC_ETH_MAC2_FULL_DUPLEX :: u32 where "RFLPC_ETH_MAC2_FULL_DUPLEX = shl 1 0"
definition RFLPC_ETH_MAC2_CRC_ENABLE :: u32 where "RFLPC_ETH_MAC2_CRC_ENABLE = shl 1 4"
definition RFLPC_ETH_MAC2_PAD_CRC_ENABLE :: u32 where "RFLPC_ETH_MAC2_PAD_CRC_ENABLE = shl 1 5"
definition RFLPC_ETH_CMD_RX_ENABLE :: u32 where "RFLPC_ETH_CMD_RX_ENABLE = shl 1 0"
definition RFLPC_ETH_CMD_TX_ENABLE :: u32 where "RFLPC_ETH_CMD_TX_ENABLE = shl 1 1"
definition RFLPC_ETH_CMD_REG_RESET :: u32 where "RFLPC_ETH_CMD_REG_RESET = shl 1 3"
definition RFLPC_ETH_CMD_PASS_RX_FILTER :: u32 where "RFLPC_ETH_CMD_PASS_RX_FILTER = shl 1 7"
definition RFLPC_ETH_CMD_RMII :: u32 where "RFLPC_ETH_CMD_RMII = shl 1 9"
definition RFLPC_ETH_CMD_FULL_DUPLEX :: u32 where "RFLPC_ETH_CMD_FULL_DUPLEX = shl 1 10"
definition RFLPC_ETH_RXFILTER_UNICAST_EN :: u32 where "RFLPC_ETH_RXFILTER_UNICAST_EN = shl 1 0"
definition RFLPC_ETH_RXFILTER_BROADCAST_EN :: u32 where "RFLPC_ETH_RXFILTER_BROADCAST_EN = shl 1 1"
definition RFLPC_ETH_RXFILTER_MULTICAST_EN :: u32 where "RFLPC_ETH_RXFILTER_MULTICAST_EN = shl 1 2"
definition RFLPC_ETH_RXFILTER_PERFECT_EN :: u32 where "RFLPC_ETH_RXFILTER_PERFECT_EN = shl 1 5"
definition RFLPC_ETH_MIND_BUSY :: u32 where "RFLPC_ETH_MIND_BUSY = 1"
definition RFLPC_ETH_MIND_NOT_VALID :: u32 where "RFLPC_ETH_MIND_NOT_VALID = shl 1 2"
definition RFLPC_ETH_SUPP_10MBPS :: u32 where "RFLPC_ETH_SUPP_10MBPS = 0"
definition RFLPC_ETH_SUPP_100MBPS :: u32 where "RFLPC_ETH_SUPP_100MBPS = shl 1 8"
definition RFLPC_ETH_MCFG_RESET_MIIM :: u32 where "RFLPC_ETH_MCFG_RESET_MIIM = shl 1 15"
definition RFLPC_ETH_MAX_FRAME_LENGTH :: u32 where "RFLPC_ETH_MAX_FRAME_LENGTH = 1538"
definition RFLPC_ETH_MAX_CLOCK :: u32 where "RFLPC_ETH_MAX_CLOCK = 2500000"
definition RFLPC_ETH_PHY_BMCR :: u8 where "RFLPC_ETH_PHY_BMCR = 0x0"
definition RFLPC_ETH_PHY_BMSR :: u8 where "RFLPC_ETH_PHY_BMSR = 0x1"
definition RFLPC_ETH_PHY_ANAR :: u8 where "RFLPC_ETH_PHY_ANAR = 0x4"
definition RFLPC_ETH_PHY_PHYSTS :: u8 where "RFLPC_ETH_PHY_PHYSTS = 0x10"
definition RFLPC_ETH_BMCR_RESET :: u16 where "RFLPC_ETH_BMCR_RESET = shl 1 15"
definition RFLPC_ETH_BMCR_SPEED_SELECT :: u16 where "RFLPC_ETH_BMCR_SPEED_SELECT = shl 1 13"
definition RFLPC_ETH_BMCR_ENABLE_AUTO_NEG :: u16 where "RFLPC_ETH_BMCR_ENABLE_AUTO_NEG = shl 1 12"
definition RFLPC_ETH_BMCR_RESTART_AUTO_NEG :: u16 where "RFLPC_ETH_BMCR_RESTART_AUTO_NEG = shl 1 9"
definition RFLPC_ETH_BMCR_DUPLEX_MODE :: u16 where "RFLPC_ETH_BMCR_DUPLEX_MODE = shl 1 8"
definition RFLPC_ETH_BMSR_AUTO_NEG_COMPLETE :: u16 where "RFLPC_ETH_BMSR_AUTO_NEG_COMPLETE = shl 1 5"
definition RFLPC_ETH_BMSR_LINK_STATUS :: u16 where "RFLPC_ETH_BMSR_LINK_STATUS = shl 1 2"
definition RFLPC_ETH_ANAR_TX_FD :: u16 where "RFLPC_ETH_ANAR_TX_FD = shl 1 8"
definition RFLPC_ETH_ANAR_TX :: u16 where "RFLPC_ETH_ANAR_TX = shl 1 7"
definition RFLPC_ETH_ANAR_10_FD :: u16 where "RFLPC_ETH_ANAR_10_FD = shl 1 6"
definition RFLPC_ETH_ANAR_10 :: u16 where "RFLPC_ETH_ANAR_10 = shl 1 5"
definition RFLPC_ETH_PHYSTS_DUPLEX_STATUS :: u16 where "RFLPC_ETH_PHYSTS_DUPLEX_STATUS = shl 1 2"
definition RFLPC_ETH_PHYSTS_SPEED_STATUS :: u16 where "RFLPC_ETH_PHYSTS_SPEED_STATUS = shl 1 1"
definition RFLPC_ETH_LINK_MODE_SPEED_BIT :: u32 where "RFLPC_ETH_LINK_MODE_SPEED_BIT = shl 1 0"
definition RFLPC_ETH_LINK_MODE_DUPLEX_BIT :: u32 where "RFLPC_ETH_LINK_MODE_DUPLEX_BIT = shl 1 1"
definition RFLPC_ETH_LINK_MODE_100HD :: u32 where "RFLPC_ETH_LINK_MODE_100HD = RFLPC_ETH_LINK_MODE_SPEED_BIT"
definition RFLPC_ETH_LINK_MODE_10HD :: u32 where "RFLPC_ETH_LINK_MODE_10HD = 0"
definition RFLPC_ETH_LINK_MODE_100FD :: u32 where
  "RFLPC_ETH_LINK_MODE_100FD = RFLPC_ETH_LINK_MODE_SPEED_BIT OR RFLPC_ETH_LINK_MODE_DUPLEX_BIT"
definition RFLPC_ETH_LINK_MODE_10FD :: u32 where "RFLPC_ETH_LINK_MODE_10FD = RFLPC_ETH_LINK_MODE_DUPLEX_BIT"

section \<open>The PHY\<close>

definition write_to_phy_register_with_addr ::
  "'d device \<Rightarrow> u8 \<Rightarrow> u8 \<Rightarrow> u16 \<Rightarrow> 'd \<Rightarrow> 'd option" where
  "write_to_phy_register_with_addr D phy r value d =
     (let d = dev_wr D EMAC_MADR (shl (ucast phy) 8 OR ucast r) d;
          d = dev_wr D EMAC_MWTD (ucast value) d
      in map_option snd (poll D EMAC_MIND (\<lambda>x. x AND RFLPC_ETH_MIND_BUSY = 0) d))"

text \<open>The loop waiting for a valid value reads \<^verbatim>\<open>MIND\<close> twice per round.\<close>

partial_function (option) wait_mrdd :: "'d device \<Rightarrow> 'd \<Rightarrow> 'd option" where
  "wait_mrdd D d =
     (let (x, d) = dev_rd D EMAC_MIND d;
          (y, d) = dev_rd D EMAC_MIND d
      in if (x AND RFLPC_ETH_MIND_BUSY) OR (y AND RFLPC_ETH_MIND_NOT_VALID) \<noteq> 0
         then wait_mrdd D d else Some d)"

definition read_from_phy_register_with_addr ::
  "'d device \<Rightarrow> u8 \<Rightarrow> u8 \<Rightarrow> 'd \<Rightarrow> (u16 \<times> 'd) option" where
  "read_from_phy_register_with_addr D phy r d =
     (let d = dev_wr D EMAC_MADR (shl (ucast phy) 8 OR ucast r) d;
          d = dev_wr D EMAC_MCMD 1 d
      in case wait_mrdd D d of
           None \<Rightarrow> None
         | Some d \<Rightarrow>
             (let d = dev_wr D EMAC_MCMD 0 d;
                  (x, d) = dev_rd D EMAC_MRDD d
              in Some (ucast x, d)))"

definition read_from_phy_register :: "'d device \<Rightarrow> u8 \<Rightarrow> 'd \<Rightarrow> (u16 \<times> 'd) option" where
  "read_from_phy_register D r = read_from_phy_register_with_addr D RFLPC_ETH_PHY_ADDR r"

definition write_to_phy_register :: "'d device \<Rightarrow> u8 \<Rightarrow> u16 \<Rightarrow> 'd \<Rightarrow> 'd option" where
  "write_to_phy_register D r v = write_to_phy_register_with_addr D RFLPC_ETH_PHY_ADDR r v"

text \<open>The loops that read a PHY register until it satisfies a condition.\<close>

partial_function (option) phy_poll :: "'d device \<Rightarrow> u8 \<Rightarrow> (u16 \<Rightarrow> bool) \<Rightarrow> 'd \<Rightarrow> (u16 \<times> 'd) option" where
  "phy_poll D r p d =
     (case read_from_phy_register D r d of
        None \<Rightarrow> None
      | Some (x, d) \<Rightarrow> if p x then Some (x, d) else phy_poll D r p d)"

section \<open>Starting the MAC\<close>

definition RFLPC_ETH_PINS :: "rflpc_pin_t list" where
  "RFLPC_ETH_PINS =
     [RFLPC_PIN_MAKE 1 0, RFLPC_PIN_MAKE 1 1, RFLPC_PIN_MAKE 1 4, RFLPC_PIN_MAKE 1 8, RFLPC_PIN_MAKE 1 9,
      RFLPC_PIN_MAKE 1 10, RFLPC_PIN_MAKE 1 14, RFLPC_PIN_MAKE 1 15, RFLPC_PIN_MAKE 1 16, RFLPC_PIN_MAKE 1 17]"

definition eth_setup_pins :: "'d device \<Rightarrow> 'd \<Rightarrow> 'd" where
  "eth_setup_pins D d =
     fold (\<lambda>p. rflpc_pin_set D p 1 (pin_mode_val RFLPC_PIN_MODE_RESISTOR_PULL_UP) False) RFLPC_ETH_PINS d"

definition clock_dividers :: "nat list" where
  "clock_dividers = [4, 6, 8, 10, 14, 20, 28, 36, 40]"

text \<open>The search loop: the index of the first entry that is large enough, or the length.\<close>

fun find_divider :: "nat list \<Rightarrow> nat \<Rightarrow> nat \<Rightarrow> nat" where
  "find_divider [] divider i = i"
| "find_divider (c # cs) divider i = (if c \<ge> divider then i else find_divider cs divider (i + 1))"

definition mii_clock_select :: "u32 \<Rightarrow> nat" where
  "mii_clock_select system_clock =
     find_divider clock_dividers (unat (system_clock div RFLPC_ETH_MAX_CLOCK)) 0 + 1"

definition eth_mac_init :: "'d device \<Rightarrow> u32 \<Rightarrow> 'd \<Rightarrow> 'd" where
  "eth_mac_init D system_clock d =
     (let d = eth_setup_pins D d;
          d = reg_or D SC_PCONP RFLPC_ETH_PCENET_BIT d;
          d = dev_wr D EMAC_MAC1 RFLPC_ETH_MAC1_SOFT_RESET d;
          d = dev_wr D EMAC_Command RFLPC_ETH_CMD_REG_RESET d;
          d = dev_wr D EMAC_MAC1 0 d;
          d = dev_wr D EMAC_MAC2
                (RFLPC_ETH_MAC2_FULL_DUPLEX OR RFLPC_ETH_MAC2_CRC_ENABLE OR RFLPC_ETH_MAC2_PAD_CRC_ENABLE) d;
          d = dev_wr D EMAC_IPGT 0x15 d;
          d = dev_wr D EMAC_IPGR (0x12 OR shl 0xC 8) d;
          d = dev_wr D EMAC_CLRT (0xF OR shl 0x37 8) d;
          d = dev_wr D EMAC_SUPP RFLPC_ETH_SUPP_100MBPS d;
          d = dev_wr D EMAC_MAXF RFLPC_ETH_MAX_FRAME_LENGTH d;
          i = mii_clock_select system_clock;
          d = dev_wr D EMAC_MCFG (shl (of_nat i AND 0xF) 2 OR RFLPC_ETH_MCFG_RESET_MIIM) d;
          d = reg_and D EMAC_MCFG (NOT RFLPC_ETH_MCFG_RESET_MIIM) d;
          d = dev_wr D EMAC_Command
                (RFLPC_ETH_CMD_RMII OR RFLPC_ETH_CMD_FULL_DUPLEX OR RFLPC_ETH_CMD_PASS_RX_FILTER) d
      in d)"

definition rflpc_eth_init :: "'d device \<Rightarrow> u32 \<Rightarrow> 'd \<Rightarrow> (int \<times> 'd) option" where
  "rflpc_eth_init D system_clock d =
     (case write_to_phy_register D RFLPC_ETH_PHY_BMCR RFLPC_ETH_BMCR_RESET (eth_mac_init D system_clock d) of
        None \<Rightarrow> None
      | Some d \<Rightarrow>
          (case phy_poll D RFLPC_ETH_PHY_BMCR (\<lambda>x. x AND RFLPC_ETH_BMCR_RESET = 0) d of
             None \<Rightarrow> None
           | Some (_, d) \<Rightarrow> Some (1, d)))"

section \<open>The link\<close>

definition rflpc_eth_link_state :: "'d device \<Rightarrow> 'd \<Rightarrow> (bool \<times> 'd) option" where
  "rflpc_eth_link_state D d =
     (case read_from_phy_register D RFLPC_ETH_PHY_BMSR d of
        None \<Rightarrow> None
      | Some (x, d) \<Rightarrow> Some (x AND RFLPC_ETH_BMSR_LINK_STATUS = RFLPC_ETH_BMSR_LINK_STATUS, d))"

definition rflpc_eth_get_link_mode :: "'d device \<Rightarrow> 'd \<Rightarrow> (u32 \<times> 'd) option" where
  "rflpc_eth_get_link_mode D d =
     (case read_from_phy_register D RFLPC_ETH_PHY_PHYSTS d of
        None \<Rightarrow> None
      | Some (physts, d) \<Rightarrow>
          Some (if physts AND RFLPC_ETH_PHYSTS_SPEED_STATUS \<noteq> 0 then
                  (if physts AND RFLPC_ETH_PHYSTS_DUPLEX_STATUS \<noteq> 0 then RFLPC_ETH_LINK_MODE_10FD
                   else RFLPC_ETH_LINK_MODE_10HD)
                else if physts AND RFLPC_ETH_PHYSTS_DUPLEX_STATUS \<noteq> 0 then RFLPC_ETH_LINK_MODE_100FD
                else RFLPC_ETH_LINK_MODE_100HD, d))"

text \<open>The modes advertised for a maximum mode: the \<^verbatim>\<open>switch\<close> with its fall through.\<close>

definition advertised :: "u32 \<Rightarrow> u16 \<Rightarrow> u16" where
  "advertised max_desired_mode anar =
     (let anar = anar AND NOT (RFLPC_ETH_ANAR_10_FD OR RFLPC_ETH_ANAR_TX OR RFLPC_ETH_ANAR_TX_FD);
          anar = anar OR RFLPC_ETH_ANAR_10
      in if max_desired_mode = RFLPC_ETH_LINK_MODE_100FD
         then (anar OR RFLPC_ETH_ANAR_TX_FD) OR RFLPC_ETH_ANAR_TX
         else if max_desired_mode = RFLPC_ETH_LINK_MODE_100HD then anar OR RFLPC_ETH_ANAR_TX
         else if max_desired_mode = RFLPC_ETH_LINK_MODE_10FD then anar OR RFLPC_ETH_ANAR_10_FD
         else anar)"

text \<open>Setting the MAC to the mode that was negotiated.\<close>

definition eth_apply_mode :: "'d device \<Rightarrow> u32 \<Rightarrow> 'd \<Rightarrow> 'd" where
  "eth_apply_mode D mode d =
     (let d = (if mode AND RFLPC_ETH_LINK_MODE_SPEED_BIT \<noteq> 0
               then dev_wr D EMAC_SUPP RFLPC_ETH_SUPP_100MBPS d
               else dev_wr D EMAC_SUPP RFLPC_ETH_SUPP_10MBPS d)
      in if mode AND RFLPC_ETH_LINK_MODE_DUPLEX_BIT \<noteq> 0
         then reg_or D EMAC_Command RFLPC_ETH_CMD_FULL_DUPLEX (reg_or D EMAC_MAC2 RFLPC_ETH_MAC2_FULL_DUPLEX d)
         else reg_and D EMAC_Command (NOT RFLPC_ETH_CMD_FULL_DUPLEX)
                (reg_and D EMAC_MAC2 (NOT RFLPC_ETH_MAC2_FULL_DUPLEX) d))"

text \<open>\<^verbatim>\<open>rflpc_eth_link_auto_negociate\<close>, up to the end of the negotiation and after it.\<close>

definition eth_negociation_start :: "'d device \<Rightarrow> u32 \<Rightarrow> 'd \<Rightarrow> 'd option" where
  "eth_negociation_start D max_desired_mode d =
     (case read_from_phy_register D RFLPC_ETH_PHY_ANAR d of
        None \<Rightarrow> None
      | Some (anar, d) \<Rightarrow>
     (case write_to_phy_register D RFLPC_ETH_PHY_ANAR (advertised max_desired_mode anar) d of
        None \<Rightarrow> None
      | Some d \<Rightarrow>
     (case read_from_phy_register D RFLPC_ETH_PHY_BMCR d of
        None \<Rightarrow> None
      | Some (bmcr, d) \<Rightarrow>
          write_to_phy_register D RFLPC_ETH_PHY_BMCR
            ((bmcr OR RFLPC_ETH_BMCR_ENABLE_AUTO_NEG) OR RFLPC_ETH_BMCR_RESTART_AUTO_NEG) d)))"

definition eth_negociation_end :: "'d device \<Rightarrow> 'd \<Rightarrow> (int \<times> 'd) option" where
  "eth_negociation_end D d =
     (case phy_poll D RFLPC_ETH_PHY_BMSR (\<lambda>x. x AND RFLPC_ETH_BMSR_AUTO_NEG_COMPLETE \<noteq> 0) d of
        None \<Rightarrow> None
      | Some (_, d) \<Rightarrow>
     (case rflpc_eth_link_state D d of
        None \<Rightarrow> None
      | Some (up, d) \<Rightarrow>
          if \<not> up then Some (- 1, d)
          else
            (case rflpc_eth_get_link_mode D d of
               None \<Rightarrow> None
             | Some (mode, d) \<Rightarrow> Some (0, eth_apply_mode D mode d))))"

definition rflpc_eth_link_auto_negociate :: "'d device \<Rightarrow> u32 \<Rightarrow> 'd \<Rightarrow> (int \<times> 'd) option" where
  "rflpc_eth_link_auto_negociate D max_desired_mode d =
     (case rflpc_eth_link_state D d of
        None \<Rightarrow> None
      | Some (up, d) \<Rightarrow>
          if \<not> up then Some (- 1, d)
          else
            (case eth_negociation_start D max_desired_mode d of
               None \<Rightarrow> None
             | Some d \<Rightarrow> eth_negociation_end D d))"

text \<open>\<^verbatim>\<open>rflpc_eth_set_link_mode\<close>: the three registers are computed first, then written.\<close>

definition rflpc_eth_set_link_mode :: "'d device \<Rightarrow> u32 \<Rightarrow> 'd \<Rightarrow> 'd option" where
  "rflpc_eth_set_link_mode D mode d =
     (case read_from_phy_register D RFLPC_ETH_PHY_BMCR d of
        None \<Rightarrow> None
      | Some (bmcr, d) \<Rightarrow>
     (let (mac2, d) = dev_rd D EMAC_MAC2 d;
          (cmd, d) = dev_rd D EMAC_Command d;
          bmcr = bmcr AND NOT RFLPC_ETH_BMCR_ENABLE_AUTO_NEG
      in case write_to_phy_register D RFLPC_ETH_PHY_BMCR bmcr d of
        None \<Rightarrow> None
      | Some d \<Rightarrow>
     (case read_from_phy_register D RFLPC_ETH_PHY_BMCR d of
        None \<Rightarrow> None
      | Some (bmcr, d) \<Rightarrow>
     (let full = (mode AND RFLPC_ETH_LINK_MODE_DUPLEX_BIT \<noteq> 0);
          fast = (mode AND RFLPC_ETH_LINK_MODE_SPEED_BIT \<noteq> 0);
          mac2 = (if full then mac2 OR RFLPC_ETH_MAC2_FULL_DUPLEX else mac2 AND NOT RFLPC_ETH_MAC2_FULL_DUPLEX);
          cmd = (if full then cmd OR RFLPC_ETH_CMD_FULL_DUPLEX else cmd AND NOT RFLPC_ETH_CMD_FULL_DUPLEX);
          bmcr = (if full then bmcr OR RFLPC_ETH_BMCR_DUPLEX_MODE else bmcr AND NOT RFLPC_ETH_BMCR_DUPLEX_MODE);
          supp = (if fast then RFLPC_ETH_SUPP_100MBPS else 0);
          bmcr = (if fast then bmcr OR RFLPC_ETH_BMCR_SPEED_SELECT else bmcr AND NOT RFLPC_ETH_BMCR_SPEED_SELECT)
      in case write_to_phy_register D RFLPC_ETH_PHY_BMCR bmcr d of
        None \<Rightarrow> None
      | Some d \<Rightarrow>
          (let d = dev_wr D EMAC_MAC2 mac2 d;
               d = dev_wr D EMAC_Command cmd d;
               d = dev_wr D EMAC_SUPP supp d
           in Some d)))))"

section \<open>The MAC address and the receive filter\<close>

definition rflpc_eth_get_mac_address :: "'d device \<Rightarrow> 'd \<Rightarrow> u8 list \<times> 'd" where
  "rflpc_eth_get_mac_address D d =
     (let (x0, d) = dev_rd D EMAC_SA0 d; (x1, d) = dev_rd D EMAC_SA0 d;
          (x2, d) = dev_rd D EMAC_SA1 d; (x3, d) = dev_rd D EMAC_SA1 d;
          (x4, d) = dev_rd D EMAC_SA2 d; (x5, d) = dev_rd D EMAC_SA2 d
      in ([ucast (shr x0 8 AND 0xFF), ucast (x1 AND 0xFF), ucast (shr x2 8 AND 0xFF), ucast (x3 AND 0xFF),
           ucast (shr x4 8 AND 0xFF), ucast (x5 AND 0xFF)], d))"

definition rflpc_eth_set_mac_address :: "'d device \<Rightarrow> u8 list \<Rightarrow> 'd \<Rightarrow> 'd" where
  "rflpc_eth_set_mac_address D a d =
     (let d = dev_wr D EMAC_SA0 (shl (ucast (a ! 0)) 8 OR ucast (a ! 1)) d;
          d = dev_wr D EMAC_SA1 (shl (ucast (a ! 2)) 8 OR ucast (a ! 3)) d;
          d = dev_wr D EMAC_SA2 (shl (ucast (a ! 4)) 8 OR ucast (a ! 5)) d
      in d)"

definition rflpc_eth_activate_rx_filter :: "'d device \<Rightarrow> bool \<Rightarrow> bool \<Rightarrow> bool \<Rightarrow> 'd \<Rightarrow> 'd" where
  "rflpc_eth_activate_rx_filter D accept_unicast accept_multicast accept_broadcast d =
     (let d = dev_wr D EMAC_RxFilterCtrl 0 d;
          d = (if accept_unicast then reg_or D EMAC_RxFilterCtrl RFLPC_ETH_RXFILTER_UNICAST_EN d else d);
          d = (if accept_multicast then reg_or D EMAC_RxFilterCtrl RFLPC_ETH_RXFILTER_MULTICAST_EN d else d);
          d = (if accept_broadcast then reg_or D EMAC_RxFilterCtrl RFLPC_ETH_RXFILTER_BROADCAST_EN d else d);
          d = reg_or D EMAC_RxFilterCtrl RFLPC_ETH_RXFILTER_PERFECT_EN d;
          d = reg_and D EMAC_Command (NOT RFLPC_ETH_CMD_PASS_RX_FILTER) d
      in d)"

definition rflpc_eth_deactivate_rx_filter :: "'d device \<Rightarrow> 'd \<Rightarrow> 'd" where
  "rflpc_eth_deactivate_rx_filter D = reg_or D EMAC_Command RFLPC_ETH_CMD_PASS_RX_FILTER"

section \<open>Interrupts\<close>

definition rflpc_eth_set_irq_handler ::
  "'d device \<Rightarrow> u32 \<Rightarrow> u32 list \<times> 'd \<Rightarrow> u32 list \<times> 'd" where
  "rflpc_eth_set_irq_handler D c st =
     (let (v, d) = st;
          d = rflpc_irq_disable D (nat ENET_IRQn) d;
          v = rflpc_irq_set_handler ENET_IRQn c v;
          d = rflpc_irq_enable D (nat ENET_IRQn) d
      in (v, d))"

definition rflpc_eth_irq_enable :: "'d device \<Rightarrow> u32 \<Rightarrow> 'd \<Rightarrow> 'd" where
  "rflpc_eth_irq_enable D irqs = reg_or D EMAC_IntEnable irqs"

definition rflpc_eth_irq_disable :: "'d device \<Rightarrow> u32 \<Rightarrow> 'd \<Rightarrow> 'd" where
  "rflpc_eth_irq_disable D irqs = reg_and D EMAC_IntEnable (NOT irqs)"

definition rflpc_eth_irq_enable_set :: "'d device \<Rightarrow> u32 \<Rightarrow> 'd \<Rightarrow> 'd" where
  "rflpc_eth_irq_enable_set D irqs = dev_wr D EMAC_IntEnable irqs"

definition rflpc_eth_irq_clear :: "'d device \<Rightarrow> u32 \<Rightarrow> 'd \<Rightarrow> 'd" where
  "rflpc_eth_irq_clear D irqs = dev_wr D EMAC_IntClear irqs"

definition rflpc_eth_irq_get_status :: "'d device \<Rightarrow> 'd \<Rightarrow> u32 \<times> 'd" where
  "rflpc_eth_irq_get_status D = dev_rd D EMAC_IntStatus"

definition rflpc_eth_irq_trigger :: "'d device \<Rightarrow> u32 \<Rightarrow> 'd \<Rightarrow> 'd" where
  "rflpc_eth_irq_trigger D irqs = dev_wr D EMAC_IntSet irqs"


section \<open>What the helpers keep\<close>

abbreviation phy_regs :: "addr set" where
  "phy_regs \<equiv> {EMAC_MADR, EMAC_MWTD, EMAC_MCMD}"

context config_regs
begin

lemma peek_pin_set_elsewhere:
  assumes "RFLPC_PIN_GET_PORT p \<le> 4" and "a \<in> A" and a: "\<not> a - PINCON_PINSEL0 < 0x100"
  shows "peek D a (rflpc_pin_set D p function mode opendrain d) = peek D a d"
proof -
  have h: "pin_half p \<le> 9" using assms(1) pin_lt [of p] by (simp add: pin_half_def)
  have near: "x - PINCON_PINSEL0 < 0x100" if "x = PINCON_PINSEL0 + of_nat k" "k < 256" for x k
    using that by (simp add: word_less_nat_alt unat_of_nat)
  have base: "PINCON_PINMODE0 = PINCON_PINSEL0 + of_nat 0x40"
    "PINCON_PINMODE_OD0 = PINCON_PINSEL0 + of_nat 0x68"
    by (simp_all add: reg_addr)
  have "PINSEL_of p \<noteq> a"
    using near [of "PINSEL_of p" "4 * pin_half p"] a h by (auto simp: PINSEL_of_def word_at_def)
  moreover have "PINMODE_of p = PINCON_PINSEL0 + of_nat (0x40 + 4 * pin_half p)"
    unfolding PINMODE_of_def word_at_def base by (simp only: of_nat_add add.assoc)
  then have "PINMODE_of p \<noteq> a"
    using near [of "PINMODE_of p" "0x40 + 4 * pin_half p"] a h by auto
  moreover have "PINMODE_OD_of p = PINCON_PINSEL0 + of_nat (0x68 + 4 * RFLPC_PIN_GET_PORT p)"
    unfolding PINMODE_OD_of_def word_at_def base by (simp only: of_nat_add add.assoc)
  then have "PINMODE_OD_of p \<noteq> a"
    using near [of "PINMODE_OD_of p" "0x68 + 4 * RFLPC_PIN_GET_PORT p"] a assms(1) by auto
  ultimately show ?thesis
    using peek_pin_set [OF assms(1,2)] by (simp add: Let_def)
qed

lemma peek_wait_mrdd:
  assumes "a \<in> A" and "wait_mrdd D d = Some d'"
  shows "peek D a d' = peek D a d"
proof -
  have "E = D \<longrightarrow> peek D a d' = peek D a d" if "wait_mrdd E d = Some d'" for E d d'
  proof (rule wait_mrdd.raw_induct [where P = "\<lambda>E d d'. E = D \<longrightarrow> peek D a d' = peek D a d", OF _ that])
    fix f and E :: "'d device" and d d'
    assume "\<And>E d d'. f E d = Some d' \<Longrightarrow> E = D \<longrightarrow> peek D a d' = peek D a d"
      and "(let (x, d) = dev_rd E EMAC_MIND d; (y, d) = dev_rd E EMAC_MIND d
        in if (x AND RFLPC_ETH_MIND_BUSY) OR (y AND RFLPC_ETH_MIND_NOT_VALID) \<noteq> 0
           then f E d else Some d) = Some d'"
    then show "E = D \<longrightarrow> peek D a d' = peek D a d"
      using peek_rd [OF assms(1)] by (auto simp: split_def Let_def split: if_splits)
  qed
  with assms(2) show ?thesis by blast
qed

lemma peek_write_phy:
  assumes "a \<in> A" and "a \<notin> phy_regs" and "write_to_phy_register D r v d = Some d'"
  shows "peek D a d' = peek D a d"
proof -
  obtain x where "poll D EMAC_MIND (\<lambda>x. x AND RFLPC_ETH_MIND_BUSY = 0)
      (dev_wr D EMAC_MWTD (ucast v) (dev_wr D EMAC_MADR (shl (ucast RFLPC_ETH_PHY_ADDR) 8 OR ucast r) d))
      = Some (x, d')"
    using assms(3) by (auto simp: write_to_phy_register_def write_to_phy_register_with_addr_def)
  from peek_poll [OF assms(1) this] assms(1,2) show ?thesis
    by (auto simp: peek_wr)
qed

lemma peek_read_phy:
  assumes "a \<in> A" and "a \<notin> phy_regs" and "read_from_phy_register D r d = Some (x, d')"
  shows "peek D a d' = peek D a d"
proof -
  obtain e where "wait_mrdd D (dev_wr D EMAC_MCMD 1
        (dev_wr D EMAC_MADR (shl (ucast RFLPC_ETH_PHY_ADDR) 8 OR ucast r) d)) = Some e"
    and d': "d' = snd (dev_rd D EMAC_MRDD (dev_wr D EMAC_MCMD 0 e))"
    using assms(3)
    by (auto simp: read_from_phy_register_def read_from_phy_register_with_addr_def split_def Let_def
        split: option.splits)
  from peek_wait_mrdd [OF assms(1) this(1)] assms(1,2) show ?thesis
    by (auto simp: d' peek_wr peek_rd)
qed

end


section \<open>A PHY\<close>

text \<open>The device after \<open>n\<close> reads of one PHY register.\<close>

fun phy_reads :: "'d device \<Rightarrow> u8 \<Rightarrow> nat \<Rightarrow> 'd \<Rightarrow> 'd" where
  "phy_reads D r 0 d = d"
| "phy_reads D r (Suc n) d =
     (case read_from_phy_register D r d of None \<Rightarrow> d | Some (_, d') \<Rightarrow> phy_reads D r n d')"

declare phy_reads.simps(2) [simp del]

lemmas phy_reads_Suc = phy_reads.simps(2)

definition phy_link :: "(u8 \<Rightarrow> 'd \<Rightarrow> u16) \<Rightarrow> 'd \<Rightarrow> bool" where
  "phy_link phy d \<longleftrightarrow> phy RFLPC_ETH_PHY_BMSR d AND RFLPC_ETH_BMSR_LINK_STATUS = RFLPC_ETH_BMSR_LINK_STATUS"

definition phy_complete :: "(u8 \<Rightarrow> 'd \<Rightarrow> u16) \<Rightarrow> 'd \<Rightarrow> bool" where
  "phy_complete phy d \<longleftrightarrow> phy RFLPC_ETH_PHY_BMSR d AND RFLPC_ETH_BMSR_AUTO_NEG_COMPLETE \<noteq> 0"

text \<open>
  What the driver relies on of the MII management interface and of the PHY behind it (laws of the
  device, no code of the repository): a management access ends, and a read gives the register's value;
  accesses to the configuration registers of the MAC do not reach the PHY; a reset ends after some
  time. Nothing is assumed of the link or of a negotiation: a restart of the negotiation drops the link,
  as the PHY's manual says (2.1.4), it may never complete, and the link may be down when it is complete.
\<close>

locale mii_phy = config_regs D A
  for D :: "'d device" and A :: "addr set" +
  fixes phy :: "u8 \<Rightarrow> 'd \<Rightarrow> u16"
  assumes phy_read: "\<exists>d'. read_from_phy_register D r d = Some (phy r d, d')"
    and phy_write: "\<exists>d'. write_to_phy_register D r v d = Some d'"
    and phy_mac: "a \<in> A \<Longrightarrow> phy r (dev_wr D a w d) = phy r d" "a \<in> A \<Longrightarrow> phy r (snd (dev_rd D a d)) = phy r d"
    and mac_not_phy: "A \<inter> phy_regs = {}"
    and reset_ends:
      "\<exists>n. phy RFLPC_ETH_PHY_BMCR (phy_reads D RFLPC_ETH_PHY_BMCR n d) AND RFLPC_ETH_BMCR_RESET = 0"
begin

lemma phy_poll_returns:
  assumes "p (phy r (phy_reads D r n d))" and "P d"
    and keep: "\<And>d x d'. P d \<Longrightarrow> read_from_phy_register D r d = Some (x, d') \<Longrightarrow> P d'"
  shows "\<exists>e d'. phy_poll D r p d = Some (phy r e, d') \<and> p (phy r e) \<and>
    read_from_phy_register D r e = Some (phy r e, d') \<and> P e \<and> P d'"
  using assms(1,2)
proof (induction n arbitrary: d)
  case 0
  obtain d' where d': "read_from_phy_register D r d = Some (phy r d, d')"
    using phy_read by blast
  moreover from d' 0 have "phy_poll D r p d = Some (phy r d, d')"
    by (subst phy_poll.simps) simp
  ultimately show ?case
    using 0 keep by (intro exI [of _ d] exI [of _ d']) auto
next
  case (Suc n)
  obtain d' where d': "read_from_phy_register D r d = Some (phy r d, d')"
    using phy_read by blast
  show ?case
  proof (cases "p (phy r d)")
    case True
    with d' have "phy_poll D r p d = Some (phy r d, d')"
      by (subst phy_poll.simps) simp
    with True d' Suc.prems keep show ?thesis
      by (intro exI [of _ d] exI [of _ d']) auto
  next
    case False
    with d' have "phy_poll D r p d = phy_poll D r p d'"
      by (subst phy_poll.simps) simp
    moreover have "P d'" using keep Suc.prems(2) d' by blast
    moreover have "p (phy r (phy_reads D r n d'))" using Suc.prems(1) d' by (simp add: phy_reads_Suc)
    ultimately show ?thesis using Suc.IH by simp
  qed
qed

text \<open>A loop on a register ends with the first value that satisfies its condition, when there is one.\<close>

lemma phy_poll_first:
  assumes "p (phy r (phy_reads D r n d))" and "\<forall>k < n. \<not> p (phy r (phy_reads D r k d))"
  shows "phy_poll D r p d = Some (phy r (phy_reads D r n d), phy_reads D r (Suc n) d)"
  using assms
proof (induction n arbitrary: d)
  case 0
  then show ?case using phy_read [of r d] by (subst phy_poll.simps) (auto simp: phy_reads_Suc)
next
  case (Suc n)
  obtain d' where d': "read_from_phy_register D r d = Some (phy r d, d')"
    using phy_read by blast
  have "\<not> p (phy r d)" using Suc.prems(2) [rule_format, of 0] by simp
  moreover have "phy_poll D r p d' = Some (phy r (phy_reads D r n d'), phy_reads D r (Suc n) d')"
    using Suc.prems d' by (intro Suc.IH) (auto simp: phy_reads_Suc dest: spec [of _ "Suc _"])
  ultimately show ?case using d' by (subst phy_poll.simps) (simp add: phy_reads_Suc)
qed

lemma phy_poll_ends:
  assumes "phy_poll D r p d = Some y"
  shows "\<exists>n. p (phy r (phy_reads D r n d))"
proof -
  let ?Q = "\<lambda>E s q d y. E = D \<longrightarrow> (\<exists>n. q (phy s (phy_reads D s n d)))"
  have "?Q E s q d y" if "phy_poll E s q d = Some y" for E s q d y
  proof (rule phy_poll.raw_induct [where P = ?Q, OF _ that])
    fix f and E :: "'d device" and s q d and y :: "u16 \<times> 'd"
    assume IH: "\<And>E s q d y. f E s q d = Some y \<Longrightarrow> ?Q E s q d y"
      and eq: "(case read_from_phy_register E s d of None \<Rightarrow> None
        | Some (x, d) \<Rightarrow> if q x then Some (x, d) else f E s q d) = Some y"
    show "?Q E s q d y"
    proof
      assume E: "E = D"
      obtain d' where d': "read_from_phy_register D s d = Some (phy s d, d')"
        using phy_read by blast
      show "\<exists>n. q (phy s (phy_reads D s n d))"
      proof (cases "q (phy s d)")
        case True
        then show ?thesis by (intro exI [of _ 0]) simp
      next
        case False
        then obtain n where "q (phy s (phy_reads D s n d'))" using eq E d' IH by fastforce
        then show ?thesis using d' by (intro exI [of _ "Suc n"]) (simp add: phy_reads_Suc)
      qed
    qed
  qed
  with assms show ?thesis by blast
qed

lemma reads_keep: "a \<in> A \<Longrightarrow> peek D a (phy_reads D r n d) = peek D a d"
proof (induction n arbitrary: d)
  case (Suc n)
  obtain d' where d': "read_from_phy_register D r d = Some (phy r d, d')"
    using phy_read by blast
  have "a \<notin> phy_regs" using Suc.prems mac_not_phy by auto
  from Suc.IH [OF Suc.prems, of d'] peek_read_phy [OF Suc.prems this d'] d' show ?case by (simp add: phy_reads_Suc)
qed simp

lemma link_state_returns:
  "rflpc_eth_link_state D d = Some (phy_link phy d, phy_reads D RFLPC_ETH_PHY_BMSR 1 d)"
  using phy_read [of RFLPC_ETH_PHY_BMSR d] by (auto simp: rflpc_eth_link_state_def phy_link_def phy_reads_Suc)

lemma negociation_start_returns: "\<exists>d'. eth_negociation_start D m d = Some d' \<and> (\<forall>a \<in> A. peek D a d' = peek D a d)"
proof -
  obtain d1 where d1: "read_from_phy_register D RFLPC_ETH_PHY_ANAR d = Some (phy RFLPC_ETH_PHY_ANAR d, d1)"
    using phy_read by blast
  obtain d2 where d2: "write_to_phy_register D RFLPC_ETH_PHY_ANAR (advertised m (phy RFLPC_ETH_PHY_ANAR d)) d1 = Some d2"
    using phy_write by blast
  obtain d3 where d3: "read_from_phy_register D RFLPC_ETH_PHY_BMCR d2 = Some (phy RFLPC_ETH_PHY_BMCR d2, d3)"
    using phy_read by blast
  obtain d4 where d4: "write_to_phy_register D RFLPC_ETH_PHY_BMCR
      ((phy RFLPC_ETH_PHY_BMCR d2 OR RFLPC_ETH_BMCR_ENABLE_AUTO_NEG) OR RFLPC_ETH_BMCR_RESTART_AUTO_NEG) d3 = Some d4"
    using phy_write by blast
  have run: "eth_negociation_start D m d = Some d4"
    unfolding eth_negociation_start_def d1 d2 d3 by (simp add: d1 d2 d3 d4)
  have "peek D a d4 = peek D a d" if "a \<in> A" for a
    using that mac_not_phy peek_read_phy [OF that _ d1] peek_write_phy [OF that _ d2]
      peek_read_phy [OF that _ d3] peek_write_phy [OF that _ d4] by auto
  then show ?thesis using run by blast
qed

end


section \<open>Negotiation\<close>

text \<open>The link mode a value of the PHY's status register stands for.\<close>

definition physts_mode :: "u16 \<Rightarrow> u32" where
  "physts_mode physts =
     (if physts AND RFLPC_ETH_PHYSTS_SPEED_STATUS \<noteq> 0 then
        (if physts AND RFLPC_ETH_PHYSTS_DUPLEX_STATUS \<noteq> 0 then RFLPC_ETH_LINK_MODE_10FD
         else RFLPC_ETH_LINK_MODE_10HD)
      else if physts AND RFLPC_ETH_PHYSTS_DUPLEX_STATUS \<noteq> 0 then RFLPC_ETH_LINK_MODE_100FD
      else RFLPC_ETH_LINK_MODE_100HD)"

lemma and_shl_one_zero: "x AND shl 1 n = 0 \<longleftrightarrow> \<not> bit x n" if "n < LENGTH('a)" for x :: "'a::len word"
  using and_two_power_eq_zero [of x n] by (simp add: push_bit_of_1)

lemma and_shl_one_eq: "x AND shl 1 n = shl 1 n \<longleftrightarrow> bit x n" if "n < LENGTH('a)" for x :: "'a::len word"
proof
  assume "x AND shl 1 n = shl 1 n"
  then have "bit (x AND shl 1 n) n = bit (shl 1 n :: 'a word) n" by (rule arg_cong)
  with that show "bit x n" by (simp add: bit_simps del: push_bit_of_1)
next
  assume "bit x n"
  then show "x AND shl 1 n = shl 1 n"
    by (intro bit_word_eqI) (auto simp: bit_simps simp del: push_bit_of_1)
qed

lemma physts_mode_bits:
  "physts_mode p AND RFLPC_ETH_LINK_MODE_SPEED_BIT \<noteq> 0 \<longleftrightarrow> \<not> bit p 1"
  "physts_mode p AND RFLPC_ETH_LINK_MODE_DUPLEX_BIT \<noteq> 0 \<longleftrightarrow> bit p 2"
proof -
  have "p AND RFLPC_ETH_PHYSTS_SPEED_STATUS = 0 \<longleftrightarrow> \<not> bit p 1"
    "p AND RFLPC_ETH_PHYSTS_DUPLEX_STATUS = 0 \<longleftrightarrow> \<not> bit p 2"
    unfolding RFLPC_ETH_PHYSTS_SPEED_STATUS_def RFLPC_ETH_PHYSTS_DUPLEX_STATUS_def
    by (rule and_shl_one_zero; simp)+
  then show "physts_mode p AND RFLPC_ETH_LINK_MODE_SPEED_BIT \<noteq> 0 \<longleftrightarrow> \<not> bit p 1"
    "physts_mode p AND RFLPC_ETH_LINK_MODE_DUPLEX_BIT \<noteq> 0 \<longleftrightarrow> bit p 2"
    by (simp_all add: physts_mode_def RFLPC_ETH_LINK_MODE_10FD_def RFLPC_ETH_LINK_MODE_10HD_def
        RFLPC_ETH_LINK_MODE_100FD_def RFLPC_ETH_LINK_MODE_100HD_def RFLPC_ETH_LINK_MODE_SPEED_BIT_def
        RFLPC_ETH_LINK_MODE_DUPLEX_BIT_def)
qed

text \<open>The MAC is set for a speed and a duplex mode: the three registers of \<open>d'\<close>, from those of \<open>d\<close>.\<close>

definition mac_mode :: "'d device \<Rightarrow> bool \<Rightarrow> bool \<Rightarrow> 'd \<Rightarrow> 'd \<Rightarrow> bool" where
  "mac_mode D fast full d d' \<longleftrightarrow>
     peek D EMAC_SUPP d' = (if fast then RFLPC_ETH_SUPP_100MBPS else RFLPC_ETH_SUPP_10MBPS) \<and>
     peek D EMAC_MAC2 d' = put_field (peek D EMAC_MAC2 d) 0 (of_bool full) 1 \<and>
     peek D EMAC_Command d' = put_field (peek D EMAC_Command d) 10 (of_bool full) 1"

lemma put_bit_one: "w OR shl 1 n = put_field w n 1 1" and put_bit_zero: "w AND NOT (shl 1 n) = put_field w n 0 1"
  by (rule bit_word_eqI; auto simp: put_field_def bit_simps)+

context config_regs
begin

lemma mac_mode_apply:
  assumes "{EMAC_SUPP, EMAC_MAC2, EMAC_Command} \<subseteq> A"
  shows "mac_mode D (mode AND RFLPC_ETH_LINK_MODE_SPEED_BIT \<noteq> 0) (mode AND RFLPC_ETH_LINK_MODE_DUPLEX_BIT \<noteq> 0)
    d (eth_apply_mode D mode d)"
proof -
  have m: "EMAC_SUPP \<in> A" "EMAC_MAC2 \<in> A" "EMAC_Command \<in> A" using assms by auto
  have ne: "EMAC_SUPP \<noteq> EMAC_MAC2" "EMAC_SUPP \<noteq> EMAC_Command" "EMAC_MAC2 \<noteq> EMAC_Command"
    by (simp_all add: reg_addr)
  note ops = peek_wr [OF m(1)] peek_wr [OF m(2)] peek_wr [OF m(3)] peek_reg_or [OF m(1)] peek_reg_or [OF m(2)]
    peek_reg_or [OF m(3)] peek_reg_and [OF m(1)] peek_reg_and [OF m(2)] peek_reg_and [OF m(3)]
  show ?thesis
    unfolding mac_mode_def eth_apply_mode_def Let_def RFLPC_ETH_MAC2_FULL_DUPLEX_def RFLPC_ETH_CMD_FULL_DUPLEX_def
    using ne ne [symmetric]
    by (cases "mode AND RFLPC_ETH_LINK_MODE_SPEED_BIT = 0"; cases "mode AND RFLPC_ETH_LINK_MODE_DUPLEX_BIT = 0")
      (simp_all only: ops put_bit_one put_bit_zero if_True if_False simp_thms of_bool_eq)
qed

lemma apply_mode_other:
  assumes "a \<in> A - {EMAC_SUPP, EMAC_MAC2, EMAC_Command}"
  shows "peek D a (eth_apply_mode D mode d) = peek D a d"
  using assms by (auto simp: eth_apply_mode_def Let_def peek_wr peek_reg_or peek_reg_and)

end

context mii_phy
begin

lemma phy_reg_or: "a \<in> A \<Longrightarrow> phy r (reg_or D a v d) = phy r d"
  and phy_reg_and: "a \<in> A \<Longrightarrow> phy r (reg_and D a v d) = phy r d"
  by (simp_all add: reg_or_def reg_and_def rmw_def split_def Let_def phy_mac)

lemma phy_apply_mode:
  "{EMAC_SUPP, EMAC_MAC2, EMAC_Command} \<subseteq> A \<Longrightarrow> phy r (eth_apply_mode D mode d) = phy r d"
  by (simp add: eth_apply_mode_def Let_def phy_reg_or phy_reg_and phy_mac)

lemma get_link_mode_returns:
  "rflpc_eth_get_link_mode D d =
     Some (physts_mode (phy RFLPC_ETH_PHY_PHYSTS d), phy_reads D RFLPC_ETH_PHY_PHYSTS 1 d)"
  using phy_read [of RFLPC_ETH_PHY_PHYSTS d]
  by (auto simp: rflpc_eth_get_link_mode_def physts_mode_def phy_reads_Suc)

text \<open>The end of a negotiation: the first read of the status with the bit for complete decides.\<close>

lemma negociation_end_never:
  assumes "\<And>n. \<not> phy_complete phy (phy_reads D RFLPC_ETH_PHY_BMSR n d)"
  shows "eth_negociation_end D d = None"
proof (cases "phy_poll D RFLPC_ETH_PHY_BMSR (\<lambda>x. x AND RFLPC_ETH_BMSR_AUTO_NEG_COMPLETE \<noteq> 0) d")
  case (Some y)
  from phy_poll_ends [OF this] assms show ?thesis by (auto simp: phy_complete_def)
qed (simp add: eth_negociation_end_def)

lemma negociation_end_first:
  assumes n: "phy_complete phy (phy_reads D RFLPC_ETH_PHY_BMSR n d)"
    and first: "\<forall>k < n. \<not> phy_complete phy (phy_reads D RFLPC_ETH_PHY_BMSR k d)"
    and f: "f = phy_reads D RFLPC_ETH_PHY_BMSR (Suc n) d" and g: "g = phy_reads D RFLPC_ETH_PHY_BMSR 1 f"
    and s: "s = phy RFLPC_ETH_PHY_PHYSTS g"
  shows "eth_negociation_end D d =
    Some (if phy_link phy f then (0, eth_apply_mode D (physts_mode s) (phy_reads D RFLPC_ETH_PHY_PHYSTS 1 g))
          else (- 1, g))"
  using phy_poll_first [of "\<lambda>x. x AND RFLPC_ETH_BMSR_AUTO_NEG_COMPLETE \<noteq> 0" RFLPC_ETH_PHY_BMSR n d] n first
    link_state_returns [of f] get_link_mode_returns [of g]
  by (simp add: eth_negociation_end_def phy_complete_def f [symmetric] g [symmetric, simplified] s)

lemma auto_negociate_no_link:
  assumes "\<not> phy_link phy d"
  shows "rflpc_eth_link_auto_negociate D m d = Some (- 1, phy_reads D RFLPC_ETH_PHY_BMSR 1 d)"
  using assms link_state_returns [of d] by (simp add: rflpc_eth_link_auto_negociate_def)

lemma auto_negociate_link:
  assumes "phy_link phy d" and "eth_negociation_start D m (phy_reads D RFLPC_ETH_PHY_BMSR 1 d) = Some e"
  shows "rflpc_eth_link_auto_negociate D m d = eth_negociation_end D e"
  using assms link_state_returns [of d] by (simp add: rflpc_eth_link_auto_negociate_def)

lemma auto_negociate_returns:
  assumes "\<And>e. eth_negociation_start D m (phy_reads D RFLPC_ETH_PHY_BMSR 1 d) = Some e \<Longrightarrow>
      \<exists>n. phy_complete phy (phy_reads D RFLPC_ETH_PHY_BMSR n e)"
  shows "\<exists>r d'. rflpc_eth_link_auto_negociate D m d = Some (r, d')"
proof (cases "phy_link phy d")
  case True
  obtain e where e: "eth_negociation_start D m (phy_reads D RFLPC_ETH_PHY_BMSR 1 d) = Some e"
    using negociation_start_returns by blast
  let ?p = "\<lambda>n. phy_complete phy (phy_reads D RFLPC_ETH_PHY_BMSR n e)"
  obtain n where "?p n" "\<forall>k < n. \<not> ?p k" using assms [OF e] exists_least_iff [of ?p] by blast
  from negociation_end_first [OF this refl refl refl] auto_negociate_link [OF True e] show ?thesis by simp
qed (simp add: auto_negociate_no_link)

text \<open>The whole of it, over the state \<open>e\<close> the restart leaves.\<close>

lemma auto_negociate_ends:
  assumes regs: "{EMAC_SUPP, EMAC_MAC2, EMAC_Command} \<subseteq> A" and "phy_link phy d"
    and e: "eth_negociation_start D m (phy_reads D RFLPC_ETH_PHY_BMSR 1 d) = Some e"
    and n: "phy_complete phy (phy_reads D RFLPC_ETH_PHY_BMSR n e)"
    and first: "\<forall>k < n. \<not> phy_complete phy (phy_reads D RFLPC_ETH_PHY_BMSR k e)"
    and f: "f = phy_reads D RFLPC_ETH_PHY_BMSR (Suc n) e" and g: "g = phy_reads D RFLPC_ETH_PHY_BMSR 1 f"
    and s: "s = phy RFLPC_ETH_PHY_PHYSTS g"
  shows "if phy_link phy f
    then \<exists>d'. rflpc_eth_link_auto_negociate D m d = Some (0, d') \<and> mac_mode D (\<not> bit s 1) (bit s 2) d d' \<and>
      (\<forall>a \<in> A - {EMAC_SUPP, EMAC_MAC2, EMAC_Command}. peek D a d' = peek D a d)
    else \<exists>d'. rflpc_eth_link_auto_negociate D m d = Some (- 1, d') \<and> (\<forall>a \<in> A. peek D a d' = peek D a d)"
proof -
  have keep_e: "peek D a e = peek D a d" if "a \<in> A" for a
    using negociation_start_returns [of m "phy_reads D RFLPC_ETH_PHY_BMSR 1 d"] e that reads_keep [OF that, of RFLPC_ETH_PHY_BMSR 1 d]
    by auto
  have keep_g: "peek D a g = peek D a d" if "a \<in> A" for a
    using that by (simp only: g f reads_keep keep_e)
  let ?h = "phy_reads D RFLPC_ETH_PHY_PHYSTS 1 g"
  have keep_h: "peek D a ?h = peek D a d" if "a \<in> A" for a
    using that by (simp only: reads_keep keep_g)
  have "EMAC_SUPP \<in> A" "EMAC_MAC2 \<in> A" "EMAC_Command \<in> A" using regs by auto
  note three = this [THEN keep_h, simplified]
  have run: "rflpc_eth_link_auto_negociate D m d =
      Some (if phy_link phy f then (0, eth_apply_mode D (physts_mode s) ?h) else (- 1, g))"
    using negociation_end_first [OF n first f g s] auto_negociate_link [OF assms(2) e] by simp
  have "mac_mode D (\<not> bit s 1) (bit s 2) d (eth_apply_mode D (physts_mode s) ?h)"
    using mac_mode_apply [OF regs, of "physts_mode s" ?h]
    by (simp add: mac_mode_def physts_mode_bits three)
  moreover have "peek D a (eth_apply_mode D (physts_mode s) ?h) = peek D a d"
    if "a \<in> A - {EMAC_SUPP, EMAC_MAC2, EMAC_Command}" for a
    using that keep_h [of a] by (simp only: apply_mode_other) blast
  ultimately show ?thesis
    using run keep_g by simp
qed

end


section \<open>Start of the MAC\<close>

definition mac_regs :: "addr set" where
  "mac_regs = {SC_PCONP, EMAC_MAC1, EMAC_MAC2, EMAC_IPGT, EMAC_IPGR, EMAC_CLRT, EMAC_SUPP, EMAC_MAXF,
     EMAC_MCFG, EMAC_Command}"

text \<open>What a start for a system clock leaves in these registers.\<close>

definition mac_started :: "'d device \<Rightarrow> u32 \<Rightarrow> 'd \<Rightarrow> 'd \<Rightarrow> bool" where
  "mac_started D system_clock d d' \<longleftrightarrow>
     peek D SC_PCONP d' = put_field (peek D SC_PCONP d) 30 1 1 \<and>
     peek D EMAC_MAC1 d' = 0 \<and> peek D EMAC_MAC2 d' = 0x31 \<and>
     peek D EMAC_IPGT d' = 0x15 \<and> peek D EMAC_IPGR d' = 0xC12 \<and> peek D EMAC_CLRT d' = 0x370F \<and>
     peek D EMAC_SUPP d' = 0x100 \<and> peek D EMAC_MAXF d' = 1538 \<and>
     peek D EMAC_MCFG d' = put_field 0 2 (of_nat (mii_clock_select system_clock)) 4 \<and>
     peek D EMAC_Command d' = 0x680"

lemma mcfg_value:
  "(shl (w AND 0xF) 2 OR RFLPC_ETH_MCFG_RESET_MIIM) AND NOT RFLPC_ETH_MCFG_RESET_MIIM = put_field 0 2 w 4"
  for w :: u32
proof -
  have m: "(0xF :: u32) = mask 4" by (simp add: mask_eq_exp_minus_1)
  show ?thesis
    unfolding RFLPC_ETH_MCFG_RESET_MIIM_def put_field_def m
    by (intro bit_word_eqI)
      (auto simp: bit_simps simp del: mask_numeral push_bit_and push_bit_of_1 push_bit_numeral)
qed

context config_regs
begin

lemma peek_eth_pins:
  assumes "a \<in> A" and "\<not> a - PINCON_PINSEL0 < 0x100"
  shows "peek D a (eth_setup_pins D d) = peek D a d"
proof -
  have port: "RFLPC_PIN_GET_PORT p \<le> 4" if "p \<in> set RFLPC_ETH_PINS" for p
    using that by (auto simp: RFLPC_ETH_PINS_def RFLPC_PIN_GET_PORT_def RFLPC_PIN_MAKE_def)
  have "peek D a (fold (\<lambda>p. rflpc_pin_set D p f m od) ps d) = peek D a d"
    if "set ps \<subseteq> set RFLPC_ETH_PINS" for ps f m od
    using that by (induction ps arbitrary: d) (simp_all add: port peek_pin_set_elsewhere [OF _ assms])
  then show ?thesis by (simp add: eth_setup_pins_def)
qed

lemma mac_init_started:
  assumes "mac_regs \<subseteq> A"
  shows "mac_started D system_clock d (eth_mac_init D system_clock d)"
proof -
  have m: "a \<in> mac_regs \<Longrightarrow> a \<in> A" for a using assms by blast
  note ops = peek_wr [OF m] peek_reg_or [OF m] peek_reg_and [OF m] peek_eth_pins [OF m]
  show ?thesis
    unfolding mac_started_def eth_mac_init_def Let_def
    by (intro conjI)
      (simp_all add: ops mac_regs_def reg_addr mcfg_value [simplified] put_bit_one [of _ 30, simplified] RFLPC_ETH_PCENET_BIT_def
        RFLPC_ETH_MAC2_FULL_DUPLEX_def RFLPC_ETH_MAC2_CRC_ENABLE_def RFLPC_ETH_MAC2_PAD_CRC_ENABLE_def
        RFLPC_ETH_SUPP_100MBPS_def RFLPC_ETH_MAX_FRAME_LENGTH_def RFLPC_ETH_CMD_RMII_def
        RFLPC_ETH_CMD_FULL_DUPLEX_def RFLPC_ETH_CMD_PASS_RX_FILTER_def)
qed

end


context mii_phy
begin

lemma eth_init_returns:
  assumes "mac_regs \<subseteq> A"
  shows "\<exists>d'. rflpc_eth_init D system_clock d = Some (1, d') \<and> mac_started D system_clock d d'"
proof -
  let ?d0 = "eth_mac_init D system_clock d"
  let ?P = "\<lambda>e. \<forall>a \<in> A. peek D a e = peek D a ?d0"
  let ?p = "\<lambda>x. x AND RFLPC_ETH_BMCR_RESET = 0"
  have out: "a \<notin> phy_regs" if "a \<in> A" for a using that mac_not_phy by auto
  obtain d1 where d1: "write_to_phy_register D RFLPC_ETH_PHY_BMCR RFLPC_ETH_BMCR_RESET ?d0 = Some d1"
    using phy_write by blast
  have start: "?P d1" using peek_write_phy [OF _ out d1] by simp
  have keep: "?P e'" if "?P e" "read_from_phy_register D r e = Some (x, e')" for e r x e'
    using that(1) peek_read_phy [OF _ out that(2)] by simp
  obtain n where n: "?p (phy RFLPC_ETH_PHY_BMCR (phy_reads D RFLPC_ETH_PHY_BMCR n d1))"
    using reset_ends by blast
  obtain x d2 where d2: "phy_poll D RFLPC_ETH_PHY_BMCR ?p d1 = Some (x, d2)" and same: "?P d2"
    using phy_poll_returns [where P = ?P and p = ?p, OF n start] keep by blast
  have "a \<in> mac_regs \<Longrightarrow> peek D a d2 = peek D a ?d0" for a using same assms by blast
  then have "mac_started D system_clock d d2"
    using mac_init_started [OF assms, of system_clock d] by (simp add: mac_started_def mac_regs_def)
  moreover have "rflpc_eth_init D system_clock d = Some (1, d2)"
    by (simp add: rflpc_eth_init_def d1 d2)
  ultimately show ?thesis by blast
qed

end

section \<open>A model of the PHY\<close>

text \<open>Each management access is busy for some reads of \<^verbatim>\<open>MIND\<close>; a negotiation lasts for some reads of PHY
  registers, and meanwhile the link is down; a reset is immediate. The state can be extended with other parts,
  on which accesses have no effect.\<close>

record mii_state =
  mii_ram :: "addr \<Rightarrow> u32"
  mii_busy :: nat
  phy_file :: "u8 \<Rightarrow> u16"
  negotiating :: nat

definition phy_value :: "u8 \<Rightarrow> 'a mii_state_scheme \<Rightarrow> u16" where
  "phy_value r d =
     (if r = RFLPC_ETH_PHY_BMSR
      then (if negotiating d = 0 then set_bit 5 (phy_file d r) else unset_bit 2 (unset_bit 5 (phy_file d r)))
      else if r = RFLPC_ETH_PHY_BMCR then unset_bit 15 (phy_file d r)
      else phy_file d r)"

definition mii_device :: "'a mii_state_scheme device" where
  "mii_device =
     \<lparr>dev_rd = (\<lambda>a d.
        if a = EMAC_MIND then (if mii_busy d = 0 then 0 else 5, d\<lparr>mii_busy := mii_busy d - 1\<rparr>)
        else if a = EMAC_MRDD
          then (ucast (phy_value (ucast (mii_ram d EMAC_MADR)) d), d\<lparr>negotiating := negotiating d - 1\<rparr>)
        else (mii_ram d a, d)),
      dev_wr = (\<lambda>a v d.
        if a = EMAC_MCMD then d\<lparr>mii_busy := (if v = 1 then 3 else mii_busy d)\<rparr>
        else if a = EMAC_MWTD
          then (let r = ucast (mii_ram d EMAC_MADR) :: u8 in
            d\<lparr>mii_busy := 2,
              phy_file := (if r = RFLPC_ETH_PHY_BMSR then phy_file d else (phy_file d)(r := ucast v)),
              negotiating := (if r = RFLPC_ETH_PHY_BMCR \<and> bit v 9 then 3 else negotiating d)\<rparr>)
        else d\<lparr>mii_ram := (mii_ram d)(a := v)\<rparr>),
      cpsid_i = (\<lambda>d. d), cpsie_i = (\<lambda>d. d)\<rparr>"

abbreviation mii_regs :: "addr set" where
  "mii_regs \<equiv> - {EMAC_MIND, EMAC_MRDD, EMAC_MADR, EMAC_MCMD, EMAC_MWTD}"

lemma mii_device_rd:
  "dev_rd mii_device EMAC_MIND d = (if mii_busy d = 0 then 0 else 5, d\<lparr>mii_busy := mii_busy d - 1\<rparr>)"
  "dev_rd mii_device EMAC_MRDD d =
     (ucast (phy_value (ucast (mii_ram d EMAC_MADR)) d), d\<lparr>negotiating := negotiating d - 1\<rparr>)"
  "a \<in> mii_regs \<Longrightarrow> dev_rd mii_device a d = (mii_ram d a, d)"
  by (simp_all add: mii_device_def reg_addr)

lemma mii_device_wr:
  "dev_wr mii_device EMAC_MADR v d = d\<lparr>mii_ram := (mii_ram d)(EMAC_MADR := v)\<rparr>"
  "dev_wr mii_device EMAC_MCMD v d = d\<lparr>mii_busy := (if v = 1 then 3 else mii_busy d)\<rparr>"
  "dev_wr mii_device EMAC_MWTD v d = (let r = ucast (mii_ram d EMAC_MADR) :: u8 in
     d\<lparr>mii_busy := 2,
       phy_file := (if r = RFLPC_ETH_PHY_BMSR then phy_file d else (phy_file d)(r := ucast v)),
       negotiating := (if r = RFLPC_ETH_PHY_BMCR \<and> bit v 9 then 3 else negotiating d)\<rparr>)"
  "a \<in> mii_regs \<Longrightarrow> dev_wr mii_device a v d = d\<lparr>mii_ram := (mii_ram d)(a := v)\<rparr>"
  by (simp_all add: mii_device_def reg_addr)

lemma phy_addr_byte: "ucast (shl (ucast p) 8 OR ucast r :: u32) = r" for p r :: u8
  by (rule bit_word_eqI) (auto simp: bit_simps)

lemma ucast_ucast_u16: "ucast (ucast x :: u32) = x" for x :: u16
  by (rule bit_word_eqI) (simp add: bit_simps)

lemma mii_wait: "mii_busy d = 3 \<Longrightarrow> wait_mrdd mii_device d = Some (d\<lparr>mii_busy := 0\<rparr>)"
  by (subst wait_mrdd.simps, simp add: mii_device_rd RFLPC_ETH_MIND_BUSY_def RFLPC_ETH_MIND_NOT_VALID_def,
      subst wait_mrdd.simps, simp add: mii_device_rd RFLPC_ETH_MIND_BUSY_def RFLPC_ETH_MIND_NOT_VALID_def,
      subst wait_mrdd.simps, simp add: mii_device_rd RFLPC_ETH_MIND_BUSY_def RFLPC_ETH_MIND_NOT_VALID_def)

definition mii_after_read :: "u8 \<Rightarrow> 'a mii_state_scheme \<Rightarrow> 'a mii_state_scheme" where
  "mii_after_read r d = d\<lparr>mii_ram := (mii_ram d)(EMAC_MADR := shl (ucast RFLPC_ETH_PHY_ADDR) 8 OR ucast r),
     mii_busy := 0, negotiating := negotiating d - 1\<rparr>"

lemma mii_read: "read_from_phy_register mii_device r d = Some (phy_value r d, mii_after_read r d)"
  by (simp add: read_from_phy_register_def read_from_phy_register_with_addr_def mii_device_wr mii_wait
      mii_device_rd phy_addr_byte ucast_ucast_u16 mii_after_read_def phy_value_def)

lemma mii_write: "\<exists>d'. write_to_phy_register mii_device r v d = Some d' \<and>
    phy_file d' RFLPC_ETH_PHY_BMSR = phy_file d RFLPC_ETH_PHY_BMSR"
  by (simp add: write_to_phy_register_def write_to_phy_register_with_addr_def mii_device_wr phy_addr_byte,
      (subst poll.simps, simp add: mii_device_rd RFLPC_ETH_MIND_BUSY_def)+, simp add: Let_def)

lemma phy_complete_value: "phy_complete phy_value d \<longleftrightarrow> negotiating d = 0"
  unfolding phy_complete_def RFLPC_ETH_BMSR_AUTO_NEG_COMPLETE_def
  by (subst and_shl_one_zero) (simp_all add: phy_value_def bit_set_bit_iff bit_unset_bit_iff)

lemma phy_link_value: "phy_link phy_value d \<longleftrightarrow> negotiating d = 0 \<and> bit (phy_file d RFLPC_ETH_PHY_BMSR) 2"
proof -
  have "phy_link phy_value d \<longleftrightarrow> bit (phy_value RFLPC_ETH_PHY_BMSR d) 2"
    unfolding phy_link_def RFLPC_ETH_BMSR_LINK_STATUS_def
    by (rule and_shl_one_eq) simp
  then show ?thesis by (simp add: phy_value_def bit_set_bit_iff bit_unset_bit_iff)
qed

lemma mii_phy_reads:
  "negotiating (phy_reads mii_device r n d) = negotiating d - n"
  "phy_file (phy_reads mii_device r n d) = phy_file d"
  by (induction n arbitrary: d) (simp_all add: mii_read mii_after_read_def phy_reads_Suc)

lemma mii_start_keeps:
  assumes "eth_negociation_start mii_device m d = Some e"
  shows "phy_file e RFLPC_ETH_PHY_BMSR = phy_file d RFLPC_ETH_PHY_BMSR"
proof -
  let ?d1 = "mii_after_read RFLPC_ETH_PHY_ANAR d"
  obtain d2 where d2: "write_to_phy_register mii_device RFLPC_ETH_PHY_ANAR (advertised m (phy_value RFLPC_ETH_PHY_ANAR d)) ?d1 = Some d2"
      "phy_file d2 RFLPC_ETH_PHY_BMSR = phy_file ?d1 RFLPC_ETH_PHY_BMSR"
    using mii_write by blast
  let ?d3 = "mii_after_read RFLPC_ETH_PHY_BMCR d2"
  obtain d4 where d4: "write_to_phy_register mii_device RFLPC_ETH_PHY_BMCR
      ((phy_value RFLPC_ETH_PHY_BMCR d2 OR RFLPC_ETH_BMCR_ENABLE_AUTO_NEG) OR RFLPC_ETH_BMCR_RESTART_AUTO_NEG) ?d3 = Some d4"
      "phy_file d4 RFLPC_ETH_PHY_BMSR = phy_file ?d3 RFLPC_ETH_PHY_BMSR"
    using mii_write by blast
  from assms d2 d4 show ?thesis
    by (simp add: eth_negociation_start_def mii_read) (simp add: mii_after_read_def)
qed

interpretation model_mii: mii_phy mii_device mii_regs phy_value
proof
  fix a b :: addr and r :: u8 and d d' :: "'a mii_state_scheme" and v :: u32 and w x :: u16
  show "a \<in> mii_regs \<Longrightarrow> peek mii_device a (dev_wr mii_device a v d) = v"
    by (simp add: peek_def mii_device_wr mii_device_rd)
  show "a \<in> mii_regs \<Longrightarrow> b \<noteq> a \<Longrightarrow> peek mii_device a (dev_wr mii_device b v d) = peek mii_device a d"
    by (simp add: peek_def mii_device_rd) (simp add: mii_device_def Let_def)
  show "a \<in> mii_regs \<Longrightarrow> peek mii_device a (snd (dev_rd mii_device b d)) = peek mii_device a d"
    by (simp add: peek_def mii_device_rd) (simp add: mii_device_def)
  show "a \<in> mii_regs \<Longrightarrow> peek mii_device a (cpsid_i mii_device d) = peek mii_device a d"
    and "a \<in> mii_regs \<Longrightarrow> peek mii_device a (cpsie_i mii_device d) = peek mii_device a d"
    by (simp_all add: mii_device_def)
  show "\<exists>d'. read_from_phy_register mii_device r d = Some (phy_value r d, d')"
    by (simp add: mii_read)
  show "\<exists>d'. write_to_phy_register mii_device r w d = Some d'"
    using mii_write by blast
  show "a \<in> mii_regs \<Longrightarrow> phy_value r (dev_wr mii_device a v d) = phy_value r d"
    and "a \<in> mii_regs \<Longrightarrow> phy_value r (snd (dev_rd mii_device a d)) = phy_value r d"
    by (simp_all add: mii_device_wr mii_device_rd phy_value_def)
  show "mii_regs \<inter> phy_regs = {}" by auto
  have "phy_value RFLPC_ETH_PHY_BMCR (phy_reads mii_device RFLPC_ETH_PHY_BMCR 0 d) AND RFLPC_ETH_BMCR_RESET = 0"
    unfolding RFLPC_ETH_BMCR_RESET_def
    by (subst and_shl_one_zero)
      (simp_all add: phy_value_def bit_unset_bit_iff RFLPC_ETH_PHY_BMCR_def RFLPC_ETH_PHY_BMSR_def)
  then show "\<exists>n. phy_value RFLPC_ETH_PHY_BMCR (phy_reads mii_device RFLPC_ETH_PHY_BMCR n d)
      AND RFLPC_ETH_BMCR_RESET = 0" by blast
qed


section \<open>The MAC address\<close>

lemma address_bytes:
  "ucast (shr (shl (ucast x) 8 OR ucast y :: u32) 8 AND 0xFF) = x"
  "ucast ((shl (ucast x) 8 OR ucast y :: u32) AND 0xFF) = y" for x y :: u8
  unfolding numeral_masks
  by (rule bit_word_eqI; auto simp: bit_simps dest: bit_imp_le_length)+

context config_regs
begin

lemma get_mac_address:
  assumes "A = {EMAC_SA0, EMAC_SA1, EMAC_SA2}"
  shows "fst (rflpc_eth_get_mac_address D d) =
    [ucast (shr (peek D EMAC_SA0 d) 8 AND 0xFF), ucast (peek D EMAC_SA0 d AND 0xFF),
     ucast (shr (peek D EMAC_SA1 d) 8 AND 0xFF), ucast (peek D EMAC_SA1 d AND 0xFF),
     ucast (shr (peek D EMAC_SA2 d) 8 AND 0xFF), ucast (peek D EMAC_SA2 d AND 0xFF)]"
proof -
  have "EMAC_SA0 \<in> A" "EMAC_SA1 \<in> A" "EMAC_SA2 \<in> A" using assms by simp_all
  then show ?thesis
    by (simp add: rflpc_eth_get_mac_address_def split_def Let_def peek_def [symmetric] peek_rd)
qed

lemma set_mac_address:
  assumes "A = {EMAC_SA0, EMAC_SA1, EMAC_SA2}"
  shows "peek D EMAC_SA0 (rflpc_eth_set_mac_address D a d) = shl (ucast (a ! 0)) 8 OR ucast (a ! 1)"
    "peek D EMAC_SA1 (rflpc_eth_set_mac_address D a d) = shl (ucast (a ! 2)) 8 OR ucast (a ! 3)"
    "peek D EMAC_SA2 (rflpc_eth_set_mac_address D a d) = shl (ucast (a ! 4)) 8 OR ucast (a ! 5)"
proof -
  have "EMAC_SA0 \<in> A" "EMAC_SA1 \<in> A" "EMAC_SA2 \<in> A" using assms by simp_all
  then show "peek D EMAC_SA0 (rflpc_eth_set_mac_address D a d) = shl (ucast (a ! 0)) 8 OR ucast (a ! 1)"
    "peek D EMAC_SA1 (rflpc_eth_set_mac_address D a d) = shl (ucast (a ! 2)) 8 OR ucast (a ! 3)"
    "peek D EMAC_SA2 (rflpc_eth_set_mac_address D a d) = shl (ucast (a ! 4)) 8 OR ucast (a ! 5)"
    by (simp_all add: rflpc_eth_set_mac_address_def Let_def peek_wr reg_addr)
qed

end

section \<open>Properties\<close>

lemma find_divider_takeWhile:
  "find_divider cs divider i = i + length (takeWhile (\<lambda>c. c < divider) cs)"
  by (induction cs arbitrary: i) auto

text \<open>The divider chosen for the MII clock: for every system clock of the chip (up to 100 MHz) it
  is an entry of the table, the smallest one that is not below the clock's multiple of 2.5 MHz, so the
  MII clock stays under 2.5 MHz but for the rounding of that multiple.\<close>

theorem mii_clock_divider:
  assumes "unat system_clock \<le> 100000000"
  shows "\<exists>k < 9. mii_clock_select system_clock = k + 1 \<and>
    unat system_clock < (clock_dividers ! k + 1) * 2500000 \<and>
    (2500000 dvd unat system_clock \<longrightarrow> unat system_clock div clock_dividers ! k \<le> 2500000) \<and>
    (\<forall>j < k. clock_dividers ! j * 2500000 < unat system_clock)"
proof -
  define dv where "dv = unat system_clock div 2500000"
  define k where "k = length (takeWhile (\<lambda>c. c < dv) clock_dividers)"
  have le: "dv \<le> 40" using assms by (simp add: dv_def)
  have "\<not> (\<forall>c \<in> set clock_dividers. c < dv)" using le by (simp add: clock_dividers_def)
  then have "k < length clock_dividers"
    unfolding k_def by (metis length_takeWhile_le nat_less_le takeWhile_eq_all_conv takeWhile_eq_take take_all_iff)
  then have k9: "k < 9" by (simp add: clock_dividers_def)
  have big: "dv \<le> clock_dividers ! k"
    using nth_length_takeWhile [of "\<lambda>c. c < dv" clock_dividers] \<open>k < length clock_dividers\<close>
    by (simp add: k_def)
  have small: "clock_dividers ! j < dv" if "j < k" for j
    using that nth_mem [of j "takeWhile (\<lambda>c. c < dv) clock_dividers"]
    by (auto simp: k_def takeWhile_nth dest: set_takeWhileD)
  have "clock_dividers ! k \<in> set clock_dividers" using \<open>k < length clock_dividers\<close> by simp
  then have pos: "0 < clock_dividers ! k" by (auto simp: clock_dividers_def)
  have "unat system_clock < (dv + 1) * 2500000" by (simp add: dv_def)
  also have "\<dots> \<le> (clock_dividers ! k + 1) * 2500000" using big by simp
  finally have upper: "unat system_clock < (clock_dividers ! k + 1) * 2500000" .
  have exact: "unat system_clock div clock_dividers ! k \<le> 2500000" if "2500000 dvd unat system_clock"
  proof -
    have "unat system_clock = dv * 2500000" using that by (simp add: dv_def)
    also have "\<dots> \<le> 2500000 * clock_dividers ! k" using big by simp
    finally show ?thesis using pos by (metis div_le_mono nonzero_mult_div_cancel_right not_gr_zero)
  qed
  have below: "clock_dividers ! j * 2500000 < unat system_clock" if "j < k" for j
  proof -
    have "clock_dividers ! j * 2500000 < dv * 2500000" using small [OF that] by simp
    also have "\<dots> \<le> unat system_clock" by (simp add: dv_def)
    finally show ?thesis .
  qed
  have "mii_clock_select system_clock = k + 1"
    by (simp add: mii_clock_select_def find_divider_takeWhile RFLPC_ETH_MAX_CLOCK_def unat_div k_def dv_def)
  with k9 upper exact below show ?thesis by blast
qed

lemma mii_clock_divider_witness:
  "\<exists>k < 9. mii_clock_select 96000000 = k + 1 \<and>
    unat (96000000 :: u32) < (clock_dividers ! k + 1) * 2500000 \<and>
    (\<forall>j < k. clock_dividers ! j * 2500000 < unat (96000000 :: u32))"
proof -
  have "unat (96000000 :: u32) \<le> 100000000" by simp
  from mii_clock_divider [OF this] show ?thesis by blast
qed

text \<open>\<^verbatim>\<open>rflpc_eth_init\<close> returns 1, whatever the PHY is doing when it is called, and leaves the
  MAC powered, out of reset, in RMII full duplex mode at 100 Mbps with the receive filter passed by,
  with the frame length, the gaps and the MII divider of the system clock set.\<close>

theorem eth_init_registers:
  assumes "mii_phy D A phy" and "mac_regs \<subseteq> A"
  shows "\<exists>d'. rflpc_eth_init D system_clock d = Some (1, d') \<and> mac_started D system_clock d d'"
  using mii_phy.eth_init_returns [OF assms] .

lemma eth_init_registers_witness:
  "\<exists>d'. rflpc_eth_init mii_device 96000000
      \<lparr>mii_ram = (\<lambda>_. 0), mii_busy = 7, phy_file = (\<lambda>_. 0xFFFF), negotiating = 5\<rparr> = Some (1, d') \<and>
    peek mii_device EMAC_MCFG d' = 0x24"
proof -
  let ?d = "\<lparr>mii_ram = (\<lambda>_. 0), mii_busy = 7, phy_file = (\<lambda>_. 0xFFFF), negotiating = 5\<rparr>"
  have "mac_regs \<subseteq> mii_regs" by (simp add: mac_regs_def reg_addr)
  from eth_init_registers [OF model_mii.mii_phy_axioms this, of 96000000 ?d]
  obtain d' where d': "rflpc_eth_init mii_device 96000000 ?d = Some (1, d')"
      "mac_started mii_device 96000000 ?d d'" by blast
  have "mii_clock_select 96000000 = 9"
    by (simp add: mii_clock_select_def clock_dividers_def RFLPC_ETH_MAX_CLOCK_def)
  with d'(2) have "peek mii_device EMAC_MCFG d' = 0x24"
    by (simp add: mac_started_def put_field_def mask_eq_exp_minus_1)
  with d'(1) show ?thesis by blast
qed

text \<open>C36. Auto-negotiation, with a PHY of which only the register accesses and the end of a reset are
  assumed. Without a link at the call it returns -1 and changes no register of the MAC. With a link the negotiation
  is restarted, which may drop the link, and the loop waits for the first read of the status with the bit for complete:
  without one the function never returns; after one it looks at the link again, and without a link then it
  returns -1 with no register of the MAC changed, while with a link it returns 0, the MAC's speed and duplex bits
  agree with the mode the PHY reports at that moment, and no other bit of its registers has changed.\<close>

theorem auto_negociation:
  assumes "mii_phy D A phy" and "{EMAC_SUPP, EMAC_MAC2, EMAC_Command} \<subseteq> A"
  shows "if \<not> phy_link phy d
    then \<exists>d'. rflpc_eth_link_auto_negociate D m d = Some (- 1, d') \<and> (\<forall>a \<in> A. peek D a d' = peek D a d)
    else \<exists>e. eth_negociation_start D m (phy_reads D RFLPC_ETH_PHY_BMSR 1 d) = Some e \<and>
      ((\<forall>n. \<not> phy_complete phy (phy_reads D RFLPC_ETH_PHY_BMSR n e)) \<longrightarrow> rflpc_eth_link_auto_negociate D m d = None) \<and>
      (\<forall>n. phy_complete phy (phy_reads D RFLPC_ETH_PHY_BMSR n e) \<longrightarrow>
        (\<forall>k < n. \<not> phy_complete phy (phy_reads D RFLPC_ETH_PHY_BMSR k e)) \<longrightarrow>
        (let f = phy_reads D RFLPC_ETH_PHY_BMSR (Suc n) e;
             s = phy RFLPC_ETH_PHY_PHYSTS (phy_reads D RFLPC_ETH_PHY_BMSR 1 f)
         in if phy_link phy f
            then \<exists>d'. rflpc_eth_link_auto_negociate D m d = Some (0, d') \<and> mac_mode D (\<not> bit s 1) (bit s 2) d d' \<and>
              (\<forall>a \<in> A - {EMAC_SUPP, EMAC_MAC2, EMAC_Command}. peek D a d' = peek D a d)
            else \<exists>d'. rflpc_eth_link_auto_negociate D m d = Some (- 1, d') \<and> (\<forall>a \<in> A. peek D a d' = peek D a d)))"
proof (cases "phy_link phy d")
  case False
  with mii_phy.auto_negociate_no_link [OF assms(1) False, of m] mii_phy.reads_keep [OF assms(1)]
  show ?thesis by simp
next
  case True
  obtain e where e: "eth_negociation_start D m (phy_reads D RFLPC_ETH_PHY_BMSR 1 d) = Some e"
    using mii_phy.negociation_start_returns [OF assms(1)] by blast
  have never: "\<forall>n. \<not> phy_complete phy (phy_reads D RFLPC_ETH_PHY_BMSR n e) \<Longrightarrow> rflpc_eth_link_auto_negociate D m d = None"
    using mii_phy.auto_negociate_link [OF assms(1) True e] mii_phy.negociation_end_never [OF assms(1), of e] by simp
  note ends = mii_phy.auto_negociate_ends [OF assms True e _ _ refl refl refl]
  from True have linked: "\<not> \<not> phy_link phy d" by simp
  show ?thesis
    unfolding Let_def if_not_P [OF linked]
    by (intro exI [of _ e] conjI allI impI, rule e, erule never, erule ends, assumption)
qed

lemma if_linked: "if \<not> P then X else Y \<Longrightarrow> P \<Longrightarrow> Y"
  by simp

lemma auto_negociation_witness:
  "\<exists>d'. rflpc_eth_link_auto_negociate mii_device RFLPC_ETH_LINK_MODE_100FD
      \<lparr>mii_ram = (\<lambda>_. 0x680), mii_busy = 0, phy_file = (\<lambda>_. 4), negotiating = 0\<rparr> = Some (0, d')"
proof -
  let ?d = "\<lparr>mii_ram = (\<lambda>_. 0x680), mii_busy = 0, phy_file = (\<lambda>_. 4), negotiating = 0\<rparr>"
  have "{EMAC_SUPP, EMAC_MAC2, EMAC_Command} \<subseteq> mii_regs" by (simp add: reg_addr)
  note linked = auto_negociation [OF model_mii.mii_phy_axioms this, of ?d RFLPC_ETH_LINK_MODE_100FD]
  have "phy_link phy_value ?d" by (simp add: phy_link_value)
  from if_linked [OF linked this] obtain e
    where e: "eth_negociation_start mii_device RFLPC_ETH_LINK_MODE_100FD
        (phy_reads mii_device RFLPC_ETH_PHY_BMSR 1 ?d) = Some e"
      and first: "\<forall>n. phy_complete phy_value (phy_reads mii_device RFLPC_ETH_PHY_BMSR n e) \<longrightarrow>
        (\<forall>k < n. \<not> phy_complete phy_value (phy_reads mii_device RFLPC_ETH_PHY_BMSR k e)) \<longrightarrow>
        phy_link phy_value (phy_reads mii_device RFLPC_ETH_PHY_BMSR (Suc n) e) \<longrightarrow>
        (\<exists>d'. rflpc_eth_link_auto_negociate mii_device RFLPC_ETH_LINK_MODE_100FD ?d = Some (0, d'))"
    unfolding Let_def by (metis (no_types, lifting))
  have "bit (phy_file e RFLPC_ETH_PHY_BMSR) 2"
    using mii_start_keeps [OF e] by (simp add: mii_phy_reads)
  then show ?thesis
    using first [rule_format, of "negotiating e"] by (simp add: phy_complete_value phy_link_value mii_phy_reads)
qed

text \<open>The MAC address: six bytes set and read back are the same bytes.\<close>

theorem mac_address_roundtrip:
  assumes "config_regs D {EMAC_SA0, EMAC_SA1, EMAC_SA2}" and "length a = 6"
  shows "fst (rflpc_eth_get_mac_address D (rflpc_eth_set_mac_address D a d)) = a"
proof -
  obtain a0 a1 a2 a3 a4 a5 where "a = [a0, a1, a2, a3, a4, a5]"
    using assms(2) by (auto simp: length_Suc_conv numeral_eq_Suc)
  then show ?thesis
    by (simp add: config_regs.get_mac_address [OF assms(1)] config_regs.set_mac_address [OF assms(1)]
        address_bytes(1) [simplified] address_bytes(2))
qed

lemma mac_address_roundtrip_witness:
  "fst (rflpc_eth_get_mac_address mem_device (rflpc_eth_set_mac_address mem_device
      [0x02, 0x23, 0x45, 0x67, 0x89, 0xAB] (\<lambda>_. 0))) = [0x02, 0x23, 0x45, 0x67, 0x89, 0xAB]"
  using mac_address_roundtrip [OF mem.config_regs_axioms, of "[0x02, 0x23, 0x45, 0x67, 0x89, 0xAB]" "\<lambda>_. 0"]
  by simp

end
