(* ===== verification/Eth_Ring.thy ===== *)
theory Eth_Ring
  imports Ethernet
begin

text \<open>
  The descriptor rings of \<^verbatim>\<open>rflpc17xx/drivers/ethernet.h\<close> and \<^verbatim>\<open>ethernet.c\<close>. A ring has one
  index that the software moves and one that the hardware moves, at any time: the hardware may
  advance before each read. The contract of the transmit side is the locale \<open>eth_tx\<close>, that of
  the receive side \<open>eth_rx\<close>.
\<close>

section \<open>Descriptors and status words\<close>

record rflpc_eth_descriptor_t =
  packet :: addr
  control :: u32

record rflpc_eth_rx_status_t =
  rx_status_info :: u32
  status_hash_crc :: u32

record rflpc_eth_tx_status_t =
  tx_status_info :: u32

definition sizeof_descriptor :: u32 where "sizeof_descriptor = 8"
definition sizeof_rx_status :: u32 where "sizeof_rx_status = 8"
definition sizeof_tx_status :: u32 where "sizeof_tx_status = 4"

definition rflpc_eth_get_packet_size :: "u32 \<Rightarrow> u32" where
  "rflpc_eth_get_packet_size status_info = (status_info AND 0x7FF) + 1"

definition rflpc_eth_set_tx_control_word :: "u32 \<Rightarrow> u32 \<Rightarrow> u32 \<Rightarrow> u32" where
  "rflpc_eth_set_tx_control_word size_to_send trigger_it last_fragment =
     ((((size_to_send - 1) AND 0x7FF) OR shl (last_fragment AND 1) 30) OR shl (trigger_it AND 1) 31) OR
     shl 1 26 OR shl 1 28 OR shl 1 29"

section \<open>Base addresses\<close>

definition rflpc_eth_set_rx_base_addresses ::
  "'d device \<Rightarrow> addr \<Rightarrow> addr \<Rightarrow> u32 \<Rightarrow> 'd \<Rightarrow> 'd" where
  "rflpc_eth_set_rx_base_addresses D descriptors status count d =
     (let d = reg_and D EMAC_Command (NOT RFLPC_ETH_CMD_RX_ENABLE) d;
          d = reg_and D EMAC_MAC1 (NOT RFLPC_ETH_MAC1_RECEIVE_ENABLE) d;
          d = dev_wr D EMAC_RxDescriptor descriptors d;
          d = dev_wr D EMAC_RxStatus status d;
          d = dev_wr D EMAC_RxDescriptorNumber (count - 1) d;
          (p, d) = dev_rd D EMAC_RxProduceIndex d;
          d = dev_wr D EMAC_RxConsumeIndex p d;
          d = reg_or D EMAC_Command RFLPC_ETH_CMD_RX_ENABLE d;
          d = reg_or D EMAC_MAC1 RFLPC_ETH_MAC1_RECEIVE_ENABLE d
      in d)"

definition rflpc_eth_set_tx_base_addresses ::
  "'d device \<Rightarrow> addr \<Rightarrow> addr \<Rightarrow> u32 \<Rightarrow> 'd \<Rightarrow> 'd" where
  "rflpc_eth_set_tx_base_addresses D descriptors status count d =
     (let d = reg_and D EMAC_Command (NOT RFLPC_ETH_CMD_TX_ENABLE) d;
          d = dev_wr D EMAC_TxDescriptor descriptors d;
          d = dev_wr D EMAC_TxStatus status d;
          d = dev_wr D EMAC_TxDescriptorNumber (count - 1) d;
          (c, d) = dev_rd D EMAC_TxConsumeIndex d;
          d = dev_wr D EMAC_TxProduceIndex c d;
          d = reg_or D EMAC_Command RFLPC_ETH_CMD_TX_ENABLE d
      in d)"

section \<open>Reception\<close>

definition rflpc_eth_rx_available :: "'d device \<Rightarrow> 'd \<Rightarrow> bool \<times> 'd" where
  "rflpc_eth_rx_available D d =
     (let (c, d) = dev_rd D EMAC_RxConsumeIndex d;
          (p, d) = dev_rd D EMAC_RxProduceIndex d
      in (c \<noteq> p, d))"

text \<open>\<^const>\<open>None\<close> is the return value 0, with the two pointers left alone.\<close>

definition rflpc_eth_get_current_rx_packet_descriptor ::
  "'d device \<Rightarrow> 'd \<Rightarrow> (addr \<times> addr) option \<times> 'd" where
  "rflpc_eth_get_current_rx_packet_descriptor D d =
     (let (c, d) = dev_rd D EMAC_RxConsumeIndex d;
          (p, d) = dev_rd D EMAC_RxProduceIndex d
      in if c = p then (None, d)
         else
           (let (db, d) = dev_rd D EMAC_RxDescriptor d;
                (c1, d) = dev_rd D EMAC_RxConsumeIndex d;
                (sb, d) = dev_rd D EMAC_RxStatus d;
                (c2, d) = dev_rd D EMAC_RxConsumeIndex d
            in (Some (db + sizeof_descriptor * c1, sb + sizeof_rx_status * c2), d)))"

definition rflpc_eth_done_process_rx_packet :: "'d device \<Rightarrow> 'd \<Rightarrow> 'd" where
  "rflpc_eth_done_process_rx_packet D d =
     (let (c, d) = dev_rd D EMAC_RxConsumeIndex d;
          (p, d) = dev_rd D EMAC_RxProduceIndex d
      in if c = p then d
         else
           (let (c, d) = dev_rd D EMAC_RxConsumeIndex d;
                (n, d) = dev_rd D EMAC_RxDescriptorNumber d
            in if c = n then dev_wr D EMAC_RxConsumeIndex 0 d
               else rmw D EMAC_RxConsumeIndex (\<lambda>c. c + 1) d))"

section \<open>Transmission\<close>

definition TX_PRODUCE_INDEX_INC :: "'d device \<Rightarrow> u32 \<Rightarrow> 'd \<Rightarrow> u32 \<times> 'd" where
  "TX_PRODUCE_INDEX_INC D inc d =
     (let (p, d) = dev_rd D EMAC_TxProduceIndex d;
          (n, d) = dev_rd D EMAC_TxDescriptorNumber d
      in ((p + inc) mod (n + 1), d))"

text \<open>The test that opens both functions: \<^verbatim>\<open>INC(idx) == TxConsumeIndex - 1 ||
  (INC(idx) == TxDescriptorNumber && TxConsumeIndex == 0)\<close>, with its short circuits.\<close>

definition tx_queue_full :: "'d device \<Rightarrow> u32 \<Rightarrow> 'd \<Rightarrow> bool \<times> 'd" where
  "tx_queue_full D idx d =
     (let (x, d) = TX_PRODUCE_INDEX_INC D idx d;
          (c, d) = dev_rd D EMAC_TxConsumeIndex d
      in if x = c - 1 then (True, d)
         else
           (let (x, d) = TX_PRODUCE_INDEX_INC D idx d;
                (n, d) = dev_rd D EMAC_TxDescriptorNumber d
            in if x = n then (let (c, d) = dev_rd D EMAC_TxConsumeIndex d in (c = 0, d))
               else (False, d)))"

definition rflpc_eth_get_current_tx_packet_descriptor ::
  "'d device \<Rightarrow> u32 \<Rightarrow> 'd \<Rightarrow> (addr \<times> addr) option \<times> 'd" where
  "rflpc_eth_get_current_tx_packet_descriptor D idx d =
     (let (full, d) = tx_queue_full D idx d
      in if full then (None, d)
         else
           (let (db, d) = dev_rd D EMAC_TxDescriptor d;
                (x1, d) = TX_PRODUCE_INDEX_INC D idx d;
                (sb, d) = dev_rd D EMAC_TxStatus d;
                (x2, d) = TX_PRODUCE_INDEX_INC D idx d
            in (Some (db + sizeof_descriptor * x1, sb + sizeof_tx_status * x2), d)))"

definition rflpc_eth_get_last_sent_packet_idx :: "'d device \<Rightarrow> 'd \<Rightarrow> u32 \<times> 'd" where
  "rflpc_eth_get_last_sent_packet_idx D d =
     (let (c, d) = dev_rd D EMAC_TxConsumeIndex d;
          idx = c - 1
      in if sint idx < 0 then dev_rd D EMAC_TxDescriptorNumber d else (idx, d))"

definition rflpc_eth_done_process_tx_packet :: "'d device \<Rightarrow> u32 \<Rightarrow> 'd \<Rightarrow> 'd" where
  "rflpc_eth_done_process_tx_packet D count d =
     (let (full, d) = tx_queue_full D (count - 1) d
      in if full then d
         else (let (x, d) = TX_PRODUCE_INDEX_INC D count d in dev_wr D EMAC_TxProduceIndex x d))"

section \<open>The contract of the transmit side\<close>

text \<open>The slots of the descriptors the hardware owns.\<close>

definition owned_slots :: "nat \<Rightarrow> nat \<Rightarrow> nat \<Rightarrow> nat set" where
  "owned_slots n front back = (\<lambda>k. k mod n) ` {front..<back}"

text \<open>
  \<open>handed d\<close> and \<open>sent d\<close> count the descriptors given to the hardware and those it has
  sent, since the ring was set up; the registers hold them modulo the size \<open>n\<close> of the
  ring. On any read the hardware may send more of what it was handed.
\<close>

definition tx_moves :: "('d \<Rightarrow> nat) \<Rightarrow> ('d \<Rightarrow> nat) \<Rightarrow> 'd \<Rightarrow> 'd \<Rightarrow> bool" where
  "tx_moves handed sent d d' \<longleftrightarrow> handed d' = handed d \<and> sent d \<le> sent d' \<and> sent d' \<le> handed d"

definition ring_ok :: "nat \<Rightarrow> nat \<Rightarrow> nat \<Rightarrow> bool" where
  "ring_ok n front back \<longleftrightarrow> front \<le> back \<and> back - front < n"

text \<open>The free descriptors, when one is always kept empty.\<close>

definition ring_free :: "nat \<Rightarrow> nat \<Rightarrow> nat \<Rightarrow> nat" where
  "ring_free n front back = n - 1 - (back - front)"

lemma ring_full_index:
  assumes "ring_ok n s h" and "i \<le> ring_free n s h"
  shows "s mod n \<noteq> 0 \<Longrightarrow> (h + i) mod n + 1 = s mod n \<longleftrightarrow> i = ring_free n s h"
    and "s mod n = 0 \<Longrightarrow> (h + i) mod n = n - 1 \<longleftrightarrow> i = ring_free n s h"
proof -
  define u where "u = h + i - s"
  define c where "c = s mod n"
  have bounds: "s \<le> h" "h - s < n" using assms(1) by (auto simp: ring_ok_def)
  then have u: "h + i = s + u" "u < n" "i = ring_free n s h \<longleftrightarrow> u = n - 1"
    using assms(2) by (auto simp: u_def ring_free_def)
  have c: "c < n" using bounds by (simp add: c_def)
  have "(h + i) mod n = (c + u) mod n" by (simp add: u(1) c_def mod_add_left_eq)
  also have "\<dots> = (if c + u < n then c + u else c + u - n)"
    using c u(2) by (simp add: mod_if [of "c + u"])
  finally have x: "(h + i) mod n = (if c + u < n then c + u else c + u - n)" .
  show "s mod n \<noteq> 0 \<Longrightarrow> (h + i) mod n + 1 = s mod n \<longleftrightarrow> i = ring_free n s h"
    using x u c by (fold c_def) (auto split: if_splits)
  show "s mod n = 0 \<Longrightarrow> (h + i) mod n = n - 1 \<longleftrightarrow> i = ring_free n s h"
    using x u c by (fold c_def) (auto split: if_splits)
qed

lemma free_slot_not_owned:
  assumes "ring_ok n s h" and "i < ring_free n s h"
  shows "(h + i) mod n \<notin> owned_slots n s h"
proof
  assume "(h + i) mod n \<in> owned_slots n s h"
  then obtain k where k: "s \<le> k" "k < h" "(h + i) mod n = k mod n"
    by (auto simp: owned_slots_def)
  then have "n dvd h + i - k" by (simp add: mod_eq_dvd_iff_nat)
  moreover have "0 < h + i - k" "h + i - k < n"
    using assms k unfolding ring_ok_def ring_free_def by linarith+
  ultimately show False by (simp add: nat_dvd_not_less)
qed

lemma ring_advance:
  assumes "c < (n :: nat)"
  shows "((h + c) mod n + n - h mod n) mod n = c"
proof -
  define r where "r = h mod n"
  have r: "r < n" using assms by (simp add: r_def)
  have "(h + c) mod n = (r + c) mod n" by (simp add: r_def mod_add_left_eq)
  also have "\<dots> = (if r + c < n then r + c else r + c - n)"
    using r assms by (simp add: mod_if [of "r + c"])
  finally show ?thesis using r assms by (fold r_def) (auto simp: mod_if)
qed

locale eth_tx =
  fixes D :: "'d device" and n :: nat and handed sent :: "'d \<Rightarrow> nat" and db sb :: addr
  assumes size: "0 < n" "n \<le> 65536"
    and rd_number: "fst (dev_rd D EMAC_TxDescriptorNumber d) = of_nat (n - 1)"
    and rd_produce: "fst (dev_rd D EMAC_TxProduceIndex d) = of_nat (handed d mod n)"
    and rd_consume: "fst (dev_rd D EMAC_TxConsumeIndex d) =
        of_nat (sent (snd (dev_rd D EMAC_TxConsumeIndex d)) mod n)"
    and rd_bases: "fst (dev_rd D EMAC_TxDescriptor d) = db" "fst (dev_rd D EMAC_TxStatus d) = sb"
    and rd_moves: "sent d \<le> handed d \<Longrightarrow> tx_moves handed sent d (snd (dev_rd D a d))"
    and wr_produce: "k < n \<Longrightarrow> handed (dev_wr D EMAC_TxProduceIndex (of_nat k) d) =
        handed d + (k + n - handed d mod n) mod n"
      "sent (dev_wr D EMAC_TxProduceIndex w d) = sent d"
begin

lemma moves_refl: "sent d \<le> handed d \<Longrightarrow> tx_moves handed sent d d"
  by (simp add: tx_moves_def)

lemma moves_trans: "tx_moves handed sent d e \<Longrightarrow> tx_moves handed sent e f \<Longrightarrow> tx_moves handed sent d f"
  by (auto simp: tx_moves_def)

lemma moves_ok: "tx_moves handed sent d e \<Longrightarrow> ring_ok n (sent d) (handed d) \<Longrightarrow> ring_ok n (sent e) (handed e)"
  by (auto simp: tx_moves_def ring_ok_def)

lemma size_word: "unat (of_nat (n - 1) + 1 :: u32) = n" "of_nat (n - 1) + 1 = (of_nat n :: u32)"
  using size by (simp_all add: of_nat_diff unat_of_nat)

lemma mod_small: "k mod n < 65536" "k mod n < 4294967295" "k mod n < 4294967296"
proof -
  have "k mod n < n" using size(1) by simp
  then show "k mod n < 65536" using size(2) by (rule less_le_trans)
  then show "k mod n < 4294967295" "k mod n < 4294967296" by simp_all
qed

lemma inc_eq:
  assumes "sent d \<le> handed d" and "unat idx \<le> 65536"
  shows "\<exists>d'. TX_PRODUCE_INDEX_INC D idx d = (of_nat ((handed d + unat idx) mod n), d') \<and>
    tx_moves handed sent d d'"
proof -
  obtain d1 where d1: "dev_rd D EMAC_TxProduceIndex d = (of_nat (handed d mod n), d1)"
    using rd_produce by (metis prod.collapse)
  obtain d2 where d2: "dev_rd D EMAC_TxDescriptorNumber d1 = (of_nat (n - 1), d2)"
    using rd_number by (metis prod.collapse)
  have "tx_moves handed sent d d1" using rd_moves [OF assms(1), of EMAC_TxProduceIndex] d1 by simp
  moreover from this have "tx_moves handed sent d1 d2"
    using rd_moves [of d1 EMAC_TxDescriptorNumber] d2 by (simp add: tx_moves_def)
  ultimately have "tx_moves handed sent d d2" by (rule moves_trans)
  moreover have "(of_nat (handed d mod n) + idx) mod (of_nat (n - 1) + 1) =
      (of_nat ((handed d + unat idx) mod n) :: u32)"
  proof (rule word_unat_eq_iff [THEN iffD2])
    have small: "handed d mod n < 65536" by (rule mod_small)
    then have "unat (of_nat (handed d mod n) :: u32) = handed d mod n"
      by (simp add: unat_of_nat)
    then have "unat (of_nat (handed d mod n) + idx :: u32) = handed d mod n + unat idx"
      using small assms(2) by (simp add: unat_word_ariths)
    moreover have "unat (of_nat ((handed d + unat idx) mod n) :: u32) = (handed d + unat idx) mod n"
      by (simp add: unat_of_nat mod_small)
    ultimately show "unat ((of_nat (handed d mod n) + idx) mod (of_nat (n - 1) + 1) :: u32) =
        unat (of_nat ((handed d + unat idx) mod n) :: u32)"
      by (simp only: unat_mod size_word(1) mod_add_left_eq)
  qed
  ultimately show ?thesis
    using d1 d2 by (intro exI [of _ d2]) (simp add: TX_PRODUCE_INDEX_INC_def)
qed

text \<open>The test for a full ring is right even when the hardware moves between its reads.\<close>

lemma tx_queue_full_eq:
  assumes ok: "ring_ok n (sent d) (handed d)" and idx: "unat idx \<le> ring_free n (sent d) (handed d)"
  shows "\<exists>b d'. tx_queue_full D idx d = (b, d') \<and> tx_moves handed sent d d' \<and>
    (if b then \<exists>e. tx_moves handed sent d e \<and> tx_moves handed sent e d' \<and>
        unat idx = ring_free n (sent e) (handed e)
     else unat idx < ring_free n (sent d') (handed d'))"
proof -
  let ?m = "tx_moves handed sent" and ?x = "of_nat ((handed d + unat idx) mod n) :: u32"
  have le: "sent d \<le> handed d" using ok by (simp add: ring_ok_def)
  have small: "unat idx \<le> 65536" using idx size by (simp add: ring_free_def)
  have xlt: "(handed d + unat idx) mod n < n" using size by simp
  have inj: "a < 4294967296 \<Longrightarrow> b < 4294967296 \<Longrightarrow> of_nat a = (of_nat b :: u32) \<longleftrightarrow> a = b" for a b
    by (rule of_nat_word_inj) simp_all
  obtain d1 where d1: "TX_PRODUCE_INDEX_INC D idx d = (?x, d1)" "?m d d1"
    using inc_eq [OF le small] by blast
  have d1': "sent d1 \<le> handed d1" "handed d1 = handed d" using d1(2) by (auto simp: tx_moves_def)
  define d2 where "d2 = snd (dev_rd D EMAC_TxConsumeIndex d1)"
  have rd2: "dev_rd D EMAC_TxConsumeIndex d1 = (of_nat (sent d2 mod n), d2)"
    using rd_consume by (simp add: d2_def prod_eq_iff)
  have m2: "?m d d2" using moves_trans [OF d1(2)] rd_moves [OF d1'(1)] by (simp add: d2_def)
  have ok2: "ring_ok n (sent d2) (handed d)" using moves_ok [OF m2 ok] m2 by (simp add: tx_moves_def)
  have idx2: "unat idx \<le> ring_free n (sent d2) (handed d)"
    using idx m2 unfolding ring_free_def tx_moves_def by linarith
  have free2: "ring_free n (sent d2) (handed d2) = ring_free n (sent d2) (handed d)"
    using m2 by (simp add: tx_moves_def)
  show ?thesis
  proof (cases "?x = of_nat (sent d2 mod n) - 1")
    case True
    then have "(of_nat ((handed d + unat idx) mod n + 1) :: u32) = of_nat (sent d2 mod n)"
      by simp
    then have eq: "(handed d + unat idx) mod n + 1 = sent d2 mod n"
      by (subst (asm) inj) (simp_all add: mod_small)
    with ring_full_index(1) [OF ok2 idx2] have "unat idx = ring_free n (sent d2) (handed d)" by simp
    moreover have "tx_queue_full D idx d = (True, d2)"
      using True d1(1) rd2 by (simp add: tx_queue_full_def)
    ultimately show ?thesis
      using m2 free2 moves_refl [of d2] by (intro exI [of _ True] exI [of _ d2])
        (auto simp: tx_moves_def)
  next
    case False
    have first: "unat idx \<noteq> ring_free n (sent d2) (handed d)" if "sent d2 mod n \<noteq> 0"
    proof
      assume "unat idx = ring_free n (sent d2) (handed d)"
      with ring_full_index(1) [OF ok2 idx2 that] have "(handed d + unat idx) mod n + 1 = sent d2 mod n" by simp
      then have "of_nat ((handed d + unat idx) mod n + 1) = (of_nat (sent d2 mod n) :: u32)"
        by (rule arg_cong)
      with False show False by (simp only: of_nat_add of_nat_1 eq_diff_eq not_True_eq_False)
    qed
    have le2: "sent d2 \<le> handed d2" "handed d2 = handed d" using m2 by (auto simp: tx_moves_def)
    obtain d3 where d3: "TX_PRODUCE_INDEX_INC D idx d2 = (?x, d3)" "?m d2 d3"
      using inc_eq [OF le2(1) small] le2(2) by auto
    define d4 where "d4 = snd (dev_rd D EMAC_TxDescriptorNumber d3)"
    have rd4: "dev_rd D EMAC_TxDescriptorNumber d3 = (of_nat (n - 1), d4)"
      using rd_number by (simp add: d4_def prod_eq_iff)
    have "sent d3 \<le> handed d3" using d3(2) by (auto simp: tx_moves_def)
    from moves_trans [OF d3(2) rd_moves [OF this]] have m4: "?m d2 d4" by (simp add: d4_def)
    define d5 where "d5 = snd (dev_rd D EMAC_TxConsumeIndex d4)"
    have rd5: "dev_rd D EMAC_TxConsumeIndex d4 = (of_nat (sent d5 mod n), d5)"
      using rd_consume by (simp add: d5_def prod_eq_iff)
    have "sent d4 \<le> handed d4" using m4 by (auto simp: tx_moves_def)
    from moves_trans [OF m4 rd_moves [OF this]] have m5: "?m d2 d5" by (simp add: d5_def)
    have room: "ring_free n (sent d2) (handed d) \<le> ring_free n (sent e) (handed e)"
      "sent e \<noteq> sent d2 \<Longrightarrow> ring_free n (sent d2) (handed d) < ring_free n (sent e) (handed e)"
      if "?m d2 e" for e
      using that le2 ok2 unfolding ring_free_def tx_moves_def ring_ok_def by linarith+
    have run: "tx_queue_full D idx d =
        (if (handed d + unat idx) mod n = n - 1 then (sent d5 mod n = 0, d5) else (False, d4))"
    proof -
      have "?x = of_nat (n - 1) \<longleftrightarrow> (handed d + unat idx) mod n = n - 1"
        using size by (intro inj mod_small) simp
      moreover have "(of_nat (sent d5 mod n) :: u32) = 0 \<longleftrightarrow> sent d5 mod n = 0"
        using inj [of "sent d5 mod n" 0] mod_small by simp
      ultimately show ?thesis
        using False d1(1) rd2 d3(1) rd4 rd5 by (simp add: tx_queue_full_def)
    qed
    show ?thesis
    proof (cases "(handed d + unat idx) mod n = n - 1")
      case other: False
      then have "unat idx \<noteq> ring_free n (sent d2) (handed d)"
        using first ring_full_index(2) [OF ok2 idx2] by blast
      with idx2 room(1) [OF m4] have "unat idx < ring_free n (sent d4) (handed d4)" by simp
      with run other moves_trans [OF m2 m4] show ?thesis by auto
    next
      case last: True
      have ok5: "ring_ok n (sent d5) (handed d)" "handed d5 = handed d"
        using moves_ok [OF m5] ok2 le2 m5 by (auto simp: tx_moves_def)
      have idx5: "unat idx \<le> ring_free n (sent d5) (handed d)"
        using idx2 room(1) [OF m5] ok5(2) by simp
      show ?thesis
      proof (cases "sent d5 mod n = 0")
        case True
        with ring_full_index(2) [OF ok5(1) idx5] last have "unat idx = ring_free n (sent d5) (handed d5)"
          by (simp add: ok5(2))
        moreover have "?m d5 d5" using ok5 by (auto simp: tx_moves_def ring_ok_def)
        ultimately show ?thesis
          using run last True moves_trans [OF m2 m5] by auto
      next
        case False
        have "unat idx < ring_free n (sent d5) (handed d5)"
        proof (cases "sent d2 mod n = 0")
          case True
          with False have "sent d5 \<noteq> sent d2" by auto
          from room(2) [OF m5 this] idx2 show ?thesis by simp
        next
          case False
          from first [OF this] idx2 room(1) [OF m5] show ?thesis by simp
        qed
        with run last False moves_trans [OF m2 m5] show ?thesis by auto
      qed
    qed
  qed
qed

lemma get_tx:
  assumes ok: "ring_ok n (sent d) (handed d)" and idx: "unat idx \<le> ring_free n (sent d) (handed d)"
  shows "\<exists>r d'. rflpc_eth_get_current_tx_packet_descriptor D idx d = (r, d') \<and> tx_moves handed sent d d' \<and>
    (case r of
       None \<Rightarrow> \<exists>e. tx_moves handed sent d e \<and> tx_moves handed sent e d' \<and>
         unat idx = ring_free n (sent e) (handed e)
     | Some (descriptor, status) \<Rightarrow> unat idx < ring_free n (sent d') (handed d') \<and>
         (\<exists>k. k = (handed d + unat idx) mod n \<and> k \<notin> owned_slots n (sent d') (handed d') \<and>
           descriptor = db + 8 * of_nat k \<and> status = sb + 4 * of_nat k))"
proof -
  let ?m = "tx_moves handed sent" and ?x = "of_nat ((handed d + unat idx) mod n) :: u32"
  have small: "unat idx \<le> 65536" using idx size by (simp add: ring_free_def)
  obtain b d1 where full: "tx_queue_full D idx d = (b, d1)" "?m d d1"
    and b: "if b then \<exists>e. ?m d e \<and> ?m e d1 \<and> unat idx = ring_free n (sent e) (handed e)
      else unat idx < ring_free n (sent d1) (handed d1)"
    using tx_queue_full_eq [OF ok idx] by blast
  show ?thesis
  proof (cases b)
    case True
    with full b show ?thesis by (auto simp: rflpc_eth_get_current_tx_packet_descriptor_def)
  next
    case False
    have le: "sent e \<le> handed e" "handed e = handed d" if "?m d e" for e
      using that by (auto simp: tx_moves_def)
    define d2 where "d2 = snd (dev_rd D EMAC_TxDescriptor d1)"
    have m2: "?m d d2" using moves_trans [OF full(2) rd_moves [OF le(1) [OF full(2)]]] by (simp add: d2_def)
    obtain d3 where d3: "TX_PRODUCE_INDEX_INC D idx d2 = (?x, d3)" "?m d2 d3"
      using inc_eq [OF le(1) [OF m2] small] le(2) [OF m2] by auto
    have m3: "?m d d3" by (rule moves_trans [OF m2 d3(2)])
    define d4 where "d4 = snd (dev_rd D EMAC_TxStatus d3)"
    have m4: "?m d d4" using moves_trans [OF m3 rd_moves [OF le(1) [OF m3]]] by (simp add: d4_def)
    obtain d5 where d5: "TX_PRODUCE_INDEX_INC D idx d4 = (?x, d5)" "?m d4 d5"
      using inc_eq [OF le(1) [OF m4] small] le(2) [OF m4] by auto
    have m5: "?m d d5" by (rule moves_trans [OF m4 d5(2)])
    have m15: "sent d1 \<le> sent d5" "handed d5 = handed d1"
      using full(2) m5 d3(2) d5(2) rd_moves [OF le(1) [OF full(2)], of EMAC_TxDescriptor]
        rd_moves [OF le(1) [OF m3], of EMAC_TxStatus]
      by (auto simp: tx_moves_def d2_def d4_def)
    have "rflpc_eth_get_current_tx_packet_descriptor D idx d = (Some (db + 8 * ?x, sb + 4 * ?x), d5)"
      using full(1) False d3(1) d5(1) rd_bases
      by (simp add: rflpc_eth_get_current_tx_packet_descriptor_def split_def Let_def d2_def d4_def
          sizeof_descriptor_def sizeof_tx_status_def)
    moreover have room: "unat idx < ring_free n (sent d5) (handed d5)"
      using b False m15 unfolding ring_free_def by auto
    then have "(handed d + unat idx) mod n \<notin> owned_slots n (sent d5) (handed d5)"
      using free_slot_not_owned [OF moves_ok [OF m5 ok]] le(2) [OF m5] by simp
    ultimately show ?thesis using m5 room by simp
  qed
qed

lemma done_tx:
  assumes ok: "ring_ok n (sent d) (handed d)" and c0: "0 < unat count"
    and count: "unat count - 1 \<le> ring_free n (sent d) (handed d)"
  shows "let d' = rflpc_eth_done_process_tx_packet D count d in
    ring_ok n (sent d') (handed d') \<and> sent d \<le> sent d' \<and>
    (handed d' = handed d + unat count \<or>
     handed d' = handed d \<and>
       (\<exists>e. tx_moves handed sent d e \<and> ring_free n (sent e) (handed e) < unat count))"
proof -
  let ?m = "tx_moves handed sent" and ?x = "of_nat ((handed d + unat count) mod n) :: u32"
  have pred: "unat (count - 1) = unat count - 1"
    using c0 by (metis unat_minus_one unat_eq_zero less_numeral_extra(3))
  obtain b d1 where full: "tx_queue_full D (count - 1) d = (b, d1)" "?m d d1"
    and b: "if b then \<exists>e. ?m d e \<and> ?m e d1 \<and> unat (count - 1) = ring_free n (sent e) (handed e)
      else unat (count - 1) < ring_free n (sent d1) (handed d1)"
    using tx_queue_full_eq [OF ok, of "count - 1"] count pred by auto
  show ?thesis
  proof (cases b)
    case True
    then obtain e where e: "?m d e" "unat count - 1 = ring_free n (sent e) (handed e)"
      using b pred by auto
    have "rflpc_eth_done_process_tx_packet D count d = d1"
      using full(1) True by (simp add: rflpc_eth_done_process_tx_packet_def)
    moreover have "ring_free n (sent e) (handed e) < unat count" using e(2) c0 by linarith
    ultimately show ?thesis
      using full(2) moves_ok [OF full(2) ok] e(1) by (auto simp: tx_moves_def Let_def)
  next
    case False
    have le: "sent d1 \<le> handed d1" "handed d1 = handed d" using full(2) by (auto simp: tx_moves_def)
    have fit: "unat count \<le> ring_free n (sent d1) (handed d1)" using b False pred by simp
    then have lt: "unat count < n" "unat count \<le> 65536"
      using size unfolding ring_free_def by linarith+
    obtain d2 where d2: "TX_PRODUCE_INDEX_INC D count d1 = (?x, d2)" "?m d1 d2"
      using inc_eq [OF le(1) lt(2)] le(2) by auto
    have h2: "handed d2 = handed d" using d2(2) le(2) by (simp add: tx_moves_def)
    have run: "rflpc_eth_done_process_tx_packet D count d = dev_wr D EMAC_TxProduceIndex ?x d2"
      using full(1) False d2(1) by (simp add: rflpc_eth_done_process_tx_packet_def)
    have "(handed d + unat count) mod n < n" using size(1) by simp
    from wr_produce(1) [OF this, of d2]
    have new: "handed (dev_wr D EMAC_TxProduceIndex ?x d2) = handed d + unat count"
      using ring_advance [OF lt(1)] h2 by simp
    have "ring_ok n (sent d2) (handed d + unat count) \<and> sent d \<le> sent d2"
      using d2(2) full(2) fit ok size h2 unfolding ring_ok_def ring_free_def tx_moves_def by linarith
    then show ?thesis
      by (simp add: run new wr_produce(2) Let_def)
  qed
qed

end


section \<open>The contract of the receive side\<close>

definition rx_moves :: "nat \<Rightarrow> ('d \<Rightarrow> nat) \<Rightarrow> ('d \<Rightarrow> nat) \<Rightarrow> 'd \<Rightarrow> 'd \<Rightarrow> bool" where
  "rx_moves n processed received d d' \<longleftrightarrow> processed d' = processed d \<and> received d \<le> received d' \<and>
     ring_ok n (processed d') (received d')"

locale eth_rx =
  fixes D :: "'d device" and n :: nat and processed received :: "'d \<Rightarrow> nat" and db sb :: addr
  assumes size: "0 < n" "n \<le> 65536"
    and rd_number: "fst (dev_rd D EMAC_RxDescriptorNumber d) = of_nat (n - 1)"
    and rd_consume: "fst (dev_rd D EMAC_RxConsumeIndex d) = of_nat (processed d mod n)"
    and rd_produce: "fst (dev_rd D EMAC_RxProduceIndex d) =
        of_nat (received (snd (dev_rd D EMAC_RxProduceIndex d)) mod n)"
    and rd_bases: "fst (dev_rd D EMAC_RxDescriptor d) = db" "fst (dev_rd D EMAC_RxStatus d) = sb"
    and rd_moves: "ring_ok n (processed d) (received d) \<Longrightarrow> rx_moves n processed received d (snd (dev_rd D a d))"
    and wr_consume: "k < n \<Longrightarrow> processed (dev_wr D EMAC_RxConsumeIndex (of_nat k) d) =
        processed d + (k + n - processed d mod n) mod n"
      "received (dev_wr D EMAC_RxConsumeIndex w d) = received d"
begin

lemma rx_trans: "rx_moves n processed received d e \<Longrightarrow> rx_moves n processed received e f \<Longrightarrow>
    rx_moves n processed received d f"
  by (auto simp: rx_moves_def)

lemma rx_next:
  assumes "rx_moves n processed received d f"
  shows "rx_moves n processed received d (snd (dev_rd D a f))"
proof -
  have "ring_ok n (processed f) (received f)" using assms by (auto simp: rx_moves_def)
  from rx_trans [OF assms rd_moves [OF this]] show ?thesis .
qed

lemma mod_small: "k mod n < 4294967295" "k mod n < 4294967296"
proof -
  have "k mod n < n" using size(1) by simp
  then have "k mod n < 65536" using size(2) by (rule less_le_trans)
  then show "k mod n < 4294967295" "k mod n < 4294967296" by simp_all
qed

lemma index_eq: "of_nat (j mod n) = (of_nat (k mod n) :: u32) \<longleftrightarrow> j mod n = k mod n"
  by (rule of_nat_word_inj) (simp_all add: mod_small)

text \<open>The two reads of the test for an empty ring.\<close>

lemma rx_test:
  assumes ok: "ring_ok n (processed d) (received d)"
  shows "\<exists>d1 e x. dev_rd D EMAC_RxConsumeIndex d = (of_nat (processed d mod n), d1) \<and>
    dev_rd D EMAC_RxProduceIndex d1 = (x, e) \<and> rx_moves n processed received d e \<and>
    (of_nat (processed d mod n) = x \<longleftrightarrow> received e = processed e)"
proof -
  define d1 where "d1 = snd (dev_rd D EMAC_RxConsumeIndex d)"
  define e where "e = snd (dev_rd D EMAC_RxProduceIndex d1)"
  have m1: "rx_moves n processed received d d1" using rd_moves [OF ok] by (simp add: d1_def)
  then have m: "rx_moves n processed received d e" unfolding e_def by (rule rx_next)
  have "processed d mod n = received e mod n \<longleftrightarrow> received e = processed e"
  proof
    assume "processed d mod n = received e mod n"
    then have "received e mod n = processed e mod n" "processed e \<le> received e"
      using m by (auto simp: rx_moves_def ring_ok_def)
    then have "n dvd received e - processed e" by (simp add: mod_eq_dvd_iff_nat)
    with m show "received e = processed e"
      by (auto simp: rx_moves_def ring_ok_def dest: nat_dvd_not_less)
  qed (use m in \<open>simp add: rx_moves_def\<close>)
  then show ?thesis
    using m rd_consume [of d] rd_produce [of d1] index_eq [of "processed d" "received e"]
    by (intro exI [of _ d1] exI [of _ e]) (auto simp: d1_def [symmetric] e_def [symmetric] prod_eq_iff)
qed

lemma get_rx:
  assumes ok: "ring_ok n (processed d) (received d)"
  shows "\<exists>r d'. rflpc_eth_get_current_rx_packet_descriptor D d = (r, d') \<and>
    rx_moves n processed received d d' \<and>
    (case r of
       None \<Rightarrow> received d' = processed d'
     | Some (descriptor, status) \<Rightarrow> processed d' < received d' \<and>
         descriptor = db + 8 * of_nat (processed d mod n) \<and> status = sb + 8 * of_nat (processed d mod n))"
proof -
  let ?m = "rx_moves n processed received"
  obtain d1 e x where e: "dev_rd D EMAC_RxConsumeIndex d = (of_nat (processed d mod n), d1)"
      "dev_rd D EMAC_RxProduceIndex d1 = (x, e)" "?m d e"
      "of_nat (processed d mod n) = x \<longleftrightarrow> received e = processed e"
    using rx_test [OF ok] by blast
  show ?thesis
  proof (cases "received e = processed e")
    case True
    with e show ?thesis by (auto simp: rflpc_eth_get_current_rx_packet_descriptor_def)
  next
    case False
    define d2 where "d2 = snd (dev_rd D EMAC_RxDescriptor e)"
    define d3 where "d3 = snd (dev_rd D EMAC_RxConsumeIndex d2)"
    define d4 where "d4 = snd (dev_rd D EMAC_RxStatus d3)"
    define d5 where "d5 = snd (dev_rd D EMAC_RxConsumeIndex d4)"
    have m: "?m d d2" "?m d d3" "?m d d4" "?m d d5"
      using e(3) by (simp_all add: d2_def d3_def d4_def d5_def rx_next)
    have same: "processed d2 = processed d" "processed d4 = processed d"
      using m by (simp_all add: rx_moves_def)
    have "?m e e" using e(3) by (auto simp: rx_moves_def)
    then have "?m e d5" by (simp add: d2_def d3_def d4_def d5_def rx_next)
    then have "processed d5 < received d5" using False e(3) by (auto simp: rx_moves_def ring_ok_def)
    moreover have "rflpc_eth_get_current_rx_packet_descriptor D d =
        (Some (db + 8 * of_nat (processed d mod n), sb + 8 * of_nat (processed d mod n)), d5)"
      using e False rd_bases rd_consume [of d2] rd_consume [of d4] same
      by (simp add: rflpc_eth_get_current_rx_packet_descriptor_def split_def Let_def d2_def d3_def d4_def
          d5_def sizeof_descriptor_def sizeof_rx_status_def)
    ultimately show ?thesis using m(4) by simp
  qed
qed

lemma done_rx:
  assumes ok: "ring_ok n (processed d) (received d)"
  shows "let d' = rflpc_eth_done_process_rx_packet D d in
    ring_ok n (processed d') (received d') \<and> received d \<le> received d' \<and>
    (processed d' = processed d + 1 \<or> processed d' = processed d \<and> received d' = processed d')"
proof -
  let ?m = "rx_moves n processed received"
  obtain d1 e x where e: "dev_rd D EMAC_RxConsumeIndex d = (of_nat (processed d mod n), d1)"
      "dev_rd D EMAC_RxProduceIndex d1 = (x, e)" "?m d e"
      "of_nat (processed d mod n) = x \<longleftrightarrow> received e = processed e"
    using rx_test [OF ok] by blast
  show ?thesis
  proof (cases "received e = processed e")
    case True
    with e show ?thesis by (auto simp: rflpc_eth_done_process_rx_packet_def rx_moves_def Let_def)
  next
    case False
    define d2 where "d2 = snd (dev_rd D EMAC_RxConsumeIndex e)"
    define d3 where "d3 = snd (dev_rd D EMAC_RxDescriptorNumber d2)"
    define d4 where "d4 = snd (dev_rd D EMAC_RxConsumeIndex d3)"
    have "?m e e" using e(3) by (auto simp: rx_moves_def)
    then have m: "?m e d2" "?m e d3" "?m e d4" by (simp_all add: d2_def d3_def d4_def rx_next)
    have p: "processed e = processed d" "processed d3 = processed d" "processed d4 = processed d"
      using m e(3) by (simp_all add: rx_moves_def)
    have room: "processed d < received f" "ring_ok n (processed d) (received f)" if "?m e f" for f
      using that False p e(3) by (auto simp: rx_moves_def ring_ok_def)
    have one: "(processed d + 1) mod n = (if processed d mod n = n - 1 then 0 else processed d mod n + 1)"
      using size(1) by (auto simp: mod_Suc)
    have "1 < n" using room [OF m(1)] by (auto simp: ring_ok_def)
    have adv: "((processed d + 1) mod n + n - processed d mod n) mod n = 1"
      by (rule ring_advance [OF \<open>1 < n\<close>])
    have last: "of_nat (processed d mod n) = (of_nat (n - 1) :: u32) \<longleftrightarrow> processed d mod n = n - 1"
      using index_eq [of "processed d" "n - 1"] size(1) by simp
    have "\<exists>f. ?m e f \<and> processed f = processed d \<and>
        rflpc_eth_done_process_rx_packet D d = dev_wr D EMAC_RxConsumeIndex (of_nat ((processed d + 1) mod n)) f"
    proof (cases "processed d mod n = n - 1")
      case True
      with e False rd_consume [of e] rd_number [of d2] p(1) last
      have "rflpc_eth_done_process_rx_packet D d = dev_wr D EMAC_RxConsumeIndex 0 d3"
        by (simp add: rflpc_eth_done_process_rx_packet_def split_def Let_def d2_def [symmetric] d3_def [symmetric])
      with m(2) p(2) one True show ?thesis by auto
    next
      case other: False
      with e False rd_consume [of e] rd_number [of d2] p(1) last rd_consume [of d3] p(2)
      have "rflpc_eth_done_process_rx_packet D d = dev_wr D EMAC_RxConsumeIndex (of_nat (processed d mod n) + 1) d4"
        by (simp add: rflpc_eth_done_process_rx_packet_def rmw_def split_def Let_def d2_def [symmetric]
            d3_def [symmetric] d4_def [symmetric])
      with m(3) p(3) one other show ?thesis by (intro exI [of _ d4]) (simp add: add.commute)
    qed
    then obtain f where f: "?m e f" "processed f = processed d" "rflpc_eth_done_process_rx_packet D d =
        dev_wr D EMAC_RxConsumeIndex (of_nat ((processed d + 1) mod n)) f" by blast
    have "(processed d + 1) mod n < n" using size(1) by simp
    from wr_consume(1) [OF this, of f] adv f(2)
    have "processed (rflpc_eth_done_process_rx_packet D d) = processed d + 1" by (simp add: f(3))
    moreover have "received d \<le> received f" using f(1) e(3) by (auto simp: rx_moves_def)
    ultimately show ?thesis
      using room [OF f(1)] by (simp add: f(3) wr_consume(2) Let_def ring_ok_def)
  qed
qed

end


section \<open>Runs of the transmit side\<close>

text \<open>
  The states a caller reaches who keeps the driver's two unwritten rules: it asks for the descriptor
  \<open>idx\<close> only when at least \<open>idx\<close> descriptors are free, and hands over \<open>count\<close> descriptors only
  when at least \<open>count - 1\<close> are free. The functions of the driver do not test these rules; the calls
  with index 0 and count 1, which are all those of the repository's programs, keep them in every state.
  Anybody may read registers in between, and the hardware sends at any time.
\<close>

inductive tx_reach :: "'d device \<Rightarrow> ('d \<Rightarrow> nat) \<Rightarrow> 'd \<Rightarrow> 'd \<Rightarrow> bool"
  for D :: "'d device" and free :: "'d \<Rightarrow> nat" and d0 :: 'd where
  tx_start: "tx_reach D free d0 d0"
| tx_read: "tx_reach D free d0 d \<Longrightarrow> tx_reach D free d0 (snd (dev_rd D a d))"
| tx_get: "tx_reach D free d0 d \<Longrightarrow> unat idx \<le> free d \<Longrightarrow>
    tx_reach D free d0 (snd (rflpc_eth_get_current_tx_packet_descriptor D idx d))"
| tx_done: "tx_reach D free d0 d \<Longrightarrow> 0 < unat count \<Longrightarrow> unat count - 1 \<le> free d \<Longrightarrow>
    tx_reach D free d0 (rflpc_eth_done_process_tx_packet D count d)"

context eth_tx
begin

lemma tx_reach_ok:
  assumes "tx_reach D (\<lambda>d. ring_free n (sent d) (handed d)) d0 d" and "ring_ok n (sent d0) (handed d0)"
  shows "ring_ok n (sent d) (handed d) \<and> sent d0 \<le> sent d \<and> handed d0 \<le> handed d"
  using assms
proof (induction rule: tx_reach.induct)
  case (tx_read d a)
  then have ok: "ring_ok n (sent d) (handed d)" by simp
  then have "tx_moves handed sent d (snd (dev_rd D a d))"
    by (intro rd_moves) (simp add: ring_ok_def)
  from moves_ok [OF this ok] this tx_read show ?case by (auto simp: tx_moves_def)
next
  case (tx_get d idx)
  then have ok: "ring_ok n (sent d) (handed d)" by simp
  obtain r d' where r: "rflpc_eth_get_current_tx_packet_descriptor D idx d = (r, d')" "tx_moves handed sent d d'"
    using get_tx [OF ok tx_get(2)] by blast
  with moves_ok [OF r(2) ok] tx_get show ?case by (auto simp: tx_moves_def)
next
  case (tx_done d count)
  then have ok: "ring_ok n (sent d) (handed d)" by simp
  from done_tx [OF ok tx_done(2,3)] tx_done show ?case by (auto simp: Let_def)
qed simp

end

section \<open>A model of the rings\<close>

text \<open>The hardware moves by the next number of its schedule before each read.\<close>

record ring_state =
  ring_front :: nat
  ring_back :: nat
  schedule :: "nat list"

definition ring_moved :: "nat \<Rightarrow> ring_state \<Rightarrow> nat \<times> ring_state" where
  "ring_moved dflt d = (case schedule d of [] \<Rightarrow> (dflt, d) | m # ms \<Rightarrow> (m, d\<lparr>schedule := ms\<rparr>))"

definition tx_ring_device :: "nat \<Rightarrow> addr \<Rightarrow> addr \<Rightarrow> ring_state device" where
  "tx_ring_device n db sb =
     \<lparr>dev_rd = (\<lambda>a d. let (m, d) = ring_moved 0 d; d = d\<lparr>ring_front := min (ring_back d) (ring_front d + m)\<rparr>
        in (if a = EMAC_TxDescriptorNumber then of_nat (n - 1)
            else if a = EMAC_TxProduceIndex then of_nat (ring_back d mod n)
            else if a = EMAC_TxConsumeIndex then of_nat (ring_front d mod n)
            else if a = EMAC_TxDescriptor then db else if a = EMAC_TxStatus then sb else 0, d)),
      dev_wr = (\<lambda>a v d. if a = EMAC_TxProduceIndex
        then d\<lparr>ring_back := ring_back d + (unat v + n - ring_back d mod n) mod n\<rparr> else d),
      cpsid_i = (\<lambda>d. d), cpsie_i = (\<lambda>d. d)\<rparr>"

definition rx_ring_device :: "nat \<Rightarrow> addr \<Rightarrow> addr \<Rightarrow> ring_state device" where
  "rx_ring_device n db sb =
     \<lparr>dev_rd = (\<lambda>a d. let (m, d) = ring_moved 0 d;
          d = d\<lparr>ring_back := max (ring_back d) (min (ring_front d + n - 1) (ring_back d + m))\<rparr>
        in (if a = EMAC_RxDescriptorNumber then of_nat (n - 1)
            else if a = EMAC_RxProduceIndex then of_nat (ring_back d mod n)
            else if a = EMAC_RxConsumeIndex then of_nat (ring_front d mod n)
            else if a = EMAC_RxDescriptor then db else if a = EMAC_RxStatus then sb else 0, d)),
      dev_wr = (\<lambda>a v d. if a = EMAC_RxConsumeIndex
        then d\<lparr>ring_front := ring_front d + (unat v + n - ring_front d mod n) mod n\<rparr> else d),
      cpsid_i = (\<lambda>d. d), cpsie_i = (\<lambda>d. d)\<rparr>"

lemma ring_moved_keeps:
  "ring_front (snd (ring_moved x d)) = ring_front d" "ring_back (snd (ring_moved x d)) = ring_back d"
  by (simp_all add: ring_moved_def split: list.splits)

lemma tx_ring_model: "0 < n \<Longrightarrow> n \<le> 65536 \<Longrightarrow> eth_tx (tx_ring_device n db sb) n ring_back ring_front db sb"
  by unfold_locales
    (auto simp: tx_ring_device_def split_def Let_def reg_addr ring_moved_keeps tx_moves_def unat_of_nat)

lemma rx_ring_model: "0 < n \<Longrightarrow> n \<le> 65536 \<Longrightarrow> eth_rx (rx_ring_device n db sb) n ring_front ring_back db sb"
  by unfold_locales
    (auto simp: rx_ring_device_def split_def Let_def reg_addr ring_moved_keeps rx_moves_def ring_ok_def unat_of_nat)

interpretation tx4: eth_tx "tx_ring_device 4 db sb" 4 ring_back ring_front db sb
  by (rule tx_ring_model) simp_all

interpretation rx4: eth_rx "rx_ring_device 4 db sb" 4 ring_front ring_back db sb
  by (rule rx_ring_model) simp_all


section \<open>Calls that break the rules\<close>

text \<open>With three of four descriptors in use, none is free: the caller that asks for the descriptor 1
  all the same gets slot 0, which the hardware owns, and the one that hands over two descriptors makes the
  produce index pass the consume index.\<close>

lemma full_ring_second_descriptor:
  "fst (rflpc_eth_get_current_tx_packet_descriptor (tx_ring_device 4 0x1000 0x2000) 1
      \<lparr>ring_front = 0, ring_back = 3, schedule = []\<rparr>) = Some (0x1000, 0x2000)" "0 \<in> owned_slots 4 0 3"
  by (code_simp) (force simp: owned_slots_def)

lemma full_ring_two_handed_over:
  "ring_back (rflpc_eth_done_process_tx_packet (tx_ring_device 4 0x1000 0x2000) 2
      \<lparr>ring_front = 0, ring_back = 3, schedule = []\<rparr>) = 5" "\<not> ring_ok 4 0 5"
  by (code_simp) (simp add: ring_ok_def)

section \<open>Properties\<close>

text \<open>C14. Asking for the transmit descriptor number \<open>idx\<close> when at least \<open>idx\<close> descriptors are free (which
  holds always for \<open>idx = 0\<close>, and else is left to the caller: on a full ring the function gives away a
  descriptor the hardware owns), while the hardware goes on sending: when the call succeeds the pointers
  are those of the slot \<open>idx\<close> places after the produce index, the hardware does not own that slot, and
  more than \<open>idx\<close> descriptors are free; when it returns 0 there was a moment when exactly \<open>idx\<close>
  descriptors were free.\<close>

theorem tx_descriptor_is_free:
  assumes "eth_tx D n handed sent db sb" and "ring_ok n (sent d) (handed d)"
    and "unat idx \<le> ring_free n (sent d) (handed d)"
  shows "\<exists>r d'. rflpc_eth_get_current_tx_packet_descriptor D idx d = (r, d') \<and> tx_moves handed sent d d' \<and>
    (case r of
       None \<Rightarrow> \<exists>e. tx_moves handed sent d e \<and> tx_moves handed sent e d' \<and>
         unat idx = ring_free n (sent e) (handed e)
     | Some (descriptor, status) \<Rightarrow> unat idx < ring_free n (sent d') (handed d') \<and>
         (\<exists>k. k = (handed d + unat idx) mod n \<and> k \<notin> owned_slots n (sent d') (handed d') \<and>
           descriptor = db + 8 * of_nat k \<and> status = sb + 4 * of_nat k))"
  using eth_tx.get_tx [OF assms] .

lemma tx_descriptor_is_free_witness:
  "\<exists>r d'. rflpc_eth_get_current_tx_packet_descriptor (tx_ring_device 4 0x1000 0x2000) 1
      \<lparr>ring_front = 6, ring_back = 7, schedule = [0, 1, 0]\<rparr> = (r, d') \<and> ring_back d' = 7"
proof -
  let ?d = "\<lparr>ring_front = 6, ring_back = 7, schedule = [0, 1, 0]\<rparr>"
  have "ring_ok 4 (ring_front ?d) (ring_back ?d)" "unat (1 :: u32) \<le> ring_free 4 (ring_front ?d) (ring_back ?d)"
    by (simp_all add: ring_ok_def ring_free_def)
  from tx_descriptor_is_free [OF tx4.eth_tx_axioms this, of "0x1000" "0x2000"]
  show ?thesis by (auto simp: tx_moves_def)
qed

text \<open>C3. Handing over \<open>count\<close> descriptors, one or more, when at least \<open>count - 1\<close> are free at the call
  (which holds always for \<open>count = 1\<close>, and else is left to the caller: with fewer free ones the function
  does not see that the ring is full): either exactly that many more belong to the hardware, or nothing
  is handed over, and then fewer than \<open>count\<close> were free at some moment; in both cases at least one
  descriptor of the ring stays with the software.\<close>

theorem tx_hand_over:
  assumes "eth_tx D n handed sent db sb" and "ring_ok n (sent d) (handed d)"
    and "0 < unat count" and "unat count - 1 \<le> ring_free n (sent d) (handed d)"
  shows "let d' = rflpc_eth_done_process_tx_packet D count d in
    ring_ok n (sent d') (handed d') \<and> sent d \<le> sent d' \<and>
    (handed d' = handed d + unat count \<or>
     handed d' = handed d \<and>
       (\<exists>e. tx_moves handed sent d e \<and> ring_free n (sent e) (handed e) < unat count))"
  using eth_tx.done_tx [OF assms] .

lemma tx_hand_over_witness:
  "let d' = rflpc_eth_done_process_tx_packet (tx_ring_device 4 0x1000 0x2000) 2
      \<lparr>ring_front = 3, ring_back = 4, schedule = []\<rparr>
   in ring_ok 4 (ring_front d') (ring_back d')"
proof -
  let ?d = "\<lparr>ring_front = 3, ring_back = 4, schedule = []\<rparr>"
  have "ring_ok 4 (ring_front ?d) (ring_back ?d)" "0 < unat (2 :: u32)"
    "unat (2 :: u32) - 1 \<le> ring_free 4 (ring_front ?d) (ring_back ?d)"
    by (simp_all add: ring_ok_def ring_free_def)
  from tx_hand_over [OF tx4.eth_tx_axioms this, of "0x1000" "0x2000"]
  show ?thesis by (simp add: Let_def)
qed

text \<open>C13. In every state reached by register reads, the hardware's sending, calls that ask for a descriptor
  \<open>idx\<close> when at least \<open>idx\<close> are free and calls that hand over \<open>count\<close> descriptors, one or more, when at
  least \<open>count - 1\<close> are free, in any order, the ring is never full: at least one descriptor is not the
  hardware's, so an empty and a full ring are told apart. (Calls with index 0 and count 1, the only ones
  of the repository's programs, keep the two conditions in every state; the driver does not test them,
  and a call that breaks them can break the invariant.)\<close>

theorem tx_ring_never_overfull:
  assumes "eth_tx D n handed sent db sb"
    and "tx_reach D (\<lambda>d. ring_free n (sent d) (handed d)) d0 d" and "ring_ok n (sent d0) (handed d0)"
  shows "ring_ok n (sent d) (handed d) \<and> sent d0 \<le> sent d \<and> handed d0 \<le> handed d"
  using eth_tx.tx_reach_ok [OF assms] .

lemma tx_ring_never_overfull_witness:
  "let d = rflpc_eth_done_process_tx_packet (tx_ring_device 4 0x1000 0x2000) 3
      \<lparr>ring_front = 0, ring_back = 0, schedule = [1, 2]\<rparr>
   in ring_ok 4 (ring_front d) (ring_back d)"
proof -
  let ?d = "\<lparr>ring_front = 0, ring_back = 0, schedule = [1, 2]\<rparr>"
    and ?D = "tx_ring_device 4 0x1000 0x2000" and ?f = "\<lambda>d. ring_free 4 (ring_front d) (ring_back d)"
  have "tx_reach ?D ?f ?d (rflpc_eth_done_process_tx_packet ?D 3 ?d)"
    by (rule tx_done [OF tx_start]) (simp_all add: ring_free_def)
  from tx_ring_never_overfull [OF tx4.eth_tx_axioms this] show ?thesis
    by (simp add: Let_def ring_ok_def)
qed

text \<open>C4. Reception: with a frame pending the driver gets the descriptor of the oldest one, and
  discarding it consumes exactly that one, also at the end of the ring; with none pending it gets
  nothing and consumes nothing.\<close>

theorem rx_ring_in_order:
  assumes "eth_rx D n processed received db sb" and "ring_ok n (processed d) (received d)"
  shows "(\<exists>r d'. rflpc_eth_get_current_rx_packet_descriptor D d = (r, d') \<and>
      rx_moves n processed received d d' \<and>
      (case r of
         None \<Rightarrow> received d' = processed d'
       | Some (descriptor, status) \<Rightarrow> processed d' < received d' \<and>
           descriptor = db + 8 * of_nat (processed d mod n) \<and> status = sb + 8 * of_nat (processed d mod n))) \<and>
    (let d' = rflpc_eth_done_process_rx_packet D d in
      ring_ok n (processed d') (received d') \<and> received d \<le> received d' \<and>
      (processed d' = processed d + 1 \<or> processed d' = processed d \<and> received d' = processed d'))"
  using eth_rx.get_rx [OF assms] eth_rx.done_rx [OF assms] by (rule conjI)

lemma rx_ring_in_order_witness:
  "let d' = rflpc_eth_done_process_rx_packet (rx_ring_device 4 0x1000 0x2000)
      \<lparr>ring_front = 3, ring_back = 4, schedule = [0, 1]\<rparr>
   in ring_front d' = 4 \<or> ring_front d' = 3 \<and> ring_back d' = ring_front d'"
proof -
  let ?d = "\<lparr>ring_front = 3, ring_back = 4, schedule = [0, 1]\<rparr>"
  have "ring_ok 4 (ring_front ?d) (ring_back ?d)" by (simp add: ring_ok_def)
  from rx_ring_in_order [OF rx4.eth_rx_axioms this, of "0x1000" "0x2000"]
  show ?thesis by (simp add: Let_def)
qed

text \<open>The size written to a transmit control word is the size read back from the status of the
  frame, for every size a descriptor can hold, and the two flags are its bits 30 and 31.\<close>

theorem control_word_size:
  assumes "1 \<le> unat sz" and "unat sz \<le> 2048"
  shows "rflpc_eth_get_packet_size (rflpc_eth_set_tx_control_word sz trigger_it last_fragment) = sz \<and>
    (bit (rflpc_eth_set_tx_control_word sz trigger_it last_fragment) 30 \<longleftrightarrow> bit last_fragment 0) \<and>
    (bit (rflpc_eth_set_tx_control_word sz trigger_it last_fragment) 31 \<longleftrightarrow> bit trigger_it 0)"
proof -
  let ?w = "rflpc_eth_set_tx_control_word sz trigger_it last_fragment"
  have m: "(0x7FF :: u32) = mask 11" by (simp add: mask_eq_exp_minus_1)
  have "?w AND mask 11 = (sz - 1) AND mask 11"
    unfolding rflpc_eth_set_tx_control_word_def m
    by (rule bit_word_eqI) (auto simp: bit_simps simp del: push_bit_of_1 mask_numeral)
  moreover have "unat (sz - 1) < 2048"
    using assms by (metis One_nat_def Suc_le_lessD Suc_pred less_eq_Suc_le unat_minus_one unat_eq_zero
        not_one_le_zero)
  then have "(sz - 1) AND mask 11 = sz - 1"
    by (simp only: word_unat_eq_iff unat_and_mask) simp
  ultimately have "rflpc_eth_get_packet_size ?w = sz"
    by (simp add: rflpc_eth_get_packet_size_def m)
  moreover have "bit ?w 30 \<longleftrightarrow> bit last_fragment 0" "bit ?w 31 \<longleftrightarrow> bit trigger_it 0"
    unfolding rflpc_eth_set_tx_control_word_def m
    by (simp_all add: bit_simps del: push_bit_of_1 mask_numeral)
  ultimately show ?thesis by blast
qed

lemma control_word_size_witness:
  "rflpc_eth_get_packet_size (rflpc_eth_set_tx_control_word 2048 1 1) = 2048"
  using control_word_size [of 2048 1 1] by simp

end
