(* ===== verification/Iap.thy ===== *)
theory Iap
  imports TinyMem Clock
begin

text \<open>
  \<^verbatim>\<open>rflpc17xx/iap.c\<close>: writing the flash memory through the routine in the boot ROM. The ROM is a
  parameter: a call takes the command array and gives back the result array, on a state made
  of the address space and of what the ROM keeps to itself. What its manual promises is the locale
  \<open>iap_rom\<close>. The static buffer \<^verbatim>\<open>iap_sector_buffer\<close> is its address.
\<close>

type_synonym 'r flash_state = "mem \<times> 'r"
type_synonym 'r iap_function = "u32 list \<Rightarrow> 'r flash_state \<Rightarrow> u32 list \<times> 'r flash_state"

definition IAP_SMALL_SECTOR_BUFFER_SIZE :: int where "IAP_SMALL_SECTOR_BUFFER_SIZE = 4096"
definition IAP_LARGE_SECTOR_BUFFER_SIZE :: int where "IAP_LARGE_SECTOR_BUFFER_SIZE = 32768"
definition IAP_PREPARE_SECTORS_FOR_WRITING :: u32 where "IAP_PREPARE_SECTORS_FOR_WRITING = 50"
definition IAP_COPY_RAM_TO_FLASH :: u32 where "IAP_COPY_RAM_TO_FLASH = 51"
definition IAP_ERASE_SECTORS :: u32 where "IAP_ERASE_SECTORS = 52"
definition IAP_READ_SERIAL_COMMAND :: u32 where "IAP_READ_SERIAL_COMMAND = 58"

datatype iap_status =
    IAP_CMD_SUCCESS | IAP_CMD_INVALID_COMMAND | IAP_SRC_ADDR_ERROR | IAP_DST_ADDR_ERROR
  | IAP_SRC_ADDR_NOT_MAPPED | IAP_DST_ADDR_NOT_MAPPED | IAP_COUNT_ERROR | IAP_INVALID_SECTOR
  | IAP_SECTOR_NOT_BLANK | IAP_SECTOR_NOT_PREPARED_FOR_WRITE_OPERATION | IAP_COMPARE_ERROR | IAP_BUSY

fun iap_status_val :: "iap_status \<Rightarrow> u32" where
  "iap_status_val IAP_CMD_SUCCESS = 0"
| "iap_status_val IAP_CMD_INVALID_COMMAND = 1"
| "iap_status_val IAP_SRC_ADDR_ERROR = 2"
| "iap_status_val IAP_DST_ADDR_ERROR = 3"
| "iap_status_val IAP_SRC_ADDR_NOT_MAPPED = 4"
| "iap_status_val IAP_DST_ADDR_NOT_MAPPED = 5"
| "iap_status_val IAP_COUNT_ERROR = 6"
| "iap_status_val IAP_INVALID_SECTOR = 7"
| "iap_status_val IAP_SECTOR_NOT_BLANK = 8"
| "iap_status_val IAP_SECTOR_NOT_PREPARED_FOR_WRITE_OPERATION = 9"
| "iap_status_val IAP_COMPARE_ERROR = 10"
| "iap_status_val IAP_BUSY = 11"

section \<open>The ROM commands\<close>

text \<open>\<^const>\<open>None\<close> for the serial number is the return value -1, with the result array left alone.\<close>

definition rflpc_iap_get_serial_number ::
  "'r iap_function \<Rightarrow> 'r flash_state \<Rightarrow> u32 list option \<times> 'r flash_state" where
  "rflpc_iap_get_serial_number iap st =
     (let (command, st) = iap [IAP_READ_SERIAL_COMMAND, 0, 0, 0, 0] st
      in if command ! 0 \<noteq> iap_status_val IAP_CMD_SUCCESS then (None, st)
         else (Some [command ! 1, command ! 2, command ! 3, command ! 4], st))"

definition rflpc_iap_prepare_sectors_for_writing ::
  "'r iap_function \<Rightarrow> int \<Rightarrow> int \<Rightarrow> 'r flash_state \<Rightarrow> int \<times> 'r flash_state" where
  "rflpc_iap_prepare_sectors_for_writing iap start_sector end_sector st =
     (let (command, st) = iap [IAP_PREPARE_SECTORS_FOR_WRITING, of_int start_sector, of_int end_sector] st
      in (if command ! 0 = iap_status_val IAP_CMD_SUCCESS then 0 else - 1, st))"

definition rflpc_iap_erase_sectors ::
  "'r iap_function \<Rightarrow> u32 \<Rightarrow> int \<Rightarrow> int \<Rightarrow> 'r flash_state \<Rightarrow> int \<times> 'r flash_state" where
  "rflpc_iap_erase_sectors iap system_clock start_sector end_sector st =
     (let (command, st) = iap [IAP_ERASE_SECTORS, of_int start_sector, of_int end_sector,
            rflpc_clock_get_system_clock system_clock div 1000] st
      in (if command ! 0 = iap_status_val IAP_CMD_SUCCESS then 0 else - 1, st))"

definition rflpc_iap_copy_ram_to_flash ::
  "'r iap_function \<Rightarrow> u32 \<Rightarrow> addr \<Rightarrow> addr \<Rightarrow> int \<Rightarrow> 'r flash_state \<Rightarrow> int \<times> 'r flash_state" where
  "rflpc_iap_copy_ram_to_flash iap system_clock destination source nbytes st =
     (let (command, st) = iap [IAP_COPY_RAM_TO_FLASH, destination, source, of_int nbytes,
            rflpc_clock_get_system_clock system_clock div 1000] st
      in (if command ! 0 = iap_status_val IAP_CMD_SUCCESS then 0 else - 1, st))"

section \<open>The memory map\<close>

definition rflpc_iap_get_sector_from_address :: "addr \<Rightarrow> int" where
  "rflpc_iap_get_sector_from_address address =
     (if address < 0x00010000 then uint (shr address 12)
      else 16 + uint (shr (address - 0x00010000) 15))"

definition rflpc_iap_get_address_from_sector :: "int \<Rightarrow> addr" where
  "rflpc_iap_get_address_from_sector aSector =
     (if aSector < 16 then of_int (push_bit 12 aSector)
      else of_int (0x00010000 + push_bit 15 (aSector - 16)))"

section \<open>Writing\<close>

definition rflpc_iap_write_buffer_to_sector ::
  "'r iap_function \<Rightarrow> u32 \<Rightarrow> addr \<Rightarrow> int \<Rightarrow> 'r flash_state \<Rightarrow> int \<times> 'r flash_state" where
  "rflpc_iap_write_buffer_to_sector iap system_clock buffer sector_number st =
     (let destination = rflpc_iap_get_address_from_sector sector_number;
          (ret, st) = rflpc_iap_prepare_sectors_for_writing iap sector_number sector_number st
      in if ret \<noteq> 0 then (ret, st)
         else
     (let (ret, st) = rflpc_iap_erase_sectors iap system_clock sector_number sector_number st
      in if ret \<noteq> 0 then (ret, st)
         else
     (let (ret, st) = rflpc_iap_prepare_sectors_for_writing iap sector_number sector_number st
      in if ret \<noteq> 0 then (ret, st)
         else if sector_number < 16
         then rflpc_iap_copy_ram_to_flash iap system_clock destination buffer IAP_SMALL_SECTOR_BUFFER_SIZE st
         else rflpc_iap_copy_ram_to_flash iap system_clock destination buffer IAP_LARGE_SECTOR_BUFFER_SIZE st)))"

definition rflpc_iap_write_to_sector ::
  "'r iap_function \<Rightarrow> u32 \<Rightarrow> addr \<Rightarrow> addr \<Rightarrow> addr \<Rightarrow> int \<Rightarrow> 'r flash_state \<Rightarrow> int \<times> 'r flash_state" where
  "rflpc_iap_write_to_sector iap system_clock iap_sector_buffer destination buffer nbytes st =
     (let sector = rflpc_iap_get_sector_from_address destination;
          startSectorAddress = rflpc_iap_get_address_from_sector sector
      in if sector \<noteq> rflpc_iap_get_sector_from_address (destination + of_int nbytes - 1) then (- 1, st)
         else if sector \<ge> 16 then (- 1, st)
         else
           (let (m, r) = st;
                m = snd (memcpy iap_sector_buffer startSectorAddress (of_int IAP_SMALL_SECTOR_BUFFER_SIZE) m);
                offset = sint (destination - rflpc_iap_get_address_from_sector sector);
                m = snd (memcpy (iap_sector_buffer + of_int offset) buffer (of_int nbytes) m)
            in rflpc_iap_write_buffer_to_sector iap system_clock iap_sector_buffer sector (m, r)))"

lemma sector_size:
  "rflpc_iap_get_address_from_sector (s + 1) - rflpc_iap_get_address_from_sector s =
    (if s < 16 then 4096 else 32768)"
proof -
  consider "s < 15" | "s = 15" | "16 \<le> s" by linarith
  then show ?thesis
    by cases (simp_all add: rflpc_iap_get_address_from_sector_def push_bit_eq_mult algebra_simps)
qed

text \<open>The loop over full sectors; it gives back the return value, or the position it stopped at.\<close>

function write_full_sectors ::
  "'r iap_function \<Rightarrow> u32 \<Rightarrow> addr \<Rightarrow> int \<Rightarrow> addr \<Rightarrow> addr \<Rightarrow> int \<Rightarrow> 'r flash_state \<Rightarrow>
    (int + addr \<times> addr \<times> int) \<times> 'r flash_state" where
  "write_full_sectors iap system_clock iap_sector_buffer sector destination buffer nbytes st =
     (if sector \<noteq> rflpc_iap_get_sector_from_address (destination + of_int nbytes) \<and> nbytes > 0
      then
        (let len = sint (rflpc_iap_get_address_from_sector (sector + 1) -
                         rflpc_iap_get_address_from_sector sector - 1);
             (ret, st) = rflpc_iap_write_to_sector iap system_clock iap_sector_buffer destination buffer len st
         in if ret \<noteq> 0 then (Inl ret, st)
            else write_full_sectors iap system_clock iap_sector_buffer
                   (rflpc_iap_get_sector_from_address (destination + of_int len))
                   (destination + of_int len) (buffer + of_int len) (nbytes - len) st)
      else (Inr (destination, buffer, nbytes), st))"
  by auto
termination write_full_sectors
  by (relation "measure (\<lambda>(_, _, _, _, _, _, nbytes, _). nat nbytes)") (auto simp: sector_size)

declare write_full_sectors.simps [simp del]

definition rflpc_iap_write_buffer ::
  "'r iap_function \<Rightarrow> u32 \<Rightarrow> addr \<Rightarrow> addr \<Rightarrow> addr \<Rightarrow> int \<Rightarrow> 'r flash_state \<Rightarrow> int \<times> 'r flash_state" where
  "rflpc_iap_write_buffer iap system_clock iap_sector_buffer destination buffer nbytes st =
     (let sector = rflpc_iap_get_sector_from_address destination;
          (res, st) =
            (if sector \<noteq> rflpc_iap_get_sector_from_address (destination + of_int nbytes)
             then
               (let len = sint (rflpc_iap_get_address_from_sector (sector + 1) - destination);
                    (ret, st) = rflpc_iap_write_to_sector iap system_clock iap_sector_buffer
                                  destination buffer len st
                in if ret \<noteq> 0 then (Inl ret, st)
                   else write_full_sectors iap system_clock iap_sector_buffer (sector + 1)
                          (destination + of_int len) (buffer + of_int len) (nbytes - len) st)
             else (Inr (destination, buffer, nbytes), st))
      in case res of
           Inl ret \<Rightarrow> (ret, st)
         | Inr (destination, buffer, nbytes) \<Rightarrow>
             if nbytes > 0
             then rflpc_iap_write_to_sector iap system_clock iap_sector_buffer destination buffer nbytes st
             else (0, st))"

text \<open>The loop of \<^verbatim>\<open>rflpc_iap_transfert_4ks_to_32k\<close>.\<close>

function transfert_loop ::
  "'r iap_function \<Rightarrow> u32 \<Rightarrow> addr \<Rightarrow> int \<Rightarrow> addr \<Rightarrow> addr \<Rightarrow> int \<Rightarrow> int \<Rightarrow> 'r flash_state \<Rightarrow>
    (int + int \<times> int) \<times> 'r flash_state" where
  "transfert_loop iap system_clock iap_sector_buffer sector destination32k source4ks nbytes offset st =
     (if nbytes > IAP_SMALL_SECTOR_BUFFER_SIZE
      then
        (let (m, r) = st;
             m = snd (memcpy iap_sector_buffer (source4ks + of_int offset)
                        (of_int IAP_SMALL_SECTOR_BUFFER_SIZE) m);
             (ret, st) = rflpc_iap_prepare_sectors_for_writing iap sector sector (m, r)
         in if ret \<noteq> 0 then (Inl (- 3), st)
            else
              (let (ret, st) = rflpc_iap_copy_ram_to_flash iap system_clock (destination32k + of_int offset)
                      iap_sector_buffer IAP_SMALL_SECTOR_BUFFER_SIZE st
               in if ret \<noteq> 0 then (Inl (- 4), st)
                  else transfert_loop iap system_clock iap_sector_buffer sector destination32k source4ks
                         (nbytes - IAP_SMALL_SECTOR_BUFFER_SIZE) (offset + IAP_SMALL_SECTOR_BUFFER_SIZE) st))
      else (Inr (nbytes, offset), st))"
  by auto
termination transfert_loop
  by (relation "measure (\<lambda>(_, _, _, _, _, _, nbytes, _, _). nat nbytes)")
    (auto simp: IAP_SMALL_SECTOR_BUFFER_SIZE_def)

declare transfert_loop.simps [simp del]

definition rflpc_iap_transfert_4ks_to_32k ::
  "'r iap_function \<Rightarrow> u32 \<Rightarrow> addr \<Rightarrow> addr \<Rightarrow> addr \<Rightarrow> int \<Rightarrow> 'r flash_state \<Rightarrow> int \<times> 'r flash_state" where
  "rflpc_iap_transfert_4ks_to_32k iap system_clock iap_sector_buffer destination32k source4ks nbytes st =
     (let sector = rflpc_iap_get_sector_from_address destination32k;
          (ret, st) = rflpc_iap_prepare_sectors_for_writing iap sector sector st
      in if ret \<noteq> 0 then (- 1, st)
         else
     (let (ret, st) = rflpc_iap_erase_sectors iap system_clock sector sector st
      in if ret \<noteq> 0 then (- 2, st)
         else
     (let (res, st) = transfert_loop iap system_clock iap_sector_buffer sector destination32k source4ks nbytes 0 st
      in case res of
           Inl ret \<Rightarrow> (ret, st)
         | Inr (nbytes, offset) \<Rightarrow>
             if nbytes > 0
             then
               (let (m, r) = st;
                    m = snd (memcpy iap_sector_buffer (source4ks + of_int offset) (of_int nbytes) m);
                    (ret, st) = rflpc_iap_prepare_sectors_for_writing iap sector sector (m, r)
                in if ret \<noteq> 0 then (- 5, st)
                   else
                     (let (ret, st) = rflpc_iap_copy_ram_to_flash iap system_clock
                            (destination32k + of_int offset) iap_sector_buffer IAP_SMALL_SECTOR_BUFFER_SIZE st
                      in if ret \<noteq> 0 then (- 6, st) else (0, st)))
             else (0, st))))"


section \<open>Sectors and blocks\<close>

lemma small_sector_address: "0 \<le> s \<Longrightarrow> s < 16 \<Longrightarrow> rflpc_iap_get_address_from_sector s = of_nat (4096 * nat s)"
  by (simp add: rflpc_iap_get_address_from_sector_def push_bit_eq_mult mult.commute)

lemma sub_of_nat_less:
  assumes "k + n < 2 ^ 32" and "0 < n"
  shows "(a :: u32) - of_nat k < of_nat n \<longleftrightarrow> k \<le> unat a \<and> unat a < k + n"
proof
  assume lt: "a - of_nat k < of_nat n"
  define w where "w = a - of_nat k"
  have w: "unat w < n" using lt assms by (simp add: w_def word_less_nat_alt unat_of_nat)
  have "a = of_nat (k + unat w)" by (simp add: w_def)
  then have "unat a = k + unat w" using assms(1) w by (simp add: unat_of_nat del: of_nat_add)
  with w show "k \<le> unat a \<and> unat a < k + n" by simp
next
  assume h: "k \<le> unat a \<and> unat a < k + n"
  have "a = of_nat (unat a)" by simp
  then have eq: "a - of_nat k = of_nat (unat a - k)" using h by (simp add: of_nat_diff)
  have "unat (a - of_nat k) = unat a - k"
    unfolding eq using unat_u32 [of a] by (subst unat_of_nat) simp
  with h have "unat (a - of_nat k) < n" by linarith
  with assms show "a - of_nat k < of_nat n" by (simp add: word_less_nat_alt unat_of_nat)
qed

lemma small_sector:
  assumes "0 \<le> s" and "s < 16"
  shows "a - rflpc_iap_get_address_from_sector s < 4096 \<longleftrightarrow> rflpc_iap_get_sector_from_address a = s"
proof -
  have "a - rflpc_iap_get_address_from_sector s < 4096 \<longleftrightarrow>
      4096 * nat s \<le> unat a \<and> unat a < 4096 * nat s + 4096"
    using sub_of_nat_less [of "4096 * nat s" 4096 a] assms by (simp add: small_sector_address)
  also have "\<dots> \<longleftrightarrow> unat a < 65536 \<and> int (unat a div 4096) = s"
    using assms by (auto simp: div_nat_eqI nat_eq_iff)
  also have "\<dots> \<longleftrightarrow> rflpc_iap_get_sector_from_address a = s"
    using assms
    by (auto simp: rflpc_iap_get_sector_from_address_def word_less_nat_alt uint_nat unat_shr)
  finally show ?thesis .
qed

lemma large_sector_address:
  "16 \<le> s \<Longrightarrow> rflpc_iap_get_address_from_sector s = of_nat (65536 + 32768 * (nat s - 16))"
  by (simp add: rflpc_iap_get_address_from_sector_def push_bit_eq_mult of_nat_diff algebra_simps)

lemma large_sector:
  assumes "16 \<le> s" and "s < 30"
  shows "a - rflpc_iap_get_address_from_sector s < 32768 \<longleftrightarrow> rflpc_iap_get_sector_from_address a = s"
    and "rflpc_iap_get_sector_from_address a = s \<Longrightarrow> a < 0x80000"
proof -
  have "a - rflpc_iap_get_address_from_sector s < 32768 \<longleftrightarrow>
      65536 + 32768 * (nat s - 16) \<le> unat a \<and> unat a < 65536 + 32768 * (nat s - 16) + 32768"
    using sub_of_nat_less [of "65536 + 32768 * (nat s - 16)" 32768 a] assms
    by (simp add: large_sector_address)
  also have "\<dots> \<longleftrightarrow> 65536 \<le> unat a \<and> 16 + int ((unat a - 65536) div 32768) = s"
    using assms by (auto simp: div_nat_eqI nat_eq_iff)
  finally have range: "a - rflpc_iap_get_address_from_sector s < 32768 \<longleftrightarrow>
      65536 \<le> unat a \<and> 16 + int ((unat a - 65536) div 32768) = s" .
  have small: "uint (shr a 12) < 16" if "a < 0x10000"
    using that by (simp add: uint_nat unat_shr word_less_nat_alt)
  have "unat (a - 0x10000) = unat a - 65536" if "\<not> a < 0x10000"
    using that by (subst unat_sub) (simp_all add: word_le_nat_alt word_less_nat_alt)
  then show iff: "a - rflpc_iap_get_address_from_sector s < 32768 \<longleftrightarrow> rflpc_iap_get_sector_from_address a = s"
    unfolding range using assms small
    by (auto simp: rflpc_iap_get_sector_from_address_def uint_nat unat_shr word_less_nat_alt)
  assume "rflpc_iap_get_sector_from_address a = s"
  with iff range have "16 + int ((unat a - 65536) div 32768) < 30" using assms by simp
  then show "a < 0x80000" by (simp add: word_less_nat_alt)
qed

lemma block_sub:
  assumes "unat off + unat n \<le> unat k" and "y - (b + off) < (n :: u32)"
  shows "y - b < k"
proof -
  define z where "z = y - (b + off)"
  have "y - b = z + off" by (simp add: z_def)
  moreover have "unat z + unat off < unat k"
    using assms by (simp add: word_less_nat_alt z_def)
  ultimately show ?thesis
    using unat_u32 [of k] by (simp add: word_less_nat_alt unat_word_ariths)
qed

text \<open>A block of RAM the ROM does not work on.\<close>

definition ram_block :: "addr set \<Rightarrow> addr \<Rightarrow> u32 \<Rightarrow> bool" where
  "ram_block W b n \<longleftrightarrow> (\<forall>a. a - b < n \<longrightarrow> \<not> a < 0x80000 \<and> a \<notin> W)"

text \<open>The condition on a call that writes inside one 4 KB sector (not code: the driver tests none of it but
  the sectors): the sector buffer is word aligned RAM the ROM does not work on, the one to 4096 bytes go to one
  of the sectors 0 to 15, the data is outside the sector buffer, and memcpy serves the copy into it, which leaves
  out one to three bytes between word aligned addresses.\<close>

definition sector_write :: "addr set \<Rightarrow> addr \<Rightarrow> addr \<Rightarrow> addr \<Rightarrow> int \<Rightarrow> bool" where
  "sector_write W ibuf dest buffer len \<longleftrightarrow>
     (let s = rflpc_iap_get_sector_from_address dest in
      ibuf AND 3 = 0 \<and> ram_block W ibuf 4096 \<and> 0 < len \<and> len \<le> 4096 \<and> s < 16 \<and>
      rflpc_iap_get_sector_from_address (dest + of_int len - 1) = s \<and>
      memcpy_apart (ibuf + (dest - rflpc_iap_get_address_from_sector s)) buffer (of_int len) \<and>
      (\<forall>a. a - buffer < of_int len \<longrightarrow> \<not> a - ibuf < 4096))"

text \<open>The sector after \<open>k\<close> bytes of the transfer, the rest of the memory as it was in \<open>m\<close>.\<close>

definition transferred :: "addr set \<Rightarrow> addr \<Rightarrow> int \<Rightarrow> addr \<Rightarrow> mem \<Rightarrow> u32 \<Rightarrow> mem \<Rightarrow> bool" where
  "transferred W ibuf s src m k m' \<longleftrightarrow> (\<forall>a. a \<notin> W \<longrightarrow> \<not> a - ibuf < 4096 \<longrightarrow>
     m' a = (if rflpc_iap_get_sector_from_address a = s
             then (let x = a - rflpc_iap_get_address_from_sector s in if x < k then m (src + x) else 0xFF)
             else m a))"

text \<open>The data of a transfer: apart from the sector buffer, the ROM's area and the sector written.\<close>

definition transfer_source :: "addr set \<Rightarrow> addr \<Rightarrow> int \<Rightarrow> addr \<Rightarrow> u32 \<Rightarrow> bool" where
  "transfer_source W ibuf s src n \<longleftrightarrow> (\<forall>x. x < n \<longrightarrow> src + x \<notin> W \<and> \<not> src + x - ibuf < 4096 \<and>
     rflpc_iap_get_sector_from_address (src + x) \<noteq> s)"

lemma offset_word:
  assumes "0 \<le> off" "off \<le> 32768" "off mod 4096 = 0"
  shows "unat (of_int off :: u32) = nat off" "(of_int off :: u32) AND 0xFFF = 0"
proof -
  have "(of_int off :: u32) = of_nat (nat off)" using assms(1) by simp
  then show un: "unat (of_int off :: u32) = nat off" using assms(2) by (simp only: unat_of_nat) simp
  have m: "(0xFFF :: u32) = mask 12" by (simp add: mask_eq_exp_minus_1)
  have "nat off mod 4096 = 0" using assms(1,3) nat_mod_distrib [of off 4096] by simp
  then show "(of_int off :: u32) AND 0xFFF = 0"
    unfolding m by (simp only: word_unat_eq_iff unat_and_mask un) simp
qed

lemma chunk_apart:
  assumes src: "transfer_source W ibuf s src (off + n)" and n: "4 \<le> n" "n \<le> 4096"
    and un: "unat (off + n) = unat off + unat n"
  shows "memcpy_apart ibuf (src + off) n"
proof -
  have "n \<le> ibuf - (src + off)"
  proof (rule ccontr)
    assume "\<not> n \<le> ibuf - (src + off)"
    then have lt: "ibuf - (src + off) < n" by simp
    define z where "z = ibuf - (src + off)"
    have "unat (off + z) = unat off + unat z"
      using lt un unat_u32 [of "off + n"] by (simp add: unat_word_ariths(1) word_less_nat_alt z_def [symmetric])
    then have "off + z < off + n" using lt un by (simp add: word_less_nat_alt z_def [symmetric])
    then have "\<not> src + (off + z) - ibuf < 4096"
      using src [unfolded transfer_source_def, rule_format, of "off + z"] by blast
    then show False by (simp add: z_def)
  qed
  then show ?thesis
    using n by (simp add: memcpy_apart_def memcpy_ok_def word_le_nat_alt)
qed

text \<open>Chunks of 4096 bytes of a 32 KB sector.\<close>

lemma chunk_range:
  assumes "unat off + 4096 \<le> 32768" and "a - (d + off) < (4096 :: u32)"
  shows "a - d < 32768 \<and> \<not> a - d < off"
proof -
  have "a - d - off < 4096" using assms(2) by (simp add: diff_diff_eq)
  then have "unat off \<le> unat (a - d) \<and> unat (a - d) < unat off + 4096"
    using sub_of_nat_less [of "unat off" 4096 "a - d"] assms(1) by simp
  with assms(1) show ?thesis by (simp add: word_less_nat_alt)
qed

lemma chunk_aligned:
  assumes "16 \<le> s" "s < 30" and "unat off + 4096 \<le> 32768" "off AND 0xFFF = 0"
  shows "(rflpc_iap_get_address_from_sector s + off) AND 0xFF = 0"
proof -
  let ?d = "rflpc_iap_get_address_from_sector s"
  have d: "unat ?d = 65536 + 32768 * (nat s - 16)"
    using assms(1,2) by (simp only: large_sector_address unat_of_nat) simp
  have m: "(0xFFF :: u32) = mask 12" by (simp add: mask_eq_exp_minus_1)
  have "unat off mod 4096 = 0"
    using assms(4) unfolding m by (simp only: word_unat_eq_iff unat_and_mask) simp
  then have "4096 dvd unat off" by (simp add: dvd_eq_mod_eq_0)
  then have "256 dvd unat off" by (rule dvd_trans [rotated]) simp
  moreover have "256 dvd unat ?d" unfolding d by simp
  moreover have "unat (?d + off) = unat ?d + unat off"
    using d assms(1-3) by (simp add: unat_word_ariths)
  ultimately have "256 dvd unat (?d + off)" by simp
  then have "unat (?d + off) mod 256 = 0" by (simp only: dvd_eq_mod_eq_0)
  then show ?thesis by (simp only: word_unat_eq_iff numeral_masks unat_and_mask) simp
qed

section \<open>The contract of the ROM\<close>

text \<open>
  From the user manual: sectors 0 to 29 can be prepared; preparing lasts until the next erase or
  write; an erased byte is 0xFF; a write takes 256, 512, 1024 or 4096 bytes from a word boundary in
  RAM to a 256 byte boundary of a prepared sector, and gives back the data when the destination was
  erased. The ROM may use its work area \<open>W\<close> in RAM.
\<close>

locale iap_rom =
  fixes iap :: "'r iap_function" and khz :: u32 and prepared :: "'r \<Rightarrow> int set" and W :: "addr set"
  assumes rom_work: "a \<in> W \<Longrightarrow> \<not> a < 0x80000"
    and rom_prepare: "0 \<le> s \<Longrightarrow> s \<le> e \<Longrightarrow> e < 30 \<Longrightarrow>
      iap [IAP_PREPARE_SECTORS_FOR_WRITING, of_int s, of_int e] (m, r) = (c, m', r') \<Longrightarrow>
      c ! 0 = 0 \<and> prepared r' = {s..e} \<and> (\<forall>a. a \<notin> W \<longrightarrow> m' a = m a)"
    and rom_erase: "0 \<le> s \<Longrightarrow> s \<le> e \<Longrightarrow> e < 30 \<Longrightarrow> {s..e} \<subseteq> prepared r \<Longrightarrow>
      iap [IAP_ERASE_SECTORS, of_int s, of_int e, khz] (m, r) = (c, m', r') \<Longrightarrow>
      c ! 0 = 0 \<and> (\<forall>a. a \<notin> W \<longrightarrow> m' a =
        (if a < 0x80000 \<and> rflpc_iap_get_sector_from_address a \<in> {s..e} then 0xFF else m a))"
    and rom_write: "n \<in> {256, 512, 1024, 4096} \<Longrightarrow> d < 0x80000 \<Longrightarrow> d AND 0xFF = 0 \<Longrightarrow> src AND 3 = 0 \<Longrightarrow>
      ram_block W src n \<Longrightarrow> rflpc_iap_get_sector_from_address d \<in> prepared r \<Longrightarrow>
      (\<forall>a. a - d < n \<longrightarrow> m a = 0xFF) \<Longrightarrow>
      iap [IAP_COPY_RAM_TO_FLASH, d, src, n, khz] (m, r) = (c, m', r') \<Longrightarrow>
      c ! 0 = 0 \<and> (\<forall>a. a \<notin> W \<longrightarrow> m' a = (if a - d < n then m (src + (a - d)) else m a))"
    and rom_count: "n \<notin> {256, 512, 1024, 4096} \<Longrightarrow>
      iap [IAP_COPY_RAM_TO_FLASH, d, src, n, khz] (m, r) = (c, m', r') \<Longrightarrow>
      c ! 0 \<noteq> 0 \<and> (\<forall>a. a \<notin> W \<longrightarrow> m' a = m a)"
begin

lemma prepare_ok:
  assumes "0 \<le> s" "s < 30"
  shows "\<exists>m' r'. rflpc_iap_prepare_sectors_for_writing iap s s (m, r) = (0, m', r') \<and>
    prepared r' = {s} \<and> (\<forall>a. a \<notin> W \<longrightarrow> m' a = m a)"
proof -
  obtain c m' r' where c: "iap [IAP_PREPARE_SECTORS_FOR_WRITING, of_int s, of_int s] (m, r) = (c, m', r')"
    by (metis prod.collapse)
  from rom_prepare [OF assms(1) order_refl assms(2) c] c show ?thesis
    by (simp add: rflpc_iap_prepare_sectors_for_writing_def)
qed

lemma erase_ok:
  assumes "0 \<le> s" "s < 30" "s \<in> prepared r" "system_clock div 1000 = khz"
  shows "\<exists>m' r'. rflpc_iap_erase_sectors iap system_clock s s (m, r) = (0, m', r') \<and>
    (\<forall>a. a \<notin> W \<longrightarrow> m' a = (if a < 0x80000 \<and> rflpc_iap_get_sector_from_address a = s then 0xFF else m a))"
proof -
  obtain c m' r' where c: "iap [IAP_ERASE_SECTORS, of_int s, of_int s, khz] (m, r) = (c, m', r')"
    by (metis prod.collapse)
  from rom_erase [OF assms(1) order_refl assms(2) _ c] assms(3,4) c show ?thesis
    by (simp add: rflpc_iap_erase_sectors_def rflpc_clock_get_system_clock_def)
qed

lemma write_ok:
  assumes "n \<in> {256, 512, 1024, 4096}" "d < 0x80000" "d AND 0xFF = 0" "src AND 3 = 0" "ram_block W src (of_int n)"
    "rflpc_iap_get_sector_from_address d \<in> prepared r" "\<forall>a. a - d < of_int n \<longrightarrow> m a = 0xFF"
    "system_clock div 1000 = khz"
  shows "\<exists>m' r'. rflpc_iap_copy_ram_to_flash iap system_clock d src n (m, r) = (0, m', r') \<and>
    (\<forall>a. a \<notin> W \<longrightarrow> m' a = (if a - d < of_int n then m (src + (a - d)) else m a))"
proof -
  obtain c m' r' where c: "iap [IAP_COPY_RAM_TO_FLASH, d, src, of_int n, khz] (m, r) = (c, m', r')"
    by (metis prod.collapse)
  have "(of_int n :: u32) \<in> {256, 512, 1024, 4096}" using assms(1) by auto
  from rom_write [OF this assms(2-7) c] assms(8) c show ?thesis
    by (simp add: rflpc_iap_copy_ram_to_flash_def rflpc_clock_get_system_clock_def)
qed

text \<open>Preparing and erasing leave a sector erased and prepared.\<close>

lemma prepare_erase_prepare:
  assumes "0 \<le> s" "s < 30" "system_clock div 1000 = khz"
  shows "\<exists>m1 r1 m2 r2 m3 r3. rflpc_iap_prepare_sectors_for_writing iap s s (m, r) = (0, m1, r1) \<and>
    rflpc_iap_erase_sectors iap system_clock s s (m1, r1) = (0, m2, r2) \<and>
    rflpc_iap_prepare_sectors_for_writing iap s s (m2, r2) = (0, m3, r3) \<and>
    prepared r3 = {s} \<and>
    (\<forall>a. a \<notin> W \<longrightarrow> m3 a = (if a < 0x80000 \<and> rflpc_iap_get_sector_from_address a = s then 0xFF else m a))"
proof -
  obtain m1 r1 where 1: "rflpc_iap_prepare_sectors_for_writing iap s s (m, r) = (0, m1, r1)"
      "prepared r1 = {s}" "\<forall>a. a \<notin> W \<longrightarrow> m1 a = m a"
    using prepare_ok [OF assms(1,2)] by blast
  obtain m2 r2 where 2: "rflpc_iap_erase_sectors iap system_clock s s (m1, r1) = (0, m2, r2)"
      "\<forall>a. a \<notin> W \<longrightarrow> m2 a = (if a < 0x80000 \<and> rflpc_iap_get_sector_from_address a = s then 0xFF else m1 a)"
    using erase_ok [OF assms(1,2) _ assms(3), of r1 m1] 1(2) by auto
  obtain m3 r3 where 3: "rflpc_iap_prepare_sectors_for_writing iap s s (m2, r2) = (0, m3, r3)"
      "prepared r3 = {s}" "\<forall>a. a \<notin> W \<longrightarrow> m3 a = m2 a"
    using prepare_ok [OF assms(1,2)] by blast
  have "\<forall>a. a \<notin> W \<longrightarrow> m3 a = (if a < 0x80000 \<and> rflpc_iap_get_sector_from_address a = s then 0xFF else m a)"
    using 1(3) 2(2) 3(3) by simp
  with 1(1) 2(1) 3(1,2) show ?thesis by blast
qed

text \<open>Replacing a 4 KB sector by a block of RAM.\<close>

lemma write_small_sector:
  assumes s: "0 \<le> s" "s < 16" and clk: "system_clock div 1000 = khz"
    and src: "src AND 3 = 0" "ram_block W src 4096"
  shows "\<exists>m' r'. rflpc_iap_write_buffer_to_sector iap system_clock src s (m, r) = (0, m', r') \<and>
    (\<forall>a. a \<notin> W \<longrightarrow> m' a = (if rflpc_iap_get_sector_from_address a = s
       then m (src + (a - rflpc_iap_get_address_from_sector s)) else m a))"
proof -
  let ?d = "rflpc_iap_get_address_from_sector s"
  have s30: "s < 30" using s by simp
  obtain m1 r1 m2 r2 m3 r3 where run: "rflpc_iap_prepare_sectors_for_writing iap s s (m, r) = (0, m1, r1)"
      "rflpc_iap_erase_sectors iap system_clock s s (m1, r1) = (0, m2, r2)"
      "rflpc_iap_prepare_sectors_for_writing iap s s (m2, r2) = (0, m3, r3)"
    and r3: "prepared r3 = {s}"
    and m3: "\<forall>a. a \<notin> W \<longrightarrow> m3 a = (if a < 0x80000 \<and> rflpc_iap_get_sector_from_address a = s then 0xFF else m a)"
    using prepare_erase_prepare [OF s(1) s30 clk, of m r] by blast
  have in_sector: "a - ?d < 4096 \<longleftrightarrow> rflpc_iap_get_sector_from_address a = s" for a
    by (rule small_sector [OF s])
  have flash: "a < 0x80000" if "rflpc_iap_get_sector_from_address a = s" for a
    using that s by (auto simp: rflpc_iap_get_sector_from_address_def word_less_nat_alt split: if_splits)
  have d: "rflpc_iap_get_sector_from_address ?d = s" using in_sector [of ?d] by simp
  have "unat ?d = 4096 * nat s"
    using s by (simp only: small_sector_address unat_of_nat) simp
  then have d_aligned: "?d AND 0xFF = 0"
    by (simp add: word_unat_eq_iff numeral_masks unat_and_mask)
  have blank: "\<forall>a. a - ?d < of_int 4096 \<longrightarrow> m3 a = 0xFF"
  proof (intro allI impI)
    fix a assume "a - ?d < of_int 4096"
    then have a: "rflpc_iap_get_sector_from_address a = s" using in_sector [of a] by simp
    have "a \<notin> W" using rom_work flash [OF a] by blast
    with m3 a flash [OF a] show "m3 a = 0xFF" by simp
  qed
  obtain m4 r4 where w: "rflpc_iap_copy_ram_to_flash iap system_clock ?d src 4096 (m3, r3) = (0, m4, r4)"
      "\<forall>a. a \<notin> W \<longrightarrow> m4 a = (if a - ?d < of_int 4096 then m3 (src + (a - ?d)) else m3 a)"
    using write_ok [of 4096 ?d src r3 m3 system_clock] flash [OF d] d d_aligned src blank clk r3 by auto
  have kept: "m3 (src + x) = m (src + x)" if "x < 4096" for x
  proof -
    have "\<not> src + x < 0x80000" "src + x \<notin> W"
      using src(2) that unfolding ram_block_def by (metis add_diff_cancel_left')+
    with m3 show ?thesis by simp
  qed
  have "m4 a = (if rflpc_iap_get_sector_from_address a = s then m (src + (a - ?d)) else m a)" if "a \<notin> W" for a
    using that w(2) m3 kept [of "a - ?d"] in_sector [of a] by auto
  moreover have "rflpc_iap_write_buffer_to_sector iap system_clock src s (m, r) = (0, m4, r4)"
    using s run w(1) by (simp add: rflpc_iap_write_buffer_to_sector_def IAP_SMALL_SECTOR_BUFFER_SIZE_def)
  ultimately show ?thesis by blast
qed

text \<open>A 32 KB sector is erased, but its 32768 bytes are not a size the ROM writes.\<close>

lemma write_large_sector:
  assumes s: "16 \<le> s" "s < 30" and clk: "system_clock div 1000 = khz"
  shows "\<exists>m' r'. rflpc_iap_write_buffer_to_sector iap system_clock src s (m, r) = (- 1, m', r') \<and>
    (\<forall>a. a \<notin> W \<longrightarrow> m' a = (if a < 0x80000 \<and> rflpc_iap_get_sector_from_address a = s then 0xFF else m a))"
proof -
  let ?d = "rflpc_iap_get_address_from_sector s"
  have s0: "0 \<le> s" using s by simp
  obtain m1 r1 m2 r2 m3 r3 where run: "rflpc_iap_prepare_sectors_for_writing iap s s (m, r) = (0, m1, r1)"
      "rflpc_iap_erase_sectors iap system_clock s s (m1, r1) = (0, m2, r2)"
      "rflpc_iap_prepare_sectors_for_writing iap s s (m2, r2) = (0, m3, r3)"
    and m3: "\<forall>a. a \<notin> W \<longrightarrow> m3 a = (if a < 0x80000 \<and> rflpc_iap_get_sector_from_address a = s then 0xFF else m a)"
    using prepare_erase_prepare [OF s0 s(2) clk, of m r] by blast
  obtain c m4 r4 where c: "iap [IAP_COPY_RAM_TO_FLASH, ?d, src, 32768, khz] (m3, r3) = (c, m4, r4)"
    by (metis prod.collapse)
  have "c ! 0 \<noteq> 0" "\<forall>a. a \<notin> W \<longrightarrow> m4 a = m3 a" using rom_count [OF _ c] by simp_all
  then show ?thesis
    using s run m3 c clk
    by (auto simp: rflpc_iap_write_buffer_to_sector_def rflpc_iap_copy_ram_to_flash_def
        IAP_LARGE_SECTOR_BUFFER_SIZE_def rflpc_clock_get_system_clock_def)
qed

text \<open>Writing inside a 4 KB sector: the new data, and all the rest of the memory as before, but for the
  sector buffer.\<close>

lemma write_in_sector:
  assumes clk: "system_clock div 1000 = khz" and ok: "sector_write W ibuf dest buffer len"
  shows "\<exists>m' r'. rflpc_iap_write_to_sector iap system_clock ibuf dest buffer len (m, r) = (0, m', r') \<and>
    (\<forall>a. a \<notin> W \<longrightarrow> \<not> a - ibuf < 4096 \<longrightarrow>
       m' a = (if a - dest < of_int len then m (buffer + (a - dest)) else m a))"
proof -
  define s where "s = rflpc_iap_get_sector_from_address dest"
  define start where "start = rflpc_iap_get_address_from_sector s"
  define off where "off = dest - start"
  define n where "n = (of_int len :: u32)"
  have h: "ibuf AND 3 = 0" "ram_block W ibuf 4096" "0 < len" "len \<le> 4096" "s < 16"
    "rflpc_iap_get_sector_from_address (dest + n - 1) = s" "memcpy_apart (ibuf + off) buffer n"
    "\<forall>a. a - buffer < n \<longrightarrow> \<not> a - ibuf < 4096"
    using ok by (simp_all add: sector_write_def Let_def s_def off_def start_def n_def)
  have s0: "0 \<le> s" by (simp add: s_def rflpc_iap_get_sector_from_address_def)
  note in_sector = small_sector [OF s0 h(5), folded start_def]
  have "n = of_nat (nat len)" using h(3) by (simp add: n_def)
  then have n: "unat n = nat len" using h(4) by (simp only: unat_of_nat) simp
  have off: "off < 4096" using in_sector [of dest] by (simp add: off_def s_def)
  have "dest + n - 1 - start < 4096" using in_sector h(6) by simp
  moreover have "dest + n - 1 - start = off + (n - 1)" by (simp add: off_def)
  moreover have "unat (n - 1) = nat len - 1" using n h(3) by (subst unat_minus_one) (auto simp: unat_eq_zero)
  ultimately have "(unat off + (nat len - 1)) mod 4294967296 < 4096"
    by (simp add: word_less_nat_alt unat_word_ariths)
  moreover have "unat off + (nat len - 1) < 4294967296"
    using off h(3,4) by (simp add: word_less_nat_alt)
  ultimately have fit: "unat off + unat n \<le> 4096" using n h(3) by simp
  have inside: "a - b < 4096" if "a - (b + off) < n" for a b
    using block_sub [of off n 4096 a b] fit that by simp
  have st: "start = of_nat (4096 * nat s)" "unat start = 4096 * nat s"
    using s0 h(5) by (simp_all only: start_def small_sector_address unat_of_nat) simp
  have "IS_WORD_ALIGNED start"
    by (simp add: IS_WORD_ALIGNED_def word_unat_eq_iff numeral_masks unat_and_mask st(2))
  have out: "\<not> ibuf < 0x80000" using h(2) by (auto simp: ram_block_def dest: spec [of _ ibuf])
  have "4096 \<le> ibuf - start"
  proof -
    have "unat (ibuf - start) = unat ibuf - unat start"
      using out h(5) s0 st(2) by (intro unat_sub) (simp add: word_le_nat_alt word_less_nat_alt)
    then show ?thesis using out h(5) s0 st(2) by (simp add: word_le_nat_alt word_less_nat_alt)
  qed
  then have first: "memcpy_apart ibuf start 4096"
    using h(1) \<open>IS_WORD_ALIGNED start\<close> by (simp add: memcpy_apart_def memcpy_ok_def IS_WORD_ALIGNED_def)
  define m1 where "m1 = snd (memcpy ibuf start 4096 m)"
  define m2 where "m2 = snd (memcpy (ibuf + off) buffer n m1)"
  have m1: "m1 a = (if a - ibuf < 4096 then m (start + (a - ibuf)) else m a)" for a
    unfolding m1_def by (rule memcpy.copy_apply [OF first])
  have m2: "m2 a = (if a - (ibuf + off) < n then m1 (buffer + (a - (ibuf + off))) else m1 a)" for a
    unfolding m2_def by (rule memcpy.copy_apply [OF h(7)])
  have data: "m1 (buffer + x) = m (buffer + x)" if "x < n" for x
    using h(8) that m1 by (metis add_diff_cancel_left')
  have in_buf: "m2 (ibuf + (a - start)) = (if a - dest < n then m (buffer + (a - dest)) else m a)"
    if "a - start < 4096" for a
    using that m2 [of "ibuf + (a - start)"] m1 [of "ibuf + (a - start)"] data [of "a - dest"]
    by (simp add: off_def)
  have outside: "m2 a = m a" if "\<not> a - ibuf < 4096" for a
    using that m2 [of a] m1 [of a] inside [of a ibuf] by auto
  obtain m3 r3 where m3: "rflpc_iap_write_buffer_to_sector iap system_clock ibuf s (m2, r) = (0, m3, r3)"
      "\<forall>a. a \<notin> W \<longrightarrow> m3 a = (if rflpc_iap_get_sector_from_address a = s
        then m2 (ibuf + (a - start)) else m2 a)"
    using write_small_sector [OF s0 h(5) clk h(1,2), of m2 r] by (auto simp: start_def)
  have "rflpc_iap_write_to_sector iap system_clock ibuf dest buffer len (m, r) = (0, m3, r3)"
    using h(5,6) m3(1)
    by (simp add: rflpc_iap_write_to_sector_def Let_def s_def [symmetric] n_def [symmetric]
        start_def [symmetric] off_def [symmetric] IAP_SMALL_SECTOR_BUFFER_SIZE_def m1_def m2_def)
  moreover have "m3 a = (if a - dest < n then m (buffer + (a - dest)) else m a)"
    if "a \<notin> W" "\<not> a - ibuf < 4096" for a
  proof (cases "a - start < 4096")
    case True
    with that m3(2) in_buf in_sector show ?thesis by simp
  next
    case False
    then have "\<not> a - dest < n" using inside [of a start] by (auto simp: off_def)
    with False that m3(2) outside in_sector show ?thesis by simp
  qed
  ultimately show ?thesis by (auto simp: n_def)
qed

text \<open>Two writes one after the other, from one block of RAM.\<close>

lemma two_writes:
  assumes clk: "system_clock div 1000 = khz" and w1: "sector_write W ibuf dest buffer n1"
    and w2: "sector_write W ibuf (dest + of_int n1) (buffer + of_int n1) n2"
    and ram: "ram_block W buffer (of_int (n1 + n2))"
  shows "\<exists>m1 r1 m2 r2. rflpc_iap_write_to_sector iap system_clock ibuf dest buffer n1 (m, r) = (0, m1, r1) \<and>
    rflpc_iap_write_to_sector iap system_clock ibuf (dest + of_int n1) (buffer + of_int n1) n2 (m1, r1) = (0, m2, r2) \<and>
    (\<forall>a. a \<notin> W \<longrightarrow> \<not> a - ibuf < 4096 \<longrightarrow>
       m2 a = (if a - dest < of_int (n1 + n2) then m (buffer + (a - dest)) else m a))"
proof -
  obtain m1 r1 where 1: "rflpc_iap_write_to_sector iap system_clock ibuf dest buffer n1 (m, r) = (0, m1, r1)"
      "\<forall>a. a \<notin> W \<longrightarrow> \<not> a - ibuf < 4096 \<longrightarrow> m1 a = (if a - dest < of_int n1 then m (buffer + (a - dest)) else m a)"
    using write_in_sector [OF clk w1] by blast
  obtain m2 r2 where 2: "rflpc_iap_write_to_sector iap system_clock ibuf (dest + of_int n1) (buffer + of_int n1) n2 (m1, r1)
        = (0, m2, r2)"
      "\<forall>a. a \<notin> W \<longrightarrow> \<not> a - ibuf < 4096 \<longrightarrow> m2 a = (if a - (dest + of_int n1) < of_int n2
         then m1 (buffer + of_int n1 + (a - (dest + of_int n1))) else m1 a)"
    using write_in_sector [OF clk w2] by blast
  have pos: "0 < n1" "n1 \<le> 4096" "0 < n2" "n2 \<le> 4096"
    and low: "rflpc_iap_get_sector_from_address dest < 16"
    and out2: "\<forall>a. a - (buffer + of_int n1) < of_int n2 \<longrightarrow> \<not> a - ibuf < 4096"
    using w1 w2 by (simp_all add: sector_write_def Let_def)
  have dest: "unat dest < 65536"
    using low by (simp add: rflpc_iap_get_sector_from_address_def word_less_nat_alt split: if_splits)
  have un: "unat (of_int k :: u32) = nat k" if "0 < k" "k \<le> 8192" for k
  proof -
    have "(of_int k :: u32) = of_nat (nat k)" using that by simp
    then show ?thesis using that by (simp only: unat_of_nat) simp
  qed
  have split: "x < of_int (n1 + n2) \<longleftrightarrow> x < of_int n1 \<or> x - of_int n1 < of_int n2" for x :: u32
  proof -
    have "x - of_int n1 < of_int n2 \<longleftrightarrow> nat n1 \<le> unat x \<and> unat x < nat n1 + nat n2"
      using sub_of_nat_less [of "nat n1" "nat n2" x] pos by simp
    then show ?thesis
      using pos un [of n1] un [of n2] un [of "n1 + n2"] by (auto simp: word_less_nat_alt nat_add_distrib)
  qed
  have final: "m2 a = (if a - dest < of_int (n1 + n2) then m (buffer + (a - dest)) else m a)"
    if a: "a \<notin> W" "\<not> a - ibuf < 4096" for a
  proof -
    define x where "x = a - dest"
    have eqs: "a - (dest + of_int n1) = x - of_int n1" "buffer + of_int n1 + (x - of_int n1) = buffer + x"
      by (simp_all add: x_def)
    show ?thesis
    proof (cases "x - of_int n1 < of_int n2")
      case True
      define b where "b = buffer + x"
      have "b - (buffer + of_int n1) < of_int n2" using True by (simp add: b_def)
      then have "\<not> b - ibuf < 4096" using out2 by blast
      moreover have "b - buffer < of_int (n1 + n2)" using True split [of x] by (simp add: b_def)
      then have b: "\<not> b < 0x80000" "b \<notin> W" using ram by (auto simp: ram_block_def)
      moreover have "\<not> b - dest < of_int n1"
      proof
        assume "b - dest < of_int n1"
        then have "unat dest \<le> unat b \<and> unat b < unat dest + nat n1"
          using sub_of_nat_less [of "unat dest" "nat n1" b] dest pos by simp
        with dest pos b(1) show False by (simp add: word_less_nat_alt)
      qed
      ultimately have "m1 b = m b" using 1(2) by simp
      with a 2(2) True split [of x] show ?thesis by (simp add: eqs x_def [symmetric] b_def)
    next
      case False
      with a 1(2) 2(2) split [of x] show ?thesis by (simp add: eqs x_def [symmetric])
    qed
  qed
  with 1(1) 2(1) show ?thesis by blast
qed

section \<open>Transferring to a 32 KB sector\<close>

text \<open>One round: \<open>n\<close> bytes are loaded into the sector buffer, which is written whole; of the buffer's
  last bytes nothing is known when \<open>n\<close> is less than 4096.\<close>

lemma transfer_chunk:
  assumes s: "16 \<le> s" "s < 30" and clk: "system_clock div 1000 = khz"
    and ibuf: "ibuf AND 3 = 0" "ram_block W ibuf 4096"
    and off: "unat off + 4096 \<le> 32768" "off AND 0xFFF = 0" and n: "n \<le> 4096"
    and src: "\<forall>x. x < off + n \<longrightarrow> src + x \<notin> W \<and> \<not> src + x - ibuf < 4096 \<and>
      rflpc_iap_get_sector_from_address (src + x) \<noteq> s"
    and copy: "memcpy_apart ibuf (src + off) n" and inv: "transferred W ibuf s src m off m1"
  shows "\<exists>m2 r2 m3 r3. rflpc_iap_prepare_sectors_for_writing iap s s (snd (memcpy ibuf (src + off) n m1), r) = (0, m2, r2) \<and>
    rflpc_iap_copy_ram_to_flash iap system_clock (rflpc_iap_get_address_from_sector s + off) ibuf
      IAP_SMALL_SECTOR_BUFFER_SIZE (m2, r2) = (0, m3, r3) \<and>
    (\<forall>a. a \<notin> W \<longrightarrow> \<not> a - ibuf < 4096 \<longrightarrow>
      \<not> (rflpc_iap_get_sector_from_address a = s \<and> a - rflpc_iap_get_address_from_sector s - off < 4096 \<and>
          \<not> a - rflpc_iap_get_address_from_sector s - off < n) \<longrightarrow>
      m3 a = (if rflpc_iap_get_sector_from_address a = s
             then (let x = a - rflpc_iap_get_address_from_sector s in if x < off + n then m (src + x) else 0xFF)
             else m a))"
proof -
  define d where "d = rflpc_iap_get_address_from_sector s"
  note in_sector = large_sector(1) [OF s, folded d_def]
  have s0: "0 \<le> s" using s by simp
  have un: "unat (off + n) = unat off + unat n"
    using off(1) n by (simp add: unat_word_ariths word_le_nat_alt)
  define mb where "mb = snd (memcpy ibuf (src + off) n m1)"
  have mb: "mb a = (if a - ibuf < n then m1 (src + off + (a - ibuf)) else m1 a)" for a
    unfolding mb_def by (rule memcpy.copy_apply [OF copy])
  obtain m2 r2 where m2: "rflpc_iap_prepare_sectors_for_writing iap s s (mb, r) = (0, m2, r2)"
      "prepared r2 = {s}" "\<forall>a. a \<notin> W \<longrightarrow> m2 a = mb a"
    using prepare_ok [OF s0 s(2)] by blast
  have chunk: "a - d < 32768 \<and> \<not> a - d < off" if "a - (d + off) < 4096" for a
    using chunk_range [OF off(1) that] .
  have blank: "\<forall>a. a - (d + off) < of_int 4096 \<longrightarrow> m2 a = 0xFF"
  proof (intro allI impI)
    fix a assume "a - (d + off) < of_int 4096"
    then have "a - d < 32768" "\<not> a - d < off" using chunk [of a] by simp_all
    moreover from this have sec: "rflpc_iap_get_sector_from_address a = s" using in_sector by simp
    moreover have lo: "a < 0x80000" using large_sector(2) [OF s sec] .
    moreover have "a \<notin> W" using rom_work lo by blast
    moreover have "\<not> a - ibuf < 4096" using ibuf(2) lo by (auto simp: ram_block_def)
    moreover have "\<not> a - ibuf < n" using \<open>\<not> a - ibuf < 4096\<close> n by simp
    ultimately show "m2 a = 0xFF"
      using inv m2(3) mb [of a] by (simp add: transferred_def d_def Let_def)
  qed
  have d_off: "d + off - d < 32768" using off(1) by (simp add: word_less_nat_alt)
  then have sec: "rflpc_iap_get_sector_from_address (d + off) = s" using in_sector [of "d + off"] by simp
  have aligned: "(d + off) AND 0xFF = 0" unfolding d_def by (rule chunk_aligned [OF s off])
  obtain m3 r3 where m3: "rflpc_iap_copy_ram_to_flash iap system_clock (d + off) ibuf 4096 (m2, r2) = (0, m3, r3)"
      "\<forall>a. a \<notin> W \<longrightarrow> m3 a = (if a - (d + off) < of_int 4096 then m2 (ibuf + (a - (d + off))) else m2 a)"
    using write_ok [of 4096 "d + off" ibuf r2 m2 system_clock] large_sector(2) [OF s sec] aligned ibuf sec m2(2)
      blank clk by auto
  have final: "m3 a = (if rflpc_iap_get_sector_from_address a = s
      then (let x = a - d in if x < off + n then m (src + x) else 0xFF) else m a)"
    if a: "a \<notin> W" "\<not> a - ibuf < 4096"
      "\<not> (rflpc_iap_get_sector_from_address a = s \<and> a - d - off < 4096 \<and> \<not> a - d - off < n)" for a
  proof -
    define y where "y = a - d"
    have eq: "a - (d + off) = y - off" by (simp add: y_def diff_diff_eq)
    have range: "y - off < 4096 \<longleftrightarrow> unat off \<le> unat y \<and> unat y < unat off + 4096"
      using sub_of_nat_less [of "unat off" 4096 y] off(1) by simp
    show ?thesis
    proof (cases "y - off < 4096")
      case True
      then have "rflpc_iap_get_sector_from_address a = s" using chunk [of a] in_sector [of a] eq by simp
      then have yn: "y - off < n" using a(3) True by (simp add: y_def)
      then have "unat (y - off) < unat n" "unat (y - off) = unat y - unat off"
        using True range by (auto simp: word_less_nat_alt word_le_nat_alt intro: unat_sub)
      then have yk: "y < off + n" using True range un by (simp add: word_less_nat_alt)
      have "ibuf + (y - off) \<notin> W" using ibuf(2) True by (simp add: ram_block_def)
      then have "m2 (ibuf + (y - off)) = m1 (src + y)"
        using m2(3) mb [of "ibuf + (y - off)"] yn by (simp add: algebra_simps)
      also have "\<dots> = m (src + y)"
        using src yk inv by (simp add: transferred_def)
      finally show ?thesis
        using a(1) m3(2) True yk \<open>rflpc_iap_get_sector_from_address a = s\<close> by (simp add: eq y_def [symmetric] Let_def)
    next
      case False
      have "\<not> a - ibuf < n" using a(2) n by simp
      then have "m3 a = m1 a" using a(1) m3(2) m2(3) mb [of a] False by (simp add: eq)
      moreover have "y < off \<longleftrightarrow> y < off + n"
        using False range un n by (auto simp: word_less_nat_alt word_le_nat_alt)
      ultimately show ?thesis
        using inv a(1,2) by (simp add: transferred_def d_def [symmetric] y_def [symmetric] Let_def)
    qed
  qed
  show ?thesis
    using m2(1) m3(1) final by (simp add: d_def [symmetric] mb_def [symmetric] IAP_SMALL_SECTOR_BUFFER_SIZE_def)
qed

lemma transfer_loop:
  assumes s: "16 \<le> s" "s < 30" and clk: "system_clock div 1000 = khz"
    and ibuf: "ibuf AND 3 = 0" "ram_block W ibuf 4096"
    and src: "transfer_source W ibuf s src (of_int tot)"
    and tot: "off + len = tot" "tot \<le> 32768" "0 \<le> off" "off mod 4096 = 0" "0 < len"
    and inv: "transferred W ibuf s src m (of_int off) m1"
  shows "\<exists>l k m' r'. transfert_loop iap system_clock ibuf s (rflpc_iap_get_address_from_sector s) src len off (m1, r)
      = (Inr (l, k), m', r') \<and> 0 < l \<and> l \<le> 4096 \<and> k + l = tot \<and> 0 \<le> k \<and> k mod 4096 = 0 \<and>
    transferred W ibuf s src m (of_int k) m'"
  using tot inv
proof (induction "nat len" arbitrary: len off m1 r rule: less_induct)
  case less
  show ?case
  proof (cases "4096 < len")
    case False
    with less.prems show ?thesis
      by (subst transfert_loop.simps) (simp add: IAP_SMALL_SECTOR_BUFFER_SIZE_def)
  next
    case True
    define w where "w = (of_int off :: u32)"
    have w: "unat w = nat off" "w AND 0xFFF = 0"
      using offset_word [of off] less.prems by (simp_all add: w_def)
    have next_off: "of_int (off + 4096) = w + 4096" by (simp add: w_def)
    have t: "(of_int tot :: u32) = of_nat (nat tot)" "unat (of_int tot :: u32) = nat tot"
    proof -
      show "(of_int tot :: u32) = of_nat (nat tot)" using less.prems by simp
      then show "unat (of_int tot :: u32) = nat tot" using less.prems by (simp only: unat_of_nat) simp
    qed
    have un: "unat (w + 4096) = unat w + unat (4096 :: u32)" "unat w + 4096 \<le> 32768"
      using w(1) less.prems True by (simp_all add: unat_word_ariths)
    have "w + 4096 \<le> of_int tot"
      using un(1) t(2) w(1) less.prems True by (simp add: word_le_nat_alt)
    then have src': "transfer_source W ibuf s src (w + 4096)"
      using src by (auto simp: transfer_source_def)
    have copy: "memcpy_apart ibuf (src + w) 4096"
      by (rule chunk_apart [OF src']) (simp_all add: un(1))
    obtain m2 r2 m3 r3 where
      run: "rflpc_iap_prepare_sectors_for_writing iap s s (snd (memcpy ibuf (src + w) 4096 m1), r) = (0, m2, r2)"
        "rflpc_iap_copy_ram_to_flash iap system_clock (rflpc_iap_get_address_from_sector s + w) ibuf
          IAP_SMALL_SECTOR_BUFFER_SIZE (m2, r2) = (0, m3, r3)"
      and m3: "transferred W ibuf s src m (w + 4096) m3"
      using transfer_chunk [OF s clk ibuf un(2) w(2) order_refl _ copy less.prems(6) [folded w_def], of r] src'
      unfolding transfer_source_def transferred_def by auto
    have lt: "nat (len - 4096) < nat len" using True by simp
    have "off + 4096 + (len - 4096) = tot" "0 \<le> off + 4096" "(off + 4096) mod 4096 = 0" "0 < len - 4096"
      using less.prems True by simp_all
    from less.hyps [OF lt this(1) less.prems(2) this(2-4) m3 [folded next_off], of r3]
    show ?thesis
      using True run
      by (subst transfert_loop.simps)
        (simp add: IAP_SMALL_SECTOR_BUFFER_SIZE_def w_def [symmetric])
  qed
qed

text \<open>The last round of a transfer of \<open>n\<close> bytes.\<close>

lemma transfer_last:
  assumes s: "16 \<le> s" "s < 30" and clk: "system_clock div 1000 = khz"
    and ibuf: "ibuf AND 3 = 0" "ram_block W ibuf 4096"
    and src: "transfer_source W ibuf s src (of_int n)"
    and n: "n \<le> 32768" "n mod 4096 \<notin> {1, 2, 3}"
    and lk: "0 < l" "l \<le> 4096" "k + l = n" "0 \<le> k" "k mod 4096 = 0"
    and inv: "transferred W ibuf s src m (of_int k) m3" and d: "d = rflpc_iap_get_address_from_sector s"
  shows "\<exists>m4 r4 m5 r5.
    rflpc_iap_prepare_sectors_for_writing iap s s (snd (memcpy ibuf (src + of_int k) (of_int l) m3), r) = (0, m4, r4) \<and>
    rflpc_iap_copy_ram_to_flash iap system_clock (d + of_int k) ibuf IAP_SMALL_SECTOR_BUFFER_SIZE (m4, r4) = (0, m5, r5) \<and>
    (\<forall>a. a \<notin> W \<longrightarrow> \<not> a - ibuf < 4096 \<longrightarrow> rflpc_iap_get_sector_from_address a \<noteq> s \<longrightarrow> m5 a = m a) \<and>
    (\<forall>x < of_int n. m5 (d + x) = m (src + x))"
proof -
  define w where "w = (of_int k :: u32)"
  define v where "v = (of_int l :: u32)"
  obtain q where q: "k = 4096 * q" using lk(5) by auto
  then have "q < 8" using lk(1,3) n(1) by linarith
  then have kmax: "k + 4096 \<le> 32768" using q by linarith
  have w: "unat w = nat k" "w AND 0xFFF = 0" using offset_word [of k] lk kmax by (simp_all add: w_def)
  have "v = of_nat (nat l)" using lk by (simp add: v_def)
  then have v: "unat v = nat l" using lk by (simp only: unat_of_nat) simp
  have wv: "w + v = of_int n" using lk by (simp add: w_def v_def flip: of_int_add)
  have un: "unat (w + v) = unat w + unat v"
    using w(1) v lk kmax by (simp add: unat_word_ariths)
  have "l mod 4096 = n mod 4096" using lk(3) q by auto
  then have "4 \<le> l" using n(2) lk(1) by (cases "l < 4096") auto
  then have v4: "4 \<le> v" "v \<le> 4096" using v lk by (simp_all add: word_le_nat_alt)
  have off: "unat w + 4096 \<le> 32768" using w(1) kmax lk by simp
  have src': "transfer_source W ibuf s src (w + v)" using src by (simp add: wv)
  have copy: "memcpy_apart ibuf (src + w) v" by (rule chunk_apart [OF src' v4 un])
  obtain m4 r4 m5 r5 where run:
      "rflpc_iap_prepare_sectors_for_writing iap s s (snd (memcpy ibuf (src + w) v m3), r) = (0, m4, r4)"
      "rflpc_iap_copy_ram_to_flash iap system_clock (d + w) ibuf IAP_SMALL_SECTOR_BUFFER_SIZE (m4, r4) = (0, m5, r5)"
    and m5: "\<forall>a. a \<notin> W \<longrightarrow> \<not> a - ibuf < 4096 \<longrightarrow>
      \<not> (rflpc_iap_get_sector_from_address a = s \<and> a - d - w < 4096 \<and> \<not> a - d - w < v) \<longrightarrow>
      m5 a = (if rflpc_iap_get_sector_from_address a = s
             then (let x = a - d in if x < w + v then m (src + x) else 0xFF) else m a)"
    using transfer_chunk [OF s clk ibuf off w(2) v4(2) src' [unfolded transfer_source_def] copy
        inv [folded w_def], of r] unfolding d [symmetric] by (elim exE conjE) (rule that)
  have data: "m5 (d + x) = m (src + x)" if x: "x < of_int n" for x
  proof -
    have "unat x < nat k + nat l" using x un w(1) v wv by (simp add: word_less_nat_alt)
    then have "x < 32768" using lk kmax by (simp add: word_less_nat_alt)
    then have sx: "rflpc_iap_get_sector_from_address (d + x) = s"
      using large_sector(1) [OF s, of "d + x"] by (simp add: d)
    then have lo: "d + x < 0x80000" by (rule large_sector(2) [OF s])
    have W: "d + x \<notin> W" using rom_work lo by blast
    have buf: "\<not> d + x - ibuf < 4096" using ibuf(2) lo unfolding ram_block_def by blast
    have eq: "of_nat (unat w) = w" by simp
    have "x - w < v" if "x - w < 4096"
    proof -
      have "unat w \<le> unat x"
        using that sub_of_nat_less [of "unat w" 4096 x] off unfolding eq by simp
      moreover have "of_nat (unat v) = v" by simp
      ultimately show ?thesis
        using sub_of_nat_less [of "unat w" "unat v" x] \<open>unat x < _\<close> w(1) v lk kmax unfolding eq by simp
    qed
    then have "\<not> (rflpc_iap_get_sector_from_address (d + x) = s \<and> d + x - d - w < 4096 \<and> \<not> d + x - d - w < v)"
      by simp
    from m5 [rule_format, OF W buf this] sx x show ?thesis by (simp add: wv Let_def)
  qed
  show ?thesis
  proof (intro exI conjI allI impI)
    show "rflpc_iap_prepare_sectors_for_writing iap s s (snd (memcpy ibuf (src + of_int k) (of_int l) m3), r) = (0, m4, r4)"
      using run(1) by (simp add: w_def v_def)
    show "rflpc_iap_copy_ram_to_flash iap system_clock (d + of_int k) ibuf IAP_SMALL_SECTOR_BUFFER_SIZE (m4, r4)
        = (0, m5, r5)"
      using run(2) by (simp add: w_def)
    show "m5 (d + x) = m (src + x)" if "x < of_int n" for x
      using data [OF that] .
    show "m5 a = m a" if "a \<notin> W" "\<not> a - ibuf < 4096" "rflpc_iap_get_sector_from_address a \<noteq> s" for a
      using m5 that by simp
  qed
qed

lemma transfer_returns:
  assumes s: "16 \<le> s" "s < 30" and clk: "system_clock div 1000 = khz"
    and ibuf: "ibuf AND 3 = 0" "ram_block W ibuf 4096"
    and src: "transfer_source W ibuf s src (of_int n)"
    and n: "0 < n" "n \<le> 32768" "n mod 4096 \<notin> {1, 2, 3}"
  shows "\<exists>m' r'. rflpc_iap_transfert_4ks_to_32k iap system_clock ibuf (rflpc_iap_get_address_from_sector s) src n (m, r)
      = (0, m', r') \<and>
    (\<forall>a. a \<notin> W \<longrightarrow> \<not> a - ibuf < 4096 \<longrightarrow> rflpc_iap_get_sector_from_address a \<noteq> s \<longrightarrow> m' a = m a) \<and>
    (\<forall>x < of_int n. m' (rflpc_iap_get_address_from_sector s + x) = m (src + x))"
proof -
  define d where "d = rflpc_iap_get_address_from_sector s"
  have s0: "0 \<le> s" using s by simp
  have sec: "rflpc_iap_get_sector_from_address d = s" using large_sector(1) [OF s, of d] by (simp add: d_def)
  obtain m1 r1 where 1: "rflpc_iap_prepare_sectors_for_writing iap s s (m, r) = (0, m1, r1)"
      "prepared r1 = {s}" "\<forall>a. a \<notin> W \<longrightarrow> m1 a = m a"
    using prepare_ok [OF s0 s(2)] by blast
  obtain m2 r2 where 2: "rflpc_iap_erase_sectors iap system_clock s s (m1, r1) = (0, m2, r2)"
      "\<forall>a. a \<notin> W \<longrightarrow> m2 a = (if a < 0x80000 \<and> rflpc_iap_get_sector_from_address a = s then 0xFF else m1 a)"
    using erase_ok [OF s0 s(2) _ clk, of r1 m1] 1(2) by auto
  have inv: "transferred W ibuf s src m (of_int 0) m2"
    using 1(3) 2(2) large_sector(2) [OF s] by (auto simp: transferred_def)
  have "0 + n = n" by simp
  then obtain l k m3 r3 where loop: "transfert_loop iap system_clock ibuf s d src n 0 (m2, r2) = (Inr (l, k), m3, r3)"
      and lk: "0 < l" "l \<le> 4096" "k + l = n" "0 \<le> k" "k mod 4096 = 0"
      and inv3: "transferred W ibuf s src m (of_int k) m3"
    using transfer_loop [OF s clk ibuf src, of 0 n m m2 r2] n inv by (auto simp: d_def)
  obtain m4 r4 m5 r5 where run:
      "rflpc_iap_prepare_sectors_for_writing iap s s (snd (memcpy ibuf (src + of_int k) (of_int l) m3), r3) = (0, m4, r4)"
      "rflpc_iap_copy_ram_to_flash iap system_clock (d + of_int k) ibuf IAP_SMALL_SECTOR_BUFFER_SIZE (m4, r4) = (0, m5, r5)"
    and m5: "\<forall>a. a \<notin> W \<longrightarrow> \<not> a - ibuf < 4096 \<longrightarrow> rflpc_iap_get_sector_from_address a \<noteq> s \<longrightarrow> m5 a = m a"
      "\<forall>x < of_int n. m5 (d + x) = m (src + x)"
    using transfer_last [OF s clk ibuf src n(2,3) lk inv3 d_def, of r3] by blast
  have "rflpc_iap_transfert_4ks_to_32k iap system_clock ibuf d src n (m, r) = (0, m5, r5)"
    using 1(1) 2(1) loop run lk(1) by (simp add: rflpc_iap_transfert_4ks_to_32k_def sec)
  with m5 show ?thesis by (simp add: d_def [symmetric])
qed

section \<open>Writing across sectors\<close>

text \<open>The first bytes of a write go up to the end of the sector, the rest is less than a sector.\<close>

lemma write_buffer_crossing:
  assumes clk: "system_clock div 1000 = khz"
    and s: "s = rflpc_iap_get_sector_from_address dest" "s < 15"
    and n1: "n1 = sint (rflpc_iap_get_address_from_sector (s + 1) - dest)"
    and n2: "0 < n2" "n2 < 4096"
    and w1: "sector_write W ibuf dest buffer n1"
    and w2: "sector_write W ibuf (dest + of_int n1) (buffer + of_int n1) n2"
    and ram: "ram_block W buffer (of_int (n1 + n2))"
  shows "\<exists>m' r'. rflpc_iap_write_buffer iap system_clock ibuf dest buffer (n1 + n2) (m, r) = (0, m', r') \<and>
    (\<forall>a. a \<notin> W \<longrightarrow> \<not> a - ibuf < 4096 \<longrightarrow>
       m' a = (if a - dest < of_int (n1 + n2) then m (buffer + (a - dest)) else m a))"
proof -
  obtain m1 r1 m2 r2 where run:
      "rflpc_iap_write_to_sector iap system_clock ibuf dest buffer n1 (m, r) = (0, m1, r1)"
      "rflpc_iap_write_to_sector iap system_clock ibuf (dest + of_int n1) (buffer + of_int n1) n2 (m1, r1) = (0, m2, r2)"
    and m2: "\<forall>a. a \<notin> W \<longrightarrow> \<not> a - ibuf < 4096 \<longrightarrow>
       m2 a = (if a - dest < of_int (n1 + n2) then m (buffer + (a - dest)) else m a)"
    using two_writes [OF clk w1 w2 ram] by blast
  have s0: "0 \<le> s + 1" "s + 1 < 16" using s by (simp_all add: rflpc_iap_get_sector_from_address_def)
  have at: "dest + of_int n1 = rflpc_iap_get_address_from_sector (s + 1)" by (simp add: n1)
  have "(of_int n2 :: u32) = of_nat (nat n2)" using n2 by simp
  then have un2: "unat (of_int n2 :: u32) = nat n2" using n2 by (simp only: unat_of_nat) simp
  then have "of_int n2 < (4096 :: u32)" using n2 by (simp add: word_less_nat_alt)
  then have "dest + of_int (n1 + n2) - rflpc_iap_get_address_from_sector (s + 1) < 4096"
    using at by (simp add: add.assoc [symmetric])
  then have sec: "rflpc_iap_get_sector_from_address (dest + of_int (n1 + n2)) = s + 1"
    using small_sector [OF s0] by blast
  have stop: "write_full_sectors iap system_clock ibuf (s + 1) (dest + of_int n1) (buffer + of_int n1) n2 st =
      (Inr (dest + of_int n1, buffer + of_int n1, n2), st)" for st
    using sec by (subst write_full_sectors.simps) (simp add: add.assoc)
  have "rflpc_iap_write_buffer iap system_clock ibuf dest buffer (n1 + n2) (m, r) = (0, m2, r2)"
    using run stop sec n2(1)
    by (simp add: rflpc_iap_write_buffer_def s(1) [symmetric] n1 [symmetric])
  with m2 show ?thesis by blast
qed

text \<open>When a whole sector follows the first one, the loop writes one byte less than a sector, and its next
  round asks for a write over two sectors, which is refused.\<close>

lemma write_buffer_whole_sectors:
  assumes clk: "system_clock div 1000 = khz" and s: "0 \<le> s" "s < 15"
    and d: "dest = rflpc_iap_get_address_from_sector s" and len: "8192 \<le> len" "len < 2147483648"
    and w1: "sector_write W ibuf dest buffer 4096"
    and w2: "sector_write W ibuf (dest + 4096) (buffer + 4096) 4095"
    and ram: "ram_block W buffer 8191"
  shows "\<exists>m' r'. rflpc_iap_write_buffer iap system_clock ibuf dest buffer len (m, r) = (- 1, m', r') \<and>
    (\<forall>a. a \<notin> W \<longrightarrow> \<not> a - ibuf < 4096 \<longrightarrow>
       m' a = (if a - dest < 8191 then m (buffer + (a - dest)) else m a))"
proof -
  obtain m1 r1 m2 r2 where run:
      "rflpc_iap_write_to_sector iap system_clock ibuf dest buffer 4096 (m, r) = (0, m1, r1)"
      "rflpc_iap_write_to_sector iap system_clock ibuf (dest + 4096) (buffer + 4096) 4095 (m1, r1) = (0, m2, r2)"
    and m2: "\<forall>a. a \<notin> W \<longrightarrow> \<not> a - ibuf < 4096 \<longrightarrow>
       m2 a = (if a - dest < 8191 then m (buffer + (a - dest)) else m a)"
    using two_writes [OF clk w1, of 4095 m r] w2 ram by auto
  have s1: "0 \<le> s + 1" "s + 1 < 16" "s < 16" using s by simp_all
  have at: "rflpc_iap_get_address_from_sector (s + 1) = dest + 4096"
    using sector_size [of s] s by (simp add: d algebra_simps)
  note sec0 = small_sector [OF s(1) s1(3), folded d] and sec1 = small_sector [OF s1(1,2), unfolded at]
  have "(of_int len :: u32) = of_nat (nat len)" using len by simp
  then have un: "unat (of_int len :: u32) = nat len" using len by (simp only: unat_of_nat) simp
  have sec_dest: "rflpc_iap_get_sector_from_address dest = s" using sec0 [of dest] by simp
  have sec_end0: "rflpc_iap_get_sector_from_address (dest + of_int len) \<noteq> s"
  proof -
    have "\<not> (of_int len :: u32) < 4096" using un len by (simp add: word_less_nat_alt)
    then show ?thesis using sec0 [of "dest + of_int len"] by simp
  qed
  have un4: "unat (of_int len - 4096 :: u32) = nat len - 4096"
    using un len by (subst unat_sub) (simp_all add: word_le_nat_alt)
  have sec_end1: "rflpc_iap_get_sector_from_address (dest + of_int len) \<noteq> s + 1"
  proof -
    have "\<not> (of_int len - 4096 :: u32) < 4096" using un4 len by (simp add: word_less_nat_alt)
    then show ?thesis using sec1 [of "dest + of_int len"] by simp
  qed
  have sec_last: "rflpc_iap_get_sector_from_address (dest + 8191) = s + 1"
    using sec1 [of "dest + 8191"] by simp
  have sec_over: "rflpc_iap_get_sector_from_address (dest + 8191 + 4095 - 1) \<noteq> s + 1"
    using sec1 [of "dest + 8191 + 4095 - 1"] by simp
  have chunk: "rflpc_iap_get_address_from_sector (2 + s) = dest + 8192"
  proof -
    have e: "s + 1 + 1 = 2 + s" by simp
    from sector_size [of "s + 1", unfolded e at] show ?thesis using s by (simp add: algebra_simps)
  qed
  have refused: "rflpc_iap_write_to_sector iap system_clock ibuf (dest + 8191) b 4095 st = (- 1, st)" for b st
    using sec_over by (simp add: rflpc_iap_write_to_sector_def Let_def sec_last)
  have third: "write_full_sectors iap system_clock ibuf (s + 1) (dest + 8191) b (len - 8191) st = (Inl (- 1), st)"
    for b st
    using sec_end1 len refused chunk
    by (subst write_full_sectors.simps) (simp add: at)
  have second: "write_full_sectors iap system_clock ibuf (s + 1) (dest + 4096) (buffer + 4096) (len - 4096) (m1, r1)
      = (Inl (- 1), m2, r2)"
    using sec_end1 len run(2) chunk third sec_last
    by (subst write_full_sectors.simps) (simp add: at add.commute [of "8191"])
  have "rflpc_iap_write_buffer iap system_clock ibuf dest buffer len (m, r) = (- 1, m2, r2)"
    using sec_end0 run(1) second
    by (simp add: rflpc_iap_write_buffer_def sec_dest at)
  with m2 show ?thesis by blast
qed

end

section \<open>A model of the ROM\<close>

definition rom_model :: "u32 \<Rightarrow> int set iap_function" where
  "rom_model khz c st =
     (let (m, r) = st in
      case c of
        [cmd, s, e] \<Rightarrow>
          if cmd = IAP_PREPARE_SECTORS_FOR_WRITING \<and> s \<le> e \<and> e < 30
          then ([iap_status_val IAP_CMD_SUCCESS, s, e], m, {uint s..uint e})
          else ([iap_status_val IAP_INVALID_SECTOR, s, e], m, r)
      | [cmd, s, e, k] \<Rightarrow>
          if cmd = IAP_ERASE_SECTORS \<and> k = khz \<and> {uint s..uint e} \<subseteq> r
          then ([iap_status_val IAP_CMD_SUCCESS, s, e, k],
                \<lambda>a. if a < 0x80000 \<and> rflpc_iap_get_sector_from_address a \<in> {uint s..uint e} then 0xFF else m a, {})
          else ([iap_status_val IAP_SECTOR_NOT_PREPARED_FOR_WRITE_OPERATION, s, e, k], m, r)
      | [cmd, d, src, n, k] \<Rightarrow>
          if cmd = IAP_READ_SERIAL_COMMAND then ([iap_status_val IAP_CMD_SUCCESS, 1, 2, 3, 4], m, r)
          else if n \<notin> {256, 512, 1024, 4096} then ([iap_status_val IAP_COUNT_ERROR, d, src, n, k], m, r)
          else if d AND 0xFF \<noteq> 0 then ([iap_status_val IAP_DST_ADDR_ERROR, d, src, n, k], m, r)
          else if src AND 3 \<noteq> 0 then ([iap_status_val IAP_SRC_ADDR_ERROR, d, src, n, k], m, r)
          else if rflpc_iap_get_sector_from_address d \<notin> r
          then ([iap_status_val IAP_SECTOR_NOT_PREPARED_FOR_WRITE_OPERATION, d, src, n, k], m, r)
          else ([iap_status_val IAP_CMD_SUCCESS, d, src, n, k],
                \<lambda>a. if a - d < n then m a AND m (src + (a - d)) else m a, {})
      | _ \<Rightarrow> ([iap_status_val IAP_INVALID_SECTOR], m, r))"

lemma of_int_sector: "0 \<le> s \<Longrightarrow> s < 30 \<Longrightarrow> uint (of_int s :: u32) = s"
proof -
  assume s: "0 \<le> s" "s < 30"
  then have "(of_int s :: u32) = of_nat (nat s)" by simp
  then have "unat (of_int s :: u32) = nat s" using s by (simp only: unat_of_nat) simp
  with s show ?thesis by (simp add: uint_nat)
qed

interpretation model_rom: iap_rom "rom_model khz" khz "\<lambda>r. r" "{}"
proof
  fix s e :: int and m m' :: mem and r r' :: "int set" and c :: "u32 list" and n d src :: u32
  show "0 \<le> s \<Longrightarrow> s \<le> e \<Longrightarrow> e < 30 \<Longrightarrow>
      rom_model khz [IAP_PREPARE_SECTORS_FOR_WRITING, of_int s, of_int e] (m, r) = (c, m', r') \<Longrightarrow>
      c ! 0 = 0 \<and> r' = {s..e} \<and> (\<forall>a. a \<notin> {} \<longrightarrow> m' a = m a)"
    by (auto simp: rom_model_def of_int_sector word_le_def word_less_def split: if_splits)
  show "0 \<le> s \<Longrightarrow> s \<le> e \<Longrightarrow> e < 30 \<Longrightarrow> {s..e} \<subseteq> r \<Longrightarrow>
      rom_model khz [IAP_ERASE_SECTORS, of_int s, of_int e, khz] (m, r) = (c, m', r') \<Longrightarrow>
      c ! 0 = 0 \<and> (\<forall>a. a \<notin> {} \<longrightarrow> m' a =
        (if a < 0x80000 \<and> rflpc_iap_get_sector_from_address a \<in> {s..e} then 0xFF else m a))"
    by (auto simp: rom_model_def of_int_sector split: if_splits)
  have full: "(0xFF :: u8) AND v = v" for v
    unfolding numeral_masks by (rule bit_word_eqI) (simp add: bit_simps)
  show "n \<in> {256, 512, 1024, 4096} \<Longrightarrow> d < 0x80000 \<Longrightarrow> d AND 0xFF = 0 \<Longrightarrow> src AND 3 = 0 \<Longrightarrow>
      ram_block {} src n \<Longrightarrow> rflpc_iap_get_sector_from_address d \<in> r \<Longrightarrow>
      (\<forall>a. a - d < n \<longrightarrow> m a = 0xFF) \<Longrightarrow>
      rom_model khz [IAP_COPY_RAM_TO_FLASH, d, src, n, khz] (m, r) = (c, m', r') \<Longrightarrow>
      c ! 0 = 0 \<and> (\<forall>a. a \<notin> {} \<longrightarrow> m' a = (if a - d < n then m (src + (a - d)) else m a))"
    by (auto simp: rom_model_def IAP_COPY_RAM_TO_FLASH_def IAP_READ_SERIAL_COMMAND_def full split: if_splits)
  show "n \<notin> {256, 512, 1024, 4096} \<Longrightarrow>
      rom_model khz [IAP_COPY_RAM_TO_FLASH, d, src, n, khz] (m, r) = (c, m', r') \<Longrightarrow>
      c ! 0 \<noteq> 0 \<and> (\<forall>a. a \<notin> {} \<longrightarrow> m' a = m a)"
    by (auto simp: rom_model_def IAP_COPY_RAM_TO_FLASH_def IAP_READ_SERIAL_COMMAND_def split: if_splits)
qed simp


section \<open>Properties\<close>

lemma in_block: "a - b < (n :: u32) \<Longrightarrow> unat b + unat n < 2 ^ 32 \<Longrightarrow> unat b \<le> unat a \<and> unat a < unat b + unat n"
  using sub_of_nat_less [of "unat b" "unat n" a] by (cases "unat n = 0") (simp_all add: word_less_nat_alt)

lemma ram_block_above:
  assumes "0x80000 \<le> unat b" and "unat b + unat n < 2 ^ 32"
  shows "ram_block {} b n"
  using assms in_block by (fastforce simp: ram_block_def word_less_nat_alt)

lemma blocks_apart:
  fixes b c n k :: u32
  assumes "unat b + unat n \<le> unat c \<or> unat c + unat k \<le> unat b"
    and "unat b + unat n < 2 ^ 32" "unat c + unat k < 2 ^ 32"
  shows "\<forall>a. a - b < n \<longrightarrow> \<not> a - c < k"
  using assms in_block [of _ b n] in_block [of _ c k] by (meson leD le_less_trans order.trans)

text \<open>The two maps of the flash agree: the address of a sector lies in that sector, for the 30 sectors
  of the chip, and every flash address lies in the 4 KB or 32 KB that start at its sector's address.\<close>

theorem sector_map_roundtrip:
  "(\<forall>s. 0 \<le> s \<and> s < 30 \<longrightarrow> rflpc_iap_get_sector_from_address (rflpc_iap_get_address_from_sector s) = s) \<and>
   (\<forall>a < 0x80000. let s = rflpc_iap_get_sector_from_address a in
      0 \<le> s \<and> s < 30 \<and> a - rflpc_iap_get_address_from_sector s < (if s < 16 then 4096 else 32768))"
proof (intro conjI allI impI)
  fix s :: int assume "0 \<le> s \<and> s < 30"
  then show "rflpc_iap_get_sector_from_address (rflpc_iap_get_address_from_sector s) = s"
    using small_sector [of s "rflpc_iap_get_address_from_sector s"]
      large_sector(1) [of s "rflpc_iap_get_address_from_sector s"] by (cases "s < 16") simp_all
next
  fix a :: addr assume a: "a < 0x80000"
  have "uint (shr a 12) < 16" if "a < 0x10000"
    using that by (simp add: uint_nat unat_shr word_less_nat_alt)
  moreover have "uint (shr (a - 0x10000) 15) < 14" if "\<not> a < 0x10000"
  proof -
    have "unat (a - 0x10000) = unat a - 65536"
      using that by (subst unat_sub) (simp_all add: word_le_nat_alt word_less_nat_alt)
    then show ?thesis using a by (simp add: uint_nat unat_shr word_less_nat_alt)
  qed
  ultimately have s: "0 \<le> rflpc_iap_get_sector_from_address a" "rflpc_iap_get_sector_from_address a < 30"
    by (cases "a < 0x10000"; fastforce simp: rflpc_iap_get_sector_from_address_def)+
  then show "let s = rflpc_iap_get_sector_from_address a in
      0 \<le> s \<and> s < 30 \<and> a - rflpc_iap_get_address_from_sector s < (if s < 16 then 4096 else 32768)"
    using small_sector [of "rflpc_iap_get_sector_from_address a" a]
      large_sector(1) [of "rflpc_iap_get_sector_from_address a" a] by (simp add: Let_def)
qed

lemma sector_map_roundtrip_witness:
  "rflpc_iap_get_sector_from_address (rflpc_iap_get_address_from_sector 17) = 17 \<and>
   rflpc_iap_get_sector_from_address 0x7FFFF < 30"
  using sector_map_roundtrip [THEN conjunct1, rule_format, of 17]
    sector_map_roundtrip [THEN conjunct2, rule_format, of "0x7FFFF"] by (simp add: Let_def)

text \<open>C5. \<^verbatim>\<open>rflpc_iap_write_to_sector\<close> for 1 to 4096 bytes that all lie in one of the sixteen 4 KB sectors
  returns 0, the bytes written are the buffer's, and no other byte of the flash, nor of the RAM outside
  the sector buffer and the work area of the ROM, changes. The conditions on the call: the driver's
  sector buffer is word aligned RAM outside that work area, the data lies outside the sector buffer and
  not across its own copy in it, and \<^verbatim>\<open>memcpy\<close> serves the copy: not one to three bytes from a word
  aligned address to a word aligned address (there \<^verbatim>\<open>memcpy\<close> writes further bytes than asked).\<close>

theorem iap_write_to_sector:
  assumes "iap_rom iap khz prepared W" and "system_clock div 1000 = khz"
    and "sector_write W ibuf dest buffer len"
  shows "\<exists>m' r'. rflpc_iap_write_to_sector iap system_clock ibuf dest buffer len (m, r) = (0, m', r') \<and>
    (\<forall>a. a \<notin> W \<longrightarrow> \<not> a - ibuf < 4096 \<longrightarrow>
       m' a = (if a - dest < of_int len then m (buffer + (a - dest)) else m a))"
  using iap_rom.write_in_sector [OF assms] .

lemmas sector_write_facts = sector_write_def rflpc_iap_get_sector_from_address_def
  rflpc_iap_get_address_from_sector_def memcpy_apart_def memcpy_ok_def IS_WORD_ALIGNED_def Let_def unsigned_numeral

lemma sector_write_example: "sector_write {} 0x10000100 0x1004 0x10002001 5"
  using ram_block_above [of "0x10000100" 4096] blocks_apart [of "0x10002001" 5 "0x10000100" 4096]
  by (simp add: sector_write_facts)

lemma iap_write_to_sector_witness:
  "\<exists>m' r'. rflpc_iap_write_to_sector (rom_model 96000) 96000000 0x10000100 0x1004 0x10002001 5
      ((\<lambda>a. if a = 0x10002001 then 7 else 0), {}) = (0, m', r') \<and> m' 0x1004 = 7"
proof -
  have "(96000000 :: u32) div 1000 = 96000" by simp
  from iap_write_to_sector [OF model_rom.iap_rom_axioms this sector_write_example,
      of "\<lambda>a. if a = 0x10002001 then 7 else 0" "{}"]
  show ?thesis by fastforce
qed

text \<open>\<^verbatim>\<open>rflpc_iap_write_buffer\<close> over the boundary of two 4 KB sectors: it returns 0, both parts are
  written, and no other byte of the flash, nor of the RAM outside the sector buffer, changes.\<close>

theorem iap_write_buffer_crossing:
  assumes "iap_rom iap khz prepared W" and "system_clock div 1000 = khz"
    and "s = rflpc_iap_get_sector_from_address dest" and "s < 15"
    and "n1 = sint (rflpc_iap_get_address_from_sector (s + 1) - dest)" and "0 < n2" and "n2 < 4096"
    and "sector_write W ibuf dest buffer n1"
    and "sector_write W ibuf (dest + of_int n1) (buffer + of_int n1) n2"
    and "ram_block W buffer (of_int (n1 + n2))"
  shows "\<exists>m' r'. rflpc_iap_write_buffer iap system_clock ibuf dest buffer (n1 + n2) (m, r) = (0, m', r') \<and>
    (\<forall>a. a \<notin> W \<longrightarrow> \<not> a - ibuf < 4096 \<longrightarrow>
       m' a = (if a - dest < of_int (n1 + n2) then m (buffer + (a - dest)) else m a))"
  using iap_rom.write_buffer_crossing [OF assms] .

lemma iap_write_buffer_crossing_witness:
  "\<exists>m' r'. rflpc_iap_write_buffer (rom_model 96000) 96000000 0x10000100 0x1FFC 0x10002000 12
      ((\<lambda>a. if a = 0x10002004 then 7 else 0), {}) = (0, m', r') \<and> m' 0x2000 = 7"
proof -
  let ?m = "\<lambda>a. if a = 0x10002004 then 7 else 0 :: u8"
  have clk: "(96000000 :: u32) div 1000 = 96000" by simp
  have s: "1 = rflpc_iap_get_sector_from_address 0x1FFC" by (simp add: rflpc_iap_get_sector_from_address_def)
  have n1: "4 = sint (rflpc_iap_get_address_from_sector (1 + 1) - 0x1FFC)"
    by (simp add: rflpc_iap_get_address_from_sector_def)
  have w1: "sector_write {} 0x10000100 0x1FFC 0x10002000 4"
    using ram_block_above [of "0x10000100" 4096] blocks_apart [of "0x10002000" 4 "0x10000100" 4096]
    by (simp add: sector_write_facts)
  have w2: "sector_write {} 0x10000100 (0x1FFC + of_int 4) (0x10002000 + of_int 4) 8"
    using ram_block_above [of "0x10000100" 4096] blocks_apart [of "0x10002004" 8 "0x10000100" 4096]
    by (simp add: sector_write_facts)
  have ram: "ram_block {} 0x10002000 (of_int (4 + 8))"
    using ram_block_above [of "0x10002000" 12] by simp
  obtain m' r' where 1: "rflpc_iap_write_buffer (rom_model 96000) 96000000 0x10000100 0x1FFC 0x10002000 (4 + 8) (?m, {}) = (0, m', r')"
    and 2: "\<forall>a. a \<notin> {} \<longrightarrow> \<not> a - 0x10000100 < 4096 \<longrightarrow>
       m' a = (if a - 0x1FFC < of_int (4 + 8) then ?m (0x10002000 + (a - 0x1FFC)) else ?m a)"
    using iap_write_buffer_crossing [OF model_rom.iap_rom_axioms clk s _ n1 _ _ w1 w2 ram, of ?m "{}"] by auto
  from 2 have "m' 0x2000 = 7" by simp
  with 1 show ?thesis by auto
qed

text \<open>C35. \<^verbatim>\<open>rflpc_iap_write_buffer\<close> from the start of one of the sectors 0 to 14, so that the next sector
  is a 4 KB sector too, with two sectors or more of data returns -1 and has written the first 8191 bytes
  only: its loop writes one byte less than a sector, and the next round then crosses a sector boundary.
  No other byte outside the sector buffer and the ROM's work area changes. The conditions on the call are
  those of the two writes that succeed (as for \<^verbatim>\<open>rflpc_iap_write_to_sector\<close>: an aligned sector buffer in
  RAM the ROM does not work on, the data apart from it), and the data lies in RAM outside the ROM's work
  area.\<close>

theorem iap_whole_sectors_fail:
  assumes "iap_rom iap khz prepared W" and "system_clock div 1000 = khz" and "0 \<le> s" and "s < 15"
    and "dest = rflpc_iap_get_address_from_sector s" and "8192 \<le> len" and "len < 2147483648"
    and "sector_write W ibuf dest buffer 4096"
    and "sector_write W ibuf (dest + 4096) (buffer + 4096) 4095"
    and "ram_block W buffer 8191"
  shows "\<exists>m' r'. rflpc_iap_write_buffer iap system_clock ibuf dest buffer len (m, r) = (- 1, m', r') \<and>
    (\<forall>a. a \<notin> W \<longrightarrow> \<not> a - ibuf < 4096 \<longrightarrow>
       m' a = (if a - dest < 8191 then m (buffer + (a - dest)) else m a))"
  using iap_rom.write_buffer_whole_sectors [OF assms] .

lemma iap_whole_sectors_fail_witness:
  "\<exists>m' r'. rflpc_iap_write_buffer (rom_model 96000) 96000000 0x10000000 0x1000 0x10001000 8192
      ((\<lambda>_. 0), {}) = (- 1, m', r')"
proof -
  have clk: "(96000000 :: u32) div 1000 = 96000" by simp
  have d: "0x1000 = rflpc_iap_get_address_from_sector 1" by (simp add: rflpc_iap_get_address_from_sector_def)
  have w1: "sector_write {} 0x10000000 0x1000 0x10001000 4096"
    using ram_block_above [of "0x10000000" 4096] blocks_apart [of "0x10001000" 4096 "0x10000000" 4096]
    by (simp add: sector_write_facts)
  have w2: "sector_write {} 0x10000000 (0x1000 + 4096) (0x10001000 + 4096) 4095"
    using ram_block_above [of "0x10000000" 4096] blocks_apart [of "0x10002000" 4095 "0x10000000" 4096]
    by (simp add: sector_write_facts)
  have ram: "ram_block {} 0x10001000 8191" using ram_block_above [of "0x10001000" 8191] by simp
  from iap_whole_sectors_fail [OF model_rom.iap_rom_axioms clk _ _ d _ _ w1 w2 ram, of 8192 "\<lambda>_. 0" "{}"]
  show ?thesis by auto
qed

text \<open>\<^verbatim>\<open>rflpc_iap_write_buffer_to_sector\<close> on a 32 KB sector erases it and returns -1: the ROM does not
  write 32768 bytes at once.\<close>

theorem iap_large_sector_erased:
  assumes "iap_rom iap khz prepared W" and "16 \<le> s" and "s < 30" and "system_clock div 1000 = khz"
  shows "\<exists>m' r'. rflpc_iap_write_buffer_to_sector iap system_clock src s (m, r) = (- 1, m', r') \<and>
    (\<forall>a. a \<notin> W \<longrightarrow> m' a = (if a < 0x80000 \<and> rflpc_iap_get_sector_from_address a = s then 0xFF else m a))"
  using iap_rom.write_large_sector [OF assms] .

lemma iap_large_sector_erased_witness:
  "\<exists>m' r'. rflpc_iap_write_buffer_to_sector (rom_model 96000) 96000000 0x10000100 16 ((\<lambda>_. 0), {}) = (- 1, m', r') \<and>
     m' 0x10000 = 0xFF"
proof -
  have clk: "(96000000 :: u32) div 1000 = 96000" by simp
  obtain m' r' where 1: "rflpc_iap_write_buffer_to_sector (rom_model 96000) 96000000 0x10000100 16 ((\<lambda>_. 0), {}) = (- 1, m', r')"
    and 2: "\<forall>a. a \<notin> {} \<longrightarrow> m' a = (if a < 0x80000 \<and> rflpc_iap_get_sector_from_address a = 16 then 0xFF else 0)"
    using iap_large_sector_erased [OF model_rom.iap_rom_axioms _ _ clk, of 16 "0x10000100" "\<lambda>_. 0" "{}"] by auto
  from 2 have "m' 0x10000 = 0xFF" by (simp add: rflpc_iap_get_sector_from_address_def)
  with 1 show ?thesis by auto
qed

text \<open>\<^verbatim>\<open>rflpc_iap_transfert_4ks_to_32k\<close> returns 0 with the source's bytes in the 32 KB sector, when the
  last chunk is none of the sizes 1, 2 and 3 that memcpy does not serve; the other sectors are as before.\<close>

theorem iap_transfer:
  assumes "iap_rom iap khz prepared W" and "16 \<le> s" and "s < 30" and "system_clock div 1000 = khz"
    and "ibuf AND 3 = 0" and "ram_block W ibuf 4096" and "transfer_source W ibuf s src (of_int n)"
    and "0 < n" and "n \<le> 32768" and "n mod 4096 \<notin> {1, 2, 3}"
  shows "\<exists>m' r'. rflpc_iap_transfert_4ks_to_32k iap system_clock ibuf (rflpc_iap_get_address_from_sector s) src n (m, r)
      = (0, m', r') \<and>
    (\<forall>a. a \<notin> W \<longrightarrow> \<not> a - ibuf < 4096 \<longrightarrow> rflpc_iap_get_sector_from_address a \<noteq> s \<longrightarrow> m' a = m a) \<and>
    (\<forall>x < of_int n. m' (rflpc_iap_get_address_from_sector s + x) = m (src + x))"
  using iap_rom.transfer_returns [OF assms] .

lemma transfer_source_above:
  assumes "0x80000 \<le> unat src" "unat src + unat n < 2 ^ 32"
    and "\<forall>a. a - src < n \<longrightarrow> \<not> a - ibuf < 4096" and s: "16 \<le> s" "s < 30"
  shows "transfer_source {} ibuf s src n"
proof -
  have "ram_block {} src n" using assms(1,2) by (rule ram_block_above)
  then show ?thesis
    using assms(3) large_sector(2) [OF s] by (fastforce simp: transfer_source_def ram_block_def)
qed

lemma iap_transfer_witness:
  "\<exists>m' r'. rflpc_iap_transfert_4ks_to_32k (rom_model 96000) 96000000 0x10000000 (rflpc_iap_get_address_from_sector 17)
      0x10001000 5000 ((\<lambda>a. if a = 0x10002001 then 7 else 0), {}) = (0, m', r') \<and> m' 0x19001 = 7"
proof -
  let ?m = "\<lambda>a. if a = 0x10002001 then 7 else 0 :: u8"
  have clk: "(96000000 :: u32) div 1000 = 96000" by simp
  have ram: "ram_block {} 0x10000000 4096" using ram_block_above [of "0x10000000" 4096] by simp
  have src: "transfer_source {} 0x10000000 17 0x10001000 (of_int 5000)"
    using transfer_source_above [of "0x10001000" 5000 "0x10000000" 17]
      blocks_apart [of "0x10001000" 5000 "0x10000000" 4096] by simp
  obtain m' r' where 1: "rflpc_iap_transfert_4ks_to_32k (rom_model 96000) 96000000 0x10000000
        (rflpc_iap_get_address_from_sector 17) 0x10001000 5000 (?m, {}) = (0, m', r')"
    and 2: "\<forall>x < of_int 5000. m' (rflpc_iap_get_address_from_sector 17 + x) = ?m (0x10001000 + x)"
    using iap_transfer [OF model_rom.iap_rom_axioms _ _ clk _ ram src, of ?m "{}"] by auto
  from 2 [rule_format, of "0x1001"] have "m' 0x19001 = 7" by (simp add: rflpc_iap_get_address_from_sector_def)
  with 1 show ?thesis by auto
qed

end
