(* ===== verification/I2c.thy ===== *)
theory I2c
  imports Pinconf Clock TinyMem
begin

text \<open>
  \<^verbatim>\<open>rflpc17xx/drivers/i2c.c\<close>: the driver is a loop that reads the status of the I2C block and
  answers each status with a write to its registers, until a status ends the transfer. The block,
  the bus and the slave at its other end are the locale \<open>i2c_block\<close>. The last definitions are
  the LM75B temperature sensor of \<^verbatim>\<open>samples/i2c-test-mbed-board/lm75b.c\<close>.
\<close>

datatype rflpc_i2c_port_t = RFLPC_I2C_PORT0 | RFLPC_I2C_PORT1 | RFLPC_I2C_PORT2

fun i2c_port_val :: "rflpc_i2c_port_t \<Rightarrow> nat" where
  "i2c_port_val RFLPC_I2C_PORT0 = 0"
| "i2c_port_val RFLPC_I2C_PORT1 = 1"
| "i2c_port_val RFLPC_I2C_PORT2 = 2"

datatype rflpc_i2c_mode_t = RFLPC_I2C_MODE_MASTER | RFLPC_I2C_MODE_SLAVE

datatype rflpc_i2c_status_t =
    RFLPC_I2C_SUCCESSFUL_TRANSMISSION
  | RFLPC_I2C_SIZE_EQUAL_TO_ZERO
  | RFLPC_I2C_SLAVE_IS_BUSY
  | RFLPC_I2C_SLAVE_DID_NOT_ACKNOWLEDGED_DATA
  | RFLPC_I2C_MASTER_DID_NOT_ACKNOWLEDGED_DATA
  | RFLPC_I2C_STOP_CONDITION_RECEIVED
  | RFLPC_I2C_SLAVE_TRANSMITTED_DATA
  | RFLPC_I2C_UNKNOWN_ERROR
  | RFLPC_I2C_NOT_YET_IMPLEMENTED

fun i2c_status_val :: "rflpc_i2c_status_t \<Rightarrow> u16" where
  "i2c_status_val RFLPC_I2C_SUCCESSFUL_TRANSMISSION = 0"
| "i2c_status_val RFLPC_I2C_SIZE_EQUAL_TO_ZERO = 1"
| "i2c_status_val RFLPC_I2C_SLAVE_IS_BUSY = 2"
| "i2c_status_val RFLPC_I2C_SLAVE_DID_NOT_ACKNOWLEDGED_DATA = 3"
| "i2c_status_val RFLPC_I2C_MASTER_DID_NOT_ACKNOWLEDGED_DATA = 4"
| "i2c_status_val RFLPC_I2C_STOP_CONDITION_RECEIVED = 5"
| "i2c_status_val RFLPC_I2C_SLAVE_TRANSMITTED_DATA = 6"
| "i2c_status_val RFLPC_I2C_UNKNOWN_ERROR = 7"
| "i2c_status_val RFLPC_I2C_NOT_YET_IMPLEMENTED = 8"

section \<open>Registers\<close>

definition RFLPC_I2C_FLAG_AA :: u32 where "RFLPC_I2C_FLAG_AA = 0x04"
definition RFLPC_I2C_FLAG_SI :: u32 where "RFLPC_I2C_FLAG_SI = 0x08"
definition RFLPC_I2C_FLAG_STO :: u32 where "RFLPC_I2C_FLAG_STO = 0x10"
definition RFLPC_I2C_FLAG_STA :: u32 where "RFLPC_I2C_FLAG_STA = 0x20"
definition RFLPC_I2C_FLAG_I2EN :: u32 where "RFLPC_I2C_FLAG_I2EN = 0x40"

text \<open>The macros; the port is the base address of its block.\<close>

definition RFLPC_I2C_WRITE_DAT :: "'d device \<Rightarrow> addr \<Rightarrow> u8 \<Rightarrow> 'd \<Rightarrow> 'd" where
  "RFLPC_I2C_WRITE_DAT D b byte = dev_wr D (I2C_I2DAT b) (ucast byte AND 0xFF)"

definition RFLPC_I2C_WRITE_CONSET :: "'d device \<Rightarrow> addr \<Rightarrow> u32 \<Rightarrow> 'd \<Rightarrow> 'd" where
  "RFLPC_I2C_WRITE_CONSET D b flag = dev_wr D (I2C_I2CONSET b) (flag AND 0x7C)"

definition RFLPC_I2C_WRITE_CONCLR :: "'d device \<Rightarrow> addr \<Rightarrow> u32 \<Rightarrow> 'd \<Rightarrow> 'd" where
  "RFLPC_I2C_WRITE_CONCLR D b flag = dev_wr D (I2C_I2CONCLR b) (flag AND 0x6C)"

definition RFLPC_I2C_READ_STAT :: "'d device \<Rightarrow> addr \<Rightarrow> 'd \<Rightarrow> u8 \<times> 'd" where
  "RFLPC_I2C_READ_STAT D b d = (let (x, d) = dev_rd D (I2C_I2STAT b) d in (ucast (x AND 0xFF), d))"

definition RFLPC_I2C_READ_DAT :: "'d device \<Rightarrow> addr \<Rightarrow> 'd \<Rightarrow> u8 \<times> 'd" where
  "RFLPC_I2C_READ_DAT D b d = (let (x, d) = dev_rd D (I2C_I2DAT b) d in (ucast (x AND 0xFF), d))"

definition RFLPC_I2C_RETURN :: "rflpc_i2c_status_t \<Rightarrow> u8 \<Rightarrow> u16" where
  "RFLPC_I2C_RETURN status nbytes = shl (i2c_status_val status) 8 OR ucast nbytes"

section \<open>Ports\<close>

record rflpc_i2c_config_t =
  sda_pin :: rflpc_pin_t
  scl_pin :: rflpc_pin_t
  gpio_function :: u32
  pclksel :: addr
  pclk_bit :: nat
  pconp_bit :: nat
  conf_addr :: addr

definition i2c_config :: "rflpc_i2c_config_t list" where
  "i2c_config =
     [\<lparr>sda_pin = 27, scl_pin = 28, gpio_function = 1, pclksel = SC_PCLKSEL0, pclk_bit = 14,
       pconp_bit = 7, conf_addr = LPC_I2C0_BASE\<rparr>,
      \<lparr>sda_pin = 0, scl_pin = 1, gpio_function = 3, pclksel = SC_PCLKSEL1, pclk_bit = 6,
       pconp_bit = 19, conf_addr = LPC_I2C1_BASE\<rparr>,
      \<lparr>sda_pin = 10, scl_pin = 11, gpio_function = 2, pclksel = SC_PCLKSEL1, pclk_bit = 20,
       pconp_bit = 26, conf_addr = LPC_I2C2_BASE\<rparr>]"

text \<open>The static variables: \<^verbatim>\<open>_mode\<close> and \<^verbatim>\<open>_slave_transmitter_config\<close>.\<close>

record i2c_statics =
  i2c_mode :: rflpc_i2c_mode_t
  slave_data :: addr
  slave_size :: u8

definition rflpc_i2c_init ::
  "'d device \<Rightarrow> u32 \<Rightarrow> rflpc_i2c_port_t \<Rightarrow> rflpc_i2c_mode_t \<Rightarrow> u8 \<Rightarrow> i2c_statics \<times> 'd \<Rightarrow>
    int \<times> i2c_statics \<times> 'd" where
  "rflpc_i2c_init D system_clock port mode ad st =
     (let (v, d) = st; i2c = i2c_config ! i2c_port_val port in
      if rflpc_clock_get_system_clock system_clock \<noteq> 96000000 then (- 1, v, d)
      else
        let v = v\<lparr>i2c_mode := mode\<rparr>;
            b = conf_addr i2c;
            d = reg_or D SC_PCONP (shl 1 (pconp_bit i2c)) d;
            d = reg_and D (pclksel i2c) (NOT (shl (divider_val RFLPC_CCLK_8) (pclk_bit i2c))) d;
            d = reg_or D (pclksel i2c) (shl (divider_val RFLPC_CCLK_8) (pclk_bit i2c)) d;
            d = dev_wr D (I2C_I2SCLL b) 60 d;
            d = dev_wr D (I2C_I2SCLH b) 60 d;
            d = rflpc_pin_set D (sda_pin i2c) (gpio_function i2c) (pin_mode_val RFLPC_PIN_MODE_RESISTOR_NONE) True d;
            d = rflpc_pin_set D (scl_pin i2c) (gpio_function i2c) (pin_mode_val RFLPC_PIN_MODE_RESISTOR_NONE) True d;
            d = dev_wr D (I2C_I2CONCLR b) 0xFFFFFFFF d;
            d = (if i2c_mode v = RFLPC_I2C_MODE_MASTER then dev_wr D (I2C_I2CONSET b) 0x40 d
                 else dev_wr D (I2C_I2MASK0 b) 0
                   (dev_wr D (I2C_I2ADR0 b) (ucast ad) (dev_wr D (I2C_I2CONSET b) 0x44 d)))
        in (0, v, d))"

section \<open>Sending\<close>

text \<open>
  The locals of a transfer. A switch gives back the value of a \<^verbatim>\<open>return\<close>, or the locals with which the
  loop goes on; a status without a case goes on with the locals unchanged.
\<close>

record i2c_xfer =
  data :: addr
  nbytes :: u8
  realnbytes :: u8

definition send_data :: "'d device \<Rightarrow> addr \<Rightarrow> mem \<Rightarrow> i2c_xfer \<Rightarrow> 'd \<Rightarrow> 'd" where
  "send_data D b m l = RFLPC_I2C_WRITE_DAT D b (m (data l))"

definition i2c_write_slave ::
  "'d device \<Rightarrow> addr \<Rightarrow> mem \<Rightarrow> u8 \<Rightarrow> i2c_xfer \<Rightarrow> 'd \<Rightarrow> (u16 + i2c_xfer) \<times> 'd" where
  "i2c_write_slave D b m state l d =
     (if state = 0xA8 then
        let d = send_data D b m l d;
            l = l\<lparr>nbytes := nbytes l - 1, realnbytes := realnbytes l + 1\<rparr>;
            (l, d) = (if nbytes l = 0 then (l, RFLPC_I2C_WRITE_CONCLR D b RFLPC_I2C_FLAG_AA d)
              else (l\<lparr>data := data l + 1\<rparr>, RFLPC_I2C_WRITE_CONSET D b RFLPC_I2C_FLAG_AA d))
        in (Inr l, RFLPC_I2C_WRITE_CONCLR D b RFLPC_I2C_FLAG_SI d)
      else if state = 0xB0 then (Inl (RFLPC_I2C_RETURN RFLPC_I2C_NOT_YET_IMPLEMENTED state), d)
      else if state = 0xB8 then
        let d = send_data D b m l d;
            l = l\<lparr>nbytes := nbytes l - 1, realnbytes := realnbytes l + 1\<rparr>;
            d = RFLPC_I2C_WRITE_CONSET D b RFLPC_I2C_FLAG_AA d
        in (Inr l, RFLPC_I2C_WRITE_CONCLR D b RFLPC_I2C_FLAG_SI d)
      else if state = 0xC0 \<or> state = 0xC8 then
        let d = RFLPC_I2C_WRITE_CONSET D b RFLPC_I2C_FLAG_AA d;
            d = RFLPC_I2C_WRITE_CONCLR D b RFLPC_I2C_FLAG_SI d
        in (Inl (RFLPC_I2C_RETURN RFLPC_I2C_SUCCESSFUL_TRANSMISSION (realnbytes l)), d)
      else (Inr l, d))"

definition i2c_write_master ::
  "'d device \<Rightarrow> addr \<Rightarrow> mem \<Rightarrow> u8 \<Rightarrow> u8 \<Rightarrow> u8 \<Rightarrow> i2c_xfer \<Rightarrow> 'd \<Rightarrow> (u16 + i2c_xfer) \<times> 'd" where
  "i2c_write_master D b m ad stop state l d =
     (if state = 0xF8 then (Inr l, RFLPC_I2C_WRITE_CONSET D b RFLPC_I2C_FLAG_STA d)
      else if state = 0x08 \<or> state = 0x10 then
        (Inr l, RFLPC_I2C_WRITE_CONCLR D b RFLPC_I2C_FLAG_SI (RFLPC_I2C_WRITE_DAT D b ad d))
      else if state = 0x18 then
        (if nbytes l = 0 then
           let d = RFLPC_I2C_WRITE_CONSET D b RFLPC_I2C_FLAG_STO d;
               d = RFLPC_I2C_WRITE_CONCLR D b RFLPC_I2C_FLAG_SI d
           in (Inl (RFLPC_I2C_RETURN RFLPC_I2C_SIZE_EQUAL_TO_ZERO 0), d)
         else
           let d = send_data D b m l d;
               l = l\<lparr>nbytes := nbytes l - 1, realnbytes := realnbytes l + 1, data := data l + 1\<rparr>
           in (Inr l, RFLPC_I2C_WRITE_CONCLR D b (RFLPC_I2C_FLAG_STA OR RFLPC_I2C_FLAG_SI) d))
      else if state = 0x20 then
        let d = RFLPC_I2C_WRITE_CONSET D b RFLPC_I2C_FLAG_STO d;
            d = RFLPC_I2C_WRITE_CONCLR D b RFLPC_I2C_FLAG_SI d
        in (Inl (RFLPC_I2C_RETURN RFLPC_I2C_SLAVE_IS_BUSY 0), d)
      else if state = 0x28 then
        (if nbytes l = 0 then
           let d = RFLPC_I2C_WRITE_CONSET D b
                 (if stop \<noteq> 0 then RFLPC_I2C_FLAG_STO else RFLPC_I2C_FLAG_STA) d;
               d = RFLPC_I2C_WRITE_CONCLR D b RFLPC_I2C_FLAG_SI d
           in (Inl (RFLPC_I2C_RETURN RFLPC_I2C_SUCCESSFUL_TRANSMISSION (realnbytes l)), d)
         else
           let d = send_data D b m l d;
               l = l\<lparr>nbytes := nbytes l - 1, realnbytes := realnbytes l + 1, data := data l + 1\<rparr>
           in (Inr l, RFLPC_I2C_WRITE_CONCLR D b RFLPC_I2C_FLAG_SI d))
      else if state = 0x30 then
        let d = RFLPC_I2C_WRITE_CONSET D b RFLPC_I2C_FLAG_STO d;
            d = RFLPC_I2C_WRITE_CONCLR D b RFLPC_I2C_FLAG_SI d
        in (Inl (RFLPC_I2C_RETURN RFLPC_I2C_SLAVE_DID_NOT_ACKNOWLEDGED_DATA (realnbytes l)), d)
      else if state = 0x38 then
        let d = RFLPC_I2C_WRITE_CONSET D b RFLPC_I2C_FLAG_STA d
        in (Inr l, RFLPC_I2C_WRITE_CONCLR D b RFLPC_I2C_FLAG_SI d)
      else i2c_write_slave D b m state l d)"

text \<open>The loop ends on status 0, the code of an illegal start or stop on the bus.\<close>

partial_function (option) i2c_write_loop ::
  "'d device \<Rightarrow> addr \<Rightarrow> mem \<Rightarrow> u8 \<Rightarrow> u8 \<Rightarrow> i2c_xfer \<Rightarrow> 'd \<Rightarrow> (u16 \<times> 'd) option" where
  "i2c_write_loop D b m ad stop l d =
     (let (state, d) = RFLPC_I2C_READ_STAT D b d in
      if state = 0 then Some (RFLPC_I2C_RETURN RFLPC_I2C_UNKNOWN_ERROR (realnbytes l), d)
      else
        let (r, d) = i2c_write_master D b m ad stop state l d in
        case r of
          Inl ret \<Rightarrow> Some (ret, d)
        | Inr l \<Rightarrow>
            (case poll D (I2C_I2CONSET b) (\<lambda>x. x AND RFLPC_I2C_FLAG_SI \<noteq> 0) d of
               None \<Rightarrow> None
             | Some (_, d) \<Rightarrow> i2c_write_loop D b m ad stop l d))"

definition rflpc_i2c_write ::
  "'d device \<Rightarrow> rflpc_i2c_port_t \<Rightarrow> u8 \<Rightarrow> addr \<Rightarrow> u8 \<Rightarrow> u8 \<Rightarrow> mem \<times> 'd \<Rightarrow> (u16 \<times> 'd) option" where
  "rflpc_i2c_write D port ad buffer n stop st =
     i2c_write_loop D (conf_addr (i2c_config ! i2c_port_val port)) (fst st) ad stop
       \<lparr>data = buffer, nbytes = n, realnbytes = 0\<rparr> (snd st)"

section \<open>Receiving\<close>

definition receive_data :: "'d device \<Rightarrow> addr \<Rightarrow> i2c_xfer \<Rightarrow> mem \<times> 'd \<Rightarrow> mem \<times> 'd" where
  "receive_data D b l st =
     (let (m, d) = st; (x, d) = RFLPC_I2C_READ_DAT D b d in (m(data l := x), d))"

text \<open>A state that is not implemented gives its number back.\<close>

definition i2c_read_slave ::
  "'d device \<Rightarrow> addr \<Rightarrow> i2c_statics \<Rightarrow> u8 \<Rightarrow> i2c_xfer \<Rightarrow> mem \<times> 'd \<Rightarrow>
    ((u16 + i2c_xfer) \<times> mem \<times> 'd) option" where
  "i2c_read_slave D b v state l st =
     (let (m, d) = st in
      if state = 0x60 then
        let d = RFLPC_I2C_WRITE_CONSET D b RFLPC_I2C_FLAG_AA d;
            d = RFLPC_I2C_WRITE_CONCLR D b RFLPC_I2C_FLAG_SI d
        in Some (Inr l, m, d)
      else if state = 0x68 \<or> state = 0x70 \<or> state = 0x78 \<or> state = 0x90 \<or> state = 0x98 then
        Some (Inl (RFLPC_I2C_RETURN RFLPC_I2C_NOT_YET_IMPLEMENTED state), m, d)
      else if state = 0x80 then
        let (m, d) = receive_data D b l (m, d);
            l = l\<lparr>nbytes := nbytes l - 1, realnbytes := realnbytes l + 1\<rparr>;
            (l, d) = (if nbytes l = 0 then (l, RFLPC_I2C_WRITE_CONCLR D b RFLPC_I2C_FLAG_AA d)
              else (l\<lparr>data := data l + 1\<rparr>, RFLPC_I2C_WRITE_CONSET D b RFLPC_I2C_FLAG_AA d))
        in Some (Inr l, m, RFLPC_I2C_WRITE_CONCLR D b RFLPC_I2C_FLAG_SI d)
      else if state = 0x88 \<or> state = 0xA0 then
        let d = RFLPC_I2C_WRITE_CONSET D b RFLPC_I2C_FLAG_AA d;
            d = RFLPC_I2C_WRITE_CONCLR D b RFLPC_I2C_FLAG_SI d
        in Some (Inl (RFLPC_I2C_RETURN
             (if state = 0x88 then RFLPC_I2C_SUCCESSFUL_TRANSMISSION else RFLPC_I2C_STOP_CONDITION_RECEIVED)
             (realnbytes l)), m, d)
      else if state = 0xA8 then
        (case rflpc_i2c_write D RFLPC_I2C_PORT2 0 (slave_data v) (slave_size v) 0 (m, d) of
           None \<Rightarrow> None
         | Some (tmp, d) \<Rightarrow>
             Some (Inl (if tmp = ucast (slave_size v)
               then RFLPC_I2C_RETURN RFLPC_I2C_SLAVE_TRANSMITTED_DATA (slave_size v) else tmp), m, d))
      else Some (Inr l, m, d))"

definition i2c_read_master ::
  "'d device \<Rightarrow> addr \<Rightarrow> i2c_statics \<Rightarrow> u8 \<Rightarrow> u8 \<Rightarrow> u8 \<Rightarrow> i2c_xfer \<Rightarrow> mem \<times> 'd \<Rightarrow>
    ((u16 + i2c_xfer) \<times> mem \<times> 'd) option" where
  "i2c_read_master D b v ad stop state l st =
     (let (m, d) = st in
      if state = 0xF8 then
        Some (Inr l, m, if i2c_mode v = RFLPC_I2C_MODE_MASTER
          then RFLPC_I2C_WRITE_CONSET D b RFLPC_I2C_FLAG_STA d else d)
      else if state = 0x08 \<or> state = 0x10 then
        Some (Inr l, m, RFLPC_I2C_WRITE_CONCLR D b RFLPC_I2C_FLAG_SI (RFLPC_I2C_WRITE_DAT D b (ad OR 1) d))
      else if state = 0x40 then
        let d = (if nbytes l > 1 then RFLPC_I2C_WRITE_CONSET D b RFLPC_I2C_FLAG_AA d else d)
        in Some (Inr l, m, RFLPC_I2C_WRITE_CONCLR D b (RFLPC_I2C_FLAG_STA OR RFLPC_I2C_FLAG_SI) d)
      else if state = 0x48 then
        let d = RFLPC_I2C_WRITE_CONSET D b RFLPC_I2C_FLAG_STO d;
            d = RFLPC_I2C_WRITE_CONCLR D b RFLPC_I2C_FLAG_SI d
        in Some (Inl (RFLPC_I2C_RETURN RFLPC_I2C_SLAVE_IS_BUSY 0), m, d)
      else if state = 0x50 then
        let (m, d) = receive_data D b l (m, d);
            l = l\<lparr>data := data l + 1, nbytes := nbytes l - 1, realnbytes := realnbytes l + 1\<rparr>;
            d = (if nbytes l > 1 then RFLPC_I2C_WRITE_CONSET D b RFLPC_I2C_FLAG_AA d
                 else RFLPC_I2C_WRITE_CONCLR D b RFLPC_I2C_FLAG_AA d)
        in Some (Inr l, m, RFLPC_I2C_WRITE_CONCLR D b RFLPC_I2C_FLAG_SI d)
      else if state = 0x58 then
        let (m, d) = receive_data D b l (m, d);
            l = l\<lparr>realnbytes := realnbytes l + 1\<rparr>;
            d = RFLPC_I2C_WRITE_CONSET D b
                 (if stop \<noteq> 0 then RFLPC_I2C_FLAG_STO else RFLPC_I2C_FLAG_STA) d;
            d = RFLPC_I2C_WRITE_CONCLR D b RFLPC_I2C_FLAG_SI d
        in Some (Inl (RFLPC_I2C_RETURN RFLPC_I2C_SUCCESSFUL_TRANSMISSION (realnbytes l)), m, d)
      else i2c_read_slave D b v state l (m, d))"

partial_function (option) i2c_read_loop ::
  "'d device \<Rightarrow> addr \<Rightarrow> i2c_statics \<Rightarrow> u8 \<Rightarrow> u8 \<Rightarrow> i2c_xfer \<Rightarrow> mem \<times> 'd \<Rightarrow> (u16 \<times> mem \<times> 'd) option" where
  "i2c_read_loop D b v ad stop l st =
     (let (m, d) = st; (state, d) = RFLPC_I2C_READ_STAT D b d in
      if state = 0 then Some (- 1, m, d)
      else
        case i2c_read_master D b v ad stop state l (m, d) of
          None \<Rightarrow> None
        | Some (r, m, d) \<Rightarrow>
            (case r of
               Inl ret \<Rightarrow> Some (ret, m, d)
             | Inr l \<Rightarrow>
                 (case poll D (I2C_I2CONSET b) (\<lambda>x. x AND RFLPC_I2C_FLAG_SI \<noteq> 0) d of
                    None \<Rightarrow> None
                  | Some (_, d) \<Rightarrow> i2c_read_loop D b v ad stop l (m, d))))"

definition rflpc_i2c_read ::
  "'d device \<Rightarrow> i2c_statics \<Rightarrow> rflpc_i2c_port_t \<Rightarrow> u8 \<Rightarrow> addr \<Rightarrow> u8 \<Rightarrow> u8 \<Rightarrow> mem \<times> 'd \<Rightarrow>
    (u16 \<times> mem \<times> 'd) option" where
  "rflpc_i2c_read D v port ad buffer n stop =
     i2c_read_loop D (conf_addr (i2c_config ! i2c_port_val port)) v ad stop
       \<lparr>data = buffer, nbytes = n, realnbytes = 0\<rparr>"

definition rflpc_i2c_set_slave_transmitter_config :: "addr \<Rightarrow> u8 \<Rightarrow> i2c_statics \<Rightarrow> i2c_statics" where
  "rflpc_i2c_set_slave_transmitter_config buffer n v =
     (if n = 0 then v else v\<lparr>slave_data := buffer, slave_size := n\<rparr>)"

section \<open>The temperature sensor\<close>

definition LM75B_I2C_PORT :: rflpc_i2c_port_t where "LM75B_I2C_PORT = RFLPC_I2C_PORT2"
definition LM75B_I2C_ADDR :: u8 where "LM75B_I2C_ADDR = 0x90"

text \<open>\<open>p\<close> and \<open>r\<close> are where the compiler puts the local variables whose address is taken.\<close>

definition libboard_lm75b_init ::
  "'d device \<Rightarrow> u32 \<Rightarrow> addr \<Rightarrow> i2c_statics \<times> mem \<times> 'd \<Rightarrow> (u8 \<times> i2c_statics \<times> mem \<times> 'd) option" where
  "libboard_lm75b_init D system_clock p st =
     (let (v, m, d) = st;
          m = m(p := 0);
          (_, v, d) = rflpc_i2c_init D system_clock LM75B_I2C_PORT RFLPC_I2C_MODE_MASTER 0 (v, d)
      in case rflpc_i2c_write D LM75B_I2C_PORT LM75B_I2C_ADDR p 1 0 (m, d) of
           None \<Rightarrow> None
         | Some (_, d) \<Rightarrow> Some (0, v, m, d))"

definition lm75b_temp :: "u8 \<Rightarrow> u8 \<Rightarrow> 16 word" where
  "lm75b_temp r0 r1 =
     (let temp = shl (ucast r0) 3 OR ucast (shr r1 5);
          temp = (if temp AND 0x400 \<noteq> 0 then temp OR 0xF800 else temp)
      in shr temp 3)"

definition libboard_lm75b_get_temp ::
  "'d device \<Rightarrow> i2c_statics \<Rightarrow> addr \<Rightarrow> mem \<times> 'd \<Rightarrow> (int \<times> mem \<times> 'd) option" where
  "libboard_lm75b_get_temp D v r st =
     (let (m, d) = st; m = m(r := 0, r + 1 := 0) in
      case rflpc_i2c_read D v LM75B_I2C_PORT LM75B_I2C_ADDR r 2 1 (m, d) of
        None \<Rightarrow> None
      | Some (_, m, d) \<Rightarrow> Some (sint (lm75b_temp (m r) (m (r + 1))), m, d))"

section \<open>The block, the bus and a slave\<close>

text \<open>
  What happened on the bus; the flag of a byte is its acknowledge bit. The slave acknowledges a byte
  and chooses a byte to send by what happened before.
\<close>

datatype i2c_event = Start | Rep_Start | Stop | Sent u8 bool | Received u8 bool

type_synonym i2c_ack = "i2c_event list \<Rightarrow> u8 \<Rightarrow> bool"
type_synonym i2c_reply = "i2c_event list \<Rightarrow> u8"

record i2c_hw =
  sta :: bool
  sto :: bool
  aa :: bool
  si :: bool
  owned :: bool
  stat :: u8
  dat :: u8
  wire :: "i2c_event list"

text \<open>
  The next thing a single master does on the bus, after the tables of the user manual, once the interrupt flag
  is clear: a requested stop, then a requested start; after a start the address in the data register
  goes out whatever the start flag says; then bytes go out or come in.
\<close>

definition hw_step :: "i2c_ack \<Rightarrow> i2c_reply \<Rightarrow> i2c_hw \<Rightarrow> i2c_hw" where
  "hw_step ack reply h =
     (if si h then h
      else if owned h \<and> sto h then
        (if sta h then h\<lparr>sto := False, stat := 0x08, si := True, wire := wire h @ [Stop, Start]\<rparr>
         else h\<lparr>sto := False, owned := False, wire := wire h @ [Stop]\<rparr>)
      else if \<not> owned h then
        (if sta h then h\<lparr>owned := True, stat := 0x08, si := True, wire := wire h @ [Start]\<rparr> else h)
      else if stat h \<in> {0x08, 0x10} then
        let k = ack (wire h) (dat h)
        in h\<lparr>si := True, wire := wire h @ [Sent (dat h) k],
             stat := (if bit (dat h) 0 then (if k then 0x40 else 0x48) else (if k then 0x18 else 0x20))\<rparr>
      else if sta h then h\<lparr>stat := 0x10, si := True, wire := wire h @ [Rep_Start]\<rparr>
      else if stat h \<in> {0x18, 0x28} then
        let k = ack (wire h) (dat h)
        in h\<lparr>si := True, wire := wire h @ [Sent (dat h) k], stat := (if k then 0x28 else 0x30)\<rparr>
      else if stat h \<in> {0x40, 0x50} then
        let v = reply (wire h)
        in h\<lparr>si := True, dat := v, wire := wire h @ [Received v (aa h)], stat := (if aa h then 0x50 else 0x58)\<rparr>
      else h)"

text \<open>Writes to \<^verbatim>\<open>I2CONSET\<close> and \<^verbatim>\<open>I2CONCLR\<close>.\<close>

definition con_set :: "u32 \<Rightarrow> i2c_hw \<Rightarrow> i2c_hw" where
  "con_set v h = h\<lparr>sta := sta h \<or> bit v 5, sto := sto h \<or> bit v 4, si := si h \<or> bit v 3, aa := aa h \<or> bit v 2\<rparr>"

definition con_clr :: "u32 \<Rightarrow> i2c_hw \<Rightarrow> i2c_hw" where
  "con_clr v h = h\<lparr>sta := sta h \<and> \<not> bit v 5, si := si h \<and> \<not> bit v 3, aa := aa h \<and> \<not> bit v 2\<rparr>"

text \<open>The hardware takes its next step at any read, and takes it sooner or later while the driver polls.\<close>

locale i2c_block =
  fixes D :: "'d device" and b :: addr and H :: "'d \<Rightarrow> i2c_hw" and ack :: i2c_ack and reply :: i2c_reply
  assumes rd_stat: "fst (dev_rd D (I2C_I2STAT b) d) AND 0xFF = ucast (if si (H d) then stat (H d) else 0xF8)"
    and rd_con: "bit (fst (dev_rd D (I2C_I2CONSET b) d)) 3 = si (H d)"
    and rd_dat: "fst (dev_rd D (I2C_I2DAT b) d) AND 0xFF = ucast (dat (H d))"
    and rd_time: "H (snd (dev_rd D a d)) \<in> {H d, hw_step ack reply (H d)}"
    and progress: "\<exists>n. H (after_reads D (I2C_I2CONSET b) n d) = hw_step ack reply (H d)"
    and wr_con: "H (dev_wr D (I2C_I2CONSET b) v d) = con_set v (H d)"
    and wr_clr: "H (dev_wr D (I2C_I2CONCLR b) v d) = con_clr v (H d)"
    and wr_dat: "si (H d) \<Longrightarrow> H (dev_wr D (I2C_I2DAT b) v d) = (H d)\<lparr>dat := ucast v\<rparr>"
    and wr_other: "a \<notin> {I2C_I2CONSET b, I2C_I2CONCLR b, I2C_I2DAT b} \<Longrightarrow> H (dev_wr D a v d) = H d"

text \<open>A new start of the bus, now or when the driver asks for it, makes the bus history \<open>w\<close>.\<close>

definition i2c_ready :: "i2c_event list \<Rightarrow> i2c_hw \<Rightarrow> bool" where
  "i2c_ready w h \<longleftrightarrow>
     (if si h then sta h \<and> owned h \<and> \<not> sto h \<and> stat h \<in> {0x08, 0x10} \<and> wire h = w
      else if owned h then
        (if sto h then w = wire h @ [Stop, Start]
         else sta h \<and> stat h \<notin> {0x08, 0x10} \<and> w = wire h @ [Rep_Start])
      else \<not> sto h \<and> w = wire h @ [Start])"

section \<open>What a transfer means\<close>

text \<open>The bytes go out until one is refused; the result has the number sent, the refused one counted.\<close>

fun transmit :: "i2c_ack \<Rightarrow> i2c_event list \<Rightarrow> u8 list \<Rightarrow> u8 \<Rightarrow> rflpc_i2c_status_t \<times> u8 \<times> i2c_event list" where
  "transmit ack w [] k = (RFLPC_I2C_SUCCESSFUL_TRANSMISSION, k, w)"
| "transmit ack w (c # cs) k =
     (if ack w c then transmit ack (w @ [Sent c True]) cs (k + 1)
      else (RFLPC_I2C_SLAVE_DID_NOT_ACKNOWLEDGED_DATA, k + 1, w @ [Sent c False]))"

definition master_send :: "i2c_ack \<Rightarrow> u8 \<Rightarrow> u8 list \<Rightarrow> i2c_event list \<Rightarrow> rflpc_i2c_status_t \<times> u8 \<times> i2c_event list" where
  "master_send ack ad cs w =
     (if ack w ad then transmit ack (w @ [Sent ad True]) cs 0
      else (RFLPC_I2C_SLAVE_IS_BUSY, 0, w @ [Sent ad False]))"

text \<open>What the block does after the driver has returned. After a refused address the start request is still
  there, so that the stop is followed by a new start.\<close>

fun i2c_ending :: "rflpc_i2c_status_t \<Rightarrow> u8 \<Rightarrow> i2c_event list" where
  "i2c_ending RFLPC_I2C_SUCCESSFUL_TRANSMISSION stop = (if stop = 0 then [Rep_Start] else [Stop])"
| "i2c_ending RFLPC_I2C_SLAVE_IS_BUSY stop = [Stop, Start]"
| "i2c_ending _ stop = [Stop]"

text \<open>The bytes the slave gives, all acknowledged but the last one.\<close>

fun receive :: "i2c_reply \<Rightarrow> i2c_event list \<Rightarrow> nat \<Rightarrow> u8 list \<times> i2c_event list" where
  "receive reply w 0 = ([], w)"
| "receive reply w (Suc n) =
     (let v = reply w; (vs, w) = receive reply (w @ [Received v (n > 0)]) n in (v # vs, w))"

definition block_at :: "mem \<Rightarrow> addr \<Rightarrow> nat \<Rightarrow> u8 list" where
  "block_at m p n = map (\<lambda>i. m (p + of_nat i)) [0..<n]"

fun put_block :: "addr \<Rightarrow> u8 list \<Rightarrow> mem \<Rightarrow> mem" where
  "put_block p [] m = m"
| "put_block p (v # vs) m = put_block (p + 1) vs (m(p := v))"

lemma block_at_Suc: "block_at m p (Suc n) = m p # block_at m (p + 1) n"
  unfolding block_at_def by (simp add: upt_conv_Cons map_Suc_upt [symmetric] del: upt_Suc) (simp add: add.assoc)

section \<open>Steps of the block\<close>

lemma hw_step_si: "si h \<Longrightarrow> hw_step ack reply h = h"
  by (simp add: hw_step_def)

lemma hw_step_cases:
  "si (hw_step ack reply h) \<or> hw_step ack reply h = h \<or>
   hw_step ack reply h = h\<lparr>sto := False, owned := False, wire := wire h @ [Stop]\<rparr> \<and> \<not> sta h \<and> \<not> si h"
  by (simp add: hw_step_def Let_def)

lemma hw_step_idem: "hw_step ack reply (hw_step ack reply h) = hw_step ack reply h"
proof -
  have "hw_step ack reply (h\<lparr>sto := False, owned := False, wire := wire h @ [Stop]\<rparr>) =
      h\<lparr>sto := False, owned := False, wire := wire h @ [Stop]\<rparr>" if "\<not> sta h" "\<not> si h"
    using that by (simp add: hw_step_def)
  with hw_step_cases [of ack reply h] show ?thesis by (elim disjE conjE) (simp_all only: hw_step_si not_False_eq_True)
qed

lemma ready_step: "i2c_ready w h \<Longrightarrow> i2c_ready w (hw_step ack reply h)"
  by (cases "si h"; cases "owned h"; cases "sto h"; cases "sta h") (simp_all add: i2c_ready_def hw_step_def)

lemma ready_start:
  assumes "i2c_ready w h" "\<not> si h"
  shows "\<exists>h'. hw_step ack reply (con_set 0x20 h) = h' \<and> si h' \<and> owned h' \<and> \<not> sto h' \<and>
    stat h' \<in> {0x08, 0x10} \<and> wire h' = w \<and> sta h' \<and> aa h' = aa h"
  using assms
  by (cases "owned h"; cases "sto h") (simp_all add: i2c_ready_def hw_step_def con_set_def bit_numeral_rec)

lemma byte_and_mask: "(ucast (c :: u8) :: u32) AND 0xFF = ucast c"
  unfolding numeral_masks by (rule bit_word_eqI) (auto simp: bit_simps dest: bit_imp_le_length)

lemma flag_bits:
  "RFLPC_I2C_FLAG_AA AND 0x7C = 4" "RFLPC_I2C_FLAG_STO AND 0x7C = 0x10" "RFLPC_I2C_FLAG_STA AND 0x7C = 0x20"
  "RFLPC_I2C_FLAG_AA AND 0x6C = 4" "RFLPC_I2C_FLAG_SI AND 0x6C = 8"
  "(RFLPC_I2C_FLAG_STA OR RFLPC_I2C_FLAG_SI) AND 0x6C = 0x28"
  by (simp_all add: RFLPC_I2C_FLAG_AA_def RFLPC_I2C_FLAG_STO_def RFLPC_I2C_FLAG_STA_def RFLPC_I2C_FLAG_SI_def)

lemma hw_step_aa: "aa (hw_step ack reply h) = aa h"
  by (simp add: hw_step_def Let_def)

text \<open>The block waits for the driver in state \<open>s\<close>; the driver is done.\<close>

definition i2c_active :: "u8 \<Rightarrow> i2c_event list \<Rightarrow> i2c_hw \<Rightarrow> bool" where
  "i2c_active s w h \<longleftrightarrow> si h \<and> owned h \<and> \<not> sto h \<and> stat h = s \<and> wire h = w"

definition i2c_done :: "i2c_ack \<Rightarrow> i2c_reply \<Rightarrow> rflpc_i2c_status_t \<Rightarrow> u8 \<Rightarrow> i2c_event list \<Rightarrow> i2c_hw \<Rightarrow> bool" where
  "i2c_done ack reply st stop w h \<longleftrightarrow>
     \<not> si h \<and> wire h = w \<and> wire (hw_step ack reply h) = w @ i2c_ending st stop \<and>
     i2c_ready (w @ (if i2c_ending st stop = [Rep_Start] then [Rep_Start] else [Stop, Start])) h"

lemma active_address:
  assumes "i2c_active s w h" "s \<in> {0x08, 0x10}"
  shows "i2c_active (if bit a 0 then (if ack w a then 0x40 else 0x48) else (if ack w a then 0x18 else 0x20))
      (w @ [Sent a (ack w a)]) (hw_step ack reply (con_clr 8 (h\<lparr>dat := a\<rparr>)))"
    and "aa (hw_step ack reply (con_clr 8 (h\<lparr>dat := a\<rparr>))) = aa h"
    and "sta (hw_step ack reply (con_clr 8 (h\<lparr>dat := a\<rparr>))) = sta h"
  using assms by (auto simp: i2c_active_def hw_step_def con_clr_def bit_numeral_rec Let_def)

lemma active_send:
  assumes "i2c_active s w h" "s \<in> {0x18, 0x28}" "v = 0x28 \<or> v = 8 \<and> \<not> sta h"
    and "h' = hw_step ack reply (con_clr v (h\<lparr>dat := c\<rparr>))"
  shows "i2c_active (if ack w c then 0x28 else 0x30) (w @ [Sent c (ack w c)]) h' \<and> \<not> sta h' \<and> aa h' = aa h"
  using assms by (auto simp: i2c_active_def hw_step_def con_clr_def bit_numeral_rec Let_def)

lemma con_aa [simp]: "aa (con_clr 8 h) = aa h" "aa (con_set 0x10 h) = aa h" "aa (con_set 0x20 h) = aa h"
  by (simp_all add: con_clr_def con_set_def bit_numeral_rec)

lemma active_end:
  assumes "i2c_active s w h" "s \<in> {0x20, 0x28, 0x30, 0x48, 0x58}"
  shows "\<not> sta h \<Longrightarrow> i2c_done ack reply RFLPC_I2C_SUCCESSFUL_TRANSMISSION stop w
      (con_clr 8 (con_set (if stop = 0 then 0x20 else 0x10) h))"
    and "\<not> sta h \<Longrightarrow> i2c_done ack reply RFLPC_I2C_SLAVE_DID_NOT_ACKNOWLEDGED_DATA stop w (con_clr 8 (con_set 0x10 h))"
    and "sta h \<Longrightarrow> i2c_done ack reply RFLPC_I2C_SLAVE_IS_BUSY stop w (con_clr 8 (con_set 0x10 h))"
  using assms
  by (auto simp: i2c_active_def i2c_done_def i2c_ready_def hw_step_def con_clr_def con_set_def bit_numeral_rec)

context i2c_block
begin

abbreviation step :: "i2c_hw \<Rightarrow> i2c_hw" where
  "step \<equiv> hw_step ack reply"

lemma rd_keeps: "si (H d) \<Longrightarrow> H (snd (dev_rd D a d)) = H d"
  using rd_time [of a d] by (auto simp: hw_step_si)

lemma read_stat:
  "\<exists>e. RFLPC_I2C_READ_STAT D b d = (if si (H d) then stat (H d) else 0xF8, e) \<and> H e \<in> {H d, step (H d)}"
proof -
  have "ucast (fst (dev_rd D (I2C_I2STAT b) d) AND 0xFF) = (if si (H d) then stat (H d) else 0xF8)"
    by (simp add: rd_stat)
  then show ?thesis
    using rd_time [of "I2C_I2STAT b" d] by (auto simp: RFLPC_I2C_READ_STAT_def split_def)
qed

lemma read_dat:
  assumes "si (H d)"
  shows "\<exists>e. RFLPC_I2C_READ_DAT D b d = (dat (H d), e) \<and> H e = H d"
proof -
  have "ucast (fst (dev_rd D (I2C_I2DAT b) d) AND 0xFF) = dat (H d)" by (simp add: rd_dat)
  then show ?thesis
    using rd_keeps [OF assms] by (auto simp: RFLPC_I2C_READ_DAT_def split_def)
qed

text \<open>Waiting for the interrupt flag takes the hardware one step on.\<close>

lemma wait_si:
  assumes "si (step (H d))"
  shows "\<exists>x e. poll D (I2C_I2CONSET b) (\<lambda>x. x AND RFLPC_I2C_FLAG_SI \<noteq> 0) d = Some (x, e) \<and> H e = step (H d)"
proof -
  have flag: "(x AND RFLPC_I2C_FLAG_SI \<noteq> 0) = bit x 3" for x
    using and_two_power_eq_zero [of x 3] by (simp add: RFLPC_I2C_FLAG_SI_def)
  obtain n where "H (after_reads D (I2C_I2CONSET b) n d) = step (H d)" using progress by blast
  then have "peek D (I2C_I2CONSET b) (after_reads D (I2C_I2CONSET b) n d) AND RFLPC_I2C_FLAG_SI \<noteq> 0"
    using assms rd_con by (simp only: flag peek_def)
  then obtain x e where e: "poll D (I2C_I2CONSET b) (\<lambda>x. x AND RFLPC_I2C_FLAG_SI \<noteq> 0) d = Some (x, e)"
    using poll_terminates [of "\<lambda>x. x AND RFLPC_I2C_FLAG_SI \<noteq> 0" D "I2C_I2CONSET b" n d] by auto
  have near: "H (snd (dev_rd D (I2C_I2CONSET b) f)) \<in> {H d, step (H d)}" if "H f \<in> {H d, step (H d)}" for f
    using rd_time [of "I2C_I2CONSET b" f] that hw_step_idem by auto
  obtain f where f: "H f \<in> {H d, step (H d)}" "dev_rd D (I2C_I2CONSET b) f = (x, e)" "bit x 3"
    using poll_last [of "\<lambda>f. H f \<in> {H d, step (H d)}", OF near _ e] by (auto simp only: flag)
  then have "si (H f)" using rd_con [of f] by simp
  then have "H f = step (H d)" using f(1) hw_step_si [of "H d"] by auto
  moreover have "H e = H f" using rd_keeps [OF \<open>si (H f)\<close>, of "I2C_I2CONSET b"] f(2) by simp
  ultimately show ?thesis using e by simp
qed

lemma con_write:
  "H (RFLPC_I2C_WRITE_CONSET D b v d) = con_set (v AND 0x7C) (H d)"
  "H (RFLPC_I2C_WRITE_CONCLR D b v d) = con_clr (v AND 0x6C) (H d)"
  by (simp_all add: RFLPC_I2C_WRITE_CONSET_def RFLPC_I2C_WRITE_CONCLR_def wr_con wr_clr)

lemma dat_write: "si (H d) \<Longrightarrow> H (RFLPC_I2C_WRITE_DAT D b v d) = (H d)\<lparr>dat := v\<rparr>"
  by (simp add: RFLPC_I2C_WRITE_DAT_def wr_dat byte_and_mask)

lemma write_round:
  assumes "si (H d)" "stat (H d) \<noteq> 0"
  shows "\<exists>e. H e = H d \<and>
    (\<forall>r d1. i2c_write_master D b m ad stop (stat (H d)) l e = (Inl r, d1) \<longrightarrow>
       i2c_write_loop D b m ad stop l d = Some (r, d1)) \<and>
    (\<forall>l1 d1. i2c_write_master D b m ad stop (stat (H d)) l e = (Inr l1, d1) \<longrightarrow> si (step (H d1)) \<longrightarrow>
       (\<exists>d2. H d2 = step (H d1) \<and> i2c_write_loop D b m ad stop l d = i2c_write_loop D b m ad stop l1 d2))"
proof -
  obtain e where e: "RFLPC_I2C_READ_STAT D b d = (stat (H d), e)" "H e = H d"
    using read_stat [of d] assms(1) hw_step_si [OF assms(1)] by auto
  have "\<exists>d2. H d2 = step (H d1) \<and> i2c_write_loop D b m ad stop l d = i2c_write_loop D b m ad stop l1 d2"
    if r: "i2c_write_master D b m ad stop (stat (H d)) l e = (Inr l1, d1)" "si (step (H d1))" for l1 d1
  proof -
    obtain x d2 where "poll D (I2C_I2CONSET b) (\<lambda>x. x AND RFLPC_I2C_FLAG_SI \<noteq> 0) d1 = Some (x, d2)" "H d2 = step (H d1)"
      using wait_si [OF r(2)] by blast
    then have "i2c_write_loop D b m ad stop l d = i2c_write_loop D b m ad stop l1 d2"
      using e(1) assms(2) r(1) by (subst i2c_write_loop.simps) simp
    with \<open>H d2 = step (H d1)\<close> show ?thesis by blast
  qed
  moreover have "i2c_write_loop D b m ad stop l d = Some (r, d1)"
    if "i2c_write_master D b m ad stop (stat (H d)) l e = (Inl r, d1)" for r d1
    using e(1) assms(2) that by (subst i2c_write_loop.simps) simp
  ultimately show ?thesis using e(2) by blast
qed

text \<open>From a free bus, or the end of another transfer, a start request leads to a start.\<close>

lemma reach_start:
  assumes "i2c_ready w (H d)" "\<not> si (H d)"
  shows "\<exists>e x s f. RFLPC_I2C_READ_STAT D b d = (0xF8, e) \<and>
    poll D (I2C_I2CONSET b) (\<lambda>x. x AND RFLPC_I2C_FLAG_SI \<noteq> 0) (RFLPC_I2C_WRITE_CONSET D b RFLPC_I2C_FLAG_STA e) =
      Some (x, f) \<and> s \<in> {0x08, 0x10} \<and> i2c_active s w (H f) \<and> sta (H f) \<and> aa (H f) = aa (H d)"
proof -
  obtain e where e: "RFLPC_I2C_READ_STAT D b d = (0xF8, e)" "H e \<in> {H d, step (H d)}"
    using read_stat [of d] assms(2) by auto
  have ready: "i2c_ready w (H e)" using e(2) assms ready_step by auto
  have aae: "aa (H e) = aa (H d)" using e(2) hw_step_aa by auto
  define e1 where "e1 = RFLPC_I2C_WRITE_CONSET D b RFLPC_I2C_FLAG_STA e"
  have e1: "H e1 = con_set 0x20 (H e)" by (simp add: e1_def con_write flag_bits)
  have "\<exists>s. s \<in> {0x08, 0x10} \<and> i2c_active s w (step (H e1)) \<and> sta (step (H e1)) \<and> aa (step (H e1)) = aa (H e)"
  proof (cases "si (H e)")
    case True
    then have "si (H e1)" by (simp add: e1 con_set_def)
    with ready True show ?thesis
      by (auto simp: hw_step_si i2c_ready_def i2c_active_def e1 con_set_def bit_numeral_rec)
  next
    case False
    from ready_start [OF ready False] show ?thesis by (auto simp: e1 i2c_active_def)
  qed
  then obtain s where s: "s \<in> {0x08, 0x10}" "i2c_active s w (step (H e1))" "sta (step (H e1))"
      "aa (step (H e1)) = aa (H e)" by blast
  then obtain x f where "poll D (I2C_I2CONSET b) (\<lambda>x. x AND RFLPC_I2C_FLAG_SI \<noteq> 0) e1 = Some (x, f)" "H f = step (H e1)"
    using wait_si [of e1] by (auto simp: i2c_active_def)
  with s e(1) aae show ?thesis
    by (intro exI [of _ e] exI [of _ x] exI [of _ s] exI [of _ f]) (simp add: e1_def)
qed

lemma ready_active:
  "i2c_ready w h \<Longrightarrow> si h \<Longrightarrow> sta h \<and> (\<exists>s. s \<in> {0x08, 0x10} \<and> i2c_active s w h)"
  by (auto simp: i2c_ready_def i2c_active_def)

lemma write_start:
  assumes "i2c_ready w (H d)"
  shows "\<exists>s e. s \<in> {0x08, 0x10} \<and> i2c_active s w (H e) \<and> sta (H e) \<and> aa (H e) = aa (H d) \<and>
    i2c_write_loop D b m ad stop l d = i2c_write_loop D b m ad stop l e"
proof (cases "si (H d)")
  case True
  from ready_active [OF assms True] show ?thesis by blast
next
  case False
  from reach_start [OF assms False] show ?thesis
    by (subst i2c_write_loop.simps) (fastforce simp: i2c_write_master_def)
qed

text \<open>The data bytes, from the second one on.\<close>

lemma write_data:
  assumes "i2c_active (if k then 0x28 else 0x30) w (H d)" "\<not> sta (H d)"
    and "length cs < 256" "nbytes l = of_nat (length cs)" "block_at m (data l) (length cs) = cs"
    and "(if k then transmit ack w cs (realnbytes l)
          else (RFLPC_I2C_SLAVE_DID_NOT_ACKNOWLEDGED_DATA, realnbytes l, w)) = (st, n, w')"
  shows "\<exists>d'. i2c_write_loop D b m ad stop l d = Some (RFLPC_I2C_RETURN st n, d') \<and>
    i2c_done ack reply st stop w' (H d') \<and> aa (H d') = aa (H d)"
  using assms
proof (induction cs arbitrary: k w d l)
  case Nil
  have act: "si (H d)" "stat (H d) \<noteq> 0" "stat (H d) = (if k then 0x28 else 0x30)"
    using Nil.prems(1) by (auto simp: i2c_active_def)
  obtain e where e: "H e = H d" "\<forall>r d1. i2c_write_master D b m ad stop (stat (H d)) l e = (Inl r, d1) \<longrightarrow>
       i2c_write_loop D b m ad stop l d = Some (r, d1)"
    using write_round [OF act(1,2), of m ad stop l] by blast
  have run: "i2c_write_master D b m ad stop (stat (H d)) l e =
      (Inl (RFLPC_I2C_RETURN st n), RFLPC_I2C_WRITE_CONCLR D b RFLPC_I2C_FLAG_SI
        (RFLPC_I2C_WRITE_CONSET D b (if k \<and> stop = 0 then RFLPC_I2C_FLAG_STA else RFLPC_I2C_FLAG_STO) e))"
    using Nil.prems(4,6) act(3) by (auto simp: i2c_write_master_def Let_def split: if_splits)
  have s: "(if k then 0x28 else 0x30) \<in> {0x20, 0x28, 0x30, 0x48, 0x58 :: u8}" by simp
  show ?case
    using e(2) [rule_format, OF run] active_end(1) [OF Nil.prems(1) s Nil.prems(2), where ack = ack and reply = reply and stop = stop]
      active_end(2) [OF Nil.prems(1) s Nil.prems(2), where ack = ack and reply = reply and stop = stop]
      Nil.prems(6) e(1)
    by (cases k; cases "stop = 0") (auto simp: con_write flag_bits)
next
  case (Cons c cs)
  have act: "si (H d)" "stat (H d) \<noteq> 0" "stat (H d) = (if k then 0x28 else 0x30)"
    using Cons.prems(1) by (auto simp: i2c_active_def)
  have nz: "nbytes l \<noteq> 0"
    using Cons.prems(3) unfolding Cons.prems(4) by (simp only: word_unat_eq_iff unat_of_nat) simp
  obtain e where e: "H e = H d" "\<forall>r d1. i2c_write_master D b m ad stop (stat (H d)) l e = (Inl r, d1) \<longrightarrow>
       i2c_write_loop D b m ad stop l d = Some (r, d1)"
    "\<forall>l1 d1. i2c_write_master D b m ad stop (stat (H d)) l e = (Inr l1, d1) \<longrightarrow> si (step (H d1)) \<longrightarrow>
       (\<exists>d2. H d2 = step (H d1) \<and> i2c_write_loop D b m ad stop l d = i2c_write_loop D b m ad stop l1 d2)"
    using write_round [OF act(1,2), of m ad stop l] by blast
  show ?case
  proof (cases k)
    case False
    have run: "i2c_write_master D b m ad stop (stat (H d)) l e =
        (Inl (RFLPC_I2C_RETURN st n), RFLPC_I2C_WRITE_CONCLR D b RFLPC_I2C_FLAG_SI
          (RFLPC_I2C_WRITE_CONSET D b RFLPC_I2C_FLAG_STO e))"
      using Cons.prems(6) act(3) False by (auto simp: i2c_write_master_def Let_def)
    show ?thesis
      using e(2) [rule_format, OF run] active_end(2) [OF Cons.prems(1) _ Cons.prems(2), where ack = ack and reply = reply and stop = stop]
        Cons.prems(6) e(1) False
      by (auto simp: con_write flag_bits)
  next
    case True
    let ?l = "l\<lparr>nbytes := nbytes l - 1, realnbytes := realnbytes l + 1, data := data l + 1\<rparr>"
    have c: "m (data l) = c" "block_at m (data l + 1) (length cs) = cs"
      using Cons.prems(5) by (simp_all add: block_at_Suc)
    define d1 where "d1 = RFLPC_I2C_WRITE_CONCLR D b RFLPC_I2C_FLAG_SI (send_data D b m l e)"
    have d1: "H d1 = con_clr 8 ((H d)\<lparr>dat := c\<rparr>)"
      using act(1) e(1) by (simp add: d1_def con_write flag_bits send_data_def dat_write c)
    have run: "i2c_write_master D b m ad stop (stat (H d)) l e = (Inr ?l, d1)"
      using act(3) True nz by (simp add: i2c_write_master_def Let_def d1_def)
    have active: "i2c_active (if ack w c then 0x28 else 0x30) (w @ [Sent c (ack w c)]) (step (H d1)) \<and>
        \<not> sta (step (H d1)) \<and> aa (step (H d1)) = aa (H d)"
      using active_send [where s = "0x28" and w = w and h = "H d" and v = 8 and c = c and ack = ack and reply = reply, OF _ _ _ refl] Cons.prems(1,2) True d1 by simp
    then obtain d2 where d2: "H d2 = step (H d1)" "i2c_write_loop D b m ad stop l d = i2c_write_loop D b m ad stop ?l d2"
      using e(3) [rule_format, OF run] by (auto simp: i2c_active_def)
    have "\<exists>d'. i2c_write_loop D b m ad stop ?l d2 = Some (RFLPC_I2C_RETURN st n, d') \<and>
        i2c_done ack reply st stop w' (H d') \<and> aa (H d') = aa (H d2)"
    proof (rule Cons.IH)
      show "i2c_active (if ack w c then 0x28 else 0x30) (w @ [Sent c (ack w c)]) (H d2)" "\<not> sta (H d2)"
        using active d2(1) by simp_all
      show "length cs < 256" "nbytes ?l = of_nat (length cs)" "block_at m (data ?l) (length cs) = cs"
        using Cons.prems(3,4) c(2) by simp_all
      show "(if ack w c then transmit ack (w @ [Sent c (ack w c)]) cs (realnbytes ?l)
          else (RFLPC_I2C_SLAVE_DID_NOT_ACKNOWLEDGED_DATA, realnbytes ?l, w @ [Sent c (ack w c)])) = (st, n, w')"
        using Cons.prems(6) True by (auto split: if_splits)
    qed
    then show ?thesis using d2 active by simp
  qed
qed


lemma write_rounds:
  assumes "si (H d)" "stat (H d) \<noteq> 0"
  obtains e where "H e = H d"
    and "\<And>r d1. i2c_write_master D b m ad stop (stat (H d)) l e = (Inl r, d1) \<Longrightarrow>
       i2c_write_loop D b m ad stop l d = Some (r, d1)"
    and "\<And>l1 d1. i2c_write_master D b m ad stop (stat (H d)) l e = (Inr l1, d1) \<Longrightarrow> si (step (H d1)) \<Longrightarrow>
       \<exists>d2. H d2 = step (H d1) \<and> i2c_write_loop D b m ad stop l d = i2c_write_loop D b m ad stop l1 d2"
  using write_round [OF assms, of m ad stop l] by blast

text \<open>A whole master write of at least one byte.\<close>

lemma write_transfer:
  assumes ready: "i2c_ready w (H d)" and ad: "\<not> bit ad 0" and l: "nbytes l \<noteq> 0" "realnbytes l = 0"
    and spec: "master_send ack ad (block_at m (data l) (unat (nbytes l))) w = (st, n, w')"
  shows "\<exists>d'. i2c_write_loop D b m ad stop l d = Some (RFLPC_I2C_RETURN st n, d') \<and>
    i2c_done ack reply st stop w' (H d') \<and> aa (H d') = aa (H d)"
proof -
  obtain s d1 where s: "s \<in> {0x08, 0x10}" "i2c_active s w (H d1)" "sta (H d1)" "aa (H d1) = aa (H d)"
      and loop1: "i2c_write_loop D b m ad stop l d = i2c_write_loop D b m ad stop l d1"
    using write_start [OF ready, of m ad stop l] by blast
  have act1: "si (H d1)" "stat (H d1) \<noteq> 0" "stat (H d1) = s" using s by (auto simp: i2c_active_def)
  obtain e1 where e1: "H e1 = H d1"
    "\<And>l1 d2. i2c_write_master D b m ad stop (stat (H d1)) l e1 = (Inr l1, d2) \<Longrightarrow> si (step (H d2)) \<Longrightarrow>
       \<exists>d3. H d3 = step (H d2) \<and> i2c_write_loop D b m ad stop l d1 = i2c_write_loop D b m ad stop l1 d3"
    by (rule write_rounds [OF act1(1,2), of m ad stop l]) blast
  define d2 where "d2 = RFLPC_I2C_WRITE_CONCLR D b RFLPC_I2C_FLAG_SI (RFLPC_I2C_WRITE_DAT D b ad e1)"
  have d2: "H d2 = con_clr 8 ((H d1)\<lparr>dat := ad\<rparr>)"
    using act1(1) e1(1) by (simp add: d2_def con_write flag_bits dat_write)
  let ?k = "ack w ad"
  have act2: "i2c_active (if ?k then 0x18 else 0x20) (w @ [Sent ad ?k]) (step (H d2))" "sta (step (H d2))"
      "aa (step (H d2)) = aa (H d)"
    using active_address [OF s(2,1), where a = ad and ack = ack and reply = reply] ad s(3,4) by (simp_all add: d2)
  have "i2c_write_master D b m ad stop (stat (H d1)) l e1 = (Inr l, d2)"
    using s(1) act1(3) by (auto simp: i2c_write_master_def d2_def)
  then obtain d3 where d3: "H d3 = step (H d2)"
      "i2c_write_loop D b m ad stop l d1 = i2c_write_loop D b m ad stop l d3"
    using e1(2) act2(1) by (auto simp: i2c_active_def)
  have act3: "si (H d3)" "stat (H d3) \<noteq> 0" "stat (H d3) = (if ?k then 0x18 else 0x20)"
    using act2(1) d3(1) by (auto simp: i2c_active_def)
  obtain e3 where e3: "H e3 = H d3"
    "\<And>r d4. i2c_write_master D b m ad stop (stat (H d3)) l e3 = (Inl r, d4) \<Longrightarrow>
       i2c_write_loop D b m ad stop l d3 = Some (r, d4)"
    "\<And>l1 d4. i2c_write_master D b m ad stop (stat (H d3)) l e3 = (Inr l1, d4) \<Longrightarrow> si (step (H d4)) \<Longrightarrow>
       \<exists>d5. H d5 = step (H d4) \<and> i2c_write_loop D b m ad stop l d3 = i2c_write_loop D b m ad stop l1 d5"
    by (rule write_rounds [OF act3(1,2), of m ad stop l]) blast
  show ?thesis
  proof (cases ?k)
    case False
    have run: "i2c_write_master D b m ad stop (stat (H d3)) l e3 = (Inl (RFLPC_I2C_RETURN st n),
        RFLPC_I2C_WRITE_CONCLR D b RFLPC_I2C_FLAG_SI (RFLPC_I2C_WRITE_CONSET D b RFLPC_I2C_FLAG_STO e3))"
      using False spec act3(3) by (simp add: i2c_write_master_def master_send_def Let_def)
    show ?thesis
      using e3(2) [OF run] loop1 d3 active_end(3) [OF act2(1) _ act2(2), where ack = ack and reply = reply and stop = stop]
        False spec e3(1) act2(3)
      by (simp add: con_write flag_bits master_send_def)
  next
    case True
    let ?l = "l\<lparr>nbytes := nbytes l - 1, realnbytes := realnbytes l + 1, data := data l + 1\<rparr>"
    define k where "k = unat (nbytes l) - 1"
    have "0 < unat (nbytes l)" using l(1) by (simp add: unat_gt_0)
    then have len: "unat (nbytes l) = Suc k" by (simp add: k_def)
    define c where "c = m (data l)"
    define cs where "cs = block_at m (data l + 1) k"
    have block: "block_at m (data l) (unat (nbytes l)) = c # cs" by (simp only: len block_at_Suc c_def cs_def)
    have k: "nbytes l - 1 = of_nat k" "length cs = k" "k < 256"
    proof -
      have "nbytes l = of_nat (unat (nbytes l))" by simp
      then have "nbytes l = of_nat (Suc k)" by (simp only: len)
      then show "nbytes l - 1 = of_nat k" by simp
      show "length cs = k" by (simp add: cs_def block_at_def)
      have "unat (nbytes l) < 256" using unsigned_less [of "nbytes l"] by simp
      then show "k < 256" using len by simp
    qed
    define d4 where "d4 = RFLPC_I2C_WRITE_CONCLR D b (RFLPC_I2C_FLAG_STA OR RFLPC_I2C_FLAG_SI) (send_data D b m l e3)"
    have d4: "H d4 = con_clr 0x28 ((H d3)\<lparr>dat := c\<rparr>)"
      using act3(1) e3(1) by (simp add: d4_def con_write flag_bits send_data_def dat_write c_def)
    have run: "i2c_write_master D b m ad stop (stat (H d3)) l e3 = (Inr ?l, d4)"
      using act3(3) True l(1) by (simp add: i2c_write_master_def Let_def d4_def)
    let ?w = "w @ [Sent ad True]"
    have active: "i2c_active (if ack ?w c then 0x28 else 0x30) (?w @ [Sent c (ack ?w c)]) (step (H d4)) \<and>
        \<not> sta (step (H d4)) \<and> aa (step (H d4)) = aa (H d3)"
      using active_send [where s = "0x18" and w = ?w and h = "H d3" and v = "0x28" and c = c and ack = ack
          and reply = reply, OF _ _ _ refl] act2(1) True d3(1) d4 by simp
    then obtain d5 where d5: "H d5 = step (H d4)" "i2c_write_loop D b m ad stop l d3 = i2c_write_loop D b m ad stop ?l d5"
      using e3(3) [OF run] by (auto simp: i2c_active_def)
    have "\<exists>d'. i2c_write_loop D b m ad stop ?l d5 = Some (RFLPC_I2C_RETURN st n, d') \<and>
        i2c_done ack reply st stop w' (H d') \<and> aa (H d') = aa (H d5)"
    proof (rule write_data)
      show "i2c_active (if ack ?w c then 0x28 else 0x30) (?w @ [Sent c (ack ?w c)]) (H d5)" "\<not> sta (H d5)"
        using active d5(1) by simp_all
      show "length cs < 256" "nbytes ?l = of_nat (length cs)" "block_at m (data ?l) (length cs) = cs"
        using k by (simp_all add: cs_def)
      show "(if ack ?w c then transmit ack (?w @ [Sent c (ack ?w c)]) cs (realnbytes ?l)
          else (RFLPC_I2C_SLAVE_DID_NOT_ACKNOWLEDGED_DATA, realnbytes ?l, ?w @ [Sent c (ack ?w c)])) = (st, n, w')"
        using spec True l(2) by (auto simp: master_send_def block split: if_splits)
    qed
    then show ?thesis using loop1 d3 d5 active act2(3) by simp
  qed
qed

section \<open>Receiving\<close>

lemma read_rounds:
  assumes "si (H d)" "stat (H d) \<noteq> 0"
  obtains e where "H e = H d"
    and "\<And>r m1 d1. i2c_read_master D b v ad stop (stat (H d)) l (m, e) = Some (Inl r, m1, d1) \<Longrightarrow>
       i2c_read_loop D b v ad stop l (m, d) = Some (r, m1, d1)"
    and "\<And>l1 m1 d1. i2c_read_master D b v ad stop (stat (H d)) l (m, e) = Some (Inr l1, m1, d1) \<Longrightarrow>
       si (step (H d1)) \<Longrightarrow>
       \<exists>d2. H d2 = step (H d1) \<and> i2c_read_loop D b v ad stop l (m, d) = i2c_read_loop D b v ad stop l1 (m1, d2)"
proof -
  obtain e where e: "RFLPC_I2C_READ_STAT D b d = (stat (H d), e)" "H e = H d"
    using read_stat [of d] assms(1) hw_step_si [OF assms(1)] by auto
  have "\<exists>d2. H d2 = step (H d1) \<and> i2c_read_loop D b v ad stop l (m, d) = i2c_read_loop D b v ad stop l1 (m1, d2)"
    if r: "i2c_read_master D b v ad stop (stat (H d)) l (m, e) = Some (Inr l1, m1, d1)" "si (step (H d1))" for l1 m1 d1
  proof -
    obtain x d2 where "poll D (I2C_I2CONSET b) (\<lambda>x. x AND RFLPC_I2C_FLAG_SI \<noteq> 0) d1 = Some (x, d2)" "H d2 = step (H d1)"
      using wait_si [OF r(2)] by blast
    then have "i2c_read_loop D b v ad stop l (m, d) = i2c_read_loop D b v ad stop l1 (m1, d2)"
      using e(1) assms(2) r(1) by (subst i2c_read_loop.simps) simp
    with \<open>H d2 = step (H d1)\<close> show ?thesis by blast
  qed
  moreover have "i2c_read_loop D b v ad stop l (m, d) = Some (r, m1, d1)"
    if "i2c_read_master D b v ad stop (stat (H d)) l (m, e) = Some (Inl r, m1, d1)" for r m1 d1
    using e(1) assms(2) that by (subst i2c_read_loop.simps) simp
  ultimately show ?thesis using that [OF e(2)] by blast
qed

lemma read_start:
  assumes "i2c_ready w (H d)" "i2c_mode v = RFLPC_I2C_MODE_MASTER"
  shows "\<exists>s e. s \<in> {0x08, 0x10} \<and> i2c_active s w (H e) \<and> sta (H e) \<and> aa (H e) = aa (H d) \<and>
    i2c_read_loop D b v ad stop l (m, d) = i2c_read_loop D b v ad stop l (m, e)"
proof (cases "si (H d)")
  case True
  from ready_active [OF assms(1) True] show ?thesis by blast
next
  case False
  from reach_start [OF assms(1) False] show ?thesis
    using assms(2) by (subst i2c_read_loop.simps) (fastforce simp: i2c_read_master_def)
qed

end

text \<open>The next byte comes in, acknowledged when the flag says so.\<close>

lemma active_receive:
  assumes "i2c_active s w h" "s \<in> {0x40, 0x50}" "\<not> sta h'" "h' = con_clr v (if k then con_set 4 h else con_clr 4 h)"
    and "v = 0x28 \<or> v = 8"
  shows "i2c_active (if k then 0x50 else 0x58) (w @ [Received (reply w) k]) (hw_step ack reply h') \<and>
    \<not> sta (hw_step ack reply h') \<and> aa (hw_step ack reply h') = k \<and> dat (hw_step ack reply h') = reply w"
proof -
  have h': "owned h'" "\<not> sto h'" "\<not> si h'" "aa h' = k" "stat h' = s" "wire h' = w"
    using assms(1,4,5) by (cases k; elim disjE; simp add: i2c_active_def con_clr_def con_set_def bit_numeral_rec)+
  show ?thesis
    using h' assms(2,3) by (cases k) (auto simp: i2c_active_def hw_step_def Let_def)
qed

context i2c_block
begin

text \<open>The bytes, from the moment the first one is there.\<close>

lemma read_data:
  assumes "i2c_active (if 0 < n then 0x50 else 0x58) (w @ [Received (reply w) (0 < n)]) (H d)" "\<not> sta (H d)"
    and "dat (H d) = reply w" "aa (H d) = (0 < n)"
    and "n < 255" "if n = 0 then unat (nbytes l) \<le> 1 else nbytes l = of_nat (Suc n)"
    and "receive reply w (Suc n) = (vs, w')"
  shows "\<exists>d'. i2c_read_loop D b v ad stop l (m, d) =
      Some (RFLPC_I2C_RETURN RFLPC_I2C_SUCCESSFUL_TRANSMISSION (realnbytes l + of_nat (Suc n)),
        put_block (data l) vs m, d') \<and>
    i2c_done ack reply RFLPC_I2C_SUCCESSFUL_TRANSMISSION stop w' (H d') \<and> \<not> aa (H d')"
  using assms
proof (induction n arbitrary: w d l m vs)
  case 0
  have act: "si (H d)" "stat (H d) \<noteq> 0" "stat (H d) = 0x58"
    using "0.prems"(1) by (auto simp: i2c_active_def)
  obtain e where e: "H e = H d"
    "\<And>r m1 d1. i2c_read_master D b v ad stop (stat (H d)) l (m, e) = Some (Inl r, m1, d1) \<Longrightarrow>
       i2c_read_loop D b v ad stop l (m, d) = Some (r, m1, d1)"
    by (rule read_rounds [OF act(1,2), of v ad stop l m]) blast
  obtain f where f: "RFLPC_I2C_READ_DAT D b e = (dat (H d), f)" "H f = H d"
    using read_dat [of e] act(1) e(1) by auto
  have run: "i2c_read_master D b v ad stop (stat (H d)) l (m, e) =
      Some (Inl (RFLPC_I2C_RETURN RFLPC_I2C_SUCCESSFUL_TRANSMISSION (realnbytes l + 1)), m(data l := reply w),
        RFLPC_I2C_WRITE_CONCLR D b RFLPC_I2C_FLAG_SI
          (RFLPC_I2C_WRITE_CONSET D b (if stop = 0 then RFLPC_I2C_FLAG_STA else RFLPC_I2C_FLAG_STO) f))"
    using act(3) f(1) "0.prems"(3) by (simp add: i2c_read_master_def receive_data_def Let_def)
  show ?case
    using e(2) [OF run] active_end(1) [OF "0.prems"(1) _ "0.prems"(2), where ack = ack and reply = reply and stop = stop]
      "0.prems"(4,7) f(2)
    by (cases "stop = 0") (auto simp: con_write flag_bits Let_def)
next
  case (Suc n)
  have act: "si (H d)" "stat (H d) \<noteq> 0" "stat (H d) = 0x50"
    using Suc.prems(1) by (auto simp: i2c_active_def)
  obtain e where e: "H e = H d"
    "\<And>l1 m1 d1. i2c_read_master D b v ad stop (stat (H d)) l (m, e) = Some (Inr l1, m1, d1) \<Longrightarrow>
       si (step (H d1)) \<Longrightarrow>
       \<exists>d2. H d2 = step (H d1) \<and> i2c_read_loop D b v ad stop l (m, d) = i2c_read_loop D b v ad stop l1 (m1, d2)"
    by (rule read_rounds [OF act(1,2), of v ad stop l m]) blast
  obtain f where f: "RFLPC_I2C_READ_DAT D b e = (dat (H d), f)" "H f = H d"
    using read_dat [of e] act(1) e(1) by auto
  let ?l = "l\<lparr>data := data l + 1, nbytes := nbytes l - 1, realnbytes := realnbytes l + 1\<rparr>"
  have nb: "nbytes ?l = of_nat (Suc n)" using Suc.prems(6) by simp
  then have "unat (nbytes ?l) = Suc n" using Suc.prems(5) by (simp only: unat_of_nat) simp
  then have more: "1 < nbytes l - 1 \<longleftrightarrow> 0 < n" by (simp add: word_less_nat_alt)
  define d1 where "d1 = RFLPC_I2C_WRITE_CONCLR D b RFLPC_I2C_FLAG_SI
      (if 0 < n then RFLPC_I2C_WRITE_CONSET D b RFLPC_I2C_FLAG_AA f else RFLPC_I2C_WRITE_CONCLR D b RFLPC_I2C_FLAG_AA f)"
  have d1: "H d1 = con_clr 8 (if 0 < n then con_set 4 (H d) else con_clr 4 (H d))"
    using f(2) by (simp add: d1_def con_write flag_bits)
  have run: "i2c_read_master D b v ad stop (stat (H d)) l (m, e) = Some (Inr ?l, m(data l := reply w), d1)"
    using act(3) f(1) Suc.prems(3) more by (simp add: i2c_read_master_def receive_data_def Let_def d1_def)
  let ?w = "w @ [Received (reply w) True]"
  have "\<not> sta (H d1)" using Suc.prems(2) by (simp add: d1 con_clr_def con_set_def bit_numeral_rec)
  then have next_byte: "i2c_active (if 0 < n then 0x50 else 0x58) (?w @ [Received (reply ?w) (0 < n)]) (step (H d1)) \<and>
      \<not> sta (step (H d1)) \<and> aa (step (H d1)) = (0 < n) \<and> dat (step (H d1)) = reply ?w"
    using active_receive [where s = "0x50" and w = ?w and h = "H d" and h' = "H d1" and v = 8 and k = "0 < n" and ack = ack
        and reply = reply] Suc.prems(1) d1 by simp
  then obtain d2 where d2: "H d2 = step (H d1)"
      "i2c_read_loop D b v ad stop l (m, d) = i2c_read_loop D b v ad stop ?l (m(data l := reply w), d2)"
    using e(2) [OF run] by (auto simp: i2c_active_def)
  obtain vs' where vs': "receive reply ?w (Suc n) = (vs', w')" "vs = reply w # vs'"
    using Suc.prems(7) by (auto simp: Let_def split: prod.splits)
  have "\<exists>d'. i2c_read_loop D b v ad stop ?l (m(data l := reply w), d2) =
      Some (RFLPC_I2C_RETURN RFLPC_I2C_SUCCESSFUL_TRANSMISSION (realnbytes ?l + of_nat (Suc n)),
        put_block (data ?l) vs' (m(data l := reply w)), d') \<and>
    i2c_done ack reply RFLPC_I2C_SUCCESSFUL_TRANSMISSION stop w' (H d') \<and> \<not> aa (H d')"
    by (rule Suc.IH) (use next_byte d2(1) nb Suc.prems(5) vs'(1) in \<open>simp_all del: receive.simps\<close>)
  then show ?case using d2(2) vs'(2) by (simp add: algebra_simps)
qed

text \<open>A whole master read; a request for no byte is served as one for one byte.\<close>

lemma read_transfer:
  assumes ready: "i2c_ready w (H d)" and mode: "i2c_mode v = RFLPC_I2C_MODE_MASTER"
    and l: "realnbytes l = 0" and aa: "\<not> aa (H d)"
    and n: "n = unat (nbytes l) - 1"
    and spec: "receive reply (w @ [Sent (ad OR 1) True]) (Suc n) = (vs, w')"
  shows "\<exists>d'. i2c_read_loop D b v ad stop l (m, d) =
      (if ack w (ad OR 1)
       then Some (RFLPC_I2C_RETURN RFLPC_I2C_SUCCESSFUL_TRANSMISSION (of_nat (Suc n)), put_block (data l) vs m, d')
       else Some (RFLPC_I2C_RETURN RFLPC_I2C_SLAVE_IS_BUSY 0, m, d')) \<and>
    (if ack w (ad OR 1) then i2c_done ack reply RFLPC_I2C_SUCCESSFUL_TRANSMISSION stop w' (H d')
     else i2c_done ack reply RFLPC_I2C_SLAVE_IS_BUSY stop (w @ [Sent (ad OR 1) False]) (H d')) \<and> \<not> aa (H d')"
proof -
  let ?ad = "ad OR 1"
  let ?k = "ack w ?ad"
  obtain s d1 where s: "s \<in> {0x08, 0x10}" "i2c_active s w (H d1)" "sta (H d1)" "aa (H d1) = aa (H d)"
      and loop1: "i2c_read_loop D b v ad stop l (m, d) = i2c_read_loop D b v ad stop l (m, d1)"
    using read_start [OF ready mode, of ad stop l m] by blast
  have act1: "si (H d1)" "stat (H d1) \<noteq> 0" "stat (H d1) = s" using s by (auto simp: i2c_active_def)
  obtain e1 where e1: "H e1 = H d1"
    "\<And>l1 m1 d2. i2c_read_master D b v ad stop (stat (H d1)) l (m, e1) = Some (Inr l1, m1, d2) \<Longrightarrow> si (step (H d2)) \<Longrightarrow>
       \<exists>d3. H d3 = step (H d2) \<and> i2c_read_loop D b v ad stop l (m, d1) = i2c_read_loop D b v ad stop l1 (m1, d3)"
    by (rule read_rounds [OF act1(1,2), of v ad stop l m]) blast
  define d2 where "d2 = RFLPC_I2C_WRITE_CONCLR D b RFLPC_I2C_FLAG_SI (RFLPC_I2C_WRITE_DAT D b ?ad e1)"
  have d2: "H d2 = con_clr 8 ((H d1)\<lparr>dat := ?ad\<rparr>)"
    using act1(1) e1(1) by (simp add: d2_def con_write flag_bits dat_write)
  have odd: "bit ?ad 0" by (simp add: bit_or_iff)
  have act2: "i2c_active (if ?k then 0x40 else 0x48) (w @ [Sent ?ad ?k]) (step (H d2))" "sta (step (H d2))"
      "aa (step (H d2)) = aa (H d)"
    using active_address [OF s(2,1), where a = ?ad and ack = ack and reply = reply] odd s(3,4) by (simp_all add: d2)
  have "i2c_read_master D b v ad stop (stat (H d1)) l (m, e1) = Some (Inr l, m, d2)"
    using s(1) act1(3) by (auto simp: i2c_read_master_def d2_def)
  then obtain d3 where d3: "H d3 = step (H d2)"
      "i2c_read_loop D b v ad stop l (m, d1) = i2c_read_loop D b v ad stop l (m, d3)"
    using e1(2) act2(1) by (auto simp: i2c_active_def)
  have act3: "si (H d3)" "stat (H d3) \<noteq> 0" "stat (H d3) = (if ?k then 0x40 else 0x48)"
    using act2(1) d3(1) by (auto simp: i2c_active_def)
  obtain e3 where e3: "H e3 = H d3"
    "\<And>r m4 d4. i2c_read_master D b v ad stop (stat (H d3)) l (m, e3) = Some (Inl r, m4, d4) \<Longrightarrow>
       i2c_read_loop D b v ad stop l (m, d3) = Some (r, m4, d4)"
    "\<And>l1 m4 d4. i2c_read_master D b v ad stop (stat (H d3)) l (m, e3) = Some (Inr l1, m4, d4) \<Longrightarrow> si (step (H d4)) \<Longrightarrow>
       \<exists>d5. H d5 = step (H d4) \<and> i2c_read_loop D b v ad stop l (m, d3) = i2c_read_loop D b v ad stop l1 (m4, d5)"
    by (rule read_rounds [OF act3(1,2), of v ad stop l m]) blast
  show ?thesis
  proof (cases ?k)
    case False
    have run: "i2c_read_master D b v ad stop (stat (H d3)) l (m, e3) = Some (Inl (RFLPC_I2C_RETURN RFLPC_I2C_SLAVE_IS_BUSY 0),
        m, RFLPC_I2C_WRITE_CONCLR D b RFLPC_I2C_FLAG_SI (RFLPC_I2C_WRITE_CONSET D b RFLPC_I2C_FLAG_STO e3))"
      using False act3(3) by (simp add: i2c_read_master_def Let_def)
    show ?thesis
      using e3(2) [OF run] loop1 d3 active_end(3) [OF act2(1) _ act2(2), where ack = ack and reply = reply and stop = stop]
        False e3(1) act2(3) aa
      by (simp add: con_write flag_bits)
  next
    case True
    have "unat (nbytes l) < 256" using unsigned_less [of "nbytes l"] by simp
    then have n255: "n < 255" using n by simp
    have more: "1 < nbytes l \<longleftrightarrow> 0 < n" using n by (simp add: word_less_nat_alt)
    have nb: "if n = 0 then unat (nbytes l) \<le> 1 else nbytes l = of_nat (Suc n)"
    proof (cases "n = 0")
      case False
      then have "unat (nbytes l) = Suc n" using n by simp
      moreover have "nbytes l = of_nat (unat (nbytes l))" by simp
      ultimately have "nbytes l = of_nat (Suc n)" by (simp only:)
      with False show ?thesis by simp
    qed (use n in simp)
    define d4 where "d4 = RFLPC_I2C_WRITE_CONCLR D b (RFLPC_I2C_FLAG_STA OR RFLPC_I2C_FLAG_SI)
        (if 1 < nbytes l then RFLPC_I2C_WRITE_CONSET D b RFLPC_I2C_FLAG_AA e3 else e3)"
    have run: "i2c_read_master D b v ad stop (stat (H d3)) l (m, e3) = Some (Inr l, m, d4)"
      using act3(3) True by (simp add: i2c_read_master_def Let_def d4_def)
    have "con_clr 0x28 (if 0 < n then con_set 4 (H d3) else H d3) =
        con_clr 0x28 (if 0 < n then con_set 4 (H d3) else con_clr 4 (H d3))"
      using aa act2(3) d3(1) act3(1) by (simp add: con_clr_def con_set_def bit_numeral_rec)
    then have d4: "H d4 = con_clr 0x28 (if 0 < n then con_set 4 (H d3) else con_clr 4 (H d3))"
      using e3(1) more by (cases "n = 0") (simp_all add: d4_def con_write flag_bits)
    let ?w = "w @ [Sent ?ad True]"
    have "\<not> sta (H d4)" by (simp add: d4 con_clr_def bit_numeral_rec)
    then have first_byte: "i2c_active (if 0 < n then 0x50 else 0x58) (?w @ [Received (reply ?w) (0 < n)]) (step (H d4)) \<and>
        \<not> sta (step (H d4)) \<and> aa (step (H d4)) = (0 < n) \<and> dat (step (H d4)) = reply ?w"
      using active_receive [where s = "0x40" and w = ?w and h = "H d3" and h' = "H d4" and v = "0x28" and k = "0 < n"
          and ack = ack and reply = reply] act2(1) True d3(1) d4 by simp
    then obtain d5 where d5: "H d5 = step (H d4)" "i2c_read_loop D b v ad stop l (m, d3) = i2c_read_loop D b v ad stop l (m, d5)"
      using e3(3) [OF run] by (auto simp: i2c_active_def)
    have "\<exists>d'. i2c_read_loop D b v ad stop l (m, d5) =
        Some (RFLPC_I2C_RETURN RFLPC_I2C_SUCCESSFUL_TRANSMISSION (realnbytes l + of_nat (Suc n)),
          put_block (data l) vs m, d') \<and>
      i2c_done ack reply RFLPC_I2C_SUCCESSFUL_TRANSMISSION stop w' (H d') \<and> \<not> aa (H d')"
      by (rule read_data [where w = ?w]) (use first_byte d5(1) nb n255 spec in \<open>simp_all del: receive.simps of_nat_Suc\<close>)
    then show ?thesis using loop1 d3 d5 True l by simp
  qed
qed

end


section \<open>From reset\<close>

text \<open>The bus is free and nothing is asked of the block.\<close>

definition i2c_idle :: "i2c_hw \<Rightarrow> bool" where
  "i2c_idle h \<longleftrightarrow> \<not> si h \<and> \<not> sta h \<and> \<not> sto h \<and> \<not> owned h"

lemma idle_step: "i2c_idle h \<Longrightarrow> hw_step ack reply h = h"
  by (simp add: i2c_idle_def hw_step_def)

lemma idle_ready: "i2c_idle h \<Longrightarrow> i2c_ready (wire h @ [Start]) h"
  by (simp add: i2c_idle_def i2c_ready_def)

context i2c_block
begin

lemma idle_rd: "i2c_idle (H d) \<Longrightarrow> H (snd (dev_rd D a d)) = H d"
  using rd_time [of a d] idle_step by auto

lemma idle_rmw:
  assumes "i2c_idle (H d)" "a \<notin> {I2C_I2CONSET b, I2C_I2CONCLR b, I2C_I2DAT b}"
  shows "H (reg_or D a v d) = H d" and "H (reg_and D a v d) = H d"
  using assms idle_rd [OF assms(1)] by (simp_all add: reg_or_def reg_and_def rmw_def split_def Let_def wr_other)

lemma pin_set_keeps:
  assumes idle: "i2c_idle (H d)" and b: "b \<in> {LPC_I2C0_BASE, LPC_I2C1_BASE, LPC_I2C2_BASE}" and p: "p < 32"
  shows "H (rflpc_pin_set D p f m opendrain d) = H d"
proof -
  have port: "RFLPC_PIN_GET_PORT p = 0"
    using p unfolding RFLPC_PIN_GET_PORT_def numeral_masks unat_and_mask unat_shr
    by (simp add: word_less_nat_alt)
  have "RFLPC_PIN_GET_PIN p div 16 < 2"
    unfolding RFLPC_PIN_GET_PIN_def numeral_masks unat_and_mask by simp
  then have "RFLPC_PIN_GET_PIN p div 16 = 0 \<or> RFLPC_PIN_GET_PIN p div 16 = 1" by linarith
  with port have "PINSEL_of p \<in> {0x4002C000, 0x4002C004}" "PINMODE_of p \<in> {0x4002C040, 0x4002C044}"
      "PINMODE_OD_of p = 0x4002C068"
    by (auto simp: PINSEL_of_def PINMODE_of_def PINMODE_OD_of_def pin_half_def word_at_def reg_addr)
  then have "a \<notin> {I2C_I2CONSET b, I2C_I2CONCLR b, I2C_I2DAT b}" if "a \<in> {PINSEL_of p, PINMODE_of p, PINMODE_OD_of p}" for a
    using that b by (auto simp: reg_addr base_defs)
  then show ?thesis
    using idle by (simp add: rflpc_pin_set_regs Let_def idle_rmw)
qed

lemma init_idle:
  assumes idle: "i2c_idle (H d)" and b: "b = conf_addr (i2c_config ! i2c_port_val port)"
  shows "\<exists>d'. rflpc_i2c_init D 96000000 port RFLPC_I2C_MODE_MASTER ad (v, d) =
      (0, v\<lparr>i2c_mode := RFLPC_I2C_MODE_MASTER\<rparr>, d') \<and> H d' = (H d)\<lparr>aa := False\<rparr>"
proof -
  define c where "c = i2c_config ! i2c_port_val port"
  have c: "sda_pin c < 32" "scl_pin c < 32" "pclksel c \<in> {SC_PCLKSEL0, SC_PCLKSEL1}" "conf_addr c = b"
    using b by (cases port; simp add: c_def i2c_config_def)+
  have base: "b \<in> {LPC_I2C0_BASE, LPC_I2C1_BASE, LPC_I2C2_BASE}"
    using b by (cases port) (simp_all add: i2c_config_def)
  let ?S = "{I2C_I2CONSET b, I2C_I2CONCLR b, I2C_I2DAT b}"
  have other: "SC_PCONP \<notin> ?S" "pclksel c \<notin> ?S" "I2C_I2SCLL b \<notin> ?S" "I2C_I2SCLH b \<notin> ?S"
    using base c(3) by (auto simp: reg_addr base_defs)
  define d1 where "d1 = rflpc_pin_set D (scl_pin c) (gpio_function c) (pin_mode_val RFLPC_PIN_MODE_RESISTOR_NONE) True
      (rflpc_pin_set D (sda_pin c) (gpio_function c) (pin_mode_val RFLPC_PIN_MODE_RESISTOR_NONE) True
      (dev_wr D (I2C_I2SCLH b) 60 (dev_wr D (I2C_I2SCLL b) 60
      (reg_or D (pclksel c) (shl (divider_val RFLPC_CCLK_8) (pclk_bit c))
      (reg_and D (pclksel c) (NOT (shl (divider_val RFLPC_CCLK_8) (pclk_bit c)))
      (reg_or D SC_PCONP (shl 1 (pconp_bit c)) d))))))"
  have "H d1 = H d"
    using idle pin_set_keeps [OF _ base c(1)] pin_set_keeps [OF _ base c(2)] idle_rmw [OF _ other(1)]
      idle_rmw [OF _ other(2)] wr_other [OF other(3)] wr_other [OF other(4)]
    by (simp only: d1_def)
  moreover have "con_set 0x40 (con_clr 0xFFFFFFFF (H d)) = (H d)\<lparr>aa := False\<rparr>"
    using idle by (simp add: i2c_idle_def con_set_def con_clr_def bit_numeral_rec)
  ultimately have "H (dev_wr D (I2C_I2CONSET b) 0x40 (dev_wr D (I2C_I2CONCLR b) 0xFFFFFFFF d1)) = (H d)\<lparr>aa := False\<rparr>"
    by (simp only: wr_con wr_clr)
  moreover have "rflpc_i2c_init D 96000000 port RFLPC_I2C_MODE_MASTER ad (v, d) =
      (0, v\<lparr>i2c_mode := RFLPC_I2C_MODE_MASTER\<rparr>, dev_wr D (I2C_I2CONSET b) 0x40 (dev_wr D (I2C_I2CONCLR b) 0xFFFFFFFF d1))"
    by (simp add: rflpc_i2c_init_def Let_def rflpc_clock_get_system_clock_def c_def [symmetric] c(4) d1_def)
  ultimately show ?thesis by blast
qed

end

section \<open>A model of the block\<close>

definition i2c_device :: "addr \<Rightarrow> i2c_ack \<Rightarrow> i2c_reply \<Rightarrow> i2c_hw device" where
  "i2c_device b ack reply =
     \<lparr>dev_rd = (\<lambda>a h.
        (if a = I2C_I2STAT b then ucast (if si h then stat h else 0xF8)
         else if a = I2C_I2CONSET b then (if si h then 8 else 0)
         else if a = I2C_I2DAT b then ucast (dat h)
         else 0, hw_step ack reply h)),
      dev_wr = (\<lambda>a v h.
        if a = I2C_I2CONSET b then con_set v h
        else if a = I2C_I2CONCLR b then con_clr v h
        else if a = I2C_I2DAT b then h\<lparr>dat := ucast v\<rparr>
        else h),
      cpsid_i = (\<lambda>h. h), cpsie_i = (\<lambda>h. h)\<rparr>"

interpretation model_i2c: i2c_block "i2c_device b ack reply" b "\<lambda>h. h" ack reply
proof
  fix d :: i2c_hw and a :: addr and v :: u32
  let ?D = "i2c_device b ack reply"
  show "fst (dev_rd ?D (I2C_I2STAT b) d) AND 0xFF = ucast (if si d then stat d else 0xF8)"
    by (simp add: i2c_device_def byte_and_mask)
  show "bit (fst (dev_rd ?D (I2C_I2CONSET b) d)) 3 = si d"
    by (simp add: i2c_device_def reg_addr bit_numeral_rec)
  show "fst (dev_rd ?D (I2C_I2DAT b) d) AND 0xFF = ucast (dat d)"
    by (simp add: i2c_device_def reg_addr byte_and_mask)
  show "snd (dev_rd ?D a d) \<in> {d, hw_step ack reply d}"
    by (simp add: i2c_device_def)
  have "after_reads ?D (I2C_I2CONSET b) 1 d = hw_step ack reply d"
    by (simp add: i2c_device_def)
  then show "\<exists>n. after_reads ?D (I2C_I2CONSET b) n d = hw_step ack reply d" ..
qed (simp_all add: i2c_device_def reg_addr)

section \<open>The sensor\<close>

lemma lm75b_temp_bits: "lm75b_temp r0 r1 = ucast r0 OR (if bit r0 7 then 0x1F00 else 0)"
proof -
  have masks: "(0xF800 :: 16 word) = shl (mask 5) 11" "(0x1F00 :: 16 word) = shl (mask 5) 8"
    by (simp_all add: mask_eq_exp_minus_1)
  have test: "(t AND 0x400 \<noteq> 0) = bit t 10" for t :: "16 word"
    using and_two_power_eq_zero [of t 10] by simp
  have sign: "bit (shl (ucast r0) 3 OR ucast (shr r1 5) :: 16 word) 10 = bit r0 7"
    by (auto simp: bit_simps dest: bit_imp_le_length)
  show ?thesis
    unfolding lm75b_temp_def Let_def test sign masks
    by (rule bit_word_eqI) (auto simp: bit_simps dest: bit_imp_le_length)
qed

lemma sint_lm75b_temp: "sint (lm75b_temp r0 r1) = int (unat r0) + (if bit r0 7 then 7936 else 0)"
proof -
  have r0: "unat r0 < 256" using unsigned_less [of r0] by simp
  have disj: "(ucast r0 :: 16 word) AND 0x1F00 = 0"
  proof -
    have mask: "(0x1F00 :: 16 word) = shl (mask 5) 8" by (simp add: mask_eq_exp_minus_1)
    show ?thesis unfolding mask by (rule bit_word_eqI) (auto simp: bit_simps dest: bit_imp_le_length)
  qed
  have "unat (lm75b_temp r0 r1) = unat r0 + (if bit r0 7 then 7936 else 0)"
    using r0 disj by (simp add: lm75b_temp_bits disjunctive_add_eq_or [symmetric] unat_word_ariths(1) unat_ucast_mod)
  moreover have "sint (lm75b_temp r0 r1) = int (unat (lm75b_temp r0 r1))"
  proof -
    have "unat (lm75b_temp r0 r1) < 32768" using calculation r0 by (cases "bit r0 7") simp_all
    then have "int (unat (lm75b_temp r0 r1)) < 32768" by linarith
    then have "uint (lm75b_temp r0 r1) < 32768" by (simp only: uint_nat)
    moreover have "- 32768 \<le> uint (lm75b_temp r0 r1)" by (rule order_trans [of _ 0]) simp_all
    ultimately have "sint (lm75b_temp r0 r1) = uint (lm75b_temp r0 r1)"
      unfolding sint_uint by (intro signed_take_bit_int_eq_self) simp_all
    then show ?thesis by (simp only: uint_nat)
  qed
  ultimately show ?thesis by simp
qed

context i2c_block
begin

lemma sensor_session:
  assumes b: "b = LPC_I2C2_BASE" and idle: "i2c_idle (H d)" and w: "w = wire (H d) @ [Start]"
    and acks: "ack w 0x90" "ack (w @ [Sent 0x90 True]) 0"
    and w2: "w2 = w @ [Sent 0x90 True, Sent 0 True, Rep_Start]" and ack2: "ack w2 0x91"
    and hi: "hi = reply (w2 @ [Sent 0x91 True])" and lo: "lo = reply (w2 @ [Sent 0x91 True, Received hi True])"
  shows "\<exists>v' m1 d1 m2 d2. libboard_lm75b_init D 96000000 p (v, m, d) = Some (0, v', m1, d1) \<and>
    libboard_lm75b_get_temp D v' r (m1, d1) = Some (int (unat hi) + (if bit hi 7 then 7936 else 0), m2, d2) \<and>
    wire (H d2) = w2 @ [Sent 0x91 True, Received hi True, Received lo False]"
proof -
  have base: "b = conf_addr (i2c_config ! i2c_port_val RFLPC_I2C_PORT2)" using b by (simp add: i2c_config_def)
  obtain d1 where d1: "rflpc_i2c_init D 96000000 RFLPC_I2C_PORT2 RFLPC_I2C_MODE_MASTER 0 (v, d) =
      (0, v\<lparr>i2c_mode := RFLPC_I2C_MODE_MASTER\<rparr>, d1)" "H d1 = (H d)\<lparr>aa := False\<rparr>"
    using init_idle [OF idle base] by blast
  have ready: "i2c_ready w (H d1)"
    using idle_ready [of "H d1"] idle by (simp add: d1(2) i2c_idle_def w)
  let ?l = "\<lparr>data = p, nbytes = 1, realnbytes = 0\<rparr>"
  have "master_send ack 0x90 (block_at (m(p := 0)) (data ?l) (unat (nbytes ?l))) w =
      (RFLPC_I2C_SUCCESSFUL_TRANSMISSION, 1, w @ [Sent 0x90 True, Sent 0 True])"
    using acks by (simp add: master_send_def block_at_def)
  from write_transfer [OF ready _ _ _ this, of 0] obtain d2 where
      d2: "i2c_write_loop D b (m(p := 0)) 0x90 0 ?l d1 =
        Some (RFLPC_I2C_RETURN RFLPC_I2C_SUCCESSFUL_TRANSMISSION 1, d2)"
      "i2c_done ack reply RFLPC_I2C_SUCCESSFUL_TRANSMISSION 0 (w @ [Sent 0x90 True, Sent 0 True]) (H d2)"
      "aa (H d2) = aa (H d1)"
    by (auto simp: bit_numeral_rec)
  have init: "libboard_lm75b_init D 96000000 p (v, m, d) =
      Some (0, v\<lparr>i2c_mode := RFLPC_I2C_MODE_MASTER\<rparr>, m(p := 0), d2)"
    using d1(1) d2(1)
    by (simp add: libboard_lm75b_init_def Let_def LM75B_I2C_PORT_def LM75B_I2C_ADDR_def rflpc_i2c_write_def
        base [unfolded i2c_port_val.simps, symmetric])
  have ready2: "i2c_ready w2 (H d2)" and aa2: "\<not> aa (H d2)"
    using d2(2,3) d1(2) by (simp_all add: i2c_done_def w2)
  let ?m = "(m(p := 0))(r := 0, r + 1 := 0)"
  let ?l2 = "\<lparr>data = r, nbytes = 2, realnbytes = 0\<rparr>"
  have "receive reply (w2 @ [Sent (0x90 OR 1) True]) (Suc (Suc 0)) =
      ([hi, lo], w2 @ [Sent 0x91 True, Received hi True, Received lo False])"
    by (simp add: hi lo Let_def)
  from read_transfer [OF ready2 _ _ aa2 _ this, where l = ?l2 and stop = 1 and m = ?m
      and v = "v\<lparr>i2c_mode := RFLPC_I2C_MODE_MASTER\<rparr>"]
  obtain d3 where d3: "i2c_read_loop D b (v\<lparr>i2c_mode := RFLPC_I2C_MODE_MASTER\<rparr>) 0x90 1 ?l2 (?m, d2) =
      Some (RFLPC_I2C_RETURN RFLPC_I2C_SUCCESSFUL_TRANSMISSION 2, put_block r [hi, lo] ?m, d3)"
      "wire (H d3) = w2 @ [Sent 0x91 True, Received hi True, Received lo False]"
    using ack2 by (auto simp: i2c_done_def)
  have "r + 1 \<noteq> r" by simp
  then have temp: "libboard_lm75b_get_temp D (v\<lparr>i2c_mode := RFLPC_I2C_MODE_MASTER\<rparr>) r (m(p := 0), d2) =
      Some (sint (lm75b_temp hi lo), put_block r [hi, lo] ?m, d3)"
    using d3(1)
    by (simp add: libboard_lm75b_get_temp_def Let_def LM75B_I2C_PORT_def LM75B_I2C_ADDR_def rflpc_i2c_read_def
        base [unfolded i2c_port_val.simps, symmetric])
  show ?thesis using init temp d3(2) unfolding sint_lm75b_temp by blast
qed

end

section \<open>Properties\<close>


definition i2c_reset :: i2c_hw where
  "i2c_reset = \<lparr>sta = False, sto = False, aa = False, si = False, owned = False, stat = 0xF8, dat = 0, wire = []\<rparr>"


text \<open>C7. A master read returns the bytes the slave sends, in order, in the buffer, all of them acknowledged
  but the last one, or reports that the address was refused and leaves memory alone. A read of 0 bytes does
  what a read of 1 does: it writes one byte to the buffer.\<close>

theorem i2c_master_read:
  assumes "i2c_block D (conf_addr (i2c_config ! i2c_port_val port)) H ack reply"
    and "i2c_ready w (H d)" and "i2c_mode v = RFLPC_I2C_MODE_MASTER" and "\<not> aa (H d)"
    and "receive reply (w @ [Sent (ad OR 1) True]) (max 1 (unat n)) = (vs, w')"
  shows "\<exists>d'. rflpc_i2c_read D v port ad buffer n stop (m, d) =
      (if ack w (ad OR 1)
       then Some (RFLPC_I2C_RETURN RFLPC_I2C_SUCCESSFUL_TRANSMISSION (max 1 n), put_block buffer vs m, d')
       else Some (RFLPC_I2C_RETURN RFLPC_I2C_SLAVE_IS_BUSY 0, m, d')) \<and>
    wire (H d') = (if ack w (ad OR 1) then w' else w @ [Sent (ad OR 1) False])"
proof -
  have n: "Suc (unat n - 1) = max 1 (unat n)" by simp
  have k: "(of_nat (Suc (unat n - 1)) :: u8) = max 1 n"
  proof (cases "n = 0")
    case False
    then have "0 < unat n" by (simp add: unat_gt_0)
    then have "Suc (unat n - 1) = unat n" "1 \<le> n" by (simp_all add: word_le_nat_alt)
    then show ?thesis by (simp add: max_def)
  qed (simp add: max_def)
  let ?l = "\<lparr>data = buffer, nbytes = n, realnbytes = 0\<rparr>"
  have "receive reply (w @ [Sent (ad OR 1) True]) (Suc (unat (nbytes ?l) - 1)) = (vs, w')"
    using assms(5) by (simp only: i2c_xfer.simps n)
  from i2c_block.read_transfer [OF assms(1-3) _ assms(4) refl this, where stop = stop and m = m]
  have "\<exists>d'. i2c_read_loop D (conf_addr (i2c_config ! i2c_port_val port)) v ad stop ?l (m, d) =
      (if ack w (ad OR 1)
       then Some (RFLPC_I2C_RETURN RFLPC_I2C_SUCCESSFUL_TRANSMISSION (max 1 n), put_block buffer vs m, d')
       else Some (RFLPC_I2C_RETURN RFLPC_I2C_SLAVE_IS_BUSY 0, m, d')) \<and>
    (if ack w (ad OR 1) then i2c_done ack reply RFLPC_I2C_SUCCESSFUL_TRANSMISSION stop w' (H d')
     else i2c_done ack reply RFLPC_I2C_SLAVE_IS_BUSY stop (w @ [Sent (ad OR 1) False]) (H d'))"
    by (simp only: i2c_xfer.simps k simp_thms) blast
  then show ?thesis
    by (cases "ack w (ad OR 1)") (auto simp: rflpc_i2c_read_def i2c_done_def)
qed

lemma i2c_master_read_witness:
  "\<exists>d'. rflpc_i2c_read (i2c_device LPC_I2C0_BASE (\<lambda>_ _. True) (\<lambda>w. of_nat (length w)))
      \<lparr>i2c_mode = RFLPC_I2C_MODE_MASTER, slave_data = 0, slave_size = 0\<rparr> RFLPC_I2C_PORT0 0x90 0x10000000 2 1
      ((\<lambda>_. 0), i2c_reset) = Some (2, (\<lambda>_. 0)(0x10000000 := 2, 0x10000001 := 3), d') \<and>
    wire d' = [Start, Sent 0x91 True, Received 2 True, Received 3 False]"
proof -
  have b: "LPC_I2C0_BASE = conf_addr (i2c_config ! i2c_port_val RFLPC_I2C_PORT0)" by (simp add: i2c_config_def)
  have r: "i2c_ready [Start] i2c_reset" by (simp add: i2c_ready_def i2c_reset_def)
  have "max 1 (unat (2 :: u8)) = Suc (Suc 0)" by simp
  then have "receive (\<lambda>w. of_nat (length w)) ([Start] @ [Sent (0x90 OR 1) True]) (max 1 (unat (2 :: u8))) =
      ([2, 3], [Start, Sent 0x91 True, Received 2 True, Received 3 False])"
    by (simp only:) simp
  from i2c_master_read [OF model_i2c.i2c_block_axioms [where b = LPC_I2C0_BASE and ack = "\<lambda>_ _. True", unfolded b] r _ _ this,
      where stop = 1 and buffer = "0x10000000" and m = "\<lambda>_. 0"
      and v = "\<lparr>i2c_mode = RFLPC_I2C_MODE_MASTER, slave_data = 0, slave_size = 0\<rparr>"]
  show ?thesis by (auto simp: RFLPC_I2C_RETURN_def i2c_config_def i2c_reset_def max_def)
qed

text \<open>The temperature sensor, from reset: \<^verbatim>\<open>libboard_lm75b_init\<close> selects register 0 of the sensor and
  \<^verbatim>\<open>libboard_lm75b_get_temp\<close> reads its two bytes after a new start, with exactly these events on the
  bus; the value is the first byte from 0 degree up. Below 0 it is 8192 too much (the first byte and 7936,
  not the first byte less 256): the sign bits are shifted out with zeros in their place.\<close>

theorem lm75b_session:
  assumes "i2c_block D LPC_I2C2_BASE H ack reply" and "i2c_idle (H d)" and "w = wire (H d) @ [Start]"
    and "ack w 0x90" and "ack (w @ [Sent 0x90 True]) 0"
    and "w2 = w @ [Sent 0x90 True, Sent 0 True, Rep_Start]" and "ack w2 0x91"
    and "hi = reply (w2 @ [Sent 0x91 True])" and "lo = reply (w2 @ [Sent 0x91 True, Received hi True])"
  shows "\<exists>v' m1 d1 m2 d2. libboard_lm75b_init D 96000000 p (v, m, d) = Some (0, v', m1, d1) \<and>
    libboard_lm75b_get_temp D v' r (m1, d1) = Some (int (unat hi) + (if bit hi 7 then 7936 else 0), m2, d2) \<and>
    wire (H d2) = w2 @ [Sent 0x91 True, Received hi True, Received lo False]"
  using i2c_block.sensor_session [OF assms(1) refl assms(2-)] .

lemma lm75b_session_witness:
  "\<exists>v' m1 d1 m2 d2. libboard_lm75b_init (i2c_device LPC_I2C2_BASE (\<lambda>_ _. True) (\<lambda>_. 25)) 96000000 0x10000000
      (\<lparr>i2c_mode = RFLPC_I2C_MODE_SLAVE, slave_data = 0, slave_size = 0\<rparr>, (\<lambda>_. 0), i2c_reset) = Some (0, v', m1, d1) \<and>
    libboard_lm75b_get_temp (i2c_device LPC_I2C2_BASE (\<lambda>_ _. True) (\<lambda>_. 25)) v' 0x10000010 (m1, d1) = Some (25, m2, d2)"
  using lm75b_session [OF model_i2c.i2c_block_axioms [where ack = "\<lambda>_ _. True" and reply = "\<lambda>_. 25"], of i2c_reset "[Start]"
      "[Start, Sent 0x90 True, Sent 0 True, Rep_Start]" 25 25 "0x10000000"
      "\<lparr>i2c_mode = RFLPC_I2C_MODE_SLAVE, slave_data = 0, slave_size = 0\<rparr>" "\<lambda>_. 0" "0x10000010"]
  by (fastforce simp: i2c_idle_def i2c_reset_def bit_numeral_rec)

end
