(* ===== verification/Adc.thy ===== *)
theory Adc
  imports Pinconf Clock Interrupt
begin

text \<open>
  \<^verbatim>\<open>rflpc17xx/drivers/adc.c\<close> and \<^verbatim>\<open>dac.c\<close>: the two analog converters. The conversion results come from
  registers that are parameters of the model like all the others; the burst mode keeps a handler and
  a mask of channels.
\<close>

definition PINFUNC_ADC :: u32 where "PINFUNC_ADC = 0x03"

datatype rflpc_adc_channel_t = AD0_0 | AD0_1 | AD0_2 | AD0_3 | AD0_4 | AD0_5 | AD0_6 | AD0_7 | ADC_INVALID_CHANNEL

fun adc_channel_val :: "rflpc_adc_channel_t \<Rightarrow> nat" where
  "adc_channel_val AD0_0 = 0"
| "adc_channel_val AD0_1 = 1"
| "adc_channel_val AD0_2 = 2"
| "adc_channel_val AD0_3 = 3"
| "adc_channel_val AD0_4 = 4"
| "adc_channel_val AD0_5 = 5"
| "adc_channel_val AD0_6 = 6"
| "adc_channel_val AD0_7 = 7"
| "adc_channel_val ADC_INVALID_CHANNEL = 8"

definition pin_to_channel :: "rflpc_pin_t \<Rightarrow> rflpc_adc_channel_t" where
  "pin_to_channel pin =
     (if pin = RFLPC_PIN_MAKE 0 23 then AD0_0
      else if pin = RFLPC_PIN_MAKE 0 24 then AD0_1
      else if pin = RFLPC_PIN_MAKE 0 25 then AD0_2
      else if pin = RFLPC_PIN_MAKE 0 26 then AD0_3
      else if pin = RFLPC_PIN_MAKE 1 30 then AD0_4
      else if pin = RFLPC_PIN_MAKE 1 31 then AD0_5
      else if pin = RFLPC_PIN_MAKE 0 3 then AD0_6
      else if pin = RFLPC_PIN_MAKE 0 2 then AD0_7
      else ADC_INVALID_CHANNEL)"

record rflpc_adc_burst_control =
  interrupt_handler :: u32
  enabled_channels :: u8

definition rflpc_adc_init :: "'d device \<Rightarrow> rflpc_pin_t \<Rightarrow> rflpc_clock_divider_t \<Rightarrow> 'd \<Rightarrow> 'd" where
  "rflpc_adc_init D pin clock_divider d =
     (let d = rflpc_pin_set D pin PINFUNC_ADC (pin_mode_val RFLPC_PIN_MODE_RESISTOR_PULL_UP) False d;
          d = RFLPC_SET_BIT D SC_PCONP 12 d;
          d = RFLPC_SET_BITS_VAL D SC_PCLKSEL0 24 (divider_val RFLPC_CCLK_8) 2 d;
          d = RFLPC_SET_BITS_VAL D ADC_ADCR 8 (divider_val clock_divider) 8 d;
          d = RFLPC_SET_BIT D ADC_ADCR (adc_channel_val (pin_to_channel pin)) d
      in RFLPC_SET_BIT D ADC_ADCR 21 d)"

definition rflpc_adc_burst_init ::
  "'d device \<Rightarrow> rflpc_clock_divider_t \<Rightarrow> u32 \<Rightarrow> rflpc_adc_burst_control \<times> u32 list \<times> 'd \<Rightarrow>
    rflpc_adc_burst_control \<times> u32 list \<times> 'd" where
  "rflpc_adc_burst_init D clock_divider handler st =
     (let (c, ram_vec, d) = st;
          d = RFLPC_SET_BIT D SC_PCONP 12 d;
          d = RFLPC_SET_BITS_VAL D SC_PCLKSEL0 24 (divider_val RFLPC_CCLK_8) 2 d;
          d = RFLPC_SET_BITS_VAL D ADC_ADCR 8 (divider_val clock_divider) 8 d;
          (c, ram_vec, d) =
            (if handler \<noteq> 0
             then let c = c\<lparr>interrupt_handler := handler\<rparr>;
                      ram_vec = rflpc_irq_set_handler ADC_IRQn (interrupt_handler c) ram_vec
                  in (c, ram_vec, rflpc_irq_enable D (nat ADC_IRQn) d)
             else (c, ram_vec, d))
      in (c\<lparr>enabled_channels := 0\<rparr>, ram_vec, d))"

definition rflpc_adc_burst_enable ::
  "'d device \<Rightarrow> rflpc_pin_t \<Rightarrow> rflpc_adc_burst_control \<times> 'd \<Rightarrow> rflpc_adc_burst_control \<times> 'd" where
  "rflpc_adc_burst_enable D pin st =
     (let (c, d) = st;
          d = rflpc_pin_set D pin PINFUNC_ADC (pin_mode_val RFLPC_PIN_MODE_RESISTOR_PULL_UP) False d;
          d = RFLPC_SET_BIT D ADC_ADCR (adc_channel_val (pin_to_channel pin)) d
      in (c\<lparr>enabled_channels := enabled_channels c OR of_nat (adc_channel_val (pin_to_channel pin))\<rparr>, d))"

text \<open>The search of \<^verbatim>\<open>rflpc_adc_burst_start\<close> for the channel that interrupts.\<close>

function burst_channel :: "u8 \<Rightarrow> u8 \<Rightarrow> int \<Rightarrow> int" where
  "burst_channel enabled msk channel =
     (if enabled AND msk \<noteq> msk \<and> channel \<ge> 0 then burst_channel enabled (shr msk 2) (channel - 1) else channel)"
  by pat_completeness auto

termination burst_channel
  by (relation "measure (\<lambda>(e, m, c). nat (c + 1))") auto

declare burst_channel.simps [simp del]

definition rflpc_adc_burst_start :: "'d device \<Rightarrow> rflpc_adc_burst_control \<Rightarrow> 'd \<Rightarrow> 'd" where
  "rflpc_adc_burst_start D c d =
     (let d = (if interrupt_handler c \<noteq> 0
          then let channel = burst_channel (enabled_channels c) 0x80 7
               in (if channel \<ge> 0 then RFLPC_SET_BIT D ADC_ADINTEN (nat channel) d else d)
          else d);
          d = RFLPC_SET_BIT D ADC_ADCR 21 d
      in RFLPC_SET_BIT D ADC_ADCR 16 d)"

text \<open>\<^verbatim>\<open>rflpc_adc_sample\<close> of \<^verbatim>\<open>adc.h\<close> does not use its argument.\<close>

definition rflpc_adc_sample :: "'d device \<Rightarrow> rflpc_pin_t \<Rightarrow> 'd \<Rightarrow> 'd" where
  "rflpc_adc_sample D pin = RFLPC_SET_BITS_VAL D ADC_ADCR 24 0x01 3"

definition rflpc_adc_read :: "'d device \<Rightarrow> rflpc_pin_t \<Rightarrow> 'd \<Rightarrow> (u16 \<times> 'd) option" where
  "rflpc_adc_read D pin d =
     (let addrp = word_at ADC_ADDR0 (adc_channel_val (pin_to_channel pin)) in
      case poll D addrp (\<lambda>x. x AND 0x80000000 = 0x80000000) d of
        None \<Rightarrow> None
      | Some (_, d) \<Rightarrow>
          (let (ad, d) = dev_rd D addrp d;
               result = ucast (shr ad 4 AND 0xFFF);
               result = (if ad AND 0x40000000 \<noteq> 0 then result OR shl 1 15 else result)
           in Some (result, d)))"

definition rflpc_adc_read_global :: "'d device \<Rightarrow> 'd \<Rightarrow> (u16 \<times> 'd) option" where
  "rflpc_adc_read_global D d =
     (case poll D ADC_ADGDR (\<lambda>x. x AND 0x80000000 = 0x80000000) d of
        None \<Rightarrow> None
      | Some (_, d) \<Rightarrow>
          (let (adgdr, d) = dev_rd D ADC_ADGDR d;
               result = ucast (shr adgdr 4 AND 0xFFF);
               result = result OR ucast (shr adgdr 24 AND 0x07);
               result = (if adgdr AND 0x40000000 \<noteq> 0 then result OR shl 1 15 else result)
           in Some (result, d)))"

section \<open>The other way round\<close>

definition PINFUNC_DAC :: u32 where "PINFUNC_DAC = 0x02"

definition rflpc_dac_init :: "'d device \<Rightarrow> u8 \<Rightarrow> 'd \<Rightarrow> 'd" where
  "rflpc_dac_init D clock_divider d =
     (let d = rflpc_pin_set D (RFLPC_PIN_MAKE 0 26) PINFUNC_DAC (pin_mode_val RFLPC_PIN_MODE_RESISTOR_PULL_UP) False d
      in RFLPC_SET_BITS_VAL D SC_PCLKSEL0 22 (ucast clock_divider) 2 d)"

definition rflpc_dac_write :: "'d device \<Rightarrow> u16 \<Rightarrow> 'd \<Rightarrow> 'd" where
  "rflpc_dac_write D v = RFLPC_SET_BITS_VAL D DAC_DACR 6 (ucast (v AND 0x3FF)) 10"

section \<open>Burst mode\<close>

text \<open>The search moves its mask by two bits for each channel: it looks at bits 7, 5, 3 and 1 only.\<close>

lemma and_two_power_eq_self:
  fixes w :: "'a::len word"
  assumes "n < LENGTH('a)"
  shows "(w AND 2 ^ n = 2 ^ n) = bit w n"
proof
  assume "w AND 2 ^ n = 2 ^ n"
  then have "bit (w AND 2 ^ n) n = bit (2 ^ n :: 'a word) n" by simp
  with assms show "bit w n" by (simp add: bit_and_iff bit_rules)
qed (auto intro!: bit_word_eqI simp: bit_and_iff bit_rules)

lemma burst_channel_found:
  "burst_channel e 0x80 7 = (if bit e 7 then 7 else if bit e 5 then 6 else if bit e 3 then 5 else if bit e 1 then 4 else 3)"
proof -
  have masks: "(e AND 0x80 = 0x80) = bit e 7" "(e AND 0x20 = 0x20) = bit e 5" "(e AND 8 = 8) = bit e 3"
    "(e AND 2 = 2) = bit e 1"
    using and_two_power_eq_self [of 7 e] and_two_power_eq_self [of 5 e] and_two_power_eq_self [of 3 e]
      and_two_power_eq_self [of 1 e] by simp_all
  show ?thesis
    by (subst burst_channel.simps, subst burst_channel.simps, subst burst_channel.simps,
        subst burst_channel.simps, subst burst_channel.simps) (simp add: masks)
qed

lemma burst_masks:
  assumes "\<forall>p \<in> set pins. pin_to_channel p \<noteq> ADC_INVALID_CHANNEL"
    and "fold (rflpc_adc_burst_enable D) pins (c, d) = (c', d')"
  shows "interrupt_handler c' = interrupt_handler c \<and>
    (bit (enabled_channels c') 1 = (bit (enabled_channels c) 1 \<or>
      (\<exists>p \<in> set pins. adc_channel_val (pin_to_channel p) \<in> {2, 3, 6, 7}))) \<and>
    (\<forall>k \<in> {3, 5, 7}. bit (enabled_channels c') k = bit (enabled_channels c) k)"
  using assms
proof (induction pins arbitrary: c d)
  case (Cons p pins)
  obtain c1 d1 where 1: "rflpc_adc_burst_enable D p (c, d) = (c1, d1)" by fastforce
  have ch: "pin_to_channel p \<noteq> ADC_INVALID_CHANNEL" using Cons.prems(1) by simp
  have c1: "interrupt_handler c1 = interrupt_handler c"
    "enabled_channels c1 = enabled_channels c OR of_nat (adc_channel_val (pin_to_channel p))"
    using 1 by (auto simp: rflpc_adc_burst_enable_def Let_def)
  have "bit (of_nat (adc_channel_val (pin_to_channel p)) :: u8) 1 = (adc_channel_val (pin_to_channel p) \<in> {2, 3, 6, 7})"
    "\<forall>k \<in> {3, 5, 7}. \<not> bit (of_nat (adc_channel_val (pin_to_channel p)) :: u8) k"
    using ch by (cases "pin_to_channel p"; simp add: bit_numeral_rec bit_1_iff)+
  moreover have "interrupt_handler c' = interrupt_handler c1 \<and>
    (bit (enabled_channels c') 1 = (bit (enabled_channels c1) 1 \<or>
      (\<exists>p \<in> set pins. adc_channel_val (pin_to_channel p) \<in> {2, 3, 6, 7}))) \<and>
    (\<forall>k \<in> {3, 5, 7}. bit (enabled_channels c') k = bit (enabled_channels c1) k)"
    using Cons.prems 1 by (intro Cons.IH) simp_all
  ultimately show ?case by (simp add: c1 bit_or_iff)
qed simp

context config_regs
begin

lemma burst_enable_keeps:
  assumes "a \<in> A" "\<not> a - 0x4002C000 < 0x88" "a \<noteq> ADC_ADCR"
  shows "peek D a (snd (fold (rflpc_adc_burst_enable D) pins (c, d))) = peek D a d"
proof (induction pins arbitrary: c d)
  case (Cons p pins)
  show ?case
    using Cons.IH assms
    by (simp add: rflpc_adc_burst_enable_def Let_def peek_ops peek_pin_set_other)
qed simp

lemma burst_init_keeps:
  assumes "a \<in> A" "a \<notin> {SC_PCONP, SC_PCLKSEL0, ADC_ADCR, NVIC_ISER 0}"
  shows "peek D a (snd (snd (rflpc_adc_burst_init D q h (c, ram_vec, d)))) = peek D a d"
  using assms
  by (cases "h = 0") (auto simp: rflpc_adc_burst_init_def Let_def rflpc_irq_enable_def peek_ops)

end

section \<open>Results\<close>

lemma ucast_or: "(ucast (a OR b :: u32) :: u16) = ucast a OR ucast b"
  by (rule bit_word_eqI) (simp add: bit_simps)

lemma finished: "bit v 31 \<Longrightarrow> v AND 0x80000000 = (0x80000000 :: u32)"
  using and_two_power_eq_self [of 31 v] by simp

lemma result_bits:
  "shr v 4 AND 0xFFF = get_field v 4 12" "shr v 24 AND 7 = get_field v 24 3"
  "(v AND 0x40000000 \<noteq> 0) = bit v 30" for v :: u32
proof -
  have "(0xFFF :: u32) = mask 12" "(7 :: u32) = mask 3" by (simp_all add: mask_eq_exp_minus_1)
  then show "shr v 4 AND 0xFFF = get_field v 4 12" "shr v 24 AND 7 = get_field v 24 3"
    by (simp_all add: get_field_def take_bit_eq_mask)
  show "(v AND 0x40000000 \<noteq> 0) = bit v 30" using and_two_power_eq_zero [of v 30] by simp
qed

section \<open>Properties\<close>

text \<open>The burst mode interrupts on channel 4 when one of the channels 2, 3, 6 and 7 is in use and on channel
  3 otherwise, whatever the highest channel in use is: the driver keeps the numbers of the channels
  instead of their bits, and its search skips every other bit.\<close>

theorem adc_burst_interrupt:
  assumes "config_regs D {ADC_ADINTEN}" and "h \<noteq> 0"
    and "\<forall>p \<in> set pins. pin_to_channel p \<noteq> ADC_INVALID_CHANNEL"
    and "rflpc_adc_burst_init D q h (c, ram_vec, d) = (c1, v1, d1)"
    and "fold (rflpc_adc_burst_enable D) pins (c1, d1) = (c2, d2)"
  shows "peek D ADC_ADINTEN (rflpc_adc_burst_start D c2 d2) = peek D ADC_ADINTEN d OR
    shl 1 (if \<exists>p \<in> set pins. adc_channel_val (pin_to_channel p) \<in> {2, 3, 6, 7} then 4 else 3)"
proof -
  have c1: "interrupt_handler c1 = h" "enabled_channels c1 = 0"
    using assms(2,4) by (auto simp: rflpc_adc_burst_init_def Let_def)
  note masks = burst_masks [OF assms(3,5), unfolded c1]
  have "peek D ADC_ADINTEN d2 = peek D ADC_ADINTEN d"
    using config_regs.burst_enable_keeps [OF assms(1), of ADC_ADINTEN pins c1 d1]
      config_regs.burst_init_keeps [OF assms(1), of ADC_ADINTEN q h c ram_vec d] assms(4,5)
    by (simp add: reg_addr core_addr)
  then show ?thesis
    using masks assms(2)
    by (simp add: rflpc_adc_burst_start_def Let_def burst_channel_found config_regs.peek_set_bit [OF assms(1)] reg_addr)
qed

lemma adc_burst_interrupt_witness:
  "(let (c1, v1, d1) = rflpc_adc_burst_init mem_device RFLPC_CCLK_8 0x1001
        (\<lparr>interrupt_handler = 0, enabled_channels = 0\<rparr>, replicate 49 0, \<lambda>_. 0);
      (c2, d2) = rflpc_adc_burst_enable mem_device (RFLPC_PIN_MAKE 0 23) (c1, d1)
    in rflpc_adc_burst_start mem_device c2 d2 ADC_ADINTEN) = 8"
proof -
  obtain c1 v1 d1 where 1: "rflpc_adc_burst_init mem_device RFLPC_CCLK_8 0x1001
        (\<lparr>interrupt_handler = 0, enabled_channels = 0\<rparr>, replicate 49 0, \<lambda>_. 0) = (c1, v1, d1)"
    by (metis prod.collapse)
  obtain c2 d2 where 2: "fold (rflpc_adc_burst_enable mem_device) [RFLPC_PIN_MAKE 0 23] (c1, d1) = (c2, d2)"
    by (metis prod.collapse)
  have ch: "pin_to_channel (RFLPC_PIN_MAKE 0 23) = AD0_0" by (simp add: pin_to_channel_def)
  show ?thesis
    using adc_burst_interrupt [OF mem.config_regs_axioms _ _ 1 2] 1 2 ch by simp
qed

text \<open>What a finished conversion gives: its twelve bits and, in bit 15, the overrun flag. In the result
  of \<^verbatim>\<open>rflpc_adc_read_global\<close> the channel number is mixed into the three low bits of the value,
  and not in bits 12 to 14.\<close>

theorem adc_results:
  assumes "bit v 31"
  shows "rflpc_adc_read (status_device {word_at ADC_ADDR0 (adc_channel_val (pin_to_channel pin))} v) pin d =
      Some (ucast (get_field v 4 12) OR shl (of_bool (bit v 30)) 15, d) \<and>
    rflpc_adc_read_global (status_device {ADC_ADGDR} v) d =
      Some (ucast (get_field v 4 12 OR get_field v 24 3) OR shl (of_bool (bit v 30)) 15, d)"
  using finished [OF assms] by (simp add: ucast_or rflpc_adc_read_def rflpc_adc_read_global_def poll_status Let_def result_bits)

lemma adc_results_witness:
  "rflpc_adc_read_global (status_device {ADC_ADGDR} 0x85000FF0) (\<lambda>_. 0) = Some (0xFF, \<lambda>_. 0)"
proof -
  have "get_field 0x85000FF0 4 12 = 0xFF" "get_field 0x85000FF0 24 3 = 5" "\<not> bit (0x85000FF0 :: u32) 30"
    "bit (0x85000FF0 :: u32) 31"
    by (simp_all add: get_field_def bit_numeral_rec)
  then show ?thesis using adc_results [of "0x85000FF0" "RFLPC_PIN_MAKE 0 23" "\<lambda>_. 0"] by simp
qed

end
