(* ===== verification/Pwm.thy ===== *)
theory Pwm
  imports Pinconf Timer
begin

text \<open>
  \<^verbatim>\<open>rflpc17xx/drivers/pwm.c\<close>: the six outputs of the PWM block, on the pins that can carry them. Starting,
  stopping and resetting it is left to the timer functions on the fifth timer. The static variable
  \<^verbatim>\<open>_pwm_running\<close>, which is set to 0 and never read, is left out.
\<close>

definition PWM1_PINS :: "rflpc_pin_t list" where "PWM1_PINS = [RFLPC_PIN_MAKE 1 18, RFLPC_PIN_MAKE 2 0]"
definition PWM2_PINS :: "rflpc_pin_t list" where
  "PWM2_PINS = [RFLPC_PIN_MAKE 1 20, RFLPC_PIN_MAKE 2 1, RFLPC_PIN_MAKE 3 25]"
definition PWM3_PINS :: "rflpc_pin_t list" where
  "PWM3_PINS = [RFLPC_PIN_MAKE 1 21, RFLPC_PIN_MAKE 2 2, RFLPC_PIN_MAKE 3 26]"
definition PWM4_PINS :: "rflpc_pin_t list" where "PWM4_PINS = [RFLPC_PIN_MAKE 1 23, RFLPC_PIN_MAKE 2 3]"
definition PWM5_PINS :: "rflpc_pin_t list" where "PWM5_PINS = [RFLPC_PIN_MAKE 1 24, RFLPC_PIN_MAKE 2 4]"
definition PWM6_PINS :: "rflpc_pin_t list" where "PWM6_PINS = [RFLPC_PIN_MAKE 1 26, RFLPC_PIN_MAKE 2 5]"

definition rflpc_pwm_init :: "'d device \<Rightarrow> u32 \<Rightarrow> rflpc_pin_t \<Rightarrow> 'd \<Rightarrow> int \<times> 'd" where
  "rflpc_pwm_init D system_clock pin d =
     (let d = RFLPC_SET_BIT D SC_PCONP 6 d;
          d = RFLPC_SET_BITS_VAL D SC_PCLKSEL0 12 (divider_val RFLPC_CCLK_8) 2 d;
          setup = (\<lambda>function.
            let d = rflpc_pin_set D pin function 0 False d;
                d = dev_wr D PWM1_PR (rflpc_clock_get_system_clock system_clock div 8000000) d
            in (0, RFLPC_SET_BIT D PWM1_MCR 1 d))
      in if pin \<in> {RFLPC_PIN_MAKE 1 18, RFLPC_PIN_MAKE 1 20, RFLPC_PIN_MAKE 1 21, RFLPC_PIN_MAKE 1 23,
                   RFLPC_PIN_MAKE 1 24, RFLPC_PIN_MAKE 1 26} then setup 2
         else if pin \<in> {RFLPC_PIN_MAKE 2 0, RFLPC_PIN_MAKE 2 1, RFLPC_PIN_MAKE 2 2, RFLPC_PIN_MAKE 2 3,
                        RFLPC_PIN_MAKE 2 4, RFLPC_PIN_MAKE 2 5} then setup 1
         else if pin \<in> {RFLPC_PIN_MAKE 3 25, RFLPC_PIN_MAKE 3 26} then setup 3
         else (- 1, d))"

definition rflpc_pwm_start :: "'d device \<Rightarrow> 'd \<Rightarrow> 'd" where
  "rflpc_pwm_start D = rflpc_timer_start D RFLPC_TIMER_PWM"

definition rflpc_pwm_stop :: "'d device \<Rightarrow> 'd \<Rightarrow> 'd" where
  "rflpc_pwm_stop D = rflpc_timer_stop D RFLPC_TIMER_PWM"

definition rflpc_pwm_reset :: "'d device \<Rightarrow> 'd \<Rightarrow> 'd" where
  "rflpc_pwm_reset D = rflpc_timer_reset D RFLPC_TIMER_PWM"

definition rflpc_pwm_set_period :: "'d device \<Rightarrow> u32 \<Rightarrow> 'd \<Rightarrow> 'd" where
  "rflpc_pwm_set_period D period d =
     (let (running, d) = rflpc_timer_running D RFLPC_TIMER_PWM d in
      if running \<noteq> 0 then
        let d = rflpc_timer_stop D RFLPC_TIMER_PWM d;
            d = dev_wr D PWM1_MR0 period d;
            d = rflpc_timer_reset D RFLPC_TIMER_PWM d
        in rflpc_timer_start D RFLPC_TIMER_PWM d
      else dev_wr D PWM1_MR0 period d)"

definition rflpc_pwm_enable :: "'d device \<Rightarrow> rflpc_pin_t \<Rightarrow> 'd \<Rightarrow> 'd" where
  "rflpc_pwm_enable D pin d =
     (if pin \<in> set PWM1_PINS then RFLPC_SET_BIT D PWM1_PCR 9 d
      else if pin \<in> set PWM2_PINS then RFLPC_SET_BIT D PWM1_PCR 10 d
      else if pin \<in> set PWM3_PINS then RFLPC_SET_BIT D PWM1_PCR 11 d
      else if pin \<in> set PWM4_PINS then RFLPC_SET_BIT D PWM1_PCR 12 d
      else if pin \<in> set PWM5_PINS then RFLPC_SET_BIT D PWM1_PCR 13 d
      else if pin \<in> set PWM6_PINS then RFLPC_SET_BIT D PWM1_PCR 14 d
      else d)"

definition rflpc_pwm_disable :: "'d device \<Rightarrow> rflpc_pin_t \<Rightarrow> 'd \<Rightarrow> 'd" where
  "rflpc_pwm_disable D pin d =
     (if pin \<in> set PWM1_PINS then RFLPC_CLR_BIT D PWM1_PCR 9 d
      else if pin \<in> set PWM2_PINS then RFLPC_CLR_BIT D PWM1_PCR 10 d
      else if pin \<in> set PWM3_PINS then RFLPC_CLR_BIT D PWM1_PCR 11 d
      else if pin \<in> set PWM4_PINS then RFLPC_CLR_BIT D PWM1_PCR 12 d
      else if pin \<in> set PWM5_PINS then RFLPC_CLR_BIT D PWM1_PCR 13 d
      else if pin \<in> set PWM6_PINS then RFLPC_CLR_BIT D PWM1_PCR 14 d
      else d)"

text \<open>Output 1 has no choice of edges.\<close>

definition rflpc_pwm_single_edge :: "'d device \<Rightarrow> rflpc_pin_t \<Rightarrow> u32 \<Rightarrow> 'd \<Rightarrow> 'd" where
  "rflpc_pwm_single_edge D pin pulsewidth d =
     (if pin \<in> set PWM1_PINS then dev_wr D PWM1_MR1 pulsewidth d
      else if pin \<in> set PWM2_PINS then dev_wr D PWM1_MR2 pulsewidth (RFLPC_CLR_BIT D PWM1_PCR 2 d)
      else if pin \<in> set PWM3_PINS then dev_wr D PWM1_MR3 pulsewidth (RFLPC_CLR_BIT D PWM1_PCR 3 d)
      else if pin \<in> set PWM4_PINS then dev_wr D PWM1_MR4 pulsewidth (RFLPC_CLR_BIT D PWM1_PCR 4 d)
      else if pin \<in> set PWM5_PINS then dev_wr D PWM1_MR5 pulsewidth (RFLPC_CLR_BIT D PWM1_PCR 5 d)
      else if pin \<in> set PWM6_PINS then dev_wr D PWM1_MR6 pulsewidth (RFLPC_CLR_BIT D PWM1_PCR 6 d)
      else d)"

definition rflpc_pwm_double_edge :: "'d device \<Rightarrow> rflpc_pin_t \<Rightarrow> u32 \<Rightarrow> u32 \<Rightarrow> 'd \<Rightarrow> 'd" where
  "rflpc_pwm_double_edge D pin high_edge low_edge d =
     (if pin \<in> set PWM1_PINS then d
      else if pin \<in> set PWM2_PINS then
        dev_wr D PWM1_MR2 low_edge (dev_wr D PWM1_MR1 high_edge (RFLPC_SET_BIT D PWM1_PCR 2 d))
      else if pin \<in> set PWM3_PINS then
        dev_wr D PWM1_MR3 low_edge (dev_wr D PWM1_MR2 high_edge (RFLPC_SET_BIT D PWM1_PCR 3 d))
      else if pin \<in> set PWM4_PINS then
        dev_wr D PWM1_MR4 low_edge (dev_wr D PWM1_MR3 high_edge (RFLPC_SET_BIT D PWM1_PCR 4 d))
      else if pin \<in> set PWM5_PINS then
        dev_wr D PWM1_MR5 low_edge (dev_wr D PWM1_MR4 high_edge (RFLPC_SET_BIT D PWM1_PCR 5 d))
      else if pin \<in> set PWM6_PINS then
        dev_wr D PWM1_MR6 low_edge (dev_wr D PWM1_MR5 high_edge (RFLPC_SET_BIT D PWM1_PCR 6 d))
      else d)"

section \<open>Outputs\<close>

text \<open>The output a pin carries, by the list of \<^verbatim>\<open>pwm.h\<close>, and the match register of an output.\<close>

definition pwm_output :: "rflpc_pin_t \<Rightarrow> nat option" where
  "pwm_output pin = map_of
     [(RFLPC_PIN_MAKE 1 18, 1), (RFLPC_PIN_MAKE 2 0, 1), (RFLPC_PIN_MAKE 1 20, 2), (RFLPC_PIN_MAKE 2 1, 2),
      (RFLPC_PIN_MAKE 3 25, 2), (RFLPC_PIN_MAKE 1 21, 3), (RFLPC_PIN_MAKE 2 2, 3), (RFLPC_PIN_MAKE 3 26, 3),
      (RFLPC_PIN_MAKE 1 23, 4), (RFLPC_PIN_MAKE 2 3, 4), (RFLPC_PIN_MAKE 1 24, 5), (RFLPC_PIN_MAKE 2 4, 5),
      (RFLPC_PIN_MAKE 1 26, 6), (RFLPC_PIN_MAKE 2 5, 6)] pin"

definition pwm_match :: "nat \<Rightarrow> addr" where
  "pwm_match n = [PWM1_MR0, PWM1_MR1, PWM1_MR2, PWM1_MR3, PWM1_MR4, PWM1_MR5, PWM1_MR6] ! n"

lemmas pwm_pin_defs = PWM1_PINS_def PWM2_PINS_def PWM3_PINS_def PWM4_PINS_def PWM5_PINS_def PWM6_PINS_def

lemma pwm_output_cases:
  assumes "pwm_output pin = Some n"
  shows "n = 1 \<and> pin \<in> set PWM1_PINS \<or> n = 2 \<and> pin \<in> set PWM2_PINS \<or> n = 3 \<and> pin \<in> set PWM3_PINS \<or>
    n = 4 \<and> pin \<in> set PWM4_PINS \<or> n = 5 \<and> pin \<in> set PWM5_PINS \<or> n = 6 \<and> pin \<in> set PWM6_PINS"
  using assms by (auto simp: pwm_output_def pwm_pin_defs split: if_splits)

text \<open>The pins of two outputs are different.\<close>

lemma pwm_pins_distinct: "distinct (PWM1_PINS @ PWM2_PINS @ PWM3_PINS @ PWM4_PINS @ PWM5_PINS @ PWM6_PINS)"
  by (simp add: pwm_pin_defs RFLPC_PIN_MAKE_def)

lemma pwm_of_output:
  assumes "pwm_output pin = Some n"
  shows "rflpc_pwm_enable D pin = RFLPC_SET_BIT D PWM1_PCR (8 + n)"
    and "rflpc_pwm_disable D pin = RFLPC_CLR_BIT D PWM1_PCR (8 + n)"
    and "rflpc_pwm_single_edge D pin w d =
      dev_wr D (pwm_match n) w (if n = 1 then d else RFLPC_CLR_BIT D PWM1_PCR n d)"
    and "rflpc_pwm_double_edge D pin h l d =
      (if n = 1 then d else dev_wr D (pwm_match n) l (dev_wr D (pwm_match (n - 1)) h (RFLPC_SET_BIT D PWM1_PCR n d)))"
  using pwm_output_cases [OF assms]
  by (elim disjE conjE; auto simp: rflpc_pwm_enable_def rflpc_pwm_disable_def rflpc_pwm_single_edge_def
      rflpc_pwm_double_edge_def pwm_match_def pwm_pin_defs RFLPC_PIN_MAKE_def)+

lemma pwm_output_range: "pwm_output pin = Some n \<Longrightarrow> 1 \<le> n \<and> n \<le> 6"
  using pwm_output_cases [of pin n] by auto

lemma pwm_match_regs:
  "pwm_match 0 = 0x40018018" "pwm_match 1 = 0x4001801C" "pwm_match 2 = 0x40018020" "pwm_match 3 = 0x40018024"
  "pwm_match 4 = 0x40018040" "pwm_match 5 = 0x40018044" "pwm_match 6 = 0x40018048" "PWM1_PCR = 0x4001804C"
  by (simp_all add: pwm_match_def reg_addr)

lemma upto_six: "n \<le> 6 \<Longrightarrow> n = 0 \<or> n = 1 \<or> n = 2 \<or> n = 3 \<or> n = 4 \<or> n = 5 \<or> n = (6 :: nat)"
  by linarith

lemma pwm_match_inj:
  assumes "n \<le> 6" "k \<le> 6" "n \<noteq> k"
  shows "pwm_match n \<noteq> pwm_match k"
  using upto_six [OF assms(1)] upto_six [OF assms(2)] assms(3)
  by (elim disjE) (simp_all add: pwm_match_regs del: One_nat_def)

lemma pwm_match_pcr:
  assumes "n \<le> 6"
  shows "pwm_match n \<noteq> PWM1_PCR"
  using upto_six [OF assms] by (elim disjE) (simp_all add: pwm_match_regs del: One_nat_def)

text \<open>The pins of the documentation are accepted, each with the function that selects its PWM output; any
  other pin is refused, after the block was powered and clocked.\<close>

lemma pwm_init_result:
  "fst (rflpc_pwm_init D clk pin d) = (if pwm_output pin = None then - 1 else 0)"
proof -
  let ?P1 = "{RFLPC_PIN_MAKE 1 18, RFLPC_PIN_MAKE 1 20, RFLPC_PIN_MAKE 1 21, RFLPC_PIN_MAKE 1 23,
      RFLPC_PIN_MAKE 1 24, RFLPC_PIN_MAKE 1 26}"
  let ?P2 = "{RFLPC_PIN_MAKE 2 0, RFLPC_PIN_MAKE 2 1, RFLPC_PIN_MAKE 2 2, RFLPC_PIN_MAKE 2 3,
      RFLPC_PIN_MAKE 2 4, RFLPC_PIN_MAKE 2 5}"
  let ?P3 = "{RFLPC_PIN_MAKE 3 25, RFLPC_PIN_MAKE 3 26}"
  have "pwm_output pin = None \<longleftrightarrow> pin \<notin> ?P1 \<union> ?P2 \<union> ?P3"
    unfolding pwm_output_def map_of_eq_None_iff by auto
  moreover have "fst (rflpc_pwm_init D clk pin d) = (if pin \<in> ?P1 then 0 else if pin \<in> ?P2 then 0
      else if pin \<in> ?P3 then 0 else - 1)"
    by (simp only: rflpc_pwm_init_def Let_def if_distrib [of fst] fst_conv)
  ultimately show ?thesis by (simp only: Un_iff) argo
qed

section \<open>Properties\<close>

text \<open>Two outputs in single edge mode do not disturb each other: each has its width in its match register
  and is enabled, its mode bit is clear, and the other bits of the control register are as before.\<close>

theorem pwm_two_outputs:
  assumes "config_regs D A" and "PWM1_PCR \<in> A" and "\<forall>i \<le> 6. pwm_match i \<in> A"
    and "pwm_output p = Some n" and "pwm_output q = Some k" and "n \<noteq> k"
    and "d' = rflpc_pwm_enable D q (rflpc_pwm_single_edge D q w2 (rflpc_pwm_enable D p (rflpc_pwm_single_edge D p w1 d)))"
  shows "peek D (pwm_match n) d' = w1 \<and> peek D (pwm_match k) d' = w2 \<and>
    (\<forall>j. bit (peek D PWM1_PCR d') j =
      (if j = 8 + n \<or> j = 8 + k then True else if (j = n \<or> j = k) \<and> j \<noteq> 1 then False
       else bit (peek D PWM1_PCR d) j))"
proof -
  note nk = pwm_output_range [OF assms(4)] pwm_output_range [OF assms(5)]
  note ops = config_regs.peek_ops [OF assms(1)]
  have inA: "pwm_match n \<in> A" "pwm_match k \<in> A" using assms(3) nk by auto
  have ne: "pwm_match n \<noteq> pwm_match k" "pwm_match n \<noteq> PWM1_PCR" "pwm_match k \<noteq> PWM1_PCR"
    using pwm_match_inj [of n k] pwm_match_pcr nk assms(6) by auto
  have d': "d' = RFLPC_SET_BIT D PWM1_PCR (8 + k) (dev_wr D (pwm_match k) w2
      ((if k = 1 then (\<lambda>d. d) else RFLPC_CLR_BIT D PWM1_PCR k)
        (RFLPC_SET_BIT D PWM1_PCR (8 + n) (dev_wr D (pwm_match n) w1
          ((if n = 1 then (\<lambda>d. d) else RFLPC_CLR_BIT D PWM1_PCR n) d)))))"
    unfolding assms(7) pwm_of_output(1,3) [OF assms(4)] pwm_of_output(1,3) [OF assms(5)] by simp
  have "peek D (pwm_match n) d' = w1" "peek D (pwm_match k) d' = w2"
    unfolding d' using ne inA by (cases "k = 1"; simp add: ops)+
  moreover have "bit (peek D PWM1_PCR d') j =
      (if j = 8 + n \<or> j = 8 + k then True else if (j = n \<or> j = k) \<and> j \<noteq> 1 then False
       else bit (peek D PWM1_PCR d) j)" for j
    unfolding d' using ne assms(2,6) nk
    by (cases "k = 1"; cases "n = 1") (auto simp add: ops bit_or_one bit_and_not_one simp del: push_bit_of_1)
  ultimately show ?thesis by blast
qed

lemma pwm_two_outputs_witness:
  "(let d' = rflpc_pwm_enable mem_device (RFLPC_PIN_MAKE 2 1) (rflpc_pwm_single_edge mem_device (RFLPC_PIN_MAKE 2 1) 70
        (rflpc_pwm_enable mem_device (RFLPC_PIN_MAKE 2 0) (rflpc_pwm_single_edge mem_device (RFLPC_PIN_MAKE 2 0) 50 (\<lambda>_. 4))))
    in d' PWM1_MR1 = 50 \<and> d' PWM1_MR2 = 70 \<and> bit (d' PWM1_PCR) 9 \<and> \<not> bit (d' PWM1_PCR) 2)"
proof -
  have o: "pwm_output (RFLPC_PIN_MAKE 2 0) = Some 1" "pwm_output (RFLPC_PIN_MAKE 2 1) = Some 2"
    by (simp_all add: pwm_output_def RFLPC_PIN_MAKE_def)
  have "pwm_match 1 = PWM1_MR1" "pwm_match 2 = PWM1_MR2" by (simp_all add: pwm_match_def)
  with pwm_two_outputs [OF mem.config_regs_axioms [of UNIV] _ _ o _ refl, of 70 50 "\<lambda>_. 4"]
  show ?thesis by simp
qed

end
