(* ===== verification/Dma.thy ===== *)
theory Dma
  imports Registers
begin

text \<open>
  \<^verbatim>\<open>rflpc17xx/drivers/dma.c\<close>: starting a transfer on one of the eight channels of the DMA controller. A
  null pointer is address 0.
\<close>

datatype rflpc_dma_channel_t =
    RFLPC_DMAC0 | RFLPC_DMAC1 | RFLPC_DMAC2 | RFLPC_DMAC3 | RFLPC_DMAC4 | RFLPC_DMAC5 | RFLPC_DMAC6 | RFLPC_DMAC7

fun dma_channel_val :: "rflpc_dma_channel_t \<Rightarrow> nat" where
  "dma_channel_val RFLPC_DMAC0 = 0"
| "dma_channel_val RFLPC_DMAC1 = 1"
| "dma_channel_val RFLPC_DMAC2 = 2"
| "dma_channel_val RFLPC_DMAC3 = 3"
| "dma_channel_val RFLPC_DMAC4 = 4"
| "dma_channel_val RFLPC_DMAC5 = 5"
| "dma_channel_val RFLPC_DMAC6 = 6"
| "dma_channel_val RFLPC_DMAC7 = 7"

fun rflpc_dma_get_chan :: "rflpc_dma_channel_t \<Rightarrow> addr" where
  "rflpc_dma_get_chan RFLPC_DMAC0 = LPC_GPDMACH0_BASE"
| "rflpc_dma_get_chan RFLPC_DMAC1 = LPC_GPDMACH1_BASE"
| "rflpc_dma_get_chan RFLPC_DMAC2 = LPC_GPDMACH2_BASE"
| "rflpc_dma_get_chan RFLPC_DMAC3 = LPC_GPDMACH3_BASE"
| "rflpc_dma_get_chan RFLPC_DMAC4 = LPC_GPDMACH4_BASE"
| "rflpc_dma_get_chan RFLPC_DMAC5 = LPC_GPDMACH5_BASE"
| "rflpc_dma_get_chan RFLPC_DMAC6 = LPC_GPDMACH6_BASE"
| "rflpc_dma_get_chan RFLPC_DMAC7 = LPC_GPDMACH7_BASE"

definition rflpc_dma_get_chan_control_register :: "rflpc_dma_channel_t \<Rightarrow> addr" where
  "rflpc_dma_get_chan_control_register channel =
     (let dma = rflpc_dma_get_chan channel in if dma = 0 then 0 else GPDMACH_DMACCControl dma)"

definition rflpc_dma_get_chan_config_register :: "rflpc_dma_channel_t \<Rightarrow> addr" where
  "rflpc_dma_get_chan_config_register channel =
     (let dma = rflpc_dma_get_chan channel in if dma = 0 then 0 else GPDMACH_DMACCConfig dma)"

definition rflpc_dma_get_chan_source :: "rflpc_dma_channel_t \<Rightarrow> addr" where
  "rflpc_dma_get_chan_source channel =
     (let dma = rflpc_dma_get_chan channel in if dma = 0 then 0 else GPDMACH_DMACCSrcAddr dma)"

definition rflpc_dma_get_chan_destination :: "rflpc_dma_channel_t \<Rightarrow> addr" where
  "rflpc_dma_get_chan_destination channel =
     (let dma = rflpc_dma_get_chan channel in if dma = 0 then 0 else GPDMACH_DMACCDestAddr dma)"

definition rflpc_dma_set_channel_control :: "'d device \<Rightarrow> addr \<Rightarrow> u16 \<Rightarrow> u8 \<Rightarrow> 'd \<Rightarrow> 'd" where
  "rflpc_dma_set_channel_control D control transfert_size burst_size =
     dev_wr D control (ucast transfert_size AND 0xFFF OR shl 1 26 OR shl 1 27)"

definition rflpc_dma_set_channel_config :: "'d device \<Rightarrow> addr \<Rightarrow> u32 \<Rightarrow> 'd \<Rightarrow> 'd" where
  "rflpc_dma_set_channel_config D config enable = dev_wr D config (enable AND 1)"

definition rflpc_dma_set_channel_lli :: "'d device \<Rightarrow> rflpc_dma_channel_t \<Rightarrow> u32 \<Rightarrow> 'd \<Rightarrow> 'd" where
  "rflpc_dma_set_channel_lli D channel lli d =
     (let dma = rflpc_dma_get_chan channel in if dma = 0 then d else dev_wr D (GPDMACH_DMACCLLI dma) lli d)"

definition rflpc_dma_init :: "'d device \<Rightarrow> 'd \<Rightarrow> 'd" where
  "rflpc_dma_init D d = dev_wr D GPDMA_DMACConfig 1 (reg_or D SC_PCONP (shl 1 29) d)"

definition rflpc_dma_channel_ready :: "'d device \<Rightarrow> rflpc_dma_channel_t \<Rightarrow> 'd \<Rightarrow> bool \<times> 'd" where
  "rflpc_dma_channel_ready D channel d =
     (let (x, d) = dev_rd D GPDMA_DMACEnbldChns d in (x AND shl 1 (dma_channel_val channel) = 0, d))"

definition rflpc_dma_start ::
  "'d device \<Rightarrow> rflpc_dma_channel_t \<Rightarrow> addr \<Rightarrow> addr \<Rightarrow> u32 \<Rightarrow> 'd \<Rightarrow> int \<times> 'd" where
  "rflpc_dma_start D channel dest src sz d =
     (let (ready, d) = rflpc_dma_channel_ready D channel d in
      if \<not> ready then (0, d)
      else
        let control = rflpc_dma_get_chan_control_register channel in
        if control = 0 then (0, d)
        else
          let config = rflpc_dma_get_chan_config_register channel in
          if config = 0 then (0, d)
          else
            let src_addr = rflpc_dma_get_chan_source channel;
                dst_addr = rflpc_dma_get_chan_destination channel in
            if src_addr = 0 \<or> dst_addr = 0 then (0, d)
            else
              let d = dev_wr D src_addr src d;
                  d = dev_wr D dst_addr dest d;
                  d = reg_or D GPDMA_DMACIntTCClear (shl 1 (dma_channel_val channel)) d;
                  d = reg_or D GPDMA_DMACIntErrClr (shl 1 (dma_channel_val channel)) d;
                  d = rflpc_dma_set_channel_lli D channel 0 d;
                  d = rflpc_dma_set_channel_control D control (ucast sz) 1 d;
                  d = rflpc_dma_set_channel_config D config 1 d
              in (1, d))"

section \<open>The controller\<close>

text \<open>The blocks do not overlap in the way that would let the copy read what it has written.\<close>

definition dma_apart :: "addr \<Rightarrow> addr \<Rightarrow> u32 \<Rightarrow> bool" where
  "dma_apart dest src n \<longleftrightarrow> (\<forall>x. x < n \<longrightarrow> \<not> src + x - dest < n)"

definition dma_copy :: "addr \<Rightarrow> addr \<Rightarrow> u32 \<Rightarrow> (addr \<Rightarrow> u8) \<Rightarrow> addr \<Rightarrow> u8" where
  "dma_copy dest src n m a = (if a - dest < n then m (src + (a - dest)) else m a)"

definition dma_regs :: "addr \<Rightarrow> addr set" where
  "dma_regs c = {GPDMACH_DMACCSrcAddr c, GPDMACH_DMACCDestAddr c, GPDMACH_DMACCLLI c, GPDMACH_DMACCControl c}"

text \<open>The controller has power (bit 29 of PCONP) and is enabled (bit 0 of its configuration register), and the
  channel is free.\<close>

definition dma_ready :: "'d device \<Rightarrow> rflpc_dma_channel_t \<Rightarrow> 'd \<Rightarrow> bool" where
  "dma_ready D channel d \<longleftrightarrow> bit (peek D SC_PCONP d) 29 \<and> bit (peek D GPDMA_DMACConfig d) 0 \<and>
     \<not> bit (peek D GPDMA_DMACEnbldChns d) (dma_channel_val channel)"

text \<open>
  What the user manual says of the controller, as laws of the device (no code of the repository): its power bit
  and, with power, its configuration can be written; while it is ready the four registers of the free
  channel hold what is written to them, and it stays ready until its power, its configuration or that of the
  channel is written. A write with bit 0 set to the configuration of the channel then starts a memory to memory
  transfer of as many bytes as the twelve low bits of the control register say, when the width and burst
  fields of that register are 0 and its increment bits 26 and 27 are set. \<open>M\<close> is the memory as it is once
  the transfers under way are done.
\<close>

locale dma_controller =
  fixes D :: "'d device" and channel :: rflpc_dma_channel_t and c :: addr and M :: "'d \<Rightarrow> addr \<Rightarrow> u8"
  assumes base: "c = rflpc_dma_get_chan channel"
    and power: "peek D SC_PCONP (dev_wr D SC_PCONP v d) = v"
    and power_stays: "peek D SC_PCONP (dev_wr D GPDMA_DMACConfig v d) = peek D SC_PCONP d"
    and enable: "bit (peek D SC_PCONP d) 29 \<Longrightarrow> peek D GPDMA_DMACConfig (dev_wr D GPDMA_DMACConfig v d) = v"
    and ready_rd: "dma_ready D channel d \<Longrightarrow> dma_ready D channel (snd (dev_rd D a d))"
    and ready_wr: "dma_ready D channel d \<Longrightarrow> a \<notin> {SC_PCONP, GPDMA_DMACConfig, GPDMACH_DMACCConfig c} \<Longrightarrow>
      dma_ready D channel (dev_wr D a v d)"
    and reg_same: "dma_ready D channel d \<Longrightarrow> a \<in> dma_regs c \<Longrightarrow> peek D a (dev_wr D a v d) = v"
    and reg_other: "dma_ready D channel d \<Longrightarrow> a \<in> dma_regs c \<Longrightarrow> b \<noteq> a \<Longrightarrow>
      b \<notin> {SC_PCONP, GPDMA_DMACConfig, GPDMACH_DMACCConfig c} \<Longrightarrow> peek D a (dev_wr D b v d) = peek D a d"
    and reg_rd: "dma_ready D channel d \<Longrightarrow> a \<in> dma_regs c \<Longrightarrow> peek D a (snd (dev_rd D b d)) = peek D a d"
    and rd_mem: "M (snd (dev_rd D a d)) = M d"
    and wr_mem: "a \<notin> {SC_PCONP, GPDMA_DMACConfig, GPDMACH_DMACCConfig c} \<Longrightarrow> M (dev_wr D a v d) = M d"
    and start: "dma_ready D channel d \<Longrightarrow> bit v 0 \<Longrightarrow> peek D (GPDMACH_DMACCSrcAddr c) d = src \<Longrightarrow>
      peek D (GPDMACH_DMACCDestAddr c) d = dest \<Longrightarrow> peek D (GPDMACH_DMACCLLI c) d = 0 \<Longrightarrow>
      peek D (GPDMACH_DMACCControl c) d = ctl \<Longrightarrow> bit ctl 26 \<Longrightarrow> bit ctl 27 \<Longrightarrow> get_field ctl 12 12 = 0 \<Longrightarrow>
      dma_apart dest src (ctl AND 0xFFF) \<Longrightarrow>
      M (dev_wr D (GPDMACH_DMACCConfig c) v d) = dma_copy dest src (ctl AND 0xFFF) (M d)"
begin

text \<open>\<^verbatim>\<open>|=\<close> on the interrupt registers is a read and a write that keep the controller ready.\<close>

lemma reg_or_keeps:
  assumes "dma_ready D channel d" "b \<notin> {SC_PCONP, GPDMA_DMACConfig, GPDMACH_DMACCConfig c}"
  shows "dma_ready D channel (reg_or D b v d)" "M (reg_or D b v d) = M d"
    and "a \<in> dma_regs c \<Longrightarrow> b \<noteq> a \<Longrightarrow> peek D a (reg_or D b v d) = peek D a d"
  using assms ready_rd [OF assms(1), of b]
  by (simp_all add: reg_or_def rmw_def split_def Let_def ready_wr rd_mem wr_mem reg_other reg_rd)

lemma init_enables:
  "bit (peek D SC_PCONP (rflpc_dma_init D d)) 29" "bit (peek D GPDMA_DMACConfig (rflpc_dma_init D d)) 0"
proof -
  have "bit (peek D SC_PCONP (reg_or D SC_PCONP (shl 1 29) d)) 29"
    by (simp add: reg_or_def rmw_def split_def Let_def power bit_or_iff bit_rules)
  then show "bit (peek D SC_PCONP (rflpc_dma_init D d)) 29" "bit (peek D GPDMA_DMACConfig (rflpc_dma_init D d)) 0"
    by (simp_all add: rflpc_dma_init_def power_stays enable)
qed

end

lemma control_fields:
  fixes n :: u32
  defines "ctl \<equiv> n AND 0xFFF OR shl 1 26 OR shl 1 27"
  shows "bit ctl 26" "bit ctl 27" "get_field ctl 12 12 = 0" "ctl AND 0xFFF = n AND 0xFFF"
proof -
  have mask: "(0xFFF :: u32) = mask 12" by (simp add: mask_eq_exp_minus_1)
  show "bit ctl 26" "bit ctl 27" by (simp_all add: ctl_def bit_or_iff bit_rules)
  show "get_field ctl 12 12 = 0"
    unfolding ctl_def mask get_field_def by (rule bit_word_eqI) (auto simp: bit_simps)
  show "ctl AND 0xFFF = n AND 0xFFF"
    unfolding ctl_def mask by (rule bit_word_eqI) (auto simp: bit_simps simp del: push_bit_of_1)
qed

lemma low_half: "(ucast (ucast (n :: u32) :: u16) :: u32) AND 0xFFF = n AND 0xFFF"
proof -
  have mask: "(0xFFF :: u32) = mask 12" by (simp add: mask_eq_exp_minus_1)
  show ?thesis unfolding mask by (rule bit_word_eqI) (auto simp: bit_simps)
qed

lemma channel_base:
  "rflpc_dma_get_chan channel = 0x50004100 + of_nat (32 * dma_channel_val channel)" "dma_channel_val channel < 8"
  by (cases channel; simp add: base_defs)+

lemma channel_regs:
  fixes channel :: rflpc_dma_channel_t
  defines "c \<equiv> rflpc_dma_get_chan channel"
  shows "rflpc_dma_get_chan_control_register channel = GPDMACH_DMACCControl c"
    "rflpc_dma_get_chan_config_register channel = GPDMACH_DMACCConfig c"
    "rflpc_dma_get_chan_source channel = GPDMACH_DMACCSrcAddr c"
    "rflpc_dma_get_chan_destination channel = GPDMACH_DMACCDestAddr c"
    "rflpc_dma_set_channel_lli D channel v = dev_wr D (GPDMACH_DMACCLLI c) v"
    "GPDMACH_DMACCControl c \<noteq> 0" "GPDMACH_DMACCConfig c \<noteq> 0" "GPDMACH_DMACCSrcAddr c \<noteq> 0" "GPDMACH_DMACCDestAddr c \<noteq> 0"
  by (cases channel; simp add: c_def base_defs reg_addr rflpc_dma_get_chan_control_register_def fun_eq_iff
      rflpc_dma_get_chan_config_register_def rflpc_dma_get_chan_source_def rflpc_dma_get_chan_destination_def
      rflpc_dma_set_channel_lli_def)+

context dma_controller
begin

lemma start_copies:
  assumes ready: "dma_ready D channel d" and apart: "dma_apart dest src (n AND 0xFFF)"
  shows "\<exists>d'. rflpc_dma_start D channel dest src n d = (1, d') \<and> M d' = dma_copy dest src (n AND 0xFFF) (M d)"
proof -
  let ?src = "GPDMACH_DMACCSrcAddr c" and ?dest = "GPDMACH_DMACCDestAddr c" and ?lli = "GPDMACH_DMACCLLI c"
    and ?control = "GPDMACH_DMACCControl c" and ?bit = "shl 1 (dma_channel_val channel)"
  have other: "a \<notin> {SC_PCONP, GPDMA_DMACConfig, GPDMACH_DMACCConfig c}"
    if "a \<in> dma_regs c \<union> {GPDMA_DMACIntTCClear, GPDMA_DMACIntErrClr}" for a
    using that by (cases channel; auto simp: base dma_regs_def base_defs reg_addr)
  have four: "?src \<in> dma_regs c" "?dest \<in> dma_regs c" "?lli \<in> dma_regs c" "?control \<in> dma_regs c"
    "GPDMA_DMACIntTCClear \<notin> dma_regs c" "GPDMA_DMACIntErrClr \<notin> dma_regs c"
    by (cases channel; simp add: base dma_regs_def base_defs reg_addr)+
  have distinct: "?src \<noteq> ?dest" "?src \<noteq> ?lli" "?src \<noteq> ?control" "?dest \<noteq> ?lli" "?dest \<noteq> ?control" "?lli \<noteq> ?control"
    by (simp_all add: reg_addr)
  define ctl where "ctl = (ucast (ucast n :: u16) :: u32) AND 0xFFF OR shl 1 26 OR shl 1 27"
  define d1 where "d1 = snd (dev_rd D GPDMA_DMACEnbldChns d)"
  define d2 where "d2 = dev_wr D ?src src d1"
  define d3 where "d3 = dev_wr D ?dest dest d2"
  define d4 where "d4 = reg_or D GPDMA_DMACIntErrClr ?bit (reg_or D GPDMA_DMACIntTCClear ?bit d3)"
  define d5 where "d5 = dev_wr D ?lli 0 d4"
  define e where "e = dev_wr D ?control ctl d5"
  have run: "rflpc_dma_start D channel dest src n d = (1, dev_wr D (GPDMACH_DMACCConfig c) 1 e)"
    using ready
    by (simp add: dma_ready_def rflpc_dma_start_def rflpc_dma_channel_ready_def Let_def split_def peek_def
        channel_regs base e_def d5_def d4_def d3_def d2_def d1_def ctl_def rflpc_dma_set_channel_control_def
        rflpc_dma_set_channel_config_def)
  have r: "dma_ready D channel d1" "dma_ready D channel d2" "dma_ready D channel d3"
      "dma_ready D channel (reg_or D GPDMA_DMACIntTCClear ?bit d3)" "dma_ready D channel d4"
      "dma_ready D channel d5" "dma_ready D channel e"
    using ready other four
    by (simp_all add: d1_def d2_def d3_def d4_def d5_def e_def ready_rd ready_wr reg_or_keeps(1))
  have mem: "M e = M d"
    using r other four
    by (simp add: e_def d5_def d4_def d3_def d2_def d1_def wr_mem rd_mem reg_or_keeps(2))
  have step: "peek D a d2 = (if a = ?src then src else peek D a d1)" "peek D a d3 = (if a = ?dest then dest else peek D a d2)"
      "peek D a d4 = peek D a d3" "peek D a d5 = (if a = ?lli then 0 else peek D a d4)"
      "peek D a e = (if a = ?control then ctl else peek D a d5)" if "a \<in> dma_regs c" for a
  proof -
    have "GPDMA_DMACIntTCClear \<noteq> a" "GPDMA_DMACIntErrClr \<noteq> a" using that four by auto
    then show "peek D a d4 = peek D a d3" using r other that by (simp add: d4_def reg_or_keeps(3))
  qed (use r that other four in \<open>auto simp: d2_def d3_def d5_def e_def reg_same reg_other\<close>)
  have "peek D ?src e = src" "peek D ?dest e = dest" "peek D ?lli e = 0" "peek D ?control e = ctl"
    using distinct by (simp_all add: step four)
  moreover have "ctl AND 0xFFF = n AND 0xFFF" by (simp only: ctl_def control_fields low_half)
  moreover have "bit ctl 26" "bit ctl 27" "get_field ctl 12 12 = 0"
    using control_fields [of "ucast (ucast n :: u16)"] by (simp_all add: ctl_def)
  ultimately have "M (dev_wr D (GPDMACH_DMACCConfig c) 1 e) = dma_copy dest src (n AND 0xFFF) (M d)"
    using start [OF r(7), of 1 src dest ctl] apart mem by simp
  then show ?thesis using run by simp
qed

end

text \<open>A busy channel is left alone.\<close>

lemma start_busy:
  "bit (peek D GPDMA_DMACEnbldChns d) (dma_channel_val channel) \<Longrightarrow>
    rflpc_dma_start D channel dest src n d = (0, snd (dev_rd D GPDMA_DMACEnbldChns d))"
  by (simp add: rflpc_dma_start_def rflpc_dma_channel_ready_def Let_def split_def peek_def)

section \<open>A model of the controller\<close>

text \<open>Its registers and the memory; a transfer is done at once, so channels never stay busy. A controller without
  power or not enabled holds nothing and copies nothing.\<close>

definition dma_on :: "(addr \<Rightarrow> u32) \<Rightarrow> bool" where
  "dma_on r \<longleftrightarrow> bit (r SC_PCONP) 29 \<and> bit (r GPDMA_DMACConfig) 0"

definition dma_device :: "addr \<Rightarrow> ((addr \<Rightarrow> u32) \<times> (addr \<Rightarrow> u8)) device" where
  "dma_device c = \<lparr>dev_rd = (\<lambda>a d. (if a = GPDMA_DMACEnbldChns then 0 else fst d a, d)),
     dev_wr = (\<lambda>a v d.
       (if a = SC_PCONP \<or> bit (fst d SC_PCONP) 29 \<and> (a = GPDMA_DMACConfig \<or> dma_on (fst d))
        then (fst d)(a := v) else fst d,
        if a = GPDMACH_DMACCConfig c \<and> bit v 0 \<and> dma_on (fst d)
        then dma_copy (fst d (GPDMACH_DMACCDestAddr c)) (fst d (GPDMACH_DMACCSrcAddr c))
          (fst d (GPDMACH_DMACCControl c) AND 0xFFF) (snd d)
        else snd d)),
     cpsid_i = (\<lambda>d. d), cpsie_i = (\<lambda>d. d)\<rparr>"

lemma dma_device_sel:
  "peek (dma_device c) a d = (if a = GPDMA_DMACEnbldChns then 0 else fst d a)"
  "dma_ready (dma_device c) channel d \<longleftrightarrow> dma_on (fst d)" "snd (dev_rd (dma_device c) a d) = d"
  by (auto simp: peek_def dma_device_def dma_ready_def dma_on_def reg_addr)

interpretation model_dma: dma_controller "dma_device (rflpc_dma_get_chan channel)" channel "rflpc_dma_get_chan channel" snd
proof -
  have ne: "GPDMA_DMACEnbldChns \<notin> dma_regs (rflpc_dma_get_chan channel)"
    by (cases channel) (simp_all add: dma_regs_def base_defs reg_addr)
  have regs: "GPDMACH_DMACCSrcAddr (rflpc_dma_get_chan channel) \<noteq> GPDMA_DMACEnbldChns"
    "GPDMACH_DMACCDestAddr (rflpc_dma_get_chan channel) \<noteq> GPDMA_DMACEnbldChns"
    "GPDMACH_DMACCControl (rflpc_dma_get_chan channel) \<noteq> GPDMA_DMACEnbldChns"
    using ne by (auto simp: dma_regs_def)
  show "dma_controller (dma_device (rflpc_dma_get_chan channel)) channel (rflpc_dma_get_chan channel) snd"
    by unfold_locales
      (use ne regs in \<open>auto simp: dma_device_sel\<close>, auto simp: dma_device_def dma_on_def reg_addr)
qed

section \<open>Properties\<close>

text \<open>C39. \<^verbatim>\<open>rflpc_dma_init\<close> gives the controller power and enables it. With both done, on a free channel
  \<^verbatim>\<open>rflpc_dma_start\<close> returns 1 and the controller copies the block of \<open>n\<close> bytes, of which only the twelve
  low bits count, when the copy does not read what it has written (no byte of the source block lies in the
  destination block); on a busy channel it returns 0 and nothing is copied.\<close>

theorem dma_start_copies:
  assumes "dma_controller D channel (rflpc_dma_get_chan channel) M" and "dma_apart dest src (n AND 0xFFF)"
  shows "(let d0 = rflpc_dma_init D d in bit (peek D SC_PCONP d0) 29 \<and> bit (peek D GPDMA_DMACConfig d0) 0) \<and>
    (bit (peek D SC_PCONP d) 29 \<longrightarrow> bit (peek D GPDMA_DMACConfig d) 0 \<longrightarrow>
      (\<exists>d'. rflpc_dma_start D channel dest src n d =
          (if bit (peek D GPDMA_DMACEnbldChns d) (dma_channel_val channel) then 0 else 1, d') \<and>
        M d' = (if bit (peek D GPDMA_DMACEnbldChns d) (dma_channel_val channel) then M d
                else dma_copy dest src (n AND 0xFFF) (M d))))"
  using dma_controller.start_copies [OF assms(1) _ assms(2), of d] start_busy [of D d channel dest src n]
    dma_controller.rd_mem [OF assms(1)] dma_controller.init_enables [OF assms(1)]
  by (cases "bit (peek D GPDMA_DMACEnbldChns d) (dma_channel_val channel)") (simp_all add: dma_ready_def Let_def)

lemma dma_start_copies_witness:
  "let D = dma_device LPC_GPDMACH3_BASE
   in \<exists>d'. rflpc_dma_start D RFLPC_DMAC3 0x2007C000 0x10000000 0x1010 (rflpc_dma_init D ((\<lambda>_. 0), ucast)) =
     (1, d') \<and> snd d' 0x2007C005 = 5 \<and> snd d' 0x2007C010 = 0x10"
proof -
  have apart: "dma_apart 0x2007C000 0x10000000 (0x1010 AND 0xFFF)"
    unfolding dma_apart_def
  proof (intro allI impI)
    fix x :: u32 assume "x < 0x1010 AND 0xFFF"
    then have "unat x < 16" by (simp add: word_less_nat_alt)
    then have "x = of_nat (unat x)" "unat x \<in> {..<16}" by simp_all
    then have "x \<in> of_nat ` {..<16}" by blast
    then show "\<not> 0x10000000 + x - 0x2007C000 < 0x1010 AND 0xFFF"
      by (auto simp: lessThan_nat_numeral lessThan_Suc)
  qed
  let ?D = "dma_device (rflpc_dma_get_chan RFLPC_DMAC3)"
  note rule = dma_start_copies [OF model_dma.dma_controller_axioms [of RFLPC_DMAC3] apart]
  let ?e = "rflpc_dma_init ?D ((\<lambda>_. 0), ucast)"
  have m: "snd ?e = ucast"
    by (simp add: rflpc_dma_init_def reg_or_def rmw_def dma_device_def base_defs reg_addr)
  have on: "bit (peek ?D SC_PCONP ?e) 29" "bit (peek ?D GPDMA_DMACConfig ?e) 0"
    using rule [of "((\<lambda>_. 0), ucast)", THEN conjunct1] by (simp_all add: Let_def)
  have "\<exists>d'. rflpc_dma_start ?D RFLPC_DMAC3 0x2007C000 0x10000000 0x1010 ?e = (1, d') \<and>
      snd d' = dma_copy 0x2007C000 0x10000000 (0x1010 AND 0xFFF) (snd ?e)"
    using rule [of ?e, THEN conjunct2, rule_format, OF on] by (simp add: dma_device_sel)
  then show ?thesis by (auto simp: Let_def dma_copy_def m [simplified])
qed

end
