(* ===== verification/Spi.thy ===== *)
theory Spi
  imports Pinconf Clock Interrupt
begin

text \<open>
  \<^verbatim>\<open>rflpc17xx/drivers/spi.c\<close> and \<^verbatim>\<open>spi.h\<close>: the two SPI ports. The transmit queue of a port, which the hardware
  empties while the driver waits, is the locale \<open>spi_port\<close>.
\<close>

definition PINFUNC_SPI :: u32 where "PINFUNC_SPI = 2"
definition SCK0_PIN :: rflpc_pin_t where "SCK0_PIN = RFLPC_PIN_MAKE 0 15"
definition SSEL0_PIN :: rflpc_pin_t where "SSEL0_PIN = RFLPC_PIN_MAKE 0 16"
definition MISO0_PIN :: rflpc_pin_t where "MISO0_PIN = RFLPC_PIN_MAKE 0 17"
definition MOSI0_PIN :: rflpc_pin_t where "MOSI0_PIN = RFLPC_PIN_MAKE 0 18"
definition SSEL1_PIN :: rflpc_pin_t where "SSEL1_PIN = RFLPC_PIN_MAKE 0 6"
definition SCK1_PIN :: rflpc_pin_t where "SCK1_PIN = RFLPC_PIN_MAKE 0 7"
definition MISO1_PIN :: rflpc_pin_t where "MISO1_PIN = RFLPC_PIN_MAKE 0 8"
definition MOSI1_PIN :: rflpc_pin_t where "MOSI1_PIN = RFLPC_PIN_MAKE 0 9"

datatype rflpc_spi_t = RFLPC_SPI0 | RFLPC_SPI1

fun spi_val :: "rflpc_spi_t \<Rightarrow> nat" where
  "spi_val RFLPC_SPI0 = 0"
| "spi_val RFLPC_SPI1 = 1"

datatype rflpc_spi_mode_t = RFLPC_SPI_MASTER | RFLPC_SPI_SLAVE

definition RFLPC_SPI_CPOL_FALLING_EDGE :: u8 where "RFLPC_SPI_CPOL_FALLING_EDGE = 2"
definition RFLPC_SPI_CPHA_PHASE_FIRST_EDGE :: u8 where "RFLPC_SPI_CPHA_PHASE_FIRST_EDGE = 1"

definition rflpc_spi_get_base_addr :: "rflpc_spi_t \<Rightarrow> addr" where
  "rflpc_spi_get_base_addr port = (if port = RFLPC_SPI0 then LPC_SSP0_BASE else LPC_SSP1_BASE)"

text \<open>\<^verbatim>\<open>data_size_transfert - 1\<close> and \<^verbatim>\<open>serial_clock_rate - 1\<close> are computed as \<^verbatim>\<open>int\<close>, so that 0 gives -1.\<close>

definition rflpc_spi_init ::
  "'d device \<Rightarrow> rflpc_spi_t \<Rightarrow> rflpc_spi_mode_t \<Rightarrow> rflpc_clock_divider_t \<Rightarrow> u8 \<Rightarrow> u8 \<Rightarrow> u8 \<Rightarrow> u8 \<Rightarrow> 'd \<Rightarrow> 'd" where
  "rflpc_spi_init D port mode cpu_clock_divider data_size_transfert clock_prescale serial_clock_rate
     clock_polarity_phase d =
     (let spi_base = rflpc_spi_get_base_addr port;
          d = (case port of
             RFLPC_SPI0 \<Rightarrow>
               (let d = RFLPC_SET_BIT D SC_PCONP 21 d;
                    d = RFLPC_SET_BITS_VAL D SC_PCLKSEL1 10 (divider_val cpu_clock_divider) 2 d;
                    d = rflpc_pin_set D SCK0_PIN PINFUNC_SPI (pin_mode_val RFLPC_PIN_MODE_RESISTOR_PULL_UP) False d;
                    d = rflpc_pin_set D MISO0_PIN PINFUNC_SPI (pin_mode_val RFLPC_PIN_MODE_RESISTOR_PULL_UP) False d;
                    d = rflpc_pin_set D MOSI0_PIN PINFUNC_SPI (pin_mode_val RFLPC_PIN_MODE_RESISTOR_PULL_UP) False d
                in rflpc_pin_set D SSEL0_PIN PINFUNC_SPI (pin_mode_val RFLPC_PIN_MODE_RESISTOR_PULL_UP) False d)
           | RFLPC_SPI1 \<Rightarrow>
               (let d = RFLPC_SET_BIT D SC_PCONP 10 d;
                    d = RFLPC_SET_BITS_VAL D SC_PCLKSEL0 20 (divider_val cpu_clock_divider) 2 d;
                    d = rflpc_pin_set D SCK1_PIN PINFUNC_SPI (pin_mode_val RFLPC_PIN_MODE_RESISTOR_PULL_UP) False d;
                    d = rflpc_pin_set D MISO1_PIN PINFUNC_SPI (pin_mode_val RFLPC_PIN_MODE_RESISTOR_PULL_UP) False d;
                    d = rflpc_pin_set D MOSI1_PIN PINFUNC_SPI (pin_mode_val RFLPC_PIN_MODE_RESISTOR_PULL_UP) False d
                in rflpc_pin_set D SSEL1_PIN PINFUNC_SPI (pin_mode_val RFLPC_PIN_MODE_RESISTOR_PULL_UP) False d));
          d = dev_wr D (SSP_CR0 spi_base) ((ucast data_size_transfert - 1) AND 0xF) d;
          d = (if clock_polarity_phase AND 0x01 \<noteq> 0 then RFLPC_SET_BIT D (SSP_CR0 spi_base) 7 d else d);
          d = (if clock_polarity_phase AND 0x02 \<noteq> 0 then RFLPC_SET_BIT D (SSP_CR0 spi_base) 6 d else d);
          d = dev_wr D (SSP_CR1 spi_base) (shl 1 1) d
      in if mode = RFLPC_SPI_SLAVE then RFLPC_SET_BIT D (SSP_CR1 spi_base) 2 d
         else RFLPC_SET_BITS_VAL D (SSP_CR0 spi_base) 8 (ucast serial_clock_rate - 1) 8
           (dev_wr D (SSP_CPSR spi_base) (ucast clock_prescale) d))"

definition rflpc_spi_set_rx_callback ::
  "'d device \<Rightarrow> rflpc_spi_t \<Rightarrow> u32 \<Rightarrow> u32 list \<times> 'd \<Rightarrow> u32 list \<times> 'd" where
  "rflpc_spi_set_rx_callback D port callback st =
     (let (ram_vec, d) = st;
          ram_vec = rflpc_irq_set_handler (SSP0_IRQn + int (spi_val port)) callback ram_vec;
          d = rflpc_irq_enable D (nat (SSP0_IRQn + int (spi_val port))) d
      in (ram_vec, RFLPC_SET_BIT D (SSP_IMSC (rflpc_spi_get_base_addr port)) 2 d))"

definition rflpc_spi_tx_fifo_empty :: "'d device \<Rightarrow> rflpc_spi_t \<Rightarrow> 'd \<Rightarrow> u32 \<times> 'd" where
  "rflpc_spi_tx_fifo_empty D port d =
     (let (x, d) = dev_rd D (SSP_SR (rflpc_spi_get_base_addr port)) d in (x AND 1, d))"

definition rflpc_spi_idle :: "'d device \<Rightarrow> rflpc_spi_t \<Rightarrow> 'd \<Rightarrow> bool \<times> 'd" where
  "rflpc_spi_idle D port d =
     (let (x, d) = dev_rd D (SSP_SR (rflpc_spi_get_base_addr port)) d in (x AND 0x10 = 0, d))"

definition rflpc_spi_tx_fifo_full :: "'d device \<Rightarrow> rflpc_spi_t \<Rightarrow> 'd \<Rightarrow> bool \<times> 'd" where
  "rflpc_spi_tx_fifo_full D port d =
     (let (x, d) = dev_rd D (SSP_SR (rflpc_spi_get_base_addr port)) d in (x AND shl 1 1 = 0, d))"

definition rflpc_spi_rx_fifo_empty :: "'d device \<Rightarrow> rflpc_spi_t \<Rightarrow> 'd \<Rightarrow> bool \<times> 'd" where
  "rflpc_spi_rx_fifo_empty D port d =
     (let (x, d) = dev_rd D (SSP_SR (rflpc_spi_get_base_addr port)) d in (x AND shl 1 2 = 0, d))"

text \<open>The loops on \<^verbatim>\<open>rflpc_spi_tx_fifo_full\<close> and \<^verbatim>\<open>rflpc_spi_rx_fifo_empty\<close> spin on the status register.\<close>

definition rflpc_spi_write :: "'d device \<Rightarrow> rflpc_spi_t \<Rightarrow> u16 \<Rightarrow> 'd \<Rightarrow> 'd option" where
  "rflpc_spi_write D port v d =
     (case poll D (SSP_SR (rflpc_spi_get_base_addr port)) (\<lambda>x. \<not> (x AND shl 1 1 = 0)) d of
        None \<Rightarrow> None
      | Some (_, d) \<Rightarrow> Some (dev_wr D (SSP_DR (rflpc_spi_get_base_addr port)) (ucast v) d))"

definition rflpc_spi_read :: "'d device \<Rightarrow> rflpc_spi_t \<Rightarrow> 'd \<Rightarrow> (u16 \<times> 'd) option" where
  "rflpc_spi_read D port d =
     (case poll D (SSP_SR (rflpc_spi_get_base_addr port)) (\<lambda>x. \<not> (x AND shl 1 2 = 0)) d of
        None \<Rightarrow> None
      | Some (_, d) \<Rightarrow>
          (let (x, d) = dev_rd D (SSP_DR (rflpc_spi_get_base_addr port)) d in Some (ucast x, d)))"

section \<open>The transmit queue\<close>

text \<open>
  After the user manual: a queue of eight frames, of which a read of any register may find that the
  hardware has sent some, the oldest first; bit 1 of the status register says that there is room. A frame
  written to a full queue is lost. The log \<open>out\<close> has the frames sent.
\<close>

record spi_state =
  out :: "u16 list"
  tx :: "u16 list"

definition spi_moves :: "spi_state \<Rightarrow> spi_state \<Rightarrow> bool" where
  "spi_moves s t \<longleftrightarrow> (\<exists>n \<le> length (tx s). t = s\<lparr>out := out s @ take n (tx s), tx := drop n (tx s)\<rparr>)"

locale spi_port =
  fixes D :: "'d device" and b :: addr and F :: "'d \<Rightarrow> spi_state"
  assumes rd_room: "bit (fst (dev_rd D (SSP_SR b) d)) 1 \<Longrightarrow> length (tx (F (snd (dev_rd D (SSP_SR b) d)))) < 8"
    and rd_moves: "spi_moves (F d) (F (snd (dev_rd D a d)))"
    and wr_frame: "length (tx (F d)) < 8 \<Longrightarrow>
      F (dev_wr D (SSP_DR b) v d) = (F d)\<lparr>tx := tx (F d) @ [ucast v]\<rparr>"
    and sends: "\<exists>n. bit (fst (dev_rd D (SSP_SR b) (after_reads D (SSP_SR b) n d))) 1"

lemma spi_moves_frames: "spi_moves s t \<Longrightarrow> out t @ tx t = out s @ tx s \<and> length (tx t) \<le> length (tx s)"
  by (auto simp: spi_moves_def)

lemma spi_moves_refl: "spi_moves s s"
  unfolding spi_moves_def by (rule exI [of _ 0]) simp

lemma spi_moves_trans:
  assumes "spi_moves s t" "spi_moves t u"
  shows "spi_moves s u"
proof -
  obtain n where n: "n \<le> length (tx s)" "t = s\<lparr>out := out s @ take n (tx s), tx := drop n (tx s)\<rparr>"
    using assms(1) by (auto simp: spi_moves_def)
  obtain k where k: "k \<le> length (tx t)" "u = t\<lparr>out := out t @ take k (tx t), tx := drop k (tx t)\<rparr>"
    using assms(2) by (auto simp: spi_moves_def)
  have "u = s\<lparr>out := out s @ take (n + k) (tx s), tx := drop (n + k) (tx s)\<rparr>"
    unfolding k(2) n(2) by (simp add: take_add) (simp add: add.commute)
  moreover have "n + k \<le> length (tx s)" using n k(1) by simp
  ultimately show ?thesis unfolding spi_moves_def by blast
qed

lemma ucast_u16: "ucast (ucast (c :: u16) :: u32) = c"
  by (rule bit_word_eqI) (simp add: bit_simps)

context spi_port
begin

lemma room: "(\<not> (x AND shl 1 1 = 0)) = bit (x :: u32) 1"
  using and_two_power_eq_zero [of x 1] by simp

lemma write_frame:
  assumes b: "b = rflpc_spi_get_base_addr port"
  shows "\<exists>d' s. rflpc_spi_write D port v d = Some d' \<and> spi_moves (F d) s \<and> length (tx s) < 8 \<and>
    F d' = s\<lparr>tx := tx s @ [v]\<rparr>"
proof -
  obtain n where "bit (fst (dev_rd D (SSP_SR b) (after_reads D (SSP_SR b) n d))) 1" using sends by blast
  then obtain x e where e: "poll D (SSP_SR b) (\<lambda>x. bit x 1) d = Some (x, e)"
    using poll_terminates [of "\<lambda>x. bit x 1" D "SSP_SR b" n d] by (auto simp: peek_def)
  obtain f where f: "spi_moves (F d) (F f)" "dev_rd D (SSP_SR b) f = (x, e)" "bit x 1"
    using poll_last [of "\<lambda>f. spi_moves (F d) (F f)", OF _ spi_moves_refl e] spi_moves_trans rd_moves by blast
  have "length (tx (F e)) < 8" using rd_room [of f] f by simp
  moreover have "spi_moves (F d) (F e)" using spi_moves_trans [OF f(1)] rd_moves [of f "SSP_SR b"] f(2) by simp
  moreover have "rflpc_spi_write D port v d = Some (dev_wr D (SSP_DR b) (ucast v) e)"
    using e by (simp only: rflpc_spi_write_def room b [symmetric] option.case prod.case)
  moreover have "F (dev_wr D (SSP_DR b) (ucast v) e) = (F e)\<lparr>tx := tx (F e) @ [v]\<rparr>"
    using wr_frame [OF calculation(1)] by (simp add: ucast_u16)
  ultimately show ?thesis by blast
qed

text \<open>Frames written one after the other.\<close>

lemma write_frames:
  assumes b: "b = rflpc_spi_get_base_addr port" and "length (tx (F d)) \<le> 8"
  shows "\<exists>d'. fold (\<lambda>v s. Option.bind s (rflpc_spi_write D port v)) vs (Some d) = Some d' \<and>
    out (F d') @ tx (F d') = out (F d) @ tx (F d) @ vs \<and> length (tx (F d')) \<le> 8"
  using assms(2)
proof (induction vs arbitrary: d)
  case (Cons v vs)
  obtain d1 s where 1: "rflpc_spi_write D port v d = Some d1" "spi_moves (F d) s" "length (tx s) < 8"
      "F d1 = s\<lparr>tx := tx s @ [v]\<rparr>"
    using write_frame [OF b] by blast
  have len: "length (tx (F d1)) \<le> 8" using 1(3,4) by simp
  have "out (F d1) @ tx (F d1) = (out (F d) @ tx (F d)) @ [v]"
    using 1(4) spi_moves_frames [OF 1(2)] by (simp flip: append_assoc)
  then have "out (F d1) @ tx (F d1) @ vs = out (F d) @ tx (F d) @ v # vs"
    by (metis append_assoc append_Cons append_Nil)
  with Cons.IH [OF len] 1(1) show ?case by simp
qed simp

end

section \<open>A model of the port\<close>

text \<open>The hardware sends one frame at every second status read.\<close>

definition spi_device :: "addr \<Rightarrow> (bool \<times> spi_state) device" where
  "spi_device b =
     \<lparr>dev_rd = (\<lambda>a (t, s).
        let s = (if t then s\<lparr>out := out s @ take 1 (tx s), tx := drop 1 (tx s)\<rparr> else s)
        in (if a = SSP_SR b \<and> length (tx s) < 8 then 2 else 0, (\<not> t, s))),
      dev_wr = (\<lambda>a v (t, s). (t, if a = SSP_DR b \<and> length (tx s) < 8 then s\<lparr>tx := tx s @ [ucast v]\<rparr> else s)),
      cpsid_i = (\<lambda>d. d), cpsie_i = (\<lambda>d. d)\<rparr>"

lemma spi_device_rd:
  "snd (dev_rd (spi_device b) a d) = (\<not> fst d,
     if fst d then (snd d)\<lparr>out := out (snd d) @ take 1 (tx (snd d)), tx := drop 1 (tx (snd d))\<rparr> else snd d)"
  by (simp add: spi_device_def split_def Let_def)

lemma spi_device_drains:
  "length (tx (snd (after_reads (spi_device b) a (2 * n) d))) \<le> length (tx (snd d)) - n \<and>
   fst (after_reads (spi_device b) a (2 * n) d) = fst d"
proof (induction n arbitrary: d)
  case (Suc n)
  show ?case
    using Suc.IH [of "snd (dev_rd (spi_device b) a (snd (dev_rd (spi_device b) a d)))"]
    by (cases "fst d") (simp_all add: spi_device_rd)
qed simp

interpretation model_spi: spi_port "spi_device b" b snd
proof
  fix a :: addr and d :: "bool \<times> spi_state" and v :: u32
  show "bit (fst (dev_rd (spi_device b) (SSP_SR b) d)) 1 \<Longrightarrow>
      length (tx (snd (snd (dev_rd (spi_device b) (SSP_SR b) d)))) < 8"
    by (cases d) (auto simp: spi_device_def Let_def split: if_splits)
  show "spi_moves (snd d) (snd (snd (dev_rd (spi_device b) a d)))"
  proof (cases "fst d \<and> tx (snd d) \<noteq> []")
    case True
    then have "1 \<le> length (tx (snd d))" by (simp add: Suc_le_eq)
    with True show ?thesis unfolding spi_moves_def spi_device_def by (intro exI [of _ 1]) (simp add: split_def)
  next
    case False
    then show ?thesis
      unfolding spi_moves_def spi_device_def by (intro exI [of _ 0]) (auto simp: split_def Let_def)
  qed
  show "length (tx (snd d)) < 8 \<Longrightarrow>
      snd (dev_wr (spi_device b) (SSP_DR b) v d) = (snd d)\<lparr>tx := tx (snd d) @ [ucast v]\<rparr>"
    by (cases d) (simp add: spi_device_def)
  show "\<exists>n. bit (fst (dev_rd (spi_device b) (SSP_SR b) (after_reads (spi_device b) (SSP_SR b) n d))) 1"
  proof -
    have "length (tx (snd (after_reads (spi_device b) (SSP_SR b) (2 * length (tx (snd d))) d))) = 0"
      using spi_device_drains [of b "SSP_SR b" "length (tx (snd d))" d] by simp
    then have "bit (fst (dev_rd (spi_device b) (SSP_SR b) (after_reads (spi_device b) (SSP_SR b)
        (2 * length (tx (snd d))) d))) 1"
      by (simp add: spi_device_def split_def Let_def bit_numeral_rec)
    then show ?thesis ..
  qed
qed

section \<open>Properties\<close>

text \<open>Frames written to a port one after the other all get into its queue, in order and none lost: every
  call returns, what was sent and what is queued grow by exactly these frames, and the queue never
  holds more than eight.\<close>

theorem spi_frames_in_order:
  assumes "spi_port D (rflpc_spi_get_base_addr port) F" and "length (tx (F d)) \<le> 8"
  shows "\<exists>d'. fold (\<lambda>v s. Option.bind s (rflpc_spi_write D port v)) vs (Some d) = Some d' \<and>
    out (F d') @ tx (F d') = out (F d) @ tx (F d) @ vs \<and> length (tx (F d')) \<le> 8"
  by (rule spi_port.write_frames [OF assms(1) refl assms(2)])

lemma spi_frames_in_order_witness:
  "\<exists>d'. fold (\<lambda>v s. Option.bind s (rflpc_spi_write (spi_device LPC_SSP0_BASE) RFLPC_SPI0 v)) [1, 2, 3, 4, 5, 6, 7, 8, 9, 10]
      (Some (False, \<lparr>out = [], tx = []\<rparr>)) = Some d' \<and>
    out (snd d') @ tx (snd d') = [1, 2, 3, 4, 5, 6, 7, 8, 9, 10]"
proof -
  have b: "LPC_SSP0_BASE = rflpc_spi_get_base_addr RFLPC_SPI0" by (simp add: rflpc_spi_get_base_addr_def)
  obtain d' where "fold (\<lambda>v s. Option.bind s (rflpc_spi_write (spi_device LPC_SSP0_BASE) RFLPC_SPI0 v))
      [1, 2, 3, 4, 5, 6, 7, 8, 9, 10] (Some (False, \<lparr>out = [], tx = []\<rparr>)) = Some d'"
      "out (snd d') @ tx (snd d') = [1, 2, 3, 4, 5, 6, 7, 8, 9, 10]"
    using spi_frames_in_order [OF model_spi.spi_port_axioms [of LPC_SSP0_BASE, unfolded b],
        of "(False, \<lparr>out = [], tx = []\<rparr>)" "[1, 2, 3, 4, 5, 6, 7, 8, 9, 10]"]
    unfolding b [symmetric] by (auto simp del: fold_simps)
  then show ?thesis by blast
qed

end
