(* ===== verification/Tick.thy ===== *)
theory Tick
  imports Clock Interrupt
begin

text \<open>
  The two other timers: \<^verbatim>\<open>rflpc17xx/drivers/sys_tick_timer.c\<close> and \<^verbatim>\<open>sys_tick_timer.h\<close>, the timer of the core,
  and \<^verbatim>\<open>rit.c\<close> and \<^verbatim>\<open>rit.h\<close>, the repetitive interrupt timer.
\<close>

definition rflpc_sys_timer_init :: "'d device \<Rightarrow> 'd \<Rightarrow> 'd" where
  "rflpc_sys_timer_init D d = reg_or D SYSTICK_CTRL (shl 1 2) (reg_or D SYSTICK_CTRL 1 d)"

definition rflpc_sys_timer_start :: "'d device \<Rightarrow> 'd \<Rightarrow> 'd" where
  "rflpc_sys_timer_start D = reg_or D SYSTICK_CTRL 1"

definition rflpc_sys_timer_stop :: "'d device \<Rightarrow> 'd \<Rightarrow> 'd" where
  "rflpc_sys_timer_stop D = reg_and D SYSTICK_CTRL (NOT 1)"

definition rflpc_sys_timer_set_callback ::
  "'d device \<Rightarrow> u32 \<Rightarrow> u32 list \<times> 'd \<Rightarrow> u32 list \<times> 'd" where
  "rflpc_sys_timer_set_callback D c st =
     (let (ram_vec, d) = st;
          d = reg_or D SYSTICK_CTRL (shl 1 1) d
      in (rflpc_irq_set_handler SysTick_IRQn c ram_vec, d))"

definition rflpc_sys_timer_set_tick_period :: "'d device \<Rightarrow> u32 \<Rightarrow> 'd \<Rightarrow> 'd" where
  "rflpc_sys_timer_set_tick_period D ticks d =
     (let d = reg_and D SYSTICK_CTRL (NOT 1) d;
          d = dev_wr D SYSTICK_VAL ticks d;
          d = dev_wr D SYSTICK_LOAD ticks d
      in reg_or D SYSTICK_CTRL 1 d)"

definition rflpc_sys_timer_set_period :: "'d device \<Rightarrow> u32 \<Rightarrow> u32 \<Rightarrow> 'd \<Rightarrow> 'd" where
  "rflpc_sys_timer_set_period D system_clock micros_time d =
     (let v = rflpc_clock_get_system_clock system_clock div 1000000;
          v = v * micros_time;
          v = v - 1
      in rflpc_sys_timer_set_tick_period D v d)"

section \<open>The repetitive interrupt timer\<close>

definition rflpc_rit_enable :: "'d device \<Rightarrow> 'd \<Rightarrow> 'd" where
  "rflpc_rit_enable D = reg_or D SC_PCONP (shl 1 16)"

definition rflpc_rit_get_counter_value :: "'d device \<Rightarrow> 'd \<Rightarrow> u32 \<times> 'd" where
  "rflpc_rit_get_counter_value D = dev_rd D RIT_RICOUNTER"

definition rflpc_rit_set_counter_value :: "'d device \<Rightarrow> u32 \<Rightarrow> 'd \<Rightarrow> 'd" where
  "rflpc_rit_set_counter_value D = dev_wr D RIT_RICOUNTER"

definition rflpc_rit_clear_pending_interrupt :: "'d device \<Rightarrow> 'd \<Rightarrow> 'd" where
  "rflpc_rit_clear_pending_interrupt D = reg_or D RIT_RICTRL 1"

definition rflpc_rit_set_callback ::
  "'d device \<Rightarrow> u32 \<Rightarrow> u32 \<Rightarrow> bool \<Rightarrow> u32 \<Rightarrow> u32 list \<times> 'd \<Rightarrow> u32 list \<times> 'd" where
  "rflpc_rit_set_callback D comp_value msk reset_on_match c st =
     (let (ram_vec, d) = st;
          d = dev_wr D RIT_RIMASK msk d;
          d = dev_wr D RIT_RICOMPVAL comp_value d;
          d = (if reset_on_match then reg_or D RIT_RICTRL (shl 1 1) d else d);
          ram_vec = rflpc_irq_set_handler RIT_IRQn c ram_vec
      in (ram_vec, rflpc_irq_enable D (nat RIT_IRQn) d))"

section \<open>Periods of the core timer\<close>

text \<open>
  The counter is 24 bits: it reloads from the low 24 bits of its register, so a period lasts that value and
  one more tick.
\<close>

definition tick_cycles :: "u32 \<Rightarrow> nat" where
  "tick_cycles load = unat (load AND 0xFFFFFF) + 1"

lemma low24: "unat (w AND 0xFFFFFF :: u32) = unat w mod 16777216"
proof -
  have m: "(0xFFFFFF :: u32) = mask 24" by (simp add: mask_eq_exp_minus_1)
  show ?thesis unfolding m unat_and_mask by simp
qed

context config_regs
begin

lemma peek_set_tick_period:
  assumes "{SYSTICK_CTRL, SYSTICK_LOAD} \<subseteq> A"
  shows "peek D SYSTICK_LOAD (rflpc_sys_timer_set_tick_period D t d) = t"
    and "peek D SYSTICK_CTRL (rflpc_sys_timer_set_tick_period D t d) = peek D SYSTICK_CTRL d OR 1"
proof -
  have "x AND NOT 1 OR 1 = x OR (1 :: u32)" for x by (rule bit_word_eqI) (auto simp: bit_simps)
  then show "peek D SYSTICK_LOAD (rflpc_sys_timer_set_tick_period D t d) = t"
    and "peek D SYSTICK_CTRL (rflpc_sys_timer_set_tick_period D t d) = peek D SYSTICK_CTRL d OR 1"
    using assms by (simp_all add: rflpc_sys_timer_set_tick_period_def Let_def peek_ops reg_addr)
qed

end

section \<open>Properties\<close>

text \<open>The period of the core timer in cycles: it is the requested time as long as this fits the 24 bits of
  the counter, and what is left of it modulo 2 to the 24 otherwise, a time of 0 being the longest
  period; the timer runs afterwards, its other control bits kept.\<close>

theorem sys_timer_period:
  assumes "config_regs D A" and "{SYSTICK_CTRL, SYSTICK_LOAD} \<subseteq> A"
    and "n = unat (clk div 1000000) * unat us" and "n < 2 ^ 32"
    and "d' = rflpc_sys_timer_set_period D clk us d"
  shows "tick_cycles (peek D SYSTICK_LOAD d') = (if n mod 2 ^ 24 = 0 then 2 ^ 24 else n mod 2 ^ 24) \<and>
    peek D SYSTICK_CTRL d' = peek D SYSTICK_CTRL d OR 1"
proof -
  define w where "w = (clk div 1000000) * us"
  have w: "unat w = n" using assms(3,4) unfolding w_def by (simp add: unat_word_ariths)
  have load: "peek D SYSTICK_LOAD d' = w - 1"
    using config_regs.peek_set_tick_period(1) [OF assms(1,2)]
    by (simp add: assms(5) rflpc_sys_timer_set_period_def Let_def rflpc_clock_get_system_clock_def w_def)
  have "tick_cycles (w - 1) = (if n mod 2 ^ 24 = 0 then 2 ^ 24 else n mod 2 ^ 24)"
  proof (cases "w = 0")
    case True
    then show ?thesis using w by (simp add: tick_cycles_def low24)
  next
    case False
    then have "unat (w - 1) = n - 1" "0 < n" using w by (auto simp: unat_minus_one unat_gt_0 [symmetric])
    then obtain k where k: "n = Suc k" "unat (w - 1) = k" by (cases n) auto
    show ?thesis
      by (simp add: tick_cycles_def low24 k mod_Suc)
  qed
  then show ?thesis
    using load config_regs.peek_set_tick_period(2) [OF assms(1,2)]
    by (simp add: assms(5) rflpc_sys_timer_set_period_def Let_def)
qed

lemma sys_timer_period_witness:
  "tick_cycles (rflpc_sys_timer_set_period mem_device 96000000 10000 (\<lambda>_. 4) SYSTICK_LOAD) = 960000"
  using sys_timer_period [OF mem.config_regs_axioms [of UNIV] _ refl _ refl, of 96000000 10000 "\<lambda>_. 4"] by simp

end
