(* ===== verification/Protocols.thy ===== *)
theory Protocols
  imports TinyMem
begin

text \<open>
  \<^verbatim>\<open>samples/dhcp/protocols.c\<close> and \<^verbatim>\<open>protocols.h\<close> (and \<^verbatim>\<open>samples/ethernet/protocols.c\<close>, the same code
  without UDP): packet headers of Ethernet, ARP, IPv4, ICMP and UDP between their C structures and
  the bytes of a frame, and the Internet checksum. The frame is in memory at the address \<open>data\<close>;
  the macros read or write at \<open>data + idx\<close> and return the advanced index. An \<^verbatim>\<open>EthAddr\<close> is the list
  of its six bytes.
\<close>

section \<open>The macros\<close>

definition GET_ONE :: "mem \<Rightarrow> addr \<Rightarrow> u32 \<Rightarrow> u8 \<times> u32" where
  "GET_ONE m src idx = (m (src + idx), idx + 1)"

definition GET_TWO :: "mem \<Rightarrow> addr \<Rightarrow> u32 \<Rightarrow> u16 \<times> u32" where
  "GET_TWO m src idx =
     (let dst = shl (ucast (m (src + idx))) 8; idx = idx + 1;
          dst = dst OR ucast (m (src + idx)); idx = idx + 1
      in (dst, idx))"

definition GET_FOUR :: "mem \<Rightarrow> addr \<Rightarrow> u32 \<Rightarrow> u32 \<times> u32" where
  "GET_FOUR m src idx =
     (let dst = shl (ucast (m (src + idx))) 24; idx = idx + 1;
          dst = dst OR shl (ucast (m (src + idx))) 16; idx = idx + 1;
          dst = dst OR shl (ucast (m (src + idx))) 8; idx = idx + 1;
          dst = dst OR ucast (m (src + idx)); idx = idx + 1
      in (dst, idx))"

definition GET_MAC :: "mem \<Rightarrow> addr \<Rightarrow> u32 \<Rightarrow> u8 list \<times> u32" where
  "GET_MAC m src idx =
     ([m (src + idx), m (src + (idx + 1)), m (src + (idx + 2)),
       m (src + (idx + 3)), m (src + (idx + 4)), m (src + (idx + 5))], idx + 6)"

definition PUT_ONE :: "addr \<Rightarrow> u32 \<Rightarrow> u8 \<Rightarrow> mem \<Rightarrow> u32 \<times> mem" where
  "PUT_ONE dst idx v m = (idx + 1, m(dst + idx := v))"

definition PUT_TWO :: "addr \<Rightarrow> u32 \<Rightarrow> u16 \<Rightarrow> mem \<Rightarrow> u32 \<times> mem" where
  "PUT_TWO dst idx v m =
     (let m = m(dst + idx := ucast (shr v 8 AND 0xFF)); idx = idx + 1;
          m = m(dst + idx := ucast (v AND 0xFF)); idx = idx + 1
      in (idx, m))"

definition PUT_FOUR :: "addr \<Rightarrow> u32 \<Rightarrow> u32 \<Rightarrow> mem \<Rightarrow> u32 \<times> mem" where
  "PUT_FOUR dst idx v m =
     (let m = m(dst + idx := ucast (shr v 24 AND 0xFF)); idx = idx + 1;
          m = m(dst + idx := ucast (shr v 16 AND 0xFF)); idx = idx + 1;
          m = m(dst + idx := ucast (shr v 8 AND 0xFF)); idx = idx + 1;
          m = m(dst + idx := ucast (v AND 0xFF)); idx = idx + 1
      in (idx, m))"

definition PUT_MAC :: "addr \<Rightarrow> u32 \<Rightarrow> u8 list \<Rightarrow> mem \<Rightarrow> u32 \<times> mem" where
  "PUT_MAC dst idx src m =
     (idx + 6, m(dst + idx := src ! 0, dst + (idx + 1) := src ! 1, dst + (idx + 2) := src ! 2,
        dst + (idx + 3) := src ! 3, dst + (idx + 4) := src ! 4, dst + (idx + 5) := src ! 5))"

definition MAC_ADDR_EQUAL :: "u8 list \<Rightarrow> u8 list \<Rightarrow> bool" where
  "MAC_ADDR_EQUAL a b \<longleftrightarrow> a ! 0 = b ! 0 \<and> a ! 1 = b ! 1 \<and> a ! 2 = b ! 2 \<and> a ! 3 = b ! 3 \<and>
     a ! 4 = b ! 4 \<and> a ! 5 = b ! 5"

definition NTOHS :: "u16 \<Rightarrow> u32" where
  "NTOHS v = (shr (ucast v) 8 AND 0xFF) OR shl (ucast v AND 0xFF) 8"

text \<open>\<^verbatim>\<open>ntohl\<close> reads the bytes of its argument through a pointer: the machine is little endian.\<close>

definition ntohl :: "u32 \<Rightarrow> u32" where
  "ntohl val =
     (let c = (\<lambda>i. ucast (ucast (shr val (8 * i)) :: u8))
      in shl (c 0) 24 OR shl (c 1) 16 OR shl (c 2) 8 OR c 3)"

section \<open>The checksum\<close>

definition ld16 :: "mem \<Rightarrow> addr \<Rightarrow> u16" where
  "ld16 m a = ucast (m a) OR shl (ucast (m (a + 1))) 8"

function checksum_loop :: "mem \<Rightarrow> addr \<Rightarrow> u32 \<Rightarrow> u32 \<Rightarrow> addr \<times> u32 \<times> u32" where
  "checksum_loop m buffer bytes_count csum =
     (if 2 \<le> bytes_count
      then checksum_loop m (buffer + 2) (bytes_count - 2) (csum + NTOHS (ld16 m buffer))
      else (buffer, bytes_count, csum))"
  by auto
termination
  by (relation "measure (\<lambda>(_, _, n, _). unat n)")
    (auto simp: word_le_nat_alt unat_sub_if')

function add_carry :: "u32 \<Rightarrow> u32" where
  "add_carry csum =
     (if csum AND 0xFFFF0000 \<noteq> 0
      then add_carry ((csum AND 0xFFFF) + (shr csum 16 AND 0xFFFF))
      else csum)"
  by auto

text \<open>Both halves of a 32 bit sum, as numbers.\<close>

lemma high_mask: "(0xFFFF0000 :: u32) = NOT (mask 16)"
  by (simp add: mask_eq_exp_minus_1)

lemma high_half_zero: "w AND 0xFFFF0000 = 0 \<longleftrightarrow> unat (w :: u32) < 65536"
proof -
  have "w AND NOT (mask 16) = 0 \<longleftrightarrow> w AND mask 16 = w"
    by (auto simp: word_eq_bits bit_and_iff bit_not_iff)
  moreover have "w AND mask 16 = w \<longleftrightarrow> unat w mod 65536 = unat w"
    by (simp add: word_unat_eq_iff unat_and_mask)
  ultimately show ?thesis by (simp add: high_mask mod_eq_self_iff_div_eq_0) auto
qed

lemma unat_add_halves:
  "unat ((w AND 0xFFFF) + (shr w 16 AND 0xFFFF) :: u32) = unat w mod 65536 + unat w div 65536"
proof -
  have "unat (w AND 0xFFFF) = unat w mod 65536"
    by (simp add: numeral_masks unat_and_mask)
  moreover have "unat (shr w 16 AND 0xFFFF) = unat w div 65536"
    using unat_u32 [of w] by (simp add: numeral_masks unat_and_mask unat_shr)
  ultimately show ?thesis
    using unat_u32 [of w] by (simp add: unat_word_ariths)
qed

termination add_carry
proof (relation "measure unat")
  fix w :: u32 assume "w AND 0xFFFF0000 \<noteq> 0"
  then have "65536 \<le> unat w" by (simp add: high_half_zero)
  then have "0 < unat w div 65536" by (simp add: div_greater_zero_iff)
  then have "unat w mod 65536 + unat w div 65536 < unat w"
    using div_mult_mod_eq [of "unat w" 65536] by linarith
  then show "((w AND 0xFFFF) + (shr w 16 AND 0xFFFF), w) \<in> measure unat"
    by (simp only: unat_add_halves in_measure)
qed simp

declare checksum_loop.simps [simp del] add_carry.simps [simp del]

definition proto_checksum :: "mem \<Rightarrow> addr \<Rightarrow> u32 \<Rightarrow> u16" where
  "proto_checksum m buffer bytes_count =
     (let (buffer, bytes_count, csum) = checksum_loop m buffer bytes_count 0;
          csum = (if bytes_count \<noteq> 0 then csum + shl (ucast (m buffer)) 8 else csum);
          csum = add_carry csum
      in ucast (NOT csum AND 0xFFFF))"


section \<open>The checksum is the one's complement sum\<close>

text \<open>The reference: the sum of the big endian 16 bit words of a byte string, an odd last byte
  padded with zero, folded into 16 bits by the end-around carry.\<close>

fun be_sum :: "u8 list \<Rightarrow> nat" where
  "be_sum [] = 0"
| "be_sum [a] = 256 * unat a"
| "be_sum (a # b # bs) = 256 * unat a + unat b + be_sum bs"

definition ones_fold :: "nat \<Rightarrow> nat" where
  "ones_fold s = (if s = 0 then 0 else (s - 1) mod 65535 + 1)"

definition bytes_at :: "mem \<Rightarrow> addr \<Rightarrow> nat \<Rightarrow> u8 list" where
  "bytes_at m a n = map (\<lambda>i. m (a + of_nat i)) [0..<n]"

lemma length_bytes_at [simp]: "length (bytes_at m a n) = n"
  by (simp add: bytes_at_def)

lemma bytes_at_0 [simp]: "bytes_at m a 0 = []"
  by (simp add: bytes_at_def)

lemma bytes_at_Suc: "bytes_at m a (Suc n) = m a # bytes_at m (a + 1) n"
proof -
  have "[0..<Suc n] = 0 # map Suc [0..<n]" by (simp add: map_Suc_upt upt_conv_Cons del: upt_Suc)
  then show ?thesis by (simp add: bytes_at_def algebra_simps)
qed

lemma unat_u8: "unat (b :: u8) < 256"
  using unsigned_less [of b] by simp

lemma be_sum_bound: "be_sum bs \<le> 65535 * ((length bs + 1) div 2)"
proof (induction bs rule: be_sum.induct)
  case (2 a)
  show ?case using unat_u8 [of a] by simp
next
  case (3 a b bs)
  then show ?case using unat_u8 [of a] unat_u8 [of b] by simp
qed simp

lemma unat_add_carry: "unat (add_carry w) = ones_fold (unat w)"
proof (induction w rule: add_carry.induct)
  case (1 w)
  show ?case
  proof (cases "unat w < 65536")
    case True
    then have "w AND 0xFFFF0000 = 0" by (simp add: high_half_zero)
    then show ?thesis
      using True by (simp add: add_carry.simps [of w] ones_fold_def)
  next
    case False
    then have nz: "w AND 0xFFFF0000 \<noteq> 0" by (simp add: high_half_zero)
    define q r where "q = unat w div 65536" and "r = unat w mod 65536"
    have w: "unat w = q * 65536 + r" and q: "0 < q"
      using False by (simp_all add: q_def r_def div_greater_zero_iff)
    have "unat (add_carry w) = ones_fold (r + q)"
      using 1 [OF nz] nz by (simp add: add_carry.simps [of w] unat_add_halves q_def r_def)
    moreover have "(q * 65536 + r - 1) mod 65535 = (r + q - 1) mod 65535"
    proof -
      have "q * 65536 + r - 1 = (r + q - 1) + q * 65535" using q by simp
      then show ?thesis by (simp only: mod_mult_self1)
    qed
    ultimately show ?thesis using q by (simp add: ones_fold_def w)
  qed
qed

lemma unat_ld16: "unat (ld16 m a) = unat (m a) + 256 * unat (m (a + 1))"
proof -
  have "ld16 m a = ucast (m a) + shl (ucast (m (a + 1))) 8"
    unfolding ld16_def by (rule disjunctive_add_eq_or [symmetric])
      (auto simp: word_eq_bits bit_simps dest: bit_imp_le_length)
  then show ?thesis
    using unat_u8 [of "m a"] unat_u8 [of "m (a + 1)"]
    by (simp add: unat_word_ariths push_bit_eq_mult unat_ucast_mod)
qed

lemma NTOHS_ld16: "NTOHS (ld16 m a) = of_nat (256 * unat (m a) + unat (m (a + 1)))"
proof -
  have "NTOHS (ld16 m a) = ucast (m (a + 1)) OR shl (ucast (m a)) 8"
    by (rule bit_word_eqI)
      (auto simp: NTOHS_def ld16_def numeral_masks bit_simps dest: bit_imp_le_length)
  also have "\<dots> = ucast (m (a + 1)) + shl (ucast (m a)) 8"
    by (rule disjunctive_add_eq_or [symmetric])
      (auto simp: word_eq_bits bit_simps dest: bit_imp_le_length)
  finally show ?thesis by (simp add: push_bit_eq_mult mult.commute)
qed


text \<open>The loop together with the odd byte.\<close>

lemma checksum_loop_eq:
  assumes "n < 2 ^ 32"
  shows "(let (b', n', c') = checksum_loop m b (of_nat n) c in
      if n' \<noteq> 0 then c' + shl (ucast (m b')) 8 else c') = c + of_nat (be_sum (bytes_at m b n))"
  using assms
proof (induction n arbitrary: b c rule: less_induct)
  case (less n)
  consider "n = 0" | "n = 1" | k where "n = Suc (Suc k)" by (metis One_nat_def nat.exhaust)
  then show ?case
  proof cases
    case 3
    have "unat (of_nat n :: u32) = n" using less.prems by (simp add: unat_of_nat)
    then have "(2 :: u32) \<le> of_nat n" using 3 by (subst word_le_nat_alt) simp
    moreover have "of_nat n - 2 = (of_nat k :: u32)" using 3 by simp
    moreover have "checksum_loop m b (of_nat n) c = checksum_loop m (b + 2) (of_nat n - 2)
        (c + NTOHS (ld16 m b))"
      using calculation(1) by (simp add: checksum_loop.simps [of m b "of_nat n"])
    moreover have "bytes_at m b n = m b # m (b + 1) # bytes_at m (b + 2) k"
      using 3 by (simp add: bytes_at_Suc add.assoc)
    ultimately show ?thesis
      using less.IH [of k "b + 2" "c + NTOHS (ld16 m b)"] less.prems 3
      by (simp add: NTOHS_ld16 add.assoc)
  qed (simp_all add: checksum_loop.simps [of m b] bytes_at_Suc push_bit_eq_mult mult.commute word_le_nat_alt)
qed

lemma unat_not_low: "unat csum < 65536 \<Longrightarrow> unat (ucast (NOT csum AND 0xFFFF :: u32) :: u16) = 65535 - unat csum"
proof -
  assume c: "unat csum < 65536"
  have "ucast (NOT csum AND 0xFFFF :: u32) = NOT (ucast csum :: u16)"
    by (rule bit_word_eqI) (auto simp: numeral_masks bit_simps)
  moreover have "unat (ucast csum :: u16) = unat csum" using c by (simp add: unat_ucast_mod)
  moreover have "unat (NOT v) = 65535 - unat v" for v :: u16
  proof -
    have "NOT v = - 1 - v" by (simp add: not_eq_complement)
    then show ?thesis by (simp add: unat_sub unsigned_minus_1_eq_mask mask_eq_exp_minus_1)
  qed
  ultimately show ?thesis by simp
qed

lemma ones_fold_le: "ones_fold s \<le> 65535"
proof -
  have "(s - 1) mod 65535 < 65535" by simp
  then show ?thesis by (auto simp: ones_fold_def)
qed

lemma proto_checksum_eq:
  assumes "n \<le> 131072"
  shows "unat (proto_checksum m b (of_nat n)) = 65535 - ones_fold (be_sum (bytes_at m b n))"
proof -
  define c where "c = (of_nat (be_sum (bytes_at m b n)) :: u32)"
  have "be_sum (bytes_at m b n) < 2 ^ 32"
    using be_sum_bound [of "bytes_at m b n"] assms by simp
  then have u: "unat c = be_sum (bytes_at m b n)" by (simp add: c_def unat_of_nat)
  have "proto_checksum m b (of_nat n) = ucast (NOT (add_carry c) AND 0xFFFF)"
    using checksum_loop_eq [of n m b 0] assms
    by (simp add: proto_checksum_def c_def Let_def split_def)
  moreover have "unat (add_carry c) < 65536"
    using ones_fold_le [of "unat c"] by (simp add: unat_add_carry)
  ultimately show ?thesis by (simp only: unat_not_low unat_add_carry u)
qed


section \<open>Headers\<close>

definition PROTO_MAC_HLEN :: u32 where "PROTO_MAC_HLEN = 14"
definition PROTO_ARP_HLEN :: u32 where "PROTO_ARP_HLEN = 28"
definition PROTO_IP_HLEN :: u32 where "PROTO_IP_HLEN = 20"
definition PROTO_UDP_HLEN :: u32 where "PROTO_UDP_HLEN = 8"
definition PROTO_IP :: u16 where "PROTO_IP = 0x0800"
definition PROTO_UDP :: u8 where "PROTO_UDP = 0x11"
definition PROTO_ICMP_ECHO_REQUEST :: u8 where "PROTO_ICMP_ECHO_REQUEST = 8"
definition PROTO_ICMP_ECHO_REPLY :: u8 where "PROTO_ICMP_ECHO_REPLY = 0"

record EthHead =
  eth_src :: "u8 list"
  eth_dst :: "u8 list"
  eth_type :: u16

record ArpHead =
  arp_hard_type :: u16
  arp_protocol_type :: u16
  arp_hlen :: u8
  arp_plen :: u8
  arp_opcode :: u16
  arp_sender_mac :: "u8 list"
  arp_sender_ip :: u32
  arp_target_mac :: "u8 list"
  arp_target_ip :: u32

record IpHead =
  ip_version_length :: u8
  ip_dscp_ecn :: u8
  ip_total_length :: u16
  ip_identification :: u16
  ip_flags_frag_offset :: u16
  ip_ttl :: u8
  ip_protocol :: u8
  ip_header_checksum :: u16
  ip_src_addr :: u32
  ip_dst_addr :: u32

text \<open>The union \<^verbatim>\<open>data\<close> of \<^verbatim>\<open>IcmpHead\<close> is one 32 bit word, \<^verbatim>\<open>raw\<close>; \<^verbatim>\<open>echo.identifier\<close> is its low
  half and \<^verbatim>\<open>echo.sn\<close> its high half.\<close>

record IcmpHead =
  icmp_type :: u8
  icmp_code :: u8
  icmp_checksum :: u16
  icmp_data :: u32

definition echo_identifier :: "u32 \<Rightarrow> u16" where
  "echo_identifier raw = ucast raw"

definition echo_sn :: "u32 \<Rightarrow> u16" where
  "echo_sn raw = ucast (shr raw 16)"

definition set_echo_identifier :: "u16 \<Rightarrow> u32 \<Rightarrow> u32" where
  "set_echo_identifier v raw = (raw AND 0xFFFF0000) OR ucast v"

definition set_echo_sn :: "u16 \<Rightarrow> u32 \<Rightarrow> u32" where
  "set_echo_sn v raw = (raw AND 0xFFFF) OR shl (ucast v) 16"

record UdpHead =
  udp_src_port :: u16
  udp_dst_port :: u16
  udp_len :: u16
  udp_checksum :: u16

definition proto_eth_demangle :: "mem \<Rightarrow> addr \<Rightarrow> EthHead" where
  "proto_eth_demangle m data =
     (let idx = 0;
          (dst, idx) = GET_MAC m data idx;
          (src, idx) = GET_MAC m data idx;
          (type, idx) = GET_TWO m data idx
      in \<lparr>eth_src = src, eth_dst = dst, eth_type = type\<rparr>)"

definition proto_eth_mangle :: "EthHead \<Rightarrow> addr \<Rightarrow> mem \<Rightarrow> mem" where
  "proto_eth_mangle eh data m =
     (let idx = 0;
          (idx, m) = PUT_MAC data idx (eth_dst eh) m;
          (idx, m) = PUT_MAC data idx (eth_src eh) m;
          (idx, m) = PUT_TWO data idx (eth_type eh) m
      in m)"

definition proto_arp_demangle :: "mem \<Rightarrow> addr \<Rightarrow> ArpHead" where
  "proto_arp_demangle m data =
     (let idx = 0;
          (hard_type, idx) = GET_TWO m data idx;
          (protocol_type, idx) = GET_TWO m data idx;
          (hlen, idx) = GET_ONE m data idx;
          (plen, idx) = GET_ONE m data idx;
          (opcode, idx) = GET_TWO m data idx;
          (sender_mac, idx) = GET_MAC m data idx;
          (sender_ip, idx) = GET_FOUR m data idx;
          (target_mac, idx) = GET_MAC m data idx;
          (target_ip, idx) = GET_FOUR m data idx
      in \<lparr>arp_hard_type = hard_type, arp_protocol_type = protocol_type, arp_hlen = hlen,
          arp_plen = plen, arp_opcode = opcode, arp_sender_mac = sender_mac,
          arp_sender_ip = sender_ip, arp_target_mac = target_mac, arp_target_ip = target_ip\<rparr>)"

definition proto_arp_mangle :: "ArpHead \<Rightarrow> addr \<Rightarrow> mem \<Rightarrow> mem" where
  "proto_arp_mangle ah data m =
     (let idx = 0;
          (idx, m) = PUT_TWO data idx (arp_hard_type ah) m;
          (idx, m) = PUT_TWO data idx (arp_protocol_type ah) m;
          (idx, m) = PUT_ONE data idx (arp_hlen ah) m;
          (idx, m) = PUT_ONE data idx (arp_plen ah) m;
          (idx, m) = PUT_TWO data idx (arp_opcode ah) m;
          (idx, m) = PUT_MAC data idx (arp_sender_mac ah) m;
          (idx, m) = PUT_FOUR data idx (arp_sender_ip ah) m;
          (idx, m) = PUT_MAC data idx (arp_target_mac ah) m;
          (idx, m) = PUT_FOUR data idx (arp_target_ip ah) m
      in m)"

definition proto_ip_demangle :: "mem \<Rightarrow> addr \<Rightarrow> IpHead" where
  "proto_ip_demangle m data =
     (let idx = 0;
          (version_length, idx) = GET_ONE m data idx;
          (dscp_ecn, idx) = GET_ONE m data idx;
          (total_length, idx) = GET_TWO m data idx;
          (identification, idx) = GET_TWO m data idx;
          (flags_frag_offset, idx) = GET_TWO m data idx;
          (ttl, idx) = GET_ONE m data idx;
          (protocol, idx) = GET_ONE m data idx;
          (header_checksum, idx) = GET_TWO m data idx;
          (src_addr, idx) = GET_FOUR m data idx;
          (dst_addr, idx) = GET_FOUR m data idx
      in \<lparr>ip_version_length = version_length, ip_dscp_ecn = dscp_ecn,
          ip_total_length = total_length, ip_identification = identification,
          ip_flags_frag_offset = flags_frag_offset, ip_ttl = ttl, ip_protocol = protocol,
          ip_header_checksum = header_checksum, ip_src_addr = src_addr, ip_dst_addr = dst_addr\<rparr>)"

text \<open>The header is a pointer, and a checksum that had to be computed is stored in it.\<close>

definition ip_put_fields :: "IpHead \<Rightarrow> addr \<Rightarrow> mem \<Rightarrow> mem" where
  "ip_put_fields ih data m =
     (let idx = 0;
          (idx, m) = PUT_ONE data idx (ip_version_length ih) m;
          (idx, m) = PUT_ONE data idx (ip_dscp_ecn ih) m;
          (idx, m) = PUT_TWO data idx (ip_total_length ih) m;
          (idx, m) = PUT_TWO data idx (ip_identification ih) m;
          (idx, m) = PUT_TWO data idx (ip_flags_frag_offset ih) m;
          (idx, m) = PUT_ONE data idx (ip_ttl ih) m;
          (idx, m) = PUT_ONE data idx (ip_protocol ih) m;
          (idx, m) = PUT_TWO data idx (ip_header_checksum ih) m;
          (idx, m) = PUT_FOUR data idx (ip_src_addr ih) m;
          (idx, m) = PUT_FOUR data idx (ip_dst_addr ih) m
      in m)"

definition proto_ip_mangle :: "IpHead \<Rightarrow> addr \<Rightarrow> mem \<Rightarrow> IpHead \<times> mem" where
  "proto_ip_mangle ih data m =
     (let m = ip_put_fields ih data m
      in if ip_header_checksum ih = 0
         then (let ih = ih\<lparr>ip_header_checksum :=
                      proto_checksum m data (shl (ucast (ip_version_length ih AND 0xF)) 2)\<rparr>;
                   (idx, m) = PUT_TWO data 10 (ip_header_checksum ih) m
               in (ih, m))
         else (ih, m))"

definition proto_icmp_demangle :: "IcmpHead \<Rightarrow> mem \<Rightarrow> addr \<Rightarrow> IcmpHead" where
  "proto_icmp_demangle ih m data =
     (let idx = 0;
          (type, idx) = GET_ONE m data idx;
          (code, idx) = GET_ONE m data idx;
          (checksum, idx) = GET_TWO m data idx;
          ih = ih\<lparr>icmp_type := type, icmp_code := code, icmp_checksum := checksum\<rparr>
      in if type = PROTO_ICMP_ECHO_REQUEST \<or> type = PROTO_ICMP_ECHO_REPLY
         then (let (identifier, idx) = GET_TWO m data idx;
                   (sn, idx) = GET_TWO m data idx
               in ih\<lparr>icmp_data := set_echo_sn sn (set_echo_identifier identifier (icmp_data ih))\<rparr>)
         else (let (raw, idx) = GET_FOUR m data idx in ih\<lparr>icmp_data := raw\<rparr>))"

definition proto_icmp_mangle :: "IcmpHead \<Rightarrow> addr \<Rightarrow> mem \<Rightarrow> mem" where
  "proto_icmp_mangle ih data m =
     (let idx = 0;
          (idx, m) = PUT_ONE data idx (icmp_type ih) m;
          (idx, m) = PUT_ONE data idx (icmp_code ih) m;
          (idx, m) = PUT_TWO data idx (icmp_checksum ih) m
      in if icmp_type ih = PROTO_ICMP_ECHO_REQUEST \<or> icmp_type ih = PROTO_ICMP_ECHO_REPLY
         then (let (idx, m) = PUT_TWO data idx (echo_identifier (icmp_data ih)) m;
                   (idx, m) = PUT_TWO data idx (echo_sn (icmp_data ih)) m
               in m)
         else snd (PUT_FOUR data idx (icmp_data ih) m))"

definition proto_udp_demangle :: "mem \<Rightarrow> addr \<Rightarrow> UdpHead" where
  "proto_udp_demangle m data =
     (let idx = 0;
          (src_port, idx) = GET_TWO m data idx;
          (dst_port, idx) = GET_TWO m data idx;
          (len, idx) = GET_TWO m data idx;
          (checksum, idx) = GET_TWO m data idx
      in \<lparr>udp_src_port = src_port, udp_dst_port = dst_port, udp_len = len, udp_checksum = checksum\<rparr>)"

definition proto_udp_mangle :: "UdpHead \<Rightarrow> addr \<Rightarrow> mem \<Rightarrow> mem" where
  "proto_udp_mangle uh data m =
     (let idx = 0;
          (idx, m) = PUT_TWO data idx (udp_src_port uh) m;
          (idx, m) = PUT_TWO data idx (udp_dst_port uh) m;
          (idx, m) = PUT_TWO data idx (udp_len uh) m;
          (idx, m) = PUT_TWO data idx (udp_checksum uh) m
      in m)"

section \<open>Reading back what was written\<close>

lemma two_bytes: "shl (ucast (ucast (shr v 8 AND 0xFF) :: u8)) 8 OR ucast (ucast (v AND 0xFF) :: u8) = (v :: u16)"
  by (rule bit_word_eqI) (auto simp: numeral_masks bit_simps)

lemma two_bytes_of:
  "ucast (shr (shl (ucast a) 8 OR ucast b :: u16) 8 AND 0xFF) = (a :: u8)"
  "ucast ((shl (ucast a) 8 OR ucast b :: u16) AND 0xFF) = (b :: u8)"
  by (rule bit_word_eqI, auto simp: numeral_masks bit_simps dest: bit_imp_le_length)+

lemma four_bytes:
  "((shl (ucast (ucast (shr v 24 AND 0xFF) :: u8)) 24 OR shl (ucast (ucast (shr v 16 AND 0xFF) :: u8)) 16) OR
   shl (ucast (ucast (shr v 8 AND 0xFF) :: u8)) 8) OR ucast (ucast (v AND 0xFF) :: u8) = (v :: u32)"
proof (rule bit_word_eqI, goal_cases)
  case (1 n)
  then consider "n < 8" | "8 \<le> n" "n < 16" | "16 \<le> n" "n < 24" | "24 \<le> n" "n < 32"
    by fastforce
  then show ?case
    by cases (auto simp: numeral_masks bit_simps)
qed

lemma four_bytes_of:
  "ucast (shr (((shl (ucast a) 24 OR shl (ucast b) 16) OR shl (ucast c) 8) OR ucast d :: u32) 24 AND 0xFF) = (a :: u8)"
  "ucast (shr (((shl (ucast a) 24 OR shl (ucast b) 16) OR shl (ucast c) 8) OR ucast d :: u32) 16 AND 0xFF) = (b :: u8)"
  "ucast (shr (((shl (ucast a) 24 OR shl (ucast b) 16) OR shl (ucast c) 8) OR ucast d :: u32) 8 AND 0xFF) = (c :: u8)"
  "ucast ((((shl (ucast a) 24 OR shl (ucast b) 16) OR shl (ucast c) 8) OR ucast d :: u32) AND 0xFF) = (d :: u8)"
  by (rule bit_word_eqI, auto simp: numeral_masks bit_simps dest: bit_imp_le_length)+


lemma list_of_six: "length b = 6 \<Longrightarrow> [b ! 0, b ! Suc 0, b ! 2, b ! 3, b ! 4, b ! 5] = b"
  by (auto simp: eval_nat_numeral length_Suc_conv)

lemmas get_put_defs =
  GET_ONE_def GET_TWO_def GET_FOUR_def GET_MAC_def PUT_ONE_def PUT_TWO_def PUT_FOUR_def PUT_MAC_def
  Let_def

lemmas get_put_bytes = two_bytes two_bytes_of four_bytes four_bytes_of list_of_six

text \<open>Each header read back from the bytes written, and the bytes written over with what was read.\<close>

lemma eth_put_get:
  "length (eth_src eh) = 6 \<Longrightarrow> length (eth_dst eh) = 6 \<Longrightarrow>
     proto_eth_demangle (proto_eth_mangle eh data m) data = eh"
  by (simp add: proto_eth_demangle_def proto_eth_mangle_def get_put_defs get_put_bytes)

lemma eth_get_put: "proto_eth_mangle (proto_eth_demangle m data) data m = m"
  by (simp add: proto_eth_demangle_def proto_eth_mangle_def get_put_defs get_put_bytes del: drop_bit_or)

lemma arp_put_get:
  "length (arp_sender_mac ah) = 6 \<Longrightarrow> length (arp_target_mac ah) = 6 \<Longrightarrow>
     proto_arp_demangle (proto_arp_mangle ah data m) data = ah"
  by (simp add: proto_arp_demangle_def proto_arp_mangle_def get_put_defs get_put_bytes)

lemma arp_get_put: "proto_arp_mangle (proto_arp_demangle m data) data m = m"
  by (simp add: proto_arp_demangle_def proto_arp_mangle_def get_put_defs get_put_bytes del: drop_bit_or)

lemma udp_put_get: "proto_udp_demangle (proto_udp_mangle uh data m) data = uh"
  by (simp add: proto_udp_demangle_def proto_udp_mangle_def get_put_defs get_put_bytes)

lemma udp_get_put: "proto_udp_mangle (proto_udp_demangle m data) data m = m"
  by (simp add: proto_udp_demangle_def proto_udp_mangle_def get_put_defs get_put_bytes del: drop_bit_or)

lemma ip_put_get: "proto_ip_demangle (ip_put_fields ih data m) data = ih"
  by (simp add: proto_ip_demangle_def ip_put_fields_def get_put_defs get_put_bytes)

lemma ip_get_put: "ip_put_fields (proto_ip_demangle m data) data m = m"
  by (simp add: proto_ip_demangle_def ip_put_fields_def get_put_defs get_put_bytes del: drop_bit_or)

text \<open>The two views of the union.\<close>

lemma echo_halves [simp]:
  "echo_identifier (set_echo_sn s (set_echo_identifier i raw)) = i"
  "echo_sn (set_echo_sn s raw) = s"
  unfolding echo_identifier_def echo_sn_def set_echo_identifier_def set_echo_sn_def
  by (rule bit_word_eqI, auto simp: high_mask numeral_masks bit_simps)+

lemma set_echo_halves [simp]:
  "set_echo_sn (echo_sn raw) (set_echo_identifier (echo_identifier raw) old) = raw"
  unfolding echo_identifier_def echo_sn_def set_echo_identifier_def set_echo_sn_def
  by (rule bit_word_eqI) (auto simp: high_mask numeral_masks bit_simps)

lemma icmp_put_get: "proto_icmp_demangle old (proto_icmp_mangle ih data m) data = ih"
  by (simp add: proto_icmp_demangle_def proto_icmp_mangle_def get_put_defs get_put_bytes)

lemma icmp_get_put: "proto_icmp_mangle (proto_icmp_demangle old m data) data m = m"
  by (simp add: proto_icmp_demangle_def proto_icmp_mangle_def get_put_defs get_put_bytes fun_upd_idem
      del: drop_bit_or)

text \<open>Nothing outside the header is written.\<close>

lemma eth_frame: "\<not> a - data < 14 \<Longrightarrow> proto_eth_mangle eh data m a = m a"
  by (auto simp: proto_eth_mangle_def get_put_defs)

lemma arp_frame: "\<not> a - data < 28 \<Longrightarrow> proto_arp_mangle ah data m a = m a"
  by (auto simp: proto_arp_mangle_def get_put_defs)

lemma ip_frame: "\<not> a - data < 20 \<Longrightarrow> ip_put_fields ih data m a = m a"
  by (auto simp: ip_put_fields_def get_put_defs)

lemma icmp_frame: "\<not> a - data < 8 \<Longrightarrow> proto_icmp_mangle ih data m a = m a"
  by (auto simp: proto_icmp_mangle_def get_put_defs)

lemma udp_frame: "\<not> a - data < 8 \<Longrightarrow> proto_udp_mangle uh data m a = m a"
  by (auto simp: proto_udp_mangle_def get_put_defs)


section \<open>A header that carries its own checksum\<close>

lemma be_sum_insert:
  "even (length xs) \<Longrightarrow> be_sum (xs @ a # b # ys) = be_sum xs + (256 * unat a + unat b) + be_sum ys"
  by (induction xs rule: be_sum.induct) auto

lemma bytes_at_add: "bytes_at m a (i + j) = bytes_at m a i @ bytes_at m (a + of_nat i) j"
  by (induction i arbitrary: a) (simp_all add: bytes_at_Suc add.assoc)

lemma bytes_at_cong: "(\<And>i. i < n \<Longrightarrow> m (a + of_nat i) = m' (a + of_nat i)) \<Longrightarrow> bytes_at m a n = bytes_at m' a n"
  by (simp add: bytes_at_def)

text \<open>Storing a value in two zero bytes at an even offset adds it to the sum.\<close>

lemma be_sum_store:
  assumes "even k" and "k + 2 \<le> n" and "n < 2 ^ 32"
    and "m (a + of_nat k) = 0" and "m (a + of_nat k + 1) = 0"
    and m': "m' = snd (PUT_TWO a (of_nat k) c m)"
  shows "be_sum (bytes_at m' a n) = be_sum (bytes_at m a n) + unat c"
proof -
  obtain j where n: "n = k + Suc (Suc j)" using assms(2) by (metis add_2_eq_Suc' add.assoc le_Suc_ex add.commute)
  have split: "bytes_at x a n = bytes_at x a k @ x (a + of_nat k) # x (a + of_nat k + 1) #
      bytes_at x (a + of_nat k + 1 + 1) j" for x
    by (simp only: n bytes_at_add bytes_at_Suc)
  have pre: "bytes_at m' a k = bytes_at m a k"
  proof (rule bytes_at_cong)
    fix i assume "i < k"
    then have "of_nat i \<noteq> (of_nat k :: u32)" "of_nat i \<noteq> (of_nat (Suc k) :: u32)"
      using assms(2,3) by (simp_all add: of_nat_word_inj del: of_nat_Suc)
    then show "m' (a + of_nat i) = m (a + of_nat i)"
      by (simp add: m' PUT_TWO_def Let_def add.commute)
  qed
  have post: "bytes_at m' (a + of_nat k + 1 + 1) j = bytes_at m (a + of_nat k + 1 + 1) j"
  proof (rule bytes_at_cong)
    fix i assume "i < j"
    have e: "a + of_nat k + 1 + 1 + of_nat i = a + of_nat (k + 2 + i)" by simp
    have "of_nat (k + 2 + i) \<noteq> (of_nat k :: u32)" "of_nat (k + 2 + i) \<noteq> (of_nat (Suc k) :: u32)"
      using \<open>i < j\<close> assms(3) n by (simp_all add: of_nat_word_inj del: of_nat_Suc of_nat_add)
    then show "m' (a + of_nat k + 1 + 1 + of_nat i) = m (a + of_nat k + 1 + 1 + of_nat i)"
      unfolding e by (simp add: m' PUT_TWO_def Let_def add.commute del: of_nat_add)
  qed
  have "unat c < 65536" using unsigned_less [of c] by simp
  then have "unat c div 256 mod 256 = unat c div 256" by simp
  then have "256 * unat (m' (a + of_nat k)) + unat (m' (a + of_nat k + 1)) = unat c"
    by (simp add: m' PUT_TWO_def Let_def add.assoc [symmetric] unat_ucast_mod numeral_masks
        unat_and_mask unat_shr)
  then show ?thesis
    using assms(1,4,5) post by (simp add: split be_sum_insert pre)
qed

text \<open>Then the checksum of the whole is zero.\<close>

lemma checksum_of_checked:
  assumes "even k" and "k + 2 \<le> n" and "n \<le> 131072"
    and "m (a + of_nat k) = 0" and "m (a + of_nat k + 1) = 0"
    and "m' = snd (PUT_TWO a (of_nat k) (proto_checksum m a (of_nat n)) m)"
  shows "proto_checksum m' a (of_nat n) = 0"
proof -
  define s where "s = be_sum (bytes_at m a n)"
  have c: "unat (proto_checksum m a (of_nat n)) = 65535 - ones_fold s"
    using proto_checksum_eq [OF assms(3)] by (simp add: s_def)
  have "be_sum (bytes_at m' a n) = s + (65535 - ones_fold s)"
    using be_sum_store [of k n m a m' "proto_checksum m a (of_nat n)"] assms c by (simp add: s_def)
  moreover have "ones_fold (s + (65535 - ones_fold s)) = 65535"
  proof (cases "s = 0")
    case False
    define q r where "q = (s - 1) div 65535" and "r = (s - 1) mod 65535"
    have "s = q * 65535 + r + 1" and r: "r < 65535"
      using False div_mult_mod_eq [of "s - 1" 65535] by (simp_all add: q_def r_def)
    moreover have "ones_fold s = r + 1" using False by (simp add: ones_fold_def r_def)
    ultimately have "s + (65535 - ones_fold s) - 1 = 65534 + q * 65535" by simp
    then have "(s + (65535 - ones_fold s) - 1) mod 65535 = 65534" by simp
    then show ?thesis using False by (simp add: ones_fold_def)
  qed (simp add: ones_fold_def)
  ultimately have "unat (proto_checksum m' a (of_nat n)) = 0"
    using proto_checksum_eq [OF assms(3)] by simp
  then show ?thesis by (simp add: unat_eq_0)
qed

lemma ip_patch:
  "proto_ip_demangle (snd (PUT_TWO data 10 c (ip_put_fields ih data m))) data =
     ih\<lparr>ip_header_checksum := c\<rparr>"
  by (simp add: proto_ip_demangle_def ip_put_fields_def get_put_defs get_put_bytes)


text \<open>The checksum stored by \<^verbatim>\<open>proto_ip_mangle\<close>.\<close>

lemma ip_mangle_checked:
  assumes "ip_header_checksum ih = 0" and "3 \<le> unat (ip_version_length ih AND 0xF)"
    and mangle: "proto_ip_mangle ih data m = (ih', m')"
  shows "proto_checksum m' data (shl (ucast (ip_version_length ih AND 0xF)) 2) = 0 \<and>
    proto_ip_demangle m' data = ih' \<and>
    ih' = ih\<lparr>ip_header_checksum := ip_header_checksum ih'\<rparr> \<and>
    (\<forall>a. \<not> a - data < 20 \<longrightarrow> m' a = m a)"
proof -
  define n where "n = 4 * unat (ip_version_length ih AND 0xF)"
  define m1 where "m1 = ip_put_fields ih data m"
  define c where "c = proto_checksum m1 data (of_nat n)"
  have n: "12 \<le> n" "n \<le> 60"
    using assms(2) by (simp_all add: n_def numeral_masks unat_and_mask)
  have hl: "shl (ucast (ip_version_length ih AND 0xF)) 2 = (of_nat n :: u32)"
    by (simp add: n_def push_bit_eq_mult mult.commute)
  have r: "ih' = ih\<lparr>ip_header_checksum := c\<rparr>" "m' = snd (PUT_TWO data 10 c m1)"
    using mangle assms(1) by (simp_all add: proto_ip_mangle_def hl c_def m1_def Let_def split_def)
  have z: "m1 (data + 10) = 0" "m1 (data + 11) = 0"
    using assms(1) by (simp_all add: m1_def ip_put_fields_def get_put_defs)
  have "proto_checksum m' data (of_nat n) = 0"
    using checksum_of_checked [of 10 n m1 data m'] n z r(2) by (simp add: c_def add.commute)
  moreover have "\<not> a - data < 20 \<longrightarrow> m' a = m a" for a
    using ip_frame [of a data ih m] by (auto simp: r(2) m1_def get_put_defs)
  ultimately show ?thesis by (simp add: hl r ip_patch m1_def)
qed

text \<open>What the readers depend on.\<close>

lemma eth_local: "(\<And>a. a - data < 14 \<Longrightarrow> m' a = m a) \<Longrightarrow> proto_eth_demangle m' data = proto_eth_demangle m data"
  by (simp add: proto_eth_demangle_def get_put_defs)

lemma ip_local: "(\<And>a. a - data < 20 \<Longrightarrow> m' a = m a) \<Longrightarrow> proto_ip_demangle m' data = proto_ip_demangle m data"
  by (simp add: proto_ip_demangle_def get_put_defs)

lemma udp_local: "(\<And>a. a - data < 8 \<Longrightarrow> m' a = m a) \<Longrightarrow> proto_udp_demangle m' data = proto_udp_demangle m data"
  by (simp add: proto_udp_demangle_def get_put_defs)

lemma arp_local: "(\<And>a. a - data < 28 \<Longrightarrow> m' a = m a) \<Longrightarrow> proto_arp_demangle m' data = proto_arp_demangle m data"
  by (simp add: proto_arp_demangle_def get_put_defs)

lemma icmp_local:
  "(\<And>a. a - data < 8 \<Longrightarrow> m' a = m a) \<Longrightarrow> proto_icmp_demangle g m' data = proto_icmp_demangle g m data"
  by (simp add: proto_icmp_demangle_def get_put_defs)

text \<open>A cell near the start of a block of 82 bytes, the headers of a frame at their longest.\<close>

lemma cells_local:
  fixes b k l :: u32
  assumes "\<And>k. k < 82 \<Longrightarrow> m' (b + k) = m (b + k)" and "a - (b + k) < l" and "unat k + unat l \<le> 82"
  shows "m' a = m a"
proof -
  define x where "x = a - (b + k)"
  have "unat x < unat l" using assms(2) by (simp add: x_def word_less_nat_alt)
  then have "unat (k + x) < 82" using assms(3) by (simp add: unat_word_ariths)
  moreover have "a = b + (k + x)" by (simp add: x_def)
  ultimately show ?thesis using assms(1) [of "k + x"] by (simp add: word_less_nat_alt)
qed

lemma checksum_local:
  assumes "n \<le> 131072" and "\<And>a. a - b < of_nat n \<Longrightarrow> m' a = m a"
  shows "proto_checksum m' b (of_nat n) = proto_checksum m b (of_nat n)"
proof -
  have "m' (b + of_nat i) = m (b + of_nat i)" if "i < n" for i
  proof -
    have "(of_nat i :: u32) < of_nat n"
      using that assms(1) by (simp add: word_less_nat_alt unat_of_nat)
    then show ?thesis using assms(2) [of "b + of_nat i"] by simp
  qed
  then have "bytes_at m' b n = bytes_at m b n" by (rule bytes_at_cong)
  then show ?thesis
    using proto_checksum_eq [OF assms(1), of m b] proto_checksum_eq [OF assms(1), of m' b]
    by (simp add: word_unat_eq_iff)
qed

text \<open>Where the parts of a frame begin and end, as offsets.\<close>

lemma region:
  fixes x b l :: u32
  assumes "unat b + unat l < 2 ^ 32"
  shows "x - b < l \<longleftrightarrow> unat b \<le> unat x \<and> unat x < unat b + unat l"
  using assms unat_u32 [of x] unat_u32 [of b]
  by (auto simp: word_less_nat_alt unat_sub_if')

text \<open>Two blocks that do not overlap.\<close>

lemma outside_block:
  fixes p q k l n :: u32
  assumes "n \<le> q - p" and "l \<le> p - q" and "k < l"
  shows "\<not> q + k - p < n"
proof
  define d where "d = q - p"
  assume lt: "q + k - p < n"
  have "q - p \<noteq> 0" using assms by auto
  then have "unat (p - q) = 2 ^ 32 - unat d"
    using unat_sub_if' [of 0 d] unat_u32 [of d] by (simp add: d_def unat_eq_0 [symmetric])
  then have "unat d + unat k < 2 ^ 32"
    using assms(2,3) unat_u32 [of d] by (auto simp: word_le_nat_alt word_less_nat_alt)
  then have "unat (d + k) = unat d + unat k" by (simp add: unat_word_ariths)
  moreover have e: "q + k - p = d + k" by (simp add: d_def)
  ultimately show False
    using lt assms(1) unfolding e by (simp add: word_le_nat_alt word_less_nat_alt d_def)
qed

lemma frame_regions:
  "a - (tx + 14) < 20 \<longleftrightarrow> 14 \<le> unat (a - tx) \<and> unat (a - tx) < (34 :: nat)"
  "a - (tx + 34) < 8 \<longleftrightarrow> 34 \<le> unat (a - tx) \<and> unat (a - tx) < (42 :: nat)"
  "a - (tx + 42) < 300 \<longleftrightarrow> 42 \<le> unat (a - tx) \<and> unat (a - tx) < (342 :: nat)"
  "a - tx < 14 \<longleftrightarrow> unat (a - tx) < (14 :: nat)"
  for a tx :: u32
  using region [of 14 20 "a - tx"] region [of 34 8 "a - tx"] region [of 42 300 "a - tx"]
  by (simp_all add: diff_diff_add word_less_nat_alt)

section \<open>The contract of a header\<close>

text \<open>What every pair of a writing and a reading routine promises: they are inverse to each other on
  the headers that are \<open>ok\<close>, the writer stays within the header's bytes, the reader depends on
  nothing else.\<close>

locale header_codec =
  fixes put :: "'h \<Rightarrow> addr \<Rightarrow> mem \<Rightarrow> mem"
    and get :: "mem \<Rightarrow> addr \<Rightarrow> 'h"
    and size :: u32
    and ok :: "'h \<Rightarrow> bool"
  assumes put_get: "ok h \<Longrightarrow> get (put h a m) a = h"
    and get_put: "put (get m a) a m = m"
    and put_frame: "\<not> x - a < size \<Longrightarrow> put h a m x = m x"
    and get_local: "(\<And>x. x - a < size \<Longrightarrow> m' x = m x) \<Longrightarrow> get m' a = get m a"
begin

text \<open>Writing a header twice is writing it once; a header elsewhere is not disturbed; what was
  written can be told from the bytes.\<close>

lemma put_twice: "ok h \<Longrightarrow> put h a (put h a m) = put h a m"
  using get_put [of "put h a m" a] by (simp add: put_get)

lemma put_elsewhere:
  "(\<And>x. x - b < size \<Longrightarrow> \<not> x - a < size) \<Longrightarrow> get (put h a m) b = get m b"
  by (rule get_local) (simp add: put_frame)

lemma put_inject: "ok h \<Longrightarrow> ok h' \<Longrightarrow> put h a m = put h' a m' \<Longrightarrow> h = h'"
  by (metis put_get)

lemma put_over_changed: "ok h \<Longrightarrow> (\<And>x. x - a < size \<Longrightarrow> m' x = put h a m x) \<Longrightarrow> get m' a = h"
  using get_local [of a m' "put h a m"] by (simp add: put_get)

end

interpretation eth_header: header_codec proto_eth_mangle proto_eth_demangle 14
  "\<lambda>h. length (eth_src h) = 6 \<and> length (eth_dst h) = 6"
  by (rule header_codec.intro; (elim conjE)?)
    (erule (1) eth_put_get, rule eth_get_put, erule eth_frame, erule eth_local)

interpretation arp_header: header_codec proto_arp_mangle proto_arp_demangle 28
  "\<lambda>h. length (arp_sender_mac h) = 6 \<and> length (arp_target_mac h) = 6"
  by (rule header_codec.intro; (elim conjE)?)
    (erule (1) arp_put_get, rule arp_get_put, erule arp_frame, erule arp_local)

interpretation ip_header: header_codec ip_put_fields proto_ip_demangle 20 "\<lambda>_. True"
  by (rule header_codec.intro)
    (rule ip_put_get, rule ip_get_put, erule ip_frame, erule ip_local)

interpretation icmp_header: header_codec proto_icmp_mangle "proto_icmp_demangle old" 8 "\<lambda>_. True" for old
  by (rule header_codec.intro)
    (rule icmp_put_get, rule icmp_get_put, erule icmp_frame, erule icmp_local)

interpretation udp_header: header_codec proto_udp_mangle proto_udp_demangle 8 "\<lambda>_. True"
  by (rule header_codec.intro)
    (rule udp_put_get, rule udp_get_put, erule udp_frame, erule udp_local)

section \<open>Properties\<close>

text \<open>C8. The checksum routine computes the Internet checksum: the complement of the one's
  complement sum of the big endian 16 bit words of the block, an odd last byte padded with zero.
  Both of its loops terminate, the sum of up to 128 kbytes does not overflow its 32 bits, and the
  block together with its checksum sums to zero modulo 65535.\<close>

theorem proto_checksum_is_internet_checksum:
  assumes "n \<le> 131072"
  shows "unat (proto_checksum m b (of_nat n)) = 65535 - ones_fold (be_sum (bytes_at m b n)) \<and>
    (be_sum (bytes_at m b n) + unat (proto_checksum m b (of_nat n))) mod 65535 = 0"
proof -
  define s where "s = be_sum (bytes_at m b n)"
  have "(s + (65535 - ones_fold s)) mod 65535 = 0"
  proof (cases "s = 0")
    case False
    define q r where "q = (s - 1) div 65535" and "r = (s - 1) mod 65535"
    have "s = q * 65535 + r + 1" and "r < 65535"
      using False div_mult_mod_eq [of "s - 1" 65535] by (simp_all add: q_def r_def)
    moreover have "ones_fold s = r + 1" using False by (simp add: ones_fold_def r_def)
    ultimately have "s + (65535 - ones_fold s) = (q + 1) * 65535" by simp
    then show ?thesis by simp
  qed (simp add: ones_fold_def)
  then show ?thesis using proto_checksum_eq [OF assms, of m b] by (simp add: s_def)
qed

lemma proto_checksum_is_internet_checksum_witness:
  "unat (proto_checksum (\<lambda>a. if a < 3 then 0xFF else 0) 0 3) = 255"
proof -
  have "be_sum (bytes_at (\<lambda>a. if a < 3 then 0xFF else 0) 0 3) = 0x1FEFF"
    by (simp add: bytes_at_def upt_conv_Cons)
  then show ?thesis
    using proto_checksum_is_internet_checksum [of 3 "\<lambda>a. if a < 3 then 0xFF else 0" 0]
    by (simp add: ones_fold_def)
qed

text \<open>C29. An IPv4 header written with a checksum field of zero is a valid header: the receiver's
  checksum over the header length it announces is zero, reading the header gives the fields that
  were written and the checksum the routine also stored in the caller's structure, and nothing
  outside the twenty bytes changes. The announced length may include options already in memory;
  it has to cover the checksum field.\<close>

theorem ip_header_verifies:
  assumes "ip_header_checksum ih = 0" and "3 \<le> unat (ip_version_length ih AND 0xF)"
    and "proto_ip_mangle ih data m = (ih', m')"
  shows "proto_checksum m' data (shl (ucast (ip_version_length ih AND 0xF)) 2) = 0 \<and>
    proto_ip_demangle m' data = ih' \<and>
    ih' = ih\<lparr>ip_header_checksum := ip_header_checksum ih'\<rparr> \<and>
    (\<forall>a. \<not> a - data < 20 \<longrightarrow> m' a = m a)"
  using ip_mangle_checked [OF assms] .

lemma ip_header_verifies_witness:
  "proto_checksum (snd (proto_ip_mangle \<lparr>ip_version_length = 0x45, ip_dscp_ecn = 0,
      ip_total_length = 328, ip_identification = 0, ip_flags_frag_offset = 0x4000, ip_ttl = 64,
      ip_protocol = 17, ip_header_checksum = 0, ip_src_addr = 0, ip_dst_addr = 0xFFFFFFFF\<rparr>
      0x2007C00E (\<lambda>_. 0xAA))) 0x2007C00E 20 = 0"
proof -
  define ih where "ih = \<lparr>ip_version_length = 0x45, ip_dscp_ecn = 0,
      ip_total_length = 328, ip_identification = 0, ip_flags_frag_offset = 0x4000, ip_ttl = 64,
      ip_protocol = 17, ip_header_checksum = 0, ip_src_addr = 0, ip_dst_addr = 0xFFFFFFFF\<rparr>"
  have v: "ip_header_checksum ih = 0" "ip_version_length ih AND 0xF = 5" by (simp_all add: ih_def)
  have "shl (ucast (ip_version_length ih AND 0xF)) 2 = (20 :: u32)"
    by (simp add: v push_bit_eq_mult)
  moreover have "3 \<le> unat (ip_version_length ih AND 0xF)" by (simp add: v)
  ultimately have "proto_checksum (snd (proto_ip_mangle ih 0x2007C00E (\<lambda>_. 0xAA))) 0x2007C00E 20 = 0"
    using ip_header_verifies [OF v(1) _ prod.collapse [symmetric], of "0x2007C00E" "\<lambda>_. 0xAA"]
    by simp
  then show ?thesis by (simp only: ih_def)
qed



end
