(* ===== verification/Dhcp.thy ===== *)
theory Dhcp
  imports Protocols Registers Rand
begin

text \<open>
  The DHCP client of \<^verbatim>\<open>samples/dhcp/\<close>: the message structure and its byte order (\<^verbatim>\<open>dhcp.c\<close>,
  \<^verbatim>\<open>dhcp.h\<close>), the options and the messages of the exchange (\<^verbatim>\<open>main.c\<close>). A \<^verbatim>\<open>DhcpHead\<close> is in memory,
  as the code copies it whole; \<open>dh_at\<close> gives the address of a member. Locals whose address is
  taken are at an address the definitions get as an argument. An option pointer is
  \<open>options + k\<close> with \<open>k\<close> a natural number, because the array never reaches the end of the address
  space. The text printed on the console is left out.
\<close>

section \<open>The message\<close>

definition BOOTREQUEST :: u8 where "BOOTREQUEST = 1"
definition DHCP_SERVER_PORT :: u16 where "DHCP_SERVER_PORT = 67"
definition DHCP_CLIENT_PORT :: u16 where "DHCP_CLIENT_PORT = 68"
definition DHCPDISCOVER :: u32 where "DHCPDISCOVER = 1"
definition DHCPOFFER :: u8 where "DHCPOFFER = 2"
definition DHCPREQUEST :: u32 where "DHCPREQUEST = 3"
definition DHCPACK :: u8 where "DHCPACK = 5"
definition OPTION_DHCP_REQUESTED_IP :: u8 where "OPTION_DHCP_REQUESTED_IP = 50"
definition OPTION_DHCP_MESSAGE_TYPE :: u8 where "OPTION_DHCP_MESSAGE_TYPE = 53"
definition OPTION_DHCP_SERVER_IDENTIFIER :: u8 where "OPTION_DHCP_SERVER_IDENTIFIER = 54"
definition OPTION_END :: u8 where "OPTION_END = 0xFF"
definition DHCP_HLEN :: u32 where "DHCP_HLEN = 300"

definition DhcpHead :: layout where
  "DhcpHead =
    [Field ''op'' 1 1, Field ''htype'' 1 1, Field ''hlen'' 1 1, Field ''hops'' 1 1,
     Field ''xid'' 4 1, Field ''secs'' 2 1, Field ''flags'' 2 1, Field ''ciaddr'' 4 1,
     Field ''yiaddr'' 4 1, Field ''siaddr'' 4 1, Field ''giaddr'' 4 1, Field ''chaddr'' 1 16,
     Field ''sname'' 1 64, Field ''file'' 1 128, Field ''options'' 1 64]"

text \<open>\<^verbatim>\<open>sizeof(DhcpHead)\<close>; the last member ends there.\<close>

definition sizeof_DhcpHead :: u32 where "sizeof_DhcpHead = 300"

definition dh_at :: "addr \<Rightarrow> string \<Rightarrow> addr" where
  "dh_at dh nm = reg dh DhcpHead nm"

lemma dh_offsets [simp]:
  "dh_at dh ''op'' = dh" "dh_at dh ''htype'' = dh + 1" "dh_at dh ''hlen'' = dh + 2"
  "dh_at dh ''hops'' = dh + 3" "dh_at dh ''xid'' = dh + 4" "dh_at dh ''ciaddr'' = dh + 12"
  "dh_at dh ''yiaddr'' = dh + 16" "dh_at dh ''siaddr'' = dh + 20" "dh_at dh ''giaddr'' = dh + 24"
  "dh_at dh ''chaddr'' = dh + 28" "dh_at dh ''options'' = dh + 236"
  by (simp_all add: dh_at_def reg_def offset_of_def DhcpHead_def align_up_def Let_def)

definition dh_swap :: "addr \<Rightarrow> mem \<Rightarrow> mem" where
  "dh_swap dh m =
     (let m = st32 (dh_at dh ''ciaddr'') (ntohl (ld32 m (dh_at dh ''ciaddr''))) m;
          m = st32 (dh_at dh ''yiaddr'') (ntohl (ld32 m (dh_at dh ''yiaddr''))) m;
          m = st32 (dh_at dh ''siaddr'') (ntohl (ld32 m (dh_at dh ''siaddr''))) m;
          m = st32 (dh_at dh ''giaddr'') (ntohl (ld32 m (dh_at dh ''giaddr''))) m
      in m)"

definition proto_dhcp_demangle :: "addr \<Rightarrow> addr \<Rightarrow> mem \<Rightarrow> mem" where
  "proto_dhcp_demangle dh data m =
     (let m = snd (memcpy dh data sizeof_DhcpHead m)
      in dh_swap dh m)"

definition proto_dhcp_mangle :: "addr \<Rightarrow> addr \<Rightarrow> mem \<Rightarrow> mem" where
  "proto_dhcp_mangle dh data m =
     (let m = dh_swap dh m;
          m = snd (memcpy data dh sizeof_DhcpHead m)
      in dh_swap dh m)"

section \<open>Byte order\<close>

text \<open>Where the byte at offset \<open>k\<close> of a message comes from: the four addresses are reversed, every
  other member is copied as it is (the transaction number stays in the machine's order).\<close>

definition net_offset :: "u32 \<Rightarrow> u32" where
  "net_offset k = (if 12 \<le> k \<and> k < 28 then k XOR 3 else k)"

lemma st32_ntohl_ld32:
  "st32 a (ntohl (ld32 m a)) m = m(a := m (a + 3), a + 1 := m (a + 2), a + 2 := m (a + 1), a + 3 := m a)"
proof -
  have b: "ucast (ld32 m a) = m a" "ucast (shr (ld32 m a) 8) = m (a + 1)"
    "ucast (shr (ld32 m a) 16) = m (a + 2)" "ucast (shr (ld32 m a) 24) = m (a + 3)"
    by (rule bit_word_eqI, auto simp: ld32_def bit_simps dest: bit_imp_le_length)+
  have n: "ntohl (ld32 m a) = shl (ucast (m a)) 24 OR shl (ucast (m (a + 1))) 16 OR
      shl (ucast (m (a + 2))) 8 OR ucast (m (a + 3))"
    by (simp add: ntohl_def Let_def b)
  have "ucast (ntohl (ld32 m a)) = m (a + 3)" "ucast (shr (ntohl (ld32 m a)) 8) = m (a + 2)"
    "ucast (shr (ntohl (ld32 m a)) 16) = m (a + 1)" "ucast (shr (ntohl (ld32 m a)) 24) = m a"
    unfolding n by (rule bit_word_eqI, auto simp: bit_simps dest: bit_imp_le_length)+
  then show ?thesis by (simp add: st32_def)
qed

lemma dh_swap_eq:
  "dh_swap dh m =
     m(dh + 12 := m (15 + dh), 13 + dh := m (14 + dh), 14 + dh := m (13 + dh), 15 + dh := m (dh +
       12), dh + 16 := m (19 + dh), 17 + dh := m (18 + dh), 18 + dh := m (17 + dh), 19 + dh := m
       (dh + 16), dh + 20 := m (23 + dh), 21 + dh := m (22 + dh), 22 + dh := m (21 + dh), 23 + dh
       := m (dh + 20), dh + 24 := m (27 + dh), 25 + dh := m (26 + dh), 26 + dh := m (25 + dh), 27
       + dh := m (dh + 24))"
  by (simp add: dh_swap_def Let_def st32_ntohl_ld32)

lemma address_offsets:
  assumes "12 \<le> k" and "k < (28 :: u32)"
  shows "k \<in> {12, 13, 14, 15, 16, 17, 18, 19, 20, 21, 22, 23, 24, 25, 26, 27}"
proof -
  have "unat k \<in> {12..<28}" using assms by (simp add: word_le_nat_alt word_less_nat_alt)
  then have "unat k \<in> set [12..<28]" by (simp only: set_upt)
  then have "of_nat (unat k) \<in> set (map of_nat [12..<28] :: u32 list)" by (simp only: set_map) blast
  moreover have "map of_nat [12..<28] = ([12, 13, 14, 15, 16, 17, 18, 19, 20, 21, 22, 23, 24, 25, 26, 27] :: u32 list)"
    by (simp add: upt_conv_Cons)
  ultimately show ?thesis by simp
qed

lemma dh_swap_inside:
  "\<forall>k \<in> {12, 13, 14, 15, 16, 17, 18, 19, 20, 21, 22, 23, 24, 25, 26, 27}. dh_swap dh m (dh + k) = m (dh + (k XOR 3))"
  by (simp add: dh_swap_eq add.commute [of dh])

lemma dh_swap_apply: "dh_swap dh m (dh + k) = m (dh + net_offset k)"
proof (cases "12 \<le> k \<and> k < 28")
  case True
  then have "dh_swap dh m (dh + k) = m (dh + (k XOR 3))"
    using dh_swap_inside [of dh m] address_offsets [of k] by blast
  then show ?thesis using True by (simp add: net_offset_def)
next
  case False
  then have "dh_swap dh m (dh + k) = m (dh + k)"
    by (auto simp: dh_swap_eq)
  then show ?thesis by (simp only: net_offset_def False if_False)
qed

lemma net_offset_less [simp]: "k < 300 \<Longrightarrow> net_offset k < 300"
proof -
  assume k: "k < 300"
  have "k XOR 3 < 32" if "k < 28"
  proof -
    have "unat k mod 32 = unat k" using that by (simp add: word_less_nat_alt)
    then have "take_bit 5 k = k"
      using unat_and_mask [of k 5] by (simp add: take_bit_eq_mask word_unat_eq_iff)
    then have "take_bit 5 (k XOR 3) = k XOR 3" by simp
    then have "unat (k XOR 3) = unat (k XOR 3) mod 2 ^ 5"
      using unat_and_mask [of "k XOR 3" 5] by (simp add: take_bit_eq_mask)
    also have "\<dots> < 2 ^ 5" by simp
    finally show ?thesis by (simp add: word_less_nat_alt)
  qed
  moreover have "k XOR 3 < 32 \<Longrightarrow> k XOR 3 < 300" by (simp add: word_less_nat_alt)
  ultimately show ?thesis using k by (simp add: net_offset_def)
qed

lemma net_offset_twice [simp]: "net_offset (net_offset k) = k"
proof (cases "12 \<le> k \<and> k < 28")
  case True
  have "\<forall>k \<in> {12, 13, 14, 15, 16, 17, 18, 19, 20, 21, 22, 23, 24, 25, 26, 27}.
      net_offset (net_offset k) = k"
    by (simp add: net_offset_def)
  then show ?thesis using True address_offsets [of k] by blast
next
  case False
  then show ?thesis by (simp only: net_offset_def if_False)
qed

lemma dh_swap_outside: "\<not> a - dh < 300 \<Longrightarrow> dh_swap dh m a = m a"
  by (auto simp: dh_swap_eq)

lemma dh_swap_at: "dh_swap dh m a = m (dh + net_offset (a - dh))"
  using dh_swap_apply [of dh m "a - dh"] by simp


text \<open>Two messages are apart when neither starts inside the other.\<close>

definition dh_apart :: "addr \<Rightarrow> addr \<Rightarrow> bool" where
  "dh_apart p q \<longleftrightarrow> 300 \<le> p - q \<and> 300 \<le> q - p"

lemma dh_apart_sym: "dh_apart p q \<Longrightarrow> dh_apart q p"
  by (simp add: dh_apart_def)

lemma dh_apart_block: "dh_apart p q \<Longrightarrow> a - p < 300 \<Longrightarrow> \<not> a - q < 300"
proof
  assume ap: "dh_apart p q" and a: "a - p < 300" "a - q < 300"
  show False
  proof (cases "a - p \<le> a - q")
    case True
    then have "p - q \<le> a - q" using unat_sub [OF True] by (simp add: word_le_nat_alt)
    then show False using ap a unfolding dh_apart_def by (meson leD order_trans)
  next
    case False
    then have "a - q \<le> a - p" by simp
    then have "q - p \<le> a - p" using unat_sub [of "a - q" "a - p"] by (simp add: word_le_nat_alt)
    then show False using ap a unfolding dh_apart_def by (meson leD order_trans)
  qed
qed

lemma dh_copy:
  assumes "dh_apart d s"
  shows "snd (memcpy d s sizeof_DhcpHead m) a = (if a - d < 300 then m (s + (a - d)) else m a)"
proof -
  have "memcpy_apart d s sizeof_DhcpHead"
    using assms by (auto simp: memcpy_apart_def memcpy_ok_def dh_apart_def sizeof_DhcpHead_def)
  then show ?thesis by (simp add: memcpy.copy_apply sizeof_DhcpHead_def)
qed

lemma proto_dhcp_mangle_apply:
  assumes "dh_apart dh data"
  shows "proto_dhcp_mangle dh data m a =
    (if a - data < 300 then m (dh + net_offset (a - data)) else m a)"
proof (cases "a - dh < 300")
  case True
  let ?b = "dh + net_offset (a - dh)"
  have b: "?b - dh < 300" using True by simp
  have "\<not> a - data < 300" "\<not> ?b - data < 300"
    using dh_apart_block [OF assms True] dh_apart_block [OF assms b] by simp_all
  then show ?thesis
    using dh_apart_sym [OF assms]
    by (simp add: proto_dhcp_mangle_def Let_def dh_copy dh_swap_at [of dh _ a] dh_swap_apply)
next
  case False
  then show ?thesis
    using dh_apart_sym [OF assms]
    by (simp add: proto_dhcp_mangle_def Let_def dh_copy dh_swap_outside dh_swap_apply)
qed

lemma proto_dhcp_demangle_apply:
  assumes "dh_apart dh data"
  shows "proto_dhcp_demangle dh data m a =
    (if a - dh < 300 then m (data + net_offset (a - dh)) else m a)"
proof (cases "a - dh < 300")
  case True
  then show ?thesis
    using assms by (simp add: proto_dhcp_demangle_def Let_def dh_copy dh_swap_at)
next
  case False
  then show ?thesis
    using assms by (simp add: proto_dhcp_demangle_def Let_def dh_copy dh_swap_outside)
qed


section \<open>Options\<close>

definition dhcp_create_option_array ::
  "addr \<Rightarrow> u8 \<Rightarrow> u8 \<Rightarrow> addr \<Rightarrow> mem \<Rightarrow> addr \<times> mem" where
  "dhcp_create_option_array options code len val m =
     (let m = m(options := code);
          m = m(options + 1 := len);
          m = snd (memcpy (options + 2) val (ucast len) m)
      in (options + ucast len + 2, m))"

text \<open>\<open>val_at\<close> is where the argument \<^verbatim>\<open>val\<close> is kept, as its address is taken.\<close>

definition dhcp_create_option_simple ::
  "addr \<Rightarrow> addr \<Rightarrow> u8 \<Rightarrow> u8 \<Rightarrow> u32 \<Rightarrow> mem \<Rightarrow> addr \<times> mem" where
  "dhcp_create_option_simple val_at options code len val m =
     dhcp_create_option_array options code len val_at (st32 val_at val m)"

function dhcp_get_option_loop :: "addr \<Rightarrow> u8 \<Rightarrow> addr \<Rightarrow> u8 \<Rightarrow> nat \<Rightarrow> mem \<Rightarrow> u32 \<times> mem" where
  "dhcp_get_option_loop options code array max_size k m =
     (let current = options + of_nat k in
      if k \<le> 60 \<and> m current \<noteq> OPTION_END
      then if m current = code
           then (let len = (if m (current + 1) > max_size then max_size else m (current + 1))
                 in (ucast code, snd (memcpy array (current + 2) (ucast len) m)))
           else dhcp_get_option_loop options code array max_size (k + unat (m (current + 1)) + 2) m
      else (ucast OPTION_END, m))"
  by auto
termination by (relation "measure (\<lambda>(_, _, _, _, k, _). 61 - k)") auto

declare dhcp_get_option_loop.simps [simp del]

definition dhcp_get_option_array :: "addr \<Rightarrow> u8 \<Rightarrow> addr \<Rightarrow> u8 \<Rightarrow> mem \<Rightarrow> u32 \<times> mem" where
  "dhcp_get_option_array options code array max_size m =
     dhcp_get_option_loop options code array max_size 0 m"

definition dhcp_get_option_simple :: "addr \<Rightarrow> addr \<Rightarrow> u8 \<Rightarrow> mem \<Rightarrow> u32 \<times> mem" where
  "dhcp_get_option_simple val_at options code m =
     (let m = st32 val_at 0 m;
          (r, m) = dhcp_get_option_array options code val_at 4 m
      in if r = ucast OPTION_END then (ucast OPTION_END, m) else (ld32 m val_at, m))"

section \<open>The messages of the client\<close>

text \<open>\<^verbatim>\<open>dhcp_send\<close> up to the emission of the buffer: \<open>tx\<close> is the transmit buffer it gets,
  \<open>eth_src_garbage\<close> the source address its uninitialised \<^verbatim>\<open>EthHead\<close> happens to hold, which
  \<^verbatim>\<open>simple_net_emit_buffer\<close> overwrites with the address of the interface.\<close>

definition IP_OFFSET :: u32 where "IP_OFFSET = PROTO_MAC_HLEN"
definition UDP_OFFSET :: u32 where "UDP_OFFSET = IP_OFFSET + PROTO_IP_HLEN"
definition DHCP_OFFSET :: u32 where "DHCP_OFFSET = UDP_OFFSET + PROTO_UDP_HLEN"

definition dhcp_send ::
  "addr \<Rightarrow> u8 list \<Rightarrow> addr \<Rightarrow> u32 \<Rightarrow> u32 \<Rightarrow> u8 list \<Rightarrow> mem \<Rightarrow> mem" where
  "dhcp_send tx eth_src_garbage dh src_ip dst_ip dst_mac m =
     (let eth = \<lparr>eth_src = eth_src_garbage, eth_dst = dst_mac, eth_type = PROTO_IP\<rparr>;
          ip = \<lparr>ip_version_length = 0x45, ip_dscp_ecn = 0,
                ip_total_length = ucast (PROTO_IP_HLEN + PROTO_UDP_HLEN + DHCP_HLEN),
                ip_identification = 0, ip_flags_frag_offset = 0x4000, ip_ttl = 64,
                ip_protocol = PROTO_UDP, ip_header_checksum = 0,
                ip_src_addr = src_ip, ip_dst_addr = dst_ip\<rparr>;
          udp = \<lparr>udp_src_port = DHCP_CLIENT_PORT, udp_dst_port = DHCP_SERVER_PORT,
                 udp_len = ucast (DHCP_HLEN + PROTO_UDP_HLEN), udp_checksum = 0\<rparr>;
          m = proto_eth_mangle eth tx m;
          (ip, m) = proto_ip_mangle ip (tx + IP_OFFSET) m;
          m = proto_udp_mangle udp (tx + UDP_OFFSET) m;
          m = proto_dhcp_mangle dh (tx + DHCP_OFFSET) m
      in m)"

definition bmac :: "u8 list" where "bmac = [0xFF, 0xFF, 0xFF, 0xFF, 0xFF, 0xFF]"

text \<open>The messages built on the stack at \<open>dh\<close>; \<open>mac\<close> is the address \<^verbatim>\<open>simple_net_get_mac\<close>
  returns, \<open>seed\<close> the state of \<^verbatim>\<open>rand\<close>.\<close>

definition discover_message :: "addr \<Rightarrow> addr \<Rightarrow> addr \<Rightarrow> u32 \<Rightarrow> mem \<Rightarrow> u32 \<times> mem" where
  "discover_message dh val_at mac seed m =
     (let m = snd (memset dh 0 sizeof_DhcpHead m);
          m = m(dh_at dh ''op'' := BOOTREQUEST);
          m = m(dh_at dh ''htype'' := 1);
          m = m(dh_at dh ''hlen'' := 6);
          m = m(dh_at dh ''hops'' := 0);
          (r, seed) = rand seed;
          m = st32 (dh_at dh ''xid'') r m;
          m = snd (memcpy (dh_at dh ''chaddr'') mac 6 m);
          options = dh_at dh ''options'';
          m = m(options := 99, options + 1 := 130, options + 2 := 83, options + 3 := 99);
          (op, m) = dhcp_create_option_simple val_at (options + 4) OPTION_DHCP_MESSAGE_TYPE 1 DHCPDISCOVER m;
          m = m(op := OPTION_END)
      in (seed, m))"

definition dhcp_discover ::
  "addr \<Rightarrow> u8 list \<Rightarrow> addr \<Rightarrow> addr \<Rightarrow> addr \<Rightarrow> u32 \<Rightarrow> mem \<Rightarrow> u32 \<times> mem" where
  "dhcp_discover tx eth_src_garbage dh val_at mac seed m =
     (let (seed, m) = discover_message dh val_at mac seed m
      in (seed, dhcp_send tx eth_src_garbage dh 0 0xFFFFFFFF bmac m))"

definition request_message ::
  "addr \<Rightarrow> addr \<Rightarrow> addr \<Rightarrow> u32 \<Rightarrow> u32 \<Rightarrow> u32 \<Rightarrow> bool \<Rightarrow> mem \<Rightarrow> mem" where
  "request_message dh val_at mac xid requested_ip server_ip offer_answer m =
     (let m = snd (memset dh 0 sizeof_DhcpHead m);
          m = m(dh_at dh ''op'' := BOOTREQUEST);
          m = m(dh_at dh ''htype'' := 1);
          m = m(dh_at dh ''hlen'' := 6);
          m = m(dh_at dh ''hops'' := 0);
          m = st32 (dh_at dh ''xid'') xid m;
          m = (if offer_answer then st32 (dh_at dh ''ciaddr'') requested_ip m else m);
          m = st32 (dh_at dh ''siaddr'') server_ip m;
          m = snd (memcpy (dh_at dh ''chaddr'') mac 6 m);
          options = dh_at dh ''options'';
          m = m(options := 99, options + 1 := 130, options + 2 := 83, options + 3 := 99);
          (op, m) = dhcp_create_option_simple val_at (options + 4) OPTION_DHCP_MESSAGE_TYPE 1 DHCPREQUEST m;
          (op, m) = dhcp_create_option_simple val_at op OPTION_DHCP_REQUESTED_IP 4 (ntohl requested_ip) m;
          (op, m) = dhcp_create_option_simple val_at op OPTION_DHCP_SERVER_IDENTIFIER 4
             (ntohl (ld32 m (dh_at dh ''siaddr''))) m;
          m = m(op := OPTION_END)
      in m)"

definition dhcp_send_request ::
  "addr \<Rightarrow> u8 list \<Rightarrow> addr \<Rightarrow> addr \<Rightarrow> addr \<Rightarrow> u32 \<Rightarrow> u32 \<Rightarrow> u32 \<Rightarrow> bool \<Rightarrow> mem \<Rightarrow> mem" where
  "dhcp_send_request tx eth_src_garbage dh val_at mac xid requested_ip server_ip offer_answer m =
     (let m = request_message dh val_at mac xid requested_ip server_ip offer_answer m
      in dhcp_send tx eth_src_garbage dh requested_ip 0xFFFFFFFF bmac m)"

section \<open>What is received\<close>

text \<open>The message received is at \<open>p\<close>. \<open>dhcp_request\<close> answers an offer, \<open>dhcp_process_packet\<close> looks for
  the message type; an acknowledge is only printed.\<close>

datatype dhcp_reaction = No_reaction | Request_sent | Ack_printed

definition dhcp_request ::
  "addr \<Rightarrow> addr \<Rightarrow> u8 list \<Rightarrow> addr \<Rightarrow> addr \<Rightarrow> addr \<Rightarrow> mem \<Rightarrow> mem" where
  "dhcp_request p tx eth_src_garbage dh val_at mac m =
     (let (server_ip, m) = dhcp_get_option_simple val_at (dh_at p ''options'' + 4)
            OPTION_DHCP_SERVER_IDENTIFIER m
      in dhcp_send_request tx eth_src_garbage dh val_at mac (ld32 m (dh_at p ''xid''))
           (ld32 m (dh_at p ''yiaddr'')) (ntohl server_ip) True m)"

function dhcp_process_loop ::
  "addr \<Rightarrow> (mem \<Rightarrow> mem) \<Rightarrow> nat \<Rightarrow> mem \<Rightarrow> dhcp_reaction \<times> mem" where
  "dhcp_process_loop options answer_offer k m =
     (let current = options + 4 + of_nat k in
      if k \<le> 60 \<and> m current \<noteq> OPTION_END
      then if m current = OPTION_DHCP_MESSAGE_TYPE \<and> m (current + 2) = DHCPOFFER
           then (Request_sent, answer_offer m)
           else if m current = OPTION_DHCP_MESSAGE_TYPE \<and> m (current + 2) = DHCPACK
           then (Ack_printed, m)
           else dhcp_process_loop options answer_offer (k + unat (m (current + 1)) + 2) m
      else (No_reaction, m))"
  by auto
termination by (relation "measure (\<lambda>(_, _, k, _). 61 - k)") auto

declare dhcp_process_loop.simps [simp del]

definition dhcp_process_packet ::
  "addr \<Rightarrow> addr \<Rightarrow> u8 list \<Rightarrow> addr \<Rightarrow> addr \<Rightarrow> addr \<Rightarrow> mem \<Rightarrow> dhcp_reaction \<times> mem" where
  "dhcp_process_packet p tx eth_src_garbage dh val_at mac m =
     dhcp_process_loop (dh_at p ''options'') (dhcp_request p tx eth_src_garbage dh val_at mac) 0 m"

definition packet_in ::
  "addr \<Rightarrow> addr \<Rightarrow> addr \<Rightarrow> u8 list \<Rightarrow> addr \<Rightarrow> addr \<Rightarrow> addr \<Rightarrow> mem \<Rightarrow> dhcp_reaction \<times> mem" where
  "packet_in data p tx eth_src_garbage dh val_at mac m =
     (let eth = proto_eth_demangle m data in
      if \<not> MAC_ADDR_EQUAL (eth_dst eth) bmac \<and> \<not> MAC_ADDR_EQUAL (eth_dst eth) (bytes_at m mac 6)
      then (No_reaction, m)
      else if eth_type eth \<noteq> PROTO_IP then (No_reaction, m)
      else let ip = proto_ip_demangle m (data + IP_OFFSET) in
      if ip_protocol ip \<noteq> PROTO_UDP then (No_reaction, m)
      else let udp = proto_udp_demangle m (data + UDP_OFFSET) in
      if udp_dst_port udp \<noteq> DHCP_CLIENT_PORT \<or> udp_src_port udp \<noteq> DHCP_SERVER_PORT
      then (No_reaction, m)
      else let m = proto_dhcp_demangle p (data + DHCP_OFFSET) m
      in dhcp_process_packet p tx eth_src_garbage dh val_at mac m)"

section \<open>Looking an option up\<close>

text \<open>The bytes of a list of options, and their values as the code's \<^verbatim>\<open>ntohl\<close> reads them.\<close>

fun option_bytes :: "(u8 \<times> u8 list) list \<Rightarrow> u8 list" where
  "option_bytes [] = []"
| "option_bytes ((c, v) # os) = c # of_nat (length v) # v @ option_bytes os"

definition option_ok :: "u8 \<times> u8 list \<Rightarrow> bool" where
  "option_ok op1 = (fst op1 \<noteq> OPTION_END \<and> length (snd op1) < 256)"

lemma bytes_at_Cons:
  "bytes_at m a (Suc (length bs)) = b # bs \<longleftrightarrow> m a = b \<and> bytes_at m (a + 1) (length bs) = bs"
  by (simp add: bytes_at_Suc)

lemma bytes_at_append:
  "bytes_at m a (length xs + n) = xs @ ys \<longleftrightarrow>
     bytes_at m a (length xs) = xs \<and> bytes_at m (a + of_nat (length xs)) n = ys"
  by (simp add: bytes_at_add append_eq_append_conv)

lemma option_loop_finds:
  assumes "bytes_at m (options + of_nat k) (length (option_bytes os) + 1) = option_bytes os @ [OPTION_END]"
    and "k + length (option_bytes os) \<le> 60" and "\<forall>op1 \<in> set os. option_ok op1"
  shows "case map_of os code of
      None \<Rightarrow> dhcp_get_option_loop options code array max_size k m = (ucast OPTION_END, m)
    | Some v \<Rightarrow> (\<exists>j. j + 2 + length v \<le> k + length (option_bytes os) \<and>
        bytes_at m (options + of_nat j + 2) (length v) = v \<and>
        dhcp_get_option_loop options code array max_size k m =
          (ucast code, snd (memcpy array (options + of_nat j + 2)
             (ucast (if of_nat (length v) > max_size then max_size else of_nat (length v))) m)))"
  using assms
proof (induction os arbitrary: k)
  case Nil
  then show ?case
    by (simp add: dhcp_get_option_loop.simps [of options code array max_size k m] bytes_at_Suc)
next
  case (Cons op1 os)
  obtain c v where op1: "op1 = (c, v)" by (cases op1)
  have c: "c \<noteq> OPTION_END" and v: "length v < 256"
    using Cons.prems(3) by (auto simp: option_ok_def op1)
  let ?k = "k + length v + 2"
  have len: "unat (of_nat (length v) :: u8) = length v" using v by (simp add: unat_of_nat)
  have m: "m (options + of_nat k) = c" "m (options + of_nat k + 1) = of_nat (length v)"
    and val: "bytes_at m (options + of_nat k + 2) (length v) = v"
    and rest: "bytes_at m (options + of_nat ?k) (length (option_bytes os) + 1) = option_bytes os @ [OPTION_END]"
    using Cons.prems(1) bytes_at_append [of m "options + of_nat k + 2" v "length (option_bytes os) + 1"
        "option_bytes os @ [OPTION_END]"]
    by (simp_all add: op1 bytes_at_Suc algebra_simps)
  show ?case
  proof (cases "c = code")
    case True
    then show ?thesis
      using Cons.prems(2) m val c
      by (auto simp: op1 dhcp_get_option_loop.simps [of options code array max_size k m] intro!: exI [of _ k])
  next
    case False
    have step: "dhcp_get_option_loop options code array max_size k m =
        dhcp_get_option_loop options code array max_size ?k m"
      using False Cons.prems(2) m c len
      by (simp add: op1 dhcp_get_option_loop.simps [of options code array max_size k m])
    show ?thesis
      using Cons.IH [OF rest] Cons.prems(2,3) False
      by (auto simp: op1 step add.assoc split: option.splits)
  qed
qed


text \<open>The four bytes of a variable on the stack are outside the options.\<close>

definition val_apart :: "addr \<Rightarrow> addr \<Rightarrow> nat \<Rightarrow> bool" where
  "val_apart val_at block n \<longleftrightarrow> of_nat n \<le> val_at - block \<and> 4 \<le> block - val_at \<and> n < 2 ^ 32"

lemma unat_neg: "x \<noteq> 0 \<Longrightarrow> unat (- x :: u32) = 2 ^ 32 - unat x"
  using unat_u32 [of x] unat_sub_if' [of 0 x] by (simp add: unat_eq_0 [symmetric])

lemma val_apart_dist:
  assumes "val_apart val_at block n" and "i < n"
  shows "4 \<le> unat (block + of_nat i - val_at)" and "n - i \<le> unat (val_at - (block + of_nat i))"
proof -
  define d where "d = unat (val_at - block)"
  have n: "n \<le> d" "unat (of_nat i :: u32) = i"
    using assms by (auto simp: d_def val_apart_def word_le_nat_alt unat_of_nat)
  then have le: "(of_nat i :: u32) \<le> val_at - block"
    using assms(2) by (simp add: word_le_nat_alt d_def)
  have r: "val_at - (block + of_nat i) = (val_at - block) - of_nat i" by (simp add: algebra_simps)
  have u: "unat (val_at - (block + of_nat i)) = d - i"
    unfolding r using unat_sub [OF le] n by (simp add: d_def)
  then show "n - i \<le> unat (val_at - (block + of_nat i))" using n by simp
  have ne: "val_at - block \<noteq> 0" using n assms(2) by (auto simp: d_def)
  have "unat (block - val_at) = 2 ^ 32 - d"
    using ne unat_neg [of "val_at - block"] by (simp add: d_def)
  then have "d + 4 \<le> 2 ^ 32"
    using assms(1) unat_u32 [of "val_at - block"] by (auto simp: val_apart_def word_le_nat_alt d_def)
  moreover have "unat (block + of_nat i - val_at) = 2 ^ 32 - (d - i)"
  proof -
    have "val_at - (block + of_nat i) \<noteq> 0" using u n assms(2) by auto
    then have "unat (- (val_at - (block + of_nat i))) = 2 ^ 32 - (d - i)"
      unfolding u [symmetric] by (rule unat_neg)
    then show ?thesis by (simp only: minus_diff_eq)
  qed
  ultimately show "4 \<le> unat (block + of_nat i - val_at)" by simp
qed

lemma st32_apart:
  "val_apart val_at block n \<Longrightarrow> i < n \<Longrightarrow> st32 val_at v m (block + of_nat i) = m (block + of_nat i)"
  using val_apart_dist [of val_at block n i] by (simp add: st32_other)

lemma bytes_st32_apart:
  "val_apart val_at block n \<Longrightarrow> k \<le> n \<Longrightarrow> bytes_at (st32 val_at v m) block k = bytes_at m block k"
  by (rule bytes_at_cong) (simp add: st32_apart)

lemma ntohl_ld32:
  "ntohl (ld32 m a) = shl (ucast (m a)) 24 OR shl (ucast (m (a + 1))) 16 OR
     shl (ucast (m (a + 2))) 8 OR ucast (m (a + 3))"
proof -
  have b: "ucast (ld32 m a) = m a" "ucast (shr (ld32 m a) 8) = m (a + 1)"
    "ucast (shr (ld32 m a) 16) = m (a + 2)" "ucast (shr (ld32 m a) 24) = m (a + 3)"
    by (rule bit_word_eqI, auto simp: ld32_def bit_simps dest: bit_imp_le_length)+
  show ?thesis by (simp add: ntohl_def Let_def b)
qed

text \<open>What writing an option leaves in a message.\<close>

lemma val_apart_word:
  assumes "val_apart val_at dh 300" and "c < 300"
  shows "4 \<le> dh + c - val_at"
  using val_apart_dist(1) [OF assms(1), of "unat c"] assms(2)
  by (simp add: word_le_nat_alt word_less_nat_alt)

lemma st32_message:
  "val_apart val_at dh 300 \<Longrightarrow> c < 300 \<Longrightarrow> st32 val_at v m (dh + c) = m (dh + c)"
  using val_apart_word [of val_at dh c] by (simp add: st32_other word_le_nat_alt)

lemma create_option_simple:
  assumes apart: "val_apart val_at dh 300" and i: "i < 290" and len: "len \<le> 4"
    and al: "len = 4 \<or> \<not> IS_WORD_ALIGNED (dh + i + 2)"
    and r: "(op, m') = dhcp_create_option_simple val_at (dh + i) code len v m"
  shows "op = dh + i + ucast len + 2"
    and "c < 300 \<Longrightarrow> m' (dh + c) =
      (if c - (i + 2) < ucast len then st32 val_at v m (val_at + (c - (i + 2)))
       else if c = i + 1 then len else if c = i then code else m (dh + c))"
proof -
  let ?m = "(st32 val_at v m)(dh + i := code, dh + i + 1 := len)"
  have m': "m' = snd (memcpy (dh + i + 2) val_at (ucast len) ?m)"
    using r by (simp add: dhcp_create_option_simple_def dhcp_create_option_array_def Let_def)
  have un: "unat (i + 2) = unat i + 2" "unat (i + 1) = unat i + 1"
    using i by (simp_all add: unat_word_ariths word_less_nat_alt)
  have b: "i < 300" "i + 1 < 300" "i + 2 < 300"
    using i un by (simp_all add: word_less_nat_alt)
  have le: "unat len \<le> 4" using len by (simp add: word_le_nat_alt)
  have l: "ucast len \<le> (4 :: u32)" using le by (simp add: word_le_nat_alt unat_ucast_mod)
  note far = val_apart_word [OF apart]
  have ap: "memcpy_apart (dh + i + 2) val_at (ucast len)"
  proof -
    have "ucast len \<le> dh + i + 2 - val_at"
      using far [OF b(3)] l by (simp add: add.assoc)
    moreover have "memcpy_ok (dh + i + 2) val_at (ucast len)"
      using al l by (auto simp: memcpy_ok_def word_le_nat_alt)
    ultimately show ?thesis by (simp add: memcpy_apart_def)
  qed
  show "op = dh + i + ucast len + 2"
    using r by (simp add: dhcp_create_option_simple_def dhcp_create_option_array_def Let_def)
  show "m' (dh + c) =
      (if c - (i + 2) < ucast len then st32 val_at v m (val_at + (c - (i + 2)))
       else if c = i + 1 then len else if c = i then code else m (dh + c))" if c: "c < 300"
  proof -
    have diff: "dh + c - (dh + i + 2) = c - (i + 2)" by (simp add: algebra_simps)
    have at: "m' (dh + c) = (if c - (i + 2) < ucast len then ?m (val_at + (c - (i + 2))) else ?m (dh + c))"
      unfolding m' memcpy.copy_apply [OF ap] diff ..
    have out: "?m (dh + c) = (if c = i + 1 then len else if c = i then code else m (dh + c))"
      using st32_message [OF apart c] by (simp add: add.assoc)
    show ?thesis
    proof (cases "c - (i + 2) < ucast len")
    case True
    define k where "k = c - (i + 2)"
    have k: "k < 4" using True l unfolding k_def by (rule less_le_trans)
    have "val_at + k \<noteq> dh + j" if "j < 300" for j
    proof
      assume "val_at + k = dh + j"
      then have "dh + j - val_at = k" by (simp add: algebra_simps)
      then show False using far [OF that] k by simp
    qed
    from this [OF b(1)] this [OF b(2)] have "?m (val_at + k) = st32 val_at v m (val_at + k)"
      by (simp add: add.assoc)
    then show ?thesis using True by (simp only: at k_def if_True)
  next
    case False
    then show ?thesis by (simp only: at out if_False)
  qed
  qed
qed

definition be_bytes :: "u32 \<Rightarrow> u8 list" where
  "be_bytes v = [ucast (shr v 24), ucast (shr v 16), ucast (shr v 8), ucast v]"

lemma ntohl_bytes:
  "ucast (ntohl v) = (ucast (shr v 24) :: u8)" "ucast (shr (ntohl v) 8) = (ucast (shr v 16) :: u8)"
  "ucast (shr (ntohl v) 16) = (ucast (shr v 8) :: u8)" "ucast (shr (ntohl v) 24) = (ucast v :: u8)"
  unfolding ntohl_def Let_def
  by (rule bit_word_eqI, auto simp: bit_simps dest: bit_imp_le_length)+

lemma aligned_242: "IS_WORD_ALIGNED dh \<Longrightarrow> \<not> IS_WORD_ALIGNED (dh + 242)"
proof
  assume "IS_WORD_ALIGNED dh" and "IS_WORD_ALIGNED (dh + 242)"
  then have "unat dh mod 4 = 0" and u: "unat (dh + 242) mod 4 = 0"
    using unat_and3 [of dh] unat_and3 [of "dh + 242"] by (simp_all add: IS_WORD_ALIGNED_def)
  moreover have "unat (dh + 242) mod 4 = (unat dh + 242) mod 4"
    by (simp add: unat_word_ariths mod_mod_cancel)
  ultimately show False by presburger
qed

text \<open>A frame of 342 bytes at \<open>tx\<close> and the message at \<open>dh\<close> do not overlap.\<close>

definition frame_apart :: "addr \<Rightarrow> addr \<Rightarrow> bool" where
  "frame_apart tx dh \<longleftrightarrow> 342 \<le> dh - tx \<and> 300 \<le> tx - dh"

lemma frame_apart_dh:
  assumes "frame_apart tx dh"
  shows "dh_apart dh (tx + 42)" and "k < 300 \<Longrightarrow> 342 \<le> unat (dh + k - tx)"
proof -
  define d where "d = dh - tx"
  have "d \<noteq> 0" using assms by (auto simp: d_def frame_apart_def)
  then have "unat (tx - dh) = 2 ^ 32 - unat d" using unat_neg [of d] by (simp add: d_def)
  then have d: "342 \<le> unat d" "unat d + 300 \<le> 2 ^ 32"
    using assms unat_u32 [of d] by (auto simp: frame_apart_def word_le_nat_alt d_def)
  have "unat (d - 42) = unat d - 42" using d by (simp add: unat_sub_if')
  moreover have "d - 42 \<noteq> 0" using calculation d by auto
  ultimately have "300 \<le> unat (d - 42)" "300 \<le> unat (- (d - 42))"
    using d unat_neg [of "d - 42"] by simp_all
  moreover have "d - 42 = dh - (tx + 42)" "- (d - 42) = tx + 42 - dh"
    by (simp_all add: d_def algebra_simps)
  ultimately show "dh_apart dh (tx + 42)"
    by (simp add: dh_apart_def word_le_nat_alt)
  show "342 \<le> unat (dh + k - tx)" if "k < 300"
  proof -
    have e: "dh + k - tx = d + k" by (simp add: d_def)
    have "unat (d + k) = unat d + unat k"
      using d that by (simp add: unat_word_ariths word_less_nat_alt)
    then show ?thesis unfolding e using d by simp
  qed
qed

section \<open>The frame of a message\<close>

lemma dhcp_send_bytes:
  assumes apart: "frame_apart tx dh" and "length mac = 6" and "length g = 6"
    and m': "m' = dhcp_send tx g dh src dst mac m"
  shows "proto_eth_demangle m' tx = \<lparr>eth_src = g, eth_dst = mac, eth_type = PROTO_IP\<rparr> \<and>
    proto_checksum m' (tx + 14) 20 = 0 \<and>
    (let ip = proto_ip_demangle m' (tx + 14)
     in ip_protocol ip = PROTO_UDP \<and> ip_total_length ip = 328 \<and> ip_src_addr ip = src \<and>
        ip_dst_addr ip = dst) \<and>
    proto_udp_demangle m' (tx + 34) =
      \<lparr>udp_src_port = DHCP_CLIENT_PORT, udp_dst_port = DHCP_SERVER_PORT, udp_len = 308, udp_checksum = 0\<rparr> \<and>
    (\<forall>k < 300. m' (tx + 42 + k) = m (dh + net_offset k)) \<and>
    (\<forall>a. \<not> a - tx < 342 \<longrightarrow> m' a = m a)"
proof -
  define eth where "eth = \<lparr>eth_src = g, eth_dst = mac, eth_type = PROTO_IP\<rparr>"
  define ip where "ip = \<lparr>ip_version_length = 0x45, ip_dscp_ecn = 0, ip_total_length = 328,
      ip_identification = 0, ip_flags_frag_offset = 0x4000, ip_ttl = 64, ip_protocol = PROTO_UDP,
      ip_header_checksum = 0, ip_src_addr = src, ip_dst_addr = dst\<rparr>"
  define udp where "udp = \<lparr>udp_src_port = DHCP_CLIENT_PORT, udp_dst_port = DHCP_SERVER_PORT,
      udp_len = 308, udp_checksum = 0\<rparr>"
  define m1 where "m1 = proto_eth_mangle eth tx m"
  obtain ip' m2 where c2: "proto_ip_mangle ip (tx + 14) m1 = (ip', m2)" by (metis surj_pair)
  define m3 where "m3 = proto_udp_mangle udp (tx + 34) m2"
  have m'3: "m' = proto_dhcp_mangle dh (tx + 42) m3"
    using c2 by (simp add: m' dhcp_send_def Let_def m3_def m1_def eth_def ip_def udp_def
        IP_OFFSET_def UDP_OFFSET_def DHCP_OFFSET_def PROTO_MAC_HLEN_def PROTO_IP_HLEN_def
        PROTO_UDP_HLEN_def DHCP_HLEN_def)
  have ipz: "ip_header_checksum ip = 0" "3 \<le> unat (ip_version_length ip AND 0xF)"
    and hl: "shl (ucast (ip_version_length ip AND 0xF)) 2 = (20 :: u32)"
    by (simp_all add: ip_def push_bit_eq_mult)
  note checked = ip_mangle_checked [OF ipz c2, unfolded hl]
  note apply4 = proto_dhcp_mangle_apply [OF frame_apart_dh(1) [OF apart], of m3, folded m'3]
  have f4: "m' a = m3 a" if "\<not> a - (tx + 42) < 300" for a using that by (simp add: apply4)
  have f3: "m3 a = m2 a" if "\<not> a - (tx + 34) < 8" for a using that by (simp add: m3_def udp_header.put_frame)
  have f2: "m2 a = m1 a" if "\<not> a - (tx + 14) < 20" for a using that checked by simp
  have f1: "m1 a = m a" if "\<not> a - tx < 14" for a using that by (simp add: m1_def eth_header.put_frame)
  have "proto_eth_demangle m' tx = proto_eth_demangle m1 tx"
    by (rule eth_header.get_local) (simp add: f4 f3 f2 frame_regions)
  then have e: "proto_eth_demangle m' tx = eth"
    using assms(2,3) by (simp add: m1_def eth_header.put_get eth_def)
  have same: "m' a = m2 a" if "a - (tx + 14) < 20" for a
    using that by (simp add: f4 f3 frame_regions)
  have i: "proto_ip_demangle m' (tx + 14) = ip'"
    using ip_header.get_local [of "tx + 14" m' m2] same checked by simp
  have c: "proto_checksum m' (tx + 14) 20 = 0"
    using checksum_local [of 20 "tx + 14" m' m2] same checked by simp
  have "proto_udp_demangle m' (tx + 34) = proto_udp_demangle m3 (tx + 34)"
    by (rule udp_header.get_local) (simp add: f4 frame_regions)
  then have u: "proto_udp_demangle m' (tx + 34) = udp" by (simp add: m3_def udp_header.put_get)
  have "m' (tx + 42 + k) = m (dh + net_offset k)" if "k < 300" for k
  proof -
    have "342 \<le> unat (dh + net_offset k - tx)"
      using frame_apart_dh(2) [OF apart, of "net_offset k"] that by simp
    then have "m3 (dh + net_offset k) = m (dh + net_offset k)"
      by (simp add: f3 f2 f1 frame_regions)
    then show ?thesis using that by (simp add: apply4)
  qed
  moreover have "m' a = m a" if "\<not> a - tx < 342" for a
  proof -
    have "342 \<le> unat (a - tx)" using that by (simp add: word_less_nat_alt)
    then show ?thesis using f3 [of a] f2 [of a] f1 [of a] by (simp add: apply4 frame_regions)
  qed
  moreover obtain x where "ip' = ip\<lparr>ip_header_checksum := x\<rparr>" using checked by metis
  ultimately show ?thesis
    by (simp add: e i c u Let_def eth_def udp_def) (simp add: ip_def)
qed

section \<open>Properties\<close>

text \<open>A DHCP message put on the wire and read back is the message that was sent: the network
  form keeps every byte but the four addresses, whose bytes are reversed; the sender's structure
  is restored and nothing else changes.\<close>

theorem dhcp_message_roundtrip:
  assumes "dh_apart dh data" and "dh_apart dh' data" and "dh_apart dh dh'"
    and "m' = proto_dhcp_mangle dh data m"
  shows "(\<forall>a. m' a = (if a - data < 300 then m (dh + net_offset (a - data)) else m a)) \<and>
    (\<forall>k < 300. proto_dhcp_demangle dh' data m' (dh' + k) = m (dh + k))"
  using assms
  by (auto simp: proto_dhcp_mangle_apply proto_dhcp_demangle_apply)

lemma dhcp_message_roundtrip_witness:
  "proto_dhcp_demangle 0x10001000 0x2007C02A
     (proto_dhcp_mangle 0x10000800 0x2007C02A (\<lambda>a. ucast a)) (0x10001000 + 17) = 17"
proof -
  have "dh_apart 0x10000800 0x2007C02A" "dh_apart 0x10001000 0x2007C02A" "dh_apart 0x10000800 0x10001000"
    by (simp_all add: dh_apart_def)
  from conjunct2 [OF dhcp_message_roundtrip [OF this refl, of "\<lambda>a. ucast a"]]
  have "proto_dhcp_demangle 0x10001000 0x2007C02A
     (proto_dhcp_mangle 0x10000800 0x2007C02A (\<lambda>a. ucast a)) (0x10001000 + 17) = ucast (0x10000800 + 17 :: u32)"
    by (rule allE [of _ 17]) simp
  then show ?thesis by simp
qed

text \<open>C34. Looking up an option finds it: among well formed options that end within the 61 bytes the
  search covers, the first one with the code is found and its four bytes are the address that
  \<^verbatim>\<open>ntohl\<close> of the result gives; a code that is absent gives \<^verbatim>\<open>OPTION_END\<close>. The search always
  ends.\<close>

theorem dhcp_option_lookup:
  assumes "bytes_at m options (length (option_bytes os) + 1) = option_bytes os @ [OPTION_END]"
    and "length (option_bytes os) \<le> 60" and "\<forall>op1 \<in> set os. option_ok op1"
    and "val_apart val_at options 61" and "code \<noteq> OPTION_END"
  shows "(map_of os code = None \<longrightarrow>
      fst (dhcp_get_option_simple val_at options code m) = ucast OPTION_END) \<and>
    (\<forall>b0 b1 b2 b3. map_of os code = Some [b0, b1, b2, b3] \<longrightarrow>
      ntohl (fst (dhcp_get_option_simple val_at options code m)) =
        shl (ucast b0) 24 OR shl (ucast b1) 16 OR shl (ucast b2) 8 OR ucast b3)"
proof -
  let ?m = "st32 val_at 0 m"
  have bytes: "bytes_at ?m (options + of_nat 0) (length (option_bytes os) + 1) =
      option_bytes os @ [OPTION_END]"
    using assms(1,2,4) by (simp add: bytes_st32_apart)
  have "0 + length (option_bytes os) \<le> 60" using assms(2) by simp
  note found = option_loop_finds [OF bytes this assms(3), of code val_at 4]
  have code: "ucast code \<noteq> (ucast OPTION_END :: u32)"
    using assms(5) ucast_ucast_u8 by metis
  have "ntohl (fst (dhcp_get_option_simple val_at options code m)) =
        shl (ucast b0) 24 OR shl (ucast b1) 16 OR shl (ucast b2) 8 OR ucast b3"
    if opt: "map_of os code = Some [b0, b1, b2, b3]" for b0 b1 b2 b3
  proof -
    let ?v = "[b0, b1, b2, b3]"
    let ?len = "if of_nat (length ?v) > (4 :: u8) then 4 else of_nat (length ?v) :: u8"
    have "\<exists>j. j + 2 + length ?v \<le> 0 + length (option_bytes os) \<and>
        bytes_at ?m (options + of_nat j + 2) (length ?v) = ?v \<and>
        dhcp_get_option_loop options code val_at 4 0 ?m =
          (ucast code, snd (memcpy val_at (options + of_nat j + 2) (ucast ?len) ?m))"
      using found unfolding opt option.case .
    then obtain j where "j + 2 + length ?v \<le> 0 + length (option_bytes os)"
      and b: "bytes_at ?m (options + of_nat j + 2) (length ?v) = ?v"
      and l: "dhcp_get_option_loop options code val_at 4 0 ?m =
        (ucast code, snd (memcpy val_at (options + of_nat j + 2) (ucast ?len) ?m))"
      by blast
    then have j: "j + 6 \<le> length (option_bytes os)" by simp
    have "ucast ?len = (4 :: u32)" by simp
    note loop = l [unfolded this]
    let ?src = "options + of_nat j + 2"
    have "(4 :: nat) \<le> unat (val_at - ?src)"
      using val_apart_dist(2) [OF assms(4), of "j + 2"] j assms(2) by (simp add: ac_simps)
    then have "memcpy_apart val_at ?src 4"
      by (simp add: memcpy_apart_def memcpy_ok_def word_le_nat_alt)
    then have copied: "snd (memcpy val_at ?src 4 ?m) (val_at + i) = ?m (?src + i)" if "i < 4" for i
      using that by (simp add: memcpy.copied)
    show ?thesis
      using b code copied [of 0] copied [of 1] copied [of 2] copied [of 3]
      by (simp add: dhcp_get_option_simple_def dhcp_get_option_array_def Let_def loop ntohl_ld32
          bytes_at_def upt_conv_Cons add.assoc)
  qed
  moreover have "fst (dhcp_get_option_simple val_at options code m) = ucast OPTION_END"
    if "map_of os code = None"
    using found that assms(2)
    by (simp add: dhcp_get_option_simple_def dhcp_get_option_array_def Let_def)
  ultimately show ?thesis by blast
qed


lemma dhcp_option_lookup_witness:
  "ntohl (fst (dhcp_get_option_simple 0x10002000 0x10001000 OPTION_DHCP_SERVER_IDENTIFIER
     ((\<lambda>_. 0xFF)(0x10001000 := 53, 0x10001001 := 1, 0x10001002 := 2, 0x10001003 := 54,
        0x10001004 := 4, 0x10001005 := 10, 0x10001006 := 0, 0x10001007 := 0, 0x10001008 := 1)))) =
   shl 10 24 OR shl 0 16 OR shl 0 8 OR 1"
proof -
  let ?m = "(\<lambda>_. 0xFF)(0x10001000 := 53, 0x10001001 := 1, 0x10001002 := 2, 0x10001003 := 54,
        0x10001004 := 4, 0x10001005 := 10, 0x10001006 := 0, 0x10001007 := 0, 0x10001008 := 1 :: u8)
      :: mem"
  let ?os = "[(OPTION_DHCP_MESSAGE_TYPE, [2]), (OPTION_DHCP_SERVER_IDENTIFIER, [10, 0, 0, 1])] ::
      (u8 \<times> u8 list) list"
  have a: "bytes_at ?m 0x10001000 (length (option_bytes ?os) + 1) = option_bytes ?os @ [OPTION_END]"
    by (simp add: bytes_at_Suc OPTION_DHCP_MESSAGE_TYPE_def OPTION_DHCP_SERVER_IDENTIFIER_def
        OPTION_END_def)
  have b: "length (option_bytes ?os) \<le> 60" by simp
  have c: "\<forall>op1 \<in> set ?os. option_ok op1"
    by (simp add: option_ok_def OPTION_DHCP_MESSAGE_TYPE_def OPTION_DHCP_SERVER_IDENTIFIER_def
        OPTION_END_def)
  have d: "val_apart 0x10002000 0x10001000 61" by (simp add: val_apart_def)
  have e: "OPTION_DHCP_SERVER_IDENTIFIER \<noteq> OPTION_END"
    by (simp add: OPTION_DHCP_SERVER_IDENTIFIER_def OPTION_END_def)
  have f: "map_of ?os OPTION_DHCP_SERVER_IDENTIFIER = Some [10, 0, 0, 1]"
    by (simp add: OPTION_DHCP_MESSAGE_TYPE_def OPTION_DHCP_SERVER_IDENTIFIER_def)
  note all = conjunct2 [OF dhcp_option_lookup [OF a b c d e]]
  from spec [OF spec [OF spec [OF spec [OF all, of 10], of 0], of 0], of 1] f
  show ?thesis by simp
qed


text \<open>The request the client sends after an offer carries, after the magic cookie, the message
  type, the requested address and the server's address as well formed options in network byte
  order, closed by \<^verbatim>\<open>OPTION_END\<close>; the transaction number and the server's address are in their
  members.\<close>

theorem dhcp_request_options:
  assumes "IS_WORD_ALIGNED dh" and apart: "val_apart val_at dh 300" and mac: "memcpy_apart (dh + 28) mac 6"
    and "m' = request_message dh val_at mac xid ip server offer m"
  shows "bytes_at m' (dh + 236) 20 = [99, 130, 83, 99] @
      option_bytes [(OPTION_DHCP_MESSAGE_TYPE, [3]), (OPTION_DHCP_REQUESTED_IP, be_bytes ip),
        (OPTION_DHCP_SERVER_IDENTIFIER, be_bytes server)] @ [OPTION_END] \<and>
    m' dh = BOOTREQUEST \<and> ld32 m' (dh + 4) = xid \<and> ld32 m' (dh + 20) = server"
proof -
  define m0 where "m0 = (let m = snd (memset dh 0 sizeof_DhcpHead m);
          m = m(dh := BOOTREQUEST); m = m(dh + 1 := 1); m = m(dh + 2 := 6); m = m(dh + 3 := 0);
          m = st32 (dh + 4) xid m;
          m = (if offer then st32 (dh + 12) ip m else m);
          m = st32 (dh + 20) server m;
          m = snd (memcpy (dh + 28) mac 6 m)
      in m(dh + 236 := 99, dh + 237 := 130, dh + 238 := 83, dh + 239 := 99))"
  obtain op1 m1 where c1: "(op1, m1) = dhcp_create_option_simple val_at (dh + 240)
      OPTION_DHCP_MESSAGE_TYPE 1 DHCPREQUEST m0" by (metis surj_pair)
  have "dh + 240 + 2 = dh + 242" by simp
  then have al: "(1 :: u8) = 4 \<or> \<not> IS_WORD_ALIGNED (dh + 240 + 2)"
    using aligned_242 [OF assms(1)] by (simp only: not_False_eq_True simp_thms)
  have "(240 :: u32) < 290" "(1 :: u8) \<le> 4" by simp_all
  note opt1 = create_option_simple [OF apart this al c1]
  have op1: "op1 = dh + 243"
    using opt1(1) by simp
  have at1: "m1 (dh + c) = (if c - 242 < 1 then st32 val_at DHCPREQUEST m0 (val_at + (c - 242))
      else if c = 241 then 1 else if c = 240 then OPTION_DHCP_MESSAGE_TYPE else m0 (dh + c))"
    if "c < 300" for c
    using opt1(2) [OF that] by simp
  obtain op2 m2 where c2: "(op2, m2) = dhcp_create_option_simple val_at (dh + 243)
      OPTION_DHCP_REQUESTED_IP 4 (ntohl ip) m1" by (metis surj_pair)
  have op2: "op2 = dh + 249"
    using create_option_simple(1) [OF apart _ _ _ c2] by simp
  have at2: "m2 (dh + c) = (if c - 245 < 4 then st32 val_at (ntohl ip) m1 (val_at + (c - 245))
      else if c = 244 then 4 else if c = 243 then OPTION_DHCP_REQUESTED_IP else m1 (dh + c))"
    if "c < 300" for c
    using create_option_simple(2) [OF apart _ _ _ c2 that] by simp
  obtain op3 m3 where c3: "(op3, m3) = dhcp_create_option_simple val_at (dh + 249)
      OPTION_DHCP_SERVER_IDENTIFIER 4 (ntohl (ld32 m2 (dh + 20))) m2" by (metis surj_pair)
  have op3: "op3 = dh + 255"
    using create_option_simple(1) [OF apart _ _ _ c3] by simp
  have at3: "m3 (dh + c) = (if c - 251 < 4 then st32 val_at (ntohl (ld32 m2 (dh + 20))) m2 (val_at + (c - 251))
      else if c = 250 then 4 else if c = 249 then OPTION_DHCP_SERVER_IDENTIFIER else m2 (dh + c))"
    if "c < 300" for c
    using create_option_simple(2) [OF apart _ _ _ c3 that] by simp
  have m': "m' = m3(dh + 255 := OPTION_END)"
  proof -
    have "request_message dh val_at mac xid ip server offer m =
      (let (op, m) = dhcp_create_option_simple val_at (dh + 240) OPTION_DHCP_MESSAGE_TYPE 1 DHCPREQUEST m0;
           (op, m) = dhcp_create_option_simple val_at op OPTION_DHCP_REQUESTED_IP 4 (ntohl ip) m;
           (op, m) = dhcp_create_option_simple val_at op OPTION_DHCP_SERVER_IDENTIFIER 4
             (ntohl (ld32 m (dh + 20))) m
       in m(op := OPTION_END))"
      by (simp add: request_message_def Let_def m0_def add.commute [of dh])
    then show ?thesis
      by (simp add: assms(4) c1 [symmetric] c2 [symmetric] c3 [symmetric] op1 op2 op3 Let_def)
  qed
  have far: "dh + c \<noteq> val_at + k" if "c < 300" "k < 4" for c k
  proof
    assume "dh + c = val_at + k"
    then have "dh + c - val_at = k" by (simp add: algebra_simps)
    then show False using val_apart_word [OF apart that(1)] that(2) by simp
  qed
  have z: "m0 (dh + 236) = 99" "m0 (dh + 237) = 130" "m0 (dh + 238) = 83" "m0 (dh + 239) = 99"
    by (simp_all add: m0_def Let_def)
  have mac6: "snd (memcpy (dh + 28) mac 6 x) a = (if a - (dh + 28) < 6 then x (mac + (a - (dh + 28))) else x a)" for x a
    by (rule memcpy.copy_apply [OF mac])
  have op0: "m0 (dh + 0) = BOOTREQUEST"
    by (simp add: m0_def Let_def mac6 st32_def)
  have xid0: "ld32 m0 (dh + 4) = xid"
  proof -
    have "ld32 m0 (dh + 4) = ld32 (st32 (dh + 4) xid m) (dh + 4)"
      by (simp add: ld32_def m0_def Let_def mac6 st32_def)
    then show ?thesis by (simp add: ld32_st32)
  qed
  have server0: "ld32 m0 (dh + 20) = server"
  proof -
    have "ld32 m0 (dh + 20) = ld32 (st32 (dh + 20) server m) (dh + 20)"
      by (simp add: ld32_def m0_def Let_def mac6 st32_def)
    then show ?thesis by (simp add: ld32_st32)
  qed
  have early: "m' (dh + c) = m0 (dh + c)" "m2 (dh + c) = m0 (dh + c)" if "c < 240" for c
  proof -
    have u: "unat c < 240" using that by (simp add: word_less_nat_alt)
    then have "\<not> c - 242 < 1" "\<not> c - 245 < 4" "\<not> c - 251 < 4" "c < 300"
      by (simp_all add: word_less_nat_alt unat_sub_if')
    moreover have "c \<noteq> 240" "c \<noteq> 241" "c \<noteq> 243" "c \<noteq> 244" "c \<noteq> 249" "c \<noteq> 250" "c \<noteq> 255"
      using that by auto
    ultimately show "m' (dh + c) = m0 (dh + c)" "m2 (dh + c) = m0 (dh + c)"
      by (simp_all add: m' at3 at2 at1)
  qed
  have s2: "ld32 m2 (dh + 20) = server"
    using early(2) [of 20] early(2) [of 21] early(2) [of 22] early(2) [of 23] server0
    by (simp add: ld32_def add.commute [of dh])
  have "ld32 m' (dh + 20) = server"
    using early(1) [of 20] early(1) [of 21] early(1) [of 22] early(1) [of 23] server0
    by (simp add: ld32_def add.commute [of dh])
  moreover have "ld32 m' (dh + 4) = xid"
    using early(1) [of 4] early(1) [of 5] early(1) [of 6] early(1) [of 7] xid0
    by (simp add: ld32_def add.commute [of dh])
  moreover have "m' dh = BOOTREQUEST" using early(1) [of 0] op0 by simp
  moreover have "bytes_at m' (dh + 236) 20 = [99, 130, 83, 99] @
      option_bytes [(OPTION_DHCP_MESSAGE_TYPE, [3]), (OPTION_DHCP_REQUESTED_IP, be_bytes ip),
        (OPTION_DHCP_SERVER_IDENTIFIER, be_bytes server)] @ [OPTION_END]"
  proof -
    note at3' = at3 [unfolded s2]
    have "m' (dh + 240) = OPTION_DHCP_MESSAGE_TYPE" "m' (dh + 241) = 1" "m' (dh + 242) = 3"
      "m' (dh + 243) = OPTION_DHCP_REQUESTED_IP" "m' (dh + 244) = 4"
      "m' (dh + 249) = OPTION_DHCP_SERVER_IDENTIFIER" "m' (dh + 250) = 4" "m' (dh + 255) = OPTION_END"
      by (simp_all add: m' at3' at2 at1 DHCPREQUEST_def st32_def)
    moreover have "m' (dh + 245) = ucast (shr ip 24)" "m' (dh + 246) = ucast (shr ip 16)"
      "m' (dh + 247) = ucast (shr ip 8)" "m' (dh + 248) = ucast ip"
      by (simp_all add: m' at3' at2 at1 ntohl_bytes st32_def)
    moreover have "m' (dh + 251) = ucast (shr server 24)" "m' (dh + 252) = ucast (shr server 16)"
      "m' (dh + 253) = ucast (shr server 8)" "m' (dh + 254) = ucast server"
      by (simp_all add: m' at3' ntohl_bytes st32_def)
    moreover have "m' (dh + 236) = 99" "m' (dh + 237) = 130" "m' (dh + 238) = 83" "m' (dh + 239) = 99"
      using early(1) z by simp_all
    ultimately show ?thesis
      by (simp add: bytes_at_def upt_conv_Cons be_bytes_def add.commute [of dh])
  qed
  ultimately show ?thesis by simp
qed


lemma dhcp_request_options_witness:
  "(request_message 0x10001000 0x10002000 0x10003000 7 0xC0A8000A 0xC0A80001 True (\<lambda>_. 0xAA)) 0x100010F5 = 0xC0"
proof -
  have "IS_WORD_ALIGNED 0x10001000" by (simp add: IS_WORD_ALIGNED_def)
  moreover have "val_apart 0x10002000 0x10001000 300" by (simp add: val_apart_def)
  moreover have "memcpy_apart (0x10001000 + 28) 0x10003000 6"
    by (simp add: memcpy_apart_def memcpy_ok_def)
  ultimately have "bytes_at (request_message 0x10001000 0x10002000 0x10003000 7 0xC0A8000A 0xC0A80001 True (\<lambda>_. 0xAA))
      (0x10001000 + 236) 20 = [99, 130, 83, 99] @
      option_bytes [(OPTION_DHCP_MESSAGE_TYPE, [3]), (OPTION_DHCP_REQUESTED_IP, be_bytes 0xC0A8000A),
        (OPTION_DHCP_SERVER_IDENTIFIER, be_bytes 0xC0A80001)] @ [OPTION_END]"
    by (rule conjunct1 [OF dhcp_request_options [OF _ _ _ refl]])
  then show ?thesis
    by (simp add: bytes_at_def upt_conv_Cons be_bytes_def)
qed


text \<open>The frame \<^verbatim>\<open>dhcp_send\<close> builds is read back by the demangling routines as it was meant: it
  goes to the given hardware address as IPv4, its header carries a correct checksum, the
  addresses and the length of header, UDP header and message, the UDP header has the DHCP ports,
  and after it comes the message in network byte order.\<close>

theorem dhcp_frame:
  assumes apart: "frame_apart tx dh" and "length mac = 6" and "length g = 6"
    and m': "m' = dhcp_send tx g dh src dst mac m"
  shows "proto_eth_demangle m' tx = \<lparr>eth_src = g, eth_dst = mac, eth_type = PROTO_IP\<rparr> \<and>
    proto_checksum m' (tx + 14) 20 = 0 \<and>
    (let ip = proto_ip_demangle m' (tx + 14)
     in ip_protocol ip = PROTO_UDP \<and> ip_total_length ip = 328 \<and> ip_src_addr ip = src \<and>
        ip_dst_addr ip = dst) \<and>
    proto_udp_demangle m' (tx + 34) =
      \<lparr>udp_src_port = DHCP_CLIENT_PORT, udp_dst_port = DHCP_SERVER_PORT, udp_len = 308, udp_checksum = 0\<rparr> \<and>
    (\<forall>k < 300. m' (tx + 42 + k) = m (dh + net_offset k))"
  using dhcp_send_bytes [OF assms] by blast


lemma dhcp_frame_witness:
  "proto_checksum (dhcp_send 0x2007C000 [0, 0, 0, 0, 0, 0] 0x10001000 0 0xFFFFFFFF bmac (\<lambda>_. 0))
     (0x2007C000 + 14) 20 = 0"
proof -
  have "frame_apart 0x2007C000 0x10001000" by (simp add: frame_apart_def)
  moreover have "length bmac = 6" "length [0, 0, 0, 0, 0, 0 :: u8] = 6" by (simp_all add: bmac_def)
  ultimately show ?thesis
    using dhcp_frame [OF _ _ _ refl, of "0x2007C000" "0x10001000" bmac "[0, 0, 0, 0, 0, 0]" 0 "0xFFFFFFFF" "\<lambda>_. 0"]
    by blast
qed

end
