(* ===== verification/Simple_Udp.thy ===== *)
theory Simple_Udp
  imports Protocols
begin

text \<open>
  \<^verbatim>\<open>samples/simple_udp/protocol.c\<close>: reading and writing the headers of a UDP datagram in place, in
  the frame at \<open>buffer\<close>, and the packet handler of \<^verbatim>\<open>main.c\<close>, which answers a datagram for its port
  with \<^verbatim>\<open>OK\<close>. The identification counter of \<^verbatim>\<open>ip4_set_header\<close> is a static variable, here an
  argument and a result.
\<close>

section \<open>Ethernet\<close>

definition ETH_ADDR_SIZE :: u32 where "ETH_ADDR_SIZE = 6"
definition ETH_HEADER_SIZE :: u32 where "ETH_HEADER_SIZE = ETH_ADDR_SIZE * 2 + 2"

text \<open>\<^verbatim>\<open>ptr[0] << 8 | ptr[1]\<close> and its converse.\<close>

definition be16 :: "mem \<Rightarrow> addr \<Rightarrow> u16" where
  "be16 m ptr = shl (ucast (m ptr)) 8 OR ucast (m (ptr + 1))"

definition put_be16 :: "addr \<Rightarrow> u16 \<Rightarrow> mem \<Rightarrow> mem" where
  "put_be16 ptr v m = m(ptr := ucast (shr v 8), ptr + 1 := ucast (v AND 0xFF))"

definition eth_get_src :: "addr \<Rightarrow> addr" where "eth_get_src buffer = buffer + ETH_ADDR_SIZE"

definition eth_get_dst :: "addr \<Rightarrow> addr" where "eth_get_dst buffer = buffer"

definition eth_get_type :: "mem \<Rightarrow> addr \<Rightarrow> u16" where
  "eth_get_type m buffer = be16 m (buffer + 2 * ETH_ADDR_SIZE)"

definition eth_get_payload :: "addr \<Rightarrow> addr" where
  "eth_get_payload buffer = buffer + ETH_HEADER_SIZE"

definition eth_set_src :: "addr \<Rightarrow> addr \<Rightarrow> mem \<Rightarrow> mem" where
  "eth_set_src buffer src m = snd (memcpy (buffer + ETH_ADDR_SIZE) src ETH_ADDR_SIZE m)"

definition eth_set_dst :: "addr \<Rightarrow> addr \<Rightarrow> mem \<Rightarrow> mem" where
  "eth_set_dst buffer dst m = snd (memcpy buffer dst ETH_ADDR_SIZE m)"

definition eth_set_type :: "addr \<Rightarrow> u16 \<Rightarrow> mem \<Rightarrow> mem" where
  "eth_set_type buffer type m = put_be16 (buffer + 2 * ETH_ADDR_SIZE) type m"

section \<open>IP\<close>

definition ip4_get_addr :: "mem \<Rightarrow> addr \<Rightarrow> u8 \<Rightarrow> u32" where
  "ip4_get_addr m buffer offset =
     (let ptr = buffer + ucast offset
      in shl (ucast (m ptr)) 24 OR shl (ucast (m (ptr + 1))) 16 OR shl (ucast (m (ptr + 2))) 8 OR
         ucast (m (ptr + 3)))"

definition ip4_get_src :: "mem \<Rightarrow> addr \<Rightarrow> u32" where
  "ip4_get_src m buffer = ip4_get_addr m buffer (ucast (12 + ETH_HEADER_SIZE))"

definition ip4_get_dst :: "mem \<Rightarrow> addr \<Rightarrow> u32" where
  "ip4_get_dst m buffer = ip4_get_addr m buffer (ucast (16 + ETH_HEADER_SIZE))"

definition ip4_get_version :: "mem \<Rightarrow> addr \<Rightarrow> u8" where
  "ip4_get_version m buffer = shr (m (buffer + ETH_HEADER_SIZE)) 4"

definition ip4_get_header_length :: "mem \<Rightarrow> addr \<Rightarrow> u8" where
  "ip4_get_header_length m buffer = shl (m (buffer + ETH_HEADER_SIZE) AND 0xF) 2"

definition ip4_get_total_lenght :: "mem \<Rightarrow> addr \<Rightarrow> u16" where
  "ip4_get_total_lenght m buffer = be16 m (buffer + ETH_HEADER_SIZE + 2)"

definition ip4_get_packet_id :: "mem \<Rightarrow> addr \<Rightarrow> u16" where
  "ip4_get_packet_id m buffer = be16 m (buffer + ETH_HEADER_SIZE + 4)"

text \<open>The byte is promoted to \<^verbatim>\<open>int\<close> before the shift.\<close>

definition ip4_get_flags :: "mem \<Rightarrow> addr \<Rightarrow> u8" where
  "ip4_get_flags m buffer = ucast (shr (ucast (m (buffer + ETH_HEADER_SIZE + 6)) :: u32) 13)"

definition ip4_get_fragment_offset :: "mem \<Rightarrow> addr \<Rightarrow> u8" where
  "ip4_get_fragment_offset m buffer =
     ucast ((ucast (m (buffer + ETH_HEADER_SIZE + 6)) :: u32) AND 0x1FF)"

definition ip4_get_ttl :: "mem \<Rightarrow> addr \<Rightarrow> u8" where
  "ip4_get_ttl m buffer = m (buffer + ETH_HEADER_SIZE + 8)"

definition ip4_get_protocol :: "mem \<Rightarrow> addr \<Rightarrow> u8" where
  "ip4_get_protocol m buffer = m (buffer + ETH_HEADER_SIZE + 9)"

definition ip4_get_checksum :: "mem \<Rightarrow> addr \<Rightarrow> u16" where
  "ip4_get_checksum m buffer = be16 m (buffer + ETH_HEADER_SIZE + 10)"

definition ip4_set_addr :: "addr \<Rightarrow> u32 \<Rightarrow> mem \<Rightarrow> mem" where
  "ip4_set_addr buffer ad m =
     m(buffer := ucast (shr ad 24 AND 0xFF), buffer + 1 := ucast (shr ad 16 AND 0xFF),
       buffer + 2 := ucast (shr ad 8 AND 0xFF), buffer + 3 := ucast (ad AND 0xFF))"

text \<open>\<^verbatim>\<open>checksum\<close> is, word for word, \<^verbatim>\<open>proto_checksum\<close> of the other samples.\<close>

definition ip4_set_header ::
  "addr \<Rightarrow> u32 \<Rightarrow> u32 \<Rightarrow> u16 \<Rightarrow> u8 \<Rightarrow> u16 \<Rightarrow> mem \<Rightarrow> u16 \<times> mem" where
  "ip4_set_header buffer src dst payload_length protocol pid m =
     (let ptr = buffer + ETH_HEADER_SIZE;
          total_length = payload_length + 20;
          m = m(ptr := 0x45);
          m = m(ptr + 1 := 0);
          m = m(ptr + 2 := ucast (shr total_length 8));
          m = m(ptr + 3 := ucast (total_length AND 0xFF));
          m = m(ptr + 4 := ucast (shr pid 8));
          m = m(ptr + 5 := ucast (pid AND 0xFF));
          pid = pid + 1;
          m = m(ptr + 6 := 0);
          m = m(ptr + 7 := 0);
          m = m(ptr + 8 := 255);
          m = m(ptr + 9 := protocol);
          m = m(ptr + 10 := 0);
          m = m(ptr + 11 := 0);
          m = ip4_set_addr (ptr + 12) src m;
          m = ip4_set_addr (ptr + 16) dst m;
          csum = proto_checksum m ptr 20;
          m = m(ptr + 10 := ucast (shr csum 8));
          m = m(ptr + 11 := ucast (csum AND 0xFF))
      in (pid, m))"

section \<open>UDP\<close>

definition udp_header_at :: "mem \<Rightarrow> addr \<Rightarrow> addr" where
  "udp_header_at m buffer = buffer + ETH_HEADER_SIZE + ucast (ip4_get_header_length m buffer)"

definition udp_get_src_port :: "mem \<Rightarrow> addr \<Rightarrow> u16" where
  "udp_get_src_port m buffer = be16 m (udp_header_at m buffer)"

definition udp_get_dst_port :: "mem \<Rightarrow> addr \<Rightarrow> u16" where
  "udp_get_dst_port m buffer = be16 m (udp_header_at m buffer + 2)"

definition udp_get_length :: "mem \<Rightarrow> addr \<Rightarrow> u16" where
  "udp_get_length m buffer = be16 m (udp_header_at m buffer + 4)"

definition udp_set_header :: "addr \<Rightarrow> u16 \<Rightarrow> u16 \<Rightarrow> u16 \<Rightarrow> mem \<Rightarrow> mem" where
  "udp_set_header buffer src_port dst_port payload_length m =
     (let ptr = udp_header_at m buffer;
          m = m(ptr := ucast (shr src_port 8));
          m = m(ptr + 1 := ucast (src_port AND 0xFF));
          m = m(ptr + 2 := ucast (shr dst_port 8));
          m = m(ptr + 3 := ucast (dst_port AND 0xFF));
          m = m(ptr + 4 := ucast (shr (ucast payload_length + 8 :: u32) 8));
          m = m(ptr + 5 := ucast ((ucast payload_length + 8 :: u32) AND 0xFF));
          m = m(ptr + 6 := 0);
          m = m(ptr + 7 := 0)
      in m)"

definition udp_get_payload :: "mem \<Rightarrow> addr \<Rightarrow> addr" where
  "udp_get_payload m buffer = udp_header_at m buffer + 8"

section \<open>The packet handler\<close>

definition UDP :: u8 where "UDP = 17"
definition PORT :: u16 where "PORT = 60777"
definition my_ip :: u32 where "my_ip = shl 192 24 OR shl 168 16 OR shl 100 8 OR 1"

text \<open>The answer at \<open>ptr\<close>, from the datagram at \<open>buffer\<close>.\<close>

definition write_answer :: "addr \<Rightarrow> addr \<Rightarrow> addr \<Rightarrow> u16 \<Rightarrow> mem \<Rightarrow> u16 \<times> mem" where
  "write_answer ptr mac_addr buffer pid m =
     (let m = eth_set_src ptr mac_addr m;
          m = eth_set_dst ptr (eth_get_src buffer) m;
          m = eth_set_type ptr 0x0800 m;
          (pid, m) = ip4_set_header ptr my_ip (ip4_get_src m buffer) (8 + 3) UDP pid m;
          m = udp_set_header ptr PORT (udp_get_src_port m buffer) 3 m;
          ptr2 = udp_get_payload m ptr;
          m = m(ptr2 := 79, ptr2 + 1 := 75, ptr2 + 2 := 0)
      in (pid, m))"

text \<open>The handler writes its answer to the transmit buffer \<open>tx\<close>, when the ring has a free
  descriptor (\<open>Some tx\<close>); the flag of the result says that the descriptor, its size set to 45
  bytes, is handed to the hardware.\<close>

definition is_request :: "mem \<Rightarrow> addr \<Rightarrow> bool" where
  "is_request m buffer =
     (if eth_get_type m buffer \<noteq> 0x0800 then False
      else if ip4_get_dst m buffer \<noteq> my_ip then False
      else if ip4_get_protocol m buffer \<noteq> UDP then False
      else if udp_get_dst_port m buffer \<noteq> PORT then False
      else True)"

definition process_packet ::
  "addr option \<Rightarrow> addr \<Rightarrow> addr \<Rightarrow> u16 \<Rightarrow> mem \<Rightarrow> bool \<times> u16 \<times> mem" where
  "process_packet txd mac_addr buffer pid m =
     (if \<not> is_request m buffer then (False, pid, m)
      else case txd of None \<Rightarrow> (False, pid, m)
      | Some ptr \<Rightarrow> (True, write_answer ptr mac_addr buffer pid m))"

section \<open>Reading back a header\<close>

lemma header_size [simp]: "ETH_HEADER_SIZE = 14" "ETH_ADDR_SIZE = 6" "2 * ETH_ADDR_SIZE = 12"
  by (simp_all add: ETH_HEADER_SIZE_def ETH_ADDR_SIZE_def)

lemma be16_bytes: "shl (ucast (ucast (shr v 8) :: u8)) 8 OR ucast (ucast (v AND 0xFF) :: u8) = (v :: u16)"
  by (rule bit_word_eqI) (auto simp: numeral_masks bit_simps dest: bit_imp_le_length)

lemma byte_of_half: "ucast (shr v 8) = (ucast (shr v 8 AND 0xFF) :: u8)" for v :: u16
  by (rule bit_word_eqI) (auto simp: numeral_masks bit_simps)

lemma length_bytes:
  "ucast (shr (ucast p + 8 :: u32) 8) = (ucast (shr (p + 8) 8 AND 0xFF) :: u8)"
  "ucast ((ucast p + 8 :: u32) AND 0xFF) = (ucast ((p + 8) AND 0xFF) :: u8)" for p :: u16
proof -
  have "unat p < 65536" using unsigned_less [of p] by simp
  then have "p + 8 = ucast (ucast p + 8 :: u32)"
    by (simp add: word_unat_eq_iff unat_ucast_mod unat_word_ariths)
  moreover have "ucast (shr x 8) = (ucast (shr (ucast x :: u16) 8 AND 0xFF) :: u8)"
    and "ucast (x AND 0xFF) = (ucast ((ucast x :: u16) AND 0xFF) :: u8)" for x :: u32
    by (rule bit_word_eqI, auto simp: numeral_masks bit_simps)+
  ultimately show "ucast (shr (ucast p + 8 :: u32) 8) = (ucast (shr (p + 8) 8 AND 0xFF) :: u8)"
    and "ucast ((ucast p + 8 :: u32) AND 0xFF) = (ucast ((p + 8) AND 0xFF) :: u8)"
    by simp_all
qed

text \<open>The setters are the mangling routines of the other samples.\<close>

lemma ip4_set_header_eq:
  "ip4_set_header buffer src dst len protocol pid m =
     (pid + 1, snd (proto_ip_mangle
        \<lparr>ip_version_length = 0x45, ip_dscp_ecn = 0, ip_total_length = len + 20, ip_identification = pid,
         ip_flags_frag_offset = 0, ip_ttl = 255, ip_protocol = protocol, ip_header_checksum = 0,
         ip_src_addr = src, ip_dst_addr = dst\<rparr> (buffer + 14) m))"
  by (simp add: ip4_set_header_def proto_ip_mangle_def ip_put_fields_def get_put_defs ip4_set_addr_def
      byte_of_half push_bit_eq_mult add.assoc)

lemma udp_set_header_eq:
  "udp_set_header buffer src_port dst_port len m =
     proto_udp_mangle \<lparr>udp_src_port = src_port, udp_dst_port = dst_port, udp_len = len + 8, udp_checksum = 0\<rparr>
       (udp_header_at m buffer) m"
  by (simp add: udp_set_header_def proto_udp_mangle_def get_put_defs length_bytes byte_of_half)

lemma ip4_getters:
  "ip4_get_src m buffer = ip_src_addr (proto_ip_demangle m (buffer + 14))"
  "ip4_get_dst m buffer = ip_dst_addr (proto_ip_demangle m (buffer + 14))"
  "ip4_get_total_lenght m buffer = ip_total_length (proto_ip_demangle m (buffer + 14))"
  "ip4_get_packet_id m buffer = ip_identification (proto_ip_demangle m (buffer + 14))"
  "ip4_get_ttl m buffer = ip_ttl (proto_ip_demangle m (buffer + 14))"
  "ip4_get_protocol m buffer = ip_protocol (proto_ip_demangle m (buffer + 14))"
  "ip4_get_checksum m buffer = ip_header_checksum (proto_ip_demangle m (buffer + 14))"
  "ip4_get_version m buffer = shr (ip_version_length (proto_ip_demangle m (buffer + 14))) 4"
  "ip4_get_header_length m buffer = shl (ip_version_length (proto_ip_demangle m (buffer + 14)) AND 0xF) 2"
  by (simp_all add: ip4_get_src_def ip4_get_dst_def ip4_get_addr_def ip4_get_total_lenght_def
      ip4_get_packet_id_def ip4_get_ttl_def ip4_get_protocol_def ip4_get_checksum_def
      ip4_get_version_def ip4_get_header_length_def be16_def proto_ip_demangle_def get_put_defs
      add.assoc or.assoc)

lemma udp_getters:
  "udp_get_src_port m buffer = udp_src_port (proto_udp_demangle m (udp_header_at m buffer))"
  "udp_get_dst_port m buffer = udp_dst_port (proto_udp_demangle m (udp_header_at m buffer))"
  "udp_get_length m buffer = udp_len (proto_udp_demangle m (udp_header_at m buffer))"
  by (simp_all add: udp_get_src_port_def udp_get_dst_port_def udp_get_length_def be16_def
      proto_udp_demangle_def get_put_defs add.assoc)

lemma flags_lost: "ip4_get_flags m buffer = 0"
  unfolding ip4_get_flags_def
  by (rule bit_word_eqI) (auto simp: bit_simps dest: bit_imp_le_length)

lemma fragment_offset_byte:
  "ip4_get_fragment_offset m buffer = ucast (shr (ip_flags_frag_offset (proto_ip_demangle m (buffer + 14))) 8)"
proof -
  have w: "(0x1FF :: u32) = mask 9" by (simp add: mask_eq_exp_minus_1)
  have "ucast (ucast x AND 0x1FF :: u32) = (ucast (shr (shl (ucast x) 8 OR ucast y :: u16) 8) :: u8)" for x y :: u8
    unfolding w by (rule bit_word_eqI) (auto simp: bit_simps dest: bit_imp_le_length)
  then show ?thesis
    by (simp add: ip4_get_fragment_offset_def proto_ip_demangle_def get_put_defs add.assoc)
qed


section \<open>The answer\<close>

text \<open>The 45 bytes of the answer at \<open>tx\<close>, the datagram at \<open>buffer\<close> (82 bytes cover its headers with
  the longest options) and the hardware address at \<open>mac\<close> are apart.\<close>

definition reply_apart :: "addr \<Rightarrow> addr \<Rightarrow> addr \<Rightarrow> bool" where
  "reply_apart tx buffer mac \<longleftrightarrow>
     45 \<le> buffer - tx \<and> 82 \<le> tx - buffer \<and> 45 \<le> mac - tx \<and> 6 \<le> tx - mac"

lemma eth_reply_apply:
  assumes "reply_apart tx buffer mac"
    and "m' = eth_set_type tx type (eth_set_dst tx (eth_get_src buffer) (eth_set_src tx mac m))"
  shows "proto_eth_demangle m' tx =
      \<lparr>eth_src = bytes_at m mac 6, eth_dst = bytes_at m (buffer + 6) 6, eth_type = type\<rparr>"
    and "\<not> a - tx < 14 \<Longrightarrow> m' a = m a"
proof -
  have r: "45 \<le> buffer - tx" "82 \<le> tx - buffer" "45 \<le> mac - tx" "6 \<le> tx - mac"
    using assms(1) by (simp_all add: reply_apart_def)
  let ?m1 = "eth_set_src tx mac m"
  have "memcpy_apart (tx + 6) mac 6"
    using outside_block [OF r(4) r(3), of 6] by (simp add: memcpy_apart_def memcpy_ok_def linorder_not_less)
  then have m1: "?m1 x = (if x - (tx + 6) < 6 then m (mac + (x - (tx + 6))) else m x)" for x
    by (simp add: eth_set_src_def memcpy.copy_apply)
  have far: "\<not> buffer + k - (tx + 6) < 6" if "k < 82" for k
  proof -
    have "45 \<le> unat (buffer + k - tx)"
      using outside_block [OF r(1,2) that] by (simp add: word_less_nat_alt)
    then show ?thesis
      using region [of 6 6 "buffer + k - tx"] by (simp add: diff_diff_add)
  qed
  have "76 \<le> unat (tx - buffer - 6)"
    using r(2) by (simp add: word_le_nat_alt unat_sub_if')
  then have ap2: "memcpy_apart tx (buffer + 6) 6"
    by (simp add: memcpy_apart_def memcpy_ok_def word_le_nat_alt diff_diff_add)
  have dst: "?m1 (buffer + 6 + k) = m (buffer + 6 + k)" if "k < 6" for k
  proof -
    have "6 + k < 82" using that by (simp add: word_less_nat_alt unat_word_ariths)
    then show ?thesis using far [of "6 + k"] by (simp add: m1 add.assoc)
  qed
  have m2: "eth_set_dst tx (eth_get_src buffer) ?m1 x =
      (if x - tx < 6 then m (buffer + 6 + (x - tx))
       else if x - (tx + 6) < 6 then m (mac + (x - (tx + 6))) else m x)" for x
  proof (cases "x - tx < 6")
    case True
    then show ?thesis
      by (simp add: eth_set_dst_def eth_get_src_def memcpy.copy_apply [OF ap2] dst)
  next
    case False
    then show ?thesis
      by (simp add: eth_set_dst_def eth_get_src_def memcpy.copy_apply [OF ap2] m1)
  qed
  show "proto_eth_demangle m' tx =
      \<lparr>eth_src = bytes_at m mac 6, eth_dst = bytes_at m (buffer + 6) 6, eth_type = type\<rparr>"
    by (simp add: assms(2) eth_set_type_def put_be16_def m2 proto_eth_demangle_def get_put_defs
        bytes_at_def upt_conv_Cons be16_bytes add.assoc)
  show "m' a = m a" if "\<not> a - tx < 14"
  proof -
    have "14 \<le> unat (a - tx)" using that by (simp add: word_less_nat_alt)
    then have "\<not> a - (tx + 6) < 6" "\<not> a - tx < 6" "a \<noteq> tx + 12" "a \<noteq> tx + 13"
      using region [of 6 6 "a - tx"] by (auto simp: diff_diff_add word_less_nat_alt)
    then show ?thesis by (simp add: assms(2) eth_set_type_def put_be16_def m2 add.assoc)
  qed
qed


text \<open>What the readers of the datagram depend on.\<close>

lemma header_length_bound: "unat (ucast (ip4_get_header_length m buffer) :: u32) \<le> 60"
proof -
  have "unat (m (buffer + 14) AND 0xF) < 16"
    by (simp add: numeral_masks unat_and_mask)
  then have "unat (ip4_get_header_length m buffer) \<le> 60"
    by (simp add: ip4_get_header_length_def push_bit_eq_mult unat_word_ariths)
  then show ?thesis by (simp add: unat_ucast_mod)
qed

lemma udp_header_offset:
  "udp_header_at m buffer = buffer + (14 + ucast (ip4_get_header_length m buffer))"
  by (simp add: udp_header_at_def add.assoc)

text \<open>The headers of a datagram depend on its first 82 bytes only.\<close>

lemma headers_local:
  assumes "\<And>k. k < 82 \<Longrightarrow> m' (buffer + k) = m (buffer + k)"
  shows "eth_get_type m' buffer = eth_get_type m buffer"
    and "proto_ip_demangle m' (buffer + 14) = proto_ip_demangle m (buffer + 14)"
    and "proto_udp_demangle m' (udp_header_at m' buffer) = proto_udp_demangle m (udp_header_at m buffer)"
proof -
  have same: "m' a = m a" if "a - (buffer + k) < l" "unat k + unat l \<le> 82" for a k l
    by (rule cells_local [OF _ that]) (rule assms)
  show "eth_get_type m' buffer = eth_get_type m buffer"
    using assms [of 12] assms [of 13] by (simp add: eth_get_type_def be16_def add.assoc)
  show ip: "proto_ip_demangle m' (buffer + 14) = proto_ip_demangle m (buffer + 14)"
    using ip_header.get_local [of "buffer + 14" m' m] same [of _ 14 20] by simp
  define k where "k = 14 + (ucast (ip4_get_header_length m buffer) :: u32)"
  have "unat k + 8 \<le> 82"
    using header_length_bound [of m buffer] by (simp add: k_def unat_word_ariths)
  then have "proto_udp_demangle m' (buffer + k) = proto_udp_demangle m (buffer + k)"
    using same [of _ k 8] by (intro udp_header.get_local) simp
  moreover have "ip4_get_header_length m' buffer = ip4_get_header_length m buffer"
    using ip by (simp add: ip4_getters)
  ultimately show "proto_udp_demangle m' (udp_header_at m' buffer) = proto_udp_demangle m (udp_header_at m buffer)"
    by (simp add: udp_header_offset k_def)
qed

lemma datagram_local:
  assumes "\<And>k. k < 82 \<Longrightarrow> m' (buffer + k) = m (buffer + k)"
  shows "ip4_get_src m' buffer = ip4_get_src m buffer"
    and "udp_get_src_port m' buffer = udp_get_src_port m buffer"
    and "is_request m' buffer = is_request m buffer"
  using headers_local [where m' = m' and m = m and buffer = buffer, OF assms]
  by (simp_all add: ip4_getters udp_getters is_request_def)

text \<open>What an answer is, whatever is at \<open>buffer\<close>.\<close>

lemma write_answer_spec:
  assumes apart: "reply_apart tx buffer mac"
    and r: "write_answer tx mac buffer pid m = (pid', m')"
  shows "pid' = pid + 1 \<and>
    proto_eth_demangle m' tx =
      \<lparr>eth_src = bytes_at m mac 6, eth_dst = bytes_at m (buffer + 6) 6, eth_type = 0x0800\<rparr> \<and>
    proto_checksum m' (tx + 14) 20 = 0 \<and>
    (let ip = proto_ip_demangle m' (tx + 14)
     in ip_src_addr ip = my_ip \<and> ip_dst_addr ip = ip4_get_src m buffer \<and> ip_total_length ip = 31 \<and>
        ip_protocol ip = UDP) \<and>
    proto_udp_demangle m' (tx + 34) =
      \<lparr>udp_src_port = PORT, udp_dst_port = udp_get_src_port m buffer, udp_len = 11, udp_checksum = 0\<rparr> \<and>
    bytes_at m' (tx + 42) 3 = [79, 75, 0] \<and>
    (\<forall>a. \<not> a - tx < 45 \<longrightarrow> m' a = m a)"
proof -
  define m1 where "m1 = eth_set_type tx 0x0800 (eth_set_dst tx (eth_get_src buffer) (eth_set_src tx mac m))"
  define ip where "ip = \<lparr>ip_version_length = 0x45, ip_dscp_ecn = 0, ip_total_length = 31,
      ip_identification = pid, ip_flags_frag_offset = 0, ip_ttl = 255, ip_protocol = UDP,
      ip_header_checksum = 0, ip_src_addr = my_ip, ip_dst_addr = ip4_get_src m buffer\<rparr>"
  obtain ip' m2 where c2: "proto_ip_mangle ip (tx + 14) m1 = (ip', m2)" by (metis surj_pair)
  define udp where "udp = \<lparr>udp_src_port = PORT, udp_dst_port = udp_get_src_port m buffer, udp_len = 11,
      udp_checksum = 0\<rparr>"
  define m3 where "m3 = proto_udp_mangle udp (tx + 34) m2"
  note eth = eth_reply_apply [OF apart m1_def]
  have ipz: "ip_header_checksum ip = 0" "3 \<le> unat (ip_version_length ip AND 0xF)"
    and hl: "shl (ucast (ip_version_length ip AND 0xF)) 2 = (20 :: u32)"
    by (simp_all add: ip_def push_bit_eq_mult)
  note checked = ip_mangle_checked [OF ipz c2, unfolded hl]
  have f1: "m1 a = m a" if "\<not> a - tx < 14" for a using that by (rule eth(2))
  have f2: "m2 a = m1 a" if "\<not> a - (tx + 14) < 20" for a using that checked by simp
  have f3: "m3 a = m2 a" if "\<not> a - (tx + 34) < 8" for a using that by (simp add: m3_def udp_header.put_frame)
  have in_buf: "45 \<le> unat (buffer + k - tx)" if "k < 82" for k
    using apart that outside_block [of 45 buffer tx 82 k] by (simp add: reply_apart_def word_less_nat_alt)
  have b1: "m1 (buffer + k) = m (buffer + k)" "m2 (buffer + k) = m (buffer + k)" if "k < 82" for k
    using in_buf [OF that] by (simp_all add: f1 f2 frame_regions)
  have src: "ip4_get_src m1 buffer = ip4_get_src m buffer"
    and port: "udp_get_src_port m2 buffer = udp_get_src_port m buffer"
    using datagram_local b1 by blast+
  obtain x where ip': "ip' = ip\<lparr>ip_header_checksum := x\<rparr>" using checked by metis
  have v2: "m2 (tx + 14) = 0x45"
  proof -
    have "ip_version_length (proto_ip_demangle m2 (tx + 14)) = 0x45"
      using checked by (simp add: ip' ip_def)
    then show ?thesis by (simp add: proto_ip_demangle_def get_put_defs)
  qed
  have h2: "udp_header_at m2 tx = tx + 34"
    by (simp add: udp_header_at_def ip4_get_header_length_def v2 push_bit_eq_mult)
  have h3: "udp_header_at m3 tx = tx + 34"
    by (simp add: udp_header_at_def ip4_get_header_length_def f3 frame_regions v2 push_bit_eq_mult)
  have "(pid', m') = (pid + 1, m3(tx + 42 := 79, tx + 43 := 75, tx + 44 := 0))"
    using r c2
    by (simp add: write_answer_def Let_def m1_def [symmetric] src ip4_set_header_eq ip_def [symmetric]
        udp_set_header_eq port h2 h3 udp_def [symmetric] m3_def [symmetric] udp_get_payload_def
        split_def add.assoc)
  then have s: "pid' = pid + 1" and m': "m' = m3(tx + 42 := 79, tx + 43 := 75, tx + 44 := 0)"
    by simp_all
  have f4: "m' a = m3 a" if "\<not> (42 \<le> unat (a - tx) \<and> unat (a - tx) < 45)" for a
    using that by (auto simp: m')
  have e: "proto_eth_demangle m' tx = proto_eth_demangle m1 tx"
    by (rule eth_header.get_local) (simp add: f4 f3 f2 frame_regions)
  have same: "m' a = m2 a" if "a - (tx + 14) < 20" for a
    using that by (simp add: f4 f3 frame_regions)
  have i: "proto_ip_demangle m' (tx + 14) = ip'"
    using ip_header.get_local [of "tx + 14" m' m2] same checked by simp
  have c: "proto_checksum m' (tx + 14) 20 = 0"
    using checksum_local [of 20 "tx + 14" m' m2] same checked by simp
  have "proto_udp_demangle m' (tx + 34) = proto_udp_demangle m3 (tx + 34)"
    by (rule udp_header.get_local) (simp add: f4 frame_regions)
  then have u: "proto_udp_demangle m' (tx + 34) = udp" by (simp add: m3_def udp_header.put_get)
  have p: "bytes_at m' (tx + 42) 3 = [79, 75, 0]"
    by (simp add: m' bytes_at_def upt_conv_Cons add.assoc)
  have out: "m' a = m a" if "\<not> a - tx < 45" for a
  proof -
    have "45 \<le> unat (a - tx)" using that by (simp add: word_less_nat_alt)
    then show ?thesis by (simp add: f4 f3 f2 f1 frame_regions)
  qed
  show ?thesis
    using s c p out by (simp add: e eth(1) i u udp_def ip' ip_def)
qed

section \<open>Properties\<close>

text \<open>C32. The two implementations of the IPv4 header, and where they differ. Writing a header in place is
  mangling the structure with those fields and a zero checksum. The accessors of the addresses, the total
  length, the identification, the time to live, the protocol, the checksum, the version and the header length
  read the fields the demangling routine gives. The two accessors of the halfword with the flags and the
  fragment offset do not: that of the flags returns 0 whatever the header holds, and that of the offset
  returns the high byte of the halfword, the three flags with the top five bits of the offset, and loses
  the other eight.\<close>

theorem ip4_headers_equivalent:
  "ip4_set_header buffer src dst len protocol pid m =
     (pid + 1, snd (proto_ip_mangle
        \<lparr>ip_version_length = 0x45, ip_dscp_ecn = 0, ip_total_length = len + 20, ip_identification = pid,
         ip_flags_frag_offset = 0, ip_ttl = 255, ip_protocol = protocol, ip_header_checksum = 0,
         ip_src_addr = src, ip_dst_addr = dst\<rparr> (buffer + 14) m)) \<and>
   (let ip = proto_ip_demangle m (buffer + 14)
    in ip4_get_src m buffer = ip_src_addr ip \<and> ip4_get_dst m buffer = ip_dst_addr ip \<and>
       ip4_get_total_lenght m buffer = ip_total_length ip \<and>
       ip4_get_packet_id m buffer = ip_identification ip \<and> ip4_get_ttl m buffer = ip_ttl ip \<and>
       ip4_get_protocol m buffer = ip_protocol ip \<and> ip4_get_checksum m buffer = ip_header_checksum ip \<and>
       ip4_get_version m buffer = shr (ip_version_length ip) 4 \<and>
       ip4_get_header_length m buffer = shl (ip_version_length ip AND 0xF) 2) \<and>
   ip4_get_flags m buffer = 0 \<and>
   ip4_get_fragment_offset m buffer = ucast (shr (ip_flags_frag_offset (proto_ip_demangle m (buffer + 14))) 8)"
  by (simp add: ip4_set_header_eq ip4_getters flags_lost fragment_offset_byte Let_def)

text \<open>A datagram for the address and port of the device is answered: the answer goes back to the
  sender's hardware address, IP address and port, from those of the device, with correct lengths,
  a correct header checksum and the payload \<^verbatim>\<open>OK\<close>; nothing outside its 45 bytes changes.\<close>

theorem udp_reply:
  assumes apart: "reply_apart tx buffer mac"
    and "eth_get_type m buffer = 0x0800" and "ip4_get_dst m buffer = my_ip"
    and "ip4_get_protocol m buffer = UDP" and "udp_get_dst_port m buffer = PORT"
    and r: "process_packet (Some tx) mac buffer pid m = (sent, pid', m')"
  shows "sent \<and> pid' = pid + 1 \<and>
    proto_eth_demangle m' tx =
      \<lparr>eth_src = bytes_at m mac 6, eth_dst = bytes_at m (buffer + 6) 6, eth_type = 0x0800\<rparr> \<and>
    proto_checksum m' (tx + 14) 20 = 0 \<and>
    (let ip = proto_ip_demangle m' (tx + 14)
     in ip_src_addr ip = my_ip \<and> ip_dst_addr ip = ip4_get_src m buffer \<and> ip_total_length ip = 31 \<and>
        ip_protocol ip = UDP) \<and>
    proto_udp_demangle m' (tx + 34) =
      \<lparr>udp_src_port = PORT, udp_dst_port = udp_get_src_port m buffer, udp_len = 11, udp_checksum = 0\<rparr> \<and>
    bytes_at m' (tx + 42) 3 = [79, 75, 0] \<and>
    (\<forall>a. \<not> a - tx < 45 \<longrightarrow> m' a = m a)"
proof -
  have "is_request m buffer" using assms(2-5) by (simp add: is_request_def)
  with r have "sent" "write_answer tx mac buffer pid m = (pid', m')" by (auto simp: process_packet_def)
  with write_answer_spec [OF apart this(2)] show ?thesis by simp
qed

lemma udp_reply_witness:
  "bytes_at (snd (snd (process_packet (Some 0x2007D000) 0x10000000 0x2007C000 0
     ((\<lambda>_. 0)(0x2007C00C := 8, 0x2007C00E := 0x45, 0x2007C017 := 17, 0x2007C01E := 192,
        0x2007C01F := 168, 0x2007C020 := 100, 0x2007C021 := 1, 0x2007C024 := 0xED,
        0x2007C025 := 0x69))))) (0x2007D000 + 42) 3 = [79, 75, 0]"
proof -
  let ?m = "(\<lambda>_. 0)(0x2007C00C := 8, 0x2007C00E := 0x45, 0x2007C017 := 17, 0x2007C01E := 192,
        0x2007C01F := 168, 0x2007C020 := 100, 0x2007C021 := 1, 0x2007C024 := 0xED,
        0x2007C025 := 0x69) :: mem"
  have a: "reply_apart 0x2007D000 0x2007C000 0x10000000" by (simp add: reply_apart_def)
  have t: "eth_get_type ?m 0x2007C000 = 0x0800"
    by (simp add: eth_get_type_def be16_def push_bit_eq_mult)
  have d: "ip4_get_dst ?m 0x2007C000 = my_ip"
    by (simp add: ip4_get_dst_def ip4_get_addr_def my_ip_def push_bit_eq_mult)
  have p: "ip4_get_protocol ?m 0x2007C000 = UDP"
    by (simp add: ip4_get_protocol_def UDP_def)
  have q: "udp_get_dst_port ?m 0x2007C000 = PORT"
    by (simp add: udp_get_dst_port_def be16_def udp_header_at_def ip4_get_header_length_def PORT_def
        push_bit_eq_mult)
  obtain s pid' m' where r: "process_packet (Some 0x2007D000) 0x10000000 0x2007C000 0 ?m = (s, pid', m')"
    by (metis surj_pair)
  show ?thesis unfolding r using udp_reply [OF a t d p q r] by simp
qed

end
