(* ===== verification/Responder.thy ===== *)
theory Responder
  imports Protocols
begin

text \<open>
  The packet handler of \<^verbatim>\<open>samples/ethernet/main.c\<close>: it answers ARP requests for its address and
  echo requests. The frame received is at \<open>rx\<close>, \<open>txd\<close> is the transmit buffer the descriptor ring
  gives, when it has one. The result holds the control word of the descriptor when the frame is
  handed to the hardware. \<^verbatim>\<open>checksum\<close> is, word for word, \<^verbatim>\<open>proto_checksum\<close>.
\<close>

section \<open>The handler\<close>

definition PROTO_ARP :: u16 where "PROTO_ARP = 0x0806"
definition PROTO_ICMP :: u8 where "PROTO_ICMP = 1"
definition PROTO_ICMP_HLEN :: u32 where "PROTO_ICMP_HLEN = 8"
definition PROTO_ICMP_CSUM_OFFSET :: u32 where "PROTO_ICMP_CSUM_OFFSET = 2"

definition my_ip :: u32 where
  "my_ip = shl 192 24 OR shl 168 16 OR shl 100 8 OR 200"

definition frame_flags :: u32 where
  "frame_flags = shl 1 18 OR shl 1 29 OR shl 1 30"

definition process_arp ::
  "addr option \<Rightarrow> u8 list \<Rightarrow> addr \<Rightarrow> EthHead \<Rightarrow> mem \<Rightarrow> u32 option \<times> mem" where
  "process_arp txd mac_addr rx eth m =
     (let arp_rcv = proto_arp_demangle m (rx + PROTO_MAC_HLEN)
      in if arp_target_ip arp_rcv \<noteq> my_ip then (None, m)
         else case txd of None \<Rightarrow> (None, m)
         | Some tx \<Rightarrow>
             (let eth_reply = \<lparr>eth_src = mac_addr, eth_dst = eth_src eth, eth_type = eth_type eth\<rparr>;
                  arp_send = \<lparr>arp_hard_type = 1, arp_protocol_type = PROTO_IP, arp_hlen = 6,
                    arp_plen = 4, arp_opcode = 2, arp_sender_mac = mac_addr,
                    arp_sender_ip = arp_target_ip arp_rcv,
                    arp_target_mac = arp_sender_mac arp_rcv,
                    arp_target_ip = arp_sender_ip arp_rcv\<rparr>;
                  m = proto_eth_mangle eth_reply tx m;
                  m = proto_arp_mangle arp_send (tx + PROTO_MAC_HLEN) m
              in (Some ((PROTO_MAC_HLEN + PROTO_ARP_HLEN) OR frame_flags), m)))"

text \<open>\<^verbatim>\<open>(ip.version_length & 0xF) << 2\<close>, and the count given to \<^verbatim>\<open>memcpy\<close> for the data after the
  ICMP header: computed as an \<^verbatim>\<open>int\<close> and converted to the 32 bit \<^verbatim>\<open>size_t\<close>.\<close>

definition ip_hlen :: "IpHead \<Rightarrow> u32" where
  "ip_hlen ip = shl (ucast (ip_version_length ip AND 0xF)) 2"

definition icmp_data_length :: "IpHead \<Rightarrow> u32" where
  "icmp_data_length ip = ucast (ip_total_length ip) - ip_hlen ip - PROTO_ICMP_HLEN"

definition process_echo ::
  "addr option \<Rightarrow> u8 list \<Rightarrow> addr \<Rightarrow> EthHead \<Rightarrow> IpHead \<Rightarrow> IcmpHead \<Rightarrow> mem \<Rightarrow> u32 option \<times> mem" where
  "process_echo txd mac_addr rx eth ip icmp m =
     (let tmp = ip_src_addr ip;
          ip = ip\<lparr>ip_header_checksum := 0, ip_src_addr := ip_dst_addr ip, ip_dst_addr := tmp\<rparr>;
          icmp = icmp\<lparr>icmp_type := PROTO_ICMP_ECHO_REPLY, icmp_checksum := 0\<rparr>;
          eth_reply = \<lparr>eth_src = mac_addr, eth_dst = eth_src eth, eth_type = eth_type eth\<rparr>
      in case txd of None \<Rightarrow> (None, m)
      | Some tx \<Rightarrow>
          (let m = proto_eth_mangle eth_reply tx m;
               (ip, m) = proto_ip_mangle ip (tx + PROTO_MAC_HLEN) m;
               m = proto_icmp_mangle icmp (tx + (PROTO_MAC_HLEN + ip_hlen ip)) m;
               icmp_start = PROTO_MAC_HLEN + ip_hlen ip;
               m = snd (memcpy (tx + icmp_start + PROTO_ICMP_HLEN) (rx + icmp_start + PROTO_ICMP_HLEN)
                     (icmp_data_length ip) m);
               tmp = (ucast (proto_checksum m (tx + icmp_start) (ucast (ip_total_length ip) - ip_hlen ip)) :: u32);
               m = m(tx + (icmp_start + PROTO_ICMP_CSUM_OFFSET) := ucast (shr tmp 8 AND 0xFF));
               m = m(tx + (icmp_start + PROTO_ICMP_CSUM_OFFSET + 1) := ucast (tmp AND 0xFF))
           in (Some ((PROTO_MAC_HLEN + ucast (ip_total_length ip)) OR frame_flags), m)))"

definition process_ip ::
  "IcmpHead \<Rightarrow> addr option \<Rightarrow> u8 list \<Rightarrow> addr \<Rightarrow> EthHead \<Rightarrow> mem \<Rightarrow> u32 option \<times> mem" where
  "process_ip icmp_garbage txd mac_addr rx eth m =
     (let ip = proto_ip_demangle m (rx + PROTO_MAC_HLEN)
      in if ip_dst_addr ip \<noteq> my_ip then (None, m)
         else if ip_protocol ip = PROTO_ICMP
         then (let icmp = proto_icmp_demangle icmp_garbage m (rx + PROTO_MAC_HLEN + ip_hlen ip)
               in if icmp_type icmp = PROTO_ICMP_ECHO_REQUEST
                  then process_echo txd mac_addr rx eth ip icmp m else (None, m))
         else (None, m))"

text \<open>\<open>icmp_garbage\<close> is what the uninitialised \<^verbatim>\<open>IcmpHead\<close> holds.\<close>

definition process_packet ::
  "IcmpHead \<Rightarrow> addr option \<Rightarrow> u8 list \<Rightarrow> addr \<Rightarrow> mem \<Rightarrow> u32 option \<times> mem" where
  "process_packet icmp_garbage txd mac_addr rx m =
     (let eth = proto_eth_demangle m rx
      in if eth_type eth = PROTO_ARP then process_arp txd mac_addr rx eth m
         else if eth_type eth = PROTO_IP then process_ip icmp_garbage txd mac_addr rx eth m
         else (None, m))"

text \<open>The frames the handler answers, when a transmit buffer is free.\<close>

definition wants_answer :: "IcmpHead \<Rightarrow> mem \<Rightarrow> addr \<Rightarrow> bool" where
  "wants_answer icmp_garbage m rx =
     (let eth = proto_eth_demangle m rx
      in if eth_type eth = PROTO_ARP then arp_target_ip (proto_arp_demangle m (rx + PROTO_MAC_HLEN)) = my_ip
         else eth_type eth = PROTO_IP \<and>
           (let ip = proto_ip_demangle m (rx + PROTO_MAC_HLEN)
            in ip_dst_addr ip = my_ip \<and> ip_protocol ip = PROTO_ICMP \<and>
               icmp_type (proto_icmp_demangle icmp_garbage m (rx + PROTO_MAC_HLEN + ip_hlen ip)) =
                 PROTO_ICMP_ECHO_REQUEST))"

lemma wants_answer_iff: "fst (process_packet g (Some tx) mac rx m) \<noteq> None \<longleftrightarrow> wants_answer g m rx"
  by (auto simp: process_packet_def process_arp_def process_ip_def process_echo_def wants_answer_def Let_def
      split: prod.splits)

lemma unanswered:
  "process_packet g None mac rx m = (None, m)"
  "\<not> wants_answer g m rx \<Longrightarrow> process_packet g txd mac rx m = (None, m)"
  by (auto simp: process_packet_def process_arp_def process_ip_def process_echo_def wants_answer_def Let_def)

section \<open>ARP\<close>

lemmas proto_sizes = PROTO_MAC_HLEN_def PROTO_ARP_HLEN_def PROTO_ICMP_HLEN_def PROTO_ICMP_CSUM_OFFSET_def

lemma mac_length: "length (eth_src (proto_eth_demangle m a)) = 6" "length (arp_sender_mac (proto_arp_demangle m a)) = 6"
  by (simp_all add: proto_eth_demangle_def proto_arp_demangle_def get_put_defs)

text \<open>C33. An ARP frame whose target is the device is answered to its sender: the answer, read back,
  goes to the sender's hardware address, and tells it the hardware address of the device for
  \<^verbatim>\<open>my_ip\<close>. (The operation of the frame received is not looked at.)\<close>

theorem arp_answered:
  assumes "length mac = 6" and "eth_type (proto_eth_demangle m rx) = PROTO_ARP"
    and "arp_target_ip (proto_arp_demangle m (rx + 14)) = my_ip"
    and r: "process_packet g (Some tx) mac rx m = (control, m')"
  shows "control = Some (42 OR frame_flags) \<and>
    proto_eth_demangle m' tx =
      \<lparr>eth_src = mac, eth_dst = eth_src (proto_eth_demangle m rx), eth_type = PROTO_ARP\<rparr> \<and>
    proto_arp_demangle m' (tx + 14) =
      \<lparr>arp_hard_type = 1, arp_protocol_type = PROTO_IP, arp_hlen = 6, arp_plen = 4, arp_opcode = 2,
       arp_sender_mac = mac, arp_sender_ip = my_ip,
       arp_target_mac = arp_sender_mac (proto_arp_demangle m (rx + 14)),
       arp_target_ip = arp_sender_ip (proto_arp_demangle m (rx + 14))\<rparr> \<and>
    (\<forall>a. \<not> a - tx < 42 \<longrightarrow> m' a = m a)"
proof -
  let ?eth = "proto_eth_demangle m rx" and ?arp = "proto_arp_demangle m (rx + 14)"
  define e where "e = \<lparr>eth_src = mac, eth_dst = eth_src ?eth, eth_type = PROTO_ARP\<rparr>"
  define ar where "ar = \<lparr>arp_hard_type = 1, arp_protocol_type = PROTO_IP, arp_hlen = 6, arp_plen = 4,
      arp_opcode = 2, arp_sender_mac = mac, arp_sender_ip = my_ip,
      arp_target_mac = arp_sender_mac ?arp, arp_target_ip = arp_sender_ip ?arp\<rparr>"
  have c: "control = Some (42 OR frame_flags)"
    and m': "m' = proto_arp_mangle ar (tx + 14) (proto_eth_mangle e tx m)"
    using r assms(2,3) by (simp_all add: process_packet_def process_arp_def Let_def proto_sizes e_def ar_def)
  have f: "m' a = proto_eth_mangle e tx m a" if "\<not> (14 \<le> unat (a - tx) \<and> unat (a - tx) < 42)" for a
    using that arp_header.put_frame [of a "tx + 14" ar] region [of 14 28 "a - tx"] by (simp add: m' diff_diff_add)
  have "proto_eth_demangle m' tx = proto_eth_demangle (proto_eth_mangle e tx m) tx"
    by (rule eth_header.get_local) (simp add: f frame_regions)
  then have "proto_eth_demangle m' tx = e"
    using assms(1) mac_length by (simp add: eth_header.put_get e_def)
  moreover have "proto_arp_demangle m' (tx + 14) = ar"
    using assms(1) mac_length by (simp add: m' arp_header.put_get ar_def)
  moreover have "m' a = m a" if "\<not> a - tx < 42" for a
  proof -
    have "42 \<le> unat (a - tx)" using that by (simp add: word_less_nat_alt)
    then show ?thesis using f [of a] eth_header.put_frame [of a tx e m] by (simp add: frame_regions)
  qed
  ultimately show ?thesis using c by (simp add: e_def ar_def)
qed

lemma arp_answered_witness:
  "fst (process_packet \<lparr>icmp_type = 0, icmp_code = 0, icmp_checksum = 0, icmp_data = 0\<rparr>
     (Some 0x2007D000) [2, 3, 4, 5, 6, 7] 0x2007C000
     ((\<lambda>_. 1)(0x2007C00C := 8, 0x2007C00D := 6, 0x2007C026 := 192, 0x2007C027 := 168,
        0x2007C028 := 100, 0x2007C029 := 200))) = Some (42 OR frame_flags)"
proof -
  let ?m = "(\<lambda>_. 1)(0x2007C00C := 8, 0x2007C00D := 6, 0x2007C026 := 192, 0x2007C027 := 168,
        0x2007C028 := 100, 0x2007C029 := 200) :: mem"
  have t: "eth_type (proto_eth_demangle ?m 0x2007C000) = PROTO_ARP"
    by (simp add: proto_eth_demangle_def get_put_defs PROTO_ARP_def push_bit_eq_mult)
  have i: "arp_target_ip (proto_arp_demangle ?m (0x2007C000 + 14)) = my_ip"
    by (simp add: proto_arp_demangle_def get_put_defs my_ip_def push_bit_eq_mult)
  obtain c m' where r: "process_packet \<lparr>icmp_type = 0, icmp_code = 0, icmp_checksum = 0, icmp_data = 0\<rparr>
      (Some 0x2007D000) [2, 3, 4, 5, 6, 7] 0x2007C000 ?m = (c, m')" by (metis surj_pair)
  show ?thesis unfolding r using arp_answered [OF _ t i r] by simp
qed

section \<open>Echo\<close>

text \<open>The frames of at most 1514 bytes at \<open>rx\<close> and \<open>tx\<close> are in buffers that do not overlap.\<close>

definition buffers_apart :: "addr \<Rightarrow> addr \<Rightarrow> bool" where
  "buffers_apart tx rx \<longleftrightarrow> 1536 \<le> rx - tx \<and> 1536 \<le> tx - rx"

text \<open>The fixed part of the ICMP header of an answer, from the request's.\<close>

lemma echo_header:
  assumes "icmp_type (proto_icmp_demangle g m rx) = PROTO_ICMP_ECHO_REQUEST"
    and "x = proto_icmp_mangle ((proto_icmp_demangle g m rx)\<lparr>icmp_type := PROTO_ICMP_ECHO_REPLY, icmp_checksum := 0\<rparr>) tx m'"
  shows "x tx = PROTO_ICMP_ECHO_REPLY" and "x (tx + 1) = m (rx + 1)" and "x (tx + 2) = 0" and "x (tx + 3) = 0"
    and "k \<in> {4, 5, 6, 7} \<Longrightarrow> x (tx + k) = m (rx + k)"
  using assms
  by (auto simp: proto_icmp_demangle_def proto_icmp_mangle_def get_put_defs get_put_bytes
      split: if_splits simp del: drop_bit_or)


lemma checksum_bytes:
  "ucast (shr (ucast c :: u32) 8 AND 0xFF) = (ucast (shr c 8 AND 0xFF) :: u8)"
  "ucast ((ucast c :: u32) AND 0xFF) = (ucast (c AND 0xFF) :: u8)" for c :: u16
  by (rule bit_word_eqI, auto simp: numeral_masks bit_simps)+

lemma ip_hlen_bound:
  "5 \<le> unat (ip_version_length ip AND 0xF) \<Longrightarrow> 20 \<le> unat (ip_hlen ip)" "unat (ip_hlen ip) \<le> 60"
proof -
  have "unat (ip_version_length ip AND 0xF) < 16" by (simp add: numeral_masks unat_and_mask)
  then have "unat (ip_hlen ip) = 4 * unat (ip_version_length ip AND 0xF)"
    by (simp add: ip_hlen_def push_bit_eq_mult unat_word_ariths unat_ucast_mod)
  then show "5 \<le> unat (ip_version_length ip AND 0xF) \<Longrightarrow> 20 \<le> unat (ip_hlen ip)" "unat (ip_hlen ip) \<le> 60"
    using \<open>unat (ip_version_length ip AND 0xF) < 16\<close> by simp_all
qed

text \<open>Whether a frame wants an answer depends on its first 82 bytes.\<close>

lemma wants_local:
  assumes "\<And>k. k < 82 \<Longrightarrow> m' (rx + k) = m (rx + k)"
  shows "wants_answer g m' rx = wants_answer g m rx"
proof -
  have near: "m' a = m a" if "a - (rx + k) < l" "unat k + unat l \<le> 82" for a k l
    by (rule cells_local [OF _ that]) (rule assms)
  have "proto_eth_demangle m' rx = proto_eth_demangle m rx"
    by (rule eth_header.get_local) (use near [of _ 0 14] in simp)
  moreover have "proto_arp_demangle m' (rx + 14) = proto_arp_demangle m (rx + 14)"
    by (rule arp_header.get_local) (use near [of _ 14 28] in simp)
  moreover have "proto_ip_demangle m' (rx + 14) = proto_ip_demangle m (rx + 14)"
    by (rule ip_header.get_local) (use near [of _ 14 20] in simp)
  moreover have "proto_icmp_demangle g m' (rx + (14 + ip_hlen ip)) = proto_icmp_demangle g m (rx + (14 + ip_hlen ip))" for ip
  proof (rule icmp_header.get_local)
    have "unat (14 + ip_hlen ip) + unat (8 :: u32) \<le> 82"
      using ip_hlen_bound(2) [of ip] by (simp add: unat_word_ariths)
    then show "m' x = m x" if "x - (rx + (14 + ip_hlen ip)) < 8" for x using near [OF that] by simp
  qed
  ultimately show ?thesis by (simp add: wants_answer_def PROTO_MAC_HLEN_def add.assoc)
qed

text \<open>The sizes of a well formed request, as numbers: \<open>s\<close> is where the ICMP header starts, \<open>N\<close> the
  length of the ICMP message.\<close>

lemma echo_sizes:
  assumes "5 \<le> unat (ip_version_length ip AND 0xF)"
    and "unat (ip_hlen ip) + 8 \<le> unat (ip_total_length ip)" "unat (ip_total_length ip) \<le> 1500"
    and "N = unat (ip_total_length ip) - unat (ip_hlen ip)"
  shows "ucast (ip_total_length ip) - ip_hlen ip = (of_nat N :: u32)"
    and "unat (icmp_data_length ip) = N - 8"
    and "unat (14 + ip_hlen ip) = 14 + unat (ip_hlen ip)"
    and "20 \<le> unat (ip_hlen ip)" "unat (ip_hlen ip) \<le> 60" "8 \<le> N" "N + unat (ip_hlen ip) \<le> 1500"
proof -
  show h: "20 \<le> unat (ip_hlen ip)" "unat (ip_hlen ip) \<le> 60"
    using ip_hlen_bound [of ip] assms(1) by simp_all
  show b: "8 \<le> N" "N + unat (ip_hlen ip) \<le> 1500" using assms by simp_all
  have "unat (ucast (ip_total_length ip) :: u32) = unat (ip_total_length ip)"
    using assms(3) by (simp add: unat_ucast_mod)
  then have u: "unat (ucast (ip_total_length ip) - ip_hlen ip :: u32) = N"
    using assms by (simp add: unat_sub_if')
  moreover have "unat (of_nat N :: u32) = N" using b by (simp add: unat_of_nat)
  ultimately show "ucast (ip_total_length ip) - ip_hlen ip = (of_nat N :: u32)"
    by (simp only: word_unat_eq_iff)
  show "unat (icmp_data_length ip) = N - 8"
    using u b by (simp add: icmp_data_length_def PROTO_ICMP_HLEN_def unat_sub_if')
  show "unat (14 + ip_hlen ip) = 14 + unat (ip_hlen ip)"
    using h by (simp add: unat_word_ariths)
qed

text \<open>The answer as one expression: the headers, the copy of the data, the checksum.\<close>

definition echo_message :: "addr \<Rightarrow> addr \<Rightarrow> u32 \<Rightarrow> u32 \<Rightarrow> IcmpHead \<Rightarrow> mem \<Rightarrow> mem" where
  "echo_message tx rx s n icmp m =
     snd (memcpy (tx + s + 8) (rx + s + 8) n
       (proto_icmp_mangle (icmp\<lparr>icmp_type := PROTO_ICMP_ECHO_REPLY, icmp_checksum := 0\<rparr>) (tx + s) m))"

lemma process_echo_eq:
  assumes "ip_dst_addr ip = my_ip" and s: "s = 14 + ip_hlen ip"
    and c2: "proto_ip_mangle (ip\<lparr>ip_header_checksum := 0, ip_src_addr := my_ip, ip_dst_addr := ip_src_addr ip\<rparr>)
        (tx + 14) (proto_eth_mangle \<lparr>eth_src = mac, eth_dst = eth_src eth, eth_type = eth_type eth\<rparr> tx m) = (ip2, m2)"
    and m4: "m4 = echo_message tx rx s (icmp_data_length ip) icmp m2"
  shows "process_echo (Some tx) mac rx eth ip icmp m =
      (Some ((14 + ucast (ip_total_length ip)) OR frame_flags),
       snd (PUT_TWO (tx + s) 2 (proto_checksum m4 (tx + s) (ucast (ip_total_length ip) - ip_hlen ip)) m4))"
proof -
  have "ip2 = fst (proto_ip_mangle (ip\<lparr>ip_header_checksum := 0, ip_src_addr := my_ip, ip_dst_addr := ip_src_addr ip\<rparr>)
        (tx + 14) (proto_eth_mangle \<lparr>eth_src = mac, eth_dst = eth_src eth, eth_type = eth_type eth\<rparr> tx m))"
    using c2 by simp
  then have ip2: "ip_hlen ip2 = ip_hlen ip" "ip_total_length ip2 = ip_total_length ip"
    "icmp_data_length ip2 = icmp_data_length ip"
    by (simp_all add: proto_ip_mangle_def Let_def split_def ip_hlen_def icmp_data_length_def)
  have ad: "22 + ip_hlen ip = s + 8" "16 + ip_hlen ip = s + 2" "17 + ip_hlen ip = s + 3"
    by (simp_all add: s)
  have m4': "snd (memcpy (tx + (s + 8)) (rx + (s + 8)) (icmp_data_length ip) (proto_icmp_mangle
      (icmp\<lparr>icmp_type := PROTO_ICMP_ECHO_REPLY, icmp_checksum := 0\<rparr>) (tx + s) m2)) = m4"
    by (simp add: m4 echo_message_def add.assoc)
  show ?thesis
    using c2
    by (simp add: process_echo_def Let_def proto_sizes assms(1) ip2 s [symmetric] ad checksum_bytes m4'
        PUT_TWO_def add.assoc)
qed

text \<open>What the answer's ICMP message holds, and that nothing else changes.\<close>

lemma echo_message_bytes:
  assumes apart: "buffers_apart tx rx" and s: "34 \<le> unat s" "unat s \<le> 74" and N: "8 \<le> N" "unat s + N \<le> 1514"
    and n: "unat n = N - 8" and ok: "memcpy_ok (tx + s + 8) (rx + s + 8) n"
    and req: "icmp_type (proto_icmp_demangle g m (rx + s)) = PROTO_ICMP_ECHO_REQUEST"
    and m2: "\<And>a. 34 \<le> unat (a - tx) \<Longrightarrow> m2 a = m a"
    and m4: "m4 = echo_message tx rx s n (proto_icmp_demangle g m (rx + s)) m2"
  shows "m4 (tx + s) = PROTO_ICMP_ECHO_REPLY" and "m4 (tx + s + 2) = 0" and "m4 (tx + s + 3) = 0"
    and "4 \<le> unat k \<Longrightarrow> unat k < N \<Longrightarrow> m4 (tx + s + k) = m (rx + s + k)"
    and "\<not> (unat s \<le> unat (a - tx) \<and> unat (a - tx) < unat s + N) \<Longrightarrow> m4 a = m2 a"
proof -
  define m3 where "m3 = proto_icmp_mangle ((proto_icmp_demangle g m (rx + s))\<lparr>icmp_type := PROTO_ICMP_ECHO_REPLY,
      icmp_checksum := 0\<rparr>) (tx + s) m2"
  note hd = echo_header [OF req m3_def]
  have f3: "m3 a = m2 a" if "\<not> (unat s \<le> unat (a - tx) \<and> unat (a - tx) < unat s + 8)" for a
    using that icmp_header.put_frame [of a "tx + s"] region [of s 8 "a - tx"] s by (simp add: m3_def diff_diff_add)
  have "memcpy_apart (tx + s + 8) (rx + s + 8) n"
    using ok apart n N by (auto simp: memcpy_apart_def buffers_apart_def word_le_nat_alt)
  then have cp: "m4 a = (if a - (tx + s + 8) < n then m3 (rx + s + 8 + (a - (tx + s + 8))) else m3 a)" for a
    by (simp add: m4 echo_message_def m3_def memcpy.copy_apply)
  have f4: "m4 a = m3 a" if "\<not> (unat s + 8 \<le> unat (a - tx) \<and> unat (a - tx) < unat s + N)" for a
  proof -
    have "unat (s + 8) = unat s + 8" using s by (simp add: unat_word_ariths)
    then have "\<not> a - (tx + s + 8) < n"
      using that region [of "s + 8" n "a - tx"] n s N by (simp add: diff_diff_add add.assoc)
    then show ?thesis by (simp add: cp)
  qed
  show "m4 a = m2 a" if "\<not> (unat s \<le> unat (a - tx) \<and> unat (a - tx) < unat s + N)" for a
    using that f3 [of a] f4 [of a] N by auto
  have at: "unat (tx + s + k - tx) = unat s + unat k" if "unat k < 1500" for k
  proof -
    have "tx + s + k - tx = s + k" by simp
    then show ?thesis using that s by (simp add: unat_word_ariths)
  qed
  have near: "m4 (tx + s + k) = m3 (tx + s + k)" if "unat k < 8" for k
    using f4 [of "tx + s + k"] at [of k] that by simp
  show "m4 (tx + s) = PROTO_ICMP_ECHO_REPLY" using near [of 0] hd(1) by simp
  show "m4 (tx + s + 2) = 0" "m4 (tx + s + 3) = 0" using near [of 2] near [of 3] hd(3,4) by simp_all
  show "m4 (tx + s + k) = m (rx + s + k)" if k: "4 \<le> unat k" "unat k < N" for k
  proof (cases "unat k < 8")
    case True
    then have "unat k \<in> {4, 5, 6, 7}" using k by auto
    then have "of_nat (unat k) \<in> (of_nat ` {4, 5, 6, 7} :: u32 set)" by (rule imageI)
    then have "k \<in> {4, 5, 6, 7}" by simp
    then show ?thesis using hd(5) [of k] near [OF True] by simp
  next
    case False
    have d: "tx + s + k - (tx + s + 8) = k - 8" by simp
    have "k - 8 < n" using n k False by (simp add: word_less_nat_alt unat_sub_if')
    then have "m4 (tx + s + k) = m3 (rx + (s + k))" using cp [of "tx + s + k"] d by (simp add: add.assoc)
    moreover have "1536 \<le> unat (rx + (s + k) - tx)"
      using outside_block [of 1536 rx tx 1536 "s + k"] apart k s N
      by (simp add: buffers_apart_def word_less_nat_alt unat_word_ariths)
    then have "m3 (rx + (s + k)) = m (rx + (s + k))" using s N by (simp add: f3 m2)
    ultimately show ?thesis by (simp add: add.assoc)
  qed
qed

text \<open>The answer to an echo request, and that it stays in the transmit buffer.\<close>

lemma echo_reply:
  assumes apart: "buffers_apart tx rx" and "length mac = 6"
    and "eth_type (proto_eth_demangle m rx) = PROTO_IP"
    and ip: "ip = proto_ip_demangle m (rx + 14)"
    and "ip_dst_addr ip = my_ip" and "ip_protocol ip = PROTO_ICMP"
    and h: "5 \<le> unat (ip_version_length ip AND 0xF)"
    and len: "unat (ip_hlen ip) + 8 \<le> unat (ip_total_length ip)" "unat (ip_total_length ip) \<le> 1500"
    and s: "s = 14 + ip_hlen ip"
    and req: "icmp_type (proto_icmp_demangle g m (rx + s)) = PROTO_ICMP_ECHO_REQUEST"
    and ok: "memcpy_ok (tx + s + 8) (rx + s + 8) (icmp_data_length ip)"
    and r: "process_packet g (Some tx) mac rx m = (control, m')"
  shows "control = Some ((14 + ucast (ip_total_length ip)) OR frame_flags) \<and>
    proto_eth_demangle m' tx =
      \<lparr>eth_src = mac, eth_dst = eth_src (proto_eth_demangle m rx), eth_type = PROTO_IP\<rparr> \<and>
    proto_checksum m' (tx + 14) (ip_hlen ip) = 0 \<and>
    (let ip' = proto_ip_demangle m' (tx + 14)
     in ip_src_addr ip' = my_ip \<and> ip_dst_addr ip' = ip_src_addr ip \<and>
        ip_total_length ip' = ip_total_length ip) \<and>
    proto_checksum m' (tx + s) (ucast (ip_total_length ip) - ip_hlen ip) = 0 \<and>
    m' (tx + s) = PROTO_ICMP_ECHO_REPLY \<and>
    (\<forall>k. 4 \<le> k \<longrightarrow> k < ucast (ip_total_length ip) - ip_hlen ip \<longrightarrow> m' (tx + s + k) = m (rx + s + k)) \<and>
    (\<forall>a. \<not> a - tx < 1514 \<longrightarrow> m' a = m a)"
proof -
  let ?eth = "proto_eth_demangle m rx" and ?hl = "unat (ip_hlen ip)" and ?icmp = "proto_icmp_demangle g m (rx + s)"
  define N where "N = unat (ip_total_length ip) - ?hl"
  note size = echo_sizes [OF h len N_def, folded s]
  define e where "e = \<lparr>eth_src = mac, eth_dst = eth_src ?eth, eth_type = eth_type ?eth\<rparr>"
  define ip1 where "ip1 = ip\<lparr>ip_header_checksum := 0, ip_src_addr := my_ip, ip_dst_addr := ip_src_addr ip\<rparr>"
  define m1 where "m1 = proto_eth_mangle e tx m"
  obtain ip2 m2 where c2: "proto_ip_mangle ip1 (tx + 14) m1 = (ip2, m2)" by (metis surj_pair)
  define m4 where "m4 = echo_message tx rx s (icmp_data_length ip) ?icmp m2"
  have "process_packet g (Some tx) mac rx m = process_echo (Some tx) mac rx ?eth ip ?icmp m"
    using assms(3,5,6) req
    by (simp add: process_packet_def process_ip_def Let_def PROTO_MAC_HLEN_def PROTO_IP_def PROTO_ARP_def
        ip [symmetric] s add.assoc)
  then have res: "control = Some ((14 + ucast (ip_total_length ip)) OR frame_flags)"
    and m': "m' = snd (PUT_TWO (tx + s) 2 (proto_checksum m4 (tx + s) (of_nat N)) m4)"
    using r process_echo_eq [OF assms(5) s c2 [unfolded ip1_def m1_def e_def] m4_def] by (simp_all add: size(1))
  have v1: "ip_version_length ip1 = ip_version_length ip" by (simp add: ip1_def)
  have ipz: "ip_header_checksum ip1 = 0" "3 \<le> unat (ip_version_length ip1 AND 0xF)"
    using h by (simp_all add: ip1_def)
  note checked = ip_mangle_checked [OF ipz c2, unfolded v1, folded ip_hlen_def]
  have f1: "m1 a = m a" if "\<not> unat (a - tx) < 14" for a
    using that by (simp add: m1_def eth_header.put_frame frame_regions)
  have f2: "m2 a = m1 a" if "\<not> (14 \<le> unat (a - tx) \<and> unat (a - tx) < 34)" for a
    using that checked by (simp add: frame_regions)
  have far: "m2 a = m a" if "34 \<le> unat (a - tx)" for a using that by (simp add: f2 f1)
  have sz: "34 \<le> unat s" "unat s \<le> 74" "unat s + N \<le> 1514" using size by simp_all
  note msg = echo_message_bytes [OF apart sz(1,2) size(6) sz(3) size(2) ok req far m4_def]
  have put: "m' (tx + s + k) = m4 (tx + s + k)" if "k \<noteq> 2" "k \<noteq> 3" for k
    using that by (simp add: m' get_put_defs)
  have same: "m' a = m2 a" if "unat (a - tx) < unat s" for a
  proof -
    have "unat (tx + s + 2 - tx) = unat s + 2" "unat (tx + s + 3 - tx) = unat s + 3"
      using size by (simp_all add: unat_word_ariths)
    then have "a \<noteq> tx + s + 2" "a \<noteq> tx + s + 3" using that by auto
    then show ?thesis using msg(5) [of a] that by (simp add: m' get_put_defs)
  qed
  have "proto_eth_demangle m' tx = proto_eth_demangle m1 tx"
    using size by (intro eth_header.get_local) (simp add: same f2 frame_regions)
  then have eth: "proto_eth_demangle m' tx = e"
    using assms(2) mac_length by (simp add: m1_def eth_header.put_get e_def)
  have ip': "proto_ip_demangle m' (tx + 14) = ip2"
    using ip_header.get_local [of "tx + 14" m' m2] same checked size by (simp add: frame_regions)
  have "proto_checksum m' (tx + 14) (of_nat ?hl) = proto_checksum m2 (tx + 14) (of_nat ?hl)"
  proof (rule checksum_local)
    show "m' a = m2 a" if "a - (tx + 14) < of_nat ?hl" for a
      using that region [of 14 "ip_hlen ip" "a - tx"] same size by (simp add: diff_diff_add)
  qed (use size in simp)
  then have c1: "proto_checksum m' (tx + 14) (ip_hlen ip) = 0" using checked by simp
  have c3: "proto_checksum m' (tx + s) (of_nat N) = 0"
    using size m' msg(2,3) by (intro checksum_of_checked [of 2 N m4 "tx + s"]) (simp_all add: add.assoc)
  have "m' (tx + s + k) = m (rx + s + k)" if k: "4 \<le> k" "k < of_nat N" for k
  proof -
    have "4 \<le> unat k" "unat k < N" "k \<noteq> 2" "k \<noteq> 3"
      using k size by (auto simp: word_le_nat_alt word_less_nat_alt unat_of_nat)
    then show ?thesis using msg(4) [of k] put [of k] by simp
  qed
  moreover have "m' a = m a" if "\<not> a - tx < 1514" for a
  proof -
    have u: "1514 \<le> unat (a - tx)" using that by (simp add: word_le_nat_alt not_less)
    have "unat (tx + s + 2 - tx) = unat s + 2" "unat (tx + s + 3 - tx) = unat s + 3"
      using size by (simp_all add: unat_word_ariths)
    then have "a \<noteq> tx + s + 2" "a \<noteq> tx + s + 3" using u sz by auto
    then have "m' a = m4 a" by (simp add: m' get_put_defs)
    also have "\<dots> = m2 a" using msg(5) [of a] u sz by simp
    finally show ?thesis using u far [of a] by simp
  qed
  moreover obtain x where "ip2 = ip1\<lparr>ip_header_checksum := x\<rparr>" using checked by metis
  moreover have "m' (tx + s) = PROTO_ICMP_ECHO_REPLY" using msg(1) put [of 0] by simp
  ultimately show ?thesis
    by (simp add: res eth e_def c1 c3 ip' ip1_def Let_def size(1) assms(3))
qed


text \<open>C11. An echo request for the device, with a header of at least twenty bytes and a total length from the
  eight bytes after that header up to 1500, handled with a free transmit descriptor and a transmit buffer
  apart from the received frame, is answered: the answer goes back to the sender's hardware and IP address, both
  checksums are correct, and it carries the identifier, the sequence number and the data of the
  request. (One to three bytes of data between word aligned addresses are the case \<^verbatim>\<open>memcpy\<close> does
  not serve. The handler tests neither bound of the length: below it asks for almost the whole address space,
  above it writes past the end of the transmit buffer.)\<close>

theorem echo_answered:
  assumes apart: "buffers_apart tx rx" and "length mac = 6"
    and "eth_type (proto_eth_demangle m rx) = PROTO_IP"
    and ip: "ip = proto_ip_demangle m (rx + 14)"
    and "ip_dst_addr ip = my_ip" and "ip_protocol ip = PROTO_ICMP"
    and h: "5 \<le> unat (ip_version_length ip AND 0xF)"
    and len: "unat (ip_hlen ip) + 8 \<le> unat (ip_total_length ip)" "unat (ip_total_length ip) \<le> 1500"
    and s: "s = 14 + ip_hlen ip"
    and req: "icmp_type (proto_icmp_demangle g m (rx + s)) = PROTO_ICMP_ECHO_REQUEST"
    and ok: "memcpy_ok (tx + s + 8) (rx + s + 8) (icmp_data_length ip)"
    and r: "process_packet g (Some tx) mac rx m = (control, m')"
  shows "control = Some ((14 + ucast (ip_total_length ip)) OR frame_flags) \<and>
    proto_eth_demangle m' tx =
      \<lparr>eth_src = mac, eth_dst = eth_src (proto_eth_demangle m rx), eth_type = PROTO_IP\<rparr> \<and>
    proto_checksum m' (tx + 14) (ip_hlen ip) = 0 \<and>
    (let ip' = proto_ip_demangle m' (tx + 14)
     in ip_src_addr ip' = my_ip \<and> ip_dst_addr ip' = ip_src_addr ip \<and>
        ip_total_length ip' = ip_total_length ip) \<and>
    proto_checksum m' (tx + s) (ucast (ip_total_length ip) - ip_hlen ip) = 0 \<and>
    m' (tx + s) = PROTO_ICMP_ECHO_REPLY \<and>
    (\<forall>k. 4 \<le> k \<longrightarrow> k < ucast (ip_total_length ip) - ip_hlen ip \<longrightarrow> m' (tx + s + k) = m (rx + s + k))"
  using echo_reply [OF assms] by blast

lemma echo_answered_witness:
  "proto_checksum (snd (process_packet \<lparr>icmp_type = 0, icmp_code = 0, icmp_checksum = 0, icmp_data = 0\<rparr>
     (Some 0x2007E000) [2, 3, 4, 5, 6, 7] 0x2007C000
     ((\<lambda>_. 0)(0x2007C00C := 8, 0x2007C00E := 0x45, 0x2007C011 := 32, 0x2007C017 := 1,
        0x2007C01E := 192, 0x2007C01F := 168, 0x2007C020 := 100, 0x2007C021 := 200,
        0x2007C022 := 8)))) (0x2007E000 + 34) 12 = 0"
proof -
  let ?m = "(\<lambda>_. 0)(0x2007C00C := 8, 0x2007C00E := 0x45, 0x2007C011 := 32, 0x2007C017 := 1,
        0x2007C01E := 192, 0x2007C01F := 168, 0x2007C020 := 100, 0x2007C021 := 200,
        0x2007C022 := 8) :: mem"
  let ?g = "\<lparr>icmp_type = 0, icmp_code = 0, icmp_checksum = 0, icmp_data = 0\<rparr>"
  define ip where "ip = proto_ip_demangle ?m (0x2007C000 + 14)"
  have v: "ip_version_length ip = 0x45" "ip_total_length ip = 32" "ip_dst_addr ip = my_ip"
    "ip_protocol ip = PROTO_ICMP"
    by (simp_all add: ip_def proto_ip_demangle_def get_put_defs my_ip_def PROTO_ICMP_def push_bit_eq_mult)
  have hl: "ip_hlen ip = 20" and n: "icmp_data_length ip = 4"
    by (simp_all add: ip_hlen_def icmp_data_length_def v push_bit_eq_mult PROTO_ICMP_HLEN_def)
  have a: "buffers_apart 0x2007E000 0x2007C000" by (simp add: buffers_apart_def)
  have t: "eth_type (proto_eth_demangle ?m 0x2007C000) = PROTO_IP"
    by (simp add: proto_eth_demangle_def get_put_defs PROTO_IP_def push_bit_eq_mult)
  have q: "icmp_type (proto_icmp_demangle ?g ?m (0x2007C000 + 34)) = PROTO_ICMP_ECHO_REQUEST"
    by (simp add: proto_icmp_demangle_def get_put_defs PROTO_ICMP_ECHO_REQUEST_def PROTO_ICMP_ECHO_REPLY_def)
  have ok: "memcpy_ok (0x2007E000 + 34 + 8) (0x2007C000 + 34 + 8) (icmp_data_length ip)"
    by (simp add: n memcpy_ok_def)
  have h: "5 \<le> unat (ip_version_length ip AND 0xF)" "unat (ip_hlen ip) + 8 \<le> unat (ip_total_length ip)"
    "unat (ip_total_length ip) \<le> 1500" "(34 :: u32) = 14 + ip_hlen ip" "length [2, 3, 4, 5, 6, 7 :: u8] = 6"
    by (simp_all add: v hl)
  obtain c m' where r: "process_packet ?g (Some 0x2007E000) [2, 3, 4, 5, 6, 7] 0x2007C000 ?m = (c, m')"
    by (metis surj_pair)
  show ?thesis unfolding r
    using echo_answered [OF a h(5) t ip_def v(3,4) h(1-4) q ok r] by (simp add: hl v)
qed

text \<open>The count the handler gives \<^verbatim>\<open>memcpy\<close>, as a number: it wraps around when the total length does not
  cover the headers.\<close>

definition echo_count :: "IpHead \<Rightarrow> nat" where
  "echo_count ip =
     (if unat (ip_total_length ip) < unat (ip_hlen ip) + 8
      then 2 ^ 32 + unat (ip_total_length ip) - (unat (ip_hlen ip) + 8)
      else unat (ip_total_length ip) - (unat (ip_hlen ip) + 8))"

lemma icmp_data_count: "unat (icmp_data_length ip) = echo_count ip"
proof -
  have "unat (ip_hlen ip) \<le> 60" by (rule ip_hlen_bound)
  moreover have "unat (ucast (ip_total_length ip) :: u32) = unat (ip_total_length ip)"
    using unsigned_less [of "ip_total_length ip", where 'a = nat] by (simp add: unat_ucast_mod)
  moreover have "unat (ip_hlen ip + 8) = unat (ip_hlen ip) + 8"
    using calculation(1) by (simp add: unat_word_ariths)
  moreover have "icmp_data_length ip = ucast (ip_total_length ip) - (ip_hlen ip + 8)"
    by (simp add: icmp_data_length_def PROTO_ICMP_HLEN_def diff_diff_add)
  ultimately show ?thesis by (simp add: unat_sub_if' echo_count_def)
qed

lemma echo_overrun_ok:
  assumes "unat (ip_total_length ip) \<le> unat (ip_hlen ip) \<or> 1500 < unat (ip_total_length ip)"
  shows "memcpy_ok d s (icmp_data_length ip)"
proof -
  have "unat (ip_total_length ip) < 65536" using unsigned_less [of "ip_total_length ip", where 'a = nat] by simp
  then show ?thesis
    using assms ip_hlen_bound(2) [of ip] icmp_data_count [of ip]
    by (auto simp: memcpy_ok_def echo_count_def split: if_splits)
qed



end
