(* ===== verification/Simple_Net.thy ===== *)
theory Simple_Net
  imports Eth_Ring Gpio Iap Protocols
begin

text \<open>
  \<^verbatim>\<open>samples/dhcp/simple_net.c\<close>: the packet interface the DHCP client stands on. It composes the
  descriptor rings (Eth_Ring), memcpy (TinyMem), the start of the MAC (Ethernet) and the serial
  number in the boot ROM (Iap). Descriptors, status words and packets are in the memory the
  hardware shares, so memory is a part of the state of the device: \<open>ram_of\<close> reads it, \<open>ram_upd\<close>
  is a store. The contract of sending is the locale \<open>net_tx\<close>, that of receiving \<open>net_rx\<close>. What is
  printed on the console is left out.
\<close>

section \<open>Memory shared with the hardware\<close>

record 'd ram =
  ram_of :: "'d \<Rightarrow> mem"
  ram_upd :: "(mem \<Rightarrow> mem) \<Rightarrow> 'd \<Rightarrow> 'd"

definition RX_BUFFER_SIZE :: u32 where "RX_BUFFER_SIZE = RFLPC_ETH_MAX_FRAME_LENGTH"
definition RX_BUFFER_COUNT :: nat where "RX_BUFFER_COUNT = 8"
definition TX_BUFFER_SIZE :: u32 where "TX_BUFFER_SIZE = RFLPC_ETH_MAX_FRAME_LENGTH"
definition TX_BUFFER_COUNT :: nat where "TX_BUFFER_COUNT = 8"
definition RFLPC_ETH_IRQ_EN_RX_DONE :: u32 where "RFLPC_ETH_IRQ_EN_RX_DONE = shl 1 3"

text \<open>Where the linker puts the static arrays of the file.\<close>

record net_statics =
  rx_desc :: addr
  rx_status :: addr
  tx_desc :: addr
  tx_status :: addr
  rxbuffers :: addr
  txbuffers :: addr
  mac_addr :: addr

text \<open>The element \<open>i\<close> of the arrays of buffers: they are declared \<^verbatim>\<open>[SIZE][COUNT]\<close>, so it is a row of
  \<^verbatim>\<open>COUNT\<close> bytes.\<close>

definition rx_buffer_row :: "net_statics \<Rightarrow> nat \<Rightarrow> addr" where
  "rx_buffer_row S i = rxbuffers S + of_nat (RX_BUFFER_COUNT * i)"

definition tx_buffer_row :: "net_statics \<Rightarrow> nat \<Rightarrow> addr" where
  "tx_buffer_row S i = txbuffers S + of_nat (TX_BUFFER_COUNT * i)"

section \<open>Reception\<close>

text \<open>The callback of the handler is \<^const>\<open>None\<close> when the pointer is \<^verbatim>\<open>NULL\<close>.\<close>

partial_function (option) rx_loop ::
  "'d device \<Rightarrow> 'd ram \<Rightarrow> (addr \<Rightarrow> u16 \<Rightarrow> 'd \<Rightarrow> 'd) option \<Rightarrow> 'd \<Rightarrow> 'd option" where
  "rx_loop D M rx_callback d =
     (let (r, d) = rflpc_eth_get_current_rx_packet_descriptor D d
      in case r of
           None \<Rightarrow> Some d
         | Some p \<Rightarrow>
             (let d = (case rx_callback of
                   None \<Rightarrow> d
                 | Some f \<Rightarrow> f (ld32 (ram_of M d) (fst p))
                     (ucast (rflpc_eth_get_packet_size (ld32 (ram_of M d) (snd p)))) d)
              in rx_loop D M rx_callback (rflpc_eth_done_process_rx_packet D d)))"

definition eth_handler ::
  "'d device \<Rightarrow> 'd ram \<Rightarrow> (addr \<Rightarrow> u16 \<Rightarrow> 'd \<Rightarrow> 'd) option \<Rightarrow> 'd \<Rightarrow> 'd option" where
  "eth_handler D M rx_callback d =
     (let (s, d) = rflpc_eth_irq_get_status D d
      in case (if s AND RFLPC_ETH_IRQ_EN_RX_DONE \<noteq> 0 then rx_loop D M rx_callback d else Some d) of
           None \<Rightarrow> None
         | Some d \<Rightarrow> (let (s, d) = rflpc_eth_irq_get_status D d in Some (rflpc_eth_irq_clear D s d)))"

section \<open>Transmission\<close>

partial_function (option) simple_net_get_tx_buffer ::
  "'d device \<Rightarrow> 'd ram \<Rightarrow> 'd \<Rightarrow> (addr \<times> 'd) option" where
  "simple_net_get_tx_buffer D M d =
     (let (r, d) = rflpc_eth_get_current_tx_packet_descriptor D 0 d
      in case r of
           None \<Rightarrow> simple_net_get_tx_buffer D M d
         | Some p \<Rightarrow> Some (ld32 (ram_of M d) (fst p), d))"

text \<open>\<^verbatim>\<open>txd\<close> stays \<^verbatim>\<open>NULL\<close> when no descriptor is free.\<close>

definition simple_net_emit_buffer ::
  "'d device \<Rightarrow> 'd ram \<Rightarrow> addr \<Rightarrow> u16 \<Rightarrow> bool \<Rightarrow> 'd \<Rightarrow> 'd" where
  "simple_net_emit_buffer D M mac size_to_send auto_mac d =
     (let (r, d) = rflpc_eth_get_current_tx_packet_descriptor D 0 d;
          txd = (case r of None \<Rightarrow> 0 | Some p \<Rightarrow> fst p);
          d = (if auto_mac
               then ram_upd M (\<lambda>m. snd (memcpy (ld32 m txd + 6) mac 6 m)) d
               else d);
          d = ram_upd M (st32 (txd + 4) (rflpc_eth_set_tx_control_word (ucast size_to_send) 0 1)) d
      in rflpc_eth_done_process_tx_packet D 1 d)"

section \<open>Initialisation\<close>

definition store_mac :: "addr \<Rightarrow> u8 list \<Rightarrow> mem \<Rightarrow> mem" where
  "store_mac a b m = m(a := b ! 0, a + 1 := b ! 1, a + 2 := b ! 2, a + 3 := b ! 3, a + 4 := b ! 4, a + 5 := b ! 5)"

definition mbed_auto_set_mac ::
  "'r iap_function \<Rightarrow> 'd ram \<Rightarrow> addr \<Rightarrow> 'r flash_state \<times> 'd \<Rightarrow> 'r flash_state \<times> 'd" where
  "mbed_auto_set_mac iap M a st =
     (let (fl, d) = st; (serial, fl) = rflpc_iap_get_serial_number iap fl
      in case serial of
           None \<Rightarrow> (fl, d)
         | Some s \<Rightarrow> (fl, ram_upd M (store_mac a [2, 3, ucast (s ! 0 AND 0xFF), ucast (s ! 1 AND 0xFF),
             ucast (s ! 2 AND 0xFF), ucast (s ! 3 AND 0xFF)]) d))"

definition init_rx_descriptor :: "net_statics \<Rightarrow> 'd ram \<Rightarrow> nat \<Rightarrow> 'd \<Rightarrow> 'd" where
  "init_rx_descriptor S M i d =
     (let a = rx_desc S + sizeof_descriptor * of_nat i;
          d = ram_upd M (st32 a (rx_buffer_row S i)) d;
          d = ram_upd M (st32 (a + 4) ((RX_BUFFER_SIZE - 1) OR shl 1 31)) d
      in d)"

definition init_rx_descriptors :: "net_statics \<Rightarrow> 'd ram \<Rightarrow> 'd \<Rightarrow> 'd" where
  "init_rx_descriptors S M = fold (init_rx_descriptor S M) [0..<RX_BUFFER_COUNT]"

definition init_tx_descriptor :: "net_statics \<Rightarrow> 'd ram \<Rightarrow> nat \<Rightarrow> 'd \<Rightarrow> 'd" where
  "init_tx_descriptor S M i =
     ram_upd M (st32 (tx_desc S + sizeof_descriptor * of_nat i) (tx_buffer_row S i))"

definition init_tx_descriptors :: "net_statics \<Rightarrow> 'd ram \<Rightarrow> 'd \<Rightarrow> 'd" where
  "init_tx_descriptors S M = fold (init_tx_descriptor S M) [0..<TX_BUFFER_COUNT]"

text \<open>\<^verbatim>\<open>while (!rflpc_eth_link_state());\<close>\<close>

partial_function (option) wait_link :: "'d device \<Rightarrow> 'd \<Rightarrow> 'd option" where
  "wait_link D d =
     (case rflpc_eth_link_state D d of
        None \<Rightarrow> None
      | Some p \<Rightarrow> if fst p then Some (snd p) else wait_link D (snd p))"

text \<open>\<open>handler\<close> is the address of \<^verbatim>\<open>eth_handler\<close>; the state is the flash, the vector table and the device.\<close>

definition simple_net_ethernet_init ::
  "'d device \<Rightarrow> 'r iap_function \<Rightarrow> 'd ram \<Rightarrow> net_statics \<Rightarrow> u32 \<Rightarrow> u32 \<Rightarrow>
   'r flash_state \<times> u32 list \<times> 'd \<Rightarrow> ('r flash_state \<times> u32 list \<times> 'd) option" where
  "simple_net_ethernet_init D iap M S system_clock handler st =
     (let (fl, v, d) = st;
          (fl, d) = mbed_auto_set_mac iap M (mac_addr S) (fl, d)
      in case rflpc_eth_init D system_clock d of
           None \<Rightarrow> None
         | Some (_, d) \<Rightarrow>
             (let d = rflpc_eth_set_mac_address D (bytes_at (ram_of M d) (mac_addr S) 6) d;
                  (a, d) = rflpc_eth_get_mac_address D d;
                  d = ram_upd M (store_mac (mac_addr S) a) d;
                  d = rflpc_led_val D 0 d
              in case wait_link D d of
                   None \<Rightarrow> None
                 | Some d \<Rightarrow>
                     (let (v, d) = rflpc_eth_set_irq_handler D handler (v, d);
                          d = rflpc_eth_irq_enable_set D RFLPC_ETH_IRQ_EN_RX_DONE d;
                          d = init_rx_descriptors S M d;
                          d = rflpc_eth_set_rx_base_addresses D (rx_desc S) (rx_status S) (of_nat RX_BUFFER_COUNT) d;
                          d = init_tx_descriptors S M d;
                          d = rflpc_eth_set_tx_base_addresses D (tx_desc S) (tx_status S) (of_nat TX_BUFFER_COUNT) d
                      in Some (fl, v, d))))"

section \<open>A loop over received frames\<close>

lemma get_rx_keeps:
  assumes "\<And>a d. P d \<Longrightarrow> P (snd (dev_rd D a d))" and "P d"
  shows "P (snd (rflpc_eth_get_current_rx_packet_descriptor D d))"
  using assms by (simp add: rflpc_eth_get_current_rx_packet_descriptor_def split_def Let_def)

lemma done_rx_keeps:
  assumes "\<And>a d. P d \<Longrightarrow> P (snd (dev_rd D a d))" and "\<And>v d. P d \<Longrightarrow> P (dev_wr D EMAC_RxConsumeIndex v d)"
    and "P d"
  shows "P (rflpc_eth_done_process_rx_packet D d)"
  using assms by (simp add: rflpc_eth_done_process_rx_packet_def rmw_def split_def Let_def)

context eth_rx
begin

text \<open>What a loop over the received frames does, for any invariant and any record \<open>T\<close> of what the frames
  handed over have brought about: \<open>f\<close> is what the loop does with a descriptor, \<open>tail\<close> what it does after it has
  given it back.\<close>

lemma frame_loop_rule:
  assumes loop: "\<And>d. L d = (case rflpc_eth_get_current_rx_packet_descriptor D d of
        (None, e) \<Rightarrow> Some e | (Some p, e) \<Rightarrow> L (tail (rflpc_eth_done_process_rx_packet D (f p e))))"
    and I: "I d" and ok: "ring_ok n (processed d) (received d)" and refl: "\<And>d. I d \<Longrightarrow> T d [] d"
    and trans: "\<And>d xs e ys g. T d xs e \<Longrightarrow> T e ys g \<Longrightarrow> T d (xs @ ys) g"
    and bounded: "\<And>d. I d \<Longrightarrow> received d \<le> bound d"
    and read: "\<And>d a. I d \<Longrightarrow> I (snd (dev_rd D a d)) \<and> bound (snd (dev_rd D a d)) \<le> bound d \<and> T d [] (snd (dev_rd D a d))"
    and consume: "\<And>d v. I d \<Longrightarrow> I (dev_wr D EMAC_RxConsumeIndex v d) \<and>
        bound (dev_wr D EMAC_RxConsumeIndex v d) \<le> bound d \<and> T d [] (dev_wr D EMAC_RxConsumeIndex v d)"
    and call: "\<And>d d'. I d \<Longrightarrow> ring_ok n (processed d) (received d) \<Longrightarrow> processed d < received d \<Longrightarrow>
        d' = f (db + 8 * of_nat (processed d mod n), sb + 8 * of_nat (processed d mod n)) d \<Longrightarrow>
        I d' \<and> rx_moves n processed received d d' \<and> bound d' \<le> bound d \<and> T d [processed d] d'"
    and tail: "\<And>d. I d \<Longrightarrow> ring_ok n (processed d) (received d) \<Longrightarrow>
        I (tail d) \<and> rx_moves n processed received d (tail d) \<and> bound (tail d) \<le> bound d \<and> T d [] (tail d)"
  shows "\<exists>d'. L d = Some d' \<and> I d' \<and> received d' = processed d' \<and>
    received d \<le> received d' \<and> processed d \<le> processed d' \<and> T d [processed d..<processed d'] d'"
proof -
  define J where "J = (\<lambda>d e. I e \<and> T d [] e \<and> bound e \<le> bound d)"
  have step: "J d x" if "J d e" "I x \<and> bound x \<le> bound e \<and> T e [] x" for d e x
    using that trans [of d "[]" e "[]" x] unfolding J_def by simp
  have J_read: "J d (snd (dev_rd D a e))" if "J d e" for a d e
    by (rule step [OF that]) (use that read in \<open>simp add: J_def\<close>)
  have J_consume: "J d (dev_wr D EMAC_RxConsumeIndex v e)" if "J d e" for v d e
    by (rule step [OF that]) (use that consume in \<open>simp add: J_def\<close>)
  have get: "J d (snd (rflpc_eth_get_current_rx_packet_descriptor D e))" if "J d e" for d e
    by (rule get_rx_keeps [of "J d"]) (fact J_read that)+
  have fin: "J d (rflpc_eth_done_process_rx_packet D e)" if "J d e" for d e
    by (rule done_rx_keeps [of "J d"]) (fact J_read J_consume that)+
  show ?thesis
    using I ok
  proof (induction "bound d - processed d" arbitrary: d rule: less_induct)
    case less
    have J0: "J d d" using less.prems refl by (simp add: J_def)
    obtain r e where e: "rflpc_eth_get_current_rx_packet_descriptor D d = (r, e)"
        "rx_moves n processed received d e"
      and r: "case r of None \<Rightarrow> received e = processed e
        | Some (descriptor, status) \<Rightarrow> processed e < received e \<and>
            descriptor = db + 8 * of_nat (processed d mod n) \<and> status = sb + 8 * of_nat (processed d mod n)"
      using get_rx [OF less.prems(2)] by blast
    have Je: "J d e" using get [OF J0] by (simp add: e(1))
    have same: "processed e = processed d" "received d \<le> received e" "ring_ok n (processed e) (received e)"
      using e(2) by (auto simp: rx_moves_def)
    show ?case
    proof (cases r)
      case None
      with e(1) r Je same show ?thesis
        by (subst loop) (auto intro!: exI [of _ e] simp: J_def)
    next
      case (Some p)
      then have p: "processed e < received e" "fst p = db + 8 * of_nat (processed e mod n)"
          "snd p = sb + 8 * of_nat (processed e mod n)"
        using r same by (auto split: prod.splits)
      define g where "g = f p e"
      have pe: "p = (db + 8 * of_nat (processed e mod n), sb + 8 * of_nat (processed e mod n))"
        using p by (cases p) simp
      have g: "I g" "rx_moves n processed received e g" "bound g \<le> bound e" "T e [processed e] g"
        using call [of e g] Je same(3) p(1) by (simp_all add: J_def g_def pe)
      have okg: "ring_ok n (processed g) (received g)" "processed g = processed d" "received e \<le> received g"
        using g(2) same by (auto simp: rx_moves_def)
      define q where "q = rflpc_eth_done_process_rx_packet D g"
      define h where "h = tail q"
      have Jq: "J g q" unfolding q_def by (rule fin) (use g(1) refl in \<open>simp add: J_def\<close>)
      have okq: "ring_ok n (processed q) (received q)" "received g \<le> received q" "processed q = processed d + 1"
        using done_rx [OF okg(1)] okg(2,3) p(1) same(1) by (auto simp: q_def Let_def)
      have Jh: "J g h" and m: "rx_moves n processed received q h"
        using tail [of q] Jq okq(1) trans [of g "[]" q "[]" h] by (auto simp: J_def h_def)
      then have h: "ring_ok n (processed h) (received h)" "received g \<le> received h" "processed h = processed d + 1"
        using okq by (auto simp: rx_moves_def)
      have T: "T d [processed d] h"
        using trans [of d "[]" e "[processed d]" g] trans [of d "[processed d]" g "[]" h] Je Jh g(4) same(1)
        by (simp add: J_def)
      have "processed d < bound d" using bounded [of e] Je p(1) same(1) by (simp add: J_def)
      moreover have "bound h \<le> bound d" using Jh Je g(3) by (simp add: J_def)
      ultimately have "bound h - processed h < bound d - processed d" using h(3) by linarith
      from less.hyps [OF this _ h(1)] Jh obtain d' where d': "L h = Some d'" "I d'"
          "received d' = processed d'" "received h \<le> received d'" "processed h \<le> processed d'"
          "T h [processed h..<processed d'] d'" by (auto simp: J_def)
      have "L d = Some d'"
        using e(1) Some d'(1) by (subst loop) (simp add: h_def q_def g_def)
      moreover have "[processed d..<processed d'] = [processed d] @ [processed h..<processed d']"
        using d'(5) h(3) by (simp add: upt_conv_Cons)
      ultimately show ?thesis
        using d' h same(2) okg(3) trans [OF T d'(6)] by (intro exI [of _ d']) auto
    qed
  qed
qed

lemma rx_loop_rule:
  assumes I: "I d" and ok: "ring_ok n (processed d) (received d)" and refl: "\<And>d. I d \<Longrightarrow> T d [] d"
    and trans: "\<And>d xs e ys g. T d xs e \<Longrightarrow> T e ys g \<Longrightarrow> T d (xs @ ys) g"
    and bounded: "\<And>d. I d \<Longrightarrow> received d \<le> bound d"
    and read: "\<And>d a. I d \<Longrightarrow> I (snd (dev_rd D a d)) \<and> bound (snd (dev_rd D a d)) \<le> bound d \<and> T d [] (snd (dev_rd D a d))"
    and consume: "\<And>d v. I d \<Longrightarrow> I (dev_wr D EMAC_RxConsumeIndex v d) \<and>
        bound (dev_wr D EMAC_RxConsumeIndex v d) \<le> bound d \<and> T d [] (dev_wr D EMAC_RxConsumeIndex v d)"
    and call: "\<And>d d'. I d \<Longrightarrow> ring_ok n (processed d) (received d) \<Longrightarrow> processed d < received d \<Longrightarrow>
        d' = f (ld32 (ram_of M d) (db + 8 * of_nat (processed d mod n)))
          (ucast (rflpc_eth_get_packet_size (ld32 (ram_of M d) (sb + 8 * of_nat (processed d mod n))))) d \<Longrightarrow>
        I d' \<and> rx_moves n processed received d d' \<and> bound d' \<le> bound d \<and> T d [processed d] d'"
  shows "\<exists>d'. rx_loop D M (Some f) d = Some d' \<and> I d' \<and> received d' = processed d' \<and>
    received d \<le> received d' \<and> processed d \<le> processed d' \<and> T d [processed d..<processed d'] d'"
proof (rule frame_loop_rule [where L = "rx_loop D M (Some f)" and tail = "\<lambda>d. d" and I = I and T = T and bound = bound and
      f = "\<lambda>p d. f (ld32 (ram_of M d) (fst p)) (ucast (rflpc_eth_get_packet_size (ld32 (ram_of M d) (snd p)))) d"])
  show "rx_loop D M (Some f) d = (case rflpc_eth_get_current_rx_packet_descriptor D d of (None, e) \<Rightarrow> Some e
      | (Some p, e) \<Rightarrow> rx_loop D M (Some f) (rflpc_eth_done_process_rx_packet D
          (f (ld32 (ram_of M e) (fst p)) (ucast (rflpc_eth_get_packet_size (ld32 (ram_of M e) (snd p)))) e)))" for d
    by (subst rx_loop.simps) (simp split: prod.splits option.splits)
  fix d d' assume "I d" "ring_ok n (processed d) (received d)" "processed d < received d"
    and "d' = f (ld32 (ram_of M d) (fst (db + 8 * of_nat (processed d mod n), sb + 8 * of_nat (processed d mod n))))
      (ucast (rflpc_eth_get_packet_size (ld32 (ram_of M d)
        (snd (db + 8 * of_nat (processed d mod n), sb + 8 * of_nat (processed d mod n)))))) d"
  then show "I d' \<and> rx_moves n processed received d d' \<and> bound d' \<le> bound d \<and> T d [processed d] d'"
    using call [of d d'] by simp
qed (fact I ok refl bounded read consume | rule trans, assumption+ | simp add: rx_moves_def refl)+

end

section \<open>The contract of receiving\<close>

text \<open>What is handed to the callback for the frame \<open>i\<close>: \<open>pkt\<close> is the packet pointer of every slot of a
  ring of \<open>n\<close>, \<open>info\<close> the status word of every frame.\<close>

definition frame_delivery :: "nat \<Rightarrow> (nat \<Rightarrow> addr) \<Rightarrow> (nat \<Rightarrow> u32) \<Rightarrow> nat \<Rightarrow> addr \<times> u16" where
  "frame_delivery n pkt info i = (pkt (i mod n), ucast (rflpc_eth_get_packet_size (info i)))"

text \<open>
  On top of the ring: \<open>ready\<close> holds while the descriptors are as they were set up and the status word
  of every frame that waits is the one the hardware wrote for it; \<open>got\<close> is what the callback
  was given so far, \<open>arrivals\<close> a bound for the frames the line will have delivered when it falls
  silent. The callback may do anything that leaves the receive ring alone.
\<close>

locale net_rx = eth_rx D n processed received db sb
  for D :: "'d device" and n :: nat and processed received :: "'d \<Rightarrow> nat" and db sb :: addr +
  fixes M :: "'d ram" and f :: "addr \<Rightarrow> u16 \<Rightarrow> 'd \<Rightarrow> 'd" and ready :: "'d \<Rightarrow> bool"
    and got :: "'d \<Rightarrow> (addr \<times> u16) list" and arrivals :: "'d \<Rightarrow> nat"
    and pkt :: "nat \<Rightarrow> addr" and info :: "nat \<Rightarrow> u32"
  assumes descriptor: "ready d \<Longrightarrow> k < n \<Longrightarrow> ld32 (ram_of M d) (db + 8 * of_nat k) = pkt k"
    and status_word: "ready d \<Longrightarrow> processed d \<le> i \<Longrightarrow> i < received d \<Longrightarrow>
        ld32 (ram_of M d) (sb + 8 * of_nat (i mod n)) = info i"
    and bounded: "ready d \<Longrightarrow> received d \<le> arrivals d"
    and reads: "ready d \<Longrightarrow> ready (snd (dev_rd D a d))" "got (snd (dev_rd D a d)) = got d"
        "arrivals (snd (dev_rd D a d)) \<le> arrivals d"
    and consume: "ready d \<Longrightarrow> ready (dev_wr D EMAC_RxConsumeIndex v d)"
        "got (dev_wr D EMAC_RxConsumeIndex v d) = got d"
        "arrivals (dev_wr D EMAC_RxConsumeIndex v d) \<le> arrivals d"
    and clear: "ready d \<Longrightarrow> ready (dev_wr D EMAC_IntClear v d)"
        "got (dev_wr D EMAC_IntClear v d) = got d"
        "processed (dev_wr D EMAC_IntClear v d) = processed d"
        "received (dev_wr D EMAC_IntClear v d) = received d"
    and callback: "ready d \<Longrightarrow> ring_ok n (processed d) (received d) \<Longrightarrow>
        ready (f a s d) \<and> rx_moves n processed received d (f a s d) \<and>
        got (f a s d) = got d @ [(a, s)] \<and> arrivals (f a s d) \<le> arrivals d"
begin

lemma loop_drains:
  assumes "ready d" and "ring_ok n (processed d) (received d)"
  shows "\<exists>d'. rx_loop D M (Some f) d = Some d' \<and> ready d' \<and> received d' = processed d' \<and>
    received d \<le> received d' \<and> processed d \<le> processed d' \<and>
    got d' = got d @ map (frame_delivery n pkt info) [processed d..<processed d']"
proof (rule rx_loop_rule [where I = ready and bound = arrivals and
      T = "\<lambda>d xs d'. got d' = got d @ map (frame_delivery n pkt info) xs"])
  fix d d' assume d: "ready d" "ring_ok n (processed d) (received d)" "processed d < received d"
    and d': "d' = f (ld32 (ram_of M d) (db + 8 * of_nat (processed d mod n)))
        (ucast (rflpc_eth_get_packet_size (ld32 (ram_of M d) (sb + 8 * of_nat (processed d mod n))))) d"
  have "d' = f (pkt (processed d mod n)) (ucast (rflpc_eth_get_packet_size (info (processed d)))) d"
    using descriptor [OF d(1), of "processed d mod n"] status_word [OF d(1), of "processed d"] size(1) d(3) d' by simp
  then show "ready d' \<and> rx_moves n processed received d d' \<and> arrivals d' \<le> arrivals d \<and>
      got d' = got d @ map (frame_delivery n pkt info) [processed d]"
    using callback [OF d(1,2)] by (simp add: frame_delivery_def)
qed (use assms in \<open>simp_all add: bounded reads consume\<close>)

lemma handler_drains:
  assumes "ready d" and "ring_ok n (processed d) (received d)"
    and "fst (dev_rd D EMAC_IntStatus d) AND RFLPC_ETH_IRQ_EN_RX_DONE \<noteq> 0"
  shows "\<exists>d'. eth_handler D M (Some f) d = Some d' \<and> ring_ok n (processed d') (received d') \<and>
    received d \<le> processed d' \<and>
    got d' = got d @ map (frame_delivery n pkt info) [processed d..<processed d']"
proof -
  define e where "e = snd (dev_rd D EMAC_IntStatus d)"
  have e: "ready e" "got e = got d" "rx_moves n processed received d e"
    using rd_moves [OF assms(2)] assms(1) by (simp_all add: e_def reads)
  then have "ring_ok n (processed e) (received e)" by (auto simp: rx_moves_def)
  from loop_drains [OF e(1) this] obtain g where g: "rx_loop D M (Some f) e = Some g" "ready g"
      "received g = processed g" "received e \<le> received g" "processed e \<le> processed g"
      "got g = got e @ map (frame_delivery n pkt info) [processed e..<processed g]" by blast
  have "ring_ok n (processed g) (received g)" using g(3) size(1) by (simp add: ring_ok_def)
  from rd_moves [OF this, of EMAC_IntStatus]
  have h: "rx_moves n processed received g (snd (dev_rd D EMAC_IntStatus g))" .
  have "eth_handler D M (Some f) d =
      Some (dev_wr D EMAC_IntClear (fst (dev_rd D EMAC_IntStatus g)) (snd (dev_rd D EMAC_IntStatus g)))"
    using assms(3) g(1) by (simp add: eth_handler_def rflpc_eth_irq_get_status_def rflpc_eth_irq_clear_def
        split_def Let_def e_def)
  then show ?thesis
    using h e g by (auto simp: clear reads rx_moves_def)
qed

end

section \<open>The contract of sending\<close>

text \<open>A step that only reads registers keeps what every read keeps.\<close>

lemma get_tx_keeps:
  assumes "\<And>a d. P d \<Longrightarrow> P (snd (dev_rd D a d))" and "P d"
  shows "P (snd (rflpc_eth_get_current_tx_packet_descriptor D idx d))"
  using assms
  by (auto simp: rflpc_eth_get_current_tx_packet_descriptor_def tx_queue_full_def TX_PRODUCE_INDEX_INC_def
      split_def Let_def)

lemma done_tx_keeps:
  assumes "\<And>a d. P d \<Longrightarrow> P (snd (dev_rd D a d))" and "\<And>v d. P d \<Longrightarrow> P (dev_wr D EMAC_TxProduceIndex v d)"
    and "P d"
  shows "P (rflpc_eth_done_process_tx_packet D count d)"
  using assms
  by (auto simp: rflpc_eth_done_process_tx_packet_def tx_queue_full_def TX_PRODUCE_INDEX_INC_def
      split_def Let_def)

text \<open>The descriptor the software fills after it handed over \<open>h\<close>.\<close>

definition slot_desc :: "addr \<Rightarrow> nat \<Rightarrow> nat \<Rightarrow> addr" where
  "slot_desc db n h = db + 8 * of_nat (h mod n)"

text \<open>One turn of the loop of \<^verbatim>\<open>simple_net_get_tx_buffer\<close>.\<close>

definition tx_try :: "'d device \<Rightarrow> 'd \<Rightarrow> 'd" where
  "tx_try D d = snd (rflpc_eth_get_current_tx_packet_descriptor D 0 d)"

text \<open>On top of the ring: stores reach the memory and move no index; the memory in \<open>own\<close> is not
  written by the hardware.\<close>

locale net_tx = eth_tx D n handed sent db sb
  for D :: "'d device" and n :: nat and handed sent :: "'d \<Rightarrow> nat" and db sb :: addr +
  fixes M :: "'d ram" and own :: "addr set"
  assumes store: "ram_of M (ram_upd M f d) = f (ram_of M d)"
        "handed (ram_upd M f d) = handed d" "sent (ram_upd M f d) = sent d"
    and own_rd: "a \<in> own \<Longrightarrow> ram_of M (snd (dev_rd D r d)) a = ram_of M d a"
    and own_wr: "a \<in> own \<Longrightarrow> ram_of M (dev_wr D EMAC_TxProduceIndex v d) a = ram_of M d a"
begin

lemma own_get: "a \<in> own \<Longrightarrow>
    ram_of M (snd (rflpc_eth_get_current_tx_packet_descriptor D idx d)) a = ram_of M d a"
  using get_tx_keeps [of "\<lambda>e. ram_of M e a = ram_of M d a" D d idx] by (simp add: own_rd)

lemma own_done: "a \<in> own \<Longrightarrow> ram_of M (rflpc_eth_done_process_tx_packet D count d) a = ram_of M d a"
  using done_tx_keeps [of "\<lambda>e. ram_of M e a = ram_of M d a" D d count] by (simp add: own_rd own_wr)

lemma room_grows: "tx_moves handed sent d e \<Longrightarrow>
    ring_free n (sent d) (handed d) \<le> ring_free n (sent e) (handed e)"
  by (auto simp: tx_moves_def ring_free_def)

text \<open>What asking for the first free descriptor gives.\<close>

lemma get_first:
  assumes "ring_ok n (sent d) (handed d)"
  shows "\<exists>r e. rflpc_eth_get_current_tx_packet_descriptor D 0 d = (r, e) \<and> tx_moves handed sent d e \<and>
    (r = None \<longrightarrow> ring_free n (sent d) (handed d) = 0) \<and>
    (r \<noteq> None \<longrightarrow> fst (the r) = slot_desc db n (handed d) \<and> 0 < ring_free n (sent e) (handed e))"
proof -
  obtain r e where e: "rflpc_eth_get_current_tx_packet_descriptor D 0 d = (r, e)" "tx_moves handed sent d e"
    and r: "case r of
       None \<Rightarrow> \<exists>x. tx_moves handed sent d x \<and> tx_moves handed sent x e \<and> 0 = ring_free n (sent x) (handed x)
     | Some (descriptor, status) \<Rightarrow> 0 < ring_free n (sent e) (handed e) \<and>
         (\<exists>k. k = handed d mod n \<and> k \<notin> owned_slots n (sent e) (handed e) \<and>
           descriptor = db + 8 * of_nat k \<and> status = sb + 4 * of_nat k)"
    using get_tx [OF assms, of 0, unfolded unsigned_0 add_0_right, OF le0] by blast
  then show ?thesis
    using room_grows by (cases r) (fastforce simp: slot_desc_def split: prod.splits)+
qed

lemma get_buffer:
  assumes "ring_ok n (sent d) (handed d)"
    and "0 < ring_free n (sent ((tx_try D ^^ k) d)) (handed ((tx_try D ^^ k) d))"
  shows "\<exists>e. simple_net_get_tx_buffer D M d = Some (ld32 (ram_of M e) (slot_desc db n (handed d)), e) \<and>
    tx_moves handed sent d e \<and> 0 < ring_free n (sent e) (handed e) \<and>
    (\<forall>a \<in> own. ram_of M e a = ram_of M d a)"
  using assms
proof (induction k arbitrary: d)
  case 0
  obtain r e where e: "rflpc_eth_get_current_tx_packet_descriptor D 0 d = (r, e)" "tx_moves handed sent d e"
      "r \<noteq> None" "fst (the r) = slot_desc db n (handed d)" "0 < ring_free n (sent e) (handed e)"
    using get_first [OF 0(1)] 0(2) by auto
  then show ?case
    using own_get [of _ 0 d] by (subst simple_net_get_tx_buffer.simps) (auto intro!: exI [of _ e])
next
  case (Suc k)
  obtain r e where e: "rflpc_eth_get_current_tx_packet_descriptor D 0 d = (r, e)" "tx_moves handed sent d e"
      "r \<noteq> None \<longrightarrow> fst (the r) = slot_desc db n (handed d) \<and> 0 < ring_free n (sent e) (handed e)"
    using get_first [OF Suc.prems(1)] by blast
  have own: "a \<in> own \<Longrightarrow> ram_of M e a = ram_of M d a" for a
    using own_get [of a 0 d] e(1) by simp
  show ?case
  proof (cases r)
    case (Some p)
    with e own show ?thesis
      by (subst simple_net_get_tx_buffer.simps) (auto intro!: exI [of _ e])
  next
    case None
    have "(tx_try D ^^ Suc k) d = (tx_try D ^^ k) e"
      by (simp only: funpow_Suc_right comp_apply) (simp add: tx_try_def e(1))
    from Suc.IH [OF moves_ok [OF e(2) Suc.prems(1)]] Suc.prems(2) [unfolded this]
    obtain g where g: "simple_net_get_tx_buffer D M e = Some (ld32 (ram_of M g) (slot_desc db n (handed e)), g)"
        "tx_moves handed sent e g" "0 < ring_free n (sent g) (handed g)"
        "\<forall>a \<in> own. ram_of M g a = ram_of M e a" by blast
    have "slot_desc db n (handed e) = slot_desc db n (handed d)" using e(2) by (simp add: tx_moves_def slot_desc_def)
    then show ?thesis
      using e(1) g None own moves_trans [OF e(2) g(2)]
      by (subst simple_net_get_tx_buffer.simps) simp
  qed
qed

lemma done_one:
  assumes "ring_ok n (sent d) (handed d)" and "0 < ring_free n (sent d) (handed d)"
  shows "let d' = rflpc_eth_done_process_tx_packet D 1 d in
    handed d' = handed d + 1 \<and> ring_ok n (sent d') (handed d') \<and> sent d \<le> sent d'"
  using done_tx [OF assms(1), of 1] assms(2) room_grows [of d] by (fastforce simp: Let_def)

lemma emit:
  assumes ok: "ring_ok n (sent d) (handed d)" and room: "0 < ring_free n (sent d) (handed d)"
    and desc: "\<And>a. a - slot_desc db n (handed d) < 8 \<Longrightarrow> a \<in> own"
  shows "let d' = simple_net_emit_buffer D M mac len auto_mac d in
    ring_ok n (sent d') (handed d') \<and> handed d' = handed d + 1 \<and>
    (\<exists>m. (\<forall>a \<in> own. m a = ram_of M d a) \<and>
      (\<forall>a \<in> own. ram_of M d' a =
        st32 (slot_desc db n (handed d) + 4) (rflpc_eth_set_tx_control_word (ucast len) 0 1)
          (if auto_mac then snd (memcpy (ld32 m (slot_desc db n (handed d)) + 6) mac 6 m) else m) a))"
proof -
  obtain r e where e: "rflpc_eth_get_current_tx_packet_descriptor D 0 d = (r, e)" "tx_moves handed sent d e"
      "r \<noteq> None" "fst (the r) = slot_desc db n (handed d)" "0 < ring_free n (sent e) (handed e)"
    using get_first [OF ok] room by auto
  then obtain p where p: "r = Some p" "fst p = slot_desc db n (handed d)" by auto
  define h where "h = (\<lambda>m. st32 (slot_desc db n (handed d) + 4) (rflpc_eth_set_tx_control_word (ucast len) 0 1)
      (if auto_mac then snd (memcpy (ld32 m (slot_desc db n (handed d)) + 6) mac 6 m) else m))"
  define g where "g = ram_upd M (st32 (slot_desc db n (handed d) + 4) (rflpc_eth_set_tx_control_word (ucast len) 0 1))
      (if auto_mac then ram_upd M (\<lambda>m. snd (memcpy (ld32 m (slot_desc db n (handed d)) + 6) mac 6 m)) e else e)"
  have g: "ram_of M g = h (ram_of M e)" "handed g = handed d" "sent g = sent e"
    using e(2) by (simp_all add: g_def h_def store tx_moves_def)
  have run: "simple_net_emit_buffer D M mac len auto_mac d = rflpc_eth_done_process_tx_packet D 1 g"
    using e(1) p by (simp add: simple_net_emit_buffer_def Let_def g_def)
  have gok: "ring_ok n (sent g) (handed g)" "0 < ring_free n (sent g) (handed g)"
    using moves_ok [OF e(2) ok] e(2,5) g by (simp_all add: tx_moves_def)
  have "handed (rflpc_eth_done_process_tx_packet D 1 g) = handed g + 1 \<and>
      ring_ok n (sent (rflpc_eth_done_process_tx_packet D 1 g)) (handed (rflpc_eth_done_process_tx_packet D 1 g))"
    using done_one [OF gok] by (auto simp: Let_def)
  moreover have "ram_of M (rflpc_eth_done_process_tx_packet D 1 g) a = h (ram_of M e) a" if "a \<in> own" for a
    using own_done [OF that] g(1) by simp
  moreover have "ram_of M e a = ram_of M d a" if "a \<in> own" for a
    using own_get [OF that, of 0 d] e(1) by simp
  ultimately show ?thesis
    unfolding run Let_def using g(2) by (intro conjI exI [of _ "ram_of M e"]) (auto simp: h_def)
qed

end

section \<open>Arrays of eight byte records\<close>

lemma word_apart:
  assumes "4 \<le> b - a" and "4 \<le> a - b" and "x - b < 4"
  shows "st32 a v m (x :: addr) = m x"
proof -
  have "\<not> b + (x - b) - a < 4" by (rule outside_block) (use assms in simp_all)
  then show ?thesis by (intro st32_other) (simp add: word_less_nat_alt)
qed

lemma ld32_local:
  assumes "\<And>x. x - b < 4 \<Longrightarrow> m x = m' x"
  shows "ld32 m b = ld32 m' b"
  by (rule ld32_cong) (rule assms, simp add: word_less_nat_alt unat_of_nat)

lemma ld32_st32_apart: "4 \<le> b - a \<Longrightarrow> 4 \<le> a - b \<Longrightarrow> ld32 (st32 a v m) b = ld32 m b"
  by (rule ld32_local) (rule word_apart)

text \<open>The byte offsets of different rows are apart.\<close>

lemma row_apart:
  fixes p a :: u32
  assumes "i \<noteq> j" and "i \<le> 2 ^ 28" and "j \<le> 2 ^ 28" and "a - (p + 8 * of_nat i) < 8"
  shows "\<not> a - (p + 8 * of_nat j) < 8"
proof
  assume j: "a - (p + 8 * of_nat j) < 8"
  have "unat (8 * of_nat k :: u32) = 8 * k" if "k \<le> 2 ^ 28" for k
    using that by (simp add: unat_word_ariths unat_of_nat)
  then have "8 * i \<le> unat (a - p) \<and> unat (a - p) < 8 * i + 8" "8 * j \<le> unat (a - p) \<and> unat (a - p) < 8 * j + 8"
    using region [of "8 * of_nat i" 8 "a - p"] region [of "8 * of_nat j" 8 "a - p"] assms j
    by (simp_all add: diff_diff_add)
  with assms(1) show False by linarith
qed

text \<open>A loop that fills row after row, each step within its row, leaves in every row what its own
  step wrote.\<close>

lemma fold_rows:
  assumes "n \<le> 2 ^ 28" and "j < n"
    and row: "\<And>k m a. k < n \<Longrightarrow> \<not> a - (p + 8 * of_nat k :: u32) < 8 \<Longrightarrow> f k m a = m a"
  shows "\<exists>m'. \<forall>a. a - (p + 8 * of_nat j) < 8 \<longrightarrow> fold f [0..<n] m a = f j m' a"
  using assms
proof (induction n)
  case (Suc n)
  show ?case
  proof (cases "j = n")
    case True
    then show ?thesis by auto
  next
    case False
    then have "\<exists>m'. \<forall>a. a - (p + 8 * of_nat j) < 8 \<longrightarrow> fold f [0..<n] m a = f j m' a"
      using Suc by (intro Suc.IH) auto
    moreover have "f n m' a = m' a" if "a - (p + 8 * of_nat j) < 8" for a m'
      using row_apart [of j n a p] Suc.prems that False by (intro Suc.prems(3)) auto
    ultimately show ?thesis by auto
  qed
qed simp

lemma fold_rows_outside:
  assumes "n \<le> 2 ^ 28" and "\<And>k m. k < n \<Longrightarrow> f k m a = m a"
  shows "fold f [0..<n] m a = (m a :: u8)"
  using assms by (induction n) auto

lemma fold_rows_word:
  assumes "n \<le> 2 ^ 28" and "j < n" and "c \<le> 4"
    and "\<And>k m a. k < n \<Longrightarrow> \<not> a - (p + 8 * of_nat k :: u32) < 8 \<Longrightarrow> f k m a = m a"
  shows "\<exists>m'. ld32 (fold f [0..<n] m) (p + 8 * of_nat j + c) = ld32 (f j m') (p + 8 * of_nat j + c)"
proof -
  obtain m' where m': "\<forall>a. a - (p + 8 * of_nat j) < 8 \<longrightarrow> fold f [0..<n] m a = f j m' a"
    using fold_rows [where f = f and p = p, OF assms(1,2)] assms(4) by blast
  have "ld32 (fold f [0..<n] m) (p + 8 * of_nat j + c) = ld32 (f j m') (p + 8 * of_nat j + c)"
  proof (rule ld32_local)
    fix x assume "x - (p + 8 * of_nat j + c) < 4"
    then have "x - (p + 8 * of_nat j) < 8"
      using assms(3) region [of c 4 "x - (p + 8 * of_nat j)"]
      by (auto simp: diff_diff_add word_less_nat_alt word_le_nat_alt)
    with m' show "fold f [0..<n] m x = f j m' x" by blast
  qed
  then show ?thesis by blast
qed

section \<open>The descriptors after the set-up\<close>

lemma fold_ram:
  assumes "\<And>f d. ram_of M (ram_upd M f d) = f (ram_of M d)"
    and "\<And>i d. ram_of M (g i d) = h i (ram_of M d)"
  shows "ram_of M (fold g xs d) = fold h xs (ram_of M d)"
  by (induction xs arbitrary: d) (simp_all add: assms(2))

lemma st32_in_row:
  assumes "c \<le> 4" and "\<not> a - p < 8"
  shows "st32 (p + c) v m (a :: addr) = m a"
proof (rule st32_other)
  have "\<not> a - (p + c) < 4"
    using assms region [of c 4 "a - p"]
    by (auto simp: diff_diff_add word_less_nat_alt word_le_nat_alt)
  then show "4 \<le> unat (a - (p + c))" by (simp add: word_less_nat_alt)
qed

lemma rx_descriptors:
  assumes "\<And>f d. ram_of M (ram_upd M f d) = f (ram_of M d)" and "i < 8"
  shows "ld32 (ram_of M (init_rx_descriptors S M d)) (rx_desc S + 8 * of_nat i) = rx_buffer_row S i"
    and "ld32 (ram_of M (init_rx_descriptors S M d)) (rx_desc S + 8 * of_nat i + 4) = (RX_BUFFER_SIZE - 1) OR shl 1 31"
proof -
  let ?p = "rx_desc S" and ?c = "(RX_BUFFER_SIZE - 1) OR shl 1 31"
  define h where "h = (\<lambda>i. st32 (?p + 8 * of_nat i + 4) ?c \<circ> st32 (?p + 8 * of_nat i) (rx_buffer_row S i))"
  have eq: "ram_of M (init_rx_descriptors S M d) = fold h [0..<8] (ram_of M d)"
    unfolding init_rx_descriptors_def RX_BUFFER_COUNT_def
    by (rule fold_ram) (simp_all add: assms(1) init_rx_descriptor_def Let_def h_def sizeof_descriptor_def)
  have row: "h k m a = m a" if "\<not> a - (?p + 8 * of_nat k) < 8" for k m a
    using st32_in_row [of 0 a "?p + 8 * of_nat k"] st32_in_row [of 4 a "?p + 8 * of_nat k"] that
    by (simp add: h_def)
  have "ld32 (h i m) (?p + 8 * of_nat i + 0) = rx_buffer_row S i" "ld32 (h i m) (?p + 8 * of_nat i + 4) = ?c" for m
    by (simp_all add: h_def ld32_st32 ld32_st32_apart)
  then show "ld32 (ram_of M (init_rx_descriptors S M d)) (?p + 8 * of_nat i) = rx_buffer_row S i"
    "ld32 (ram_of M (init_rx_descriptors S M d)) (?p + 8 * of_nat i + 4) = ?c"
    using fold_rows_word [of 8 i 0 ?p h "ram_of M d", OF _ assms(2) _ row]
      fold_rows_word [of 8 i 4 ?p h "ram_of M d", OF _ assms(2) _ row] by (simp_all add: eq)
qed

lemma tx_descriptors:
  assumes "\<And>f d. ram_of M (ram_upd M f d) = f (ram_of M d)" and "i < 8"
  shows "ld32 (ram_of M (init_tx_descriptors S M d)) (tx_desc S + 8 * of_nat i) = tx_buffer_row S i"
proof -
  let ?p = "tx_desc S"
  define h where "h = (\<lambda>i. st32 (?p + 8 * of_nat i) (tx_buffer_row S i))"
  have eq: "ram_of M (init_tx_descriptors S M d) = fold h [0..<8] (ram_of M d)"
    unfolding init_tx_descriptors_def TX_BUFFER_COUNT_def
    by (rule fold_ram) (simp_all add: assms(1) init_tx_descriptor_def h_def sizeof_descriptor_def)
  have row: "h k m a = m a" if "\<not> a - (?p + 8 * of_nat k) < 8" for k m a
    using st32_in_row [of 0 a "?p + 8 * of_nat k"] that by (simp add: h_def)
  have "ld32 (h i m) (?p + 8 * of_nat i + 0) = tx_buffer_row S i" for m
    by (simp add: h_def ld32_st32)
  then show ?thesis
    using fold_rows_word [of 8 i 0 ?p h "ram_of M d", OF _ assms(2) _ row] by (simp add: eq)
qed

section \<open>One frame through the ring\<close>

context net_tx
begin

lemma frame:
  assumes ok: "ring_ok n (sent d) (handed d)"
    and freed: "0 < ring_free n (sent ((tx_try D ^^ k) d)) (handed ((tx_try D ^^ k) d))"
    and s: "s = slot_desc db n (handed d)" and p: "p = ld32 (ram_of M d) s"
    and own: "\<And>a. a - s < 8 \<or> a - p < TX_BUFFER_SIZE \<or> a - mac < 6 \<Longrightarrow> a \<in> own"
    and apart: "\<And>a. a - p < TX_BUFFER_SIZE \<Longrightarrow> \<not> a - s < 8 \<and> \<not> a - mac < 6"
    and writes: "\<And>m a. \<not> a - p < TX_BUFFER_SIZE \<Longrightarrow> w m a = m a"
  shows "\<exists>d1. simple_net_get_tx_buffer D M d = Some (p, d1) \<and>
    (let d' = simple_net_emit_buffer D M mac len True (ram_upd M w d1) in
      ring_ok n (sent d') (handed d') \<and> handed d' = handed d + 1 \<and> ld32 (ram_of M d') s = p \<and>
      ld32 (ram_of M d') (s + 4) = rflpc_eth_set_tx_control_word (ucast len) 0 1 \<and>
      (\<forall>j < TX_BUFFER_SIZE. ram_of M d' (p + j) =
         (if j - 6 < 6 then ram_of M d (mac + (j - 6)) else w (ram_of M d1) (p + j))))"
proof -
  let ?ctl = "rflpc_eth_set_tx_control_word (ucast len) 0 1"
  have sz: "TX_BUFFER_SIZE = 1538" by (simp add: TX_BUFFER_SIZE_def RFLPC_ETH_MAX_FRAME_LENGTH_def)
  obtain d1 where d1: "simple_net_get_tx_buffer D M d = Some (ld32 (ram_of M d1) s, d1)"
      "tx_moves handed sent d d1" "0 < ring_free n (sent d1) (handed d1)"
      "\<forall>a \<in> own. ram_of M d1 a = ram_of M d a"
    using get_buffer [OF ok freed] s by blast
  have word: "x - s < 4 \<Longrightarrow> x - s < 8" "x - (s + 4) < 4 \<Longrightarrow> x - s < 8" for x
    using region [of 4 4 "x - s"] by (auto simp: diff_diff_add word_less_nat_alt)
  have p1: "ld32 (ram_of M d1) s = p" unfolding p by (rule ld32_local) (simp add: d1(4) own word)
  define d2 where "d2 = ram_upd M w d1"
  have d2: "ram_of M d2 = w (ram_of M d1)" "handed d2 = handed d" "sent d2 = sent d1"
    using d1(2) by (simp_all add: d2_def store tx_moves_def)
  have ok2: "ring_ok n (sent d2) (handed d2)" "0 < ring_free n (sent d2) (handed d2)"
    using moves_ok [OF d1(2) ok] d1(2,3) d2 by (simp_all add: tx_moves_def)
  define d' where "d' = simple_net_emit_buffer D M mac len True d2"
  obtain m where m: "\<forall>a \<in> own. m a = ram_of M d2 a"
    and ram: "\<forall>a \<in> own. ram_of M d' a = st32 (s + 4) ?ctl (snd (memcpy (ld32 m s + 6) mac 6 m)) a"
    and handed: "ring_ok n (sent d') (handed d')" "handed d' = handed d + 1"
    using emit [OF ok2, of mac len True] own s d2(2) by (auto simp: d'_def Let_def)
  have desc: "m x = ram_of M d1 x" if "x - s < 8" for x
    using m own [of x] apart [of x] writes [of x] that by (auto simp: d2(1))
  have pm: "ld32 m s = p" unfolding p1 [symmetric] by (rule ld32_local) (simp add: desc word)
  have "\<not> p + 6 - mac < 6" using apart [of "p + 6"] by (simp add: sz)
  then have mok: "memcpy_apart (p + 6) mac 6" by (simp add: memcpy_apart_def memcpy_ok_def not_less)
  define m2 where "m2 = snd (memcpy (p + 6) mac 6 m)"
  have m2: "m2 a = (if a - (p + 6) < 6 then m (mac + (a - (p + 6))) else m a)" for a
    by (simp add: m2_def memcpy.copy_apply [OF mok])
  have source: "a - p < TX_BUFFER_SIZE" if "a - (p + 6) < 6" for a
    using that region [of 6 6 "a - p"] by (auto simp: sz diff_diff_add word_less_nat_alt)
  have ram': "ram_of M d' a = st32 (s + 4) ?ctl m2 a" if "a \<in> own" for a
    using ram that by (simp add: pm m2_def)
  have "ld32 (ram_of M d') s = ld32 m2 s"
    using ld32_local [of s "ram_of M d'" "st32 (s + 4) ?ctl m2"] ram' own word
    by (simp add: ld32_st32_apart)
  also have "\<dots> = p"
    unfolding pm [symmetric] by (rule ld32_local) (use m2 source apart word in \<open>auto\<close>)
  finally have packet: "ld32 (ram_of M d') s = p" .
  have control: "ld32 (ram_of M d') (s + 4) = ?ctl"
    using ld32_local [of "s + 4" "ram_of M d'" "st32 (s + 4) ?ctl m2"] ram' own word
    by (simp add: ld32_st32)
  have bytes: "ram_of M d' (p + j) =
      (if j - 6 < 6 then ram_of M d (mac + (j - 6)) else w (ram_of M d1) (p + j))"
    if "j < TX_BUFFER_SIZE" for j
  proof -
    have "ram_of M d' (p + j) = m2 (p + j)"
      using ram' [of "p + j"] own [of "p + j"] apart [of "p + j"] that by (simp add: st32_in_row)
    also have "\<dots> = (if j - 6 < 6 then m (mac + (j - 6)) else m (p + j))" by (simp add: m2)
    also have "m (p + j) = w (ram_of M d1) (p + j)"
      using m own [of "p + j"] that by (simp add: d2(1))
    also have "m (mac + (j - 6)) = ram_of M d (mac + (j - 6))" if "j - 6 < 6"
    proof -
      define x where "x = mac + (j - 6)"
      have "x - mac < 6" using that by (simp add: x_def)
      then have "x \<in> own" "\<not> x - p < TX_BUFFER_SIZE" using own apart by blast+
      then show ?thesis using m writes d1(4) by (simp add: d2(1) x_def [symmetric])
    qed
    ultimately show ?thesis by simp
  qed
  show ?thesis
    using d1(1) p1 handed packet control bytes by (auto simp: Let_def d2_def d'_def)
qed

end

section \<open>A model of the interface and its memory\<close>

text \<open>The rings of Eth_Ring with a memory, the frames the callback was given, and the flag of the
  receive interrupt: set when a frame comes in, cleared by a write to the clear register.\<close>

record net_state =
  ring :: ring_state
  memory :: mem
  delivered :: "(addr \<times> u16) list"
  rx_irq :: bool

definition net_ram :: "net_state ram" where
  "net_ram = \<lparr>ram_of = memory, ram_upd = (\<lambda>f d. d\<lparr>memory := f (memory d)\<rparr>)\<rparr>"

definition net_tx_device :: "nat \<Rightarrow> addr \<Rightarrow> addr \<Rightarrow> net_state device" where
  "net_tx_device n db sb =
     \<lparr>dev_rd = (\<lambda>a d. let (x, r) = dev_rd (tx_ring_device n db sb) a (ring d) in (x, d\<lparr>ring := r\<rparr>)),
      dev_wr = (\<lambda>a v d. d\<lparr>ring := dev_wr (tx_ring_device n db sb) a v (ring d)\<rparr>),
      cpsid_i = (\<lambda>d. d), cpsie_i = (\<lambda>d. d)\<rparr>"

definition net_rx_device :: "nat \<Rightarrow> addr \<Rightarrow> addr \<Rightarrow> net_state device" where
  "net_rx_device n db sb =
     \<lparr>dev_rd = (\<lambda>a d. let (x, r) = dev_rd (rx_ring_device n db sb) a (ring d);
          irq = (rx_irq d \<or> ring_back r \<noteq> ring_back (ring d))
        in (if a = EMAC_IntStatus then (if irq then RFLPC_ETH_IRQ_EN_RX_DONE else 0) else x,
            d\<lparr>ring := r, rx_irq := irq\<rparr>)),
      dev_wr = (\<lambda>a v d. if a = EMAC_IntClear
        then d\<lparr>rx_irq := rx_irq d \<and> v AND RFLPC_ETH_IRQ_EN_RX_DONE = 0\<rparr>
        else d\<lparr>ring := dev_wr (rx_ring_device n db sb) a v (ring d)\<rparr>),
      cpsid_i = (\<lambda>d. d), cpsie_i = (\<lambda>d. d)\<rparr>"

text \<open>Four descriptors with the packets \<open>pkt\<close>, and status words \<open>st\<close>.\<close>

definition net_memory :: "(nat \<Rightarrow> addr) \<Rightarrow> (nat \<Rightarrow> u32) \<Rightarrow> mem" where
  "net_memory pkt st =
     fold (\<lambda>k. st32 (0x2007C100 + 8 * of_nat k) (st k)) [0..<4]
       (fold (\<lambda>k. st32 (0x2007C000 + 8 * of_nat k) (pkt k)) [0..<4] (\<lambda>_. 0))"

lemma net_memory_words:
  assumes "k < 4"
  shows "ld32 (net_memory pkt st) (0x2007C000 + 8 * of_nat k) = pkt k"
    and "ld32 (net_memory pkt st) (0x2007C100 + 8 * of_nat k) = st k"
proof -
  have "k \<in> {0, Suc 0, Suc (Suc 0), Suc (Suc (Suc 0))}" using assms by auto
  then show "ld32 (net_memory pkt st) (0x2007C000 + 8 * of_nat k) = pkt k"
    "ld32 (net_memory pkt st) (0x2007C100 + 8 * of_nat k) = st k"
    by (auto simp: net_memory_def upt_conv_Cons ld32_st32 ld32_st32_apart)
qed

lemma net_rx_rd:
  "snd (dev_rd (net_rx_device n db sb) a d) =
     d\<lparr>ring := snd (dev_rd (rx_ring_device n db sb) a (ring d)),
       rx_irq := rx_irq d \<or> ring_back (snd (dev_rd (rx_ring_device n db sb) a (ring d))) \<noteq> ring_back (ring d)\<rparr>"
  "dev_wr (net_rx_device n db sb) a v d = (if a = EMAC_IntClear
     then d\<lparr>rx_irq := rx_irq d \<and> v AND RFLPC_ETH_IRQ_EN_RX_DONE = 0\<rparr>
     else d\<lparr>ring := dev_wr (rx_ring_device n db sb) a v (ring d)\<rparr>)"
  "a \<noteq> EMAC_IntStatus \<Longrightarrow> fst (dev_rd (net_rx_device n db sb) a d) = fst (dev_rd (rx_ring_device n db sb) a (ring d))"
  by (simp_all add: net_rx_device_def split_def Let_def)

lemma ring_total: "ring_back (snd (dev_rd (rx_ring_device n db sb) a r)) +
    sum_list (schedule (snd (dev_rd (rx_ring_device n db sb) a r))) \<le> ring_back r + sum_list (schedule r)"
  by (auto simp: rx_ring_device_def ring_moved_def Let_def split: list.splits)

lemma ring_wr_keeps: "ring_back (dev_wr (rx_ring_device n db sb) a v r) = ring_back r"
  "schedule (dev_wr (rx_ring_device n db sb) a v r) = schedule r"
  by (simp_all add: rx_ring_device_def)

interpretation rx_model: net_rx "net_rx_device 4 0x2007C000 0x2007C100" 4
  "\<lambda>d. ring_front (ring d)" "\<lambda>d. ring_back (ring d)" "0x2007C000" "0x2007C100" net_ram
  "\<lambda>a s d. d\<lparr>delivered := delivered d @ [(a, s)]\<rparr>" "\<lambda>d. memory d = net_memory pkt st" delivered
  "\<lambda>d. ring_back (ring d) + sum_list (schedule (ring d))" pkt "\<lambda>i. st (i mod 4)" for pkt st
proof unfold_locales
  note rx = rx4.rd_number rx4.rd_consume rx4.rd_produce rx4.rd_bases
  show "fst (dev_rd (net_rx_device 4 0x2007C000 0x2007C100) EMAC_RxDescriptorNumber d) = of_nat (4 - 1)"
    "fst (dev_rd (net_rx_device 4 0x2007C000 0x2007C100) EMAC_RxConsumeIndex d) = of_nat (ring_front (ring d) mod 4)"
    "fst (dev_rd (net_rx_device 4 0x2007C000 0x2007C100) EMAC_RxDescriptor d) = 0x2007C000"
    "fst (dev_rd (net_rx_device 4 0x2007C000 0x2007C100) EMAC_RxStatus d) = 0x2007C100" for d
    using rx by (simp_all add: net_rx_rd reg_addr)
  show "fst (dev_rd (net_rx_device 4 0x2007C000 0x2007C100) EMAC_RxProduceIndex d) =
      of_nat (ring_back (ring (snd (dev_rd (net_rx_device 4 0x2007C000 0x2007C100) EMAC_RxProduceIndex d))) mod 4)" for d
    using rx4.rd_produce [of "0x2007C000" "0x2007C100" "ring d"] by (simp add: net_rx_rd reg_addr)
  show "rx_moves 4 (\<lambda>d. ring_front (ring d)) (\<lambda>d. ring_back (ring d)) d
      (snd (dev_rd (net_rx_device 4 0x2007C000 0x2007C100) a d))"
    if "ring_ok 4 (ring_front (ring d)) (ring_back (ring d))" for a d
    using rx4.rd_moves [OF that, of "0x2007C000" "0x2007C100" a] by (auto simp: net_rx_rd rx_moves_def)
  show "ring_front (ring (dev_wr (net_rx_device 4 0x2007C000 0x2007C100) EMAC_RxConsumeIndex (of_nat k) d)) =
      ring_front (ring d) + (k + 4 - ring_front (ring d) mod 4) mod 4" if "k < 4" for k d
    using rx4.wr_consume(1) [OF that, of "0x2007C000" "0x2007C100" "ring d"] by (simp add: net_rx_rd reg_addr)
qed (auto simp: net_rx_rd net_ram_def net_memory_words ring_total ring_wr_keeps reg_addr rx_moves_def)

lemma net_tx_rd:
  "dev_rd (net_tx_device n db sb) a d =
     (fst (dev_rd (tx_ring_device n db sb) a (ring d)), d\<lparr>ring := snd (dev_rd (tx_ring_device n db sb) a (ring d))\<rparr>)"
  "dev_wr (net_tx_device n db sb) a v d = d\<lparr>ring := dev_wr (tx_ring_device n db sb) a v (ring d)\<rparr>"
  by (simp_all add: net_tx_device_def split_def Let_def)

lemma net_tx_model:
  "net_tx (net_tx_device 4 db sb) 4 (\<lambda>d. ring_back (ring d)) (\<lambda>d. ring_front (ring d)) db sb net_ram UNIV"
proof unfold_locales
  show "tx_moves (\<lambda>d. ring_back (ring d)) (\<lambda>d. ring_front (ring d)) d (snd (dev_rd (net_tx_device 4 db sb) a d))"
    if "ring_front (ring d) \<le> ring_back (ring d)" for a d
    using tx4.rd_moves [OF that, of db sb a] by (simp add: net_tx_rd tx_moves_def)
qed (simp_all add: net_tx_rd net_ram_def tx4.rd_number tx4.rd_produce tx4.rd_bases tx4.wr_produce
    tx4.rd_consume [symmetric])

interpretation tx_model: net_tx "net_tx_device 4 db sb" 4 "\<lambda>d. ring_back (ring d)" "\<lambda>d. ring_front (ring d)"
  db sb net_ram UNIV for db sb
  by (rule net_tx_model)

section \<open>Properties\<close>

text \<open>C10. The interrupt handler: raised by a received frame, it returns once the line falls silent; it
  has then handed every frame that was waiting, and those that came meanwhile up to the last it
  processed, to the callback: each once, in the order they were received, with the packet
  pointer of its descriptor and the size in its status word.\<close>

theorem received_frames_delivered:
  assumes "net_rx D n processed received db sb M f ready got arrivals pkt info"
    and "ready d" and "ring_ok n (processed d) (received d)"
    and "fst (dev_rd D EMAC_IntStatus d) AND RFLPC_ETH_IRQ_EN_RX_DONE \<noteq> 0"
  shows "\<exists>d'. eth_handler D M (Some f) d = Some d' \<and> ring_ok n (processed d') (received d') \<and>
    received d \<le> processed d' \<and>
    got d' = got d @ map (frame_delivery n pkt info) [processed d..<processed d']"
  using net_rx.handler_drains [OF assms] .

lemma received_frames_delivered_witness:
  "\<exists>d'. eth_handler (net_rx_device 4 0x2007C000 0x2007C100) net_ram
      (Some (\<lambda>a s d. d\<lparr>delivered := delivered d @ [(a, s)]\<rparr>))
      \<lparr>ring = \<lparr>ring_front = 3, ring_back = 5, schedule = [0, 0, 0, 1]\<rparr>,
       memory = net_memory (\<lambda>k. 0x2007D000 + 2048 * of_nat k) (\<lambda>k. 59), delivered = [], rx_irq = True\<rparr> = Some d' \<and>
    5 \<le> ring_front (ring d') \<and>
    delivered d' = map (\<lambda>i. (0x2007D000 + 2048 * of_nat (i mod 4), 60)) [3..<ring_front (ring d')]"
proof -
  let ?d = "\<lparr>ring = \<lparr>ring_front = 3, ring_back = 5, schedule = [0, 0, 0, 1]\<rparr>,
       memory = net_memory (\<lambda>k. 0x2007D000 + 2048 * of_nat k) (\<lambda>k. 59), delivered = [], rx_irq = True\<rparr>"
  have "ring_ok 4 (ring_front (ring ?d)) (ring_back (ring ?d))" by (simp add: ring_ok_def)
  moreover have "fst (dev_rd (net_rx_device 4 0x2007C000 0x2007C100) EMAC_IntStatus ?d) AND
      RFLPC_ETH_IRQ_EN_RX_DONE \<noteq> 0"
    by (simp add: net_rx_device_def split_def Let_def RFLPC_ETH_IRQ_EN_RX_DONE_def)
  moreover have "frame_delivery 4 (\<lambda>k. 0x2007D000 + 2048 * of_nat k) (\<lambda>i. 59) =
      (\<lambda>i. (0x2007D000 + 2048 * of_nat (i mod 4), 60))"
    by (rule ext) (simp add: frame_delivery_def rflpc_eth_get_packet_size_def)
  ultimately show ?thesis
    using received_frames_delivered [OF rx_model.net_rx_axioms, of ?d "\<lambda>k. 0x2007D000 + 2048 * of_nat k" "\<lambda>k. 59"]
    by auto
qed

text \<open>The handler clears the status it reads after its loop, so the interrupt of a frame that comes
  in between is lost: on the model the frame waits and the flag is down.\<close>

lemma net_rx_step:
  "dev_rd (net_rx_device n db sb) a \<lparr>ring = \<lparr>ring_front = c, ring_back = p, schedule = k # ks\<rparr>,
      memory = m, delivered = l, rx_irq = q\<rparr> =
    (let p' = max p (min (c + n - 1) (p + k)); q' = q \<or> p' \<noteq> p
     in (if a = EMAC_IntStatus then (if q' then RFLPC_ETH_IRQ_EN_RX_DONE else 0)
         else if a = EMAC_RxDescriptorNumber then of_nat (n - 1)
         else if a = EMAC_RxProduceIndex then of_nat (p' mod n)
         else if a = EMAC_RxConsumeIndex then of_nat (c mod n)
         else if a = EMAC_RxDescriptor then db else if a = EMAC_RxStatus then sb else 0,
         \<lparr>ring = \<lparr>ring_front = c, ring_back = p', schedule = ks\<rparr>,
          memory = m, delivered = l, rx_irq = q'\<rparr>))"
  by (simp add: net_rx_device_def rx_ring_device_def ring_moved_def Let_def)

lemma late_frame_unnoticed:
  "case eth_handler (net_rx_device 4 0x2007C000 0x2007C100) net_ram None
      \<lparr>ring = \<lparr>ring_front = 0, ring_back = 1, schedule = [0, 0, 0, 0, 0, 0, 0, 0, 0, 0, 0, 0, 0, 0, 1]\<rparr>,
       memory = \<lambda>_. 0, delivered = [], rx_irq = True\<rparr> of
     None \<Rightarrow> False
   | Some d' \<Rightarrow> ring_front (ring d') < ring_back (ring d') \<and> \<not> rx_irq d'"
  by (simp add: eth_handler_def rflpc_eth_irq_get_status_def rflpc_eth_irq_clear_def rx_loop.simps
      rflpc_eth_get_current_rx_packet_descriptor_def rflpc_eth_done_process_rx_packet_def rmw_def
      net_rx_step net_rx_rd(2) rx_ring_device_def RFLPC_ETH_IRQ_EN_RX_DONE_def reg_addr Let_def)

text \<open>C15. Sending a frame. When the hardware frees a descriptor sooner or later,
  \<^verbatim>\<open>simple_net_get_tx_buffer\<close> returns the packet of the first free one; whatever the
  caller then writes into that buffer, \<^verbatim>\<open>simple_net_emit_buffer\<close> hands over exactly that descriptor:
  one more frame belongs to the hardware, its control word carries the size and asks for no
  interrupt, and its bytes are those the caller wrote, with the address of the interface as
  the source address.\<close>

theorem frame_sent:
  assumes contract: "net_tx D n handed sent db sb M own" and ok: "ring_ok n (sent d) (handed d)"
    and freed: "0 < ring_free n (sent ((tx_try D ^^ k) d)) (handed ((tx_try D ^^ k) d))"
    and s: "s = slot_desc db n (handed d)" and p: "p = ld32 (ram_of M d) s"
    and own: "\<And>a. a - s < 8 \<or> a - p < TX_BUFFER_SIZE \<or> a - mac < 6 \<Longrightarrow> a \<in> own"
    and apart: "\<And>a. a - p < TX_BUFFER_SIZE \<Longrightarrow> \<not> a - s < 8 \<and> \<not> a - mac < 6"
    and writes: "\<And>m a. \<not> a - p < TX_BUFFER_SIZE \<Longrightarrow> w m a = m a"
  shows "\<exists>d1. simple_net_get_tx_buffer D M d = Some (p, d1) \<and>
    (let d' = simple_net_emit_buffer D M mac len True (ram_upd M w d1) in
      ring_ok n (sent d') (handed d') \<and> handed d' = handed d + 1 \<and> ld32 (ram_of M d') s = p \<and>
      ld32 (ram_of M d') (s + 4) = rflpc_eth_set_tx_control_word (ucast len) 0 1 \<and>
      (\<forall>j < TX_BUFFER_SIZE. ram_of M d' (p + j) =
         (if j - 6 < 6 then ram_of M d (mac + (j - 6)) else w (ram_of M d1) (p + j))))"
  by (rule net_tx.frame [where w = w, OF contract ok freed s p]) (rule own apart writes, assumption)+

lemma net_tx_step:
  "dev_rd (net_tx_device n db sb) a \<lparr>ring = \<lparr>ring_front = c, ring_back = p, schedule = k # ks\<rparr>,
      memory = m, delivered = l, rx_irq = q\<rparr> =
    (let c' = min p (c + k)
     in (if a = EMAC_TxDescriptorNumber then of_nat (n - 1)
         else if a = EMAC_TxProduceIndex then of_nat (p mod n)
         else if a = EMAC_TxConsumeIndex then of_nat (c' mod n)
         else if a = EMAC_TxDescriptor then db else if a = EMAC_TxStatus then sb else 0,
         \<lparr>ring = \<lparr>ring_front = c', ring_back = p, schedule = ks\<rparr>,
          memory = m, delivered = l, rx_irq = q\<rparr>))"
  by (simp add: net_tx_device_def tx_ring_device_def ring_moved_def Let_def)

text \<open>A full ring: the first attempt fails, then the hardware sends one frame.\<close>

lemma frame_sent_witness:
  "\<exists>d1. simple_net_get_tx_buffer (net_tx_device 4 0x2007C000 0x2007C100) net_ram
      \<lparr>ring = \<lparr>ring_front = 5, ring_back = 8, schedule = [0, 0, 0, 0, 0, 1, 0, 0, 0, 0, 0, 0, 0, 0, 0, 0]\<rparr>,
       memory = net_memory (\<lambda>k. 0x2007D000 + 2048 * of_nat k) (\<lambda>_. 0), delivered = [], rx_irq = False\<rparr> =
     Some (0x2007D000, d1) \<and>
    (let d' = simple_net_emit_buffer (net_tx_device 4 0x2007C000 0x2007C100) net_ram 0x10000000 60 True
        (ram_upd net_ram (\<lambda>m. m(0x2007D000 := 0xFF)) d1)
     in ring_back (ring d') = 9 \<and> memory d' 0x2007D000 = 0xFF)"
proof -
  let ?d = "\<lparr>ring = \<lparr>ring_front = 5, ring_back = 8, schedule = [0, 0, 0, 0, 0, 1, 0, 0, 0, 0, 0, 0, 0, 0, 0, 0]\<rparr>,
       memory = net_memory (\<lambda>k. 0x2007D000 + 2048 * of_nat k) (\<lambda>_. 0), delivered = [], rx_irq = False\<rparr>"
    and ?D = "net_tx_device 4 0x2007C000 0x2007C100" and ?p = "0x2007D000 :: addr" and ?s = "0x2007C000 :: addr"
  have ok: "ring_ok 4 (ring_front (ring ?d)) (ring_back (ring ?d))" by (simp add: ring_ok_def)
  have tried: "ring_front (ring ((tx_try ?D ^^ Suc (Suc 0)) ?d)) = 6" "ring_back (ring ((tx_try ?D ^^ Suc (Suc 0)) ?d)) = 8"
    by (simp_all add: tx_try_def rflpc_eth_get_current_tx_packet_descriptor_def tx_queue_full_def
        TX_PRODUCE_INDEX_INC_def net_tx_step reg_addr Let_def)
  have freed: "0 < ring_free 4 (ring_front (ring ((tx_try ?D ^^ Suc (Suc 0)) ?d))) (ring_back (ring ((tx_try ?D ^^ Suc (Suc 0)) ?d)))"
    unfolding tried by (simp add: ring_free_def)
  have s: "?s = slot_desc 0x2007C000 4 (ring_back (ring ?d))" by (simp add: slot_desc_def)
  have p: "?p = ld32 (ram_of net_ram ?d) ?s"
    using net_memory_words(1) [of 0 "\<lambda>k. 0x2007D000 + 2048 * of_nat k" "\<lambda>_. 0"] by (simp add: net_ram_def)
  have apart: "\<not> a - ?s < 8 \<and> \<not> a - 0x10000000 < 6" if "a - ?p < TX_BUFFER_SIZE" for a
    using that outside_block [of 8 ?p ?s TX_BUFFER_SIZE "a - ?p"]
      outside_block [of 6 ?p "0x10000000" TX_BUFFER_SIZE "a - ?p"]
    by (simp add: TX_BUFFER_SIZE_def RFLPC_ETH_MAX_FRAME_LENGTH_def)
  have first: "0 < TX_BUFFER_SIZE" "\<not> 0 - 6 < (6 :: u32)"
    by (simp_all add: TX_BUFFER_SIZE_def RFLPC_ETH_MAX_FRAME_LENGTH_def)
  have writes: "(m(?p := 0xFF)) a = m a" if "\<not> a - ?p < TX_BUFFER_SIZE" for m :: mem and a
    using that first by auto
  from frame_sent [where w = "\<lambda>m. m(?p := 0xFF)", OF net_tx_model ok freed s p UNIV_I apart writes, of 60]
  obtain d1 where d1: "simple_net_get_tx_buffer ?D net_ram ?d = Some (?p, d1)"
    and sent: "let d' = simple_net_emit_buffer ?D net_ram 0x10000000 60 True
        (ram_upd net_ram (\<lambda>m. m(?p := 0xFF)) d1)
      in ring_back (ring d') = 9 \<and> (\<forall>j < TX_BUFFER_SIZE. memory d' (?p + j) =
         (if j - 6 < 6 then memory ?d (0x10000000 + (j - 6)) else ((memory d1)(?p := 0xFF)) (?p + j)))"
    by (auto simp: Let_def net_ram_def)
  from sent first show ?thesis
    by (intro exI [of _ d1] conjI d1) (auto simp: Let_def dest!: spec [of _ 0])
qed

text \<open>C17. The set-up of the rings: every descriptor is given a buffer of \<^verbatim>\<open>RX_BUFFER_SIZE\<close> bytes, but
  consecutive descriptors point 8 bytes apart, as the dimensions of the arrays are exchanged; so
  all bytes of a buffer from the ninth on are also bytes of the next one, and a
  received frame overwrites the one before.\<close>

theorem net_buffers_overlap:
  assumes "\<And>f d. ram_of M (ram_upd M f d) = f (ram_of M d)" and "i < 7"
  shows "(let m = ram_of M (init_rx_descriptors S M d); q = (\<lambda>i. ld32 m (rx_desc S + 8 * of_nat i))
      in ld32 m (rx_desc S + 8 * of_nat i + 4) AND 0x7FF = RX_BUFFER_SIZE - 1 \<and>
         (\<forall>j. 8 \<le> j \<longrightarrow> j < RX_BUFFER_SIZE \<longrightarrow> q i + j = q (i + 1) + (j - 8) \<and> j - 8 < RX_BUFFER_SIZE)) \<and>
    (let m = ram_of M (init_tx_descriptors S M d); q = (\<lambda>i. ld32 m (tx_desc S + 8 * of_nat i))
      in \<forall>j. 8 \<le> j \<longrightarrow> j < TX_BUFFER_SIZE \<longrightarrow> q i + j = q (i + 1) + (j - 8) \<and> j - 8 < TX_BUFFER_SIZE)"
proof -
  have sz: "RX_BUFFER_SIZE = 1538" "TX_BUFFER_SIZE = 1538"
    by (simp_all add: RX_BUFFER_SIZE_def TX_BUFFER_SIZE_def RFLPC_ETH_MAX_FRAME_LENGTH_def)
  have i: "i < 8" "i + 1 < 8" using assms(2) by simp_all
  note rx = rx_descriptors [OF assms(1) i(1), of S d] rx_descriptors [OF assms(1) i(2), of S d]
  note tx = tx_descriptors [OF assms(1) i(1), of S d] tx_descriptors [OF assms(1) i(2), of S d]
  have "j - 8 < 1538" if "8 \<le> j" "j < 1538" for j :: u32
    using that by (simp add: word_less_nat_alt word_le_nat_alt unat_sub_if')
  then show ?thesis
    unfolding Let_def rx tx
    by (simp add: sz rx_buffer_row_def RX_BUFFER_COUNT_def tx_buffer_row_def TX_BUFFER_COUNT_def)
qed

lemma net_buffers_overlap_witness:
  "let d = init_rx_descriptors \<lparr>rx_desc = 0x2007C000, rx_status = 0x2007C040, tx_desc = 0x2007C080,
      tx_status = 0x2007C0C0, rxbuffers = 0x2007C100, txbuffers = 0x2007F200, mac_addr = 0x10000000\<rparr> net_ram
      \<lparr>ring = \<lparr>ring_front = 0, ring_back = 0, schedule = []\<rparr>, memory = \<lambda>_. 0, delivered = [], rx_irq = False\<rparr>
   in ld32 (memory d) 0x2007C000 + 100 = ld32 (memory d) 0x2007C008 + 92"
  using net_buffers_overlap [of net_ram 0 "\<lparr>rx_desc = 0x2007C000, rx_status = 0x2007C040, tx_desc = 0x2007C080,
      tx_status = 0x2007C0C0, rxbuffers = 0x2007C100, txbuffers = 0x2007F200, mac_addr = 0x10000000\<rparr>"
      "\<lparr>ring = \<lparr>ring_front = 0, ring_back = 0, schedule = []\<rparr>, memory = \<lambda>_. 0, delivered = [], rx_irq = False\<rparr>"]
  by (auto simp: Let_def net_ram_def RX_BUFFER_SIZE_def RFLPC_ETH_MAX_FRAME_LENGTH_def dest!: spec [of _ 100])

end
