(* ===== verification/Net_Start.thy ===== *)
theory Net_Start
  imports Simple_Net
begin

text \<open>
  The start of the network interface, \<^verbatim>\<open>simple_net_ethernet_init\<close> of \<^verbatim>\<open>samples/dhcp/simple_net.c\<close>
  (modelled in Simple_Net): it reads the serial number in the boot ROM, starts the MAC and the PHY,
  waits for the link, installs the interrupt handler and sets up both descriptor rings. The
  contract of what it needs is the locale \<open>net_start\<close>: a PHY whose link comes up as long as the cable is
  plugged in, and memory that register accesses leave alone.
\<close>

section \<open>What accesses to the bus keep\<close>

definition bus_keeps :: "'d device \<Rightarrow> ('d \<Rightarrow> bool) \<Rightarrow> bool" where
  "bus_keeps D P \<longleftrightarrow>
     (\<forall>a d. P d \<longrightarrow> P (snd (dev_rd D a d))) \<and> (\<forall>a v d. P d \<longrightarrow> P (dev_wr D a v d)) \<and>
     (\<forall>d. P d \<longrightarrow> P (cpsid_i D d)) \<and> (\<forall>d. P d \<longrightarrow> P (cpsie_i D d))"

lemma keeps_bus:
  assumes "bus_keeps D P" and "P d"
  shows "P (snd (dev_rd D a d))" "P (dev_wr D a v d)" "P (cpsid_i D d)" "P (cpsie_i D d)"
  using assms by (simp_all add: bus_keeps_def)

lemma keeps_rmw:
  assumes "bus_keeps D P" and "P d"
  shows "P (rmw D a f d)" "P (reg_or D a v d)" "P (reg_and D a v d)"
  using assms by (simp_all add: bus_keeps_def rmw_def reg_or_def reg_and_def split_def Let_def)

lemma keeps_pin_set:
  assumes "bus_keeps D P" and "P d"
  shows "P (rflpc_pin_set D p f m od d)"
  using assms(2) by (simp add: rflpc_pin_set_def split_def Let_def keeps_rmw [OF assms(1)])

lemma keeps_fold:
  assumes "\<And>x d. P d \<Longrightarrow> P (g x d)" and "P d"
  shows "P (fold g xs d)"
  using assms by (induction xs arbitrary: d) simp_all

lemma keeps_mac_init:
  assumes "bus_keeps D P" and "P d"
  shows "P (eth_mac_init D c d)"
proof -
  have "P (eth_setup_pins D e)" if "P e" for e
    unfolding eth_setup_pins_def by (rule keeps_fold [where P = P, OF keeps_pin_set [OF assms(1)] that])
  then show ?thesis
    using assms(2) by (simp add: eth_mac_init_def Let_def keeps_rmw [OF assms(1)] keeps_bus [OF assms(1)])
qed

lemma keeps_wait_mrdd:
  assumes "bus_keeps D P" and "P d" and "wait_mrdd D d = Some d'"
  shows "P d'"
proof -
  have "E = D \<longrightarrow> P d \<longrightarrow> P d'" if "wait_mrdd E d = Some d'" for E d d'
  proof (rule wait_mrdd.raw_induct [where P = "\<lambda>E d d'. E = D \<longrightarrow> P d \<longrightarrow> P d'", OF _ that])
    fix f and E :: "'a device" and d d'
    assume "\<And>E d d'. f E d = Some d' \<Longrightarrow> E = D \<longrightarrow> P d \<longrightarrow> P d'"
      and "(let (x, d) = dev_rd E EMAC_MIND d; (y, d) = dev_rd E EMAC_MIND d
        in if (x AND RFLPC_ETH_MIND_BUSY) OR (y AND RFLPC_ETH_MIND_NOT_VALID) \<noteq> 0
           then f E d else Some d) = Some d'"
    then show "E = D \<longrightarrow> P d \<longrightarrow> P d'"
      using keeps_bus(1) [OF assms(1)] by (auto simp: split_def Let_def split: if_splits)
  qed
  with assms(2,3) show ?thesis by blast
qed

lemma keeps_read_phy:
  assumes "bus_keeps D P" and "P d" and "read_from_phy_register D r d = Some (x, d')"
  shows "P d'"
proof -
  obtain e where "wait_mrdd D (dev_wr D EMAC_MCMD 1
        (dev_wr D EMAC_MADR (shl (ucast RFLPC_ETH_PHY_ADDR) 8 OR ucast r) d)) = Some e"
    and d': "d' = snd (dev_rd D EMAC_MRDD (dev_wr D EMAC_MCMD 0 e))"
    using assms(3)
    by (auto simp: read_from_phy_register_def read_from_phy_register_with_addr_def split_def Let_def
        split: option.splits)
  from keeps_wait_mrdd [OF assms(1) _ this(1)] show ?thesis
    using assms(1,2) by (simp add: d' keeps_bus)
qed

lemma keeps_write_phy:
  assumes "bus_keeps D P" and "P d" and "write_to_phy_register D r v d = Some d'"
  shows "P d'"
proof -
  obtain x where "poll D EMAC_MIND (\<lambda>x. x AND RFLPC_ETH_MIND_BUSY = 0)
      (dev_wr D EMAC_MWTD (ucast v) (dev_wr D EMAC_MADR (shl (ucast RFLPC_ETH_PHY_ADDR) 8 OR ucast r) d))
      = Some (x, d')"
    using assms(3) by (auto simp: write_to_phy_register_def write_to_phy_register_with_addr_def)
  from poll_invariant [of P, OF _ _ this] show ?thesis
    using assms(1,2) by (simp add: keeps_bus)
qed

lemma keeps_phy_poll:
  assumes "bus_keeps D P" and "P d" and "phy_poll D r p d = Some (x, d')"
  shows "P d'"
proof -
  let ?Q = "\<lambda>E s p d y. case y of (x, d') \<Rightarrow> E = D \<longrightarrow> P d \<longrightarrow> P d'"
  have "?Q E s p d y" if "phy_poll E s p d = Some y" for E s p d y
  proof (rule phy_poll.raw_induct [where P = ?Q, OF _ that])
    fix f and E :: "'a device" and s p d y
    assume IH: "\<And>E s p d y. f E s p d = Some y \<Longrightarrow> ?Q E s p d y"
      and eq: "(case read_from_phy_register E s d of None \<Rightarrow> None
        | Some (x, d) \<Rightarrow> if p x then Some (x, d) else f E s p d) = Some y"
    then obtain z e where e: "read_from_phy_register E s d = Some (z, e)"
      by (auto split: option.splits)
    show "?Q E s p d y"
      using eq e IH [of E s p e y] keeps_read_phy [OF assms(1), of d s z e]
      by (auto split: if_splits)
  qed
  from this [OF assms(3)] assms(2) show ?thesis by simp
qed

lemma keeps_eth_init:
  assumes "bus_keeps D P" and "P d" and "rflpc_eth_init D c d = Some (x, d')"
  shows "P d'"
proof -
  obtain e where e: "write_to_phy_register D RFLPC_ETH_PHY_BMCR RFLPC_ETH_BMCR_RESET (eth_mac_init D c d) = Some e"
    using assms(3) by (auto simp: rflpc_eth_init_def split: option.splits)
  then obtain y where "phy_poll D RFLPC_ETH_PHY_BMCR (\<lambda>x. x AND RFLPC_ETH_BMCR_RESET = 0) e = Some (y, d')"
    using assms(3) by (auto simp: rflpc_eth_init_def split: option.splits)
  from keeps_phy_poll [OF assms(1) _ this] keeps_write_phy [OF assms(1) _ e]
    keeps_mac_init [OF assms(1,2)] show ?thesis by blast
qed

lemma keeps_mac_address:
  assumes "bus_keeps D P" and "P d"
  shows "P (rflpc_eth_set_mac_address D b d)" "P (snd (rflpc_eth_get_mac_address D d))"
  using assms(2)
  by (simp_all add: rflpc_eth_set_mac_address_def rflpc_eth_get_mac_address_def split_def Let_def
      keeps_bus [OF assms(1)])

lemma keeps_interrupt:
  assumes "bus_keeps D P" and "P d"
  shows "P (rflpc_led_val D l d)" "P (snd (rflpc_eth_set_irq_handler D h (v, d)))"
    "P (rflpc_eth_irq_enable_set D i d)"
  using assms(2)
  by (simp_all add: rflpc_led_val_def rflpc_gpio_set_val_def rflpc_eth_set_irq_handler_def
      rflpc_irq_disable_def rflpc_irq_enable_def rflpc_eth_irq_enable_set_def Let_def
      keeps_bus [OF assms(1)] keeps_rmw [OF assms(1)])

lemma keeps_base_addresses:
  assumes "bus_keeps D P" and "P d"
  shows "P (rflpc_eth_set_rx_base_addresses D x y n d)" "P (rflpc_eth_set_tx_base_addresses D x y n d)"
  using assms(2)
  by (simp_all add: rflpc_eth_set_rx_base_addresses_def rflpc_eth_set_tx_base_addresses_def
      split_def Let_def keeps_bus [OF assms(1)] keeps_rmw [OF assms(1)])

lemmas keeps_net_ops = keeps_mac_address keeps_interrupt keeps_base_addresses

lemma keeps_wait_link:
  assumes "\<And>d x d'. P d \<Longrightarrow> read_from_phy_register D RFLPC_ETH_PHY_BMSR d = Some (x, d') \<Longrightarrow> P d'"
    and "P d" and "wait_link D d = Some d'"
  shows "P d'"
proof -
  have "E = D \<longrightarrow> P d \<longrightarrow> P d'" if "wait_link E d = Some d'" for E d d'
  proof (rule wait_link.raw_induct [where P = "\<lambda>E d d'. E = D \<longrightarrow> P d \<longrightarrow> P d'", OF _ that])
    fix f and E :: "'a device" and d d'
    assume IH: "\<And>E d d'. f E d = Some d' \<Longrightarrow> E = D \<longrightarrow> P d \<longrightarrow> P d'"
      and eq: "(case rflpc_eth_link_state E d of None \<Rightarrow> None
        | Some p \<Rightarrow> if fst p then Some (snd p) else f E (snd p)) = Some d'"
    then obtain z e where e: "rflpc_eth_link_state E d = Some (z, e)"
      by (auto split: option.splits)
    then obtain y where "read_from_phy_register E RFLPC_ETH_PHY_BMSR d = Some (y, e)"
      by (auto simp: rflpc_eth_link_state_def split: option.splits)
    then show "E = D \<longrightarrow> P d \<longrightarrow> P d'"
      using eq e IH [of E e d'] assms(1) [of d] by (auto split: if_splits)
  qed
  with assms(2,3) show ?thesis by blast
qed

section \<open>Descriptors and the rest of the memory\<close>

lemma row_in_block:
  fixes a p :: u32
  assumes "k < 8" and "a - (p + 8 * of_nat k) < 8"
  shows "a - p < 64"
proof -
  have "unat (8 * of_nat k :: u32) = 8 * k"
    using assms(1) by (simp add: unat_word_ariths unat_of_nat)
  then show ?thesis
    using region [of "8 * of_nat k" 8 "a - p"] assms by (simp add: diff_diff_add word_less_nat_alt)
qed

lemma cell_in_block:
  assumes "k < n" and "n \<le> 8"
  shows "x - (p + 8 * of_nat k) < 4 \<Longrightarrow> x - p < (64 :: u32)"
    and "x - (p + 8 * of_nat k + 4) < 4 \<Longrightarrow> x - p < 64"
proof -
  have "x - (p + 8 * of_nat k) < 8 \<Longrightarrow> x - p < 64" using row_in_block [of k x p] assms by simp
  then show "x - (p + 8 * of_nat k) < 4 \<Longrightarrow> x - p < 64" "x - (p + 8 * of_nat k + 4) < 4 \<Longrightarrow> x - p < 64"
    using region [of 4 4 "x - (p + 8 * of_nat k)"] by (auto simp: diff_diff_add word_less_nat_alt)
qed

lemma init_outside:
  assumes "\<And>f d. ram_of M (ram_upd M f d) = f (ram_of M d)"
  shows "\<not> a - rx_desc S < 64 \<Longrightarrow> ram_of M (init_rx_descriptors S M d) a = ram_of M d a"
    and "\<not> a - tx_desc S < 64 \<Longrightarrow> ram_of M (init_tx_descriptors S M d) a = ram_of M d a"
proof -
  have far: "\<not> a - (p + 8 * of_nat k) < 8" if "\<not> a - p < 64" "k < 8" for k and p :: addr
    using row_in_block that by blast
  note same = st32_in_row [of 0] st32_in_row [of 4]
  have rx: "ram_of M (init_rx_descriptors S M d) = fold (\<lambda>i m. st32 (rx_desc S + 8 * of_nat i + 4)
      ((RX_BUFFER_SIZE - 1) OR shl 1 31) (st32 (rx_desc S + 8 * of_nat i) (rx_buffer_row S i) m)) [0..<8] (ram_of M d)"
    unfolding init_rx_descriptors_def RX_BUFFER_COUNT_def
    by (rule fold_ram) (simp_all add: assms init_rx_descriptor_def Let_def sizeof_descriptor_def)
  have tx: "ram_of M (init_tx_descriptors S M d) =
      fold (\<lambda>i. st32 (tx_desc S + 8 * of_nat i) (tx_buffer_row S i)) [0..<8] (ram_of M d)"
    unfolding init_tx_descriptors_def TX_BUFFER_COUNT_def
    by (rule fold_ram) (simp_all add: assms init_tx_descriptor_def sizeof_descriptor_def)
  show "\<not> a - rx_desc S < 64 \<Longrightarrow> ram_of M (init_rx_descriptors S M d) a = ram_of M d a"
    unfolding rx by (rule fold_rows_outside) (simp, drule (1) far, simp add: same [simplified])
  show "\<not> a - tx_desc S < 64 \<Longrightarrow> ram_of M (init_tx_descriptors S M d) a = ram_of M d a"
    unfolding tx by (rule fold_rows_outside) (simp, drule (1) far, simp add: same [simplified])
qed

lemma six_bytes: "bytes_at m b 6 = [m b, m (b + 1), m (b + 2), m (b + 3), m (b + 4), m (b + 5)]"
  by (simp add: bytes_at_def upt_conv_Cons)

lemma same_six: "(\<And>a. a - b < 6 \<Longrightarrow> m a = m' a) \<Longrightarrow> bytes_at m b 6 = bytes_at m' b 6"
  by (simp add: six_bytes)

lemma mac_address_regs:
  assumes "config_regs D {EMAC_SA0, EMAC_SA1, EMAC_SA2}"
    and "\<And>a. a \<in> {EMAC_SA0, EMAC_SA1, EMAC_SA2} \<Longrightarrow> peek D a d = peek D a e"
  shows "fst (rflpc_eth_get_mac_address D d) = fst (rflpc_eth_get_mac_address D e)"
  using assms(2) by (simp add: config_regs.get_mac_address [OF assms(1) refl])

section \<open>The common beginning\<close>

text \<open>What the start of the samples' interfaces has in common, up to the link: the address from the serial
  number, the MAC and the PHY, the address registers, the leds, and the loop that waits.\<close>

definition net_prefix ::
  "'d device \<Rightarrow> 'r iap_function \<Rightarrow> 'd ram \<Rightarrow> addr \<Rightarrow> u32 \<Rightarrow> 'r flash_state \<times> 'd \<Rightarrow> ('r flash_state \<times> 'd) option" where
  "net_prefix D iap M b system_clock st =
     (let (fl, d) = mbed_auto_set_mac iap M b st
      in case rflpc_eth_init D system_clock d of
           None \<Rightarrow> None
         | Some (_, d) \<Rightarrow>
             (let d = rflpc_eth_set_mac_address D (bytes_at (ram_of M d) b 6) d;
                  (a, d) = rflpc_eth_get_mac_address D d;
                  d = ram_upd M (store_mac b a) d;
                  d = rflpc_led_val D 0 d
              in map_option (Pair fl) (wait_link D d)))"

section \<open>The contract of the start\<close>

text \<open>The registers whose values after the start matter.\<close>

definition net_regs :: "addr set" where
  "net_regs = {EMAC_SA0, EMAC_SA1, EMAC_SA2, EMAC_IntEnable, EMAC_RxDescriptor, EMAC_RxStatus,
     EMAC_RxDescriptorNumber, EMAC_TxDescriptor, EMAC_TxStatus, EMAC_TxDescriptorNumber}"

locale net_start = mii_phy D A phy
  for D :: "'d device" and A :: "addr set" and phy :: "u8 \<Rightarrow> 'd \<Rightarrow> u16" +
  fixes M :: "'d ram" and own :: "addr set" and plugged :: "'d \<Rightarrow> bool"
  assumes store: "ram_of M (ram_upd M f d) = f (ram_of M d)"
    and store_reg: "a \<in> A \<Longrightarrow> peek D a (ram_upd M f d) = peek D a d"
    and own_kept: "a \<in> own \<Longrightarrow> bus_keeps D (\<lambda>d. ram_of M d a = x)"
    and plugged: "bus_keeps D plugged" "plugged d \<Longrightarrow> plugged (ram_upd M f d)"
    and link_comes: "plugged d \<Longrightarrow> \<exists>k. phy_link phy (phy_reads D RFLPC_ETH_PHY_BMSR k d)"
    and regs: "net_regs \<union> mac_regs \<subseteq> A"
begin

lemma wait_link_returns:
  assumes "plugged d"
  shows "\<exists>d'. wait_link D d = Some d'"
proof -
  have "\<exists>d'. wait_link D d = Some d'" if "phy_link phy (phy_reads D RFLPC_ETH_PHY_BMSR k d)" for k
    using that
  proof (induction k arbitrary: d)
    case 0
    then show ?case
      using link_state_returns [of d] by (subst wait_link.simps) auto
  next
    case (Suc k)
    obtain e where "read_from_phy_register D RFLPC_ETH_PHY_BMSR d = Some (phy RFLPC_ETH_PHY_BMSR d, e)"
      using phy_read by blast
    with Suc link_state_returns [of d] show ?case
      by (subst wait_link.simps) (auto simp: phy_reads_Suc)
  qed
  with link_comes [OF assms] show ?thesis by blast
qed

lemma wait_link_peek:
  assumes "a \<in> A" and "wait_link D d = Some d'"
  shows "peek D a d' = peek D a d"
proof -
  have "a \<notin> phy_regs" using assms(1) mac_not_phy by auto
  from keeps_wait_link [of "\<lambda>e. peek D a e = peek D a d", OF _ refl assms(2)]
    peek_read_phy [OF assms(1) this] show ?thesis by simp
qed

text \<open>What stays in the memory of the software while the bus is used.\<close>

lemma own_ops:
  assumes "a \<in> own"
  shows "rflpc_eth_init D c d = Some (x, d') \<Longrightarrow> ram_of M d' a = ram_of M d a"
    "wait_link D d = Some d' \<Longrightarrow> ram_of M d' a = ram_of M d a"
    "ram_of M (rflpc_eth_set_mac_address D b d) a = ram_of M d a"
    "ram_of M (snd (rflpc_eth_get_mac_address D d)) a = ram_of M d a"
    "ram_of M (rflpc_led_val D l d) a = ram_of M d a"
    "ram_of M (snd (rflpc_eth_set_irq_handler D h (v, d))) a = ram_of M d a"
    "ram_of M (rflpc_eth_irq_enable_set D i d) a = ram_of M d a"
    "ram_of M (rflpc_eth_set_rx_base_addresses D y z n d) a = ram_of M d a"
    "ram_of M (rflpc_eth_set_tx_base_addresses D y z n d) a = ram_of M d a"
proof -
  note keeps = own_kept [OF assms, of "ram_of M d a"]
  show "rflpc_eth_init D c d = Some (x, d') \<Longrightarrow> ram_of M d' a = ram_of M d a"
    using keeps_eth_init [OF keeps refl] .
  show "wait_link D d = Some d' \<Longrightarrow> ram_of M d' a = ram_of M d a"
    using keeps_wait_link [of "\<lambda>e. ram_of M e a = ram_of M d a", OF _ refl] keeps_read_phy [OF keeps]
    by blast
qed (use keeps_net_ops [OF own_kept [OF assms, of "ram_of M d a"] refl] in \<open>simp_all\<close>)

text \<open>The registers after the last part of the start, from the interrupt handler on.\<close>

definition net_tail :: "net_statics \<Rightarrow> u32 \<Rightarrow> u32 list \<Rightarrow> 'd \<Rightarrow> 'd" where
  "net_tail S h v d =
     (let d = snd (rflpc_eth_set_irq_handler D h (v, d));
          d = rflpc_eth_irq_enable_set D RFLPC_ETH_IRQ_EN_RX_DONE d;
          d = init_rx_descriptors S M d;
          d = rflpc_eth_set_rx_base_addresses D (rx_desc S) (rx_status S) (of_nat RX_BUFFER_COUNT) d;
          d = init_tx_descriptors S M d
      in rflpc_eth_set_tx_base_addresses D (tx_desc S) (tx_status S) (of_nat TX_BUFFER_COUNT) d)"

lemma init_peek:
  assumes "a \<in> A"
  shows "peek D a (init_rx_descriptors S M d) = peek D a d"
    and "peek D a (init_tx_descriptors S M d) = peek D a d"
  using keeps_fold [of "\<lambda>e. peek D a e = peek D a d" "init_rx_descriptor S M" d]
    keeps_fold [of "\<lambda>e. peek D a e = peek D a d" "init_tx_descriptor S M" d] assms
  by (simp_all add: init_rx_descriptors_def init_tx_descriptors_def init_rx_descriptor_def
      init_tx_descriptor_def Let_def store_reg)

lemma net_tail_peek:
  shows "peek D EMAC_RxDescriptor (net_tail S h v d) = rx_desc S"
    "peek D EMAC_RxStatus (net_tail S h v d) = rx_status S"
    "peek D EMAC_RxDescriptorNumber (net_tail S h v d) = 7"
    "peek D EMAC_TxDescriptor (net_tail S h v d) = tx_desc S"
    "peek D EMAC_TxStatus (net_tail S h v d) = tx_status S"
    "peek D EMAC_TxDescriptorNumber (net_tail S h v d) = 7"
    "peek D EMAC_IntEnable (net_tail S h v d) = 8"
    "a \<in> {EMAC_SA0, EMAC_SA1, EMAC_SA2} \<Longrightarrow> peek D a (net_tail S h v d) = peek D a d"
proof -
  have m: "a \<in> net_regs \<Longrightarrow> a \<in> A" for a using regs by blast
  note ops = peek_wr [OF m] peek_reg_or [OF m] peek_reg_and [OF m] peek_rd [OF m] init_peek [OF m]
    net_tail_def rflpc_eth_set_irq_handler_def rflpc_irq_disable_def rflpc_irq_enable_def
    rflpc_eth_irq_enable_set_def rflpc_eth_set_rx_base_addresses_def rflpc_eth_set_tx_base_addresses_def
    RX_BUFFER_COUNT_def TX_BUFFER_COUNT_def RFLPC_ETH_IRQ_EN_RX_DONE_def
  show "peek D EMAC_RxDescriptor (net_tail S h v d) = rx_desc S"
    "peek D EMAC_RxStatus (net_tail S h v d) = rx_status S"
    "peek D EMAC_RxDescriptorNumber (net_tail S h v d) = 7"
    "peek D EMAC_TxDescriptor (net_tail S h v d) = tx_desc S"
    "peek D EMAC_TxStatus (net_tail S h v d) = tx_status S"
    "peek D EMAC_TxDescriptorNumber (net_tail S h v d) = 7"
    "peek D EMAC_IntEnable (net_tail S h v d) = 8"
    "a \<in> {EMAC_SA0, EMAC_SA1, EMAC_SA2} \<Longrightarrow> peek D a (net_tail S h v d) = peek D a d"
    by (auto simp: ops net_regs_def reg_addr split_def Let_def)
qed

lemma net_tail_ram:
  assumes own: "\<And>a. a - mac_addr S < 6 \<or> a - rx_desc S < 64 \<or> a - tx_desc S < 64 \<Longrightarrow> a \<in> own"
    and apart: "\<And>a. a - mac_addr S < 6 \<Longrightarrow> \<not> a - rx_desc S < 64 \<and> \<not> a - tx_desc S < 64"
      "\<And>a. a - rx_desc S < 64 \<Longrightarrow> \<not> a - tx_desc S < 64"
  shows "a - mac_addr S < 6 \<Longrightarrow> ram_of M (net_tail S h v d) a = ram_of M d a"
    and "i < 8 \<Longrightarrow> ld32 (ram_of M (net_tail S h v d)) (rx_desc S + 8 * of_nat i) = rx_buffer_row S i"
    and "i < 8 \<Longrightarrow> ld32 (ram_of M (net_tail S h v d)) (rx_desc S + 8 * of_nat i + 4) = (RX_BUFFER_SIZE - 1) OR shl 1 31"
    and "i < 8 \<Longrightarrow> ld32 (ram_of M (net_tail S h v d)) (tx_desc S + 8 * of_nat i) = tx_buffer_row S i"
proof -
  define e1 where "e1 = rflpc_eth_irq_enable_set D RFLPC_ETH_IRQ_EN_RX_DONE (snd (rflpc_eth_set_irq_handler D h (v, d)))"
  define e2 where "e2 = rflpc_eth_set_rx_base_addresses D (rx_desc S) (rx_status S) (of_nat RX_BUFFER_COUNT)
      (init_rx_descriptors S M e1)"
  have tail: "net_tail S h v d = rflpc_eth_set_tx_base_addresses D (tx_desc S) (tx_status S)
      (of_nat TX_BUFFER_COUNT) (init_tx_descriptors S M e2)"
    by (simp add: net_tail_def e1_def e2_def Let_def)
  have e1: "ram_of M e1 x = ram_of M d x" if "x \<in> own" for x
    using own_ops(6,7) [OF that] by (simp add: e1_def)
  have e2: "ram_of M e2 x = ram_of M (init_rx_descriptors S M e1) x" if "x \<in> own" for x
    using own_ops(8) [OF that] by (simp add: e2_def)
  have last: "ram_of M (net_tail S h v d) x = ram_of M (init_tx_descriptors S M e2) x" if "x \<in> own" for x
    using own_ops(9) [OF that] by (simp add: tail)
  note out = init_outside [of M, OF store]
  show "a - mac_addr S < 6 \<Longrightarrow> ram_of M (net_tail S h v d) a = ram_of M d a"
    using own [of a] apart(1) [of a] by (simp add: last e2 e1 out)
  have row: "x - (p + 8 * of_nat i) < 4 \<Longrightarrow> x - p < 64" "x - (p + 8 * of_nat i + 4) < 4 \<Longrightarrow> x - p < 64"
    if "i < 8" for x p :: addr and i
    using cell_in_block [OF that order_refl] by blast+
  have rx: "ram_of M (net_tail S h v d) x = ram_of M (init_rx_descriptors S M e1) x" if "x - rx_desc S < 64" for x
    using own [of x] apart(2) [OF that] that by (simp add: last e2 out)
  show "i < 8 \<Longrightarrow> ld32 (ram_of M (net_tail S h v d)) (rx_desc S + 8 * of_nat i) = rx_buffer_row S i"
    and "i < 8 \<Longrightarrow> ld32 (ram_of M (net_tail S h v d)) (rx_desc S + 8 * of_nat i + 4) = (RX_BUFFER_SIZE - 1) OR shl 1 31"
    using ld32_local [OF rx [OF row(1) [of i]]] ld32_local [OF rx [OF row(2) [of i]]]
      rx_descriptors [of M i S e1, OF store] by simp_all
  show "i < 8 \<Longrightarrow> ld32 (ram_of M (net_tail S h v d)) (tx_desc S + 8 * of_nat i) = tx_buffer_row S i"
    using ld32_local [of "tx_desc S + 8 * of_nat i" "ram_of M (net_tail S h v d)" "ram_of M (init_tx_descriptors S M e2)"]
      last own row(1) [of i] tx_descriptors [of M i S e2, OF store] by simp
qed

lemma address_regs: "config_regs D {EMAC_SA0, EMAC_SA1, EMAC_SA2}"
  by (rule config_regs_subset [OF config_regs_axioms]) (use regs in \<open>auto simp: net_regs_def\<close>)

lemma prefix_returns:
  assumes serial: "rflpc_iap_get_serial_number iap fl = (Some s, fl')" and live: "plugged d"
    and ownm: "\<And>a. a - b < 6 \<Longrightarrow> a \<in> own"
    and mac: "mac = [2, 3, ucast (s ! 0), ucast (s ! 1), ucast (s ! 2), ucast (s ! 3)]"
  shows "\<exists>d'. net_prefix D iap M b system_clock (fl, d) = Some (fl', d') \<and>
    bytes_at (ram_of M d') b 6 = mac \<and> fst (rflpc_eth_get_mac_address D d') = mac \<and>
    (\<forall>a \<in> own. \<not> a - b < 6 \<longrightarrow> ram_of M d' a = ram_of M d a)"
proof -
  let ?SA = "{EMAC_SA0, EMAC_SA1, EMAC_SA2}"
  note get = config_regs.get_mac_address [OF address_regs refl]
    and set = config_regs.set_mac_address [OF address_regs refl]
  have stored: "bytes_at (store_mac b mac m) b 6 = mac" for m
    by (simp add: six_bytes store_mac_def mac)
  have beside: "store_mac b mac m a = m a" if "\<not> a - b < 6" for m a
    using that by (auto simp: store_mac_def)
  have low: "ucast (x AND 0xFF) = (ucast x :: u8)" for x :: u32
    unfolding numeral_masks by (rule bit_word_eqI) (auto simp: bit_simps)
  define d1 where "d1 = ram_upd M (store_mac b mac) d"
  have auto_mac: "mbed_auto_set_mac iap M b (fl, d) = (fl', d1)"
    by (simp add: mbed_auto_set_mac_def serial d1_def mac low)
  obtain d2 where d2: "rflpc_eth_init D system_clock d1 = Some (1, d2)"
    using eth_init_returns [of system_clock d1] regs by auto
  have ram2: "bytes_at (ram_of M d2) b 6 = mac"
    using same_six [of b "ram_of M d2" "ram_of M d1"] own_ops(1) [OF ownm d2] by (simp add: d1_def store stored)
  define d3 where "d3 = rflpc_eth_set_mac_address D mac d2"
  define d5 where "d5 = ram_upd M (store_mac b mac) (snd (rflpc_eth_get_mac_address D d3))"
  have got: "fst (rflpc_eth_get_mac_address D d3) = mac"
    by (simp add: get set d3_def address_bytes mac del: drop_bit_or)
  define d6 where "d6 = rflpc_led_val D 0 d5"
  have "plugged d2" using keeps_eth_init [OF plugged(1) _ d2] plugged(2) [OF live] by (simp add: d1_def)
  then have "plugged d6"
    using keeps_net_ops [OF plugged(1)] plugged(2) by (simp add: d6_def d5_def d3_def)
  then obtain d7 where d7: "wait_link D d6 = Some d7" using wait_link_returns by blast
  have run: "net_prefix D iap M b system_clock (fl, d) = Some (fl', d7)"
    by (simp add: net_prefix_def auto_mac d2 ram2 d3_def [symmetric] got d5_def [symmetric]
        d6_def [symmetric] d7 split_def Let_def)
  have ram7: "ram_of M d7 a = ram_of M d5 a" if "a \<in> own" for a
    using own_ops(2) [OF that d7] own_ops(5) [OF that] by (simp add: d6_def)
  have bytes: "bytes_at (ram_of M d7) b 6 = mac"
    using same_six [of b "ram_of M d7" "ram_of M d5"] ram7 [OF ownm] by (simp add: d5_def store stored)
  have rest: "ram_of M d7 a = ram_of M d a" if "a \<in> own" "\<not> a - b < 6" for a
    using ram7 [OF that(1)] own_ops(1) [OF that(1) d2] own_ops(3,4) [OF that(1)] beside [OF that(2)]
    by (simp add: d5_def d3_def d1_def store)
  have "peek D a d7 = peek D a d3" if "a \<in> ?SA" for a
  proof -
    have a: "a \<in> A" using that regs by (auto simp: net_regs_def)
    have "peek D a d7 = peek D a d6" by (rule wait_link_peek [OF a d7])
    also have "\<dots> = peek D a d5"
      using that peek_wr [OF a] by (auto simp: d6_def rflpc_led_val_def rflpc_gpio_set_val_def Let_def
          reg_addr led_vals RFLPC_GPIO_BASE_def gpio_ports_def LPC_GPIO1_BASE_def LPC_GPIO_BASE_def
          RFLPC_PIN_GET_PORT_def RFLPC_PIN_MAKE_def)
    also have "\<dots> = peek D a d3"
      using peek_rd [OF a] store_reg [OF a] by (simp add: d5_def rflpc_eth_get_mac_address_def split_def Let_def)
    finally show ?thesis .
  qed
  then have "fst (rflpc_eth_get_mac_address D d7) = mac" using got by (simp add: get)
  with run bytes rest show ?thesis by blast
qed

lemma start:
  assumes serial: "rflpc_iap_get_serial_number iap fl = (Some s, fl')" and live: "plugged d"
    and own: "\<And>a. a - mac_addr S < 6 \<or> a - rx_desc S < 64 \<or> a - tx_desc S < 64 \<Longrightarrow> a \<in> own"
    and apart: "\<And>a. a - mac_addr S < 6 \<Longrightarrow> \<not> a - rx_desc S < 64 \<and> \<not> a - tx_desc S < 64"
      "\<And>a. a - rx_desc S < 64 \<Longrightarrow> \<not> a - tx_desc S < 64"
    and mac: "mac = [2, 3, ucast (s ! 0), ucast (s ! 1), ucast (s ! 2), ucast (s ! 3)]"
  shows "\<exists>d'. simple_net_ethernet_init D iap M S system_clock h (fl, v, d) = Some (fl', v[44 := h], d') \<and>
    bytes_at (ram_of M d') (mac_addr S) 6 = mac \<and> fst (rflpc_eth_get_mac_address D d') = mac \<and>
    peek D EMAC_RxDescriptor d' = rx_desc S \<and> peek D EMAC_RxStatus d' = rx_status S \<and>
    peek D EMAC_RxDescriptorNumber d' = 7 \<and> peek D EMAC_TxDescriptor d' = tx_desc S \<and>
    peek D EMAC_TxStatus d' = tx_status S \<and> peek D EMAC_TxDescriptorNumber d' = 7 \<and>
    peek D EMAC_IntEnable d' = RFLPC_ETH_IRQ_EN_RX_DONE \<and>
    (\<forall>i < 8. ld32 (ram_of M d') (rx_desc S + 8 * of_nat i) = rx_buffer_row S i \<and>
       ld32 (ram_of M d') (rx_desc S + 8 * of_nat i + 4) = (RX_BUFFER_SIZE - 1) OR shl 1 31 \<and>
       ld32 (ram_of M d') (tx_desc S + 8 * of_nat i) = tx_buffer_row S i)"
proof -
  have ownm: "a - mac_addr S < 6 \<Longrightarrow> a \<in> own" for a using own by blast
  obtain d7 where d7: "net_prefix D iap M (mac_addr S) system_clock (fl, d) = Some (fl', d7)"
      "bytes_at (ram_of M d7) (mac_addr S) 6 = mac" "fst (rflpc_eth_get_mac_address D d7) = mac"
    using prefix_returns [OF serial live ownm mac] by blast
  define d8 where "d8 = net_tail S h v d7"
  have run: "simple_net_ethernet_init D iap M S system_clock h (fl, v, d) = Some (fl', v[44 := h], d8)"
    using d7(1)
    by (auto simp: simple_net_ethernet_init_def net_prefix_def d8_def net_tail_def
        rflpc_eth_set_irq_handler_def rflpc_irq_set_handler_def split_def Let_def split: option.splits)
  have bytes: "bytes_at (ram_of M d8) (mac_addr S) 6 = mac"
    using same_six [of "mac_addr S" "ram_of M d8" "ram_of M d7"] net_tail_ram(1) [OF own apart] d7(2)
    by (simp add: d8_def)
  have "fst (rflpc_eth_get_mac_address D d8) = mac"
    using d7(3) mac_address_regs [OF address_regs, of d8 d7] net_tail_peek(8) [of _ S h v d7] by (simp add: d8_def)
  then show ?thesis
    using run bytes net_tail_peek(1-7) net_tail_ram(2-4) [OF own apart]
    by (intro exI [of _ d8]) (simp add: d8_def RFLPC_ETH_IRQ_EN_RX_DONE_def)
qed

end

section \<open>A model\<close>

text \<open>The model of the PHY of Ethernet, with a memory and a link that comes up after some reads of the
  status register.\<close>

record start_state = mii_state +
  start_memory :: mem

definition start_ram :: "start_state ram" where
  "start_ram = \<lparr>ram_of = start_memory, ram_upd = (\<lambda>f d. d\<lparr>start_memory := f (start_memory d)\<rparr>)\<rparr>"

lemma start_memory_kept:
  "start_memory (snd (dev_rd mii_device a d)) = start_memory d" "start_memory (dev_wr mii_device a v d) = start_memory d"
  "start_memory (cpsid_i mii_device d) = start_memory d" "start_memory (cpsie_i mii_device d) = start_memory d"
  by (simp_all add: mii_device_def Let_def)

lemma plugged_kept: "bus_keeps mii_device (\<lambda>d. bit (phy_file d RFLPC_ETH_PHY_BMSR) 2)"
  by (auto simp: bus_keeps_def mii_device_def Let_def)

lemma net_start_model:
  "net_start mii_device mii_regs phy_value start_ram UNIV (\<lambda>d. bit (phy_file d RFLPC_ETH_PHY_BMSR) 2)"
proof unfold_locales
  fix d :: start_state and a and f :: "mem \<Rightarrow> mem"
  show "a \<in> mii_regs \<Longrightarrow> peek mii_device a (ram_upd start_ram f d) = peek mii_device a d"
    by (simp add: peek_def mii_device_rd start_ram_def)
  show "bus_keeps mii_device (\<lambda>d. ram_of start_ram d a = x)" for x
    by (simp add: bus_keeps_def start_ram_def start_memory_kept)
  show "bit (phy_file d RFLPC_ETH_PHY_BMSR) 2 \<Longrightarrow> \<exists>k. phy_link phy_value (phy_reads mii_device RFLPC_ETH_PHY_BMSR k d)"
    by (rule exI [of _ "negotiating d"]) (simp add: phy_link_value mii_phy_reads)
  show "net_regs \<union> mac_regs \<subseteq> mii_regs"
    by (simp add: net_regs_def mac_regs_def reg_addr)
qed (simp_all add: plugged_kept start_ram_def)

interpretation start_model: net_start mii_device mii_regs phy_value start_ram UNIV
  "\<lambda>d. bit (phy_file d RFLPC_ETH_PHY_BMSR) 2"
  by (rule net_start_model)

section \<open>Properties\<close>

text \<open>C16. The start of the interface: with a serial number in the ROM and a cable plugged in, that is a
  link that is up after finitely many reads of the status in whatever state the driver has brought the PHY, it
  returns, with the address 2:3 followed by the low bytes of the serial number both in memory and in the address
  registers, its handler in the vector table, the receive interrupt enabled, the base registers
  pointing at the descriptor arrays of eight, and every descriptor at its row of the buffer array. The
  other conditions: management accesses and a reset of the PHY end, the registers of the MAC that the text names hold
  what is written to them, the hardware address and the two descriptor arrays are memory that accesses to
  the bus do not change, and these three areas lie apart.\<close>

theorem net_start_sets_up:
  assumes contract: "net_start D A phy M own plugged" and live: "plugged d"
    and serial: "rflpc_iap_get_serial_number iap fl = (Some s, fl')"
    and own: "\<And>a. a - mac_addr S < 6 \<or> a - rx_desc S < 64 \<or> a - tx_desc S < 64 \<Longrightarrow> a \<in> own"
    and apart: "\<And>a. a - mac_addr S < 6 \<Longrightarrow> \<not> a - rx_desc S < 64 \<and> \<not> a - tx_desc S < 64"
      "\<And>a. a - rx_desc S < 64 \<Longrightarrow> \<not> a - tx_desc S < 64"
    and mac: "mac = [2, 3, ucast (s ! 0), ucast (s ! 1), ucast (s ! 2), ucast (s ! 3)]"
  shows "\<exists>d'. simple_net_ethernet_init D iap M S system_clock h (fl, v, d) = Some (fl', v[44 := h], d') \<and>
    bytes_at (ram_of M d') (mac_addr S) 6 = mac \<and> fst (rflpc_eth_get_mac_address D d') = mac \<and>
    peek D EMAC_RxDescriptor d' = rx_desc S \<and> peek D EMAC_RxStatus d' = rx_status S \<and>
    peek D EMAC_RxDescriptorNumber d' = 7 \<and> peek D EMAC_TxDescriptor d' = tx_desc S \<and>
    peek D EMAC_TxStatus d' = tx_status S \<and> peek D EMAC_TxDescriptorNumber d' = 7 \<and>
    peek D EMAC_IntEnable d' = RFLPC_ETH_IRQ_EN_RX_DONE \<and>
    (\<forall>i < 8. ld32 (ram_of M d') (rx_desc S + 8 * of_nat i) = rx_buffer_row S i \<and>
       ld32 (ram_of M d') (rx_desc S + 8 * of_nat i + 4) = (RX_BUFFER_SIZE - 1) OR shl 1 31 \<and>
       ld32 (ram_of M d') (tx_desc S + 8 * of_nat i) = tx_buffer_row S i)"
  by (rule net_start.start [OF contract serial live _ _ _ mac]) (rule own apart, assumption)+

lemma net_start_sets_up_witness:
  "\<exists>d'. simple_net_ethernet_init mii_device (\<lambda>_ fl. ([0, 0x11, 0x22, 0x33, 0x44], fl)) start_ram
      \<lparr>rx_desc = 0x2007C000, rx_status = 0x2007C040, tx_desc = 0x2007C080, tx_status = 0x2007C0C0,
       rxbuffers = 0x2007C100, txbuffers = 0x2007F200, mac_addr = 0x10000000\<rparr> 96000000 0x1235
      ((\<lambda>_. 0xFF, ()), replicate 64 0,
       \<lparr>mii_ram = \<lambda>_. 0, mii_busy = 0, phy_file = \<lambda>_. 4, negotiating = 2, start_memory = \<lambda>_. 0xFF\<rparr>) =
     Some ((\<lambda>_. 0xFF, ()), (replicate 64 0)[44 := 0x1235], d') \<and>
    start_memory d' 0x10000002 = 0x11 \<and> peek mii_device EMAC_RxDescriptor d' = 0x2007C000"
proof -
  let ?S = "\<lparr>rx_desc = 0x2007C000, rx_status = 0x2007C040, tx_desc = 0x2007C080, tx_status = 0x2007C0C0,
       rxbuffers = 0x2007C100, txbuffers = 0x2007F200, mac_addr = 0x10000000\<rparr>"
    and ?iap = "\<lambda>_ fl. ([0, 0x11, 0x22, 0x33, 0x44 :: u32], fl)"
    and ?d = "\<lparr>mii_ram = \<lambda>_. 0, mii_busy = 0, phy_file = \<lambda>_. 4, negotiating = 2, start_memory = \<lambda>_. 0xFF\<rparr>"
  have live: "bit (phy_file ?d RFLPC_ETH_PHY_BMSR) 2" by simp
  have serial: "rflpc_iap_get_serial_number ?iap (\<lambda>_. 0xFF, ()) = (Some [0x11, 0x22, 0x33, 0x44], (\<lambda>_. 0xFF, ()))"
    by (simp add: rflpc_iap_get_serial_number_def)
  have far: "\<not> a - q < n" if "a - p < l" "n \<le> p - q" "l \<le> q - p" for a p q n l :: u32
    using outside_block [of n p q l "a - p"] that by simp
  have apart: "\<not> a - rx_desc ?S < 64 \<and> \<not> a - tx_desc ?S < 64" if "a - mac_addr ?S < 6" for a
    using that far [of a "0x10000000" 6 64 "0x2007C000"] far [of a "0x10000000" 6 64 "0x2007C080"] by simp
  have apart': "\<not> a - tx_desc ?S < 64" if "a - rx_desc ?S < 64" for a
    using that far [of a "0x2007C000" 64 64 "0x2007C080"] by simp
  obtain d' where d': "simple_net_ethernet_init mii_device ?iap start_ram ?S 96000000 0x1235 ((\<lambda>_. 0xFF, ()), replicate 64 0, ?d) =
      Some ((\<lambda>_. 0xFF, ()), (replicate 64 0)[44 := 0x1235], d')"
    and bytes: "bytes_at (ram_of start_ram d') (mac_addr ?S) 6 = [2, 3, 0x11, 0x22, 0x33, 0x44]"
    and desc: "peek mii_device EMAC_RxDescriptor d' = rx_desc ?S"
    using net_start_sets_up [OF net_start_model live serial UNIV_I apart apart' refl, of 96000000 "0x1235" "replicate 64 0"]
    by auto
  from bytes have "start_memory d' 0x10000002 = 0x11"
    by (simp add: bytes_at_def upt_conv_Cons start_ram_def)
  with d' desc show ?thesis by auto
qed

end
