(* ===== verification/Answer.thy ===== *)
theory Answer
  imports Simple_Net
begin

text \<open>
  What the samples that answer received frames have in common: a frame that asks for an answer has it built in
  the buffer of the first free transmit descriptor, and the descriptor handed over; the others are dropped. \<open>asks\<close>,
  \<open>reply\<close> and \<open>ctrl\<close> are the program's. The contract of both rings on one device is the locale
  \<open>answer_rings\<close>; Udp_Server and Eth_Server give it its instances.
\<close>

definition answer_frame ::
  "'d device \<Rightarrow> 'd ram \<Rightarrow> (mem \<Rightarrow> bool) \<Rightarrow> (addr \<Rightarrow> mem \<Rightarrow> mem) \<Rightarrow> (addr \<Rightarrow> mem \<Rightarrow> u32) \<Rightarrow> 'd \<Rightarrow> 'd" where
  "answer_frame D M asks reply ctrl d =
     (if \<not> asks (ram_of M d) then d
      else
        (let (r, d) = rflpc_eth_get_current_tx_packet_descriptor D 0 d
         in case r of
              None \<Rightarrow> d
            | Some p \<Rightarrow>
                (let m = ram_of M d;
                     tx = ld32 m (fst p);
                     d = ram_upd M (reply tx) d;
                     d = ram_upd M (st32 (fst p + 4) (ctrl tx m)) d
                 in rflpc_eth_done_process_tx_packet D 1 d)))"

context net_tx
begin

lemma frame_handed:
  assumes ok: "ring_ok n (sent d) (handed d)"
  shows "let d' = answer_frame D M asks reply ctrl d in
    ring_ok n (sent d') (handed d') \<and> sent d \<le> sent d' \<and>
    (if asks (ram_of M d)
     then handed d' = handed d + 1 \<or> handed d' = handed d \<and> ring_free n (sent d) (handed d) = 0
     else d' = d)"
proof (cases "asks (ram_of M d)")
  case True
  obtain r e where e: "rflpc_eth_get_current_tx_packet_descriptor D 0 d = (r, e)" "tx_moves handed sent d e"
      "r = None \<longrightarrow> ring_free n (sent d) (handed d) = 0" "r \<noteq> None \<longrightarrow> 0 < ring_free n (sent e) (handed e)"
    using get_first [OF ok] by blast
  have ok': "ring_ok n (sent e) (handed e)" "sent d \<le> sent e" "handed e = handed d"
    using moves_ok [OF e(2) ok] e(2) by (simp_all add: tx_moves_def)
  show ?thesis
  proof (cases r)
    case None
    with e True ok' show ?thesis by (simp add: answer_frame_def)
  next
    case (Some p)
    define tx where "tx = ld32 (ram_of M e) (fst p)"
    define g where "g = ram_upd M (st32 (fst p + 4) (ctrl tx (ram_of M e))) (ram_upd M (reply tx) e)"
    have g: "handed g = handed d" "sent g = sent e" by (simp_all add: g_def store ok')
    have "answer_frame D M asks reply ctrl d = rflpc_eth_done_process_tx_packet D 1 g"
      using e(1) Some True by (simp add: answer_frame_def Let_def g_def tx_def)
    then show ?thesis
      using done_one [of g] g e(4) Some ok' True by (auto simp: Let_def)
  qed
qed (use ok in \<open>simp add: answer_frame_def\<close>)

end

section \<open>Any number of frames\<close>

text \<open>
  \<open>ready\<close> holds while the descriptors are as they were set up and the frames that
  wait are as they were received: \<open>request i\<close> says that the frame \<open>i\<close> is one to answer. The stores of
  the program stay in \<open>W\<close>, where the receive side keeps nothing. \<open>arrivals\<close> bounds the frames the
  line will have delivered when it falls silent.
\<close>

locale answer_rings = net_tx D tn handed sent tdb tsb M own + rx: eth_rx D rn processed received rdb rsb
  for D :: "'d device" and tn :: nat and handed sent :: "'d \<Rightarrow> nat" and tdb tsb :: addr and M :: "'d ram"
    and own :: "addr set" and rn :: nat and processed received :: "'d \<Rightarrow> nat" and rdb rsb :: addr +
  fixes asks :: "addr \<Rightarrow> mem \<Rightarrow> bool" and reply :: "addr \<Rightarrow> addr \<Rightarrow> mem \<Rightarrow> mem" and ctrl :: "addr \<Rightarrow> addr \<Rightarrow> mem \<Rightarrow> u32"
    and ready :: "'d \<Rightarrow> bool" and arrivals :: "'d \<Rightarrow> nat"
    and pkt tbuf :: "nat \<Rightarrow> addr" and request :: "nat \<Rightarrow> bool" and W :: "addr set"
  assumes rx_descriptor: "ready d \<Longrightarrow> k < rn \<Longrightarrow> ld32 (ram_of M d) (rdb + 8 * of_nat k) = pkt k"
    and tx_descriptor: "ready d \<Longrightarrow> k < tn \<Longrightarrow> ld32 (ram_of M d) (tdb + 8 * of_nat k) = tbuf k"
    and waiting: "ready d \<Longrightarrow> processed d \<le> i \<Longrightarrow> i < received d \<Longrightarrow>
        asks (pkt (i mod rn)) (ram_of M d) = request i"
    and bounded: "ready d \<Longrightarrow> received d \<le> arrivals d"
    and reads: "ready d \<Longrightarrow> ready (snd (dev_rd D a d)) \<and> arrivals (snd (dev_rd D a d)) \<le> arrivals d"
    and consume: "ready d \<Longrightarrow> ready (dev_wr D EMAC_RxConsumeIndex v d) \<and>
        arrivals (dev_wr D EMAC_RxConsumeIndex v d) \<le> arrivals d"
        "handed (dev_wr D EMAC_RxConsumeIndex v d) = handed d" "sent (dev_wr D EMAC_RxConsumeIndex v d) = sent d"
    and produce: "ready d \<Longrightarrow> ready (dev_wr D EMAC_TxProduceIndex v d) \<and>
        arrivals (dev_wr D EMAC_TxProduceIndex v d) \<le> arrivals d"
        "processed (dev_wr D EMAC_TxProduceIndex v d) = processed d"
        "received (dev_wr D EMAC_TxProduceIndex v d) = received d"
    and stores: "ready d \<Longrightarrow> (\<And>a. a \<notin> W \<Longrightarrow> f (ram_of M d) a = ram_of M d a) \<Longrightarrow>
          ready (ram_upd M f d) \<and> arrivals (ram_upd M f d) \<le> arrivals d"
        "processed (ram_upd M f d) = processed d" "received (ram_upd M f d) = received d"
    and control_cell: "k < tn \<Longrightarrow> a - (tdb + 8 * of_nat k + 4) < 4 \<Longrightarrow> a \<in> W"
    and reply_stays: "ready d \<Longrightarrow> processed d \<le> i \<Longrightarrow> i < received d \<Longrightarrow> request i \<Longrightarrow> k < tn \<Longrightarrow> a \<notin> W \<Longrightarrow>
        reply (pkt (i mod rn)) (tbuf k) (ram_of M d) a = ram_of M d a"
begin

text \<open>Steps that leave both rings to the hardware.\<close>

definition quiet :: "'d \<Rightarrow> 'd \<Rightarrow> bool" where
  "quiet d e \<longleftrightarrow> ready e \<and> arrivals e \<le> arrivals d \<and> tx_moves handed sent d e \<and> rx_moves rn processed received d e"

definition in_order :: "'d \<Rightarrow> bool" where
  "in_order d \<longleftrightarrow> ready d \<and> ring_ok tn (sent d) (handed d) \<and> ring_ok rn (processed d) (received d)"

lemma quiet_refl: "in_order d \<Longrightarrow> quiet d d"
  by (simp add: quiet_def in_order_def tx_moves_def rx_moves_def ring_ok_def)

lemma quiet_trans: "quiet d e \<Longrightarrow> quiet e g \<Longrightarrow> quiet d g"
  using moves_trans rx.rx_trans by (force simp: quiet_def)

lemma quiet_in_order: "in_order d \<Longrightarrow> quiet d e \<Longrightarrow> in_order e"
  using moves_ok [of d e] by (auto simp: quiet_def in_order_def rx_moves_def)

lemma quiet_read: "in_order d \<Longrightarrow> quiet d (snd (dev_rd D a d))"
  using reads [of d a] rd_moves [of d a] rx.rd_moves [of d a] by (auto simp: quiet_def in_order_def ring_ok_def)

text \<open>What the handler does to the receive side: nothing.\<close>

lemma frame_keeps_rx:
  assumes d: "in_order d" and waits: "processed d < received d" and b: "b = pkt (processed d mod rn)"
  shows "let d' = answer_frame D M (asks b) (reply b) (ctrl b) d in
    ready d' \<and> rx_moves rn processed received d d' \<and> arrivals d' \<le> arrivals d"
proof -
  define J where "J = (\<lambda>e. ready e \<and> rx_moves rn processed received d e \<and> arrivals e \<le> arrivals d)"
  have J0: "J d" using d by (simp add: J_def in_order_def rx_moves_def)
  have J_read: "J (snd (dev_rd D a e))" if "J e" for a e
    using that reads [where d = e and a = a] rx.rx_next [where d = d and f = e and a = a] by (auto simp: J_def)
  have J_produce: "J (dev_wr D EMAC_TxProduceIndex v e)" if "J e" for v e
    using that produce [where d = e and v = v] by (auto simp: J_def rx_moves_def)
  have J_store: "J (ram_upd M f e)" if "J e" "\<And>a. a \<notin> W \<Longrightarrow> f (ram_of M e) a = ram_of M e a" for f e
    using that(1) stores(1) [where d = e and f = f, OF _ that(2)] stores(2,3) [where d = e and f = f]
    by (auto simp: J_def rx_moves_def)
  have "J (answer_frame D M (asks b) (reply b) (ctrl b) d)"
  proof (cases "asks b (ram_of M d)")
    case True
    then have req: "request (processed d)"
      using waiting [of d "processed d"] d waits by (simp add: b in_order_def)
    obtain r e where e: "rflpc_eth_get_current_tx_packet_descriptor D 0 d = (r, e)"
        "r \<noteq> None \<longrightarrow> fst (the r) = slot_desc tdb tn (handed d)"
      using get_first [of d] d by (auto simp: in_order_def)
    have Je: "J e" using get_tx_keeps [where P = J and D = D and d = d and idx = 0, OF J_read J0] e(1) by simp
    show ?thesis
    proof (cases r)
      case (Some p)
      define k where "k = handed d mod tn"
      define c where "c = ctrl b (tbuf k) (ram_of M e)"
      have k: "k < tn" using size(1) by (simp add: k_def)
      have p: "fst p = tdb + 8 * of_nat k" using e(2) Some by (simp add: slot_desc_def k_def)
      have ptr: "ld32 (ram_of M e) (fst p) = tbuf k"
        using tx_descriptor [OF _ k] Je by (simp add: p J_def)
      have "reply b (tbuf k) (ram_of M e) a = ram_of M e a" if "a \<notin> W" for a
        using reply_stays [of e "processed d" k a] Je waits req k that by (auto simp: J_def rx_moves_def b)
      then have "J (ram_upd M (st32 (fst p + 4) c) (ram_upd M (reply b (tbuf k)) e))"
      proof (rule J_store [OF J_store [OF Je]])
        fix a :: addr assume "a \<notin> W"
        then have "\<not> a - (fst p + 4) < 4" using control_cell [OF k] by (auto simp: p)
        then show "st32 (fst p + 4) c (ram_of M (ram_upd M (reply b (tbuf k)) e)) a = ram_of M (ram_upd M (reply b (tbuf k)) e) a"
          by (intro st32_other) (simp add: word_less_nat_alt)
      qed
      from done_tx_keeps [of J D, OF J_read J_produce this] show ?thesis
        using e(1) Some True by (simp add: answer_frame_def Let_def ptr c_def)
    qed (use e Je True in \<open>simp add: answer_frame_def\<close>)
  qed (use J0 in \<open>simp add: answer_frame_def\<close>)
  then show ?thesis by (simp add: J_def Let_def)
qed

text \<open>The frames \<open>xs\<close> have had their answers: as many as were asked for, but for those that found the ring
  full, and none as long as there was room.\<close>

definition served :: "'d \<Rightarrow> nat list \<Rightarrow> 'd \<Rightarrow> bool" where
  "served d xs d' \<longleftrightarrow>
     (let asked = length (filter request xs) in
       sent d \<le> sent d' \<and> handed d \<le> handed d' \<and> handed d' \<le> handed d + asked \<and>
       handed d + min asked (ring_free tn (sent d) (handed d)) \<le> handed d')"

lemma served_quiet: "quiet d e \<Longrightarrow> served d [] e"
  by (simp add: served_def quiet_def tx_moves_def)

lemma served_trans:
  assumes "served d xs e" and "served e ys g"
  shows "served d (xs @ ys) g"
proof -
  have "h + min (a + b) (k - (h - s)) \<le> h''"
    if "h + min a (k - (h - s)) \<le> h'" "h' + min b (k - (h' - s')) \<le> h''" "s \<le> s'" "h' \<le> h + a" "h \<le> h'"
    for h h' h'' a b s s' k :: nat
    using that by linarith
  from this [of "handed d" _ "tn - 1" "sent d" "handed e" _ "sent e" "handed g"] assms
  show ?thesis by (auto simp only: served_def ring_free_def Let_def filter_append length_append)
qed

text \<open>A loop that hands every frame to the program between two quiet steps.\<close>

lemma frames_served:
  assumes loop: "\<And>d. L d = (case rflpc_eth_get_current_rx_packet_descriptor D d of
        (None, e) \<Rightarrow> Some e | (Some p, e) \<Rightarrow> L (tail (rflpc_eth_done_process_rx_packet D (f p e))))"
    and step: "\<And>p d. f p d =
        (let b = ld32 (ram_of M (head d)) (fst p) in answer_frame D M (asks b) (reply b) (ctrl b) (head d))"
    and head: "\<And>d. in_order d \<Longrightarrow> quiet d (head d)" and tail: "\<And>d. in_order d \<Longrightarrow> quiet d (tail d)"
    and d: "in_order d"
  shows "\<exists>d'. L d = Some d' \<and> in_order d' \<and> received d' = processed d' \<and> received d \<le> processed d' \<and>
    served d [processed d..<processed d'] d'"
proof -
  define I where "I = (\<lambda>d. ready d \<and> ring_ok tn (sent d) (handed d))"
  have moved: "I e \<and> served d [] e" if "I d" "ready e" "tx_moves handed sent d e" for d e
    using that moves_ok [OF that(3)] by (auto simp: I_def served_def tx_moves_def)
  have quiet: "I e \<and> served d [] e" if "I d" "quiet d e" for d e
    using moved [OF that(1)] that(2) by (simp add: quiet_def)
  have "\<exists>d'. L d = Some d' \<and> I d' \<and> received d' = processed d' \<and>
    received d \<le> received d' \<and> processed d \<le> processed d' \<and> served d [processed d..<processed d'] d'"
  proof (rule rx.frame_loop_rule [where I = I and bound = arrivals and L = L and f = f and tail = tail])
    show "I d" "ring_ok rn (processed d) (received d)" using d by (simp_all add: I_def in_order_def)
    show "served d xs e \<Longrightarrow> served e ys g \<Longrightarrow> served d (xs @ ys) g" for d xs e ys g by (rule served_trans)
    show "L d = (case rflpc_eth_get_current_rx_packet_descriptor D d of
        (None, e) \<Rightarrow> Some e | (Some p, e) \<Rightarrow> L (tail (rflpc_eth_done_process_rx_packet D (f p e))))" for d
      by (rule loop)
    fix d assume I: "I d"
    then have tx: "sent d \<le> handed d" by (simp add: I_def ring_ok_def)
    show "served d [] d" by (simp add: served_def)
    show "received d \<le> arrivals d" using I bounded by (simp add: I_def)
    show "I (snd (dev_rd D a d)) \<and> arrivals (snd (dev_rd D a d)) \<le> arrivals d \<and> served d [] (snd (dev_rd D a d))" for a
      using moved [OF I _ rd_moves [OF tx]] reads I by (simp add: I_def)
    show "I (dev_wr D EMAC_RxConsumeIndex v d) \<and> arrivals (dev_wr D EMAC_RxConsumeIndex v d) \<le> arrivals d \<and>
        served d [] (dev_wr D EMAC_RxConsumeIndex v d)" for v
      using moved [OF I, of "dev_wr D EMAC_RxConsumeIndex v d"] consume I tx by (simp add: I_def tx_moves_def)
    assume ok: "ring_ok rn (processed d) (received d)"
    then have o: "in_order d" using I by (simp add: I_def in_order_def)
    show "I (tail d) \<and> rx_moves rn processed received d (tail d) \<and> arrivals (tail d) \<le> arrivals d \<and> served d [] (tail d)"
      using quiet [OF I tail [OF o]] tail [OF o] by (simp add: quiet_def)
    fix d' assume waits: "processed d < received d"
      and d': "d' = f (rdb + 8 * of_nat (processed d mod rn), rsb + 8 * of_nat (processed d mod rn)) d"
    define e where "e = head d"
    define b where "b = pkt (processed e mod rn)"
    have e: "in_order e" "processed e = processed d" "processed e < received e" "arrivals e \<le> arrivals d"
        "rx_moves rn processed received d e"
      using head [OF o] quiet_in_order [OF o head [OF o]] waits by (auto simp: e_def quiet_def rx_moves_def)
    have j: "processed d mod rn < rn" using rx.size(1) by simp
    have "ld32 (ram_of M e) (rdb + 8 * of_nat (processed d mod rn)) = b"
      using rx_descriptor [OF _ j, of e] e(1,2) by (simp add: b_def in_order_def)
    then have d'': "d' = answer_frame D M (asks b) (reply b) (ctrl b) e"
      unfolding d' step by (simp add: e_def)
    have req: "asks b (ram_of M e) = request (processed d)"
      using waiting [of e "processed e"] e by (simp add: b_def in_order_def)
    note kept = frame_keeps_rx [OF e(1,3) b_def, folded d'']
    note handed = frame_handed [of e "asks b" "reply b" "ctrl b", folded d'']
    have "served e [processed d] d' \<and> ring_ok tn (sent d') (handed d')"
      using handed e(1) by (auto simp: in_order_def served_def req Let_def split: if_splits)
    then have "served d [processed d] d' \<and> I d'"
      using served_trans [OF served_quiet [OF head [OF o], folded e_def], of "[processed d]" d'] kept
      by (simp add: I_def Let_def)
    then show "I d' \<and> rx_moves rn processed received d d' \<and> arrivals d' \<le> arrivals d \<and> served d [processed d] d'"
      using kept e(4,5) rx.rx_trans [OF e(5), of d'] by (simp add: Let_def)
  qed
  then obtain d' where d': "L d = Some d'" "I d'" "received d' = processed d'" "received d \<le> received d'"
      "served d [processed d..<processed d'] d'" by blast
  moreover have "in_order d'" using d'(2,3) rx.size(1) by (simp add: in_order_def I_def ring_ok_def)
  ultimately show ?thesis by auto
qed

end

end
