(* ===== verification/Dhcp_Net.thy ===== *)
theory Dhcp_Net
  imports Dhcp Simple_Net
begin

text \<open>
  The DHCP client on the packet interface: \<^verbatim>\<open>dhcp_send\<close> of \<^verbatim>\<open>samples/dhcp/main.c\<close> as a whole, from the
  transmit buffer it waits for to the descriptor it hands over. The bytes it writes are the
  function \<open>dhcp_send\<close> of Dhcp, the two calls of the interface those of Simple_Net.
\<close>

text \<open>\<open>g\<close> is the source address that the uninitialised \<^verbatim>\<open>EthHead\<close> holds.\<close>

definition dhcp_transmit ::
  "'d device \<Rightarrow> 'd ram \<Rightarrow> addr \<Rightarrow> u8 list \<Rightarrow> addr \<Rightarrow> u32 \<Rightarrow> u32 \<Rightarrow> u8 list \<Rightarrow> 'd \<Rightarrow> 'd option" where
  "dhcp_transmit D M mac g dh src_ip dst_ip dst_mac d =
     (case simple_net_get_tx_buffer D M d of
        None \<Rightarrow> None
      | Some (tx, d) \<Rightarrow>
          (let d = ram_upd M (dhcp_send tx g dh src_ip dst_ip dst_mac) d
           in Some (simple_net_emit_buffer D M mac (ucast (DHCP_OFFSET + DHCP_HLEN)) True d)))"

context net_tx
begin

lemma dhcp_through_ring:
  assumes ok: "ring_ok n (sent d) (handed d)"
    and freed: "0 < ring_free n (sent ((tx_try D ^^ k) d)) (handed ((tx_try D ^^ k) d))"
    and s: "s = slot_desc db n (handed d)" and p: "p = ld32 (ram_of M d) s"
    and own: "\<And>a. a - s < 8 \<or> a - p < TX_BUFFER_SIZE \<or> a - mac < 6 \<or> a - dh < 300 \<Longrightarrow> a \<in> own"
    and apart: "\<And>a. a - p < TX_BUFFER_SIZE \<Longrightarrow> \<not> a - s < 8 \<and> \<not> a - mac < 6"
    and message: "frame_apart p dh" and len: "length dst_mac = 6" "length g = 6"
  shows "\<exists>d'. dhcp_transmit D M mac g dh src dst dst_mac d = Some d' \<and>
    ring_ok n (sent d') (handed d') \<and> handed d' = handed d + 1 \<and> ld32 (ram_of M d') s = p \<and>
    ld32 (ram_of M d') (s + 4) = rflpc_eth_set_tx_control_word 342 0 1 \<and>
    proto_eth_demangle (ram_of M d') p =
      \<lparr>eth_src = bytes_at (ram_of M d) mac 6, eth_dst = dst_mac, eth_type = PROTO_IP\<rparr> \<and>
    proto_checksum (ram_of M d') (p + 14) 20 = 0 \<and>
    (let ip = proto_ip_demangle (ram_of M d') (p + 14)
     in ip_protocol ip = PROTO_UDP \<and> ip_total_length ip = 328 \<and> ip_src_addr ip = src \<and> ip_dst_addr ip = dst) \<and>
    proto_udp_demangle (ram_of M d') (p + 34) =
      \<lparr>udp_src_port = DHCP_CLIENT_PORT, udp_dst_port = DHCP_SERVER_PORT, udp_len = 308, udp_checksum = 0\<rparr> \<and>
    (\<forall>k < 300. ram_of M d' (p + 42 + k) = ram_of M d (dh + net_offset k))"
proof -
  let ?w = "dhcp_send p g dh src dst dst_mac"
  have sz: "TX_BUFFER_SIZE = 1538" by (simp add: TX_BUFFER_SIZE_def RFLPC_ETH_MAX_FRAME_LENGTH_def)
  note bytes = dhcp_send_bytes [OF message len refl, where src = src and dst = dst]
  have writes: "?w m a = m a" if "\<not> a - p < TX_BUFFER_SIZE" for m a
  proof -
    have "\<not> a - p < 342" using that by (simp add: sz word_less_nat_alt)
    with bytes [where m = m] show ?thesis by blast
  qed
  have own1: "a \<in> own" if "a - s < 8 \<or> a - p < TX_BUFFER_SIZE \<or> a - mac < 6" for a using own that by blast
  obtain d1 where d1: "simple_net_get_tx_buffer D M d = Some (p, d1)"
    and sent: "let d' = simple_net_emit_buffer D M mac 342 True (ram_upd M ?w d1) in
      ring_ok n (sent d') (handed d') \<and> handed d' = handed d + 1 \<and> ld32 (ram_of M d') s = p \<and>
      ld32 (ram_of M d') (s + 4) = rflpc_eth_set_tx_control_word (ucast (342 :: u16)) 0 1 \<and>
      (\<forall>j < TX_BUFFER_SIZE. ram_of M d' (p + j) =
         (if j - 6 < 6 then ram_of M d (mac + (j - 6)) else ?w (ram_of M d1) (p + j)))"
    using frame [where w = ?w, OF ok freed s p own1 apart writes, of 342] by blast
  define d' where "d' = simple_net_emit_buffer D M mac 342 True (ram_upd M ?w d1)"
  define m1 where "m1 = ?w (ram_of M d1)"
  have run: "dhcp_transmit D M mac g dh src dst dst_mac d = Some d'"
    by (simp add: dhcp_transmit_def d1 d'_def DHCP_OFFSET_def DHCP_HLEN_def UDP_OFFSET_def IP_OFFSET_def
        PROTO_MAC_HLEN_def PROTO_IP_HLEN_def PROTO_UDP_HLEN_def)
  have byte: "ram_of M d' (p + j) = (if j - 6 < 6 then ram_of M d (mac + (j - 6)) else m1 (p + j))"
    if "j < 1538" for j
    using sent that by (simp add: Let_def d'_def m1_def sz)
  have after: "ram_of M d' a = m1 a" if "12 \<le> unat (a - p)" "unat (a - p) < 1538" for a
    using byte [of "a - p"] region [of 6 6 "a - p"] that by (simp add: word_less_nat_alt)
  have m1: "\<forall>a \<in> own. ram_of M d1 a = ram_of M d a"
    using get_buffer [OF ok freed] d1 by auto
  note b = bytes [where m = "ram_of M d1", folded m1_def]
  have same_ip: "ram_of M d' a = m1 a" if "a - (p + 14) < 20" for a
    using that by (intro after) (simp_all add: frame_regions)
  have "proto_ip_demangle (ram_of M d') (p + 14) = proto_ip_demangle m1 (p + 14)"
    by (rule ip_header.get_local) (rule same_ip)
  moreover have "proto_checksum (ram_of M d') (p + 14) 20 = proto_checksum m1 (p + 14) 20"
    using checksum_local [of 20 "p + 14" "ram_of M d'" m1] same_ip by simp
  moreover have "proto_udp_demangle (ram_of M d') (p + 34) = proto_udp_demangle m1 (p + 34)"
    by (rule udp_header.get_local, rule after) (simp_all add: frame_regions)
  moreover have "ram_of M d' (p + 42 + k) = ram_of M d (dh + net_offset k)" if "k < 300" for k
  proof -
    have "ram_of M d' (p + 42 + k) = m1 (p + 42 + k)"
      using frame_regions(3) [of "p + 42 + k" p] that by (intro after) simp_all
    also have "\<dots> = ram_of M d1 (dh + net_offset k)" using b that by blast
    also have "\<dots> = ram_of M d (dh + net_offset k)"
      using m1 own [of "dh + net_offset k"] that by simp
    finally show ?thesis .
  qed
  moreover have "proto_eth_demangle (ram_of M d') p =
      \<lparr>eth_src = bytes_at (ram_of M d) mac 6, eth_dst = dst_mac, eth_type = PROTO_IP\<rparr>"
  proof -
    have "proto_eth_demangle m1 p = \<lparr>eth_src = g, eth_dst = dst_mac, eth_type = PROTO_IP\<rparr>" using b by blast
    then show ?thesis
      using byte [of 0] byte [of 1]
      by (simp add: proto_eth_demangle_def get_put_defs bytes_at_def upt_conv_Cons byte)
  qed
  moreover have "ring_ok n (sent d') (handed d') \<and> handed d' = handed d + 1 \<and> ld32 (ram_of M d') s = p \<and>
      ld32 (ram_of M d') (s + 4) = rflpc_eth_set_tx_control_word 342 0 1"
    using sent by (auto simp: Let_def d'_def)
  ultimately show ?thesis using run b by (intro exI [of _ d']) auto
qed

end

section \<open>Properties\<close>

text \<open>C9. A DHCP message is sent: when a transmit descriptor becomes free sooner or later,
  \<^verbatim>\<open>dhcp_send\<close> returns, exactly one more frame of 342 bytes belongs to the hardware, and its buffer
  holds, as the receiving routines read it, an Ethernet frame from the address of the interface,
  an IPv4 header with a correct checksum and the addresses given, a UDP header with the DHCP
  ports, and the 300 bytes of the message. These are the caller's, byte for byte, but for the four
  addresses (offsets 12 to 27), whose bytes are reversed to network order: the transaction number, the
  seconds and the flags go out as they are in the memory of the little-endian processor. The conditions:
  descriptor, transmit buffer, hardware address and message are memory the driver owns and the hardware
  does not write, and they lie apart.\<close>

theorem dhcp_message_sent:
  assumes contract: "net_tx D n handed sent db sb M own" and ok: "ring_ok n (sent d) (handed d)"
    and freed: "0 < ring_free n (sent ((tx_try D ^^ k) d)) (handed ((tx_try D ^^ k) d))"
    and s: "s = slot_desc db n (handed d)" and p: "p = ld32 (ram_of M d) s"
    and own: "\<And>a. a - s < 8 \<or> a - p < TX_BUFFER_SIZE \<or> a - mac < 6 \<or> a - dh < 300 \<Longrightarrow> a \<in> own"
    and apart: "\<And>a. a - p < TX_BUFFER_SIZE \<Longrightarrow> \<not> a - s < 8 \<and> \<not> a - mac < 6"
    and message: "frame_apart p dh" and len: "length dst_mac = 6" "length g = 6"
  shows "\<exists>d'. dhcp_transmit D M mac g dh src dst dst_mac d = Some d' \<and>
    ring_ok n (sent d') (handed d') \<and> handed d' = handed d + 1 \<and> ld32 (ram_of M d') s = p \<and>
    ld32 (ram_of M d') (s + 4) = rflpc_eth_set_tx_control_word 342 0 1 \<and>
    proto_eth_demangle (ram_of M d') p =
      \<lparr>eth_src = bytes_at (ram_of M d) mac 6, eth_dst = dst_mac, eth_type = PROTO_IP\<rparr> \<and>
    proto_checksum (ram_of M d') (p + 14) 20 = 0 \<and>
    (let ip = proto_ip_demangle (ram_of M d') (p + 14)
     in ip_protocol ip = PROTO_UDP \<and> ip_total_length ip = 328 \<and> ip_src_addr ip = src \<and> ip_dst_addr ip = dst) \<and>
    proto_udp_demangle (ram_of M d') (p + 34) =
      \<lparr>udp_src_port = DHCP_CLIENT_PORT, udp_dst_port = DHCP_SERVER_PORT, udp_len = 308, udp_checksum = 0\<rparr> \<and>
    (\<forall>k < 300. ram_of M d' (p + 42 + k) = ram_of M d (dh + net_offset k))"
  by (rule net_tx.dhcp_through_ring [OF contract ok freed s p _ _ message len]) (rule own apart, assumption)+

lemma dhcp_message_sent_witness:
  "\<exists>d'. dhcp_transmit (net_tx_device 4 0x2007C000 0x2007C100) net_ram 0x10000000 [0, 0, 0, 0, 0, 0] 0x10001000
      0 0xFFFFFFFF bmac
      \<lparr>ring = \<lparr>ring_front = 6, ring_back = 8, schedule = []\<rparr>,
       memory = net_memory (\<lambda>k. 0x2007D000 + 2048 * of_nat k) (\<lambda>_. 0), delivered = [], rx_irq = False\<rparr> = Some d' \<and>
    ring_back (ring d') = 9 \<and> proto_checksum (memory d') (0x2007D000 + 14) 20 = 0"
proof -
  let ?d = "\<lparr>ring = \<lparr>ring_front = 6, ring_back = 8, schedule = []\<rparr>,
       memory = net_memory (\<lambda>k. 0x2007D000 + 2048 * of_nat k) (\<lambda>_. 0), delivered = [], rx_irq = False\<rparr>"
    and ?D = "net_tx_device 4 0x2007C000 0x2007C100" and ?p = "0x2007D000 :: addr" and ?s = "0x2007C000 :: addr"
  have ok: "ring_ok 4 (ring_front (ring ?d)) (ring_back (ring ?d))" by (simp add: ring_ok_def)
  have freed: "0 < ring_free 4 (ring_front (ring ((tx_try ?D ^^ 0) ?d))) (ring_back (ring ((tx_try ?D ^^ 0) ?d)))"
    by (simp add: ring_free_def)
  have s: "?s = slot_desc 0x2007C000 4 (ring_back (ring ?d))" by (simp add: slot_desc_def)
  have p: "?p = ld32 (ram_of net_ram ?d) ?s"
    using net_memory_words(1) [of 0 "\<lambda>k. 0x2007D000 + 2048 * of_nat k" "\<lambda>_. 0"] by (simp add: net_ram_def)
  have apart: "\<not> a - ?s < 8 \<and> \<not> a - 0x10000000 < 6" if "a - ?p < TX_BUFFER_SIZE" for a
    using that outside_block [of 8 ?p ?s TX_BUFFER_SIZE "a - ?p"]
      outside_block [of 6 ?p "0x10000000" TX_BUFFER_SIZE "a - ?p"]
    by (simp add: TX_BUFFER_SIZE_def RFLPC_ETH_MAX_FRAME_LENGTH_def)
  have message: "frame_apart ?p 0x10001000" by (simp add: frame_apart_def)
  have len: "length bmac = 6" "length [0, 0, 0, 0, 0, 0 :: u8] = 6" by (simp_all add: bmac_def)
  show ?thesis
    using dhcp_message_sent [OF net_tx_model ok freed s p UNIV_I apart message len, of 0 "0xFFFFFFFF"]
    by (auto simp: net_ram_def)
qed

end
