(* ===== verification/Udp_Server.thy ===== *)
theory Udp_Server
  imports Simple_Udp Net_Start Answer
begin

text \<open>
  \<^verbatim>\<open>samples/simple_udp/main.c\<close> on the Ethernet driver: the handler that takes a transmit descriptor for its
  answer, the loop that hands it every received frame, and the set-up of the interface with four
  descriptors on each side. The contract of both rings on one device is the locale \<open>udp_rings\<close>.
  What is printed is left out; the counter \<^verbatim>\<open>pid\<close> of \<^verbatim>\<open>ip4_set_header\<close> is a static variable in memory.
\<close>

section \<open>The program\<close>

record udp_statics = net_statics +
  packet_id :: addr

definition BUFFER_COUNT :: nat where "BUFFER_COUNT = 4"
definition BUFFER_SIZE :: u32 where "BUFFER_SIZE = RFLPC_ETH_MAX_FRAME_LENGTH"

definition st16 :: "addr \<Rightarrow> u16 \<Rightarrow> mem \<Rightarrow> mem" where
  "st16 a v m = m(a := ucast v, a + 1 := ucast (shr v 8))"

definition store_answer :: "addr \<Rightarrow> addr \<Rightarrow> addr \<Rightarrow> addr \<Rightarrow> mem \<Rightarrow> mem" where
  "store_answer ptr mac buffer pid m =
     (let (n, m) = write_answer ptr mac buffer (ld16 m pid) m in st16 pid n m)"

definition udp_packet :: "'d device \<Rightarrow> 'd ram \<Rightarrow> udp_statics \<Rightarrow> addr \<Rightarrow> u16 \<Rightarrow> 'd \<Rightarrow> 'd" where
  "udp_packet D M S buffer buffer_size d =
     (if \<not> is_request (ram_of M d) buffer then d
      else
        (let (r, d) = rflpc_eth_get_current_tx_packet_descriptor D 0 d
         in case r of
              None \<Rightarrow> d
            | Some p \<Rightarrow>
                (let ptr = ld32 (ram_of M d) (fst p);
                     d = ram_upd M (store_answer ptr (mac_addr S) buffer (packet_id S)) d;
                     d = ram_upd M (st32 (fst p + 4)
                           (rflpc_eth_set_tx_control_word (ETH_HEADER_SIZE + 20 + 8 + 3) 1 1)) d
                 in rflpc_eth_done_process_tx_packet D 1 d)))"

text \<open>The body of \<^verbatim>\<open>while (1)\<close> in \<^verbatim>\<open>main\<close>, and the interrupt handler, which the program leaves out of use.\<close>

definition udp_poll :: "'d device \<Rightarrow> 'd ram \<Rightarrow> udp_statics \<Rightarrow> 'd \<Rightarrow> 'd option" where
  "udp_poll D M S = rx_loop D M (Some (udp_packet D M S))"

definition udp_eth_handler :: "'d device \<Rightarrow> 'd ram \<Rightarrow> udp_statics \<Rightarrow> 'd \<Rightarrow> 'd option" where
  "udp_eth_handler D M S = eth_handler D M (Some (udp_packet D M S))"

text \<open>\<^verbatim>\<open>for (i = 0; i < n; i++) { desc[i].packet = buf(i); desc[i].control = c; }\<close>, the control word left alone
  on the transmit side.\<close>

definition set_descriptors ::
  "'d ram \<Rightarrow> addr \<Rightarrow> (nat \<Rightarrow> addr) \<Rightarrow> u32 option \<Rightarrow> nat \<Rightarrow> 'd \<Rightarrow> 'd" where
  "set_descriptors M desc buf ctrl n =
     fold (\<lambda>i d.
       let a = desc + sizeof_descriptor * of_nat i;
           d = ram_upd M (st32 a (buf i)) d
       in case ctrl of None \<Rightarrow> d | Some c \<Rightarrow> ram_upd M (st32 (a + 4) c) d) [0..<n]"

definition set_rings ::
  "'d device \<Rightarrow> 'd ram \<Rightarrow> udp_statics \<Rightarrow> nat \<Rightarrow> 'd \<Rightarrow> 'd" where
  "set_rings D M S n d =
     (let d = set_descriptors M (rx_desc S) (\<lambda>i. rxbuffers S + of_nat i * BUFFER_SIZE)
            (Some ((BUFFER_SIZE - 1) OR shl 1 31)) n d;
          d = rflpc_eth_set_rx_base_addresses D (rx_desc S) (rx_status S) (of_nat n) d;
          d = set_descriptors M (tx_desc S) (\<lambda>i. txbuffers S + of_nat i * BUFFER_SIZE) None n d
      in rflpc_eth_set_tx_base_addresses D (tx_desc S) (tx_status S) (of_nat n) d)"

definition udp_ethernet_init ::
  "'d device \<Rightarrow> 'r iap_function \<Rightarrow> 'd ram \<Rightarrow> udp_statics \<Rightarrow> u32 \<Rightarrow> 'r flash_state \<times> 'd \<Rightarrow>
   ('r flash_state \<times> 'd) option" where
  "udp_ethernet_init D iap M S system_clock st =
     (case net_prefix D iap M (mac_addr S) system_clock st of
        None \<Rightarrow> None
      | Some (fl, d) \<Rightarrow> Some (fl, set_rings D M S BUFFER_COUNT d))"

section \<open>One answer through the ring\<close>

text \<open>What an answer to the datagram at \<open>buffer\<close> is.\<close>

definition is_answer :: "mem \<Rightarrow> addr \<Rightarrow> addr \<Rightarrow> mem \<Rightarrow> addr \<Rightarrow> bool" where
  "is_answer m mac buffer m' tx \<longleftrightarrow>
     proto_eth_demangle m' tx =
       \<lparr>eth_src = bytes_at m mac 6, eth_dst = bytes_at m (buffer + 6) 6, eth_type = 0x0800\<rparr> \<and>
     proto_checksum m' (tx + 14) 20 = 0 \<and>
     (let ip = proto_ip_demangle m' (tx + 14)
      in ip_src_addr ip = my_ip \<and> ip_dst_addr ip = ip4_get_src m buffer \<and> ip_total_length ip = 31 \<and>
         ip_protocol ip = UDP) \<and>
     proto_udp_demangle m' (tx + 34) =
       \<lparr>udp_src_port = PORT, udp_dst_port = udp_get_src_port m buffer, udp_len = 11, udp_checksum = 0\<rparr> \<and>
     bytes_at m' (tx + 42) 3 = [79, 75, 0]"

lemma is_answer_local:
  assumes "\<And>a. a - tx < 45 \<Longrightarrow> m1 a = m2 a" and "is_answer m mac buffer m2 tx"
  shows "is_answer m mac buffer m1 tx"
proof -
  have same: "m1 a = m2 a" if "unat (a - tx) < 45" for a
    using that assms(1) by (simp add: word_less_nat_alt)
  have "proto_eth_demangle m1 tx = proto_eth_demangle m2 tx"
    by (rule eth_header.get_local) (simp add: same frame_regions)
  moreover have ip: "proto_ip_demangle m1 (tx + 14) = proto_ip_demangle m2 (tx + 14)"
    by (rule ip_header.get_local) (simp add: same frame_regions)
  moreover have "proto_checksum m1 (tx + 14) 20 = proto_checksum m2 (tx + 14) 20"
    using checksum_local [of 20 "tx + 14" m1 m2] by (simp add: same frame_regions)
  moreover have "proto_udp_demangle m1 (tx + 34) = proto_udp_demangle m2 (tx + 34)"
    by (rule udp_header.get_local) (simp add: same frame_regions)
  moreover have "bytes_at m1 (tx + 42) 3 = bytes_at m2 (tx + 42) 3"
    by (rule bytes_at_cong) (simp add: same unat_word_ariths unat_of_nat)
  ultimately show ?thesis using assms(2) by (simp add: is_answer_def)
qed

lemma is_answer_source:
  assumes "\<And>a. a - mac < 6 \<or> a - buffer < 82 \<Longrightarrow> m1 a = m2 a" and "is_answer m2 mac buffer m tx"
  shows "is_answer m1 mac buffer m tx"
proof -
  have b: "m1 (buffer + k) = m2 (buffer + k)" if "k < 82" for k
    using assms(1) that by simp
  have six: "bytes_at m1 mac 6 = bytes_at m2 mac 6" by (rule same_six) (simp add: assms(1))
  have "bytes_at m1 (buffer + 6) 6 = bytes_at m2 (buffer + 6) 6"
  proof (rule same_six)
    fix a assume "a - (buffer + 6) < 6"
    then have "a - buffer < 82"
      using region [of 6 6 "a - buffer"] by (simp add: diff_diff_add word_less_nat_alt)
    then show "m1 a = m2 a" by (simp add: assms(1))
  qed
  then show ?thesis
    using assms(2) datagram_local [where m' = m1 and m = m2 and buffer = buffer, OF b]
    by (simp add: is_answer_def six)
qed

lemma store_answer_spec:
  assumes apart: "reply_apart tx buffer mac" and pid: "\<And>a. a - pid < 2 \<Longrightarrow> \<not> a - tx < 45"
  shows "is_answer m mac buffer (store_answer tx mac buffer pid m) tx"
    and "ld16 (store_answer tx mac buffer pid m) pid = ld16 m pid + 1"
    and "\<not> a - tx < 45 \<Longrightarrow> \<not> a - pid < 2 \<Longrightarrow> store_answer tx mac buffer pid m a = m a"
proof -
  obtain n m1 where w: "write_answer tx mac buffer (ld16 m pid) m = (n, m1)" by (metis surj_pair)
  note spec = write_answer_spec [OF apart w]
  have st: "store_answer tx mac buffer pid m = st16 pid n m1" by (simp add: store_answer_def w)
  have "is_answer m mac buffer m1 tx" using spec by (simp add: is_answer_def)
  moreover have other: "st16 pid n m1 x = m1 x" if "\<not> x - pid < 2" for x
    using that by (auto simp: st16_def)
  ultimately show "is_answer m mac buffer (store_answer tx mac buffer pid m) tx"
    unfolding st using pid other by (elim is_answer_local [rotated]) blast
  show "\<not> a - tx < 45 \<Longrightarrow> \<not> a - pid < 2 \<Longrightarrow> store_answer tx mac buffer pid m a = m a"
    unfolding st by (subst other) (use spec in blast)+
  show "ld16 (store_answer tx mac buffer pid m) pid = ld16 m pid + 1"
    using spec by (simp add: st st16_def ld16_def)
      (rule bit_word_eqI, auto simp: bit_simps dest: bit_imp_le_length)
qed

context net_tx
begin

lemma packet_answered:
  assumes ok: "ring_ok n (sent d) (handed d)" and room: "0 < ring_free n (sent d) (handed d)"
    and s: "s = slot_desc db n (handed d)" and p: "p = ld32 (ram_of M d) s"
    and own: "\<And>a. a - s < 8 \<or> a - p < 45 \<or> a - mac_addr S < 6 \<or> a - buffer < 82 \<or> a - packet_id S < 2 \<Longrightarrow> a \<in> own"
    and request: "is_request (ram_of M d) buffer" and apart: "reply_apart p buffer (mac_addr S)"
    and slot: "\<And>a. a - s < 8 \<Longrightarrow> \<not> a - p < 45 \<and> \<not> a - packet_id S < 2"
    and pid: "\<And>a. a - packet_id S < 2 \<Longrightarrow> \<not> a - p < 45"
  shows "let d' = udp_packet D M S buffer len d in
    ring_ok n (sent d') (handed d') \<and> handed d' = handed d + 1 \<and> ld32 (ram_of M d') s = p \<and>
    ld32 (ram_of M d') (s + 4) = rflpc_eth_set_tx_control_word 45 1 1 \<and>
    is_answer (ram_of M d) (mac_addr S) buffer (ram_of M d') p \<and>
    ld16 (ram_of M d') (packet_id S) = ld16 (ram_of M d) (packet_id S) + 1"
proof -
  obtain r e where e: "rflpc_eth_get_current_tx_packet_descriptor D 0 d = (r, e)" "tx_moves handed sent d e"
      "r \<noteq> None" "fst (the r) = slot_desc db n (handed d)" "0 < ring_free n (sent e) (handed e)"
    using get_first [OF ok] room by auto
  then obtain q where q: "r = Some q" "fst q = s" by (auto simp: s)
  have ram: "ram_of M e a = ram_of M d a" if "a \<in> own" for a
    using own_get [OF that, of 0 d] e(1) by simp
  have p': "ld32 (ram_of M e) s = p"
    unfolding p by (rule ld32_local) (rule ram, rule own, simp add: word_less_nat_alt)
  define m where "m = store_answer p (mac_addr S) buffer (packet_id S) (ram_of M e)"
  note answer = store_answer_spec [where m = "ram_of M e" and pid = "packet_id S", OF apart pid, folded m_def]
  define c where "c = rflpc_eth_set_tx_control_word 45 1 1"
  define g where "g = ram_upd M (st32 (s + 4) c)
      (ram_upd M (store_answer p (mac_addr S) buffer (packet_id S)) e)"
  have g: "handed g = handed d" "sent g = sent e" "ram_of M g = st32 (s + 4) c m"
    using e(2) by (simp_all add: g_def store tx_moves_def m_def)
  have run: "udp_packet D M S buffer len d = rflpc_eth_done_process_tx_packet D 1 g"
    using e(1) q request by (simp add: udp_packet_def Let_def g_def p' c_def)
  have gok: "ring_ok n (sent g) (handed g)" "0 < ring_free n (sent g) (handed g)"
    using moves_ok [OF e(2) ok] e(2,5) g by (simp_all add: tx_moves_def)
  define d' where "d' = udp_packet D M S buffer len d"
  have after: "ram_of M d' a = st32 (s + 4) c m a" if "a \<in> own" for a
    using own_done [OF that, of 1 g] g(3) by (simp add: d'_def run)
  have in_slot: "x - s < 8" if "x - (s + 4) < 4" for x
    using region [of 4 4 "x - s"] that by (simp add: diff_diff_add word_less_nat_alt)
  have off: "st32 (s + 4) c m a = m a" if "\<not> a - s < 8" for a
    by (rule st32_in_row) (use that in simp_all)
  have "ld32 (ram_of M d') (s + 4) = c"
  proof -
    have "ld32 (ram_of M d') (s + 4) = ld32 (st32 (s + 4) c m) (s + 4)"
      by (rule ld32_local) (rule after, rule own, simp add: in_slot)
    then show ?thesis by (simp add: ld32_st32)
  qed
  moreover have "ld32 (ram_of M d') s = p"
  proof -
    have low: "x - s < 8" if "x - s < 4" for x using that by (simp add: word_less_nat_alt)
    have "ld32 (ram_of M d') s = ld32 (st32 (s + 4) c m) s"
      by (rule ld32_local) (rule after, rule own, simp add: low)
    also have "\<dots> = ld32 m s" by (simp add: ld32_st32_apart)
    also have "\<dots> = ld32 (ram_of M e) s"
    proof (rule ld32_local)
      fix x assume "x - s < 4"
      from slot [OF low [OF this]] show "m x = ram_of M e x" using answer(3) [of x] by blast
    qed
    finally show ?thesis by (simp add: p')
  qed
  moreover have "is_answer (ram_of M d) (mac_addr S) buffer (ram_of M d') p"
  proof (rule is_answer_source)
    show "ram_of M d a = ram_of M e a" if "a - mac_addr S < 6 \<or> a - buffer < 82" for a
      using ram [OF own, of a] that by fastforce
    show "is_answer (ram_of M e) (mac_addr S) buffer (ram_of M d') p"
    proof (rule is_answer_local [OF _ answer(1)])
      fix a assume "a - p < 45"
      with slot [of a] show "ram_of M d' a = m a" using after [OF own, of a] off [of a] by metis
    qed
  qed
  moreover have "ld16 (ram_of M d') (packet_id S) = ld16 (ram_of M d) (packet_id S) + 1"
  proof -
    have same: "ram_of M d' a = m a \<and> ram_of M e a = ram_of M d a" if "a - packet_id S < 2" for a
      using after [OF own, of a] off [of a] slot [of a] ram [OF own, of a] that by metis
    have "ld16 (ram_of M d') (packet_id S) = ld16 m (packet_id S)"
      "ld16 (ram_of M e) (packet_id S) = ld16 (ram_of M d) (packet_id S)"
      using same [of "packet_id S"] same [of "packet_id S + 1"] by (simp_all add: ld16_def)
    with answer(2) show ?thesis by simp
  qed
  ultimately show ?thesis
    using done_one [OF gok] g by (auto simp: d'_def [symmetric] run [symmetric] c_def Let_def)
qed

end

section \<open>Any number of frames\<close>

text \<open>The handler as an instance of \<^const>\<open>answer_frame\<close>, and what it asks of the two rings and the memory.\<close>

lemma udp_packet_eq:
  "udp_packet D M S buffer len = answer_frame D M (\<lambda>m. is_request m buffer)
     (\<lambda>tx. store_answer tx (mac_addr S) buffer (packet_id S)) (\<lambda>_ _. rflpc_eth_set_tx_control_word 45 1 1)"
  by (rule ext) (simp add: udp_packet_def answer_frame_def Let_def ETH_HEADER_SIZE_def split: prod.splits option.splits)

locale udp_rings = net_tx D tn handed sent tdb tsb M own + rx: eth_rx D rn processed received rdb rsb
  for D :: "'d device" and tn :: nat and handed sent :: "'d \<Rightarrow> nat" and tdb tsb :: addr and M :: "'d ram"
    and own :: "addr set" and rn :: nat and processed received :: "'d \<Rightarrow> nat" and rdb rsb :: addr +
  fixes S :: udp_statics and ready :: "'d \<Rightarrow> bool" and arrivals :: "'d \<Rightarrow> nat"
    and pkt tbuf :: "nat \<Rightarrow> addr" and request :: "nat \<Rightarrow> bool" and W :: "addr set"
  assumes rx_descriptor: "ready d \<Longrightarrow> k < rn \<Longrightarrow> ld32 (ram_of M d) (rdb + 8 * of_nat k) = pkt k"
    and tx_descriptor: "ready d \<Longrightarrow> k < tn \<Longrightarrow> ld32 (ram_of M d) (tdb + 8 * of_nat k) = tbuf k"
    and waiting: "ready d \<Longrightarrow> processed d \<le> i \<Longrightarrow> i < received d \<Longrightarrow>
        is_request (ram_of M d) (pkt (i mod rn)) = request i"
    and bounded: "ready d \<Longrightarrow> received d \<le> arrivals d"
    and reads: "ready d \<Longrightarrow> ready (snd (dev_rd D a d)) \<and> arrivals (snd (dev_rd D a d)) \<le> arrivals d"
    and consume: "ready d \<Longrightarrow> ready (dev_wr D EMAC_RxConsumeIndex v d) \<and>
        arrivals (dev_wr D EMAC_RxConsumeIndex v d) \<le> arrivals d"
        "handed (dev_wr D EMAC_RxConsumeIndex v d) = handed d" "sent (dev_wr D EMAC_RxConsumeIndex v d) = sent d"
    and produce: "ready d \<Longrightarrow> ready (dev_wr D EMAC_TxProduceIndex v d) \<and>
        arrivals (dev_wr D EMAC_TxProduceIndex v d) \<le> arrivals d"
        "processed (dev_wr D EMAC_TxProduceIndex v d) = processed d"
        "received (dev_wr D EMAC_TxProduceIndex v d) = received d"
    and stores: "ready d \<Longrightarrow> (\<And>a. a \<notin> W \<Longrightarrow> f (ram_of M d) a = ram_of M d a) \<Longrightarrow>
          ready (ram_upd M f d) \<and> arrivals (ram_upd M f d) \<le> arrivals d"
        "processed (ram_upd M f d) = processed d" "received (ram_upd M f d) = received d"
    and writable: "k < tn \<Longrightarrow> a - (tdb + 8 * of_nat k + 4) < 4 \<or> a - tbuf k < 45 \<or> a - packet_id S < 2 \<Longrightarrow> a \<in> W"
    and buffers: "k < tn \<Longrightarrow> j < rn \<Longrightarrow> reply_apart (tbuf k) (pkt j) (mac_addr S)"
        "k < tn \<Longrightarrow> a - packet_id S < 2 \<Longrightarrow> \<not> a - tbuf k < 45"

sublocale udp_rings \<subseteq> answers: answer_rings D tn handed sent tdb tsb M own rn processed received rdb rsb
  "\<lambda>buffer m. is_request m buffer" "\<lambda>buffer tx. store_answer tx (mac_addr S) buffer (packet_id S)"
  "\<lambda>_ _ _. rflpc_eth_set_tx_control_word 45 1 1" ready arrivals pkt tbuf request W
proof unfold_locales
  fix d f i k and a :: addr assume "k < tn" "a \<notin> W"
  then show "store_answer (tbuf k) (mac_addr S) (pkt (i mod rn)) (packet_id S) (ram_of M d) a = ram_of M d a"
    using writable [of k a] buffers(1) [of k "i mod rn"] buffers(2) [of k] rx.size(1)
    by (intro store_answer_spec(3)) auto
qed (fact rx_descriptor tx_descriptor waiting bounded reads consume produce stores | rule writable, assumption, simp)+

context udp_rings
begin

lemma poll_serves:
  assumes "ready d" and "ring_ok tn (sent d) (handed d)" and "ring_ok rn (processed d) (received d)"
  shows "\<exists>d'. udp_poll D M S d = Some d' \<and> ready d' \<and> ring_ok tn (sent d') (handed d') \<and>
    received d' = processed d' \<and> received d \<le> processed d' \<and>
    (let asked = length (filter request [processed d..<processed d']) in
      handed d' \<le> handed d + asked \<and>
      handed d + min asked (ring_free tn (sent d) (handed d)) \<le> handed d')"
proof -
  have "\<exists>d'. udp_poll D M S d = Some d' \<and> answers.in_order d' \<and> received d' = processed d' \<and>
      received d \<le> processed d' \<and> answers.served d [processed d..<processed d'] d'"
  proof (rule answers.frames_served [where head = "\<lambda>d. d" and tail = "\<lambda>d. d" and
        f = "\<lambda>p d. udp_packet D M S (ld32 (ram_of M d) (fst p))
          (ucast (rflpc_eth_get_packet_size (ld32 (ram_of M d) (snd p)))) d"])
    show "udp_poll D M S d = (case rflpc_eth_get_current_rx_packet_descriptor D d of (None, e) \<Rightarrow> Some e
        | (Some p, e) \<Rightarrow> udp_poll D M S (rflpc_eth_done_process_rx_packet D (udp_packet D M S (ld32 (ram_of M e) (fst p))
            (ucast (rflpc_eth_get_packet_size (ld32 (ram_of M e) (snd p)))) e)))" for d
      by (subst udp_poll_def, subst rx_loop.simps) (simp add: udp_poll_def split: prod.splits option.splits)
  qed (use assms in \<open>simp_all add: answers.quiet_refl answers.in_order_def udp_packet_eq Let_def\<close>)
  then show ?thesis by (auto simp: answers.in_order_def answers.served_def Let_def)
qed

end

section \<open>The set-up\<close>

lemma set_descriptors_ram:
  assumes store: "\<And>f d. ram_of M (ram_upd M f d) = f (ram_of M d)" and n: "n \<le> 8"
  shows "i < n \<Longrightarrow> ld32 (ram_of M (set_descriptors M desc buf ctrl n d)) (desc + 8 * of_nat i) = buf i"
    and "i < n \<Longrightarrow> ctrl = Some c \<Longrightarrow> ld32 (ram_of M (set_descriptors M desc buf ctrl n d)) (desc + 8 * of_nat i + 4) = c"
    and "\<not> a - desc < 64 \<Longrightarrow> ram_of M (set_descriptors M desc buf ctrl n d) a = ram_of M d a"
proof -
  define h where "h = (\<lambda>i. (case ctrl of None \<Rightarrow> id | Some c \<Rightarrow> st32 (desc + 8 * of_nat i + 4) c) \<circ>
      st32 (desc + 8 * of_nat i) (buf i))"
  have eq: "ram_of M (set_descriptors M desc buf ctrl n d) = fold h [0..<n] (ram_of M d)"
    unfolding set_descriptors_def
    by (rule fold_ram) (simp_all add: store h_def Let_def sizeof_descriptor_def split: option.splits)
  have row: "h k m a = m a" if "\<not> a - (desc + 8 * of_nat k) < 8" for k m a
    using st32_in_row [of 0 a "desc + 8 * of_nat k"] st32_in_row [of 4 a "desc + 8 * of_nat k"] that
    by (simp add: h_def split: option.splits)
  have "ld32 (h i m) (desc + 8 * of_nat i + 0) = buf i"
    "ctrl = Some c \<Longrightarrow> ld32 (h i m) (desc + 8 * of_nat i + 4) = c" for i m c
    by (simp_all add: h_def ld32_st32 ld32_st32_apart split: option.splits)
  then show "i < n \<Longrightarrow> ld32 (ram_of M (set_descriptors M desc buf ctrl n d)) (desc + 8 * of_nat i) = buf i"
    and "i < n \<Longrightarrow> ctrl = Some c \<Longrightarrow> ld32 (ram_of M (set_descriptors M desc buf ctrl n d)) (desc + 8 * of_nat i + 4) = c"
    unfolding eq using fold_rows_word [of n i 0 desc h "ram_of M d", OF _ _ _ row]
      fold_rows_word [of n i 4 desc h "ram_of M d", OF _ _ _ row] n by auto
  assume "\<not> a - desc < 64"
  then have "\<not> a - (desc + 8 * of_nat k) < 8" if "k < n" for k
    using row_in_block [of k a desc] that n by auto
  then show "ram_of M (set_descriptors M desc buf ctrl n d) a = ram_of M d a"
    unfolding eq using n by (intro fold_rows_outside row) simp_all
qed

lemma two_buffers_apart:
  assumes "i < j" and "j < 4" and "x < BUFFER_SIZE" and "y < BUFFER_SIZE"
  shows "p + of_nat i * BUFFER_SIZE + x \<noteq> p + of_nat j * BUFFER_SIZE + y"
proof -
  have b: "unat x < 1538" "unat y < 1538"
    using assms(3,4) by (simp_all add: BUFFER_SIZE_def RFLPC_ETH_MAX_FRAME_LENGTH_def word_less_nat_alt)
  then have "unat (of_nat i * 1538 + x) = i * 1538 + unat x" "unat (of_nat j * 1538 + y) = j * 1538 + unat y"
    using assms(1,2) by (simp_all add: unat_word_ariths unat_of_nat)
  moreover have "i * 1538 + unat x < j * 1538 + unat y" using assms(1) b by linarith
  ultimately have "of_nat i * 1538 + x \<noteq> of_nat j * 1538 + y" by auto
  then show ?thesis by (simp add: BUFFER_SIZE_def RFLPC_ETH_MAX_FRAME_LENGTH_def add.assoc)
qed

context net_start
begin

lemma set_descriptors_peek:
  "a \<in> A \<Longrightarrow> peek D a (set_descriptors M desc buf ctrl n d) = peek D a d"
  unfolding set_descriptors_def
  by (rule keeps_fold [of "\<lambda>e. peek D a e = peek D a d"]) (simp_all add: store_reg Let_def split: option.splits)

lemma set_rings_peek:
  assumes "0 < n" and "n \<le> 8"
  shows "peek D EMAC_RxDescriptor (set_rings D M S n d) = rx_desc S"
    "peek D EMAC_RxStatus (set_rings D M S n d) = rx_status S"
    "peek D EMAC_RxDescriptorNumber (set_rings D M S n d) = of_nat (n - 1)"
    "peek D EMAC_TxDescriptor (set_rings D M S n d) = tx_desc S"
    "peek D EMAC_TxStatus (set_rings D M S n d) = tx_status S"
    "peek D EMAC_TxDescriptorNumber (set_rings D M S n d) = of_nat (n - 1)"
    "a \<in> {EMAC_SA0, EMAC_SA1, EMAC_SA2} \<Longrightarrow> peek D a (set_rings D M S n d) = peek D a d"
proof -
  have m: "a \<in> net_regs \<Longrightarrow> a \<in> A" for a using regs by blast
  have n1: "of_nat n - 1 = (of_nat (n - 1) :: u32)" using assms(1) by (simp add: of_nat_diff)
  note ops = peek_wr [OF m] peek_reg_or [OF m] peek_reg_and [OF m] peek_rd [OF m] set_descriptors_peek [OF m]
    set_rings_def rflpc_eth_set_rx_base_addresses_def rflpc_eth_set_tx_base_addresses_def
  show "peek D EMAC_RxDescriptor (set_rings D M S n d) = rx_desc S"
    "peek D EMAC_RxStatus (set_rings D M S n d) = rx_status S"
    "peek D EMAC_RxDescriptorNumber (set_rings D M S n d) = of_nat (n - 1)"
    "peek D EMAC_TxDescriptor (set_rings D M S n d) = tx_desc S"
    "peek D EMAC_TxStatus (set_rings D M S n d) = tx_status S"
    "peek D EMAC_TxDescriptorNumber (set_rings D M S n d) = of_nat (n - 1)"
    "a \<in> {EMAC_SA0, EMAC_SA1, EMAC_SA2} \<Longrightarrow> peek D a (set_rings D M S n d) = peek D a d"
    by (auto simp: ops net_regs_def reg_addr n1 split_def Let_def)
qed

lemma set_rings_ram:
  assumes n: "n \<le> 8" and own: "\<And>a. a - rx_desc S < 64 \<or> a - tx_desc S < 64 \<Longrightarrow> a \<in> own"
    and apart: "\<And>a. a - rx_desc S < 64 \<Longrightarrow> \<not> a - tx_desc S < 64"
  shows "i < n \<Longrightarrow> ld32 (ram_of M (set_rings D M S n d)) (rx_desc S + 8 * of_nat i) = rxbuffers S + of_nat i * BUFFER_SIZE"
    and "i < n \<Longrightarrow> ld32 (ram_of M (set_rings D M S n d)) (rx_desc S + 8 * of_nat i + 4) = (BUFFER_SIZE - 1) OR shl 1 31"
    and "i < n \<Longrightarrow> ld32 (ram_of M (set_rings D M S n d)) (tx_desc S + 8 * of_nat i) = txbuffers S + of_nat i * BUFFER_SIZE"
    and "a \<in> own \<Longrightarrow> \<not> a - rx_desc S < 64 \<Longrightarrow> \<not> a - tx_desc S < 64 \<Longrightarrow> ram_of M (set_rings D M S n d) a = ram_of M d a"
proof -
  define e1 where "e1 = set_descriptors M (rx_desc S) (\<lambda>i. rxbuffers S + of_nat i * BUFFER_SIZE)
      (Some ((BUFFER_SIZE - 1) OR shl 1 31)) n d"
  define e2 where "e2 = rflpc_eth_set_rx_base_addresses D (rx_desc S) (rx_status S) (of_nat n) e1"
  define e3 where "e3 = set_descriptors M (tx_desc S) (\<lambda>i. txbuffers S + of_nat i * BUFFER_SIZE) None n e2"
  have rings: "set_rings D M S n d = rflpc_eth_set_tx_base_addresses D (tx_desc S) (tx_status S) (of_nat n) e3"
    by (simp add: set_rings_def e1_def e2_def e3_def Let_def)
  have last: "ram_of M (set_rings D M S n d) x = ram_of M e3 x" if "x \<in> own" for x
    using own_ops(9) [OF that] by (simp add: rings)
  have mid: "ram_of M e2 x = ram_of M e1 x" if "x \<in> own" for x
    using own_ops(8) [OF that] by (simp add: e2_def)
  note first = set_descriptors_ram [where M = M, OF store n, folded e1_def]
  note third = set_descriptors_ram [where M = M, OF store n, folded e3_def]
  note row = cell_in_block [OF _ n]
  have rx: "ram_of M (set_rings D M S n d) x = ram_of M e1 x" if "x - rx_desc S < 64" for x
    using own [of x] apart [OF that] that third(3) by (simp add: last mid e3_def third(3))
  show "i < n \<Longrightarrow> ld32 (ram_of M (set_rings D M S n d)) (rx_desc S + 8 * of_nat i) = rxbuffers S + of_nat i * BUFFER_SIZE"
    and "i < n \<Longrightarrow> ld32 (ram_of M (set_rings D M S n d)) (rx_desc S + 8 * of_nat i + 4) = (BUFFER_SIZE - 1) OR shl 1 31"
    using ld32_local [OF rx [OF row(1) [of i]]] ld32_local [OF rx [OF row(2) [of i]]]
      set_descriptors_ram(1,2) [where M = M, OF store n] by (simp_all add: e1_def)
  show "i < n \<Longrightarrow> ld32 (ram_of M (set_rings D M S n d)) (tx_desc S + 8 * of_nat i) = txbuffers S + of_nat i * BUFFER_SIZE"
    using ld32_local [of "tx_desc S + 8 * of_nat i" "ram_of M (set_rings D M S n d)" "ram_of M e3"]
      last own row(1) [of i] set_descriptors_ram(1) [where M = M, OF store n] by (simp add: e3_def)
  show "a \<in> own \<Longrightarrow> \<not> a - rx_desc S < 64 \<Longrightarrow> \<not> a - tx_desc S < 64 \<Longrightarrow> ram_of M (set_rings D M S n d) a = ram_of M d a"
    using set_descriptors_ram(3) [where M = M, OF store n] by (simp add: last e3_def mid e1_def)
qed

lemma udp_start:
  assumes serial: "rflpc_iap_get_serial_number iap fl = (Some s, fl')" and live: "plugged d"
    and own: "\<And>a. a - mac_addr S < 6 \<or> a - rx_desc S < 64 \<or> a - tx_desc S < 64 \<Longrightarrow> a \<in> own"
    and apart: "\<And>a. a - mac_addr S < 6 \<Longrightarrow> \<not> a - rx_desc S < 64 \<and> \<not> a - tx_desc S < 64"
      "\<And>a. a - rx_desc S < 64 \<Longrightarrow> \<not> a - tx_desc S < 64"
    and mac: "mac = [2, 3, ucast (s ! 0), ucast (s ! 1), ucast (s ! 2), ucast (s ! 3)]"
  shows "\<exists>d'. udp_ethernet_init D iap M S system_clock (fl, d) = Some (fl', d') \<and>
    bytes_at (ram_of M d') (mac_addr S) 6 = mac \<and> fst (rflpc_eth_get_mac_address D d') = mac \<and>
    peek D EMAC_RxDescriptor d' = rx_desc S \<and> peek D EMAC_RxStatus d' = rx_status S \<and>
    peek D EMAC_RxDescriptorNumber d' = 3 \<and> peek D EMAC_TxDescriptor d' = tx_desc S \<and>
    peek D EMAC_TxStatus d' = tx_status S \<and> peek D EMAC_TxDescriptorNumber d' = 3 \<and>
    (\<forall>i < 4. ld32 (ram_of M d') (rx_desc S + 8 * of_nat i) = rxbuffers S + of_nat i * BUFFER_SIZE \<and>
       ld32 (ram_of M d') (rx_desc S + 8 * of_nat i + 4) = (BUFFER_SIZE - 1) OR shl 1 31 \<and>
       ld32 (ram_of M d') (tx_desc S + 8 * of_nat i) = txbuffers S + of_nat i * BUFFER_SIZE)"
proof -
  have ownm: "a - mac_addr S < 6 \<Longrightarrow> a \<in> own" for a using own by blast
  obtain e where e: "net_prefix D iap M (mac_addr S) system_clock (fl, d) = Some (fl', e)"
      "bytes_at (ram_of M e) (mac_addr S) 6 = mac" "fst (rflpc_eth_get_mac_address D e) = mac"
    using prefix_returns [OF serial live ownm mac] by blast
  define d' where "d' = set_rings D M S 4 e"
  have run: "udp_ethernet_init D iap M S system_clock (fl, d) = Some (fl', d')"
    using e(1) by (simp add: udp_ethernet_init_def d'_def BUFFER_COUNT_def)
  have ram: "ram_of M d' a = ram_of M e a" if "a - mac_addr S < 6" for a
    unfolding d'_def by (rule set_rings_ram(4)) (use own apart that in auto)
  then have "bytes_at (ram_of M d') (mac_addr S) 6 = mac"
    using same_six [of "mac_addr S" "ram_of M d'" "ram_of M e"] e(2) by simp
  moreover have "fst (rflpc_eth_get_mac_address D d') = mac"
    using e(3) mac_address_regs [OF address_regs, of d' e] set_rings_peek(7) [of 4 _ S e] by (simp add: d'_def)
  moreover have "a - rx_desc S < 64 \<or> a - tx_desc S < 64 \<Longrightarrow> a \<in> own" for a using own by blast
  ultimately show ?thesis
    using run set_rings_peek(1-6) [of 4 S e] set_rings_ram(1-3) [of 4 S _ e, OF _ _ apart(2)]
    by (intro exI [of _ d']) (simp add: d'_def)
qed

end

section \<open>A model\<close>

text \<open>The models of the two rings side by side, with a memory.\<close>

record udp_state =
  tx_ring :: ring_state
  rx_ring :: ring_state
  udp_memory :: mem

definition udp_ram :: "udp_state ram" where
  "udp_ram = \<lparr>ram_of = udp_memory, ram_upd = (\<lambda>f d. d\<lparr>udp_memory := f (udp_memory d)\<rparr>)\<rparr>"

definition udp_device :: "udp_state device" where
  "udp_device =
     \<lparr>dev_rd = (\<lambda>a d. let (x, r) = dev_rd (rx_ring_device 4 0x2007C080 0x2007C0C0) a (rx_ring d);
          (y, t) = dev_rd (tx_ring_device 4 0x2007C000 0x2007C040) a (tx_ring d)
        in (if a \<in> {EMAC_RxDescriptorNumber, EMAC_RxProduceIndex, EMAC_RxConsumeIndex, EMAC_RxDescriptor, EMAC_RxStatus}
            then x else y, d\<lparr>rx_ring := r, tx_ring := t\<rparr>)),
      dev_wr = (\<lambda>a v d. d\<lparr>rx_ring := dev_wr (rx_ring_device 4 0x2007C080 0x2007C0C0) a v (rx_ring d),
        tx_ring := dev_wr (tx_ring_device 4 0x2007C000 0x2007C040) a v (tx_ring d)\<rparr>),
      cpsid_i = (\<lambda>d. d), cpsie_i = (\<lambda>d. d)\<rparr>"

definition udp_buffers :: udp_statics where
  "udp_buffers = \<lparr>rx_desc = 0x2007C080, rx_status = 0x2007C0C0, tx_desc = 0x2007C000, tx_status = 0x2007C040,
     rxbuffers = 0x2007D000, txbuffers = 0x20080000, mac_addr = 0x10000000, packet_id = 0x10000008\<rparr>"

abbreviation udp_rx_buffer :: "nat \<Rightarrow> addr" where "udp_rx_buffer k \<equiv> 0x2007D000 + of_nat k * 1538"
abbreviation udp_tx_buffer :: "nat \<Rightarrow> addr" where "udp_tx_buffer k \<equiv> 0x20080000 + of_nat k * 1538"

text \<open>The descriptors, and a request in the first receive buffer.\<close>

definition udp_image :: mem where
  "udp_image =
     fold (\<lambda>k. st32 (0x2007C000 + 8 * of_nat k) (udp_tx_buffer k)) [0..<4]
       (fold (\<lambda>k. st32 (0x2007C080 + 8 * of_nat k) (udp_rx_buffer k)) [0..<4]
         ((\<lambda>_. 0)(0x2007D00C := 8, 0x2007D00E := 0x45, 0x2007D017 := 17, 0x2007D01E := 192,
           0x2007D01F := 168, 0x2007D020 := 100, 0x2007D021 := 1, 0x2007D024 := 0xED, 0x2007D025 := 0x69)))"

definition udp_written :: "addr set" where
  "udp_written = {a. 0x20080000 \<le> a \<or> a - 0x10000008 < 2 \<or> (\<exists>k < 4. a - (0x2007C000 + 8 * of_nat k + 4) < 4)}"

lemma below_four: "k < (4 :: nat) \<Longrightarrow> k = 0 \<or> k = Suc 0 \<or> k = Suc (Suc 0) \<or> k = Suc (Suc (Suc 0))"
  by auto

lemma word_cells: "x - c < 4 \<Longrightarrow> x = c \<or> x = c + 1 \<or> x = c + 2 \<or> x = c + (3 :: u32)"
proof -
  assume "x - c < 4"
  then have "x - c = 0 \<or> x - c = 1 \<or> x - c = 2 \<or> x - c = 3" by (simp add: word_less_nat_alt word_unat_eq_iff) arith
  then show ?thesis by (auto simp: diff_eq_eq add.commute)
qed

lemma udp_image_words:
  assumes "k < 4"
  shows "ld32 udp_image (0x2007C000 + 8 * of_nat k) = udp_tx_buffer k"
    and "ld32 udp_image (0x2007C080 + 8 * of_nat k) = udp_rx_buffer k"
  using below_four [OF assms] by (auto simp: udp_image_def upt_conv_Cons ld32_st32 ld32_st32_apart)

lemma udp_desc_kept:
  assumes "k < 4"
  shows "x - (0x2007C000 + 8 * of_nat k) < 4 \<Longrightarrow> x \<notin> udp_written"
    and "x - (0x2007C080 + 8 * of_nat k) < 4 \<Longrightarrow> x \<notin> udp_written"
  using below_four [OF assms] by (auto simp: udp_written_def dest!: word_cells below_four)

lemma udp_frame_kept:
  assumes "j < 4" and "k < 82"
  shows "udp_rx_buffer j + k \<notin> udp_written"
proof -
  have "unat k < 82" using assms(2) by (simp add: word_less_nat_alt)
  then have u: "unat (udp_rx_buffer j + k) = 0x2007D000 + 1538 * j + unat k"
    using assms(1) by (simp add: unat_word_ariths unat_of_nat)
  have far: "\<not> udp_rx_buffer j + k - q < n" if "unat q + unat n \<le> 0x2007D000" for q n :: u32
    using region [of q n "udp_rx_buffer j + k"] that u by simp
  have "\<not> udp_rx_buffer j + k - (0x2007C000 + 8 * of_nat i + 4) < 4" if "i < 4" for i
    by (rule far) (use that in \<open>simp add: unat_word_ariths unat_of_nat\<close>)
  moreover have "\<not> udp_rx_buffer j + k - 0x10000008 < 2" by (rule far) simp
  moreover have "\<not> 0x20080000 \<le> udp_rx_buffer j + k"
    using u assms(1) \<open>unat k < 82\<close> by (simp add: word_le_nat_alt)
  ultimately show ?thesis unfolding udp_written_def by blast
qed

lemma udp_answer_written:
  assumes "k < 4" and "a - udp_tx_buffer k < 45"
  shows "0x20080000 \<le> a"
  using below_four [OF assms(1)] assms(2) region [of _ 45 a]
  by (auto simp: word_le_nat_alt)

lemma udp_rd:
  "snd (dev_rd udp_device a d) =
     d\<lparr>rx_ring := snd (dev_rd (rx_ring_device 4 0x2007C080 0x2007C0C0) a (rx_ring d)),
       tx_ring := snd (dev_rd (tx_ring_device 4 0x2007C000 0x2007C040) a (tx_ring d))\<rparr>"
  "fst (dev_rd udp_device a d) =
     (if a \<in> {EMAC_RxDescriptorNumber, EMAC_RxProduceIndex, EMAC_RxConsumeIndex, EMAC_RxDescriptor, EMAC_RxStatus}
      then fst (dev_rd (rx_ring_device 4 0x2007C080 0x2007C0C0) a (rx_ring d))
      else fst (dev_rd (tx_ring_device 4 0x2007C000 0x2007C040) a (tx_ring d)))"
  "dev_wr udp_device a v d =
     d\<lparr>rx_ring := dev_wr (rx_ring_device 4 0x2007C080 0x2007C0C0) a v (rx_ring d),
       tx_ring := dev_wr (tx_ring_device 4 0x2007C000 0x2007C040) a v (tx_ring d)\<rparr>"
  by (simp_all add: udp_device_def split_def Let_def)

lemma tx_ring_wr_keeps:
  "a \<noteq> EMAC_TxProduceIndex \<Longrightarrow> dev_wr (tx_ring_device n db sb) a v r = r"
  "a \<noteq> EMAC_RxConsumeIndex \<Longrightarrow> dev_wr (rx_ring_device n db sb) a v r = r"
  by (simp_all add: tx_ring_device_def rx_ring_device_def)

definition udp_request :: "nat \<Rightarrow> bool" where
  "udp_request i = is_request udp_image (udp_rx_buffer (i mod 4))"

lemma udp_model:
  "udp_rings udp_device 4 (\<lambda>d. ring_back (tx_ring d)) (\<lambda>d. ring_front (tx_ring d)) 0x2007C000 0x2007C040 udp_ram UNIV
     4 (\<lambda>d. ring_front (rx_ring d)) (\<lambda>d. ring_back (rx_ring d)) 0x2007C080 0x2007C0C0 udp_buffers
     (\<lambda>d. \<forall>a. a \<notin> udp_written \<longrightarrow> udp_memory d a = udp_image a)
     (\<lambda>d. ring_back (rx_ring d) + sum_list (schedule (rx_ring d))) udp_rx_buffer udp_tx_buffer udp_request udp_written"
proof unfold_locales
  show "tx_moves (\<lambda>d. ring_back (tx_ring d)) (\<lambda>d. ring_front (tx_ring d)) d (snd (dev_rd udp_device a d))"
    if "ring_front (tx_ring d) \<le> ring_back (tx_ring d)" for a d
    using tx4.rd_moves [OF that, of "0x2007C000" "0x2007C040" a] by (simp add: udp_rd tx_moves_def)
  show "rx_moves 4 (\<lambda>d. ring_front (rx_ring d)) (\<lambda>d. ring_back (rx_ring d)) d (snd (dev_rd udp_device a d))"
    if "ring_ok 4 (ring_front (rx_ring d)) (ring_back (rx_ring d))" for a d
    using rx4.rd_moves [OF that, of "0x2007C080" "0x2007C0C0" a] by (auto simp: udp_rd rx_moves_def)
  show "fst (dev_rd udp_device EMAC_TxConsumeIndex d) =
      of_nat (ring_front (tx_ring (snd (dev_rd udp_device EMAC_TxConsumeIndex d))) mod 4)" for d
    using tx4.rd_consume [of "0x2007C000" "0x2007C040" "tx_ring d"] by (simp add: udp_rd reg_addr)
  show "fst (dev_rd udp_device EMAC_RxProduceIndex d) =
      of_nat (ring_back (rx_ring (snd (dev_rd udp_device EMAC_RxProduceIndex d))) mod 4)" for d
    using rx4.rd_produce [of "0x2007C080" "0x2007C0C0" "rx_ring d"] by (simp add: udp_rd reg_addr)
  show "ring_back (tx_ring (dev_wr udp_device EMAC_TxProduceIndex (of_nat k) d)) =
      ring_back (tx_ring d) + (k + 4 - ring_back (tx_ring d) mod 4) mod 4" if "k < 4" for k d
    using tx4.wr_produce(1) [OF that, of "0x2007C000" "0x2007C040" "tx_ring d"] by (simp add: udp_rd)
  show "ring_front (rx_ring (dev_wr udp_device EMAC_RxConsumeIndex (of_nat k) d)) =
      ring_front (rx_ring d) + (k + 4 - ring_front (rx_ring d) mod 4) mod 4" if "k < 4" for k d
    using rx4.wr_consume(1) [OF that, of "0x2007C080" "0x2007C0C0" "rx_ring d"] by (simp add: udp_rd)
  show "reply_apart (udp_tx_buffer k) (udp_rx_buffer j) (mac_addr udp_buffers)" if "k < 4" "j < 4" for k j
    using below_four [OF that(1)] below_four [OF that(2)] by (auto simp: reply_apart_def udp_buffers_def)
  show "a \<in> udp_written" if "k < 4" "a - (0x2007C000 + 8 * of_nat k + 4) < 4 \<or> a - udp_tx_buffer k < 45 \<or>
      a - packet_id udp_buffers < 2" for a k
    using udp_answer_written [of k a] that by (auto simp: udp_written_def udp_buffers_def)
  show "\<not> a - udp_tx_buffer k < 45" if "k < 4" "a - packet_id udp_buffers < 2" for a k
  proof -
    from that have "unat a < 0x20080000"
      using region [of "0x10000008" 2 a] by (simp add: udp_buffers_def)
    with udp_answer_written [OF \<open>k < 4\<close>, of a] show "\<not> a - udp_tx_buffer k < 45"
      by (auto simp: word_le_nat_alt)
  qed
  fix d :: udp_state and k :: nat
  assume image: "\<forall>a. a \<notin> udp_written \<longrightarrow> udp_memory d a = udp_image a"
  show "ld32 (ram_of udp_ram d) (0x2007C080 + 8 * of_nat k) = udp_rx_buffer k" if "k < 4"
    unfolding udp_image_words(2) [OF that, symmetric] using image udp_desc_kept(2) [OF that]
    by (intro ld32_local) (simp add: udp_ram_def)
  show "ld32 (ram_of udp_ram d) (0x2007C000 + 8 * of_nat k) = udp_tx_buffer k" if "k < 4"
    unfolding udp_image_words(1) [OF that, symmetric] using image udp_desc_kept(1) [OF that]
    by (intro ld32_local) (simp add: udp_ram_def)
  show "is_request (ram_of udp_ram d) (udp_rx_buffer (i mod 4)) = udp_request i" for i
    unfolding udp_request_def
    by (rule datagram_local(3)) (simp add: udp_ram_def image udp_frame_kept)
qed (simp_all add: udp_rd udp_ram_def reg_addr rx4.rd_number [simplified reg_addr] rx4.rd_consume [simplified reg_addr]
    rx4.rd_bases [simplified reg_addr] tx4.rd_number [simplified reg_addr] tx4.rd_produce [simplified reg_addr]
    tx4.rd_bases [simplified reg_addr] tx4.wr_produce(2) [simplified reg_addr] tx_ring_wr_keeps [simplified reg_addr]
    ring_wr_keeps ring_total)

interpretation udp_model: udp_rings udp_device 4 "\<lambda>d. ring_back (tx_ring d)" "\<lambda>d. ring_front (tx_ring d)"
  "0x2007C000" "0x2007C040" udp_ram UNIV 4 "\<lambda>d. ring_front (rx_ring d)" "\<lambda>d. ring_back (rx_ring d)"
  "0x2007C080" "0x2007C0C0" udp_buffers "\<lambda>d. \<forall>a. a \<notin> udp_written \<longrightarrow> udp_memory d a = udp_image a"
  "\<lambda>d. ring_back (rx_ring d) + sum_list (schedule (rx_ring d))" udp_rx_buffer udp_tx_buffer udp_request udp_written
  by (rule udp_model)

section \<open>Properties\<close>

text \<open>C18. The polling loop of the echo server. Whatever frames come in while it runs, a turn of the loop returns
  once the line falls silent; every waiting frame has then been given to the handler once; at most one answer was handed
  over for every request among them and none for other frames; and a request stays without an answer
  only when the transmit ring was full: as many are answered as there was room for when the turn began.\<close>

theorem udp_requests_served:
  assumes "udp_rings D tn handed sent tdb tsb M own rn processed received rdb rsb S ready arrivals pkt tbuf request W"
    and "ready d" and "ring_ok tn (sent d) (handed d)" and "ring_ok rn (processed d) (received d)"
  shows "\<exists>d'. udp_poll D M S d = Some d' \<and> received d' = processed d' \<and> received d \<le> processed d' \<and>
    ring_ok tn (sent d') (handed d') \<and>
    (let asked = length (filter request [processed d..<processed d']) in
      handed d' \<le> handed d + asked \<and>
      handed d + min asked (ring_free tn (sent d) (handed d)) \<le> handed d')"
  using udp_rings.poll_serves [OF assms] by blast

lemma udp_first_request: "is_request udp_image 0x2007D000"
proof -
  have b: "udp_image 0x2007D00C = 8" "udp_image 0x2007D00D = 0" "udp_image 0x2007D00E = 0x45"
    "udp_image 0x2007D017 = 17" "udp_image 0x2007D01E = 192" "udp_image 0x2007D01F = 168"
    "udp_image 0x2007D020 = 100" "udp_image 0x2007D021 = 1" "udp_image 0x2007D024 = 0xED" "udp_image 0x2007D025 = 0x69"
    by (simp_all add: udp_image_def st32_def upt_conv_Cons)
  show ?thesis
    by (simp add: is_request_def eth_get_type_def be16_def ip4_get_dst_def ip4_get_addr_def my_ip_def
        ip4_get_protocol_def UDP_def udp_get_dst_port_def udp_header_at_def ip4_get_header_length_def PORT_def
        push_bit_eq_mult b)
qed

lemma udp_requests_served_witness:
  "\<exists>d'. udp_poll udp_device udp_ram udp_buffers
      \<lparr>tx_ring = \<lparr>ring_front = 2, ring_back = 3, schedule = []\<rparr>,
       rx_ring = \<lparr>ring_front = 4, ring_back = 6, schedule = [0, 0, 0, 1]\<rparr>, udp_memory = udp_image\<rparr> = Some d' \<and>
    6 \<le> ring_front (rx_ring d') \<and> 4 \<le> ring_back (tx_ring d')"
proof -
  let ?d = "\<lparr>tx_ring = \<lparr>ring_front = 2, ring_back = 3, schedule = []\<rparr>,
       rx_ring = \<lparr>ring_front = 4, ring_back = 6, schedule = [0, 0, 0, 1]\<rparr>, udp_memory = udp_image\<rparr>"
  have ok: "ring_ok 4 (ring_front (tx_ring ?d)) (ring_back (tx_ring ?d))"
    "ring_ok 4 (ring_front (rx_ring ?d)) (ring_back (rx_ring ?d))" by (simp_all add: ring_ok_def)
  obtain d' where d': "udp_poll udp_device udp_ram udp_buffers ?d = Some d'" "6 \<le> ring_front (rx_ring d')"
    and served: "3 + min (length (filter udp_request [4..<ring_front (rx_ring d')])) (ring_free 4 2 3) \<le> ring_back (tx_ring d')"
    using udp_requests_served [OF udp_model _ ok] by (auto simp: Let_def)
  have "udp_request 4" using udp_first_request by (simp add: udp_request_def)
  moreover have "[4..<ring_front (rx_ring d')] = 4 # [5..<ring_front (rx_ring d')]"
    using d'(2) by (simp add: upt_conv_Cons)
  ultimately have "4 \<le> ring_back (tx_ring d')"
    using served by (simp add: ring_free_def)
  with d' show ?thesis by blast
qed

text \<open>C30. A request through the driver. When the transmit ring has a free descriptor, the handler fills the buffer
  of the first free one with the answer to the datagram, gives its control word the size of 45 bytes, the mark of
  the last fragment and the request for an interrupt, hands over exactly that descriptor and advances the counter of packets by one.\<close>

theorem udp_request_answered:
  assumes contract: "net_tx D n handed sent db sb M own"
    and ok: "ring_ok n (sent d) (handed d)" and room: "0 < ring_free n (sent d) (handed d)"
    and s: "s = slot_desc db n (handed d)" and p: "p = ld32 (ram_of M d) s"
    and own: "\<And>a. a - s < 8 \<or> a - p < 45 \<or> a - mac_addr S < 6 \<or> a - buffer < 82 \<or> a - packet_id S < 2 \<Longrightarrow> a \<in> own"
    and request: "is_request (ram_of M d) buffer" and apart: "reply_apart p buffer (mac_addr S)"
    and slot: "\<And>a. a - s < 8 \<Longrightarrow> \<not> a - p < 45 \<and> \<not> a - packet_id S < 2"
    and pid: "\<And>a. a - packet_id S < 2 \<Longrightarrow> \<not> a - p < 45"
  shows "let d' = udp_packet D M S buffer len d in
    ring_ok n (sent d') (handed d') \<and> handed d' = handed d + 1 \<and> ld32 (ram_of M d') s = p \<and>
    ld32 (ram_of M d') (s + 4) = rflpc_eth_set_tx_control_word 45 1 1 \<and>
    is_answer (ram_of M d) (mac_addr S) buffer (ram_of M d') p \<and>
    ld16 (ram_of M d') (packet_id S) = ld16 (ram_of M d) (packet_id S) + 1"
  by (rule net_tx.packet_answered [OF contract ok room s p _ request apart]) (rule own slot pid, assumption)+

lemma udp_request_answered_witness:
  "is_answer udp_image 0x10000000 0x2007D000
     (udp_memory (udp_packet udp_device udp_ram udp_buffers 0x2007D000 60
       \<lparr>tx_ring = \<lparr>ring_front = 0, ring_back = 0, schedule = []\<rparr>,
        rx_ring = \<lparr>ring_front = 0, ring_back = 1, schedule = []\<rparr>, udp_memory = udp_image\<rparr>)) 0x20080000"
proof -
  let ?d = "\<lparr>tx_ring = \<lparr>ring_front = 0, ring_back = 0, schedule = []\<rparr>,
        rx_ring = \<lparr>ring_front = 0, ring_back = 1, schedule = []\<rparr>, udp_memory = udp_image\<rparr>"
  have ok: "ring_ok 4 (ring_front (tx_ring ?d)) (ring_back (tx_ring ?d))" by (simp add: ring_ok_def)
  have room: "0 < ring_free 4 (ring_front (tx_ring ?d)) (ring_back (tx_ring ?d))" by (simp add: ring_free_def)
  have s: "0x2007C000 = slot_desc 0x2007C000 4 (ring_back (tx_ring ?d))" by (simp add: slot_desc_def)
  have p: "0x20080000 = ld32 (ram_of udp_ram ?d) 0x2007C000"
    using udp_image_words(1) [of 0] by (simp add: udp_ram_def)
  have req: "is_request (ram_of udp_ram ?d) 0x2007D000" using udp_first_request by (simp add: udp_ram_def)
  have apart: "reply_apart 0x20080000 0x2007D000 (mac_addr udp_buffers)"
    by (simp add: reply_apart_def udp_buffers_def)
  have far: "\<not> a - q < n" if "a - p < l" "n \<le> p - q" "l \<le> q - p" for a p q n l :: u32
    using outside_block [of n p q l "a - p"] that by simp
  have slot: "\<not> a - 0x20080000 < 45 \<and> \<not> a - packet_id udp_buffers < 2" if "a - 0x2007C000 < 8" for a
    using that far [of a "0x2007C000" 8 45 "0x20080000"] far [of a "0x2007C000" 8 2 "0x10000008"]
    by (simp add: udp_buffers_def)
  have pid: "\<not> a - 0x20080000 < 45" if "a - packet_id udp_buffers < 2" for a
    using that far [of a "0x10000008" 2 45 "0x20080000"] by (simp add: udp_buffers_def)
  from udp_request_answered [OF udp_model.net_tx_axioms ok room s p UNIV_I req apart slot pid, of 60]
  show ?thesis by (simp add: Let_def udp_ram_def udp_buffers_def)
qed

text \<open>The set-up of the echo server: with a cable plugged in and a serial number in the ROM it returns, with its
  hardware address in memory and in the registers, both rings of four descriptors at their arrays, and every
  descriptor at its buffer, which is as long as the control word says and shares no byte with another.\<close>

theorem udp_start_sets_up:
  assumes contract: "net_start D A phy M own plugged" and live: "plugged d"
    and serial: "rflpc_iap_get_serial_number iap fl = (Some s, fl')"
    and own: "\<And>a. a - mac_addr S < 6 \<or> a - rx_desc S < 64 \<or> a - tx_desc S < 64 \<Longrightarrow> a \<in> own"
    and apart: "\<And>a. a - mac_addr S < 6 \<Longrightarrow> \<not> a - rx_desc S < 64 \<and> \<not> a - tx_desc S < 64"
      "\<And>a. a - rx_desc S < 64 \<Longrightarrow> \<not> a - tx_desc S < 64"
    and mac: "mac = [2, 3, ucast (s ! 0), ucast (s ! 1), ucast (s ! 2), ucast (s ! 3)]"
  shows "\<exists>d'. udp_ethernet_init D iap M S system_clock (fl, d) = Some (fl', d') \<and>
    bytes_at (ram_of M d') (mac_addr S) 6 = mac \<and> fst (rflpc_eth_get_mac_address D d') = mac \<and>
    peek D EMAC_RxDescriptor d' = rx_desc S \<and> peek D EMAC_RxStatus d' = rx_status S \<and>
    peek D EMAC_RxDescriptorNumber d' = 3 \<and> peek D EMAC_TxDescriptor d' = tx_desc S \<and>
    peek D EMAC_TxStatus d' = tx_status S \<and> peek D EMAC_TxDescriptorNumber d' = 3 \<and>
    (\<forall>i < 4. let m = ram_of M d'; rxb = ld32 m (rx_desc S + 8 * of_nat i); txb = ld32 m (tx_desc S + 8 * of_nat i)
      in ld32 m (rx_desc S + 8 * of_nat i + 4) AND 0x7FF = BUFFER_SIZE - 1 \<and>
         (\<forall>j < 4. \<forall>x < BUFFER_SIZE. \<forall>y < BUFFER_SIZE. i \<noteq> j \<longrightarrow>
            rxb + x \<noteq> ld32 m (rx_desc S + 8 * of_nat j) + y \<and> txb + x \<noteq> ld32 m (tx_desc S + 8 * of_nat j) + y))"
proof -
  obtain d' where d': "udp_ethernet_init D iap M S system_clock (fl, d) = Some (fl', d') \<and>
    bytes_at (ram_of M d') (mac_addr S) 6 = mac \<and> fst (rflpc_eth_get_mac_address D d') = mac \<and>
    peek D EMAC_RxDescriptor d' = rx_desc S \<and> peek D EMAC_RxStatus d' = rx_status S \<and>
    peek D EMAC_RxDescriptorNumber d' = 3 \<and> peek D EMAC_TxDescriptor d' = tx_desc S \<and>
    peek D EMAC_TxStatus d' = tx_status S \<and> peek D EMAC_TxDescriptorNumber d' = 3"
    and desc: "\<forall>i < 4. ld32 (ram_of M d') (rx_desc S + 8 * of_nat i) = rxbuffers S + of_nat i * BUFFER_SIZE \<and>
       ld32 (ram_of M d') (rx_desc S + 8 * of_nat i + 4) = (BUFFER_SIZE - 1) OR shl 1 31 \<and>
       ld32 (ram_of M d') (tx_desc S + 8 * of_nat i) = txbuffers S + of_nat i * BUFFER_SIZE"
    using net_start.udp_start [OF contract serial live own apart mac, of system_clock] by blast
  have size: "((BUFFER_SIZE - 1) OR shl 1 31) AND 0x7FF = BUFFER_SIZE - 1"
    by (simp add: BUFFER_SIZE_def RFLPC_ETH_MAX_FRAME_LENGTH_def)
  have apart: "p + of_nat i * BUFFER_SIZE + x \<noteq> p + of_nat j * BUFFER_SIZE + y"
    if "i \<noteq> j" "i < 4" "j < 4" "x < BUFFER_SIZE" "y < BUFFER_SIZE" for i j x y p
    using two_buffers_apart [of i j x y p] two_buffers_apart [of j i y x p] that by (cases "i < j") auto
  show ?thesis
    using d' desc apart size by (intro exI [of _ d']) (simp add: Let_def)
qed

lemma udp_start_sets_up_witness:
  "\<exists>d'. udp_ethernet_init mii_device (\<lambda>_ fl. ([0, 0x11, 0x22, 0x33, 0x44], fl)) start_ram udp_buffers 96000000
      ((\<lambda>_. 0xFF, ()), \<lparr>mii_ram = \<lambda>_. 0, mii_busy = 0, phy_file = \<lambda>_. 4, negotiating = 2, start_memory = \<lambda>_. 0xFF\<rparr>) =
     Some ((\<lambda>_. 0xFF, ()), d') \<and>
    start_memory d' 0x10000003 = 0x22 \<and> peek mii_device EMAC_RxDescriptor d' = 0x2007C080"
proof -
  let ?S = udp_buffers and ?iap = "\<lambda>_ fl. ([0, 0x11, 0x22, 0x33, 0x44 :: u32], fl)"
    and ?d = "\<lparr>mii_ram = \<lambda>_. 0, mii_busy = 0, phy_file = \<lambda>_. 4, negotiating = 2, start_memory = \<lambda>_. 0xFF\<rparr>"
  have live: "bit (phy_file ?d RFLPC_ETH_PHY_BMSR) 2" by simp
  have serial: "rflpc_iap_get_serial_number ?iap (\<lambda>_. 0xFF, ()) = (Some [0x11, 0x22, 0x33, 0x44], (\<lambda>_. 0xFF, ()))"
    by (simp add: rflpc_iap_get_serial_number_def)
  have far: "\<not> a - q < n" if "a - p < l" "n \<le> p - q" "l \<le> q - p" for a p q n l :: u32
    using outside_block [of n p q l "a - p"] that by simp
  have apart: "\<not> a - rx_desc ?S < 64 \<and> \<not> a - tx_desc ?S < 64" if "a - mac_addr ?S < 6" for a
    using that far [of a "0x10000000" 6 64 "0x2007C080"] far [of a "0x10000000" 6 64 "0x2007C000"]
    by (simp add: udp_buffers_def)
  have apart': "\<not> a - tx_desc ?S < 64" if "a - rx_desc ?S < 64" for a
    using that far [of a "0x2007C080" 64 64 "0x2007C000"] by (simp add: udp_buffers_def)
  obtain d' where d': "udp_ethernet_init mii_device ?iap start_ram ?S 96000000 ((\<lambda>_. 0xFF, ()), ?d) = Some ((\<lambda>_. 0xFF, ()), d')"
    and bytes: "bytes_at (ram_of start_ram d') (mac_addr ?S) 6 = [2, 3, 0x11, 0x22, 0x33, 0x44]"
    and desc: "peek mii_device EMAC_RxDescriptor d' = rx_desc ?S"
    using udp_start_sets_up [OF net_start_model live serial UNIV_I apart apart' refl, of 96000000] by auto
  from bytes have "start_memory d' 0x10000003 = 0x22"
    by (simp add: bytes_at_def upt_conv_Cons start_ram_def udp_buffers_def)
  with d' desc show ?thesis by (auto simp: udp_buffers_def)
qed

end
