(* ===== verification/Eth_Server.thy ===== *)
theory Eth_Server
  imports Responder Udp_Server Tick Uart
begin

text \<open>
  \<^verbatim>\<open>samples/ethernet/main.c\<close> on the driver: the packet handler of Responder with the transmit ring, the interrupt
  handler that hands it every received frame, the set-up, and the handlers of the timer and of the keys. Answering
  frames from both rings is \<^const>\<open>answer_frame\<close>; the contract is the locale \<open>responder_rings\<close>, and its instance a
  device with rings of four and buffers that do not overlap. The arrays of
  the program are those of \<^verbatim>\<open>simple_net.c\<close>, with the same dimensions. What is printed is left out.
\<close>

section \<open>The program\<close>

text \<open>The transmit descriptor is asked for only when there is something to answer. The message and its control word:\<close>

definition responder_store :: "IcmpHead \<Rightarrow> addr \<Rightarrow> addr \<Rightarrow> addr \<Rightarrow> mem \<Rightarrow> mem" where
  "responder_store g mac rx tx m = snd (Responder.process_packet g (Some tx) (bytes_at m mac 6) rx m)"

definition responder_word :: "IcmpHead \<Rightarrow> addr \<Rightarrow> addr \<Rightarrow> addr \<Rightarrow> mem \<Rightarrow> u32" where
  "responder_word g mac rx tx m = the (fst (Responder.process_packet g (Some tx) (bytes_at m mac 6) rx m))"

definition responder_packet :: "'d device \<Rightarrow> 'd ram \<Rightarrow> net_statics \<Rightarrow> IcmpHead \<Rightarrow> addr \<Rightarrow> 'd \<Rightarrow> 'd" where
  "responder_packet D M S g rx d =
     (if \<not> wants_answer g (ram_of M d) rx then d
      else
        (let (r, d) = rflpc_eth_get_current_tx_packet_descriptor D 0 d
         in case r of
              None \<Rightarrow> d
            | Some p \<Rightarrow>
                (let tx = ld32 (ram_of M d) (fst p);
                     c = responder_word g (mac_addr S) rx tx (ram_of M d);
                     d = ram_upd M (responder_store g (mac_addr S) rx tx) d;
                     d = ram_upd M (st32 (fst p + 4) c) d
                 in rflpc_eth_done_process_tx_packet D 1 d)))"

partial_function (option) responder_loop ::
  "'d device \<Rightarrow> 'd ram \<Rightarrow> net_statics \<Rightarrow> IcmpHead \<Rightarrow> 'd \<Rightarrow> 'd option" where
  "responder_loop D M S g d =
     (let (r, d) = rflpc_eth_get_current_rx_packet_descriptor D d
      in case r of
           None \<Rightarrow> Some d
         | Some p \<Rightarrow>
             (let d = rflpc_led_set D RFLPC_LED_2 d;
                  d = responder_packet D M S g (ld32 (ram_of M d) (fst p)) d;
                  d = rflpc_eth_done_process_rx_packet D d
              in responder_loop D M S g (rflpc_led_clr D RFLPC_LED_2 d)))"

definition responder_handler :: "'d device \<Rightarrow> 'd ram \<Rightarrow> net_statics \<Rightarrow> IcmpHead \<Rightarrow> 'd \<Rightarrow> 'd option" where
  "responder_handler D M S g d =
     (let (s, d) = rflpc_eth_irq_get_status D d
      in case (if s AND RFLPC_ETH_IRQ_EN_RX_DONE \<noteq> 0 then responder_loop D M S g d else Some d) of
           None \<Rightarrow> None
         | Some d \<Rightarrow> (let (s, d) = rflpc_eth_irq_get_status D d in Some (rflpc_eth_irq_clear D s d)))"

text \<open>The keys change the two variables \<^verbatim>\<open>request_autoneg\<close> and \<^verbatim>\<open>autoneg_mode\<close>, which the main loop looks at.\<close>

definition serial_handler :: "'d device \<Rightarrow> bool \<times> u32 \<times> 'd \<Rightarrow> (bool \<times> u32 \<times> 'd) option" where
  "serial_handler D st =
     (let (request_autoneg, mode, d) = st
      in case rflpc_uart_getchar D RFLPC_UART0 d of
           None \<Rightarrow> None
         | Some (c, d) \<Rightarrow>
             Some (if c = 115 then (True, mode XOR RFLPC_ETH_LINK_MODE_SPEED_BIT, d)
                   else if c = 100 then (True, mode XOR RFLPC_ETH_LINK_MODE_DUPLEX_BIT, d)
                   else (request_autoneg, mode, d)))"

definition autoneg_turn :: "'d device \<Rightarrow> bool \<times> u32 \<times> 'd \<Rightarrow> (bool \<times> u32 \<times> 'd) option" where
  "autoneg_turn D st =
     (let (request_autoneg, mode, d) = st
      in if request_autoneg
         then (case rflpc_eth_link_auto_negociate D mode d of
                 None \<Rightarrow> None
               | Some (_, d) \<Rightarrow>
                   (case rflpc_eth_get_link_mode D d of None \<Rightarrow> None | Some (_, d) \<Rightarrow> Some (False, mode, d)))
         else Some st)"

definition rit_handler :: "'d device \<Rightarrow> 'd \<Rightarrow> 'd option" where
  "rit_handler D d =
     (case rflpc_eth_link_state D (rflpc_rit_clear_pending_interrupt D d) of
        None \<Rightarrow> None
      | Some (up, d) \<Rightarrow> Some (if up then rflpc_led_set D RFLPC_LED_1 d else rflpc_led_clr D RFLPC_LED_1 d))"

text \<open>The set-up: \<^verbatim>\<open>ethernet\<close> up to its endless loop. The three handlers are addresses.\<close>

definition responder_rings_init :: "'d device \<Rightarrow> 'd ram \<Rightarrow> net_statics \<Rightarrow> 'd \<Rightarrow> 'd" where
  "responder_rings_init D M S d =
     (let d = init_rx_descriptors S M d;
          d = rflpc_eth_set_rx_base_addresses D (rx_desc S) (rx_status S) (of_nat RX_BUFFER_COUNT) d;
          d = init_tx_descriptors S M d
      in rflpc_eth_set_tx_base_addresses D (tx_desc S) (tx_status S) (of_nat TX_BUFFER_COUNT) d)"

definition responder_ethernet ::
  "'d device \<Rightarrow> 'd ram \<Rightarrow> net_statics \<Rightarrow> u32 \<Rightarrow> u32 \<Rightarrow> u32 \<Rightarrow> u32 \<Rightarrow> u32 list \<times> 'd \<Rightarrow> (u32 list \<times> 'd) option" where
  "responder_ethernet D M S system_clock eth_h rit_h serial_h st =
     (let (v, d) = st;
          b = mac_addr S;
          d = ram_upd M (store_mac b [2, 3, 4, 5, 6, 7]) d
      in case rflpc_eth_init D system_clock d of
           None \<Rightarrow> None
         | Some (_, d) \<Rightarrow>
             (let d = rflpc_eth_set_mac_address D (bytes_at (ram_of M d) b 6) d;
                  (a, d) = rflpc_eth_get_mac_address D d;
                  d = ram_upd M (store_mac b a) d;
                  d = rflpc_led_val D 0 d
              in case rflpc_eth_link_auto_negociate D RFLPC_ETH_LINK_MODE_100FD d of
                   None \<Rightarrow> None
                 | Some (_, d) \<Rightarrow>
                     (case wait_link D d of
                        None \<Rightarrow> None
                      | Some d \<Rightarrow>
                          (let (v, d) = rflpc_eth_set_irq_handler D eth_h (v, d);
                               d = rflpc_eth_irq_enable_set D RFLPC_ETH_IRQ_EN_RX_DONE d;
                               d = rflpc_rit_enable D d;
                               (v, d) = rflpc_rit_set_callback D 0xFFFFF 0 True rit_h (v, d)
                           in case rflpc_uart_set_rx_callback D RFLPC_UART0 serial_h (v, d) of
                                None \<Rightarrow> None
                              | Some (v, d) \<Rightarrow> Some (v, responder_rings_init D M S d)))))"

section \<open>The handler between the rings\<close>

lemma responder_packet_eq:
  "responder_packet D M S g rx = answer_frame D M (\<lambda>m. wants_answer g m rx)
     (responder_store g (mac_addr S) rx) (responder_word g (mac_addr S) rx)"
  by (rule ext) (simp add: responder_packet_def answer_frame_def Let_def split: prod.splits option.splits)

text \<open>On top of the two rings: writing the registers of the leds and clearing an interrupt moves nothing.\<close>

definition led_regs :: "addr set" where
  "led_regs = port_regs (RFLPC_GPIO_BASE (RFLPC_PIN_MAKE led_port 0))"

locale responder_rings = answer_rings D tn handed sent tdb tsb M own rn processed received rdb rsb
  "\<lambda>rx m. wants_answer g m rx" "responder_store g (mac_addr S)" "responder_word g (mac_addr S)"
  ready arrivals pkt tbuf request W
  for D :: "'d device" and tn :: nat and handed sent :: "'d \<Rightarrow> nat" and tdb tsb :: addr and M :: "'d ram"
    and own :: "addr set" and rn :: nat and processed received :: "'d \<Rightarrow> nat" and rdb rsb :: addr
    and S :: net_statics and g :: IcmpHead and ready :: "'d \<Rightarrow> bool" and arrivals :: "'d \<Rightarrow> nat"
    and pkt tbuf :: "nat \<Rightarrow> addr" and request :: "nat \<Rightarrow> bool" and W :: "addr set" +
  assumes other: "a \<in> led_regs \<union> {EMAC_IntClear} \<Longrightarrow> ready d \<Longrightarrow>
      ready (dev_wr D a v d) \<and> arrivals (dev_wr D a v d) \<le> arrivals d"
      "a \<in> led_regs \<union> {EMAC_IntClear} \<Longrightarrow> handed (dev_wr D a v d) = handed d \<and> sent (dev_wr D a v d) = sent d \<and>
        processed (dev_wr D a v d) = processed d \<and> received (dev_wr D a v d) = received d"
begin

lemma quiet_write: "in_order d \<Longrightarrow> a \<in> led_regs \<union> {EMAC_IntClear} \<Longrightarrow> quiet d (dev_wr D a v d)"
  using other [where a = a and d = d and v = v] by (auto simp: quiet_def in_order_def tx_moves_def rx_moves_def ring_ok_def)

lemma quiet_leds:
  assumes "in_order d"
  shows "quiet d (rflpc_led_set D l d)" and "quiet d (rflpc_led_clr D l d)"
proof -
  let ?b = "RFLPC_GPIO_BASE (RFLPC_PIN_MAKE led_port 0)"
  have step: "quiet d (dev_wr D a v e)" if "quiet d e" "a \<in> led_regs" for a v e
    using quiet_trans [OF that(1) quiet_write [OF quiet_in_order [OF assms that(1)]]] that(2) by simp
  have read: "quiet d (snd (dev_rd D a e))" if "quiet d e" for a e
    using quiet_trans [OF that quiet_read [OF quiet_in_order [OF assms that]]] .
  show "quiet d (rflpc_led_set D l d)" and "quiet d (rflpc_led_clr D l d)"
    by (simp_all add: rflpc_led_set_def rflpc_led_clr_def rflpc_gpio_set_pins_from_mask_def
        rflpc_gpio_clr_pins_from_mask_def reg_or_def rmw_def split_def Let_def step read quiet_refl assms
        led_regs_def port_regs_def)
qed

lemma loop_serves:
  assumes "in_order d"
  shows "\<exists>d'. responder_loop D M S g d = Some d' \<and> in_order d' \<and> received d' = processed d' \<and>
    received d \<le> processed d' \<and> served d [processed d..<processed d'] d'"
proof (rule frames_served [OF _ _ _ _ assms, where head = "rflpc_led_set D RFLPC_LED_2" and
      tail = "rflpc_led_clr D RFLPC_LED_2" and f = "\<lambda>p d. responder_packet D M S g
        (ld32 (ram_of M (rflpc_led_set D RFLPC_LED_2 d)) (fst p)) (rflpc_led_set D RFLPC_LED_2 d)"])
  fix d show "responder_loop D M S g d = (case rflpc_eth_get_current_rx_packet_descriptor D d of (None, e) \<Rightarrow> Some e
      | (Some p, e) \<Rightarrow> responder_loop D M S g (rflpc_led_clr D RFLPC_LED_2 (rflpc_eth_done_process_rx_packet D
          (responder_packet D M S g (ld32 (ram_of M (rflpc_led_set D RFLPC_LED_2 e)) (fst p))
            (rflpc_led_set D RFLPC_LED_2 e)))))"
    by (subst responder_loop.simps) (simp add: Let_def split: prod.splits option.splits)
qed (simp_all add: responder_packet_eq Let_def quiet_leds)

lemma handler_serves:
  assumes d: "in_order d" and irq: "fst (dev_rd D EMAC_IntStatus d) AND RFLPC_ETH_IRQ_EN_RX_DONE \<noteq> 0"
  shows "\<exists>d'. responder_handler D M S g d = Some d' \<and> in_order d' \<and> received d \<le> processed d' \<and>
    served d [processed d..<processed d'] d'"
proof -
  define e where "e = snd (dev_rd D EMAC_IntStatus d)"
  have q: "quiet d e" using quiet_read [OF d] by (simp add: e_def)
  have e: "quiet d e" "in_order e" "processed e = processed d" "received d \<le> received e"
    using q quiet_in_order [OF d q] unfolding quiet_def rx_moves_def by blast+
  obtain h where h: "responder_loop D M S g e = Some h" "in_order h" "received e \<le> processed h"
      "served e [processed e..<processed h] h" using loop_serves [OF e(2)] by blast
  define k where "k = dev_wr D EMAC_IntClear (fst (dev_rd D EMAC_IntStatus h)) (snd (dev_rd D EMAC_IntStatus h))"
  have "quiet h k"
    using quiet_trans [OF quiet_read [OF h(2)] quiet_write [OF quiet_in_order [OF h(2) quiet_read [OF h(2)]]]]
    by (simp add: k_def)
  then have k: "in_order k" "processed k = processed h" "served h [] k"
    using quiet_in_order [OF h(2)] served_quiet by (simp_all add: quiet_def rx_moves_def)
  have "responder_handler D M S g d = Some k"
    using irq h(1) by (simp add: responder_handler_def rflpc_eth_irq_get_status_def rflpc_eth_irq_clear_def
        split_def Let_def e_def k_def)
  moreover have "served d [processed d..<processed k] k"
    using served_trans [OF served_trans [OF served_quiet [OF e(1)] h(4)] k(3)] e(3) k(2) by simp
  ultimately show ?thesis using k e(4) h(3) by auto
qed

text \<open>The same with the numbers written out.\<close>

lemma handler_numbers:
  assumes "ready d" and "ring_ok tn (sent d) (handed d)" and "ring_ok rn (processed d) (received d)"
    and "fst (dev_rd D EMAC_IntStatus d) AND RFLPC_ETH_IRQ_EN_RX_DONE \<noteq> 0"
  shows "\<exists>d'. responder_handler D M S g d = Some d' \<and> received d \<le> processed d' \<and> ring_ok tn (sent d') (handed d') \<and>
    (let asked = length (filter request [processed d..<processed d']) in
      handed d' \<le> handed d + asked \<and>
      handed d + min asked (ring_free tn (sent d) (handed d)) \<le> handed d')"
  using handler_serves [OF _ assms(4)] assms(1-3) by (auto simp: in_order_def served_def Let_def)

end

section \<open>The set-up\<close>

lemma keeps_link:
  assumes "bus_keeps D P" and "P d"
  shows "rflpc_eth_link_state D d = Some (up, d') \<Longrightarrow> P d'" and "rflpc_eth_get_link_mode D d = Some (mode, d') \<Longrightarrow> P d'"
  using keeps_read_phy [OF assms]
  by (auto simp: rflpc_eth_link_state_def rflpc_eth_get_link_mode_def split: option.splits)

lemma keeps_negociation_start:
  assumes k: "bus_keeps D P" and "P d" and "eth_negociation_start D m d = Some e"
  shows "P e"
proof -
  obtain x d1 d2 y d3 where 1: "read_from_phy_register D RFLPC_ETH_PHY_ANAR d = Some (x, d1)"
    and 2: "write_to_phy_register D RFLPC_ETH_PHY_ANAR (advertised m x) d1 = Some d2"
    and 3: "read_from_phy_register D RFLPC_ETH_PHY_BMCR d2 = Some (y, d3)"
    and 4: "write_to_phy_register D RFLPC_ETH_PHY_BMCR
        ((y OR RFLPC_ETH_BMCR_ENABLE_AUTO_NEG) OR RFLPC_ETH_BMCR_RESTART_AUTO_NEG) d3 = Some e"
    using assms(3) by (auto simp: eth_negociation_start_def split: option.splits)
  show ?thesis
    by (rule keeps_write_phy [OF k keeps_read_phy [OF k keeps_write_phy [OF k keeps_read_phy [OF k assms(2) 1] 2] 3] 4])
qed

lemma keeps_negociation_end:
  assumes k: "bus_keeps D P" and "P d" and "eth_negociation_end D d = Some (r, e)"
  shows "P e"
proof -
  obtain x d1 up d2 where 1: "phy_poll D RFLPC_ETH_PHY_BMSR (\<lambda>x. x AND RFLPC_ETH_BMSR_AUTO_NEG_COMPLETE \<noteq> 0) d = Some (x, d1)"
    and 2: "rflpc_eth_link_state D d1 = Some (up, d2)"
    and 3: "(if \<not> up then Some (- 1, d2)
        else (case rflpc_eth_get_link_mode D d2 of None \<Rightarrow> None
          | Some (mode, d) \<Rightarrow> Some (0, eth_apply_mode D mode d))) = Some (r, e)"
    using assms(3) by (auto simp: eth_negociation_end_def split: option.splits)
  have d2: "P d2" by (rule keeps_link(1) [OF k keeps_phy_poll [OF k assms(2) 1] 2])
  have "P (eth_apply_mode D mode e)" if "P e" for mode e
    using that by (simp add: eth_apply_mode_def Let_def keeps_bus [OF k] keeps_rmw [OF k])
  then show ?thesis
    using 3 d2 keeps_link(2) [OF k d2] by (cases up; cases "rflpc_eth_get_link_mode D d2") auto
qed

lemma keeps_auto_negociate:
  assumes k: "bus_keeps D P" and "P d" and "rflpc_eth_link_auto_negociate D m d = Some (r, d')"
  shows "P d'"
proof -
  obtain up e where 1: "rflpc_eth_link_state D d = Some (up, e)"
    and 2: "(if \<not> up then Some (- 1, e)
        else (case eth_negociation_start D m e of None \<Rightarrow> None | Some d \<Rightarrow> eth_negociation_end D d)) = Some (r, d')"
    using assms(3) by (auto simp: rflpc_eth_link_auto_negociate_def split: option.splits)
  have e: "P e" by (rule keeps_link(1) [OF k assms(2) 1])
  show ?thesis
    using 2 e keeps_negociation_start [OF k e]
    by (cases up; cases "eth_negociation_start D m e") (auto intro: keeps_negociation_end [OF k])
qed

context net_start
begin

text \<open>The last part of the set-up, from the handlers on.\<close>

definition responder_tail :: "net_statics \<Rightarrow> u32 \<Rightarrow> u32 \<Rightarrow> u32 \<Rightarrow> u32 list \<Rightarrow> 'd \<Rightarrow> 'd" where
  "responder_tail S eth_h rit_h serial_h v d =
     (let d = snd (rflpc_eth_set_irq_handler D eth_h (v, d));
          d = rflpc_eth_irq_enable_set D RFLPC_ETH_IRQ_EN_RX_DONE d;
          d = snd (rflpc_rit_set_callback D 0xFFFFF 0 True rit_h (v, rflpc_rit_enable D d));
          d = snd (the (rflpc_uart_set_rx_callback D RFLPC_UART0 serial_h (v, d)))
      in responder_rings_init D M S d)"

lemma responder_tail_peek:
  shows "peek D EMAC_RxDescriptor (responder_tail S h1 h2 h3 v d) = rx_desc S"
    "peek D EMAC_RxStatus (responder_tail S h1 h2 h3 v d) = rx_status S"
    "peek D EMAC_RxDescriptorNumber (responder_tail S h1 h2 h3 v d) = 7"
    "peek D EMAC_TxDescriptor (responder_tail S h1 h2 h3 v d) = tx_desc S"
    "peek D EMAC_TxStatus (responder_tail S h1 h2 h3 v d) = tx_status S"
    "peek D EMAC_TxDescriptorNumber (responder_tail S h1 h2 h3 v d) = 7"
    "peek D EMAC_IntEnable (responder_tail S h1 h2 h3 v d) = 8"
proof -
  have m: "a \<in> net_regs \<Longrightarrow> a \<in> A" for a using regs by blast
  have "BASE_ADDR 0 = LPC_UART0_BASE" by (simp add: BASE_ADDR_def rflpc_uart_config_def)
  note ops = this peek_wr [OF m] peek_reg_or [OF m] peek_reg_and [OF m] peek_rd [OF m] init_peek [OF m]
    responder_tail_def responder_rings_init_def rflpc_eth_set_irq_handler_def rflpc_irq_disable_def rflpc_irq_enable_def
    rflpc_eth_irq_enable_set_def rflpc_eth_set_rx_base_addresses_def rflpc_eth_set_tx_base_addresses_def
    RX_BUFFER_COUNT_def TX_BUFFER_COUNT_def RFLPC_ETH_IRQ_EN_RX_DONE_def
    rflpc_rit_enable_def rflpc_rit_set_callback_def rflpc_uart_set_rx_callback_def RFLPC_UART0_def
  show "peek D EMAC_RxDescriptor (responder_tail S h1 h2 h3 v d) = rx_desc S"
    "peek D EMAC_RxStatus (responder_tail S h1 h2 h3 v d) = rx_status S"
    "peek D EMAC_RxDescriptorNumber (responder_tail S h1 h2 h3 v d) = 7"
    "peek D EMAC_TxDescriptor (responder_tail S h1 h2 h3 v d) = tx_desc S"
    "peek D EMAC_TxStatus (responder_tail S h1 h2 h3 v d) = tx_status S"
    "peek D EMAC_TxDescriptorNumber (responder_tail S h1 h2 h3 v d) = 7"
    "peek D EMAC_IntEnable (responder_tail S h1 h2 h3 v d) = 8"
    by (auto simp: ops net_regs_def reg_addr base_defs split_def Let_def)
qed

lemma responder_starts:
  assumes live: "plugged d"
    and ends: "\<And>e. plugged e \<Longrightarrow> \<exists>n. phy_complete phy (phy_reads D RFLPC_ETH_PHY_BMSR n e)"
  shows "\<exists>d'. responder_ethernet D M S system_clock eth_h rit_h serial_h (v, d) =
      Some (v[44 := eth_h, 45 := rit_h, 21 := serial_h], d') \<and>
    peek D EMAC_RxDescriptor d' = rx_desc S \<and> peek D EMAC_RxStatus d' = rx_status S \<and>
    peek D EMAC_RxDescriptorNumber d' = 7 \<and> peek D EMAC_TxDescriptor d' = tx_desc S \<and>
    peek D EMAC_TxStatus d' = tx_status S \<and> peek D EMAC_TxDescriptorNumber d' = 7 \<and>
    peek D EMAC_IntEnable d' = RFLPC_ETH_IRQ_EN_RX_DONE"
proof -
  define d1 where "d1 = ram_upd M (store_mac (mac_addr S) [2, 3, 4, 5, 6, 7]) d"
  obtain d2 where d2: "rflpc_eth_init D system_clock d1 = Some (1, d2)"
    using eth_init_returns [of system_clock d1] regs by auto
  define d3 where "d3 = rflpc_eth_set_mac_address D (bytes_at (ram_of M d2) (mac_addr S) 6) d2"
  obtain a d4 where d4: "rflpc_eth_get_mac_address D d3 = (a, d4)" by (metis surj_pair)
  define d5 where "d5 = rflpc_led_val D 0 (ram_upd M (store_mac (mac_addr S) a) d4)"
  have "plugged d2" using keeps_eth_init [OF plugged(1) _ d2] plugged(2) [OF live] by (simp add: d1_def)
  then have "plugged d3" using keeps_mac_address(1) [OF plugged(1)] by (simp add: d3_def)
  from keeps_mac_address(2) [OF plugged(1) this] have "plugged d4" by (simp add: d4)
  then have p5: "plugged d5" using keeps_interrupt(1) [OF plugged(1)] plugged(2) by (simp add: d5_def)
  have "plugged (phy_reads D RFLPC_ETH_PHY_BMSR 1 d5)" by (rule keeps_link(1) [OF plugged(1) p5 link_state_returns])
  then have "\<exists>n. phy_complete phy (phy_reads D RFLPC_ETH_PHY_BMSR n e)"
    if "eth_negociation_start D RFLPC_ETH_LINK_MODE_100FD (phy_reads D RFLPC_ETH_PHY_BMSR 1 d5) = Some e" for e
    using ends keeps_negociation_start [OF plugged(1) _ that] by blast
  then obtain r d6 where d6: "rflpc_eth_link_auto_negociate D RFLPC_ETH_LINK_MODE_100FD d5 = Some (r, d6)"
    using auto_negociate_returns by blast
  obtain d7 where d7: "wait_link D d6 = Some d7"
    using wait_link_returns keeps_auto_negociate [OF plugged(1) p5 d6] by blast
  have "responder_ethernet D M S system_clock eth_h rit_h serial_h (v, d) =
      Some (v[44 := eth_h, 45 := rit_h, 21 := serial_h], responder_tail S eth_h rit_h serial_h v d7)"
    by (simp add: responder_ethernet_def d1_def [symmetric] d2 d3_def [symmetric] d4 d5_def [symmetric] d6 d7
        responder_tail_def rflpc_eth_set_irq_handler_def rflpc_rit_set_callback_def rflpc_uart_set_rx_callback_def
        rflpc_irq_set_handler_def RFLPC_UART0_def UART0_IRQn_def ENET_IRQn_def RIT_IRQn_def Let_def)
  then show ?thesis by (simp add: responder_tail_peek RFLPC_ETH_IRQ_EN_RX_DONE_def)
qed

end

section \<open>A model\<close>

text \<open>The device of the UDP echo, with an interrupt of the receiver that is always pending.\<close>

definition responder_device :: "udp_state device" where
  "responder_device =
     udp_device\<lparr>dev_rd := (\<lambda>a d. (if a = EMAC_IntStatus then RFLPC_ETH_IRQ_EN_RX_DONE else fst (dev_rd udp_device a d),
       snd (dev_rd udp_device a d)))\<rparr>"

text \<open>An echo request in the first receive buffer.\<close>

definition ping_image :: mem where
  "ping_image =
     fold (\<lambda>k. st32 (0x2007C000 + 8 * of_nat k) (udp_tx_buffer k)) [0..<4]
       (fold (\<lambda>k. st32 (0x2007C080 + 8 * of_nat k) (udp_rx_buffer k)) [0..<4]
         ((\<lambda>_. 0)(0x2007D00C := 8, 0x2007D00E := 0x45, 0x2007D011 := 32, 0x2007D017 := 1, 0x2007D01E := 192,
           0x2007D01F := 168, 0x2007D020 := 100, 0x2007D021 := 200, 0x2007D022 := 8)))"

definition no_icmp :: IcmpHead where
  "no_icmp = \<lparr>icmp_type = 0, icmp_code = 0, icmp_checksum = 0, icmp_data = 0\<rparr>"

definition ping_request :: "nat \<Rightarrow> bool" where
  "ping_request i = wants_answer no_icmp ping_image (udp_rx_buffer (i mod 4))"

lemma responder_rd:
  "snd (dev_rd responder_device a d) = snd (dev_rd udp_device a d)" "dev_wr responder_device = dev_wr udp_device"
  "fst (dev_rd responder_device a d) =
     (if a = EMAC_IntStatus then RFLPC_ETH_IRQ_EN_RX_DONE else fst (dev_rd udp_device a d))"
  by (simp_all add: responder_device_def)

lemma ping_image_words:
  assumes "k < 4"
  shows "ld32 ping_image (0x2007C000 + 8 * of_nat k) = udp_tx_buffer k"
    and "ld32 ping_image (0x2007C080 + 8 * of_nat k) = udp_rx_buffer k"
  using below_four [OF assms] by (auto simp: ping_image_def upt_conv_Cons ld32_st32 ld32_st32_apart)

lemma ping_bytes:
  "ping_image 0x2007D00C = 8" "ping_image 0x2007D00D = 0" "ping_image 0x2007D00E = 0x45" "ping_image 0x2007D010 = 0"
  "ping_image 0x2007D011 = 32" "ping_image 0x2007D017 = 1" "ping_image 0x2007D01E = 192" "ping_image 0x2007D01F = 168"
  "ping_image 0x2007D020 = 100" "ping_image 0x2007D021 = 200" "ping_image 0x2007D022 = 8"
  "ping_image (0x2007D60E) = 0" "ping_image (0x2007D60F) = 0" "ping_image (0x2007DC10) = 0" "ping_image (0x2007DC11) = 0"
  "ping_image (0x2007E212) = 0" "ping_image (0x2007E213) = 0"
  by (simp_all add: ping_image_def st32_def upt_conv_Cons)

lemma ping_only_first: "ping_request i \<longleftrightarrow> i mod 4 = 0"
proof -
  have "ping_request i \<longleftrightarrow> i mod 4 = 0" if "i mod 4 = j" "j < 4" for j
    using below_four [OF that(2)] that(1)
    by (auto simp: ping_request_def wants_answer_def Let_def proto_eth_demangle_def proto_ip_demangle_def
        proto_icmp_demangle_def get_put_defs ping_bytes PROTO_ARP_def PROTO_IP_def PROTO_ICMP_def PROTO_MAC_HLEN_def
        ip_hlen_def Responder.my_ip_def PROTO_ICMP_ECHO_REQUEST_def PROTO_ICMP_ECHO_REPLY_def push_bit_eq_mult)
  then show ?thesis by simp
qed

lemma ping_reply_stays:
  assumes image: "\<And>a. a \<notin> udp_written \<Longrightarrow> m a = ping_image a" and k: "k < 4" and a: "a \<notin> udp_written"
  shows "responder_store no_icmp mac 0x2007D000 (udp_tx_buffer k) m a = m a"
proof -
  let ?tx = "udp_tx_buffer k" and ?rx = "0x2007D000 :: addr"
  have cell: "m (?rx + x) = ping_image (?rx + x)" if "x < 82" for x
    using image udp_frame_kept [of 0 x] that by simp
  have v: "m 0x2007D00C = 8" "m 0x2007D00D = 0" "m 0x2007D00E = 0x45" "m 0x2007D010 = 0" "m 0x2007D011 = 32"
    "m 0x2007D017 = 1" "m 0x2007D01E = 192" "m 0x2007D01F = 168" "m 0x2007D020 = 100" "m 0x2007D021 = 200"
    "m 0x2007D022 = 8"
    using cell [of 12] cell [of 13] cell [of 14] cell [of 16] cell [of 17] cell [of 23] cell [of 30] cell [of 31]
      cell [of 32] cell [of 33] cell [of 34] by (simp_all add: ping_bytes)
  define ip where "ip = proto_ip_demangle m (?rx + 14)"
  have ip: "ip_version_length ip = 0x45" "ip_total_length ip = 32" "ip_dst_addr ip = Responder.my_ip"
    "ip_protocol ip = PROTO_ICMP"
    by (simp_all add: ip_def proto_ip_demangle_def get_put_defs v Responder.my_ip_def PROTO_ICMP_def push_bit_eq_mult)
  have hl: "ip_hlen ip = 20" and n: "icmp_data_length ip = 4"
    by (simp_all add: ip_hlen_def icmp_data_length_def ip push_bit_eq_mult PROTO_ICMP_HLEN_def)
  have t: "eth_type (proto_eth_demangle m ?rx) = PROTO_IP"
    by (simp add: proto_eth_demangle_def get_put_defs v PROTO_IP_def push_bit_eq_mult)
  have q: "icmp_type (proto_icmp_demangle no_icmp m (?rx + 34)) = PROTO_ICMP_ECHO_REQUEST"
    by (simp add: proto_icmp_demangle_def get_put_defs v PROTO_ICMP_ECHO_REQUEST_def PROTO_ICMP_ECHO_REPLY_def)
  have ok: "memcpy_ok (?tx + 34 + 8) (?rx + 34 + 8) (icmp_data_length ip)" by (simp add: n memcpy_ok_def)
  have apart: "buffers_apart ?tx ?rx" using below_four [OF k] by (auto simp: buffers_apart_def)
  have len: "length (bytes_at m mac 6) = 6" by (simp add: bytes_at_def)
  have h: "5 \<le> unat (ip_version_length ip AND 0xF)" "unat (ip_hlen ip) + 8 \<le> unat (ip_total_length ip)"
    "unat (ip_total_length ip) \<le> 1500" "(34 :: u32) = 14 + ip_hlen ip"
    by (simp_all add: ip hl)
  obtain c m' where r: "Responder.process_packet no_icmp (Some ?tx) (bytes_at m mac 6) ?rx m = (c, m')"
    by (metis surj_pair)
  have "\<not> a - ?tx < 1514"
  proof
    assume "a - ?tx < 1514"
    then have "0x20080000 \<le> a"
      using below_four [OF k] region [of _ 1514 a] by (auto simp: word_le_nat_alt)
    then show False using a by (simp add: udp_written_def)
  qed
  then show ?thesis
    using echo_reply [OF apart len t ip_def ip(3,4) h(1-4) q ok r] by (simp add: responder_store_def r)
qed

definition responder_buffers :: net_statics where
  "responder_buffers = \<lparr>rx_desc = 0x2007C080, rx_status = 0x2007C0C0, tx_desc = 0x2007C000, tx_status = 0x2007C040,
     rxbuffers = 0x2007D000, txbuffers = 0x20080000, mac_addr = 0x10000000\<rparr>"

lemma not_status:
  "EMAC_TxDescriptorNumber \<noteq> EMAC_IntStatus" "EMAC_TxProduceIndex \<noteq> EMAC_IntStatus"
  "EMAC_TxConsumeIndex \<noteq> EMAC_IntStatus" "EMAC_TxDescriptor \<noteq> EMAC_IntStatus" "EMAC_TxStatus \<noteq> EMAC_IntStatus"
  "EMAC_RxDescriptorNumber \<noteq> EMAC_IntStatus" "EMAC_RxConsumeIndex \<noteq> EMAC_IntStatus"
  "EMAC_RxProduceIndex \<noteq> EMAC_IntStatus" "EMAC_RxDescriptor \<noteq> EMAC_IntStatus" "EMAC_RxStatus \<noteq> EMAC_IntStatus"
  by (simp_all add: reg_addr)

lemma quiet_regs:
  assumes "a \<in> led_regs \<union> {EMAC_IntClear}"
  shows "a \<noteq> EMAC_TxProduceIndex" "a \<noteq> EMAC_RxConsumeIndex"
  using assms
  by (auto simp: led_regs_def port_regs_def led_vals RFLPC_PIN_MAKE_def RFLPC_GPIO_BASE_def reg_addr
      RFLPC_PIN_GET_PORT_def gpio_ports_def base_defs)

lemma responder_model:
  "responder_rings responder_device 4 (\<lambda>d. ring_back (tx_ring d)) (\<lambda>d. ring_front (tx_ring d)) 0x2007C000 0x2007C040
     udp_ram UNIV 4 (\<lambda>d. ring_front (rx_ring d)) (\<lambda>d. ring_back (rx_ring d)) 0x2007C080 0x2007C0C0
     responder_buffers no_icmp (\<lambda>d. \<forall>a. a \<notin> udp_written \<longrightarrow> udp_memory d a = ping_image a)
     (\<lambda>d. ring_back (rx_ring d) + sum_list (schedule (rx_ring d))) udp_rx_buffer udp_tx_buffer ping_request udp_written"
proof unfold_locales
  show "a \<in> udp_written" if "k < 4" "a - (0x2007C000 + 8 * of_nat k + 4) < 4" for a k
    using that by (auto simp: udp_written_def)
  show "ring_back (tx_ring (dev_wr responder_device a v d)) = ring_back (tx_ring d) \<and>
      ring_front (tx_ring (dev_wr responder_device a v d)) = ring_front (tx_ring d) \<and>
      ring_front (rx_ring (dev_wr responder_device a v d)) = ring_front (rx_ring d) \<and>
      ring_back (rx_ring (dev_wr responder_device a v d)) = ring_back (rx_ring d)"
    if "a \<in> led_regs \<union> {EMAC_IntClear}" for a v d
    using quiet_regs [OF that] by (simp add: responder_rd udp_rd tx_ring_wr_keeps)
  fix d :: udp_state and k :: nat
  assume image: "\<forall>a. a \<notin> udp_written \<longrightarrow> udp_memory d a = ping_image a"
  show "ld32 (ram_of udp_ram d) (0x2007C080 + 8 * of_nat k) = udp_rx_buffer k" if "k < 4"
    unfolding ping_image_words(2) [OF that, symmetric] using image udp_desc_kept(2) [OF that]
    by (intro ld32_local) (simp add: udp_ram_def)
  show "ld32 (ram_of udp_ram d) (0x2007C000 + 8 * of_nat k) = udp_tx_buffer k" if "k < 4"
    unfolding ping_image_words(1) [OF that, symmetric] using image udp_desc_kept(1) [OF that]
    by (intro ld32_local) (simp add: udp_ram_def)
  show "wants_answer no_icmp (ram_of udp_ram d) (udp_rx_buffer (i mod 4)) = ping_request i" for i
    unfolding ping_request_def
    by (rule wants_local) (simp add: udp_ram_def image udp_frame_kept)
  show "responder_store no_icmp (mac_addr responder_buffers) (udp_rx_buffer (i mod 4)) (udp_tx_buffer k) (ram_of udp_ram d) a =
      ram_of udp_ram d a" if "ping_request i" "k < 4" "a \<notin> udp_written" for i k a
    using ping_reply_stays [of "udp_memory d" k a "mac_addr responder_buffers"] image that ping_only_first [of i]
    by (simp add: udp_ram_def)
  show "(\<forall>a'. a' \<notin> udp_written \<longrightarrow> udp_memory (dev_wr responder_device a v d) a' = ping_image a') \<and>
      ring_back (rx_ring (dev_wr responder_device a v d)) + sum_list (schedule (rx_ring (dev_wr responder_device a v d)))
        \<le> ring_back (rx_ring d) + sum_list (schedule (rx_ring d))"
    if "a \<in> led_regs \<union> {EMAC_IntClear}" for a v
    using quiet_regs [OF that] image by (simp add: responder_rd udp_rd tx_ring_wr_keeps)
qed (simp_all add: responder_rd not_status udp_model.size udp_model.rd_number udp_model.rd_produce udp_model.rd_consume
    udp_model.rd_bases udp_model.rd_moves udp_model.wr_produce udp_model.store udp_model.own_rd udp_model.own_wr
    udp_model.rx.size udp_model.rx.rd_number udp_model.rx.rd_consume udp_model.rx.rd_produce udp_model.rx.rd_bases
    udp_model.rx.rd_moves udp_model.rx.wr_consume,
    simp_all add: udp_rd udp_ram_def reg_addr ring_wr_keeps tx_ring_wr_keeps [simplified reg_addr] ring_total)

interpretation responder_model: responder_rings responder_device 4 "\<lambda>d. ring_back (tx_ring d)" "\<lambda>d. ring_front (tx_ring d)"
  "0x2007C000" "0x2007C040" udp_ram UNIV 4 "\<lambda>d. ring_front (rx_ring d)" "\<lambda>d. ring_back (rx_ring d)"
  "0x2007C080" "0x2007C0C0" responder_buffers no_icmp "\<lambda>d. \<forall>a. a \<notin> udp_written \<longrightarrow> udp_memory d a = ping_image a"
  "\<lambda>d. ring_back (rx_ring d) + sum_list (schedule (rx_ring d))" udp_rx_buffer udp_tx_buffer ping_request udp_written
  by (rule responder_model)

section \<open>Properties\<close>

text \<open>C19. The interrupt handler of the responder on its two rings, under three conditions. The frames that wait, and
  those that come in while the handler runs, stay as they were received until they are looked at (in the program's receive
  buffers, whose rows are 8 bytes apart, that is so only while no second frame waits). The echo requests among them have
  lengths the handler serves, so that each answer stays in the transmit buffers (a request with a length below or
  above makes the handler write elsewhere; its length is not tested). And the line falls silent sooner or later.
  When a frame was received the handler then returns; by then every frame that waited has been looked at once, at most
  one answer was handed over for each of the frames that want one (ARP requests and echo requests for the device) and none
  for others; and such a frame stays without an answer only when the transmit ring was full.\<close>

theorem responder_requests_served:
  assumes "responder_rings D tn handed gone tdb tsb M own rn processed received rdb rsb S g ready arrivals pkt tbuf request W"
    and "ready d" and "ring_ok tn (gone d) (handed d)" and "ring_ok rn (processed d) (received d)"
    and "fst (dev_rd D EMAC_IntStatus d) AND RFLPC_ETH_IRQ_EN_RX_DONE \<noteq> 0"
  shows "\<exists>d'. responder_handler D M S g d = Some d' \<and> received d \<le> processed d' \<and> ring_ok tn (gone d') (handed d') \<and>
    (let asked = length (filter request [processed d..<processed d']) in
      handed d' \<le> handed d + asked \<and>
      handed d + min asked (ring_free tn (gone d) (handed d)) \<le> handed d')"
  by (rule responder_rings.handler_numbers [OF assms])

lemma responder_requests_served_witness:
  "\<exists>d'. responder_handler responder_device udp_ram responder_buffers no_icmp
      \<lparr>tx_ring = \<lparr>ring_front = 2, ring_back = 3, schedule = []\<rparr>,
       rx_ring = \<lparr>ring_front = 4, ring_back = 6, schedule = [0, 0, 0, 1]\<rparr>, udp_memory = ping_image\<rparr> = Some d' \<and>
    6 \<le> ring_front (rx_ring d') \<and> 4 \<le> ring_back (tx_ring d')"
proof -
  let ?d = "\<lparr>tx_ring = \<lparr>ring_front = 2, ring_back = 3, schedule = []\<rparr>,
       rx_ring = \<lparr>ring_front = 4, ring_back = 6, schedule = [0, 0, 0, 1]\<rparr>, udp_memory = ping_image\<rparr>"
  have ok: "ring_ok 4 (ring_front (tx_ring ?d)) (ring_back (tx_ring ?d))"
    "ring_ok 4 (ring_front (rx_ring ?d)) (ring_back (rx_ring ?d))" by (simp_all add: ring_ok_def)
  have irq: "fst (dev_rd responder_device EMAC_IntStatus ?d) AND RFLPC_ETH_IRQ_EN_RX_DONE \<noteq> 0"
    by (simp add: responder_rd RFLPC_ETH_IRQ_EN_RX_DONE_def)
  obtain d' where d': "responder_handler responder_device udp_ram responder_buffers no_icmp ?d = Some d'"
      "6 \<le> ring_front (rx_ring d')"
    and served: "3 + min (length (filter ping_request [4..<ring_front (rx_ring d')])) (ring_free 4 2 3) \<le> ring_back (tx_ring d')"
    using responder_requests_served [OF responder_model _ ok irq] by (auto simp: Let_def)
  have "[4..<ring_front (rx_ring d')] = 4 # [5..<ring_front (rx_ring d')]"
    using d'(2) by (simp add: upt_conv_Cons)
  then have "4 \<le> ring_back (tx_ring d')"
    using served by (simp add: ping_only_first ring_free_def)
  with d' show ?thesis by blast
qed

text \<open>The set-up of the responder returns when a cable is plugged in and the negotiations of the PHY then end,
  however long they take: the three handlers are in the vector table, the receive interrupt is enabled and the base registers point at the two rings of eight.\<close>

lemma responder_set_up:
  assumes "net_start D A phy M own plugged" and "plugged d"
    and "\<And>e. plugged e \<Longrightarrow> \<exists>n. phy_complete phy (phy_reads D RFLPC_ETH_PHY_BMSR n e)"
  shows "\<exists>d'. responder_ethernet D M S system_clock eth_h rit_h serial_h (v, d) =
      Some (v[44 := eth_h, 45 := rit_h, 21 := serial_h], d') \<and>
    peek D EMAC_RxDescriptor d' = rx_desc S \<and> peek D EMAC_RxStatus d' = rx_status S \<and>
    peek D EMAC_RxDescriptorNumber d' = 7 \<and> peek D EMAC_TxDescriptor d' = tx_desc S \<and>
    peek D EMAC_TxStatus d' = tx_status S \<and> peek D EMAC_TxDescriptorNumber d' = 7 \<and>
    peek D EMAC_IntEnable d' = RFLPC_ETH_IRQ_EN_RX_DONE"
  by (rule net_start.responder_starts [OF assms])

end
