(* ===== verification/Lcd.thy ===== *)
theory Lcd
  imports Spi Gpio TinyMem
begin

text \<open>
  \<^verbatim>\<open>external_libs/nhd_spi_lcd/nhd_spi_lcd.c\<close>: the driver of a small display on an SPI port, with a chip
  select line and a line \<open>A0\<close> that tells commands from data. The contract of the wires is the locale
  \<open>lcd_wires\<close>: it joins the queue of the SPI port with the levels of a GPIO port, since a frame
  means what the lines say while it is shifted out.
\<close>

section \<open>The driver\<close>

record nhd_display =
  reset_pin :: rflpc_pin_t
  a0_pin :: rflpc_pin_t
  cs_pin :: rflpc_pin_t
  lcd_port :: rflpc_spi_t
  display_size :: u16

text \<open>The loop that looks for the clock divider; \<^verbatim>\<open>pre_scale\<close> is an \<^verbatim>\<open>int\<close> that stays small.\<close>

function pre_scale_loop :: "nat \<Rightarrow> nat \<Rightarrow> nat" where
  "pre_scale_loop clk pre_scale =
     (if clk div (pre_scale * 2) > 20000000 then pre_scale_loop clk (pre_scale + 2) else pre_scale)"
  by auto
termination
proof (relation "measure (\<lambda>(clk, p). clk - p)")
  fix clk p :: nat
  assume "clk div (p * 2) > 20000000"
  moreover have "clk div (p * 2) * (p * 2) \<le> clk" by (rule div_times_less_eq_dividend)
  moreover have "p * 2 \<le> clk div (p * 2) * (p * 2)"
    using calculation(1) by (cases "clk div (p * 2)") auto
  moreover have "p \<noteq> 0" using calculation(1) by (cases p) auto
  ultimately have "p < clk" by linarith
  then show "((clk, p + 2), clk, p) \<in> measure (\<lambda>(clk, p). clk - p)" by simp
qed simp


declare pre_scale_loop.simps [simp del]

definition get_pre_scale_value :: "u32 \<Rightarrow> nat" where
  "get_pre_scale_value system_clock = pre_scale_loop (unat (rflpc_clock_get_system_clock system_clock)) 6"

text \<open>\<^verbatim>\<open>while (!rflpc_spi_idle(_spi_port));\<close>\<close>

definition wait_spi_idle :: "'d device \<Rightarrow> rflpc_spi_t \<Rightarrow> 'd \<Rightarrow> 'd option" where
  "wait_spi_idle D port d =
     map_option snd (poll D (SSP_SR (rflpc_spi_get_base_addr port)) (\<lambda>x. x AND 0x10 = 0) d)"

definition lcd_cmd :: "'d device \<Rightarrow> nhd_display \<Rightarrow> u8 \<Rightarrow> 'd \<Rightarrow> 'd option" where
  "lcd_cmd D L cmd d =
     (let d = rflpc_gpio_clr_pin D (a0_pin L) d;
          d = rflpc_gpio_clr_pin D (cs_pin L) d
      in case rflpc_spi_write D (lcd_port L) (ucast cmd) d of
           None \<Rightarrow> None
         | Some d \<Rightarrow> map_option (rflpc_gpio_set_pin D (cs_pin L)) (wait_spi_idle D (lcd_port L) d))"

text \<open>\<^verbatim>\<open>while (size--) rflpc_spi_write(_spi_port, *data++);\<close>\<close>

fun lcd_write_bytes :: "'d device \<Rightarrow> nhd_display \<Rightarrow> mem \<Rightarrow> addr \<Rightarrow> nat \<Rightarrow> 'd \<Rightarrow> 'd option" where
  "lcd_write_bytes D L m data 0 d = Some d"
| "lcd_write_bytes D L m data (Suc size_left) d =
     (case rflpc_spi_write D (lcd_port L) (ucast (m data)) d of
        None \<Rightarrow> None
      | Some d \<Rightarrow> lcd_write_bytes D L m (data + 1) size_left d)"

definition lcd_multiple_data :: "'d device \<Rightarrow> nhd_display \<Rightarrow> mem \<Rightarrow> addr \<Rightarrow> u16 \<Rightarrow> 'd \<Rightarrow> 'd option" where
  "lcd_multiple_data D L m data len d =
     (let d = rflpc_gpio_set_pin D (a0_pin L) d;
          d = rflpc_gpio_clr_pin D (cs_pin L) d
      in case lcd_write_bytes D L m data (unat len) d of
           None \<Rightarrow> None
         | Some d \<Rightarrow> map_option (rflpc_gpio_set_pin D (cs_pin L)) (wait_spi_idle D (lcd_port L) d))"

definition lcd_single_data :: "'d device \<Rightarrow> nhd_display \<Rightarrow> u8 \<Rightarrow> 'd \<Rightarrow> 'd option" where
  "lcd_single_data D L data d =
     (let d = rflpc_gpio_set_pin D (a0_pin L) d;
          d = rflpc_gpio_clr_pin D (cs_pin L) d
      in case rflpc_spi_write D (lcd_port L) (ucast data) d of
           None \<Rightarrow> None
         | Some d \<Rightarrow> map_option (rflpc_gpio_set_pin D (cs_pin L)) (wait_spi_idle D (lcd_port L) d))"

text \<open>The commands of the controller. A command of several bytes is a list of them.\<close>

definition LCD_TURN_OFF :: "u8 list" where "LCD_TURN_OFF = [0xAE]"
definition LCD_TURN_ON :: "u8 list" where "LCD_TURN_ON = [0xAF]"
definition LCD_SELECT_PAGE :: "nat \<Rightarrow> u8 list" where
  "LCD_SELECT_PAGE p = [0xB0 OR (of_nat p AND 0xF)]"
definition LCD_SELECT_COLUMN :: "nat \<Rightarrow> u8 list" where
  "LCD_SELECT_COLUMN c = [0x10 OR (of_nat (c div 16) AND 0xF), of_nat c AND 0xF]"
definition LCD_SELECT_LINE :: "nat \<Rightarrow> u8 list" where
  "LCD_SELECT_LINE l = [0x40 OR (of_nat l AND 0x3F)]"
definition LCD_START_PAGE :: "nat \<Rightarrow> u8 list" where
  "LCD_START_PAGE p = LCD_SELECT_PAGE p @ LCD_SELECT_COLUMN 0 @ LCD_SELECT_LINE 0"
definition LCD_POWER_MODE :: "u8 \<Rightarrow> u8 \<Rightarrow> u8 \<Rightarrow> u8 list" where
  "LCD_POWER_MODE booster regulator follower =
     [0x28 OR shl (booster AND 1) 2 OR shl (regulator AND 1) 1 OR (follower AND 1)]"
definition LCD_ALL_PIXELS_ON :: "u8 list" where "LCD_ALL_PIXELS_ON = [0xA5]"
definition LCD_ALL_PIXELS_OFF :: "u8 list" where "LCD_ALL_PIXELS_OFF = [0xA4]"
definition LCD_BRIGHTNESS :: "u8 \<Rightarrow> u8 list" where "LCD_BRIGHTNESS b = [0x81, b AND 0x3F]"
definition LCD_SOFT_RESET :: "u8 list" where "LCD_SOFT_RESET = [0xE2]"
definition LCD_NOP :: "u8 list" where "LCD_NOP = [0xE3]"

text \<open>One \<^verbatim>\<open>_lcd_cmd\<close> after the other.\<close>

fun lcd_cmds :: "'d device \<Rightarrow> nhd_display \<Rightarrow> u8 list \<Rightarrow> 'd \<Rightarrow> 'd option" where
  "lcd_cmds D L [] d = Some d"
| "lcd_cmds D L (c # cs) d = (case lcd_cmd D L c d of None \<Rightarrow> None | Some d \<Rightarrow> lcd_cmds D L cs d)"

text \<open>The delays of the reset, which only pass time, are left out.\<close>

definition nhd_spi_lcd_init ::
  "'d device \<Rightarrow> u32 \<Rightarrow> u16 \<Rightarrow> rflpc_pin_t \<Rightarrow> rflpc_pin_t \<Rightarrow> rflpc_pin_t \<Rightarrow> rflpc_spi_t \<Rightarrow> 'd \<Rightarrow>
   (nhd_display \<times> 'd) option" where
  "nhd_spi_lcd_init D system_clock display_size' reset a0 cs port d =
     (let L = \<lparr>reset_pin = reset, a0_pin = a0, cs_pin = cs, lcd_port = port, display_size = display_size'\<rparr>;
          d = rflpc_spi_init D port RFLPC_SPI_MASTER RFLPC_CCLK 8 (of_nat (get_pre_scale_value system_clock)) 2
                (RFLPC_SPI_CPOL_FALLING_EDGE OR RFLPC_SPI_CPHA_PHASE_FIRST_EDGE) d;
          d = rflpc_gpio_set_pin_mode_output D reset 1 d;
          d = rflpc_gpio_set_pin_mode_output D a0 0 d;
          d = rflpc_gpio_set_pin_mode_output D cs 1 d;
          d = rflpc_gpio_clr_pin D reset d;
          d = rflpc_gpio_set_pin D reset d
      in map_option (Pair L) (lcd_cmds D L (LCD_TURN_OFF @ [0x22] @ [0xC8] @ LCD_POWER_MODE 1 1 1 @
           LCD_TURN_ON @ LCD_ALL_PIXELS_OFF @ LCD_START_PAGE 0) d))"

definition DISPLAY_SIZE_HEIGHT :: "u16 \<Rightarrow> nat" where "DISPLAY_SIZE_HEIGHT d = unat (shr d 8 AND 0xFF)"
definition DISPLAY_SIZE_WIDTH :: "u16 \<Rightarrow> nat" where "DISPLAY_SIZE_WIDTH d = unat (d AND 0xFF)"
definition DISPLAY_PAGE_COUNT :: "u16 \<Rightarrow> nat" where "DISPLAY_PAGE_COUNT d = DISPLAY_SIZE_HEIGHT d div 8"
definition NHD_MAKE_SIZE :: "u16 \<Rightarrow> u16 \<Rightarrow> u16" where "NHD_MAKE_SIZE w h = shl h 8 OR w"

definition nhd_spi_lcd_clear :: "'d device \<Rightarrow> nhd_display \<Rightarrow> 'd \<Rightarrow> 'd option" where
  "nhd_spi_lcd_clear D L =
     for_each (\<lambda>p d. case lcd_cmds D L (LCD_START_PAGE p) d of
         None \<Rightarrow> None
       | Some d \<Rightarrow> for_each (\<lambda>i. lcd_single_data D L 0) [0..<DISPLAY_SIZE_WIDTH (display_size L)] d)
       [0..<DISPLAY_PAGE_COUNT (display_size L)]"

definition nhd_spi_lcd_display_buffer :: "'d device \<Rightarrow> nhd_display \<Rightarrow> mem \<Rightarrow> addr \<Rightarrow> 'd \<Rightarrow> 'd option" where
  "nhd_spi_lcd_display_buffer D L m buffer =
     for_each (\<lambda>p d. case lcd_cmds D L (LCD_START_PAGE p) d of
         None \<Rightarrow> None
       | Some d \<Rightarrow> lcd_multiple_data D L m (buffer + of_nat (p * DISPLAY_SIZE_WIDTH (display_size L)))
           (of_nat (DISPLAY_SIZE_WIDTH (display_size L))) d)
       [0..<DISPLAY_PAGE_COUNT (display_size L)]"

section \<open>What the display receives\<close>

text \<open>A frame with chip select high is ignored; the others are commands or data after the level of
  \<open>A0\<close>.\<close>

definition lcd_sees :: "nhd_display \<Rightarrow> u32 \<times> u16 \<Rightarrow> (bool \<times> u8) list" where
  "lcd_sees L f = (if bit (fst f) (RFLPC_PIN_GET_PIN (cs_pin L)) then []
     else [(bit (fst f) (RFLPC_PIN_GET_PIN (a0_pin L)), ucast (snd f))])"

definition lcd_stream :: "nhd_display \<Rightarrow> (u32 \<times> u16) list \<Rightarrow> (bool \<times> u8) list" where
  "lcd_stream L fs = concat (map (lcd_sees L) fs)"

text \<open>The bytes of a page with its commands, and of a picture.\<close>

definition page_stream :: "nat \<Rightarrow> u8 list \<Rightarrow> (bool \<times> u8) list" where
  "page_stream p bytes = [(False, 0xB0 OR (of_nat p AND 0xF)), (False, 0x10), (False, 0), (False, 0x40)] @
     map (Pair True) bytes"

text \<open>The display is wired to the SPI port at \<open>b\<close> and to two pins of the GPIO port at \<open>gb\<close>.\<close>

definition lcd_connected :: "addr \<Rightarrow> addr \<Rightarrow> nhd_display \<Rightarrow> bool" where
  "lcd_connected b gb L \<longleftrightarrow> rflpc_spi_get_base_addr (lcd_port L) = b \<and>
     RFLPC_GPIO_BASE (a0_pin L) = gb \<and> RFLPC_GPIO_BASE (cs_pin L) = gb \<and>
     RFLPC_PIN_GET_PIN (a0_pin L) \<noteq> RFLPC_PIN_GET_PIN (cs_pin L)"

section \<open>The contract of the wires\<close>

text \<open>
  \<open>latch\<close> is the output of the GPIO port with the two lines, \<open>F\<close> the queue of the SPI port and what it
  sent. \<open>shown\<close> has every frame sent with the levels at that moment. Bit 4 of the status register is
  clear when nothing is left to send. A write to the GPIO port does not reach the SPI port, and the
  other way round.
\<close>

locale lcd_wires = spi: spi_port D b F + gpio_port D gb latch msk pins
  for D :: "'d device" and b :: addr and F :: "'d \<Rightarrow> spi_state" and gb :: addr
    and latch msk pins :: "'d \<Rightarrow> u32" +
  fixes shown :: "'d \<Rightarrow> (u32 \<times> u16) list"
  assumes shown_rd: "shown (snd (dev_rd D a d)) =
      shown d @ map (Pair (latch d)) (drop (length (out (F d))) (out (F (snd (dev_rd D a d)))))"
    and shown_wr: "shown (dev_wr D a v d) = shown d"
    and gpio_queue: "a \<in> port_regs gb \<Longrightarrow> F (dev_wr D a v d) = F d"
    and spi_reg: "SSP_DR b \<notin> port_regs gb"
    and idle: "\<not> bit (fst (dev_rd D (SSP_SR b) d)) 4 \<Longrightarrow> tx (F (snd (dev_rd D (SSP_SR b) d))) = []"
    and idle_comes: "\<exists>k. \<not> bit (peek D (SSP_SR b) (after_reads D (SSP_SR b) k d)) 4"
begin

text \<open>What was sent, and what is queued as it will be sent when the lines stay as they are.\<close>

definition wire :: "'d \<Rightarrow> (u32 \<times> u16) list" where
  "wire d = shown d @ map (Pair (latch d)) (tx (F d))"

lemma wire_rd: "wire (snd (dev_rd D a d)) = wire d"
proof -
  obtain k where k: "k \<le> length (tx (F d))" "F (snd (dev_rd D a d)) =
      (F d)\<lparr>out := out (F d) @ take k (tx (F d)), tx := drop k (tx (F d))\<rparr>"
    using spi.rd_moves [of d a] by (auto simp: spi_moves_def)
  have "map (Pair (latch d)) (take k (tx (F d))) @ map (Pair (latch d)) (drop k (tx (F d))) =
      map (Pair (latch d)) (tx (F d))"
    by (simp only: map_append [symmetric] append_take_drop_id)
  then show ?thesis by (simp add: wire_def shown_rd keep_rd k(2))
qed

lemma after_rd: "wire (snd (dev_rd D a d)) = wire d \<and> latch (snd (dev_rd D a d)) = latch d"
  by (simp add: wire_rd keep_rd)

lemma write_wire:
  assumes "rflpc_spi_get_base_addr port = b"
  shows "\<exists>d'. rflpc_spi_write D port v d = Some d' \<and> wire d' = wire d @ [(latch d, v)] \<and> latch d' = latch d"
proof -
  let ?P = "\<lambda>e. wire e = wire d \<and> latch e = latch d"
  obtain k where "bit (fst (dev_rd D (SSP_SR b) (after_reads D (SSP_SR b) k d))) 1" using spi.sends by blast
  then obtain x e where e: "poll D (SSP_SR b) (\<lambda>x. bit x 1) d = Some (x, e)"
    using poll_terminates [of "\<lambda>x. bit x 1" D "SSP_SR b" k d] by (auto simp: peek_def)
  obtain f where f: "?P f" "dev_rd D (SSP_SR b) f = (x, e)" "bit x 1"
    using poll_last [of ?P, OF _ _ e] after_rd by auto
  have "length (tx (F e)) < 8" using spi.rd_room [of f] f by simp
  from spi.wr_frame [OF this] have "F (dev_wr D (SSP_DR b) (ucast v) e) = (F e)\<lparr>tx := tx (F e) @ [v]\<rparr>"
    by (simp add: ucast_u16)
  moreover have "latch (dev_wr D (SSP_DR b) (ucast v) e) = latch e" by (rule keep_wr [OF spi_reg])
  moreover have "?P e" using f(1,2) after_rd [of "SSP_SR b" f] by simp
  moreover have "rflpc_spi_write D port v d = Some (dev_wr D (SSP_DR b) (ucast v) e)"
    using e by (simp only: rflpc_spi_write_def spi.room assms option.case prod.case)
  ultimately show ?thesis by (auto simp: wire_def shown_wr)
qed

lemma wait_idle:
  assumes "rflpc_spi_get_base_addr port = b"
  shows "\<exists>d'. wait_spi_idle D port d = Some d' \<and> shown d' = wire d \<and> tx (F d') = [] \<and> latch d' = latch d"
proof -
  let ?P = "\<lambda>e. wire e = wire d \<and> latch e = latch d" and ?p = "\<lambda>x :: u32. x AND 0x10 = 0"
  have p: "?p x \<longleftrightarrow> \<not> bit x 4" for x using and_two_power_eq_zero [of x 4] by simp
  obtain k where "?p (peek D (SSP_SR b) (after_reads D (SSP_SR b) k d))" using idle_comes p by blast
  from poll_terminates [of ?p, OF this] obtain x e where e: "poll D (SSP_SR b) ?p d = Some (x, e)" by blast
  obtain f where f: "?P f" "dev_rd D (SSP_SR b) f = (x, e)" "?p x"
    using poll_last [of ?P, OF _ _ e] after_rd by auto
  have "tx (F e) = []" using idle [of f] f p by simp
  moreover have "?P e" using f(1,2) after_rd [of "SSP_SR b" f] by simp
  ultimately show ?thesis using e by (auto simp: wait_spi_idle_def assms wire_def)
qed

lemma pin_ops:
  assumes "RFLPC_GPIO_BASE pin = gb"
  shows "F (rflpc_gpio_set_pin D pin d) = F d" "F (rflpc_gpio_clr_pin D pin d) = F d"
    "shown (rflpc_gpio_set_pin D pin d) = shown d" "shown (rflpc_gpio_clr_pin D pin d) = shown d"
    "bit (latch (rflpc_gpio_set_pin D pin d)) k \<longleftrightarrow> k = RFLPC_PIN_GET_PIN pin \<or> bit (latch d) k"
    "bit (latch (rflpc_gpio_clr_pin D pin d)) k \<longleftrightarrow> k \<noteq> RFLPC_PIN_GET_PIN pin \<and> bit (latch d) k"
  using pin_lt [of pin] out_set_pin [OF assms] out_clr_pin [OF assms]
  by (simp_all only: bit_or_one bit_and_not_one)
    (auto simp: rflpc_gpio_set_pin_def rflpc_gpio_clr_pin_def Let_def assms gpio_queue shown_wr port_regs_def)

lemma write_bytes:
  assumes "rflpc_spi_get_base_addr (lcd_port L) = b"
  shows "\<exists>d'. lcd_write_bytes D L m a n d = Some d' \<and> latch d' = latch d \<and>
    wire d' = wire d @ map (\<lambda>i. (latch d, ucast (m (a + of_nat i)))) [0..<n]"
proof (induction n arbitrary: a d)
  case (Suc n)
  obtain e where e: "rflpc_spi_write D (lcd_port L) (ucast (m a)) d = Some e"
      "wire e = wire d @ [(latch d, ucast (m a))]" "latch e = latch d"
    using write_wire [OF assms] by blast
  obtain d' where d': "lcd_write_bytes D L m (a + 1) n e = Some d'" "latch d' = latch e"
      "wire d' = wire e @ map (\<lambda>i. (latch e, ucast (m (a + 1 + of_nat i)))) [0..<n]"
    using Suc by blast
  have "[0..<Suc n] = 0 # map Suc [0..<n]" by (simp add: map_Suc_upt upt_conv_Cons del: upt_Suc)
  then show ?case using e d' by (simp add: add.assoc comp_def del: upt_Suc)
qed simp

text \<open>A transfer with the queue empty: the lines are set, the frames go through the port, and the chip is
  deselected only when the last one is out.\<close>

lemma transfer:
  assumes con: "lcd_connected b gb L" and empty: "tx (F d) = []"
    and set: "d0 = (if a0 then rflpc_gpio_set_pin else rflpc_gpio_clr_pin) D (a0_pin L) d"
    and put: "\<And>e. \<exists>e'. put e = Some e' \<and> latch e' = latch e \<and> wire e' = wire e @ map (\<lambda>v. (latch e, ucast v)) vs"
  shows "\<exists>d'. (case put (rflpc_gpio_clr_pin D (cs_pin L) d0) of
        None \<Rightarrow> None
      | Some d \<Rightarrow> map_option (rflpc_gpio_set_pin D (cs_pin L)) (wait_spi_idle D (lcd_port L) d)) = Some d' \<and>
    tx (F d') = [] \<and> lcd_stream L (shown d') = lcd_stream L (shown d) @ map (Pair a0) vs"
proof -
  note con = con [unfolded lcd_connected_def]
  note ops = pin_ops [of "a0_pin L"] pin_ops [of "cs_pin L"]
  define e where "e = rflpc_gpio_clr_pin D (cs_pin L) d0"
  have e: "shown e = shown d" "tx (F e) = []" "\<not> bit (latch e) (RFLPC_PIN_GET_PIN (cs_pin L))"
      "bit (latch e) (RFLPC_PIN_GET_PIN (a0_pin L)) = a0"
    using con empty by (auto simp: e_def set ops)
  obtain f where f: "put e = Some f" "latch f = latch e" "wire f = wire e @ map (\<lambda>v. (latch e, ucast v)) vs"
    using put by blast
  obtain g where g: "wait_spi_idle D (lcd_port L) f = Some g" "shown g = wire f" "tx (F g) = []"
    using wait_idle con by blast
  have sees: "lcd_sees L (latch e, ucast v) = [(a0, v)]" for v
    using e(3,4) by (simp add: lcd_sees_def) (rule bit_word_eqI, simp add: bit_simps)
  have "lcd_stream L (shown g) = lcd_stream L (shown d) @ map (Pair a0) vs"
    using f(3) g(2) e by (simp add: wire_def lcd_stream_def comp_def sees)
  then show ?thesis
    using f(1) g con by (simp add: e_def ops)
qed

lemma cmd_sent:
  assumes "lcd_connected b gb L" and "tx (F d) = []"
  shows "\<exists>d'. lcd_cmd D L c d = Some d' \<and> tx (F d') = [] \<and>
    lcd_stream L (shown d') = lcd_stream L (shown d) @ [(False, c)]"
  using transfer [OF assms, of "rflpc_gpio_clr_pin D (a0_pin L) d" False "rflpc_spi_write D (lcd_port L) (ucast c)" "[c]"]
    write_wire [of "lcd_port L" "ucast c"] assms(1)
  by (simp add: lcd_cmd_def Let_def lcd_connected_def) blast

lemma data_sent:
  assumes "lcd_connected b gb L" and "tx (F d) = []"
  shows "\<exists>d'. lcd_multiple_data D L m a n d = Some d' \<and> tx (F d') = [] \<and>
    lcd_stream L (shown d') = lcd_stream L (shown d) @ map (\<lambda>i. (True, m (a + of_nat i))) [0..<unat n]"
  using transfer [OF assms, of "rflpc_gpio_set_pin D (a0_pin L) d" True "lcd_write_bytes D L m a (unat n)"
      "map (\<lambda>i. m (a + of_nat i)) [0..<unat n]"]
    write_bytes [of L m a "unat n"] assms(1)
  by (simp add: lcd_multiple_data_def Let_def lcd_connected_def comp_def)

lemma byte_sent:
  assumes "lcd_connected b gb L" and "tx (F d) = []"
  shows "\<exists>d'. lcd_single_data D L v d = Some d' \<and> tx (F d') = [] \<and>
    lcd_stream L (shown d') = lcd_stream L (shown d) @ [(True, v)]"
  using transfer [OF assms, of "rflpc_gpio_set_pin D (a0_pin L) d" True "rflpc_spi_write D (lcd_port L) (ucast v)" "[v]"]
    write_wire [of "lcd_port L" "ucast v"] assms(1)
  by (simp add: lcd_single_data_def Let_def lcd_connected_def) blast

lemma for_each_sent:
  assumes "\<And>x d. x \<in> set xs \<Longrightarrow> tx (F d) = [] \<Longrightarrow> \<exists>d'. body x d = Some d' \<and> tx (F d') = [] \<and>
      lcd_stream L (shown d') = lcd_stream L (shown d) @ g x"
    and "tx (F d) = []"
  shows "\<exists>d'. for_each body xs d = Some d' \<and> tx (F d') = [] \<and>
    lcd_stream L (shown d') = lcd_stream L (shown d) @ concat (map g xs)"
  using assms
proof (induction xs arbitrary: d)
  case (Cons x xs)
  obtain e where e: "body x d = Some e" "tx (F e) = []" "lcd_stream L (shown e) = lcd_stream L (shown d) @ g x"
    using Cons.prems(1) [of x d] Cons.prems(2) by auto
  have "\<exists>d'. for_each body xs e = Some d' \<and> tx (F d') = [] \<and>
      lcd_stream L (shown d') = lcd_stream L (shown e) @ concat (map g xs)"
    using Cons.prems(1) e(2) by (intro Cons.IH) auto
  with e show ?case by auto
qed simp

lemma cmds_sent:
  assumes "lcd_connected b gb L" and "tx (F d) = []"
  shows "\<exists>d'. lcd_cmds D L cs d = Some d' \<and> tx (F d') = [] \<and>
    lcd_stream L (shown d') = lcd_stream L (shown d) @ map (Pair False) cs"
  using assms(2)
proof (induction cs arbitrary: d)
  case (Cons c cs)
  obtain e where e: "lcd_cmd D L c d = Some e" "tx (F e) = []"
      "lcd_stream L (shown e) = lcd_stream L (shown d) @ [(False, c)]"
    using cmd_sent [OF assms(1) Cons.prems] by blast
  from Cons.IH [OF e(2)] e show ?case by auto
qed simp

lemma start_page: "map (Pair False) (LCD_START_PAGE p) = page_stream p []"
  by (simp add: LCD_START_PAGE_def LCD_SELECT_PAGE_def LCD_SELECT_COLUMN_def LCD_SELECT_LINE_def page_stream_def)

lemma width_bound: "DISPLAY_SIZE_WIDTH s \<le> 255"
proof -
  have "DISPLAY_SIZE_WIDTH s = unat s mod 256"
    using unat_and_mask [of s 8] by (simp add: DISPLAY_SIZE_WIDTH_def mask_eq_exp_minus_1)
  then show ?thesis by simp
qed

lemma picture_sent:
  assumes con: "lcd_connected b gb L" and "tx (F d) = []" and w: "w = DISPLAY_SIZE_WIDTH (display_size L)"
  shows "\<exists>d'. nhd_spi_lcd_display_buffer D L m buffer d = Some d' \<and> tx (F d') = [] \<and>
    lcd_stream L (shown d') = lcd_stream L (shown d) @
      concat (map (\<lambda>p. page_stream p (map (\<lambda>i. m (buffer + of_nat (p * w + i))) [0..<w]))
        [0..<DISPLAY_PAGE_COUNT (display_size L)])"
  unfolding nhd_spi_lcd_display_buffer_def
proof (rule for_each_sent [OF _ assms(2)])
  fix p d assume "tx (F d) = []"
  then obtain e where e: "lcd_cmds D L (LCD_START_PAGE p) d = Some e" "tx (F e) = []"
      "lcd_stream L (shown e) = lcd_stream L (shown d) @ page_stream p []"
    using cmds_sent [OF con] start_page by metis
  have "unat (of_nat w :: u16) = w" using width_bound [of "display_size L"] w by (simp add: unat_of_nat)
  then show "\<exists>d'. (case lcd_cmds D L (LCD_START_PAGE p) d of None \<Rightarrow> None
      | Some d \<Rightarrow> lcd_multiple_data D L m (buffer + of_nat (p * DISPLAY_SIZE_WIDTH (display_size L)))
          (of_nat (DISPLAY_SIZE_WIDTH (display_size L))) d) = Some d' \<and> tx (F d') = [] \<and>
    lcd_stream L (shown d') = lcd_stream L (shown d) @
      page_stream p (map (\<lambda>i. m (buffer + of_nat (p * w + i))) [0..<w])"
    using data_sent [OF con e(2), of m "buffer + of_nat (p * w)" "of_nat w"] e
    by (simp add: w [symmetric] page_stream_def comp_def add.assoc)
qed

lemma cleared:
  assumes con: "lcd_connected b gb L" and "tx (F d) = []"
  shows "\<exists>d'. nhd_spi_lcd_clear D L d = Some d' \<and> tx (F d') = [] \<and>
    lcd_stream L (shown d') = lcd_stream L (shown d) @
      concat (map (\<lambda>p. page_stream p (replicate (DISPLAY_SIZE_WIDTH (display_size L)) 0))
        [0..<DISPLAY_PAGE_COUNT (display_size L)])"
  unfolding nhd_spi_lcd_clear_def
proof (rule for_each_sent [OF _ assms(2)])
  let ?w = "DISPLAY_SIZE_WIDTH (display_size L)"
  fix p d assume "tx (F d) = []"
  then obtain e where e: "lcd_cmds D L (LCD_START_PAGE p) d = Some e" "tx (F e) = []"
      "lcd_stream L (shown e) = lcd_stream L (shown d) @ page_stream p []"
    using cmds_sent [OF con] start_page by metis
  have "\<exists>d'. for_each (\<lambda>i. lcd_single_data D L 0) [0..<?w] e = Some d' \<and> tx (F d') = [] \<and>
      lcd_stream L (shown d') = lcd_stream L (shown e) @ concat (map (\<lambda>i. [(True, 0)]) [0..<?w])"
    by (rule for_each_sent [OF byte_sent [OF con] e(2)])
  moreover have "concat (map (\<lambda>i. [(True, 0 :: u8)]) [0..<?w]) = map (Pair True) (replicate ?w 0)"
    by (induction ?w) (simp_all add: map_replicate_const replicate_append_same)
  ultimately show "\<exists>d'. (case lcd_cmds D L (LCD_START_PAGE p) d of None \<Rightarrow> None
      | Some d \<Rightarrow> for_each (\<lambda>i. lcd_single_data D L 0) [0..<?w] d) = Some d' \<and> tx (F d') = [] \<and>
    lcd_stream L (shown d') = lcd_stream L (shown d) @ page_stream p (replicate ?w 0)"
    using e by (simp add: page_stream_def)
qed

end

section \<open>A model\<close>

text \<open>The hardware shifts one frame out at every second read, with the levels the lines then have.\<close>

record lcd_state =
  lcd_queue :: spi_state
  lcd_latch :: u32
  lcd_mask :: u32
  lcd_shown :: "(u32 \<times> u16) list"
  lcd_turn :: bool

definition lcd_shift :: "lcd_state \<Rightarrow> lcd_state" where
  "lcd_shift d = (case tx (lcd_queue d) of
       [] \<Rightarrow> d
     | v # vs \<Rightarrow> if lcd_turn d
         then d\<lparr>lcd_queue := \<lparr>out = out (lcd_queue d) @ [v], tx = vs\<rparr>, lcd_shown := lcd_shown d @ [(lcd_latch d, v)]\<rparr>
         else d)\<lparr>lcd_turn := \<not> lcd_turn d\<rparr>"

definition lcd_device :: "addr \<Rightarrow> addr \<Rightarrow> lcd_state device" where
  "lcd_device b gb =
     \<lparr>dev_rd = (\<lambda>a d. let d = lcd_shift d in
        (if a = SSP_SR b then (if length (tx (lcd_queue d)) < 8 then 2 else 0) OR (if tx (lcd_queue d) = [] then 0 else 0x10)
         else if a = GPIO_FIOPIN gb then lcd_latch d AND NOT (lcd_mask d) else 0, d)),
      dev_wr = (\<lambda>a v d.
        if a = GPIO_FIOMASK gb then d\<lparr>lcd_mask := v\<rparr>
        else if a = GPIO_FIOSET gb then d\<lparr>lcd_latch := lcd_latch d OR (v AND NOT (lcd_mask d))\<rparr>
        else if a = GPIO_FIOCLR gb then d\<lparr>lcd_latch := lcd_latch d AND NOT (v AND NOT (lcd_mask d))\<rparr>
        else if a = GPIO_FIOPIN gb then d\<lparr>lcd_latch := (lcd_latch d AND lcd_mask d) OR (v AND NOT (lcd_mask d))\<rparr>
        else if a = SSP_DR b \<and> length (tx (lcd_queue d)) < 8
          then d\<lparr>lcd_queue := (lcd_queue d)\<lparr>tx := tx (lcd_queue d) @ [ucast v]\<rparr>\<rparr>
        else d),
      cpsid_i = (\<lambda>d. d), cpsie_i = (\<lambda>d. d)\<rparr>"

lemma lcd_shift_keeps:
  "lcd_latch (lcd_shift d) = lcd_latch d" "lcd_mask (lcd_shift d) = lcd_mask d"
  "lcd_turn (lcd_shift d) = (\<not> lcd_turn d)"
  by (simp_all add: lcd_shift_def split: list.splits)

lemma lcd_shift_frames:
  "\<exists>k \<le> length (tx (lcd_queue d)). lcd_queue (lcd_shift d) = (lcd_queue d)\<lparr>out := out (lcd_queue d) @ take k (tx (lcd_queue d)),
      tx := drop k (tx (lcd_queue d))\<rparr> \<and>
    lcd_shown (lcd_shift d) = lcd_shown d @ map (Pair (lcd_latch d)) (take k (tx (lcd_queue d)))"
proof (cases "lcd_turn d \<and> tx (lcd_queue d) \<noteq> []")
  case True
  then obtain v vs where "tx (lcd_queue d) = v # vs" by (cases "tx (lcd_queue d)") auto
  with True show ?thesis by (intro exI [of _ 1]) (simp add: lcd_shift_def)
next
  case False
  then show ?thesis by (intro exI [of _ 0]) (auto simp: lcd_shift_def split: list.splits)
qed

lemma lcd_two_reads:
  "length (tx (lcd_queue (after_reads (lcd_device b gb) a (2 * k) d))) \<le> length (tx (lcd_queue d)) - k"
proof (induction k arbitrary: d)
  case (Suc k)
  let ?e = "lcd_shift (lcd_shift d)"
  have "after_reads (lcd_device b gb) a (2 * Suc k) d = after_reads (lcd_device b gb) a (2 * k) ?e"
    by (simp add: lcd_device_def Let_def)
  moreover have "length (tx (lcd_queue ?e)) \<le> length (tx (lcd_queue d)) - 1"
    by (cases "lcd_turn d") (auto simp: lcd_shift_def split: list.splits)
  ultimately show ?case using Suc.IH [of ?e] by simp
qed simp

interpretation lcd_model: lcd_wires "lcd_device LPC_SSP1_BASE LPC_GPIO0_BASE" LPC_SSP1_BASE lcd_queue
  LPC_GPIO0_BASE lcd_latch lcd_mask lcd_latch lcd_shown
proof unfold_locales
  let ?D = "lcd_device LPC_SSP1_BASE LPC_GPIO0_BASE"
  have rd: "snd (dev_rd ?D a d) = lcd_shift d" for a d by (simp add: lcd_device_def Let_def)
  show "spi_moves (lcd_queue d) (lcd_queue (snd (dev_rd ?D a d)))" for a d
    using lcd_shift_frames [of d] by (auto simp: rd spi_moves_def)
  show "lcd_shown (snd (dev_rd ?D a d)) = lcd_shown d @
      map (Pair (lcd_latch d)) (drop (length (out (lcd_queue d))) (out (lcd_queue (snd (dev_rd ?D a d)))))" for a d
    using lcd_shift_frames [of d] by (auto simp: rd)
  have drained: "tx (lcd_queue (after_reads ?D (SSP_SR LPC_SSP1_BASE) (2 * length (tx (lcd_queue d))) d)) = []" for d
    using lcd_two_reads [of LPC_SSP1_BASE LPC_GPIO0_BASE "SSP_SR LPC_SSP1_BASE" "length (tx (lcd_queue d))" d] by simp
  have empty: "tx (lcd_queue (lcd_shift d)) = []" if "tx (lcd_queue d) = []" for d
    using that by (simp add: lcd_shift_def)
  have status: "fst (dev_rd ?D (SSP_SR LPC_SSP1_BASE) d) = 2" if "tx (lcd_queue d) = []" for d
    using empty [OF that] by (simp add: lcd_device_def Let_def)
  show "\<exists>k. bit (fst (dev_rd ?D (SSP_SR LPC_SSP1_BASE) (after_reads ?D (SSP_SR LPC_SSP1_BASE) k d))) 1" for d
    by (rule exI, subst status [OF drained [of d]]) (simp add: bit_numeral_rec)
  show "\<exists>k. \<not> bit (peek ?D (SSP_SR LPC_SSP1_BASE) (after_reads ?D (SSP_SR LPC_SSP1_BASE) k d)) 4" for d
    unfolding peek_def by (rule exI, subst status [OF drained [of d]]) (simp add: bit_numeral_rec)
qed (auto simp: lcd_device_def lcd_shift_keeps port_regs_def reg_addr base_defs Let_def bit_numeral_rec split: if_splits)

section \<open>Properties\<close>

text \<open>C38. Showing a picture, and clearing the display: both return, and what the display receives,
  with chip select low and the level of \<open>A0\<close> that each byte needs, is for every page its start
  commands and then the bytes of the page, in order; nothing is left in the queue of the port.\<close>

theorem lcd_picture_shown:
  assumes "lcd_wires D b F gb latch msk pins shown" and "lcd_connected b gb L" and "tx (F d) = []"
    and "w = DISPLAY_SIZE_WIDTH (display_size L)"
  shows "(\<exists>d'. nhd_spi_lcd_display_buffer D L m buffer d = Some d' \<and> tx (F d') = [] \<and>
      lcd_stream L (shown d') = lcd_stream L (shown d) @
        concat (map (\<lambda>p. page_stream p (map (\<lambda>i. m (buffer + of_nat (p * w + i))) [0..<w]))
          [0..<DISPLAY_PAGE_COUNT (display_size L)])) \<and>
    (\<exists>d'. nhd_spi_lcd_clear D L d = Some d' \<and> tx (F d') = [] \<and>
      lcd_stream L (shown d') = lcd_stream L (shown d) @
        concat (map (\<lambda>p. page_stream p (replicate w 0)) [0..<DISPLAY_PAGE_COUNT (display_size L)]))"
  using lcd_wires.picture_sent [OF assms] lcd_wires.cleared [OF assms(1-3)] assms(4) by blast

lemma lcd_picture_shown_witness:
  "\<exists>d'. nhd_spi_lcd_display_buffer (lcd_device LPC_SSP1_BASE LPC_GPIO0_BASE)
      \<lparr>reset_pin = 8, a0_pin = 6, cs_pin = 18, lcd_port = RFLPC_SPI1, display_size = NHD_MAKE_SIZE 2 16\<rparr>
      (\<lambda>a. ucast (a AND 0xF)) 0x10000007
      \<lparr>lcd_queue = \<lparr>out = [], tx = []\<rparr>, lcd_latch = 0x40000, lcd_mask = 0, lcd_shown = [], lcd_turn = False\<rparr> = Some d' \<and>
    lcd_stream \<lparr>reset_pin = 8, a0_pin = 6, cs_pin = 18, lcd_port = RFLPC_SPI1, display_size = NHD_MAKE_SIZE 2 16\<rparr>
      (lcd_shown d') =
      [(False, 0xB0), (False, 0x10), (False, 0), (False, 0x40), (True, 7), (True, 8),
       (False, 0xB1), (False, 0x10), (False, 0), (False, 0x40), (True, 9), (True, 10)]"
proof -
  let ?L = "\<lparr>reset_pin = 8, a0_pin = 6, cs_pin = 18, lcd_port = RFLPC_SPI1, display_size = NHD_MAKE_SIZE 2 16\<rparr>"
    and ?d = "\<lparr>lcd_queue = \<lparr>out = [], tx = []\<rparr>, lcd_latch = 0x40000, lcd_mask = 0, lcd_shown = [], lcd_turn = False\<rparr>"
  have con: "lcd_connected LPC_SSP1_BASE LPC_GPIO0_BASE ?L"
    by (simp add: lcd_connected_def rflpc_spi_get_base_addr_def RFLPC_GPIO_BASE_def gpio_ports_def
        RFLPC_PIN_GET_PORT_def RFLPC_PIN_GET_PIN_def)
  have w: "2 = DISPLAY_SIZE_WIDTH (display_size ?L)" and pages: "DISPLAY_PAGE_COUNT (display_size ?L) = 2"
    by (simp_all add: NHD_MAKE_SIZE_def DISPLAY_SIZE_WIDTH_def DISPLAY_PAGE_COUNT_def DISPLAY_SIZE_HEIGHT_def)
  show ?thesis
    using conjunct1 [OF lcd_picture_shown [OF lcd_model.lcd_wires_axioms con _ w, of ?d "\<lambda>a. ucast (a AND 0xF)" "0x10000007"]]
    unfolding pages by (auto simp: lcd_stream_def page_stream_def upt_conv_Cons)
qed

text \<open>The clock of the display: for every system clock the search ends with a divider that is even,
  at least 6 and fits a byte, for which the clock of the port is at most 20 MHz, and the
  divider is the least of these.\<close>

theorem lcd_clock_divider:
  shows "even (get_pre_scale_value clk) \<and> 6 \<le> get_pre_scale_value clk \<and> get_pre_scale_value clk \<le> 108 \<and>
    unat clk div (2 * get_pre_scale_value clk) \<le> 20000000 \<and>
    (\<forall>p. even p \<longrightarrow> 6 \<le> p \<longrightarrow> p < get_pre_scale_value clk \<longrightarrow> 20000000 < unat clk div (2 * p))"
proof -
  have loop: "even (pre_scale_loop c q) \<and> q \<le> pre_scale_loop c q \<and> pre_scale_loop c q \<le> 108 \<and>
      c div (2 * pre_scale_loop c q) \<le> 20000000 \<and>
      (\<forall>p. even p \<longrightarrow> q \<le> p \<longrightarrow> p < pre_scale_loop c q \<longrightarrow> 20000000 < c div (2 * p))"
    if "even q" "q \<le> 108" "c < 4294967296" for c q
    using that
  proof (induction c q rule: pre_scale_loop.induct)
    case (1 c q)
    show ?case
    proof (cases "c div (q * 2) > 20000000")
      case False
      with 1 show ?thesis by (subst pre_scale_loop.simps, simp add: mult.commute)+
    next
      case True
      have "q < 108"
      proof (rule ccontr)
        assume "\<not> q < 108"
        then have "q = 108" using 1 by simp
        then have "c div (q * 2) \<le> 4294967296 div 216" using 1(4) by (simp add: div_le_mono)
        with True show False by simp
      qed
      then have "q + 2 \<le> 108" using 1(2) by (auto elim!: evenE)
      note IH = 1(1) [OF True _ this 1(4)]
      have step: "pre_scale_loop c q = pre_scale_loop c (q + 2)"
        using True by (subst pre_scale_loop.simps) simp
      have "p = q \<or> q + 2 \<le> p" if "even p" "q \<le> p" for p
        using that 1(2) by (auto elim!: evenE)
      then show ?thesis using IH 1(2) True unfolding step by (auto simp: mult.commute)
    qed
  qed
  show ?thesis
    using loop [of 6 "unat clk"] unat_u32 [of clk]
    by (simp add: get_pre_scale_value_def rflpc_clock_get_system_clock_def)
qed

lemma lcd_clock_divider_witness:
  "even (get_pre_scale_value 480000000) \<and> get_pre_scale_value 480000000 = 12 \<and>
   unat (480000000 :: u32) div (2 * get_pre_scale_value 480000000) \<le> 20000000"
  using lcd_clock_divider [of 480000000]
  by (simp add: get_pre_scale_value_def rflpc_clock_get_system_clock_def pre_scale_loop.simps)

end
