(* ===== verification/Scroller.thy ===== *)
theory Scroller
  imports Spi Timer "HOL-Library.Signed_Division"
begin

text \<open>
  \<^verbatim>\<open>samples/spi-leds\<close>: a text that scrolls over a matrix of 8 by 8 leds on an SPI port.
  \<^verbatim>\<open>scroller.c\<close> draws characters into a picture of 64 bytes, one per led, column by column;
  \<^verbatim>\<open>main.c\<close> sends pictures to the matrix. An access outside the picture, the font or the text is
  \<^const>\<open>None\<close>, so that a call that returns has made none. What the drawing means is the strip of
  columns of a text, \<open>strip\<close>, of which the matrix is a window.
\<close>

section \<open>The font\<close>

text \<open>Eight bytes per character, one byte per row, the leftmost pixel in bit 0.\<close>

definition font_00 :: "u8 list" where
  "font_00 = [
     0x00, 0x00, 0x00, 0x00, 0x00, 0x00, 0x00, 0x00,
     0x00, 0x00, 0x00, 0x00, 0x00, 0x00, 0x00, 0x00,
     0x00, 0x00, 0x00, 0x00, 0x00, 0x00, 0x00, 0x00,
     0x00, 0x00, 0x00, 0x00, 0x00, 0x00, 0x00, 0x00,
     0x00, 0x00, 0x00, 0x00, 0x00, 0x00, 0x00, 0x00,
     0x00, 0x00, 0x00, 0x00, 0x00, 0x00, 0x00, 0x00,
     0x00, 0x00, 0x00, 0x00, 0x00, 0x00, 0x00, 0x00,
     0x00, 0x00, 0x00, 0x00, 0x00, 0x00, 0x00, 0x00,
     0x00, 0x00, 0x00, 0x00, 0x00, 0x00, 0x00, 0x00,
     0x00, 0x00, 0x00, 0x00, 0x00, 0x00, 0x00, 0x00,
     0x00, 0x00, 0x00, 0x00, 0x00, 0x00, 0x00, 0x00,
     0x00, 0x00, 0x00, 0x00, 0x00, 0x00, 0x00, 0x00,
     0x00, 0x00, 0x00, 0x00, 0x00, 0x00, 0x00, 0x00,
     0x00, 0x00, 0x00, 0x00, 0x00, 0x00, 0x00, 0x00,
     0x00, 0x00, 0x00, 0x00, 0x00, 0x00, 0x00, 0x00,
     0x00, 0x00, 0x00, 0x00, 0x00, 0x00, 0x00, 0x00,
     0x00, 0x00, 0x00, 0x00, 0x00, 0x00, 0x00, 0x00,
     0x00, 0x00, 0x00, 0x00, 0x00, 0x00, 0x00, 0x00,
     0x00, 0x00, 0x00, 0x00, 0x00, 0x00, 0x00, 0x00,
     0x00, 0x00, 0x00, 0x00, 0x00, 0x00, 0x00, 0x00,
     0x00, 0x00, 0x00, 0x00, 0x00, 0x00, 0x00, 0x00,
     0x00, 0x00, 0x00, 0x00, 0x00, 0x00, 0x00, 0x00,
     0x00, 0x00, 0x00, 0x00, 0x00, 0x00, 0x00, 0x00,
     0x00, 0x00, 0x00, 0x00, 0x00, 0x00, 0x00, 0x00,
     0x00, 0x00, 0x00, 0x00, 0x00, 0x00, 0x00, 0x00,
     0x00, 0x00, 0x00, 0x00, 0x00, 0x00, 0x00, 0x00,
     0x00, 0x00, 0x00, 0x00, 0x00, 0x00, 0x00, 0x00,
     0x00, 0x00, 0x00, 0x00, 0x00, 0x00, 0x00, 0x00,
     0x00, 0x00, 0x00, 0x00, 0x00, 0x00, 0x00, 0x00,
     0x00, 0x00, 0x00, 0x00, 0x00, 0x00, 0x00, 0x00,
     0x00, 0x00, 0x00, 0x00, 0x00, 0x00, 0x00, 0x00,
     0x00, 0x00, 0x00, 0x00, 0x00, 0x00, 0x00, 0x00,
     0x00, 0x00, 0x00, 0x00, 0x00, 0x00, 0x00, 0x00,
     0x18, 0x3C, 0x3C, 0x18, 0x18, 0x00, 0x18, 0x00,
     0x36, 0x36, 0x00, 0x00, 0x00, 0x00, 0x00, 0x00,
     0x36, 0x36, 0x7F, 0x36, 0x7F, 0x36, 0x36, 0x00,
     0x0C, 0x3E, 0x03, 0x1E, 0x30, 0x1F, 0x0C, 0x00,
     0x00, 0x63, 0x33, 0x18, 0x0C, 0x66, 0x63, 0x00,
     0x1C, 0x36, 0x1C, 0x6E, 0x3B, 0x33, 0x6E, 0x00,
     0x06, 0x06, 0x03, 0x00, 0x00, 0x00, 0x00, 0x00,
     0x18, 0x0C, 0x06, 0x06, 0x06, 0x0C, 0x18, 0x00,
     0x06, 0x0C, 0x18, 0x18, 0x18, 0x0C, 0x06, 0x00,
     0x00, 0x66, 0x3C, 0xFF, 0x3C, 0x66, 0x00, 0x00,
     0x00, 0x0C, 0x0C, 0x3F, 0x0C, 0x0C, 0x00, 0x00,
     0x00, 0x00, 0x00, 0x00, 0x00, 0x0C, 0x0C, 0x06,
     0x00, 0x00, 0x00, 0x3F, 0x00, 0x00, 0x00, 0x00,
     0x00, 0x00, 0x00, 0x00, 0x00, 0x0C, 0x0C, 0x00,
     0x60, 0x30, 0x18, 0x0C, 0x06, 0x03, 0x01, 0x00,
     0x3E, 0x63, 0x73, 0x7B, 0x6F, 0x67, 0x3E, 0x00,
     0x0C, 0x0E, 0x0C, 0x0C, 0x0C, 0x0C, 0x3F, 0x00,
     0x1E, 0x33, 0x30, 0x1C, 0x06, 0x33, 0x3F, 0x00,
     0x1E, 0x33, 0x30, 0x1C, 0x30, 0x33, 0x1E, 0x00,
     0x38, 0x3C, 0x36, 0x33, 0x7F, 0x30, 0x78, 0x00,
     0x3F, 0x03, 0x1F, 0x30, 0x30, 0x33, 0x1E, 0x00,
     0x1C, 0x06, 0x03, 0x1F, 0x33, 0x33, 0x1E, 0x00,
     0x3F, 0x33, 0x30, 0x18, 0x0C, 0x0C, 0x0C, 0x00,
     0x1E, 0x33, 0x33, 0x1E, 0x33, 0x33, 0x1E, 0x00,
     0x1E, 0x33, 0x33, 0x3E, 0x30, 0x18, 0x0E, 0x00,
     0x00, 0x0C, 0x0C, 0x00, 0x00, 0x0C, 0x0C, 0x00,
     0x00, 0x0C, 0x0C, 0x00, 0x00, 0x0C, 0x0C, 0x06,
     0x18, 0x0C, 0x06, 0x03, 0x06, 0x0C, 0x18, 0x00,
     0x00, 0x00, 0x3F, 0x00, 0x00, 0x3F, 0x00, 0x00,
     0x06, 0x0C, 0x18, 0x30, 0x18, 0x0C, 0x06, 0x00,
     0x1E, 0x33, 0x30, 0x18, 0x0C, 0x00, 0x0C, 0x00]"

definition font_40 :: "u8 list" where
  "font_40 = [
     0x3E, 0x63, 0x7B, 0x7B, 0x7B, 0x03, 0x1E, 0x00,
     0x0C, 0x1E, 0x33, 0x33, 0x3F, 0x33, 0x33, 0x00,
     0x3F, 0x66, 0x66, 0x3E, 0x66, 0x66, 0x3F, 0x00,
     0x3C, 0x66, 0x03, 0x03, 0x03, 0x66, 0x3C, 0x00,
     0x1F, 0x36, 0x66, 0x66, 0x66, 0x36, 0x1F, 0x00,
     0x7F, 0x46, 0x16, 0x1E, 0x16, 0x46, 0x7F, 0x00,
     0x7F, 0x46, 0x16, 0x1E, 0x16, 0x06, 0x0F, 0x00,
     0x3C, 0x66, 0x03, 0x03, 0x73, 0x66, 0x7C, 0x00,
     0x33, 0x33, 0x33, 0x3F, 0x33, 0x33, 0x33, 0x00,
     0x1E, 0x0C, 0x0C, 0x0C, 0x0C, 0x0C, 0x1E, 0x00,
     0x78, 0x30, 0x30, 0x30, 0x33, 0x33, 0x1E, 0x00,
     0x67, 0x66, 0x36, 0x1E, 0x36, 0x66, 0x67, 0x00,
     0x0F, 0x06, 0x06, 0x06, 0x46, 0x66, 0x7F, 0x00,
     0x63, 0x77, 0x7F, 0x7F, 0x6B, 0x63, 0x63, 0x00,
     0x63, 0x67, 0x6F, 0x7B, 0x73, 0x63, 0x63, 0x00,
     0x1C, 0x36, 0x63, 0x63, 0x63, 0x36, 0x1C, 0x00,
     0x3F, 0x66, 0x66, 0x3E, 0x06, 0x06, 0x0F, 0x00,
     0x1E, 0x33, 0x33, 0x33, 0x3B, 0x1E, 0x38, 0x00,
     0x3F, 0x66, 0x66, 0x3E, 0x36, 0x66, 0x67, 0x00,
     0x1E, 0x33, 0x07, 0x0E, 0x38, 0x33, 0x1E, 0x00,
     0x3F, 0x2D, 0x0C, 0x0C, 0x0C, 0x0C, 0x1E, 0x00,
     0x33, 0x33, 0x33, 0x33, 0x33, 0x33, 0x3F, 0x00,
     0x33, 0x33, 0x33, 0x33, 0x33, 0x1E, 0x0C, 0x00,
     0x63, 0x63, 0x63, 0x6B, 0x7F, 0x77, 0x63, 0x00,
     0x63, 0x63, 0x36, 0x1C, 0x1C, 0x36, 0x63, 0x00,
     0x33, 0x33, 0x33, 0x1E, 0x0C, 0x0C, 0x1E, 0x00,
     0x7F, 0x63, 0x31, 0x18, 0x4C, 0x66, 0x7F, 0x00,
     0x1E, 0x06, 0x06, 0x06, 0x06, 0x06, 0x1E, 0x00,
     0x03, 0x06, 0x0C, 0x18, 0x30, 0x60, 0x40, 0x00,
     0x1E, 0x18, 0x18, 0x18, 0x18, 0x18, 0x1E, 0x00,
     0x08, 0x1C, 0x36, 0x63, 0x00, 0x00, 0x00, 0x00,
     0x00, 0x00, 0x00, 0x00, 0x00, 0x00, 0x00, 0xFF,
     0x0C, 0x0C, 0x18, 0x00, 0x00, 0x00, 0x00, 0x00,
     0x00, 0x00, 0x1E, 0x30, 0x3E, 0x33, 0x6E, 0x00,
     0x07, 0x06, 0x06, 0x3E, 0x66, 0x66, 0x3B, 0x00,
     0x00, 0x00, 0x1E, 0x33, 0x03, 0x33, 0x1E, 0x00,
     0x38, 0x30, 0x30, 0x3e, 0x33, 0x33, 0x6E, 0x00,
     0x00, 0x00, 0x1E, 0x33, 0x3f, 0x03, 0x1E, 0x00,
     0x1C, 0x36, 0x06, 0x0f, 0x06, 0x06, 0x0F, 0x00,
     0x00, 0x00, 0x6E, 0x33, 0x33, 0x3E, 0x30, 0x1F,
     0x07, 0x06, 0x36, 0x6E, 0x66, 0x66, 0x67, 0x00,
     0x0C, 0x00, 0x0E, 0x0C, 0x0C, 0x0C, 0x1E, 0x00,
     0x30, 0x00, 0x30, 0x30, 0x30, 0x33, 0x33, 0x1E,
     0x07, 0x06, 0x66, 0x36, 0x1E, 0x36, 0x67, 0x00,
     0x0E, 0x0C, 0x0C, 0x0C, 0x0C, 0x0C, 0x1E, 0x00,
     0x00, 0x00, 0x33, 0x7F, 0x7F, 0x6B, 0x63, 0x00,
     0x00, 0x00, 0x1F, 0x33, 0x33, 0x33, 0x33, 0x00,
     0x00, 0x00, 0x1E, 0x33, 0x33, 0x33, 0x1E, 0x00,
     0x00, 0x00, 0x3B, 0x66, 0x66, 0x3E, 0x06, 0x0F,
     0x00, 0x00, 0x6E, 0x33, 0x33, 0x3E, 0x30, 0x78,
     0x00, 0x00, 0x3B, 0x6E, 0x66, 0x06, 0x0F, 0x00,
     0x00, 0x00, 0x3E, 0x03, 0x1E, 0x30, 0x1F, 0x00,
     0x08, 0x0C, 0x3E, 0x0C, 0x0C, 0x2C, 0x18, 0x00,
     0x00, 0x00, 0x33, 0x33, 0x33, 0x33, 0x6E, 0x00,
     0x00, 0x00, 0x33, 0x33, 0x33, 0x1E, 0x0C, 0x00,
     0x00, 0x00, 0x63, 0x6B, 0x7F, 0x7F, 0x36, 0x00,
     0x00, 0x00, 0x63, 0x36, 0x1C, 0x36, 0x63, 0x00,
     0x00, 0x00, 0x33, 0x33, 0x33, 0x3E, 0x30, 0x1F,
     0x00, 0x00, 0x3F, 0x19, 0x0C, 0x26, 0x3F, 0x00,
     0x38, 0x0C, 0x0C, 0x07, 0x0C, 0x0C, 0x38, 0x00,
     0x18, 0x18, 0x18, 0x00, 0x18, 0x18, 0x18, 0x00,
     0x07, 0x0C, 0x0C, 0x38, 0x0C, 0x0C, 0x07, 0x00,
     0x6E, 0x3B, 0x00, 0x00, 0x00, 0x00, 0x00, 0x00,
     0x00, 0x00, 0x00, 0x00, 0x00, 0x00, 0x00, 0x00]"

definition font_80 :: "u8 list" where
  "font_80 = [
     0x00, 0x00, 0x00, 0x00, 0x00, 0x00, 0x00, 0x00,
     0x00, 0x00, 0x00, 0x00, 0x00, 0x00, 0x00, 0x00,
     0x00, 0x00, 0x00, 0x00, 0x00, 0x00, 0x00, 0x00,
     0x00, 0x00, 0x00, 0x00, 0x00, 0x00, 0x00, 0x00,
     0x00, 0x00, 0x00, 0x00, 0x00, 0x00, 0x00, 0x00,
     0x00, 0x00, 0x00, 0x00, 0x00, 0x00, 0x00, 0x00,
     0x00, 0x00, 0x00, 0x00, 0x00, 0x00, 0x00, 0x00,
     0x00, 0x00, 0x00, 0x00, 0x00, 0x00, 0x00, 0x00,
     0x00, 0x00, 0x00, 0x00, 0x00, 0x00, 0x00, 0x00,
     0x00, 0x00, 0x00, 0x00, 0x00, 0x00, 0x00, 0x00,
     0x00, 0x00, 0x00, 0x00, 0x00, 0x00, 0x00, 0x00,
     0x00, 0x00, 0x00, 0x00, 0x00, 0x00, 0x00, 0x00,
     0x00, 0x00, 0x00, 0x00, 0x00, 0x00, 0x00, 0x00,
     0x00, 0x00, 0x00, 0x00, 0x00, 0x00, 0x00, 0x00,
     0x00, 0x00, 0x00, 0x00, 0x00, 0x00, 0x00, 0x00,
     0x00, 0x00, 0x00, 0x00, 0x00, 0x00, 0x00, 0x00,
     0x00, 0x00, 0x00, 0x00, 0x00, 0x00, 0x00, 0x00,
     0x00, 0x00, 0x00, 0x00, 0x00, 0x00, 0x00, 0x00,
     0x00, 0x00, 0x00, 0x00, 0x00, 0x00, 0x00, 0x00,
     0x00, 0x00, 0x00, 0x00, 0x00, 0x00, 0x00, 0x00,
     0x00, 0x00, 0x00, 0x00, 0x00, 0x00, 0x00, 0x00,
     0x00, 0x00, 0x00, 0x00, 0x00, 0x00, 0x00, 0x00,
     0x00, 0x00, 0x00, 0x00, 0x00, 0x00, 0x00, 0x00,
     0x00, 0x00, 0x00, 0x00, 0x00, 0x00, 0x00, 0x00,
     0x00, 0x00, 0x00, 0x00, 0x00, 0x00, 0x00, 0x00,
     0x00, 0x00, 0x00, 0x00, 0x00, 0x00, 0x00, 0x00,
     0x00, 0x00, 0x00, 0x00, 0x00, 0x00, 0x00, 0x00,
     0x00, 0x00, 0x00, 0x00, 0x00, 0x00, 0x00, 0x00,
     0x00, 0x00, 0x00, 0x00, 0x00, 0x00, 0x00, 0x00,
     0x00, 0x00, 0x00, 0x00, 0x00, 0x00, 0x00, 0x00,
     0x00, 0x00, 0x00, 0x00, 0x00, 0x00, 0x00, 0x00,
     0x00, 0x00, 0x00, 0x00, 0x00, 0x00, 0x00, 0x00,
     0x00, 0x00, 0x00, 0x00, 0x00, 0x00, 0x00, 0x00,
     0x18, 0x18, 0x00, 0x18, 0x18, 0x18, 0x18, 0x00,
     0x18, 0x18, 0x7E, 0x03, 0x03, 0x7E, 0x18, 0x18,
     0x1C, 0x36, 0x26, 0x0F, 0x06, 0x67, 0x3F, 0x00,
     0x00, 0x00, 0x63, 0x3E, 0x36, 0x3E, 0x63, 0x00,
     0x33, 0x33, 0x1E, 0x3F, 0x0C, 0x3F, 0x0C, 0x0C,
     0x18, 0x18, 0x18, 0x00, 0x18, 0x18, 0x18, 0x00,
     0x7C, 0xC6, 0x1C, 0x36, 0x36, 0x1C, 0x33, 0x1E,
     0x33, 0x00, 0x00, 0x00, 0x00, 0x00, 0x00, 0x00,
     0x3C, 0x42, 0x99, 0x85, 0x85, 0x99, 0x42, 0x3C,
     0x3C, 0x36, 0x36, 0x7C, 0x00, 0x00, 0x00, 0x00,
     0x00, 0xCC, 0x66, 0x33, 0x66, 0xCC, 0x00, 0x00,
     0x00, 0x00, 0x00, 0x3F, 0x30, 0x30, 0x00, 0x00,
     0x00, 0x00, 0x00, 0x00, 0x00, 0x00, 0x00, 0x00,
     0x3C, 0x42, 0x9D, 0xA5, 0x9D, 0xA5, 0x42, 0x3C,
     0x7E, 0x00, 0x00, 0x00, 0x00, 0x00, 0x00, 0x00,
     0x1C, 0x36, 0x36, 0x1C, 0x00, 0x00, 0x00, 0x00,
     0x18, 0x18, 0x7E, 0x18, 0x18, 0x00, 0x7E, 0x00,
     0x1C, 0x30, 0x18, 0x0C, 0x3C, 0x00, 0x00, 0x00,
     0x1C, 0x30, 0x18, 0x30, 0x1C, 0x00, 0x00, 0x00,
     0x18, 0x0C, 0x00, 0x00, 0x00, 0x00, 0x00, 0x00,
     0x00, 0x00, 0x66, 0x66, 0x66, 0x3E, 0x06, 0x03,
     0xFE, 0xDB, 0xDB, 0xDE, 0xD8, 0xD8, 0xD8, 0x00,
     0x00, 0x00, 0x00, 0x18, 0x18, 0x00, 0x00, 0x00,
     0x00, 0x00, 0x00, 0x00, 0x00, 0x18, 0x30, 0x1E,
     0x08, 0x0C, 0x08, 0x1C, 0x00, 0x00, 0x00, 0x00,
     0x1C, 0x36, 0x36, 0x1C, 0x00, 0x00, 0x00, 0x00,
     0x00, 0x33, 0x66, 0xCC, 0x66, 0x33, 0x00, 0x00,
     0xC3, 0x63, 0x33, 0xBD, 0xEC, 0xF6, 0xF3, 0x03,
     0xC3, 0x63, 0x33, 0x7B, 0xCC, 0x66, 0x33, 0xF0,
     0x03, 0xC4, 0x63, 0xB4, 0xDB, 0xAC, 0xE6, 0x80,
     0x0C, 0x00, 0x0C, 0x06, 0x03, 0x33, 0x1E, 0x00]"

definition font_C0 :: "u8 list" where
  "font_C0 = [
     0x07, 0x00, 0x1C, 0x36, 0x63, 0x7F, 0x63, 0x00,
     0x70, 0x00, 0x1C, 0x36, 0x63, 0x7F, 0x63, 0x00,
     0x1C, 0x36, 0x00, 0x3E, 0x63, 0x7F, 0x63, 0x00,
     0x6E, 0x3B, 0x00, 0x3E, 0x63, 0x7F, 0x63, 0x00,
     0x63, 0x1C, 0x36, 0x63, 0x7F, 0x63, 0x63, 0x00,
     0x0C, 0x0C, 0x00, 0x1E, 0x33, 0x3F, 0x33, 0x00,
     0x7C, 0x36, 0x33, 0x7F, 0x33, 0x33, 0x73, 0x00,
     0x1E, 0x33, 0x03, 0x33, 0x1E, 0x18, 0x30, 0x1E,
     0x07, 0x00, 0x3F, 0x06, 0x1E, 0x06, 0x3F, 0x00,
     0x38, 0x00, 0x3F, 0x06, 0x1E, 0x06, 0x3F, 0x00,
     0x0C, 0x12, 0x3F, 0x06, 0x1E, 0x06, 0x3F, 0x00,
     0x36, 0x00, 0x3F, 0x06, 0x1E, 0x06, 0x3F, 0x00,
     0x07, 0x00, 0x1E, 0x0C, 0x0C, 0x0C, 0x1E, 0x00,
     0x38, 0x00, 0x1E, 0x0C, 0x0C, 0x0C, 0x1E, 0x00,
     0x0C, 0x12, 0x00, 0x1E, 0x0C, 0x0C, 0x1E, 0x00,
     0x33, 0x00, 0x1E, 0x0C, 0x0C, 0x0C, 0x1E, 0x00,
     0x3F, 0x66, 0x6F, 0x6F, 0x66, 0x66, 0x3F, 0x00,
     0x3F, 0x00, 0x33, 0x37, 0x3F, 0x3B, 0x33, 0x00,
     0x0E, 0x00, 0x18, 0x3C, 0x66, 0x3C, 0x18, 0x00,
     0x70, 0x00, 0x18, 0x3C, 0x66, 0x3C, 0x18, 0x00,
     0x3C, 0x66, 0x18, 0x3C, 0x66, 0x3C, 0x18, 0x00,
     0x6E, 0x3B, 0x00, 0x3E, 0x63, 0x63, 0x3E, 0x00,
     0xC3, 0x18, 0x3C, 0x66, 0x66, 0x3C, 0x18, 0x00,
     0x00, 0x36, 0x1C, 0x08, 0x1C, 0x36, 0x00, 0x00,
     0x5C, 0x36, 0x73, 0x7B, 0x6F, 0x36, 0x1D, 0x00,
     0x0E, 0x00, 0x66, 0x66, 0x66, 0x66, 0x3C, 0x00,
     0x70, 0x00, 0x66, 0x66, 0x66, 0x66, 0x3C, 0x00,
     0x3C, 0x66, 0x00, 0x66, 0x66, 0x66, 0x3C, 0x00,
     0x33, 0x00, 0x33, 0x33, 0x33, 0x33, 0x1E, 0x00,
     0x70, 0x00, 0x66, 0x66, 0x3C, 0x18, 0x18, 0x00,
     0x0F, 0x06, 0x3E, 0x66, 0x66, 0x3E, 0x06, 0x0F,
     0x00, 0x1E, 0x33, 0x1F, 0x33, 0x1F, 0x03, 0x03,
     0x07, 0x00, 0x1E, 0x30, 0x3E, 0x33, 0x7E, 0x00,
     0x38, 0x00, 0x1E, 0x30, 0x3E, 0x33, 0x7E, 0x00,
     0x7E, 0xC3, 0x3C, 0x60, 0x7C, 0x66, 0xFC, 0x00,
     0x6E, 0x3B, 0x1E, 0x30, 0x3E, 0x33, 0x7E, 0x00,
     0x33, 0x00, 0x1E, 0x30, 0x3E, 0x33, 0x7E, 0x00,
     0x0C, 0x0C, 0x1E, 0x30, 0x3E, 0x33, 0x7E, 0x00,
     0x00, 0x00, 0xFE, 0x30, 0xFE, 0x33, 0xFE, 0x00,
     0x00, 0x00, 0x1E, 0x03, 0x03, 0x1E, 0x30, 0x1C,
     0x07, 0x00, 0x1E, 0x33, 0x3F, 0x03, 0x1E, 0x00,
     0x38, 0x00, 0x1E, 0x33, 0x3F, 0x03, 0x1E, 0x00,
     0x7E, 0xC3, 0x3C, 0x66, 0x7E, 0x06, 0x3C, 0x00,
     0x33, 0x00, 0x1E, 0x33, 0x3F, 0x03, 0x1E, 0x00,
     0x07, 0x00, 0x0E, 0x0C, 0x0C, 0x0C, 0x1E, 0x00,
     0x1C, 0x00, 0x0E, 0x0C, 0x0C, 0x0C, 0x1E, 0x00,
     0x3E, 0x63, 0x1C, 0x18, 0x18, 0x18, 0x3C, 0x00,
     0x33, 0x00, 0x0E, 0x0C, 0x0C, 0x0C, 0x1E, 0x00,
     0x1B, 0x0E, 0x1B, 0x30, 0x3E, 0x33, 0x1E, 0x00,
     0x00, 0x1F, 0x00, 0x1F, 0x33, 0x33, 0x33, 0x00,
     0x00, 0x07, 0x00, 0x1E, 0x33, 0x33, 0x1E, 0x00,
     0x00, 0x38, 0x00, 0x1E, 0x33, 0x33, 0x1E, 0x00,
     0x1E, 0x33, 0x00, 0x1E, 0x33, 0x33, 0x1E, 0x00,
     0x6E, 0x3B, 0x00, 0x1E, 0x33, 0x33, 0x1E, 0x00,
     0x00, 0x33, 0x00, 0x1E, 0x33, 0x33, 0x1E, 0x00,
     0x18, 0x18, 0x00, 0x7E, 0x00, 0x18, 0x18, 0x00,
     0x00, 0x60, 0x3C, 0x76, 0x7E, 0x6E, 0x3C, 0x06,
     0x00, 0x07, 0x00, 0x33, 0x33, 0x33, 0x7E, 0x00,
     0x00, 0x38, 0x00, 0x33, 0x33, 0x33, 0x7E, 0x00,
     0x1E, 0x33, 0x00, 0x33, 0x33, 0x33, 0x7E, 0x00,
     0x00, 0x33, 0x00, 0x33, 0x33, 0x33, 0x7E, 0x00,
     0x00, 0x38, 0x00, 0x33, 0x33, 0x3E, 0x30, 0x1F,
     0x00, 0x00, 0x06, 0x3E, 0x66, 0x3E, 0x06, 0x00,
     0x00, 0x33, 0x00, 0x33, 0x33, 0x3E, 0x30, 0x1F]"

definition font :: "u8 list" where
  "font = font_00 @ font_40 @ font_80 @ font_C0"

definition font_size :: nat where "font_size = length font"

section \<open>Drawing\<close>

definition GET_BIT :: "u8 \<Rightarrow> nat \<Rightarrow> u8" where
  "GET_BIT c b = shr c b AND 1"

text \<open>\<^verbatim>\<open>a[k]\<close> and \<^verbatim>\<open>a[k] = v\<close> on an array.\<close>

definition get_byte :: "u8 list \<Rightarrow> int \<Rightarrow> u8 option" where
  "get_byte a k = (if 0 \<le> k \<and> k < int (length a) then Some (a ! nat k) else None)"

definition set_byte :: "int \<Rightarrow> u8 \<Rightarrow> u8 list \<Rightarrow> u8 list option" where
  "set_byte k v a = (if 0 \<le> k \<and> k < int (length a) then Some (a[nat k := v]) else None)"

definition display_char :: "u8 list \<Rightarrow> u8 \<Rightarrow> int \<Rightarrow> u8 \<Rightarrow> u8 list option" where
  "display_char buffer c led_column color =
     (let (char_start, led_stop, led_column) =
        (if led_column < 0 then (- led_column, 8 + led_column, 0) else (0, 8, led_column))
      in for_each (\<lambda>i buffer.
           case get_byte font (push_bit 3 (uint c) + i) of
             None \<Rightarrow> None
           | Some row \<Rightarrow> for_each (\<lambda>j buffer.
               if GET_BIT row (nat ((j + char_start) - led_column)) \<noteq> 0
               then set_byte (push_bit 3 j + i) color buffer else Some buffer) [led_column..led_stop - 1] buffer)
           [0..7] buffer)"

text \<open>\<^verbatim>\<open>while (*p++) text_len++;\<close>\<close>

fun text_len :: "u8 list \<Rightarrow> int option" where
  "text_len [] = None"
| "text_len (c # p) = (if c = 0 then Some 0 else map_option ((+) 1) (text_len p))"

definition display_text :: "u8 list \<Rightarrow> u8 list \<Rightarrow> int \<Rightarrow> u8 \<Rightarrow> u8 list option" where
  "display_text buffer text position color =
     (let letter1 = position sdiv 8;
          letter2 = letter1 + 1;
          position_in_letter1 = position smod 8;
          position_in_letter2 = 8 - position_in_letter1
      in case text_len text of
           None \<Rightarrow> None
         | Some len \<Rightarrow>
            (let letter2 = (if letter2 \<ge> len then 0 else letter2)
             in case (if letter1 \<ge> 0
                      then Option.bind (get_byte text letter1) (\<lambda>c. display_char buffer c (- position_in_letter1) color)
                      else Some buffer) of
                  None \<Rightarrow> None
                | Some buffer \<Rightarrow>
                    (if letter2 \<ge> 0 \<and> position_in_letter1 \<noteq> 0
                     then Option.bind (get_byte text letter2) (\<lambda>c. display_char buffer c position_in_letter2 color)
                     else Some buffer)))"

section \<open>The demonstration\<close>

definition SPI_PORT :: rflpc_spi_t where "SPI_PORT = RFLPC_SPI1"

text \<open>The comparison of \<^verbatim>\<open>wait\<close> is one of unsigned numbers: \<^verbatim>\<open>micros\<close> is converted.\<close>

definition wait :: "'d device \<Rightarrow> int \<Rightarrow> 'd \<Rightarrow> 'd option" where
  "wait D micros d =
     (let (start, d) = rflpc_timer_get_counter D RFLPC_TIMER0 d
      in map_option snd (poll D (TIM_TC (rflpc_timer_base RFLPC_TIMER0))
           (\<lambda>x. \<not> (x - start < word_of_int micros)) d))"

definition led_matrix_display_buffer :: "'d device \<Rightarrow> u8 list \<Rightarrow> 'd \<Rightarrow> 'd option" where
  "led_matrix_display_buffer D buffer d =
     (case for_each (\<lambda>i d. Option.bind (get_byte buffer i) (\<lambda>v. rflpc_spi_write D SPI_PORT (ucast v) d)) [0..63] d of
        None \<Rightarrow> None
      | Some d \<Rightarrow> map_option snd (poll D (SSP_SR (rflpc_spi_get_base_addr SPI_PORT)) (\<lambda>x. x AND 1 \<noteq> 0) d))"

text \<open>\<^verbatim>\<open>while (needed_divider / serial_clock_rate_divider > 254) serial_clock_rate_divider++;\<close>\<close>

function serial_rate :: "nat \<Rightarrow> nat \<Rightarrow> nat" where
  "serial_rate needed rate = (if needed div rate > 254 then serial_rate needed (rate + 1) else rate)"
  by auto
termination
proof (relation "measure (\<lambda>(needed, rate). Suc needed - rate)")
  fix needed rate :: nat
  assume "needed div rate > 254"
  then have "rate \<le> needed" using div_less [of needed rate] by (cases "needed < rate") auto
  then show "((needed, rate + 1), needed, rate) \<in> measure (\<lambda>(needed, rate). Suc needed - rate)" by simp
qed simp

declare serial_rate.simps [simp del]

text \<open>The two dividers, and the initialisation of the port with them.\<close>

definition matrix_dividers :: "u32 \<Rightarrow> nat \<times> nat" where
  "matrix_dividers system_clock =
     (let needed = unat (rflpc_clock_get_system_clock system_clock) div 8 div 125000;
          rate = serial_rate needed 1
      in (needed div rate, rate))"

definition matrix_init :: "'d device \<Rightarrow> u32 \<Rightarrow> 'd \<Rightarrow> 'd" where
  "matrix_init D system_clock =
     (let (needed, rate) = matrix_dividers system_clock
      in rflpc_spi_init D SPI_PORT RFLPC_SPI_MASTER RFLPC_CCLK_8 8 (of_nat needed) (of_nat rate) 0)"

text \<open>\<^verbatim>\<open>for (i = 0 ; i < 64 ; ++i) pic[i] = v; led_matrix_display_buffer(pic); wait(500000);\<close>\<close>

definition plain_picture :: "'d device \<Rightarrow> u8 \<Rightarrow> 'd \<Rightarrow> 'd option" where
  "plain_picture D v d = Option.bind (led_matrix_display_buffer D (replicate 64 v) d) (wait D 500000)"

definition hello :: "u8 list" where
  "hello = [72, 101, 108, 108, 111, 32, 87, 111, 114, 108, 100, 33, 0]"

text \<open>One round of \<^verbatim>\<open>while (1)\<close>.\<close>

definition scroll_round :: "'d device \<Rightarrow> int \<times> 'd \<Rightarrow> (int \<times> 'd) option" where
  "scroll_round D st =
     (let (c, d) = st in
      case display_text (replicate 64 0) hello c 0xFF of
        None \<Rightarrow> None
      | Some pic \<Rightarrow>
          (let c = c + 1;
               c = (if c = 96 then - 8 else c)
           in case led_matrix_display_buffer D pic d of
                None \<Rightarrow> None
              | Some d \<Rightarrow> map_option (Pair c) (wait D 200000 d)))"

text \<open>\<^verbatim>\<open>test_spi\<close>, with the first \<open>n\<close> rounds of its last loop.\<close>

definition test_spi :: "'d device \<Rightarrow> u32 \<Rightarrow> nat \<Rightarrow> 'd \<Rightarrow> (int \<times> 'd) option" where
  "test_spi D system_clock n d =
     (case for_each (plain_picture D) [shl 7 5, shl 7 2, 3] (matrix_init D system_clock d) of
        None \<Rightarrow> None
      | Some d \<Rightarrow> for_each (\<lambda>i. scroll_round D) [0..<n] (0, d))"

section \<open>Cells painted\<close>

text \<open>\<open>painted S\<close>: the cells of the set \<open>S\<close> have the colour, the others are as before.\<close>

definition painted :: "(nat \<Rightarrow> bool) \<Rightarrow> u8 \<Rightarrow> u8 list \<Rightarrow> u8 list \<Rightarrow> bool" where
  "painted S color a b \<longleftrightarrow> length b = length a \<and> (\<forall>k < length a. b ! k = (if S k then color else a ! k))"

lemma painted_none: "painted (\<lambda>k. False) color a a"
  by (simp add: painted_def)

lemma painted_trans:
  "painted S color a b \<Longrightarrow> painted T color b c \<Longrightarrow> painted (\<lambda>k. S k \<or> T k) color a c"
  by (auto simp: painted_def)

lemma painted_cong:
  "painted S color a b \<Longrightarrow> (\<And>k. k < length a \<Longrightarrow> S k = T k) \<Longrightarrow> painted T color a b"
  by (auto simp: painted_def)

lemma for_each_paints:
  assumes "\<And>x a. x \<in> set xs \<Longrightarrow> length a = n \<Longrightarrow> \<exists>b. body x a = Some b \<and> painted (S x) color a b"
    and "length a = n"
  shows "\<exists>b. for_each body xs a = Some b \<and> painted (\<lambda>k. \<exists>x \<in> set xs. S x k) color a b"
  using assms
proof (induction xs arbitrary: a)
  case Nil
  then show ?case by (simp add: painted_none)
next
  case (Cons x xs)
  obtain b where b: "body x a = Some b" "painted (S x) color a b"
    using Cons.prems by force
  obtain c where "for_each body xs b = Some c" "painted (\<lambda>k. \<exists>x \<in> set xs. S x k) color b c"
    using Cons.IH [of b] Cons.prems b(2) by (auto simp: painted_def)
  with b painted_trans [of "S x" color a b "\<lambda>k. \<exists>x \<in> set xs. S x k" c] show ?case by auto
qed

lemma set_byte_paints:
  "0 \<le> k \<Longrightarrow> k < int (length a) \<Longrightarrow>
   \<exists>b. set_byte k color a = Some b \<and> painted (\<lambda>l. int l = k) color a b"
  by (auto simp: set_byte_def painted_def nth_list_update)

section \<open>What a character paints\<close>

lemma length_font: "length font = 2048"
  by (simp add: font_def font_00_def font_40_def font_80_def font_C0_def)

definition glyph :: "u8 \<Rightarrow> int \<Rightarrow> int \<Rightarrow> bool" where
  "glyph c x i \<longleftrightarrow> 0 \<le> x \<and> x < 8 \<and> bit (font ! nat (8 * uint c + i)) (nat x)"

text \<open>The cell of column \<open>k div 8\<close> and row \<open>k mod 8\<close>.\<close>

lemma display_char_paints:
  assumes "length buf = 64"
  shows "\<exists>b. display_char buf c col color = Some b \<and>
    painted (\<lambda>k. glyph c (int (k div 8) - col) (int (k mod 8))) color buf b"
proof -
  let ?start = "if col < 0 then - col else 0" and ?stop = "if col < 0 then 8 + col else 8"
    and ?col = "if col < 0 then 0 else col"
  have c: "0 \<le> uint c" "uint c < 256" using uint_lt2p [of c] by simp_all
  have bitc: "GET_BIT row m \<noteq> 0 \<longleftrightarrow> bit row m" for row m by (simp add: GET_BIT_def shr_and_one)
  have cell: "8 * j + i = int k \<longleftrightarrow> int (k div 8) = j \<and> int (k mod 8) = i" if "0 \<le> i" "i < 8" for i j k
  proof
    assume "8 * j + i = int k"
    moreover have "(8 * j + i) div 8 = j \<and> (8 * j + i) mod 8 = i" using that by (simp add: mod_mult_self4)
    ultimately show "int (k div 8) = j \<and> int (k mod 8) = i" by (simp add: zdiv_int zmod_int)
  next
    assume "int (k div 8) = j \<and> int (k mod 8) = i"
    moreover have "8 * int (k div 8) + int (k mod 8) = int k"
      by (metis mult_div_mod_eq of_nat_add of_nat_mult of_nat_numeral)
    ultimately show "8 * j + i = int k" by simp
  qed
  have row: "\<exists>b. (case get_byte font (push_bit 3 (uint c) + i) of None \<Rightarrow> None
      | Some row \<Rightarrow> for_each (\<lambda>j buffer. if GET_BIT row (nat ((j + ?start) - ?col)) \<noteq> 0
          then set_byte (push_bit 3 j + i) color buffer else Some buffer) [?col..?stop - 1] a) = Some b \<and>
      painted (\<lambda>k. glyph c (int (k div 8) - col) i \<and> int (k mod 8) = i) color a b"
    if "i \<in> set [0..7]" "length a = 64" for i a
  proof -
    have i: "0 \<le> i" "i < 8" using that by auto
    let ?row = "font ! nat (8 * uint c + i)"
    have "get_byte font (push_bit 3 (uint c) + i) = Some ?row"
      using i c by (simp add: get_byte_def length_font push_bit_eq_mult mult.commute)
    moreover have "\<exists>b. for_each (\<lambda>j buffer. if GET_BIT ?row (nat ((j + ?start) - ?col)) \<noteq> 0
          then set_byte (push_bit 3 j + i) color buffer else Some buffer) [?col..?stop - 1] a = Some b \<and>
        painted (\<lambda>k. \<exists>j \<in> set [?col..?stop - 1]. bit ?row (nat (j - col)) \<and> int k = 8 * j + i) color a b"
    proof (rule for_each_paints [OF _ that(2)])
      fix j a assume j: "j \<in> set [?col..?stop - 1]" "length (a :: u8 list) = 64"
      have n: "nat ((j + ?start) - ?col) = nat (j - col)" by auto
      show "\<exists>b. (if GET_BIT ?row (nat ((j + ?start) - ?col)) \<noteq> 0
          then set_byte (push_bit 3 j + i) color a else Some a) = Some b \<and>
        painted (\<lambda>k. bit ?row (nat (j - col)) \<and> int k = 8 * j + i) color a b"
        unfolding n bitc using set_byte_paints [of "8 * j + i" a color] i j
        by (auto simp: push_bit_eq_mult mult.commute painted_none split: if_splits)
    qed
    then obtain b where b: "for_each (\<lambda>j buffer. if GET_BIT ?row (nat ((j + ?start) - ?col)) \<noteq> 0
          then set_byte (push_bit 3 j + i) color buffer else Some buffer) [?col..?stop - 1] a = Some b"
        "painted (\<lambda>k. \<exists>j \<in> set [?col..?stop - 1]. bit ?row (nat (j - col)) \<and> int k = 8 * j + i) color a b"
      by blast
    have "painted (\<lambda>k. glyph c (int (k div 8) - col) i \<and> int (k mod 8) = i) color a b"
      by (rule painted_cong [OF b(2)])
        (use that(2) i in \<open>auto simp: glyph_def cell [OF i] eq_commute [of "int _" "8 * _ + i"] split: if_splits\<close>)
    ultimately show ?thesis using b(1) by simp
  qed
  let ?body = "\<lambda>i a. case get_byte font (push_bit 3 (uint c) + i) of None \<Rightarrow> None
      | Some row \<Rightarrow> for_each (\<lambda>j buffer. if GET_BIT row (nat ((j + ?start) - ?col)) \<noteq> 0
          then set_byte (push_bit 3 j + i) color buffer else Some buffer) [?col..?stop - 1] a"
  have "display_char buf c col color = for_each ?body [0..7] buf"
    by (cases "col < 0") (simp_all only: display_char_def if_True if_False Let_def prod.case)
  moreover have "\<exists>b. for_each ?body [0..7] buf = Some b \<and>
      painted (\<lambda>k. \<exists>i \<in> set [0..7]. glyph c (int (k div 8) - col) i \<and> int (k mod 8) = i) color buf b"
    by (rule for_each_paints [OF row assms])
  ultimately obtain b where b: "display_char buf c col color = Some b"
      "painted (\<lambda>k. \<exists>i \<in> set [0..7]. glyph c (int (k div 8) - col) i \<and> int (k mod 8) = i) color buf b"
    by auto
  have "painted (\<lambda>k. glyph c (int (k div 8) - col) (int (k mod 8))) color buf b"
    by (rule painted_cong [OF b(2)]) auto
  with b(1) show ?thesis by blast
qed

section \<open>The text as a strip\<close>

text \<open>
  \<open>strip cs x i\<close>: is the pixel in column \<open>x\<close> and row \<open>i\<close> of the text set, when the text is written over and
  over to the right of column 0.
\<close>

definition strip :: "u8 list \<Rightarrow> int \<Rightarrow> int \<Rightarrow> bool" where
  "strip cs x i \<longleftrightarrow> 0 \<le> x \<and> glyph (cs ! (nat (x div 8) mod length cs)) (x mod 8) i"

lemma text_len_string: "0 \<notin> set cs \<Longrightarrow> text_len (cs @ [0]) = Some (int (length cs))"
  by (induction cs) auto

lemma smod_8: "(p :: int) smod 8 = (if 0 \<le> p then p mod 8 else - ((- p) mod 8))"
  and sdiv_8: "p sdiv 8 = (if 0 \<le> p then p div 8 else - ((- p) div 8))"
  by (auto simp: signed_modulo_int_def signed_divide_int_def sgn_if)

lemma sdiv_8_le: "p < 8 * (n + 1) \<Longrightarrow> 0 \<le> n \<Longrightarrow> p sdiv 8 \<le> (n :: int)"
proof (cases "0 \<le> p")
  case True
  assume "p < 8 * (n + 1)"
  then have "p div 8 \<le> (8 * n + 7) div 8" by (intro zdiv_mono1) simp_all
  then show ?thesis using True by (simp add: sdiv_8)
next
  case False
  assume "0 \<le> n"
  moreover have "0 \<le> - p div 8" using False by (simp add: pos_imp_zdiv_nonneg_iff)
  ultimately show ?thesis using False by (simp add: sdiv_8)
qed

text \<open>What a call paints, whatever the position: the two letters the code computes.\<close>

lemma display_text_paints:
  fixes p :: int and cs :: "u8 list"
  defines "l1 \<equiv> p sdiv 8" and "r \<equiv> p smod 8"
    and "l2 \<equiv> (if p sdiv 8 + 1 \<ge> int (length cs) then 0 else p sdiv 8 + 1)"
  assumes "length buf = 64" and "0 \<notin> set cs" and "l1 \<le> int (length cs)"
  shows "\<exists>b. display_text buf (cs @ [0]) p color = Some b \<and>
    painted (\<lambda>k. 0 \<le> l1 \<and> glyph ((cs @ [0]) ! nat l1) (int (k div 8) + r) (int (k mod 8)) \<or>
      0 \<le> l2 \<and> r \<noteq> 0 \<and> glyph ((cs @ [0]) ! nat l2) (int (k div 8) - (8 - r)) (int (k mod 8))) color buf b"
proof -
  let ?P = "\<lambda>k. 0 \<le> l1 \<and> glyph ((cs @ [0]) ! nat l1) (int (k div 8) + r) (int (k mod 8))"
  let ?Q = "\<lambda>k. 0 \<le> l2 \<and> r \<noteq> 0 \<and> glyph ((cs @ [0]) ! nat l2) (int (k div 8) - (8 - r)) (int (k mod 8))"
  have l2: "l2 \<le> int (length cs)" by (simp add: l2_def)
  have char: "get_byte (cs @ [0]) l = Some ((cs @ [0]) ! nat l)" if "0 \<le> l" "l \<le> int (length cs)" for l
    using that by (simp add: get_byte_def)
  obtain a where a: "(if 0 \<le> l1 then Option.bind (get_byte (cs @ [0]) l1) (\<lambda>c. display_char buf c (- r) color)
      else Some buf) = Some a" "painted ?P color buf a"
    using display_char_paints [OF assms(4), of "(cs @ [0]) ! nat l1" "- r" color] char [of l1] assms(6)
    by (cases "0 \<le> l1") (auto simp: painted_none)
  have "length a = 64" using a(2) assms(4) by (simp add: painted_def)
  then obtain b where b: "(if 0 \<le> l2 \<and> r \<noteq> 0 then Option.bind (get_byte (cs @ [0]) l2)
      (\<lambda>c. display_char a c (8 - r) color) else Some a) = Some b" "painted ?Q color a b"
    using display_char_paints [of a "(cs @ [0]) ! nat l2" "8 - r" color] char [of l2] l2
    by (cases "0 \<le> l2 \<and> r \<noteq> 0") (auto simp: painted_none)
  have "display_text buf (cs @ [0]) p color = Some b"
    using a(1) b(1) unfolding display_text_def Let_def l1_def r_def l2_def
    by (simp only: text_len_string [OF assms(5)] option.case)
  with painted_trans [OF a(2) b(2)] show ?thesis by blast
qed

lemma column_of_letter: "x = 8 * l + y \<Longrightarrow> 0 \<le> y \<Longrightarrow> y < 8 \<Longrightarrow> x div 8 = l \<and> x mod 8 = (y :: int)"
  by (simp add: mod_mult_self4)

text \<open>The two letters are those of the window.\<close>

lemma letters_are_strip:
  fixes p :: int and cs :: "u8 list"
  defines "l1 \<equiv> p sdiv 8" and "r \<equiv> p smod 8"
    and "l2 \<equiv> (if p sdiv 8 + 1 \<ge> int (length cs) then 0 else p sdiv 8 + 1)"
  assumes "p < 8 * int (length cs)" and "cs \<noteq> []" and j: "0 \<le> j" "j < 8"
  shows "(0 \<le> l1 \<and> glyph ((cs @ [0]) ! nat l1) (j + r) i \<or>
      0 \<le> l2 \<and> r \<noteq> 0 \<and> glyph ((cs @ [0]) ! nat l2) (j - (8 - r)) i) \<longleftrightarrow> strip cs (p + j) i"
proof (cases "0 \<le> p")
  case True
  define l where "l = p div 8"
  have p: "p = 8 * l + p mod 8" "0 \<le> p mod 8" "p mod 8 < 8" unfolding l_def by simp_all
  have l: "0 \<le> l" "l < int (length cs)" using True assms(4) by (auto simp: l_def)
  have r: "r = p mod 8" "l1 = l" using True by (simp_all add: r_def l1_def smod_8 sdiv_8 l_def)
  have one: "nat l mod length cs = nat l" using l by simp
  have two: "nat (l + 1) mod length cs = nat l2" "nat l2 < length cs" "0 \<le> l2"
  proof -
    have n: "nat (l + 1) = Suc (nat l)" using l by simp
    have "l2 = (if length cs = Suc (nat l) then 0 else l + 1)" using l r(2) by (auto simp: l2_def l1_def)
    moreover have "Suc (nat l) \<le> length cs" using l by linarith
    ultimately show "nat (l + 1) mod length cs = nat l2" "nat l2 < length cs" "0 \<le> l2" using l n by auto
  qed
  show ?thesis
  proof (cases "j + r < 8")
    case True
    have "p + j = 8 * l + (j + r)" using p(1) r by simp
    moreover have "0 \<le> j + r" using j r p by simp
    ultimately have "(p + j) div 8 = l" "(p + j) mod 8 = j + r"
      using column_of_letter [of "p + j" l "j + r"] True by blast+
    then show ?thesis using True l one r(2) \<open>0 \<le> p\<close> j by (simp add: strip_def glyph_def nth_append)
  next
    case False
    have "p + j = 8 * (l + 1) + (j + r - 8)" using p(1) r by simp
    moreover have "j + r - 8 < 8" using j r p by simp
    moreover have "0 \<le> j + r - 8" using False by simp
    ultimately have "(p + j) div 8 = l + 1" "(p + j) mod 8 = j + r - 8"
      using column_of_letter [of "p + j" "l + 1" "j + r - 8"] by blast+
    then have "strip cs (p + j) i = glyph (cs ! nat l2) (j + r - 8) i"
      using two(1) \<open>0 \<le> p\<close> j by (simp add: strip_def)
    moreover have "\<not> glyph c (j + r) i" for c using False by (simp add: glyph_def)
    moreover have r0: "r \<noteq> 0" and shift: "j - (8 - r) = j + r - 8" using False j by simp_all
    ultimately show ?thesis unfolding shift using two(2,3) r0 by (simp add: nth_append)
  qed
next
  case False
  have l2: "\<not> glyph c (j - (8 - r)) i" for c
  proof -
    have "r \<le> 0" using False by (simp add: r_def smod_8)
    then show ?thesis using j by (simp add: glyph_def)
  qed
  show ?thesis
  proof (cases "p + j < 0")
    case True
    have "\<not> (0 \<le> l1 \<and> glyph c (j + r) i)" for c
    proof -
      have "- p div 8 * 8 + - p mod 8 = - p" by simp
      then have "0 \<le> l1 \<Longrightarrow> r = p" using False j by (simp add: l1_def r_def sdiv_8 smod_8)
      then show ?thesis using True by (auto simp: glyph_def)
    qed
    then show ?thesis using True l2 by (simp add: strip_def)
  next
    case False
    then have "- p < 8" using j by simp
    then have "l1 = 0" "r = p" using \<open>\<not> 0 \<le> p\<close> by (simp_all add: l1_def r_def sdiv_8 smod_8)
    moreover have "(p + j) div 8 = 0" "(p + j) mod 8 = j + p" using False \<open>\<not> 0 \<le> p\<close> j by simp_all
    ultimately show ?thesis using False l2 assms(5) by (simp add: strip_def nth_append add.commute)
  qed
qed

section \<open>The contract of the matrix\<close>

text \<open>
  The queue of the SPI port that the matrix hangs on, and the counter of timer 0. A set bit 0 of the
  status register says that the queue is empty, and sooner or later it is; only a write to the data
  register queues a frame; and the counter goes on counting, so that polled for long enough it is
  \<open>m\<close> ahead of any value, for every delay of at most $2^{31}$.
\<close>

locale led_matrix = spi_port D "rflpc_spi_get_base_addr SPI_PORT" F
  for D :: "'d device" and F :: "'d \<Rightarrow> spi_state" +
  assumes wr_other: "a \<noteq> SSP_DR (rflpc_spi_get_base_addr SPI_PORT) \<Longrightarrow> F (dev_wr D a v d) = F d"
    and empty: "bit (fst (dev_rd D (SSP_SR (rflpc_spi_get_base_addr SPI_PORT)) d)) 0 \<Longrightarrow>
      tx (F (snd (dev_rd D (SSP_SR (rflpc_spi_get_base_addr SPI_PORT)) d))) = []"
    and empties: "\<exists>n. bit (peek D (SSP_SR (rflpc_spi_get_base_addr SPI_PORT))
      (after_reads D (SSP_SR (rflpc_spi_get_base_addr SPI_PORT)) n d)) 0"
    and counts: "m \<le> 2147483648 \<Longrightarrow> \<exists>n. m \<le> peek D (TIM_TC (rflpc_timer_base RFLPC_TIMER0))
      (after_reads D (TIM_TC (rflpc_timer_base RFLPC_TIMER0)) n d) - start"
begin

text \<open>\<open>d'\<close> is a state in which the frames \<open>vs\<close> have followed those of \<open>d\<close>.\<close>

definition sent :: "'d \<Rightarrow> u16 list \<Rightarrow> 'd \<Rightarrow> bool" where
  "sent d vs d' \<longleftrightarrow> out (F d') @ tx (F d') = out (F d) @ tx (F d) @ vs \<and> length (tx (F d')) \<le> 8"

lemma sent_trans: "sent d vs e \<Longrightarrow> sent e ws f \<Longrightarrow> sent d (vs @ ws) f"
  unfolding sent_def by (metis append_assoc)

lemma moves_sent: "spi_moves (F d) (F e) \<Longrightarrow> length (tx (F d)) \<le> 8 \<Longrightarrow> sent d [] e"
  using spi_moves_frames [of "F d" "F e"] by (simp add: sent_def)

lemma poll_moves:
  assumes "p (peek D a (after_reads D a n d))"
  shows "\<exists>x d'. poll D a p d = Some (x, d') \<and> spi_moves (F d) (F d') \<and> (\<exists>e. dev_rd D a e = (x, d') \<and> p x)"
proof -
  obtain x d' where d': "poll D a p d = Some (x, d')" using poll_terminates [of p, OF assms] by blast
  obtain e where e: "spi_moves (F d) (F e)" "dev_rd D a e = (x, d')" "p x"
    using poll_last [of "\<lambda>f. spi_moves (F d) (F f)", OF _ spi_moves_refl d'] spi_moves_trans rd_moves by blast
  have "spi_moves (F d) (F d')" using spi_moves_trans [OF e(1)] rd_moves [of e a] e(2) by simp
  with d' e(2,3) show ?thesis by blast
qed

lemma wait_moves:
  assumes "(word_of_int micros :: u32) \<le> 2147483648"
  shows "\<exists>d'. wait D micros d = Some d' \<and> spi_moves (F d) (F d')"
proof -
  let ?a = "TIM_TC (rflpc_timer_base RFLPC_TIMER0)"
  define start e where "start = fst (dev_rd D ?a d)" and "e = snd (dev_rd D ?a d)"
  obtain n where "\<not> (peek D ?a (after_reads D ?a n e) - start < word_of_int micros)"
    using counts [OF assms, where d = e and start = start] by (auto simp: not_less)
  from poll_moves [where p = "\<lambda>x. \<not> (x - start < word_of_int micros)", OF this] obtain x d' where
    "poll D ?a (\<lambda>x. \<not> (x - start < word_of_int micros)) e = Some (x, d')" "spi_moves (F e) (F d')" by blast
  then show ?thesis
    using spi_moves_trans [OF _ \<open>spi_moves (F e) (F d')\<close>] rd_moves [of d ?a]
    by (simp add: wait_def rflpc_timer_get_counter_def split_def start_def e_def)
qed

lemma for_each_frames:
  assumes "\<And>x d. x \<in> set xs \<Longrightarrow> length (tx (F d)) \<le> 8 \<Longrightarrow> \<exists>d'. body x d = Some d' \<and> sent d (g x) d'"
    and "length (tx (F d)) \<le> 8"
  shows "\<exists>d'. for_each body xs d = Some d' \<and> sent d (concat (map g xs)) d'"
  using assms
proof (induction xs arbitrary: d)
  case Nil
  then show ?case by (simp add: sent_def)
next
  case (Cons x xs)
  obtain e where e: "body x d = Some e" "sent d (g x) e" using Cons.prems by force
  obtain f where "for_each body xs e = Some f" "sent e (concat (map g xs)) f"
    using Cons.IH [of e] Cons.prems(1) e(2) by (auto simp: sent_def)
  with e sent_trans [OF e(2)] show ?case by auto
qed

lemma picture_sent:
  assumes "length pic = 64" and "length (tx (F d)) \<le> 8"
  shows "\<exists>d'. led_matrix_display_buffer D pic d = Some d' \<and> sent d (map ucast pic) d' \<and> tx (F d') = []"
proof -
  let ?body = "\<lambda>i d. Option.bind (get_byte pic i) (\<lambda>v. rflpc_spi_write D SPI_PORT (ucast v) d)"
  let ?sr = "SSP_SR (rflpc_spi_get_base_addr SPI_PORT)"
  have byte: "\<exists>d'. ?body i d = Some d' \<and> sent d [ucast (pic ! nat i)] d'"
    if "i \<in> set [0..63]" "length (tx (F d)) \<le> 8" for i d
  proof -
    obtain e s where e: "rflpc_spi_write D SPI_PORT (ucast (pic ! nat i)) d = Some e" "spi_moves (F d) s"
        "length (tx s) < 8" "F e = s\<lparr>tx := tx s @ [ucast (pic ! nat i)]\<rparr>"
      using write_frame [OF refl, of "ucast (pic ! nat i)" d] by blast
    have "sent d [ucast (pic ! nat i)] e"
      using e(3,4) spi_moves_frames [OF e(2)] by (simp add: sent_def flip: append_assoc)
    then show ?thesis using that(1) assms(1) e(1) by (simp add: get_byte_def)
  qed
  have "map int [0..<64] = [0..63]" by (simp add: upt_rec upto.simps)
  then have "concat (map (\<lambda>i. [ucast (pic ! nat i)]) [0..63]) = map (\<lambda>k. ucast (pic ! k)) [0..<64]"
    by (simp only: concat_map_singleton flip: \<open>map int [0..<64] = [0..63]\<close>) (simp del: upt_conv_Cons add: comp_def)
  also have "\<dots> = (map ucast pic :: u16 list)" using assms(1) by (intro nth_equalityI) auto
  finally have all: "concat (map (\<lambda>i. [ucast (pic ! nat i)]) [0..63]) = (map ucast pic :: u16 list)" .
  obtain e where e: "for_each ?body [0..63] d = Some e" "sent d (map ucast pic) e"
    using for_each_frames [of "[0..63]" ?body "\<lambda>i. [ucast (pic ! nat i)]", OF byte assms(2)] unfolding all by blast
  have p: "x AND 1 \<noteq> 0 \<longleftrightarrow> bit x 0" for x :: u32 using and_two_power_eq_zero [of x 0] by simp
  obtain n where "peek D ?sr (after_reads D ?sr n e) AND 1 \<noteq> 0" using empties p by blast
  from poll_moves [where p = "\<lambda>x. x AND 1 \<noteq> 0", OF this] obtain x d' f where
    d': "poll D ?sr (\<lambda>x. x AND 1 \<noteq> 0) e = Some (x, d')" "spi_moves (F e) (F d')" "dev_rd D ?sr f = (x, d')" "bit x 0"
    unfolding p by blast
  have "sent d (map ucast pic) d'"
    using sent_trans [OF e(2) moves_sent [OF d'(2)]] e(2) by (simp add: sent_def)
  moreover have "tx (F d') = []" using empty [of f] d'(3,4) by simp
  ultimately show ?thesis using e(1) d'(1) by (simp add: led_matrix_display_buffer_def)
qed


text \<open>The initialisation writes no frame.\<close>

lemma rmw_moves:
  assumes "a \<noteq> SSP_DR (rflpc_spi_get_base_addr SPI_PORT)"
  shows "spi_moves (F d) (F (rmw D a f d))"
  using rd_moves [of d a] by (simp add: rmw_def split_def Let_def wr_other [OF assms])

lemma init_moves: "spi_moves (F d) (F (matrix_init D system_clock d))"
proof -
  have step: "spi_moves (F d) (F (rmw D a f e))" "spi_moves (F d) (F (dev_wr D a v e))"
    if "a \<noteq> SSP_DR (rflpc_spi_get_base_addr SPI_PORT)" "spi_moves (F d) (F e)" for a f v e
    using spi_moves_trans [OF that(2) rmw_moves [OF that(1)]] that by (simp_all add: wr_other)
  have dr: "SSP_DR (rflpc_spi_get_base_addr SPI_PORT) = 0x40030008"
    by (simp add: SPI_PORT_def rflpc_spi_get_base_addr_def reg_addr base_defs)
  have pin: "spi_moves (F d) (F (rflpc_pin_set D p fn m opendrain e))"
    if "p \<in> {SCK1_PIN, MISO1_PIN, MOSI1_PIN, SSEL1_PIN}" "spi_moves (F d) (F e)" for p fn m opendrain e
  proof -
    have "RFLPC_PIN_GET_PORT p = 0 \<and> RFLPC_PIN_GET_PIN p div 16 = 0"
      using that(1) by (auto simp: SCK1_PIN_def MISO1_PIN_def MOSI1_PIN_def SSEL1_PIN_def RFLPC_PIN_MAKE_def
        RFLPC_PIN_GET_PORT_def RFLPC_PIN_GET_PIN_def)
    then have "PINSEL_of p = 0x4002C000" "PINMODE_of p = 0x4002C040" "PINMODE_OD_of p = 0x4002C068"
      by (simp_all add: PINSEL_of_def PINMODE_of_def PINMODE_OD_of_def pin_half_def word_at_def reg_addr)
    then show ?thesis
      using that(2) by (simp add: rflpc_pin_set_regs Let_def reg_or_def reg_and_def step dr)
  qed
  show ?thesis
    unfolding matrix_init_def rflpc_spi_init_def
    by (simp add: split_def Let_def SPI_PORT_def RFLPC_SET_BITS_VAL_def RFLPC_SET_BIT_def
        reg_or_def reg_and_def)
       (intro step pin, simp_all add: dr reg_addr rflpc_spi_get_base_addr_def base_defs spi_moves_refl)
qed

end

section \<open>The demonstration in the contract\<close>

text \<open>\<open>window cs p\<close>: the picture of the eight columns of the strip from \<open>p\<close> on; \<open>scroll_pos c k\<close>: the position
  \<open>k\<close> rounds after \<open>c\<close>, which goes up to 95 and starts again at -8.\<close>

definition window :: "u8 list \<Rightarrow> int \<Rightarrow> u8 list" where
  "window cs p = map (\<lambda>k. if strip cs (p + int (k div 8)) (int (k mod 8)) then 0xFF else 0) [0..<64]"

definition scroll_pos :: "int \<Rightarrow> nat \<Rightarrow> int" where
  "scroll_pos c k = (c + 8 + int k) mod 104 - 8"

definition hello_world :: "u8 list" where
  "hello_world = [72, 101, 108, 108, 111, 32, 87, 111, 114, 108, 100, 33]"

lemma hello_world: "hello = hello_world @ [0]" "length hello_world = 12" "0 \<notin> set hello_world"
  by (simp_all add: hello_def hello_world_def)

lemma window_shown:
  assumes "p < 96"
  shows "display_text (replicate 64 0) hello p 0xFF = Some (window hello_world p)"
proof -
  have "p sdiv 8 \<le> int (length hello_world)" using sdiv_8_le [of p 12] assms hello_world(2) by simp
  then obtain b where b: "display_text (replicate 64 0) (hello_world @ [0]) p 0xFF = Some b"
      "painted (\<lambda>k. 0 \<le> p sdiv 8 \<and> glyph ((hello_world @ [0]) ! nat (p sdiv 8)) (int (k div 8) + p smod 8) (int (k mod 8)) \<or>
        0 \<le> (if p sdiv 8 + 1 \<ge> int (length hello_world) then 0 else p sdiv 8 + 1) \<and> p smod 8 \<noteq> 0 \<and>
        glyph ((hello_world @ [0]) ! nat (if p sdiv 8 + 1 \<ge> int (length hello_world) then 0 else p sdiv 8 + 1))
          (int (k div 8) - (8 - p smod 8)) (int (k mod 8))) 0xFF (replicate 64 0) b"
    using display_text_paints [where buf = "replicate 64 0" and cs = hello_world and p = p and color = "0xFF"] hello_world(3)
    by auto
  have "painted (\<lambda>k. strip hello_world (p + int (k div 8)) (int (k mod 8))) 0xFF (replicate 64 0) b"
    by (rule painted_cong [OF b(2)], rule letters_are_strip) (use assms hello_world in auto)
  then have "b = window hello_world p"
    by (intro nth_equalityI) (auto simp: painted_def window_def)
  with b(1) show ?thesis by (simp add: hello_world)
qed

lemma scroll_pos_next:
  assumes "- 8 \<le> c" "c < 96"
  shows "scroll_pos c 0 = c" "scroll_pos (if c + 1 = 96 then - 8 else c + 1) k = scroll_pos c (Suc k)"
    "- 8 \<le> scroll_pos c k" "scroll_pos c k < 96"
  using assms by (auto simp: scroll_pos_def algebra_simps)

context led_matrix
begin

lemma round_sent:
  assumes "- 8 \<le> c" "c < 96" and "length (tx (F d)) \<le> 8"
  shows "\<exists>d'. scroll_round D (c, d) = Some (if c + 1 = 96 then - 8 else c + 1, d') \<and>
    sent d (map ucast (window hello_world c)) d' \<and> tx (F d') = []"
proof -
  have len: "length (window hello_world c) = 64" by (simp add: window_def)
  obtain e where e: "led_matrix_display_buffer D (window hello_world c) d = Some e"
      "sent d (map ucast (window hello_world c)) e" "tx (F e) = []"
    using picture_sent [OF len assms(3)] by blast
  obtain d' where d': "wait D 200000 e = Some d'" "spi_moves (F e) (F d')"
    using wait_moves [of 200000 e] by auto
  have "sent d (map ucast (window hello_world c)) d'"
    using sent_trans [OF e(2) moves_sent [OF d'(2)]] e(3) by simp
  moreover have "tx (F d') = []" using spi_moves_frames [OF d'(2)] e(3) by simp
  ultimately show ?thesis
    using e(1) d'(1) window_shown [OF assms(2)] by (simp add: scroll_round_def Let_def)
qed

lemma rounds_sent:
  assumes "- 8 \<le> c" "c < 96" and "tx (F d) = []"
  shows "\<exists>d'. for_each (\<lambda>i. scroll_round D) is (c, d) = Some (scroll_pos c (length is), d') \<and>
    sent d (concat (map (\<lambda>k. map ucast (window hello_world (scroll_pos c k))) [0..<length is])) d' \<and> tx (F d') = []"
  using assms
proof (induction "is" arbitrary: c d)
  case Nil
  then show ?case by (simp add: scroll_pos_next sent_def)
next
  case (Cons i "is")
  let ?c = "if c + 1 = 96 then - 8 else c + 1" and ?w = "\<lambda>c k. map ucast (window hello_world (scroll_pos c k))"
  have c: "- 8 \<le> ?c" "?c < 96" using Cons.prems by auto
  obtain e where e: "scroll_round D (c, d) = Some (?c, e)" "sent d (map ucast (window hello_world c)) e" "tx (F e) = []"
    using round_sent [of c d] Cons.prems by auto
  obtain d' where d': "for_each (\<lambda>i. scroll_round D) is (?c, e) = Some (scroll_pos ?c (length is), d')"
      "sent e (concat (map (?w ?c) [0..<length is])) d'" "tx (F d') = []"
    using Cons.IH [OF c e(3)] by blast
  have "[0..<length (i # is)] = 0 # map Suc [0..<length is]"
    by (simp add: map_Suc_upt upt_conv_Cons del: upt_Suc)
  then have eq: "concat (map (?w c) [0..<length (i # is)]) =
      map ucast (window hello_world c) @ concat (map (?w ?c) [0..<length is])"
    by (simp only: list.map concat.simps map_map comp_def scroll_pos_next [OF Cons.prems(1,2)])
  have "sent d (concat (map (?w c) [0..<length (i # is)])) d'"
    unfolding eq by (rule sent_trans [OF e(2) d'(2)])
  moreover have "for_each (\<lambda>i. scroll_round D) (i # is) (c, d) = Some (scroll_pos c (length (i # is)), d')"
    using e(1) d'(1) scroll_pos_next(2) [OF Cons.prems(1,2)] by simp
  ultimately show ?case using d'(3) by blast
qed

lemma test_spi_sent:
  assumes "length (tx (F d)) \<le> 8"
  shows "\<exists>d'. test_spi D system_clock n d = Some (scroll_pos 0 n, d') \<and>
    out (F d') = out (F d) @ tx (F d) @ replicate 64 0xE0 @ replicate 64 0x1C @ replicate 64 3 @
      concat (map (\<lambda>k. map ucast (window hello_world (scroll_pos 0 k))) [0..<n]) \<and> tx (F d') = []"
proof -
  have plain: "\<exists>d'. plain_picture D v d = Some d' \<and> sent d (replicate 64 (ucast v)) d' \<and> tx (F d') = []"
    if room: "length (tx (F d)) \<le> 8" for v d
  proof -
    have len: "length (replicate 64 v) = 64" by simp
    obtain e where e: "led_matrix_display_buffer D (replicate 64 v) d = Some e"
        "sent d (map ucast (replicate 64 v)) e" "tx (F e) = []"
      using picture_sent [OF len room] by blast
    obtain d' where d': "wait D 500000 e = Some d'" "spi_moves (F e) (F d')"
      using wait_moves [of 500000 e] by auto
    have "sent d (replicate 64 (ucast v)) d'"
      using sent_trans [OF e(2) moves_sent [OF d'(2)]] e(3) by simp
    moreover have "tx (F d') = []" using spi_moves_frames [OF d'(2)] e(3) by simp
    ultimately show ?thesis using e(1) d'(1) by (simp add: plain_picture_def)
  qed
  define d0 where "d0 = matrix_init D system_clock d"
  have s0: "sent d [] d0" unfolding d0_def by (rule moves_sent [OF init_moves assms])
  have l0: "length (tx (F d0)) \<le> 8" using s0 by (simp add: sent_def)
  obtain d1 where d1: "plain_picture D (shl 7 5) d0 = Some d1" "sent d0 (replicate 64 (ucast (shl 7 5 :: u8))) d1" "tx (F d1) = []"
    using plain [OF l0] by blast
  obtain d2 where d2: "plain_picture D (shl 7 2) d1 = Some d2" "sent d1 (replicate 64 (ucast (shl 7 2 :: u8))) d2" "tx (F d2) = []"
    using plain [of d1 "shl 7 2"] d1(3) by (auto simp del: push_bit_numeral)
  obtain d3 where d3: "plain_picture D 3 d2 = Some d3" "sent d2 (replicate 64 (ucast (3 :: u8))) d3" "tx (F d3) = []"
    using plain [of d2 3] d2(3) by auto
  obtain d' where d': "for_each (\<lambda>i. scroll_round D) [0..<n] (0, d3) = Some (scroll_pos 0 n, d')"
      "sent d3 (concat (map (\<lambda>k. map ucast (window hello_world (scroll_pos 0 k))) [0..<n])) d'" "tx (F d') = []"
    using rounds_sent [of 0 d3 "[0..<n]"] d3(3) by auto
  have "test_spi D system_clock n d = Some (scroll_pos 0 n, d')"
    using d1(1) d2(1) d3(1) d'(1) by (simp add: test_spi_def d0_def)
  moreover note sent_trans [OF s0 sent_trans [OF d1(2) sent_trans [OF d2(2) sent_trans [OF d3(2) d'(2)]]]]
  moreover have "(ucast (shl 7 5 :: u8) :: u16) = 0xE0" "(ucast (shl 7 2 :: u8) :: u16) = 0x1C" "(ucast (3 :: u8) :: u16) = 3"
    by simp_all
  ultimately show ?thesis using d'(3) by (simp add: sent_def)
qed

end

section \<open>A model of the matrix\<close>

text \<open>The SPI port of \<open>spi_device\<close> with a timer that counts the reads.\<close>

definition led_device :: "((bool \<times> spi_state) \<times> u32) device" where
  "led_device =
     (let b = rflpc_spi_get_base_addr SPI_PORT; S = spi_device b
      in \<lparr>dev_rd = (\<lambda>a (s, n).
            (if a = TIM_TC (rflpc_timer_base RFLPC_TIMER0) then n
             else if a = SSP_SR b \<and> tx (snd (snd (dev_rd S a s))) = [] then fst (dev_rd S a s) OR 1
             else fst (dev_rd S a s), (snd (dev_rd S a s), n + 1))),
          dev_wr = (\<lambda>a v (s, n). (dev_wr S a v s, n)),
          cpsid_i = (\<lambda>d. d), cpsie_i = (\<lambda>d. d)\<rparr>)"

lemma led_rd:
  "dev_rd led_device a (s, n) =
     (let b = rflpc_spi_get_base_addr SPI_PORT; (x, s') = dev_rd (spi_device b) a s
      in (if a = TIM_TC LPC_TIM0_BASE then n else if a = SSP_SR b \<and> tx (snd s') = [] then x OR 1 else x, (s', n + 1)))"
  by (auto simp: led_device_def Let_def split_def)

lemma led_reads:
  "after_reads led_device a k (s, n) =
     (after_reads (spi_device (rflpc_spi_get_base_addr SPI_PORT)) a k s, n + of_nat k)"
  by (induction k arbitrary: s n) (simp_all add: led_device_def Let_def algebra_simps)

lemma timer_is_not_spi:
  "TIM_TC LPC_TIM0_BASE \<noteq> SSP_SR (rflpc_spi_get_base_addr SPI_PORT)"
  by (simp add: SPI_PORT_def rflpc_spi_get_base_addr_def reg_addr base_defs)

interpretation model_matrix: led_matrix led_device "\<lambda>d. snd (fst d)"
proof
  let ?b = "rflpc_spi_get_base_addr SPI_PORT" and ?t = "TIM_TC (rflpc_timer_base RFLPC_TIMER0)"
  fix a :: addr and d :: "(bool \<times> spi_state) \<times> u32" and v m start :: u32
  obtain s n where d: "d = (s, n)" by (cases d)
  note rd = led_device_def Let_def d timer_is_not_spi timer_is_not_spi [symmetric]
  have one: "bit (x OR 1 :: u32) (Suc 0) = bit x (Suc 0)" for x by (simp add: bit_simps)
  show "bit (fst (dev_rd led_device (SSP_SR ?b) d)) 1 \<Longrightarrow> length (tx (snd (fst (snd (dev_rd led_device (SSP_SR ?b) d))))) < 8"
    using model_spi.rd_room [of ?b s] by (auto simp: rd one split: if_splits)
  show "spi_moves (snd (fst d)) (snd (fst (snd (dev_rd led_device a d))))"
    using model_spi.rd_moves [of s ?b a] by (simp add: rd)
  show "length (tx (snd (fst d))) < 8 \<Longrightarrow>
      snd (fst (dev_wr led_device (SSP_DR ?b) v d)) = (snd (fst d))\<lparr>tx := tx (snd (fst d)) @ [ucast v]\<rparr>"
    using model_spi.wr_frame [of s ?b v] by (simp add: rd)
  show "\<exists>n. bit (fst (dev_rd led_device (SSP_SR ?b) (after_reads led_device (SSP_SR ?b) n d))) 1"
    using model_spi.sends [of ?b s] by (auto simp: d led_reads led_rd Let_def split_def timer_is_not_spi [symmetric] one if_distrib)
  show "a \<noteq> SSP_DR ?b \<Longrightarrow> snd (fst (dev_wr led_device a v d)) = snd (fst d)"
    by (cases s) (simp add: rd spi_device_def)
  show "bit (fst (dev_rd led_device (SSP_SR ?b) d)) 0 \<Longrightarrow> tx (snd (fst (snd (dev_rd led_device (SSP_SR ?b) d)))) = []"
    by (cases s) (auto simp: rd spi_device_def split: if_splits)
  show "\<exists>n. bit (peek led_device (SSP_SR ?b) (after_reads led_device (SSP_SR ?b) n d)) 0"
  proof -
    define e where "e = after_reads (spi_device ?b) (SSP_SR ?b) (2 * length (tx (snd s))) s"
    have "tx (snd e) = []" using spi_device_drains [of ?b "SSP_SR ?b" "length (tx (snd s))" s] by (simp add: e_def)
    then have "tx (snd (snd (dev_rd (spi_device ?b) (SSP_SR ?b) e))) = []" by (simp add: spi_device_rd)
    then have "bit (peek led_device (SSP_SR ?b) (after_reads led_device (SSP_SR ?b) (2 * length (tx (snd s))) d)) 0"
      by (simp add: peek_def d led_reads flip: e_def)
        (simp add: led_device_def Let_def timer_is_not_spi [symmetric] bit_simps)
    then show ?thesis ..
  qed
  show "\<exists>n. m \<le> peek led_device ?t (after_reads led_device ?t n d) - start"
    by (rule exI [of _ "unat (m + start - n)"]) (simp add: peek_def d led_reads, simp add: led_rd Let_def split_def)
qed

section \<open>Properties\<close>

text \<open>C20. A scrolling text is a window on a strip: for every text without a zero byte, every picture of 64
  leds and every position before the end of the text, drawing the text gives the colour to the leds
  whose pixel is set in the eight columns of the strip from that position on, and leaves the others.
  The strip starts at column 0, eight columns a character, and the first character follows the last
  one again; the columns before it are empty.\<close>

theorem text_window:
  assumes "length buf = 64" and "0 \<notin> set cs" and "cs \<noteq> []" and "p < 8 * int (length cs)"
  shows "\<exists>b. display_text buf (cs @ [0]) p color = Some b \<and> length b = 64 \<and>
    (\<forall>j < 8. \<forall>i < 8. b ! (8 * j + i) =
       (if strip cs (p + int j) (int i) then color else buf ! (8 * j + i)))"
proof -
  have "p sdiv 8 \<le> int (length cs)" using assms(4) by (intro sdiv_8_le) auto
  from display_text_paints [OF assms(1,2) this, of color] obtain b where
    b: "display_text buf (cs @ [0]) p color = Some b"
      "painted (\<lambda>k. strip cs (p + int (k div 8)) (int (k mod 8))) color buf b"
    using painted_cong [OF _ letters_are_strip [OF assms(4,3)]] assms(1) by fastforce
  have "8 * j + i < length buf \<and> (8 * j + i) div 8 = j \<and> (8 * j + i) mod 8 = i" if "j < 8" "i < 8" for i j
    using that assms(1) by simp
  with b assms(1) show ?thesis by (auto simp: painted_def)
qed

lemma text_window_witness:
  "\<exists>b. display_text (replicate 64 0) ([72, 105] @ [0]) 12 7 = Some b \<and> length b = 64 \<and>
    (\<forall>j < 8. \<forall>i < 8. b ! (8 * j + i) = (if strip [72, 105] (12 + int j) (int i) then 7 else replicate 64 0 ! (8 * j + i)))"
  using text_window [of "replicate 64 0" "[72, 105]" 12 7] by simp

text \<open>C24. Drawing a text never reads or writes outside the picture, the font and the text when the position
  is at most at the last column of the terminator, however far it lies before the text, and gives
  a picture whose leds have the colour or are as before; from the next column on it reads past the end of
  the text.\<close>

theorem text_stays_inside:
  assumes "length buf = 64" and "0 \<notin> set cs"
  shows "if p < 8 * int (length cs + 1)
    then \<exists>b. display_text buf (cs @ [0]) p color = Some b \<and> length b = 64 \<and> (\<forall>k < 64. b ! k \<in> {color, buf ! k})
    else display_text buf (cs @ [0]) p color = None"
proof (cases "p < 8 * int (length cs + 1)")
  case True
  then have "p sdiv 8 \<le> int (length cs)" by (intro sdiv_8_le) auto
  from display_text_paints [OF assms this, of color] assms(1) True show ?thesis
    by (auto simp: painted_def)
next
  case False
  then have "int (length cs) + 1 \<le> p sdiv 8" by (simp add: sdiv_8)
  then have "get_byte (cs @ [0]) (p sdiv 8) = None" "0 \<le> p sdiv 8" by (auto simp: get_byte_def)
  with False show ?thesis
    by (simp add: display_text_def Let_def text_len_string [OF assms(2)])
qed

lemma text_stays_inside_witness:
  "(\<exists>b. display_text (replicate 64 0) ([72, 105] @ [0]) (- 1000) 7 = Some b \<and> length b = 64 \<and>
      (\<forall>k < 64. b ! k \<in> {7, replicate 64 0 ! k})) \<and>
   display_text (replicate 64 0) ([72, 105] @ [0]) 24 7 = None"
  using text_stays_inside [of "replicate 64 0" "[72, 105]" "- 1000" 7]
    text_stays_inside [of "replicate 64 0" "[72, 105]" 24 7] by simp

text \<open>C23. The demonstration shows the text: on a matrix that takes its frames and a timer that runs, the
  first n rounds return for every n, and what the matrix receives is the three plain pictures and then, in
  every round, the window on the text at a position that runs through -8 to 95 over and over from 0 on.\<close>

theorem scroller_shows:
  assumes "led_matrix D F" and "length (tx (F d)) \<le> 8"
  shows "\<exists>d'. test_spi D system_clock n d = Some ((int n + 8) mod 104 - 8, d') \<and> tx (F d') = [] \<and>
    out (F d') = out (F d) @ tx (F d) @ replicate 64 0xE0 @ replicate 64 0x1C @ replicate 64 3 @
      concat (map (\<lambda>k. map ucast (window hello_world ((int k + 8) mod 104 - 8))) [0..<n])"
  using led_matrix.test_spi_sent [OF assms, of system_clock n]
  by (auto simp: scroll_pos_def add.commute)

lemma scroller_shows_witness:
  "\<exists>d'. test_spi led_device 96000000 200 ((False, \<lparr>out = [], tx = [1]\<rparr>), 0) = Some (- 8, d') \<and>
    length (out (snd (fst d'))) = 1 + 203 * 64"
  using scroller_shows [OF model_matrix.led_matrix_axioms, of "((False, \<lparr>out = [], tx = [1]\<rparr>), 0)" 96000000 200]
  by (auto simp: length_concat comp_def window_def sum_list_triv)

text \<open>The clock of the matrix: for every system clock of at least a megahertz the search ends with a rate and a
  pre-scaler that fit a byte.\<close>

lemma matrix_dividers_fit:
  "1 \<le> snd (matrix_dividers clk)" "fst (matrix_dividers clk) \<le> 254" "snd (matrix_dividers clk) \<le> 18"
  "fst (matrix_dividers 96000000) = 96 \<and> snd (matrix_dividers 96000000) = 1"
proof -
  have loop: "rate \<le> serial_rate needed rate \<and> needed div serial_rate needed rate \<le> 254 \<and> serial_rate needed rate \<le> 18"
    if "rate \<le> 18" "needed \<le> 4294" for needed rate
    using that
  proof (induction needed rate rule: serial_rate.induct)
    case (1 needed rate)
    have step: "serial_rate needed rate = (if needed div rate > 254 then serial_rate needed (rate + 1) else rate)"
      by (rule serial_rate.simps)
    show ?case
    proof (cases "needed div rate > 254")
      case True
      have "rate < 18"
      proof (rule ccontr)
        assume "\<not> rate < 18"
        then have "needed div rate \<le> 4294 div 18" using 1(2,3) by (simp add: div_le_mono)
        with True show False by simp
      qed
      then have "rate + 1 \<le> 18" by simp
      from 1(1) [OF True this 1(3)] show ?thesis using True by (simp add: step)
    next
      case False
      then show ?thesis using 1(2) by (simp add: step)
    qed
  qed
  have "unat clk div 8 div 125000 \<le> 4294967296 div 8 div 125000"
    using unat_u32 [of clk] by (intro div_le_mono) simp
  then have n: "unat clk div 8 div 125000 \<le> 4294" by simp
  show "1 \<le> snd (matrix_dividers clk)" "fst (matrix_dividers clk) \<le> 254" "snd (matrix_dividers clk) \<le> 18"
    using loop [OF _ n, of 1] by (simp_all add: matrix_dividers_def rflpc_clock_get_system_clock_def Let_def)
  show "fst (matrix_dividers 96000000) = 96 \<and> snd (matrix_dividers 96000000) = 1"
    by (simp add: matrix_dividers_def rflpc_clock_get_system_clock_def Let_def)
      (subst (1 2) serial_rate.simps, simp)
qed

end
