(* ===== verification/Setjmp.thy ===== *)
theory Setjmp
  imports Prelude
begin

text \<open>
  \<^verbatim>\<open>rflpc17xx/tinylibc/setjmp.c\<close>: leaving a function for a place saved before. The two functions are inline
  assembly, so the model is the machine: the registers, of which 13 is the stack pointer, 14 the link
  register and 15 the program counter, and the words of the memory. The two functions keep no frame of
  their own: the compiler passes \<^verbatim>\<open>env\<close> in register 0 and \<^verbatim>\<open>val\<close> in register 1, and a \<^verbatim>\<open>return\<close> puts the
  value in register 0 and jumps to the link register.
\<close>

section \<open>The instructions\<close>

type_synonym regs = "nat \<Rightarrow> u32"
type_synonym words = "u32 \<Rightarrow> u32"

abbreviation SP :: nat where "SP \<equiv> 13"
abbreviation LR :: nat where "LR \<equiv> 14"
abbreviation PC :: nat where "PC \<equiv> 15"

text \<open>\<^verbatim>\<open>stmia rn!, {...}\<close> and \<^verbatim>\<open>ldmia rn!, {...}\<close>: the registers in ascending order, to or from ascending
  addresses; \<open>rn\<close> is left behind the last word and is none of the list.\<close>

fun stmia :: "nat \<Rightarrow> nat list \<Rightarrow> regs \<times> words \<Rightarrow> regs \<times> words" where
  "stmia rn [] (R, m) = (R, m)"
| "stmia rn (x # xs) (R, m) = stmia rn xs (R(rn := R rn + 4), m(R rn := R x))"

fun ldmia :: "nat \<Rightarrow> nat list \<Rightarrow> regs \<times> words \<Rightarrow> regs \<times> words" where
  "ldmia rn [] (R, m) = (R, m)"
| "ldmia rn (x # xs) (R, m) = ldmia rn xs (R(x := m (R rn), rn := R rn + 4), m)"

text \<open>\<^verbatim>\<open>{r3-r12,lr}\<close>\<close>

definition saved_registers :: "nat list" where
  "saved_registers = [3, 4, 5, 6, 7, 8, 9, 10, 11, 12, LR]"

definition return_with :: "u32 \<Rightarrow> regs \<times> words \<Rightarrow> regs \<times> words" where
  "return_with v st = (let (R, m) = st in (R(0 := v, PC := R LR), m))"

section \<open>The two functions\<close>

definition setjmp :: "regs \<times> words \<Rightarrow> regs \<times> words" where
  "setjmp st =
     (let (R, m) = st;
          ret = 0;
          env = R 0;
          R = R(0 := env);
          R = R(3 := R SP)
      in return_with ret (stmia 0 saved_registers (R, m)))"

definition longjmp :: "regs \<times> words \<Rightarrow> regs \<times> words" where
  "longjmp st =
     (let (R, m) = st;
          env = R 0; val = R 1;
          R = R(0 := env);
          (R, m) = ldmia 0 saved_registers (R, m);
          R = R(SP := R 3)
      in return_with val (R, m))"

text \<open>\<^verbatim>\<open>typedef uint32_t jmp_buf[12];\<close>\<close>

definition jmp_buf :: "u32 \<Rightarrow> u32 set" where
  "jmp_buf env = {env + 4 * of_nat i | i. i < 12}"

section \<open>What is stored\<close>

lemma setjmp_stores:
  "setjmp (R, m) =
     (R(0 := 0, 3 := R SP, PC := R LR),
      m(R 0 := R SP, R 0 + 4 := R 4, R 0 + 8 := R 5, R 0 + 12 := R 6, R 0 + 16 := R 7, R 0 + 20 := R 8,
        R 0 + 24 := R 9, R 0 + 28 := R 10, R 0 + 32 := R 11, R 0 + 36 := R 12, R 0 + 40 := R LR))"
  by (simp add: setjmp_def saved_registers_def return_with_def Let_def add.assoc)
    (rule ext, simp)

lemma longjmp_loads:
  "longjmp (R, m) =
     (R(0 := R 1, 3 := m (R 0), 4 := m (R 0 + 4), 5 := m (R 0 + 8), 6 := m (R 0 + 12), 7 := m (R 0 + 16),
        8 := m (R 0 + 20), 9 := m (R 0 + 24), 10 := m (R 0 + 28), 11 := m (R 0 + 32), 12 := m (R 0 + 36),
        SP := m (R 0), LR := m (R 0 + 40), PC := m (R 0 + 40)), m)"
  by (simp add: longjmp_def saved_registers_def return_with_def Let_def add.assoc)
    (rule ext, simp)

section \<open>Properties\<close>

text \<open>C22. A long jump comes back to the place that was saved: from any registers, in any memory whose words of
  the buffer are those \<^verbatim>\<open>setjmp\<close> left, \<^verbatim>\<open>longjmp\<close> goes on where that call of \<^verbatim>\<open>setjmp\<close> returned to, with its stack
  pointer and its registers 4 to 12, and with the value passed as the result; it changes no memory, and
  \<^verbatim>\<open>setjmp\<close>, which itself returned 0, has changed none but the buffer. A value of 0 is passed
  on as it is, and then the caller cannot tell the two returns apart.\<close>

theorem setjmp_longjmp:
  assumes "setjmp (R, m) = (R1, m1)" and "\<forall>a \<in> jmp_buf (R 0). m2 a = m1 a"
    and "Q 0 = R 0" and "longjmp (Q, m2) = (R3, m3)"
  shows "R1 0 = 0 \<and> R1 PC = R LR \<and> (\<forall>a. a \<notin> jmp_buf (R 0) \<longrightarrow> m1 a = m a) \<and>
    R3 0 = Q 1 \<and> R3 PC = R LR \<and> R3 SP = R SP \<and> R3 LR = R LR \<and> (\<forall>i \<in> {4..12}. R3 i = R i) \<and> m3 = m2"
proof -
  have mem: "R 0 + 4 * of_nat i \<in> jmp_buf (R 0)" if "i < 12" for i
    using that by (auto simp: jmp_buf_def)
  have m2: "m2 (R 0 + 4 * of_nat i) = m1 (R 0 + 4 * of_nat i)" if "i < 12" for i
    using assms(2) mem [OF that] by blast
  note word = m2 [of 0, simplified] m2 [of 1, simplified] m2 [of 2, simplified] m2 [of 3, simplified]
    m2 [of 4, simplified] m2 [of 5, simplified] m2 [of 6, simplified] m2 [of 7, simplified]
    m2 [of 8, simplified] m2 [of 9, simplified] m2 [of 10, simplified]
  note inside = mem [of 0, simplified] mem [of 1, simplified] mem [of 2, simplified] mem [of 3, simplified]
    mem [of 4, simplified] mem [of 5, simplified] mem [of 6, simplified] mem [of 7, simplified]
    mem [of 8, simplified] mem [of 9, simplified] mem [of 10, simplified]
  have R1: "R1 = R(0 := 0, 3 := R SP, PC := R LR)" and m1: "m1 =
      m(R 0 := R SP, R 0 + 4 := R 4, R 0 + 8 := R 5, R 0 + 12 := R 6, R 0 + 16 := R 7, R 0 + 20 := R 8,
        R 0 + 24 := R 9, R 0 + 28 := R 10, R 0 + 32 := R 11, R 0 + 36 := R 12, R 0 + 40 := R LR)"
    using assms(1) unfolding setjmp_stores by simp_all
  have outside: "m1 a = m a" if "a \<notin> jmp_buf (R 0)" for a
    using that inside by (auto simp: m1)
  have R3: "R3 0 = Q 1 \<and> R3 PC = R LR \<and> R3 SP = R SP \<and> R3 LR = R LR \<and> m3 = m2"
    using assms(4) unfolding longjmp_loads by (auto simp: assms(3) word m1)
  have "i = 4 \<or> i = 5 \<or> i = 6 \<or> i = 7 \<or> i = 8 \<or> i = 9 \<or> i = 10 \<or> i = 11 \<or> i = 12" if "i \<in> {4..12}" for i :: nat
    using that by auto
  moreover have "R3 4 = R 4 \<and> R3 5 = R 5 \<and> R3 6 = R 6 \<and> R3 7 = R 7 \<and> R3 8 = R 8 \<and> R3 9 = R 9 \<and> R3 10 = R 10 \<and>
      R3 11 = R 11 \<and> R3 12 = R 12"
    using assms(4) unfolding longjmp_loads by (auto simp: assms(3) word m1)
  ultimately have "\<forall>i \<in> {4..12}. R3 i = R i" by blast
  then show ?thesis using R3 R1 outside by simp
qed

lemma setjmp_longjmp_witness:
  "fst (longjmp ((\<lambda>i. 7)(0 := 0x10000100, 1 := 3),
      snd (setjmp ((\<lambda>i. of_nat i)(0 := 0x10000100, SP := 0x10007000, LR := 0x201), \<lambda>a. 0)))) SP = 0x10007000"
proof -
  let ?R = "(\<lambda>i :: nat. of_nat i :: u32)(0 := 0x10000100, SP := 0x10007000, LR := 0x201)"
  let ?Q = "(\<lambda>i :: nat. 7 :: u32)(0 := 0x10000100, 1 := 3)"
  obtain R1 m1 where 1: "setjmp (?R, \<lambda>a. 0) = (R1, m1)" by (metis surj_pair)
  obtain R3 m3 where 3: "longjmp (?Q, m1) = (R3, m3)" by (metis surj_pair)
  have "?Q 0 = ?R 0" by simp
  from setjmp_longjmp [OF 1 _ this 3] have "R3 SP = 0x10007000" by simp
  then show ?thesis unfolding 1 by (simp only: snd_conv 3 fst_conv)
qed

end
