(* ===== verification/Flash_Test.thy ===== *)
theory Flash_Test
  imports Iap Rand
begin

text \<open>
  \<^verbatim>\<open>samples/test-flash/main.c\<close>: a program that writes the flash through the driver in several ways and
  reads it back. The addresses the linker gives to its arrays are arguments, what it prints is left
  out, and a \<^verbatim>\<open>char\<close> is unsigned, as on this processor. The counters of the loops never get negative.
\<close>

section \<open>The tests\<close>

definition DATA_SIZE :: nat where "DATA_SIZE = 256"
definition SECTOR_START_INDEX :: int where "SECTOR_START_INDEX = 20"
definition SECTOR_START_ADDRESS :: addr where "SECTOR_START_ADDRESS = 0x00030000"
definition WRITING_BUFFER_SIZE :: nat where "WRITING_BUFFER_SIZE = 128"

text \<open>\<^verbatim>\<open>for (i = 0; i < n; i++) a[i] = f(i);\<close> and the loops that compare two arrays; \<open>err\<close> is what they return
  at the first difference.\<close>

definition fill :: "addr \<Rightarrow> (nat \<Rightarrow> u8) \<Rightarrow> nat \<Rightarrow> mem \<Rightarrow> mem" where
  "fill a f n m = fold (\<lambda>i m. m(a + of_nat i := f i)) [0..<n] m"

definition compare :: "int \<Rightarrow> addr \<Rightarrow> addr \<Rightarrow> nat \<Rightarrow> 'r flash_state \<Rightarrow> int \<times> 'r flash_state" where
  "compare err a b n st =
     (if list_ex (\<lambda>i. fst st (a + of_nat i) \<noteq> fst st (b + of_nat i)) [0..<n] then (err, st) else (0, st))"

definition test_simple_copy ::
  "'r iap_function \<Rightarrow> u32 \<Rightarrow> addr \<Rightarrow> addr \<Rightarrow> int \<Rightarrow> int \<Rightarrow> 'r flash_state \<Rightarrow> int \<times> 'r flash_state" where
  "test_simple_copy iap system_clock data anAddress aStartSector anEndSector st =
     (let (m, r) = st;
          st = (fill data (\<lambda>i. of_nat (i mod 256)) DATA_SIZE m, r);
          (_, st) = rflpc_iap_prepare_sectors_for_writing iap aStartSector anEndSector st;
          (_, st) = rflpc_iap_erase_sectors iap system_clock aStartSector anEndSector st;
          (_, st) = rflpc_iap_prepare_sectors_for_writing iap aStartSector anEndSector st;
          (_, st) = rflpc_iap_copy_ram_to_flash iap system_clock anAddress data (int DATA_SIZE) st
      in compare (- 1) anAddress data DATA_SIZE st)"

definition test_writing ::
  "'r iap_function \<Rightarrow> u32 \<Rightarrow> addr \<Rightarrow> addr \<Rightarrow> addr \<Rightarrow> 'r flash_state \<Rightarrow> int \<times> 'r flash_state" where
  "test_writing iap system_clock ibuf buffer anAddress st =
     (let (ret, st) = rflpc_iap_write_to_sector iap system_clock ibuf anAddress buffer 8 st
      in (if ret \<noteq> 0 then - 1 else 0, st))"

fun rand_fill :: "addr \<Rightarrow> nat list \<Rightarrow> u32 \<Rightarrow> mem \<Rightarrow> u32 \<times> mem" where
  "rand_fill a [] seed m = (seed, m)"
| "rand_fill a (i # is) seed m =
     (let (x, seed) = rand seed in rand_fill a is seed (m(a + of_nat i := ucast (x AND 0xFF))))"

text \<open>Only the last of the four results is tested.\<close>

definition test_writing_from_ram ::
  "'r iap_function \<Rightarrow> u32 \<Rightarrow> addr \<Rightarrow> addr \<Rightarrow> u32 \<Rightarrow> 'r flash_state \<Rightarrow> int \<times> u32 \<times> 'r flash_state" where
  "test_writing_from_ram iap system_clock testBuffer anAddress seed st =
     (let (m, r) = st;
          (seed, m) = rand_fill testBuffer [0..<4096] (srand 10 seed) m;
          sector = rflpc_iap_get_sector_from_address anAddress;
          (_, st) = rflpc_iap_prepare_sectors_for_writing iap sector sector (m, r);
          (_, st) = rflpc_iap_erase_sectors iap system_clock sector sector st;
          (_, st) = rflpc_iap_prepare_sectors_for_writing iap sector sector st;
          (ret, st) = rflpc_iap_copy_ram_to_flash iap system_clock anAddress testBuffer 4096 st
      in if ret \<noteq> 0 then (- 1, seed, st)
         else (let (ret, st) = compare (- 2) testBuffer anAddress 4096 st in (ret, seed, st)))"

fun sequence_loop ::
  "'r iap_function \<Rightarrow> u32 \<Rightarrow> addr \<Rightarrow> addr \<Rightarrow> nat \<Rightarrow> addr \<Rightarrow> 'r flash_state \<Rightarrow> int \<times> 'r flash_state" where
  "sequence_loop iap system_clock ibuf buffer 0 destination st = (0, st)"
| "sequence_loop iap system_clock ibuf buffer (Suc i) destination st =
     (let (ret, st) = rflpc_iap_write_to_sector iap system_clock ibuf destination buffer 8 st
      in if ret \<noteq> 0 then (- 1, st) else sequence_loop iap system_clock ibuf buffer i (destination + 8) st)"

definition testSequence ::
  "'r iap_function \<Rightarrow> u32 \<Rightarrow> addr \<Rightarrow> addr \<Rightarrow> addr \<Rightarrow> 'r flash_state \<Rightarrow> int \<times> 'r flash_state" where
  "testSequence iap system_clock ibuf buffer anAddress = sequence_loop iap system_clock ibuf buffer 2 anAddress"

text \<open>The loop of \<^verbatim>\<open>testBufferedWriting\<close> over the bytes left; it gives back the error, or \<^verbatim>\<open>j\<close> and \<^verbatim>\<open>k\<close>.\<close>

fun buffered_loop ::
  "'r iap_function \<Rightarrow> u32 \<Rightarrow> addr \<Rightarrow> addr \<Rightarrow> addr \<Rightarrow> addr \<Rightarrow> nat list \<Rightarrow> nat \<Rightarrow> nat \<Rightarrow> 'r flash_state \<Rightarrow>
    (int + nat \<times> nat) \<times> 'r flash_state" where
  "buffered_loop iap system_clock ibuf writingBuffer obj destination [] j k st = (Inr (j, k), st)"
| "buffered_loop iap system_clock ibuf writingBuffer obj destination (i # is) j k st =
     (if j < WRITING_BUFFER_SIZE
      then
        (let (m, r) = st
         in buffered_loop iap system_clock ibuf writingBuffer obj destination is (j + 1) k
              (m(writingBuffer + of_nat j := m (obj + of_nat i)), r))
      else
        (let (ret, m, r) = rflpc_iap_write_to_sector iap system_clock ibuf (destination + of_nat k) writingBuffer
               (int WRITING_BUFFER_SIZE) st
         in if ret \<noteq> 0 then (Inl (- 1), m, r)
            else buffered_loop iap system_clock ibuf writingBuffer obj destination is 1 (k + WRITING_BUFFER_SIZE)
                   (m(writingBuffer := m (obj + of_nat i)), r)))"

definition testBufferedWriting ::
  "'r iap_function \<Rightarrow> u32 \<Rightarrow> addr \<Rightarrow> addr \<Rightarrow> addr \<Rightarrow> nat \<Rightarrow> addr \<Rightarrow> 'r flash_state \<Rightarrow> int \<times> 'r flash_state" where
  "testBufferedWriting iap system_clock ibuf writingBuffer obj object_size anAddress st =
     (case buffered_loop iap system_clock ibuf writingBuffer obj anAddress [0..<object_size] 0 0 st of
        (Inl err, st) \<Rightarrow> (err, st)
      | (Inr (j, k), st) \<Rightarrow>
          (let (ret, st) =
             (if j > 0
              then rflpc_iap_write_to_sector iap system_clock ibuf (anAddress + of_nat k) writingBuffer (int j) st
              else (0, st))
           in if ret \<noteq> 0 then (1, st) else compare (- 2) anAddress obj object_size st))"

definition large_size :: nat where "large_size = 6000"

definition testLargeBuffer ::
  "'r iap_function \<Rightarrow> u32 \<Rightarrow> addr \<Rightarrow> addr \<Rightarrow> addr \<Rightarrow> 'r flash_state \<Rightarrow> int \<times> 'r flash_state" where
  "testLargeBuffer iap system_clock ibuf largeBuffer anAddress st =
     (let (m, r) = st;
          m = fill largeBuffer (\<lambda>i. of_nat (i mod 256)) large_size m;
          (ret, st) = rflpc_iap_write_buffer iap system_clock ibuf anAddress largeBuffer (int large_size) (m, r)
      in if ret \<noteq> 0 then (- 1, st) else compare (- 2) anAddress largeBuffer large_size st)"

definition testWritingInto32k ::
  "'r iap_function \<Rightarrow> u32 \<Rightarrow> addr \<Rightarrow> addr \<Rightarrow> 'r flash_state \<Rightarrow> int \<times> 'r flash_state" where
  "testWritingInto32k iap system_clock ibuf largeBuffer st =
     (let address32k = rflpc_iap_get_address_from_sector 16;
          address4k = rflpc_iap_get_address_from_sector 9;
          (m, r) = st;
          m = fill largeBuffer (\<lambda>i. of_nat (i mod 256)) large_size m;
          (ret, st) = rflpc_iap_write_buffer iap system_clock ibuf address4k largeBuffer (int large_size) (m, r)
      in if ret \<noteq> 0 then (- 1, st)
         else
           (let (ret, st) = rflpc_iap_transfert_4ks_to_32k iap system_clock ibuf address32k address4k (int large_size) st
            in if ret \<noteq> 0 then (- 2, st) else compare (- 3) address32k largeBuffer large_size st))"

section \<open>Filling and comparing\<close>

lemma fill_apply:
  assumes "n < 2 ^ 32"
  shows "fill a f n m b = (if unat (b - a) < n then f (unat (b - a)) else m b)"
  using assms
proof (induction n)
  case (Suc n)
  have "b = a + of_nat n \<longleftrightarrow> unat (b - a) = n" using Suc.prems by (intro offset_eq) simp
  with Suc show ?case by (auto simp: fill_def less_Suc_eq)
qed (simp add: fill_def)

lemma compare_equal:
  "(\<And>i. i < n \<Longrightarrow> m (a + of_nat i) = m (b + of_nat i)) \<Longrightarrow> compare err a b n (m, r) = (0, m, r)"
  by (auto simp: compare_def list_ex_iff)

lemma offset_less: "n < 2 ^ 32 \<Longrightarrow> (x :: u32) < of_nat n \<longleftrightarrow> unat x < n"
  by (simp add: word_less_nat_alt unat_of_nat)

lemma of_nat_sub_less:
  "k + n < 2 ^ 32 \<Longrightarrow> 0 < n \<Longrightarrow> x < 2 ^ 32 \<Longrightarrow> (of_nat x :: u32) - of_nat k < of_nat n \<longleftrightarrow> k \<le> x \<and> x < k + n"
  by (simp add: sub_of_nat_less unat_of_nat)

section \<open>Buffered writing in the contract of the ROM\<close>

text \<open>The condition on the call (not code): the object may be anywhere outside the buffers, the ROM's area and its
  destination; each chunk of up to 128 bytes is one the driver writes inside a sector (\<open>sector_write\<close>), so
  none crosses a sector boundary, and the last one has no one to three bytes between word aligned addresses.\<close>

definition buffered_ok :: "addr set \<Rightarrow> addr \<Rightarrow> addr \<Rightarrow> addr \<Rightarrow> nat \<Rightarrow> addr \<Rightarrow> bool" where
  "buffered_ok W ibuf wbuf obj n dest \<longleftrightarrow>
     0 < n \<and> unat dest + n \<le> 65536 \<and> ram_block W wbuf 128 \<and>
     (\<forall>k < n. k mod 128 = 0 \<longrightarrow> sector_write W ibuf (dest + of_nat k) wbuf (int (min 128 (n - k)))) \<and>
     (\<forall>i < n. obj + of_nat i \<notin> W \<and> \<not> obj + of_nat i - ibuf < 4096 \<and> \<not> obj + of_nat i - wbuf < 128 \<and>
       \<not> obj + of_nat i - dest < of_nat n)"

text \<open>After \<open>i = k + j\<close> bytes: \<open>j\<close> of them wait in the buffer, \<open>k\<close> are in the flash.\<close>

definition buffered_inv :: "addr set \<Rightarrow> addr \<Rightarrow> addr \<Rightarrow> addr \<Rightarrow> nat \<Rightarrow> addr \<Rightarrow> mem \<Rightarrow> nat \<Rightarrow> nat \<Rightarrow> mem \<Rightarrow> bool" where
  "buffered_inv W ibuf wbuf obj n dest m0 j k m \<longleftrightarrow>
     j \<le> 128 \<and> k mod 128 = 0 \<and> (0 < k \<longrightarrow> 0 < j) \<and> k + j \<le> n \<and>
     (\<forall>x < j. m (wbuf + of_nat x) = m0 (obj + of_nat (k + x))) \<and>
     (\<forall>x < k. m (dest + of_nat x) = m0 (obj + of_nat x)) \<and>
     (\<forall>a. a \<notin> W \<longrightarrow> \<not> a - ibuf < 4096 \<longrightarrow> \<not> a - wbuf < 128 \<longrightarrow> \<not> a - dest < of_nat n \<longrightarrow> m a = m0 a)"

context iap_rom
begin

lemma buffered_chunk:
  assumes clk: "system_clock div 1000 = khz" and ok: "buffered_ok W ibuf wbuf obj n dest"
    and inv: "buffered_inv W ibuf wbuf obj n dest m0 j k m" and j: "0 < j" "j = min 128 (n - k)"
  shows "\<exists>m' r'. rflpc_iap_write_to_sector iap system_clock ibuf (dest + of_nat k) wbuf (int j) (m, r) = (0, m', r') \<and>
    (\<forall>x < k + j. m' (dest + of_nat x) = m0 (obj + of_nat x)) \<and>
    (\<forall>a. a \<notin> W \<longrightarrow> \<not> a - ibuf < 4096 \<longrightarrow> \<not> a - wbuf < 128 \<longrightarrow> \<not> a - dest < of_nat n \<longrightarrow> m' a = m0 a)"
proof -
  note ok = ok [unfolded buffered_ok_def] and inv = inv [unfolded buffered_inv_def]
  have kn: "k < n" "k mod 128 = 0" "k + j \<le> n" "n \<le> 65536" "j \<le> 128" using ok inv j by auto
  have w: "sector_write W ibuf (dest + of_nat k) wbuf (int j)" using ok kn j(2) by simp
  obtain m' r' where m': "rflpc_iap_write_to_sector iap system_clock ibuf (dest + of_nat k) wbuf (int j) (m, r) = (0, m', r')"
    "\<forall>a. a \<notin> W \<longrightarrow> \<not> a - ibuf < 4096 \<longrightarrow> m' a = (if a - (dest + of_nat k) < of_int (int j)
       then m (wbuf + (a - (dest + of_nat k))) else m a)"
    using write_in_sector [OF clk w] by blast
  have flash: "dest + of_nat x \<notin> W \<and> \<not> dest + of_nat x - ibuf < 4096" if "x < n" for x
  proof -
    have "unat (dest + of_nat x) < 65536"
      using ok that by (simp add: unat_word_ariths unat_of_nat)
    then have "dest + of_nat x < 0x80000" by (simp add: word_less_nat_alt)
    moreover have "ram_block W ibuf 4096" using w by (simp add: sector_write_def Let_def)
    ultimately show ?thesis using rom_work by (auto simp: ram_block_def)
  qed
  have in_chunk: "dest + of_nat x - (dest + of_nat k) < of_int (int j) \<longleftrightarrow> k \<le> x \<and> x < k + j" if "x < n" for x
    using of_nat_sub_less [of k j x] that kn j(1) by simp
  have data: "m' (dest + of_nat x) = m0 (obj + of_nat x)" if x: "x < k + j" for x
  proof -
    have xn: "x < n" using x kn by simp
    have val: "m' (dest + of_nat x) = (if k \<le> x \<and> x < k + j
        then m (wbuf + (dest + of_nat x - (dest + of_nat k))) else m (dest + of_nat x))"
      using m'(2) flash [OF xn] in_chunk [OF xn] by simp
    show ?thesis
    proof (cases "k \<le> x")
      case True
      then have "dest + of_nat x - (dest + of_nat k) = of_nat (x - k)" by (simp add: of_nat_diff)
      moreover have "\<forall>y < j. m (wbuf + of_nat y) = m0 (obj + of_nat (k + y))" using inv by blast
      from this [rule_format, of "x - k"] have "m (wbuf + of_nat (x - k)) = m0 (obj + of_nat x)"
        using x True by simp
      ultimately show ?thesis using val True x by simp
    next
      case False
      then show ?thesis using val inv by simp
    qed
  qed
  have rest: "m' a = m0 a" if a: "a \<notin> W" "\<not> a - ibuf < 4096" "\<not> a - wbuf < 128" "\<not> a - dest < of_nat n" for a
  proof -
    have "\<not> a - (dest + of_nat k) < of_int (int j)"
    proof
      assume "a - (dest + of_nat k) < of_int (int j)"
      then have "(a - dest) - of_nat k < of_nat j" by (simp add: diff_diff_eq)
      then have "unat (a - dest) < k + j" using sub_of_nat_less [of k j "a - dest"] kn j(1) by simp
      then have "a - dest < of_nat n" using offset_less [of n "a - dest"] kn by simp
      with a(4) show False ..
    qed
    with m'(2) a inv show ?thesis by simp
  qed
  from m'(1) data rest show ?thesis by blast
qed

lemma buffered_loop_inv:
  assumes clk: "system_clock div 1000 = khz" and ok: "buffered_ok W ibuf wbuf obj n dest"
    and inv: "buffered_inv W ibuf wbuf obj n dest m0 j k m"
  shows "\<exists>j' k' m' r'. buffered_loop iap system_clock ibuf wbuf obj dest [k + j..<n] j k (m, r) = (Inr (j', k'), m', r') \<and>
    buffered_inv W ibuf wbuf obj n dest m0 j' k' m' \<and> k' + j' = n"
  using inv
proof (induction "n - (k + j)" arbitrary: j k m r)
  case 0
  then have "k + j = n" by (simp add: buffered_inv_def)
  with 0 show ?case by auto
next
  case (Suc l)
  note okd = ok [unfolded buffered_ok_def] and inv = Suc.prems [unfolded buffered_inv_def]
  have okobj: "obj + of_nat x \<notin> W \<and> \<not> obj + of_nat x - ibuf < 4096 \<and> \<not> obj + of_nat x - wbuf < 128 \<and>
      \<not> obj + of_nat x - dest < of_nat n" if "x < n" for x
    using ok that by (simp add: buffered_ok_def)
  have rest: "m a = m0 a" if "a \<notin> W" "\<not> a - ibuf < 4096" "\<not> a - wbuf < 128" "\<not> a - dest < of_nat n" for a
    using inv that by simp
  have i: "k + j < n" using Suc.hyps(2) by simp
  have wbuf: "wbuf + of_nat x \<noteq> wbuf + of_nat y" if "x < 128" "y < 128" "x \<noteq> y" for x y
    using that by (simp add: of_nat_word_inj)
  have upt: "[k + j..<n] = (k + j) # [Suc (k + j)..<n]" using i by (rule upt_conv_Cons)
  have wnot: "wbuf + of_nat x - wbuf < 128" if "x < 128" for x
    using that by (simp add: word_less_nat_alt unat_of_nat)
  have dest_wbuf: "dest + of_nat x \<noteq> wbuf + of_nat y" if "x < n" "y < 128" for x y
  proof
    assume eq: "dest + of_nat x = wbuf + of_nat y"
    have "unat (dest + of_nat x) < 65536" using okd that by (simp add: unat_word_ariths unat_of_nat)
    then have "wbuf + of_nat y < 0x80000" unfolding eq [symmetric] by (simp add: word_less_nat_alt)
    then show False using okd wnot [OF that(2)] unfolding ram_block_def by blast
  qed
  show ?case
  proof (cases "j < 128")
    case True
    define m1 where "m1 = m(wbuf + of_nat j := m (obj + of_nat (k + j)))"
    have "m (obj + of_nat (k + j)) = m0 (obj + of_nat (k + j))" using okobj [OF i] rest by blast
    then have buf: "\<forall>x < j + 1. m1 (wbuf + of_nat x) = m0 (obj + of_nat (k + x))"
    proof (intro allI impI)
      fix x assume "x < j + 1"
      then consider "x = j" | "x < j" by linarith
      then show "m1 (wbuf + of_nat x) = m0 (obj + of_nat (k + x))"
      proof cases
        case 1
        then show ?thesis using \<open>m (obj + of_nat (k + j)) = m0 (obj + of_nat (k + j))\<close> by (simp add: m1_def)
      next
        case 2
        then show ?thesis using inv True wbuf [of x j] by (simp add: m1_def)
      qed
    qed
    have "buffered_inv W ibuf wbuf obj n dest m0 (j + 1) k m1"
      unfolding buffered_inv_def
    proof (intro conjI buf)
      show "\<forall>x < k. m1 (dest + of_nat x) = m0 (obj + of_nat x)"
        using inv i dest_wbuf [OF _ True] by (simp add: m1_def)
      show "\<forall>a. a \<notin> W \<longrightarrow> \<not> a - ibuf < 4096 \<longrightarrow> \<not> a - wbuf < 128 \<longrightarrow> \<not> a - dest < of_nat n \<longrightarrow> m1 a = m0 a"
        using inv wnot [OF True] by (auto simp: m1_def)
    qed (use inv True i in auto)
    have l: "l = n - (k + (j + 1))" using Suc.hyps(2) by simp
    from Suc.hyps(1) [OF l \<open>buffered_inv W ibuf wbuf obj n dest m0 (j + 1) k m1\<close>, of r] obtain j' k' m' r' where
      "buffered_loop iap system_clock ibuf wbuf obj dest [k + (j + 1)..<n] (j + 1) k (m1, r) = (Inr (j', k'), m', r')"
      "buffered_inv W ibuf wbuf obj n dest m0 j' k' m'" "k' + j' = n"
      by blast
    then show ?thesis unfolding upt using True by (auto simp: WRITING_BUFFER_SIZE_def m1_def)
  next
    case False
    then have j: "j = 128" using inv by simp
    have full: "0 < j" "j = min 128 (n - k)" using i j by simp_all
    from buffered_chunk [OF clk ok Suc.prems full, of r] obtain m1 r1 where
      w: "rflpc_iap_write_to_sector iap system_clock ibuf (dest + of_nat k) wbuf (int j) (m, r) = (0, m1, r1)"
        "\<forall>x < k + j. m1 (dest + of_nat x) = m0 (obj + of_nat x)"
        "\<forall>a. a \<notin> W \<longrightarrow> \<not> a - ibuf < 4096 \<longrightarrow> \<not> a - wbuf < 128 \<longrightarrow> \<not> a - dest < of_nat n \<longrightarrow> m1 a = m0 a"
      by blast
    define m2 where "m2 = m1(wbuf := m1 (obj + of_nat (k + j)))"
    have next_byte: "m1 (obj + of_nat (k + j)) = m0 (obj + of_nat (k + j))" using okobj [OF i] w(3) by blast
    have "buffered_inv W ibuf wbuf obj n dest m0 1 (k + 128) m2"
      unfolding buffered_inv_def
    proof (intro conjI)
      show "\<forall>x < 1. m2 (wbuf + of_nat x) = m0 (obj + of_nat (k + 128 + x))"
        using next_byte j by (simp add: m2_def)
      show "\<forall>x < k + 128. m2 (dest + of_nat x) = m0 (obj + of_nat x)"
        using w(2) i j dest_wbuf [of _ 0] by (simp add: m2_def)
      show "\<forall>a. a \<notin> W \<longrightarrow> \<not> a - ibuf < 4096 \<longrightarrow> \<not> a - wbuf < 128 \<longrightarrow> \<not> a - dest < of_nat n \<longrightarrow> m2 a = m0 a"
        using w(3) by (auto simp: m2_def)
    qed (use inv i j in auto)
    have l: "l = n - (k + 128 + 1)" using Suc.hyps(2) j by simp
    from Suc.hyps(1) [OF l \<open>buffered_inv W ibuf wbuf obj n dest m0 1 (k + 128) m2\<close>, of r1] obtain j' k' m' r' where
      "buffered_loop iap system_clock ibuf wbuf obj dest [k + 128 + 1..<n] 1 (k + 128) (m2, r1) = (Inr (j', k'), m', r')"
      "buffered_inv W ibuf wbuf obj n dest m0 j' k' m'" "k' + j' = n"
      by blast
    then show ?thesis unfolding upt using w(1) j by (auto simp: WRITING_BUFFER_SIZE_def m2_def)
  qed
qed

lemma buffered_writing:
  assumes clk: "system_clock div 1000 = khz" and ok: "buffered_ok W ibuf wbuf obj n dest"
  shows "\<exists>m' r'. testBufferedWriting iap system_clock ibuf wbuf obj n dest (m, r) = (0, m', r') \<and>
    (\<forall>i < n. m' (dest + of_nat i) = m (obj + of_nat i)) \<and>
    (\<forall>a. a \<notin> W \<longrightarrow> \<not> a - ibuf < 4096 \<longrightarrow> \<not> a - wbuf < 128 \<longrightarrow> \<not> a - dest < of_nat n \<longrightarrow> m' a = m a)"
proof -
  have "buffered_inv W ibuf wbuf obj n dest m 0 0 m" by (simp add: buffered_inv_def)
  from buffered_loop_inv [OF clk ok this, of r] obtain j k m1 r1 where
    loop: "buffered_loop iap system_clock ibuf wbuf obj dest [0..<n] 0 0 (m, r) = (Inr (j, k), m1, r1)"
      "buffered_inv W ibuf wbuf obj n dest m j k m1" "k + j = n" by auto
  have n: "0 < n" using ok by (simp add: buffered_ok_def)
  have j: "0 < j" "j = min 128 (n - k)" using loop(2,3) n by (auto simp: buffered_inv_def)
  from buffered_chunk [OF clk ok loop(2) j, of r1] obtain m2 r2 where
    w: "rflpc_iap_write_to_sector iap system_clock ibuf (dest + of_nat k) wbuf (int j) (m1, r1) = (0, m2, r2)"
      "\<forall>x < k + j. m2 (dest + of_nat x) = m (obj + of_nat x)"
      "\<forall>a. a \<notin> W \<longrightarrow> \<not> a - ibuf < 4096 \<longrightarrow> \<not> a - wbuf < 128 \<longrightarrow> \<not> a - dest < of_nat n \<longrightarrow> m2 a = m a"
    by blast
  have okobj: "obj + of_nat x \<notin> W \<and> \<not> obj + of_nat x - ibuf < 4096 \<and> \<not> obj + of_nat x - wbuf < 128 \<and>
      \<not> obj + of_nat x - dest < of_nat n" if "x < n" for x
    using ok that by (simp add: buffered_ok_def)
  have "m2 (dest + of_nat i) = m2 (obj + of_nat i)" if "i < n" for i
    using w(2,3) okobj [OF that] that loop(3) by auto
  then have "compare (- 2) dest obj n (m2, r2) = (0, m2, r2)" by (rule compare_equal)
  then show ?thesis using loop(1,3) w j(1) by (simp add: testBufferedWriting_def)
qed


section \<open>From RAM through 4 KB sectors into a 32 KB sector\<close>

lemma into_32k:
  assumes clk: "system_clock div 1000 = khz" and ibuf: "ibuf AND 3 = 0" "ram_block W ibuf 4096"
    and w1: "sector_write W ibuf 0x9000 lb 4096" and w2: "sector_write W ibuf (0x9000 + 4096) (lb + 4096) 1904"
    and lb: "ram_block W lb 6000" "\<forall>a. a - lb < 6000 \<longrightarrow> \<not> a - ibuf < 4096"
  shows "\<exists>m' r'. testWritingInto32k iap system_clock ibuf lb (m, r) = (0, m', r') \<and>
    (\<forall>i < 6000. m' (0x10000 + of_nat i) = of_nat (i mod 256))"
proof -
  define m1 where "m1 = fill lb (\<lambda>i. of_nat (i mod 256)) large_size m"
  have adr: "rflpc_iap_get_address_from_sector 9 = 0x9000" "rflpc_iap_get_address_from_sector 16 = 0x10000"
      "rflpc_iap_get_address_from_sector (9 + 1) = 0xA000" "rflpc_iap_get_sector_from_address 0x9000 = 9"
    by (simp_all add: rflpc_iap_get_address_from_sector_def rflpc_iap_get_sector_from_address_def)
  have n1: "(4096 :: int) = sint (rflpc_iap_get_address_from_sector (9 + 1) - 0x9000)" unfolding adr by simp
  have w2': "sector_write W ibuf (0x9000 + of_int 4096) (lb + of_int 4096) 1904"
      and ram': "ram_block W lb (of_int (4096 + 1904))" using w2 lb(1) by simp_all
  obtain m2 r2 where 2: "rflpc_iap_write_buffer iap system_clock ibuf 0x9000 lb 6000 (m1, r) = (0, m2, r2)"
      "\<forall>a. a \<notin> W \<longrightarrow> \<not> a - ibuf < 4096 \<longrightarrow> m2 a = (if a - 0x9000 < 6000 then m1 (lb + (a - 0x9000)) else m1 a)"
    using write_buffer_crossing [OF clk adr(4) [symmetric] _ n1 _ _ w1 w2' ram', of m1 r] by auto
  have flash: "0x9000 + x \<notin> W \<and> \<not> 0x9000 + x - ibuf < 4096 \<and> rflpc_iap_get_sector_from_address (0x9000 + x) \<noteq> 16"
    if "x < 6000" for x
  proof -
    have a: "unat (0x9000 + x) < 65536" using that by (simp add: unat_word_ariths word_less_nat_alt)
    then have "0x9000 + x < 0x80000" "0x9000 + x < 0x10000" by (simp_all add: word_less_nat_alt)
    moreover have "uint (shr (0x9000 + x) 12) < 16" using a by (simp add: uint_nat unat_shr)
    ultimately show ?thesis
      using rom_work ibuf(2) by (auto simp: ram_block_def rflpc_iap_get_sector_from_address_def)
  qed
  have src: "transfer_source W ibuf 16 0x9000 (of_int 6000)"
    using flash by (simp add: transfer_source_def)
  obtain m3 r3 where 3: "rflpc_iap_transfert_4ks_to_32k iap system_clock ibuf 0x10000 0x9000 6000 (m2, r2) = (0, m3, r3)"
      "\<forall>a. a \<notin> W \<longrightarrow> \<not> a - ibuf < 4096 \<longrightarrow> rflpc_iap_get_sector_from_address a \<noteq> 16 \<longrightarrow> m3 a = m2 a"
      "\<forall>x < 6000. m3 (0x10000 + x) = m2 (0x9000 + x)"
    using transfer_returns [OF _ _ clk ibuf src, of m2 r2, unfolded adr] by auto
  have i: "(of_nat i :: u32) < 6000" if "i < 6000" for i
    using that by (simp add: word_less_nat_alt unat_of_nat)
  have ram: "\<not> lb + of_nat i < 0x80000 \<and> lb + of_nat i \<notin> W \<and> \<not> lb + of_nat i - ibuf < 4096" if "i < 6000" for i
    using lb i [OF that] by (simp add: ram_block_def)
  have low: "unat (0x9000 + x) < 65536" if "x < 6000" for x :: u32
    using that by (simp add: unat_word_ariths word_less_nat_alt)
  have source: "m1 (lb + of_nat i) = of_nat (i mod 256)" if "i < 6000" for i
    using that by (simp add: m1_def fill_apply large_size_def unat_of_nat)
  have not_dest: "\<not> lb + of_nat i - 0x9000 < 6000" if "i < 6000" for i
  proof
    assume "lb + of_nat i - 0x9000 < 6000"
    from low [OF this] have "lb + of_nat i < 0x80000" by (simp add: word_less_nat_alt)
    with ram [OF that] show False by blast
  qed
  have "rflpc_iap_get_sector_from_address (lb + of_nat i) \<noteq> 16" if "i < 6000" for i
    using large_sector(2) [of 16 "lb + of_nat i"] ram [OF that] by auto
  then have kept: "m3 (lb + of_nat i) = of_nat (i mod 256)" if "i < 6000" for i
    using that 3(2) 2(2) ram [OF that] not_dest [OF that] source [OF that] by simp
  have copy: "m3 (0x10000 + of_nat i) = of_nat (i mod 256)" if "i < 6000" for i
    using 3(3) 2(2) flash [OF i [OF that]] i [OF that] source [OF that] by simp
  have "compare (- 3) 0x10000 lb large_size (m3, r3) = (0, m3, r3)"
    by (rule compare_equal) (simp add: copy kept large_size_def)
  then have "testWritingInto32k iap system_clock ibuf lb (m, r) = (0, m3, r3)"
    using 2(1) 3(1) by (simp add: testWritingInto32k_def Let_def adr m1_def [symmetric]) (simp add: large_size_def)
  with copy show ?thesis by blast
qed

end

section \<open>Properties\<close>

text \<open>C21. Writing through a small buffer stores everything: an object of at least one byte that ends inside
  the sixteen 4 KB sectors, copied into a buffer of 128 bytes that is written to the flash each time it is full
  and once more at the end, is found whole at its destination, so that the test returns 0; and no other
  byte changes, but for the two buffers and the ROM's work area. The conditions: no chunk of 128 bytes,
  counted from the destination, crosses a sector boundary (as for every destination that is a multiple of
  128; otherwise the driver returns -1), the rest written at the end is not one to three bytes from a word
  aligned buffer to a word aligned address (\<^verbatim>\<open>memcpy\<close> does not serve these), the driver's sector buffer
  is word aligned RAM apart from the small buffer, both outside the ROM's work area, and the object is
  apart from both buffers, that area and its destination.\<close>

theorem buffered_writing_stores:
  assumes "iap_rom iap khz prepared W" and "system_clock div 1000 = khz" and "buffered_ok W ibuf wbuf obj n dest"
  shows "\<exists>m' r'. testBufferedWriting iap system_clock ibuf wbuf obj n dest (m, r) = (0, m', r') \<and>
    (\<forall>i < n. m' (dest + of_nat i) = m (obj + of_nat i)) \<and>
    (\<forall>a. a \<notin> W \<longrightarrow> \<not> a - ibuf < 4096 \<longrightarrow> \<not> a - wbuf < 128 \<longrightarrow> \<not> a - dest < of_nat n \<longrightarrow> m' a = m a)"
  using iap_rom.buffered_writing [OF assms] .

lemma buffered_example: "buffered_ok {} 0x10000000 0x10002000 0x4000 300 0x9000"
proof -
  have chunk: "sector_write {} 0x10000000 (0x9000 + of_nat k) 0x10002000 (int (min 128 (300 - k)))"
    if "k = 0 \<or> k = 128 \<or> k = 256" for k
    using that ram_block_above [of "0x10000000" 4096] blocks_apart [of "0x10002000" 128 "0x10000000" 4096]
      blocks_apart [of "0x10002000" 44 "0x10000000" 4096]
    by (auto simp: sector_write_facts)
  have "k = 0 \<or> k = 128 \<or> k = 256" if "k < 300" "k mod 128 = 0" for k :: nat
    using that by (auto elim!: dvdE simp: mod_eq_0_iff_dvd)
  moreover have "ram_block {} 0x10002000 128" using ram_block_above [of "0x10002000" 128] by simp
  moreover have "\<not> 0x4000 + of_nat i - 0x10000000 < (4096 :: u32) \<and> \<not> 0x4000 + of_nat i - 0x10002000 < (128 :: u32) \<and>
      \<not> 0x4000 + of_nat i - 0x9000 < (300 :: u32)" if "i < 300" for i
  proof -
    define a where "a = 0x4000 + (of_nat i :: u32)"
    have "a - 0x4000 < 300" using that by (simp add: a_def word_less_nat_alt unat_of_nat)
    then have "\<not> a - 0x10000000 < 4096 \<and> \<not> a - 0x10002000 < 128 \<and> \<not> a - 0x9000 < 300"
      using blocks_apart [of "0x4000" 300 "0x10000000" 4096] blocks_apart [of "0x4000" 300 "0x10002000" 128]
        blocks_apart [of "0x4000" 300 "0x9000" 300] by simp
    then show ?thesis unfolding a_def .
  qed
  ultimately show ?thesis using chunk by (auto simp: buffered_ok_def)
qed

lemma buffered_writing_stores_witness:
  "\<exists>m' r'. testBufferedWriting (rom_model 96000) 96000000 0x10000000 0x10002000 0x4000 300 0x9000
      ((\<lambda>a. if a = 0x4081 then 7 else 0), {}) = (0, m', r') \<and> m' 0x9081 = 7"
proof -
  let ?m = "\<lambda>a :: u32. if a = 0x4081 then 7 else 0 :: u8"
  have clk: "(96000000 :: u32) div 1000 = 96000" by simp
  obtain m' r' where 1: "testBufferedWriting (rom_model 96000) 96000000 0x10000000 0x10002000 0x4000 300 0x9000 (?m, {}) = (0, m', r')"
    and 2: "\<forall>i < 300. m' (0x9000 + of_nat i) = ?m (0x4000 + of_nat i)"
    using buffered_writing_stores [OF model_rom.iap_rom_axioms clk buffered_example, of ?m "{}"] by blast
  from 2 [rule_format, of 129] have "m' 0x9081 = 7" by simp
  with 1 show ?thesis by blast
qed

text \<open>The test the program runs succeeds: with the driver's sector buffer and the 6000 bytes apart in RAM, it
  writes them over the boundary of two 4 KB sectors, transfers them from there to the first 32 KB sector, and
  returns 0 with the bytes in that sector.\<close>

theorem writing_into_32k_succeeds:
  assumes "iap_rom iap khz prepared W" and "system_clock div 1000 = khz"
    and "ibuf AND 3 = 0" and "ram_block W ibuf 4096"
    and "sector_write W ibuf 0x9000 lb 4096" and "sector_write W ibuf (0x9000 + 4096) (lb + 4096) 1904"
    and "ram_block W lb 6000" and "\<forall>a. a - lb < 6000 \<longrightarrow> \<not> a - ibuf < 4096"
  shows "\<exists>m' r'. testWritingInto32k iap system_clock ibuf lb (m, r) = (0, m', r') \<and>
    (\<forall>i < 6000. m' (0x10000 + of_nat i) = of_nat (i mod 256))"
  using iap_rom.into_32k [OF assms] .

lemma writing_into_32k_succeeds_witness:
  "\<exists>m' r'. testWritingInto32k (rom_model 96000) 96000000 0x10000000 0x10001000 ((\<lambda>a. 0), {}) = (0, m', r') \<and>
    m' 0x10101 = 1"
proof -
  have clk: "(96000000 :: u32) div 1000 = 96000" by simp
  have ram: "ram_block {} 0x10000000 4096" "ram_block {} 0x10001000 6000"
    using ram_block_above [of "0x10000000" 4096] ram_block_above [of "0x10001000" 6000] by simp_all
  have w1: "sector_write {} 0x10000000 0x9000 0x10001000 4096"
    using ram(1) blocks_apart [of "0x10001000" 4096 "0x10000000" 4096] by (simp add: sector_write_facts)
  have w2: "sector_write {} 0x10000000 (0x9000 + 4096) (0x10001000 + 4096) 1904"
    using ram(1) blocks_apart [of "0x10002000" 1904 "0x10000000" 4096] by (simp add: sector_write_facts)
  obtain m' r' where 1: "testWritingInto32k (rom_model 96000) 96000000 0x10000000 0x10001000 ((\<lambda>a. 0), {}) = (0, m', r')"
    and 2: "\<forall>i < 6000. m' (0x10000 + of_nat i) = of_nat (i mod 256)"
    using writing_into_32k_succeeds [OF model_rom.iap_rom_axioms clk _ ram(1) w1 w2 ram(2), of "\<lambda>a. 0" "{}"]
      blocks_apart [of "0x10001000" 6000 "0x10000000" 4096] by auto
  from 2 [rule_format, of 257] have "m' 0x10101 = 1" by simp
  with 1 show ?thesis by blast
qed

end
