(* ===== verification/Mem_Test.thy ===== *)
theory Mem_Test
  imports TinyMem Timer Protocols
begin

text \<open>
  \<^verbatim>\<open>samples/memset/main.c\<close> and \<^verbatim>\<open>samples/memcpy/main.c\<close>: the programs that test the block operations of the C
  library. The addresses of their arrays are arguments and what they print is left out; what is proved is
  what the tests find.
\<close>

section \<open>The test of memset\<close>

definition BUFFER_SIZE :: nat where "BUFFER_SIZE = 1024"
definition MAGIC :: u8 where "MAGIC = 0xCA"

definition fill_magic :: "addr \<Rightarrow> mem \<Rightarrow> mem" where
  "fill_magic buffer m = fold (\<lambda>i m. m(buffer + of_nat i := MAGIC)) [0..<BUFFER_SIZE] m"

text \<open>\<^verbatim>\<open>while (test_ptr != stop) { if (*test_ptr != MAGIC) return test_ptr-ptr; test_ptr++; }\<close>\<close>

function overlap :: "addr \<Rightarrow> addr \<Rightarrow> addr \<Rightarrow> mem \<Rightarrow> int option" where
  "overlap test_ptr stop ptr m =
     (if test_ptr = stop then None
      else if m test_ptr \<noteq> MAGIC then Some (sint (test_ptr - ptr))
      else overlap (test_ptr + 1) stop ptr m)"
  by auto
termination
proof (relation "measure (\<lambda>(test_ptr, stop, ptr, m). unat (stop - test_ptr))")
  fix p q ptr :: addr and m :: mem
  assume "p \<noteq> q"
  then have "unat (q - p - 1) = unat (q - p) - 1" "0 < unat (q - p)"
    by (simp_all add: unat_minus_one unat_gt_0)
  then show "((p + 1, q, ptr, m), p, q, ptr, m) \<in> measure (\<lambda>(p, q, ptr, m). unat (q - p))"
    by (simp add: diff_diff_eq)
qed simp

declare overlap.simps [simp del]

definition test_memset :: "addr \<Rightarrow> addr \<Rightarrow> u32 \<Rightarrow> int \<Rightarrow> mem \<Rightarrow> int \<times> mem" where
  "test_memset buffer ptr c n m =
     (let m = fill_magic buffer m;
          (_, m) = memset ptr c (of_int n) m
      in case List.find (\<lambda>i. ucast (m (ptr + of_int i)) \<noteq> c AND 0xFF) [0..n - 1] of
           Some i \<Rightarrow> (i, m)
         | None \<Rightarrow>
             (case overlap buffer ptr ptr m of
                Some i \<Rightarrow> (i, m)
              | None \<Rightarrow>
                  (case overlap (ptr + of_int n) (buffer + of_nat BUFFER_SIZE) ptr m of
                     Some i \<Rightarrow> (i, m)
                   | None \<Rightarrow> (0, m))))"

text \<open>The four calls of \<^verbatim>\<open>main\<close>, with what they return.\<close>

definition memset_tests :: "addr \<Rightarrow> mem \<Rightarrow> int list \<times> mem" where
  "memset_tests buffer m =
     (let (a, m) = test_memset buffer (buffer + 24) 0x42 (int BUFFER_SIZE - 48) m;
          (b, m) = test_memset buffer (buffer + 25) 0x42 (int BUFFER_SIZE - 48) m;
          (c, m) = test_memset buffer (buffer + 24) 0x42 (int BUFFER_SIZE - 41) m;
          (d, m) = test_memset buffer (buffer + 25) 0x42 (int BUFFER_SIZE - 41) m
      in ([a, b, c, d], m))"

section \<open>The test of memcpy\<close>

definition ARRAY_SIZE :: nat where "ARRAY_SIZE = 4096"

text \<open>The result is the time the copy took, on the timer \<open>D\<close>, or -1 at the first difference.\<close>

definition test_memcpy :: "'d device \<Rightarrow> addr \<Rightarrow> addr \<Rightarrow> u32 \<Rightarrow> mem \<times> 'd \<Rightarrow> int \<times> mem \<times> 'd" where
  "test_memcpy D src dst n st =
     (let (m, d) = st;
          m = fold (\<lambda>i m. m(src + of_nat i := of_nat i)) [0..<unat n] m;
          (before, d) = rflpc_timer_get_counter D RFLPC_TIMER0 d;
          (_, m) = memcpy dst src n m;
          (after, d) = rflpc_timer_get_counter D RFLPC_TIMER0 d
      in if list_ex (\<lambda>i. m (dst + of_nat i) \<noteq> m (src + of_nat i)) [0..<unat n] then (- 1, m, d)
         else (sint (after - before), m, d))"

definition fill_with_magic :: "addr \<Rightarrow> addr \<Rightarrow> mem \<Rightarrow> mem" where
  "fill_with_magic src dst m =
     fold (\<lambda>i. st32 (dst + 4 * of_nat i) 0xFADEBEEF) [0..<ARRAY_SIZE div 4]
       (fold (\<lambda>i. st32 (src + 4 * of_nat i) 0xCAFEDECA) [0..<ARRAY_SIZE div 4] m)"

section \<open>What memset does in every case\<close>

text \<open>How many bytes are set: 32 too many when one to three are left at a word boundary.\<close>

definition bytes_set :: "addr \<Rightarrow> u32 \<Rightarrow> nat" where
  "bytes_set d n = (if memset_ok d n then unat n else unat n + 32)"

lemma memset_exact: "snd (memset d c n m) = fill_bytes d (bytes_set d n) (ucast c) m"
proof (cases "memset_ok d n")
  case True
  then show ?thesis by (simp add: memset_eq bytes_set_def)
next
  case False
  define h where "h = unat (- d AND 3)"
  have n: "h < unat n" "unat n < h + 4" using False by (auto simp: memset_ok_def h_def)
  have h: "h < 4" by (simp add: h_def unat_and3)
  have hl: "head_len d n = h" using n(1) by (simp add: head_len_def h_def)
  define k where "k = n - of_nat h"
  have k: "unat k = unat n - h"
    using n(1) h unat_u32 [of n] by (simp add: k_def unat_sub_if' unat_of_nat)
  have c: "ucast (c AND 0xFF) = (ucast c :: u8)" "(c AND 0xFF) AND 0xFF = c AND 0xFF"
    by (rule bit_word_eqI; unfold bit_unsigned_iff bit_and_iff bit_ff; auto)+
  have zero: "unat k div 4 = 0" using k n by simp
  have words: "duff (word_set1 (shl (c AND 0xFF) 24 OR shl (c AND 0xFF) 16 OR shl (c AND 0xFF) 8 OR (c AND 0xFF))) (k div 4)
      (uint ((k div 4 + 7) div 8)) (b, m) = (b + 32, fill_bytes b 32 (ucast c) m)" for b m
    unfolding duff_eq_div4 zero duff_steps_zero memset_word_steps [OF c(2)]
    using byte_set_steps [of 32 "c AND 0xFF" b m] by (simp add: c(1))
  have "unat k mod 4 = unat k" using k n by simp
  then have tail: "snd (rflpc_memset_unaligned_fast b (c AND 0xFF) (k mod 4) m) = fill_bytes b (unat k) (ucast c) m"
    "k mod 4 \<noteq> 0" for b m
    using duff_eq [of "k mod 4" "byte_set1 (c AND 0xFF)" "(b, m)"] duff_steps_pos [of "unat k"]
      byte_set_steps [of "unat k" "c AND 0xFF" b m] k n
    by (auto simp: rflpc_memset_unaligned_fast_def unat_mod4 split_def c(1) unat_eq_0 [symmetric])
  have aligned: "snd (rflpc_memset_aligned_fast b (c AND 0xFF) k m) =
      fill_bytes (b + 32) (unat k) (ucast c) (fill_bytes b 32 (ucast c) m)" for b m
    by (simp only: rflpc_memset_aligned_fast_def Let_def words prod.case tail if_True snd_conv simp_thms)
  have "k \<noteq> 0" using tail(2) by auto
  then have "snd (memset d c n m) = fill_bytes (d + of_nat h + 32) (unat k) (ucast c) (fill_bytes (d + of_nat h) 32 (ucast c)
      (fill_bytes d h (ucast c) m))"
    using n(1) by (auto simp: memset_def memset_head_eq hl Let_def c(1) aligned k_def [symmetric])
  also have "\<dots> = fill_bytes d (h + 32 + unat k) (ucast c) m"
    using fill_bytes_add [of h 32 d "ucast c" m] fill_bytes_add [of "h + 32" "unat k" d "ucast c" m] h k n
    by (simp add: add.assoc)
  finally show ?thesis using k n False by (simp add: bytes_set_def add.commute)
qed

section \<open>What the test finds\<close>

lemma fill_magic_eq: "fill_magic buffer m = fill_bytes buffer BUFFER_SIZE MAGIC m"
proof -
  have "fold (\<lambda>i m. m(buffer + of_nat i := MAGIC)) [0..<n] m = fill_bytes buffer n MAGIC m" if "n \<le> 1024" for n
    using that by (induction n) (simp_all add: fill_bytes_Suc)
  then show ?thesis by (simp add: fill_magic_def BUFFER_SIZE_def)
qed

lemma cell_offset:
  assumes "x < 1024" and "k < 1024"
  shows "unat (buffer + of_nat x - (buffer + of_nat k :: u32)) = (if k \<le> x then x - k else 4294967296 - (k - x))"
proof -
  have e: "buffer + of_nat x - (buffer + of_nat k) = (of_nat x - of_nat k :: u32)" by simp
  have "unat (of_nat x - of_nat k :: u32) = (if k \<le> x then x - k else 4294967296 - (k - x))"
    using assms by (auto simp: unat_sub_if' unat_of_nat)
  then show ?thesis unfolding e .
qed

lemma overlap_none:
  assumes "i \<le> j" and "j \<le> 1024" and "\<And>x. i \<le> x \<Longrightarrow> x < j \<Longrightarrow> m (buffer + of_nat x) = MAGIC"
  shows "overlap (buffer + of_nat i) (buffer + of_nat j) ptr m = None"
  using assms
proof (induction "j - i" arbitrary: i)
  case 0
  then show ?case by (simp add: overlap.simps)
next
  case (Suc d)
  then have "overlap (buffer + of_nat (Suc i)) (buffer + of_nat j) ptr m = None"
    by (intro Suc.hyps(1)) auto
  then show ?case
    using Suc.prems(3) [of i] Suc.hyps(2) Suc.prems(1)
    by (subst overlap.simps) (simp add: add.commute add.left_commute)
qed

lemma overlap_first:
  assumes "i < j" and "j \<le> 1024" and "m (buffer + of_nat i) \<noteq> MAGIC"
  shows "overlap (buffer + of_nat i) (buffer + of_nat j) ptr m = Some (sint (buffer + of_nat i - ptr))"
  using assms by (subst overlap.simps) (simp add: of_nat_word_inj)

lemma low_byte: "ucast (ucast c :: u8) = (c AND 0xFF :: u32)"
  by (rule bit_word_eqI, unfold bit_unsigned_iff bit_and_iff bit_ff) auto

lemma test_memset_result:
  assumes k: "k + n \<le> BUFFER_SIZE" and n0: "0 < n" and c: "c AND 0xFF \<noteq> 0xCA"
  shows "fst (test_memset buffer (buffer + of_nat k) c (int n) m) =
    (if memset_ok (buffer + of_nat k) (of_nat n) \<or> k + n = BUFFER_SIZE then 0 else int n)"
proof -
  define p where "p = buffer + (of_nat k :: u32)"
  define L where "L = bytes_set p (of_nat n)"
  define m2 where "m2 = snd (memset p c (of_nat n) (fill_magic buffer m))"
  have size: "k + n \<le> 1024" "k < 1024" using k n0 by (simp_all add: BUFFER_SIZE_def)
  have n: "unat (of_nat n :: u32) = n" using size by (simp add: unat_of_nat)
  have L: "n \<le> L" "L \<le> n + 32" "L = n \<longleftrightarrow> memset_ok p (of_nat n)" by (simp_all add: L_def bytes_set_def n)
  have cell: "m2 (buffer + of_nat x) = (if k \<le> x \<and> x < k + L then ucast c else MAGIC)" if "x < 1024" for x
    using cell_offset [OF that size(2), of buffer] cell_offset [OF that, of 0 buffer] that size L(2)
    by (auto simp: m2_def memset_exact fill_magic_eq L_def [symmetric] p_def [symmetric] fill_bytes_def BUFFER_SIZE_def)
  have differs: "ucast c \<noteq> MAGIC"
  proof
    assume "ucast c = MAGIC"
    then have "c AND 0xFF = ucast MAGIC" using low_byte [of c] by simp
    with c show False by (simp add: MAGIC_def)
  qed
  have "ucast (m2 (p + of_int i)) = c AND 0xFF" if "i \<in> set [0..int n - 1]" for i
  proof -
    have "p + of_int i = buffer + of_nat (k + nat i)" "k + nat i < 1024" "nat i < n"
      using that size by (auto simp: p_def)
    then show ?thesis using cell [of "k + nat i"] L(1) low_byte by simp
  qed
  then have find: "List.find (\<lambda>i. ucast (m2 (p + of_int i)) \<noteq> c AND 0xFF) [0..int n - 1] = None"
    by (auto simp: find_None_iff)
  have before: "overlap buffer p p m2 = None"
    using overlap_none [of 0 k m2 buffer p] cell size by (simp add: p_def)
  have stop: "p + of_int (int n) = buffer + of_nat (k + n)" by (simp add: p_def)
  have after: "overlap (p + of_int (int n)) (buffer + of_nat BUFFER_SIZE) p m2 =
      (if memset_ok p (of_nat n) \<or> k + n = BUFFER_SIZE then None else Some (int n))"
  proof (cases "memset_ok p (of_nat n) \<or> k + n = BUFFER_SIZE")
    case True
    have "m2 (buffer + of_nat x) = MAGIC" if "k + n \<le> x" "x < 1024" for x
      using cell [OF that(2)] that L(3) True by (auto simp: BUFFER_SIZE_def)
    then show ?thesis
      using True overlap_none [of "k + n" 1024 m2 buffer p] size unfolding stop by (simp add: BUFFER_SIZE_def)
  next
    case False
    then have "k + n < 1024" "n < L" using size L by (auto simp: BUFFER_SIZE_def)
    then have "m2 (buffer + of_nat (k + n)) \<noteq> MAGIC" using cell [of "k + n"] differs by simp
    with overlap_first [of "k + n" 1024 m2 buffer p] \<open>k + n < 1024\<close>
    have "overlap (p + of_int (int n)) (buffer + of_nat BUFFER_SIZE) p m2 = Some (sint (of_nat n :: u32))"
      unfolding stop by (simp add: BUFFER_SIZE_def p_def)
    moreover have "sint (of_nat n :: u32) = int n"
      using size by (simp add: signed_of_nat signed_take_bit_int_eq_self)
    ultimately show ?thesis using False by simp
  qed
  show ?thesis
    using find before after
    by (simp add: test_memset_def split_def Let_def p_def [symmetric] m2_def [symmetric])
qed

text \<open>All four tests of the program pass, wherever the buffer is.\<close>

lemma memset_tests_pass: "fst (memset_tests buffer m) = [0, 0, 0, 0]"
proof -
  have "fst (test_memset buffer (buffer + of_nat k) 0x42 (int n) m) = 0" if "k + n \<le> 1024" "7 \<le> n" for k n m
  proof -
    have "unat (- (buffer + of_nat k) AND 3) < 4" by (simp add: unat_and3)
    then have "memset_ok (buffer + of_nat k) (of_nat n)" using that by (simp add: memset_ok_def unat_of_nat)
    then show ?thesis using test_memset_result [of k n "0x42" buffer m] that by (simp add: BUFFER_SIZE_def)
  qed
  from this [of 24 976] this [of 25 976] this [of 24 983] this [of 25 983] show ?thesis
    by (simp add: memset_tests_def split_def Let_def BUFFER_SIZE_def)
qed

lemma test_memcpy_result:
  assumes ok: "n = 0 \<or> (if IS_WORD_ALIGNED dst \<and> IS_WORD_ALIGNED src then 4 \<le> n else n \<le> 0xFFFFFFF8)"
    and apart: "n \<le> dst - src" "n \<le> src - dst"
  shows "\<exists>m'. test_memcpy D src dst n (m, d) =
      (let (before, d1) = rflpc_timer_get_counter D RFLPC_TIMER0 d; (after, d2) = rflpc_timer_get_counter D RFLPC_TIMER0 d1
       in (sint (after - before), m', d2)) \<and>
    (\<forall>i < n. m' (dst + i) = ucast i \<and> m' (src + i) = ucast i) \<and>
    (\<forall>a. \<not> a - dst < n \<longrightarrow> \<not> a - src < n \<longrightarrow> m' a = m a)"
proof -
  define m1 where "m1 = fold (\<lambda>i m. m(src + of_nat i := of_nat i)) [0..<unat n] m"
  have "fold (\<lambda>i m. m(src + of_nat i := of_nat i)) [0..<k] m a =
      (if unat (a - src) < k then ucast (a - src) else m a)" if "k \<le> unat n" for k a
    using that
  proof (induction k)
    case (Suc k)
    then have "k < 2 ^ 32" using unat_u32 [of n] by simp
    then have "a = src + of_nat k \<longleftrightarrow> unat (a - src) = k" by (simp add: offset_eq)
    moreover have "of_nat (unat (a - src)) = (ucast (a - src) :: u8)" by simp
    ultimately show ?case using Suc by auto
  qed simp
  then have m1: "m1 a = (if a - src < n then ucast (a - src) else m a)" for a
    by (simp add: m1_def word_less_nat_alt)
  define m2 where "m2 = snd (memcpy dst src n m1)"
  have "memcpy_apart dst src n"
    using ok apart(1) by (auto simp: memcpy_apart_def memcpy_ok_def word_le_nat_alt split: if_splits)
  then have m2: "m2 a = (if a - dst < n then m1 (src + (a - dst)) else m1 a)" for a
    by (simp add: m2_def memcpy.copy_apply)
  have off: "\<not> src + i - dst < n" if "i < n" for i
    using outside_block [of n src dst n i] apart that by simp
  have cells: "m2 (dst + i) = ucast i \<and> m2 (src + i) = ucast i" if "i < n" for i
    using m2 [of "dst + i"] m2 [of "src + i"] m1 [of "src + i"] off [OF that] that by simp
  have "\<not> list_ex (\<lambda>i. m2 (dst + of_nat i) \<noteq> m2 (src + of_nat i)) [0..<unat n]"
  proof -
    have "of_nat i < n" if "i < unat n" for i
      using that unat_u32 [of n] by (simp add: word_less_nat_alt unat_of_nat)
    then show ?thesis using cells by (auto simp: list_ex_iff)
  qed
  then show ?thesis
    using cells m2 m1
    by (intro exI [of _ m2]) (auto simp: test_memcpy_def split_def Let_def m1_def [symmetric] m2_def [symmetric])
qed

text \<open>Two bytes at a word boundary are not served: the test finds the first byte overrun, unless the block is the end
  of the array.\<close>

lemma memset_test_examples:
  "fst (test_memset 0x10000000 0x10000018 0x42 2 (\<lambda>_. 0)) = 2"
  "fst (test_memset 0x10000000 0x10000018 0x42 4 (\<lambda>_. 0)) = 0"
  "fst (test_memset 0x10000000 0x100003FE 0x42 2 (\<lambda>_. 0)) = 0"
  using test_memset_result [of 24 2 "0x42" "0x10000000" "\<lambda>_. 0"] test_memset_result [of 24 4 "0x42" "0x10000000" "\<lambda>_. 0"]
    test_memset_result [of 1022 2 "0x42" "0x10000000" "\<lambda>_. 0"]
  by (simp_all add: BUFFER_SIZE_def memset_ok_def unat_and3)

end
