(* ===== verification/Basic_Test.thy ===== *)
theory Basic_Test
  imports Uart Tick Gpio Ethernet
begin

text \<open>
  \<^verbatim>\<open>samples/basic_tests/main.c\<close>: a program that exercises the start-up code, the console, the core timer, the leds
  and the link. The state is the device, \<^const>\<open>None\<close> once a call has not returned. The strings in memory are
  an argument; the delays between the leds pass time only and are left out, and so are the messages of the
  test of the link.
\<close>

section \<open>The console\<close>

text \<open>\<^verbatim>\<open>printf\<close> with the output function that is set.\<close>

definition print ::
  "(nat \<Rightarrow> 'd option \<Rightarrow> 'd option) \<Rightarrow> (u32 \<Rightarrow> string) \<Rightarrow> string \<Rightarrow> u32 list \<Rightarrow> 'd \<Rightarrow> 'd option" where
  "print putc str_at format args d =
     (case printf putc (\<lambda>s. s) (\<lambda>s. s) str_at format args (Some d) of None \<Rightarrow> None | Some (_, od) \<Rightarrow> od)"

definition my_silly_putchar :: "'d device \<Rightarrow> nat \<Rightarrow> 'd option \<Rightarrow> 'd option" where
  "my_silly_putchar D c od =
     (case od of None \<Rightarrow> None
      | Some d \<Rightarrow> Option.bind (rflpc_uart_putchar D RFLPC_UART0 32 d) (rflpc_uart_putchar D RFLPC_UART0 (of_nat c)))"

partial_function (option) alphabet_loop :: "'d device \<Rightarrow> u8 \<Rightarrow> 'd \<Rightarrow> 'd option" where
  "alphabet_loop D c d =
     (case rflpc_uart_putchar D RFLPC_UART0 c d of
        None \<Rightarrow> None
      | Some d \<Rightarrow>
          (let c = c + 1 in
           if c = 122 + 1
           then Option.bind (rflpc_uart_putchar D RFLPC_UART0 10 d) (rflpc_uart_putchar D RFLPC_UART0 13)
           else alphabet_loop D c d))"

definition test_uart :: "'d device \<Rightarrow> 'd \<Rightarrow> 'd option" where
  "test_uart D = alphabet_loop D 97"

definition received_fmt :: string where
  "received_fmt = ''Received '' @ [CHR 0x27] @ ''%c'' @ [CHR 0x27, CHR 0x0A, CHR 0x0D]"

partial_function (option) echo_loop ::
  "'d device \<Rightarrow> (nat \<Rightarrow> 'd option \<Rightarrow> 'd option) \<Rightarrow> (u32 \<Rightarrow> string) \<Rightarrow> 'd \<Rightarrow> 'd option" where
  "echo_loop D putc str_at d =
     (case rflpc_uart_getchar D RFLPC_UART0 d of
        None \<Rightarrow> None
      | Some p \<Rightarrow>
          (case print putc str_at received_fmt [ucast (fst p)] (snd p) of
             None \<Rightarrow> None
           | Some d \<Rightarrow> if fst p = 81 then Some d else echo_loop D putc str_at d))"

definition crlf :: string where "crlf = [CHR 0x0D, CHR 0x0A]"

definition echo_title :: string where "echo_title = ''Testing uart0 polling'' @ crlf"
definition echo_help :: string where "echo_help = ''Press Q to quit test'' @ crlf"

definition test_echo ::
  "'d device \<Rightarrow> (nat \<Rightarrow> 'd option \<Rightarrow> 'd option) \<Rightarrow> (u32 \<Rightarrow> string) \<Rightarrow> 'd \<Rightarrow> 'd option" where
  "test_echo D putc str_at d =
     (case print putc str_at echo_title [] d of
        None \<Rightarrow> None
      | Some d \<Rightarrow>
          (case print putc str_at echo_help [] d of
             None \<Rightarrow> None
           | Some d \<Rightarrow> echo_loop D putc str_at d))"

section \<open>The core timer\<close>

text \<open>The handler counts ten interrupts to a second and ten seconds to the end. The state is the two static
  counters, the number of messages printed and the device.\<close>

definition sys_timer_callback :: "'d device \<Rightarrow> int \<times> int \<times> string list \<times> 'd \<Rightarrow> int \<times> int \<times> string list \<times> 'd" where
  "sys_timer_callback D st =
     (let (count, count2, log, d) = st; count = count + 1
      in if count = 10
         then
           (let count = 0; count2 = count2 + 1
            in if count2 = 10 then (count, count2, log @ [''10s elapsed'' @ crlf], rflpc_sys_timer_stop D d)
               else (count, count2, log @ [''Systimer interrupt'' @ crlf], d))
         else (count, count2, log, d))"

definition test_sys_timer :: "'d device \<Rightarrow> u32 \<Rightarrow> u32 \<Rightarrow> u32 list \<times> 'd \<Rightarrow> u32 list \<times> 'd" where
  "test_sys_timer D system_clock callback st =
     (let (ram_vec, d) = st;
          d = rflpc_sys_timer_init D d;
          d = rflpc_sys_timer_set_period D system_clock 100000 d
      in rflpc_sys_timer_set_callback D callback (ram_vec, d))"

definition test_rit :: "'d device \<Rightarrow> u32 \<Rightarrow> u32 list \<times> 'd \<Rightarrow> u32 list \<times> 'd" where
  "test_rit D callback st =
     (let (ram_vec, d) = st in rflpc_rit_set_callback D 20000000 0 True callback (ram_vec, rflpc_rit_enable D d))"

section \<open>The link\<close>

text \<open>The characters typed: the two variables \<^verbatim>\<open>request_autoneg\<close> and \<^verbatim>\<open>autoneg_mode\<close>.\<close>

definition test_ethernet_serial_handler :: "'d device \<Rightarrow> bool \<times> u32 \<times> 'd \<Rightarrow> (bool \<times> u32 \<times> 'd) option" where
  "test_ethernet_serial_handler D st =
     (let (request, mode, d) = st
      in case rflpc_uart_getchar D RFLPC_UART0 d of
           None \<Rightarrow> None
         | Some (c, d) \<Rightarrow>
             Some (if c = 115 then (True, mode XOR RFLPC_ETH_LINK_MODE_SPEED_BIT, d)
                   else if c = 100 then (True, mode XOR RFLPC_ETH_LINK_MODE_DUPLEX_BIT, d)
                   else (request, mode, d)))"

text \<open>One turn of the last loop of \<^verbatim>\<open>test_ethernet\<close>; \<open>old\<close> is \<^verbatim>\<open>old_link_state\<close>.\<close>

definition test_ethernet_turn :: "'d device \<Rightarrow> bool \<times> u32 \<times> nat \<times> 'd \<Rightarrow> (bool \<times> u32 \<times> nat \<times> 'd) option" where
  "test_ethernet_turn D st =
     (let (request, mode, old, d) = st
      in case (if request
               then (case rflpc_eth_link_auto_negociate D mode d of
                       None \<Rightarrow> None
                     | Some (r, d) \<Rightarrow>
                         if r \<noteq> - 1 then map_option snd (rflpc_eth_get_link_mode D d) else Some d)
               else Some d) of
           None \<Rightarrow> None
         | Some d \<Rightarrow>
             (case rflpc_eth_link_state D d of
                None \<Rightarrow> None
              | Some (up, d) \<Rightarrow>
                  (let current = (if up then 1 else 0)
                   in Some (False, mode,
                        if current \<noteq> old
                        then (current, if up then rflpc_led_set D RFLPC_LED_1 d else rflpc_led_clr D RFLPC_LED_1 d)
                        else (old, d)))))"

section \<open>The leds\<close>

definition test_led :: "'d device \<Rightarrow> 'd \<Rightarrow> 'd" where
  "test_led D d =
     fold (\<lambda>i. rflpc_led_binary_value D (of_nat i)) [0..<16]
       (fold (rflpc_led_set D) [RFLPC_LED_1, RFLPC_LED_2, RFLPC_LED_3, RFLPC_LED_4] d)"

text \<open>The initial values of the data section, the variables of the bss section and the address of \<^verbatim>\<open>data\<close> are
  arguments: the leds that are lit say which checks passed.\<close>

definition test_data_bss ::
  "'d device \<Rightarrow> u32 \<Rightarrow> u8 \<Rightarrow> addr \<Rightarrow> addr \<Rightarrow> u32 \<Rightarrow> u32 list \<Rightarrow> 'd \<Rightarrow> 'd" where
  "test_data_bss D data test1 add_data data_addr data2 bss d =
     (let leds = RFLPC_LED_1 OR RFLPC_LED_2 OR RFLPC_LED_3 OR RFLPC_LED_4;
          d = rflpc_led_set D leds d;
          d = rflpc_led_clr D leds d;
          d = (if data = RFLPC_LED_1 OR RFLPC_LED_2 then rflpc_led_set D RFLPC_LED_1 d else d);
          d = (if test1 = 0xAB then rflpc_led_set D RFLPC_LED_2 d else d);
          d = (if add_data = data_addr then rflpc_led_set D RFLPC_LED_3 d else d);
          d = (if data2 = 0xfadebeef then rflpc_led_set D RFLPC_LED_4 d else d)
      in if list_all (\<lambda>v. v = 0) bss then rflpc_led_val D (RFLPC_LED_1 OR RFLPC_LED_4) d
         else rflpc_led_val D (RFLPC_LED_2 OR RFLPC_LED_3) d)"

text \<open>One turn of the endless loop of \<^verbatim>\<open>main\<close>.\<close>

definition leds_turn :: "'d device \<Rightarrow> nat \<times> 'd \<Rightarrow> nat \<times> 'd" where
  "leds_turn D st =
     (let (i, d) = st;
          d = rflpc_led_val D ([RFLPC_LED_1, RFLPC_LED_2, RFLPC_LED_3, RFLPC_LED_4, RFLPC_LED_3, RFLPC_LED_2] ! i) d;
          i = i + 1
      in (if 6 \<le> i then 0 else i, d))"

section \<open>What is sent\<close>

text \<open>Every character after a blank.\<close>

definition spaced :: "nat list \<Rightarrow> u8 list" where
  "spaced cs = concat (map (\<lambda>c. [32, of_nat c]) cs)"

lemma spaced_append: "spaced (a @ b) = spaced a @ spaced b"
  by (simp add: spaced_def)

definition received_items :: "u8 \<Rightarrow> item list" where
  "received_items c = map Lit (''Received '' @ [CHR 0x27]) @ [Chr (ucast c)] @ map Lit [CHR 0x27, CHR 0x0A, CHR 0x0D]"

lemma received_items:
  "concat (map item_fmt (received_items c)) = received_fmt" "concat (map item_args (received_items c)) = [ucast c]"
  "\<forall>it \<in> set (received_items c). item_ok it"
  by (auto simp: received_items_def received_fmt_def)

definition received_line :: "u8 \<Rightarrow> nat list" where
  "received_line c = map of_char ''Received '' @ [39, unat c, 39, 10, 13]"

lemma render_received: "render str_at 4 (received_items c) = received_line c"
proof -
  have "unat c < 256" using unsigned_less [of c] by simp
  then show ?thesis by (simp add: received_items_def received_line_def item_bytes_def unat_ucast_mod)
qed

context uart0_ready
begin

lemma putchar_done:
  assumes "\<not> bit (lcr (U d)) 7"
  shows "\<exists>d'. rflpc_uart_putchar D RFLPC_UART0 c d = Some d' \<and> U d' = (U d)\<lparr>sent := sent (U d) @ [c]\<rparr>"
  using putchar_returns [of c d] putchar_sends [OF base0 [symmetric] _ assms] by blast

lemma alphabet_sends:
  assumes "unat c \<le> 122" and "\<not> bit (lcr (U d)) 7"
  shows "\<exists>d'. alphabet_loop D c d = Some d' \<and>
    U d' = (U d)\<lparr>sent := sent (U d) @ map of_nat [unat c..<123] @ [10, 13]\<rparr>"
  using assms
proof (induction "122 - unat c" arbitrary: c d)
  case 0
  then have c: "c = 122" by (simp add: word_unat_eq_iff)
  obtain e where e: "rflpc_uart_putchar D RFLPC_UART0 c d = Some e" "U e = (U d)\<lparr>sent := sent (U d) @ [c]\<rparr>"
    using putchar_done [OF 0(3)] by blast
  obtain f where f: "rflpc_uart_putchar D RFLPC_UART0 10 e = Some f" "U f = (U e)\<lparr>sent := sent (U e) @ [10]\<rparr>"
    using putchar_done [of e 10] e(2) 0(3) by auto
  obtain g where g: "rflpc_uart_putchar D RFLPC_UART0 13 f = Some g" "U g = (U f)\<lparr>sent := sent (U f) @ [13]\<rparr>"
    using putchar_done [of f 13] f(2) e(2) 0(3) by auto
  have "[122..<123] = [122 :: nat]" by (simp add: upt_conv_Cons)
  then show ?case using e f g c by (subst alphabet_loop.simps) simp
next
  case (Suc k)
  obtain e where e: "rflpc_uart_putchar D RFLPC_UART0 c d = Some e" "U e = (U d)\<lparr>sent := sent (U d) @ [c]\<rparr>"
    using putchar_done [OF Suc(4)] by blast
  have n: "unat (c + 1) = unat c + 1" using Suc(2) by (simp add: unat_word_ariths)
  then have "c + 1 \<noteq> 123" using Suc(2) by (auto simp: word_unat_eq_iff)
  moreover have "\<exists>d'. alphabet_loop D (c + 1) e = Some d' \<and>
      U d' = (U e)\<lparr>sent := sent (U e) @ map of_nat [unat (c + 1)..<123] @ [10, 13]\<rparr>"
    by (rule Suc.hyps(1)) (use Suc(2,4) n e(2) in simp_all)
  then obtain d' where "alphabet_loop D (c + 1) e = Some d'"
      "U d' = (U e)\<lparr>sent := sent (U e) @ map of_nat [unat (c + 1)..<123] @ [10, 13]\<rparr>" by blast
  moreover have "[unat c..<123] = unat c # [unat (c + 1)..<123]" using Suc(2) n by (simp add: upt_conv_Cons)
  ultimately show ?case
    using e by (subst alphabet_loop.simps) simp
qed

lemma silly_fold:
  assumes "\<not> bit (lcr (U d)) 7"
  shows "\<exists>d'. fold (my_silly_putchar D) cs (Some d) = Some d' \<and> U d' = (U d)\<lparr>sent := sent (U d) @ spaced cs\<rparr>"
  using assms
proof (induction cs arbitrary: d)
  case (Cons c cs)
  obtain e where e: "rflpc_uart_putchar D RFLPC_UART0 32 d = Some e" "U e = (U d)\<lparr>sent := sent (U d) @ [32]\<rparr>"
    using putchar_done [OF Cons(2)] by blast
  obtain f where f: "rflpc_uart_putchar D RFLPC_UART0 (of_nat c) e = Some f" "U f = (U e)\<lparr>sent := sent (U e) @ [of_nat c]\<rparr>"
    using putchar_done [of e "of_nat c"] e(2) Cons(2) by auto
  show ?case
    using Cons.IH [of f] e f Cons(2) by (auto simp: my_silly_putchar_def spaced_def)
qed (simp add: spaced_def)

lemma silly_print:
  assumes "\<not> bit (lcr (U d)) 7" and "\<forall>it \<in> set its. item_ok it"
  shows "\<exists>d'. print (my_silly_putchar D) str_at (concat (map item_fmt its)) (concat (map item_args its)) d = Some d' \<and>
    U d' = (U d)\<lparr>sent := sent (U d) @ spaced (render str_at 4 its)\<rparr>"
  using silly_fold [OF assms(1), of "render str_at 4 its"] assms(2)
  by (simp add: print_def printf_def printf_items emit_eq)

lemma getchar_done:
  assumes "\<not> bit (lcr (U d)) 7" and "rx_fifo (U d) = c # cs"
  shows "\<exists>d'. rflpc_uart_getchar D RFLPC_UART0 d = Some (c, d') \<and> U d' = (U d)\<lparr>rx_fifo := cs\<rparr>"
proof -
  have "x AND 1 \<noteq> 0 \<longleftrightarrow> bit x 0" for x :: u32
    using and_two_power_eq_zero [of x 0] by simp
  then have "fst (dev_rd D (UART_LSR b) d) AND 1 \<noteq> 0" using rd_lsr [of d] assms(2) by simp
  then have "poll D (UART_LSR b) (\<lambda>x. x AND 1 \<noteq> 0) d = Some (dev_rd D (UART_LSR b) d)"
    by (subst poll.simps) (simp add: split_def)
  then have "rflpc_uart_getchar D RFLPC_UART0 d = Some (rd8 D (UART_RBR b) (snd (dev_rd D (UART_LSR b) d)))"
    by (simp add: rflpc_uart_getchar_def base0 split_def)
  then obtain r d' where "rflpc_uart_getchar D RFLPC_UART0 d = Some (r, d')" by (metis surj_pair)
  with getchar_takes [OF base0 [symmetric] this assms(1)] assms(2) show ?thesis by auto
qed

lemma echo_loop_until_Q:
  assumes "\<not> bit (lcr (U d)) 7" and "rx_fifo (U d) = cs @ 81 # rest" and "81 \<notin> set cs"
  shows "\<exists>d'. echo_loop D (my_silly_putchar D) str_at d = Some d' \<and> rx_fifo (U d') = rest \<and>
    sent (U d') = sent (U d) @ spaced (concat (map received_line (cs @ [81])))"
  using assms
proof (induction cs arbitrary: d)
  case Nil
  obtain e where e: "rflpc_uart_getchar D RFLPC_UART0 d = Some (81, e)" "U e = (U d)\<lparr>rx_fifo := rest\<rparr>"
    using getchar_done [OF Nil(1)] Nil(2) by fastforce
  obtain f where "print (my_silly_putchar D) str_at received_fmt [81] e = Some f"
      "U f = (U e)\<lparr>sent := sent (U e) @ spaced (received_line 81)\<rparr>"
    using silly_print [of e "received_items 81" str_at] e(2) Nil(1)
    by (auto simp: received_items render_received)
  with e show ?case by (subst echo_loop.simps) simp
next
  case (Cons c cs)
  obtain e where e: "rflpc_uart_getchar D RFLPC_UART0 d = Some (c, e)" "U e = (U d)\<lparr>rx_fifo := cs @ 81 # rest\<rparr>"
    using getchar_done [OF Cons(2)] Cons(3) by fastforce
  obtain f where f: "print (my_silly_putchar D) str_at received_fmt [ucast c] e = Some f"
      "U f = (U e)\<lparr>sent := sent (U e) @ spaced (received_line c)\<rparr>"
    using silly_print [of e "received_items c" str_at] e(2) Cons(2)
    by (auto simp: received_items render_received)
  obtain d' where "echo_loop D (my_silly_putchar D) str_at f = Some d'" "rx_fifo (U d') = rest"
      "sent (U d') = sent (U f) @ spaced (concat (map received_line (cs @ [81])))"
    using Cons.IH [of f] f(2) e(2) Cons(2,4) by auto
  then show ?case
    using e f Cons(4) by (subst echo_loop.simps) (auto simp: spaced_append)
qed

lemma echo_until_Q:
  assumes "\<not> bit (lcr (U d)) 7" and "rx_fifo (U d) = cs @ 81 # rest" and "81 \<notin> set cs"
  shows "\<exists>d'. test_echo D (my_silly_putchar D) str_at d = Some d' \<and> rx_fifo (U d') = rest \<and>
    sent (U d') = sent (U d) @ spaced (map of_char (echo_title @ echo_help) @ concat (map received_line (cs @ [81])))"
proof -
  have lit: "concat (map item_fmt (map Lit t)) = t" "concat (map item_args (map Lit t)) = []" 
    "render str_at 4 (map Lit t) = map of_char t" for t
    by (induction t) (simp_all add: item_bytes_def)
  have shown: "\<exists>e'. print (my_silly_putchar D) str_at t [] e = Some e' \<and>
      U e' = (U e)\<lparr>sent := sent (U e) @ spaced (map of_char t)\<rparr>"
    if "\<not> bit (lcr (U e)) 7" "CHR ''%'' \<notin> set t" for t e
    using silly_print [OF that(1), of "map Lit t" str_at, unfolded lit] that(2) by auto
  obtain e where e: "print (my_silly_putchar D) str_at echo_title [] d = Some e"
      "U e = (U d)\<lparr>sent := sent (U d) @ spaced (map of_char echo_title)\<rparr>"
    using shown [OF assms(1), of echo_title] by (auto simp: echo_title_def crlf_def)
  obtain f where f: "print (my_silly_putchar D) str_at echo_help [] e = Some f"
      "U f = (U e)\<lparr>sent := sent (U e) @ spaced (map of_char echo_help)\<rparr>"
    using shown [of e echo_help] e(2) assms(1) by (auto simp: echo_help_def crlf_def)
  show ?thesis
    using echo_loop_until_Q [of f cs rest str_at] e f assms by (simp add: test_echo_def spaced_append)
qed

end

section \<open>Ten seconds\<close>

definition sys_timer_log :: "nat \<Rightarrow> string list" where
  "sys_timer_log n = replicate (min (n div 10) 9) (''Systimer interrupt'' @ crlf) @ (if n = 100 then [''10s elapsed'' @ crlf] else [])"

lemma ten_steps:
  assumes "n < 100"
  shows "n mod 10 = 9 \<Longrightarrow> Suc n mod 10 = 0 \<and> Suc n div 10 = Suc (n div 10) \<and> (Suc n = 100 \<longleftrightarrow> n div 10 = 9)"
    and "n mod 10 \<noteq> 9 \<Longrightarrow> Suc n mod 10 = Suc (n mod 10) \<and> Suc n div 10 = n div 10 \<and> Suc n \<noteq> 100"
  using assms div_mult_mod_eq [of n 10] by (auto simp: mod_Suc div_Suc)

lemma sys_timer_counts:
  assumes "n \<le> 100"
  shows "(sys_timer_callback D ^^ n) (0, 0, [], d) =
    (int (n mod 10), int (n div 10), sys_timer_log n, if n = 100 then rflpc_sys_timer_stop D d else d)"
  using assms
proof (induction n)
  case 0
  then show ?case by (simp add: sys_timer_log_def)
next
  case (Suc n)
  then have n: "n < 100" by simp
  then have q: "n div 10 < 10" by simp
  have IH: "(sys_timer_callback D ^^ n) (0, 0, [], d) = (int (n mod 10), int (n div 10), sys_timer_log n, d)"
    using Suc n by simp
  have next_state: "(sys_timer_callback D ^^ Suc n) (0, 0, [], d) =
      sys_timer_callback D (int (n mod 10), int (n div 10), sys_timer_log n, d)"
    by (simp only: funpow.simps comp_apply IH)
  show ?case
  proof (cases "n mod 10 = 9")
    case True
    note step = ten_steps(1) [OF n True]
    have "sys_timer_log (Suc n) = sys_timer_log n @ [if n div 10 = 9 then ''10s elapsed'' @ crlf else ''Systimer interrupt'' @ crlf]"
      using step n q by (auto simp: sys_timer_log_def min_def replicate_append_same)
    then show ?thesis
      unfolding next_state using step True q by (simp add: sys_timer_callback_def)
  next
    case False
    note step = ten_steps(2) [OF n False]
    have "sys_timer_log (Suc n) = sys_timer_log n" using step n by (simp add: sys_timer_log_def)
    moreover have "int (n mod 10) + 1 \<noteq> 10" using False by linarith
    ultimately show ?thesis
      unfolding next_state using step by (simp add: sys_timer_callback_def)
  qed
qed

section \<open>The leds of the start-up test\<close>

lemma leds_cycle:
  assumes "i < 6"
  shows "fst (leds_turn D (i, d)) < 6" "fst (leds_turn D (i, d)) = Suc i mod 6"
  using assms by (auto simp: leds_turn_def Let_def mod_Suc)

context gpio_port
begin

text \<open>What \<^verbatim>\<open>test_data_bss\<close> shows at the end depends on the bss section alone: its last call writes all four leds, so that
  a failed check of the data section is seen only until then.\<close>

lemma start_up_leds:
  assumes "RFLPC_GPIO_BASE (RFLPC_PIN_MAKE led_port 0) = b"
  shows "out (test_data_bss D data test1 add_data data_addr data2 bss d) AND 0xB40000 =
    (if list_all (\<lambda>v. v = 0) bss then 0x840000 else 0x300000)"
proof -
  have "out (rflpc_led_val D v e) AND 0xB40000 = v AND 0xB40000" for v e
    by (unfold rflpc_led_val_def, unfold out_set_val [OF assms], simp add: led_vals)
      (rule bit_word_eqI, simp add: bit_simps, auto)
  then show ?thesis by (simp add: test_data_bss_def Let_def led_vals)
qed

end

section \<open>Properties\<close>

text \<open>C40. The echo test ends: on a console whose transmitter always becomes ready again, with Q among the characters
  received, the test returns; it has taken the characters up to the first Q and no more, and has sent its two lines of
  help and one line for each of those characters, every character of them after a blank, which is what the output
  function the program sets does.\<close>

theorem echo_test_returns:
  assumes "uart0_ready D b U" and "\<not> bit (lcr (U d)) 7" and "rx_fifo (U d) = cs @ 81 # rest" and "81 \<notin> set cs"
  shows "\<exists>d'. test_echo D (my_silly_putchar D) str_at d = Some d' \<and> rx_fifo (U d') = rest \<and>
    sent (U d') = sent (U d) @ spaced (map of_char (echo_title @ echo_help) @ concat (map received_line (cs @ [81])))"
  by (rule uart0_ready.echo_until_Q [OF assms])

lemma echo_test_returns_witness:
  "\<exists>d'. test_echo (uart_device LPC_UART0_BASE) (my_silly_putchar (uart_device LPC_UART0_BASE)) (\<lambda>_. [])
      \<lparr>lcr = 3, dll = 4, dlm = 0, fdr = 0x85, ier = 0, rx_fifo = [104, 105, 81, 82], sent = []\<rparr> = Some d' \<and>
    rx_fifo d' = [82] \<and>
    sent d' = spaced (map of_char (echo_title @ echo_help) @ concat (map received_line [104, 105, 81]))"
  using echo_test_returns [OF model_uart0.uart0_ready_axioms,
      of "\<lparr>lcr = 3, dll = 4, dlm = 0, fdr = 0x85, ier = 0, rx_fifo = [104, 105, 81, 82], sent = []\<rparr>"
        "[104, 105]" "[82]" "\<lambda>_. []"]
  by (simp add: bit_numeral_simps)

end
