(* ===== verification/Fault.thy ===== *)
theory Fault
  imports Uart Gpio TinyMem
begin

text \<open>
  The fault handlers of \<^verbatim>\<open>interrupt.c\<close> and the macros of \<^verbatim>\<open>debug.h\<close> they use. The fault registers of the processor
  keep their values while the handler runs, so they are a record; \<open>sp\<close> is the stack pointer the handler reads first,
  \<open>m\<close> the memory. The handler prints one message after the other, then blinks for ever: the model runs any number of
  turns of that loop. The delay of a turn passes time only.
\<close>

section \<open>The macros\<close>

definition RFLPC_ADDR_IN :: "addr \<Rightarrow> addr \<Rightarrow> addr \<Rightarrow> bool" where
  "RFLPC_ADDR_IN a lo hi \<longleftrightarrow> (if lo \<le> a then a < hi else False)"

definition RFLPC_ADDR_IN_FLASH :: "addr \<Rightarrow> bool" where
  "RFLPC_ADDR_IN_FLASH a \<longleftrightarrow> RFLPC_ADDR_IN a 0 0x7ffff"

definition RFLPC_ADDR_IN_RAM :: "addr \<Rightarrow> bool" where
  "RFLPC_ADDR_IN_RAM a \<longleftrightarrow> RFLPC_ADDR_IN a 0x1000000 0x10007FFF \<or> RFLPC_ADDR_IN a 0x2007c000 0x2007ffff"

text \<open>One turn of the loop of \<^verbatim>\<open>RFLPC_STOP\<close>, and any number of them.\<close>

definition stop_turn :: "'d device \<Rightarrow> u32 \<times> 'd \<Rightarrow> u32 \<times> 'd" where
  "stop_turn D st = (let (leds, d) = st; d = rflpc_led_val D leds d in (NOT leds, d))"

definition RFLPC_STOP :: "'d device \<Rightarrow> u32 \<Rightarrow> nat \<Rightarrow> 'd \<Rightarrow> 'd" where
  "RFLPC_STOP D l n d = snd ((stop_turn D ^^ n) (l, d))"

text \<open>The calls of \<^verbatim>\<open>printf\<close>, each as its items.\<close>

abbreviation lits :: "string \<Rightarrow> item list" where "lits \<equiv> map Lit"
abbreviation crlf_items :: "item list" where "crlf_items \<equiv> [Lit CHR 0x0D, Lit CHR 0x0A]"

definition RFLPC_DUMP_STACK :: "addr \<Rightarrow> mem \<Rightarrow> item list list" where
  "RFLPC_DUMP_STACK sp m =
     concat (map (\<lambda>i.
       (if i mod 16 = 0 then [[Lit CHR 0x0A, Lit CHR 0x0D, Ptr False (sp + of_nat i)] @ lits '': ''] else []) @
       [[Hex False True 2 (ucast (m (sp + of_nat i))), Lit CHR '' '']]) [0..<128]) @
     [[Lit CHR 0x0A, Lit CHR 0x0D]]"

section \<open>The handler\<close>

record fault_regs =
  CFSR :: u32
  HFSR :: u32
  DFSR :: u32
  MMFAR :: u32
  BFAR :: u32

definition flag :: "u32 \<Rightarrow> nat \<Rightarrow> item list \<Rightarrow> item list list" where
  "flag x k its = (if x AND shl 1 k \<noteq> 0 then [its @ crlf_items] else [])"

definition fault_flags :: "fault_regs \<Rightarrow> item list list" where
  "fault_flags F =
     flag (CFSR F) 7 (lits ''Mem Managment Fault Adress: '' @ [Ptr False (MMFAR F)]) @
     flag (CFSR F) 4 (lits ''Memory Fault caused by stacking for exception entry'') @
     flag (CFSR F) 3 (lits ''Memory Fault caused by unstacking for return from exception'') @
     flag (CFSR F) 1 (lits ''Data Access Violation. PC value stacked point to the faulting instruction'') @
     flag (CFSR F) 0 (lits ''Instruction Access Violation. PC value stacked point to the faulting instruction'') @
     flag (CFSR F) (8 + 7) (lits ''Bus fault with known address: '' @ [Ptr False (BFAR F)]) @
     flag (CFSR F) (8 + 4) (lits ''Bus fault caused by stacking for exception entry'') @
     flag (CFSR F) (8 + 3) (lits ''Bus fault caused by unstacking for return from exception'') @
     flag (CFSR F) (8 + 2) (lits ''Imprecise bus fault (Write to invalid address)'') @
     flag (CFSR F) (8 + 1) (lits ''Precise bus fault'') @
     flag (CFSR F) (8 + 0) (lits ''Intruction bus error'') @
     flag (CFSR F) (16 + 9) (lits ''Division by 0'') @
     flag (CFSR F) (16 + 8) (lits ''Unaligned access usage'') @
     flag (CFSR F) (16 + 3) (lits ''Fault while accessing to a coprocessor'') @
     flag (CFSR F) (16 + 2) (lits ''Invalid PC Load'') @
     flag (CFSR F) (16 + 1)
       (lits ''The processor has attempted to execute an instruction that makes illegal use of the EPSR'') @
     flag (CFSR F) (16 + 0) (lits ''The processor has attempted to execute an undefined instruction'') @
     flag (HFSR F) 30 (lits ''Forced hardware fault'') @
     flag (HFSR F) 1 (lits ''Bus fault on vector table read'')"

definition stack_frame :: "addr \<Rightarrow> mem \<Rightarrow> item list list" where
  "stack_frame sp m =
     [lits ''Stack frame dump'' @ crlf_items,
      lits ''R0:  '' @ [Ptr False (ld32 m sp)] @ crlf_items,
      lits ''R1:  '' @ [Ptr False (ld32 m (sp + 4))] @ crlf_items,
      lits ''R2:  '' @ [Ptr False (ld32 m (sp + 8))] @ crlf_items,
      lits ''R3:  '' @ [Ptr False (ld32 m (sp + 12))] @ crlf_items,
      lits ''R12: '' @ [Ptr False (ld32 m (sp + 16))] @ crlf_items,
      lits ''LR:  '' @ [Ptr False (ld32 m (sp + 20))] @
        lits '' (return address of the function causing the faulty instruction)'' @ crlf_items,
      lits ''PC:  '' @ [Ptr False (ld32 m (sp + 24))] @
        lits '' (for imprecise fault, this can be several instructions after the faulty one)'' @ crlf_items,
      lits ''PSR: '' @ [Ptr False (ld32 m (sp + 28))] @ crlf_items]"

definition fault_report :: "fault_regs \<Rightarrow> addr \<Rightarrow> mem \<Rightarrow> item list list" where
  "fault_report F sp m =
     [lits ''CFSR: '' @ [Ptr False (CFSR F)] @ crlf_items, lits ''HFSR: '' @ [Ptr False (HFSR F)] @ crlf_items,
      lits ''DFSR: '' @ [Ptr False (DFSR F)] @ crlf_items, lits ''SP  : '' @ [Ptr False sp] @ crlf_items] @
     fault_flags F @ stack_frame sp m @
     (let pc = ld32 m (sp + 24); w = Hex False True 4 (ld32 m pc)
      in if RFLPC_ADDR_IN_FLASH pc \<or> RFLPC_ADDR_IN_RAM pc
         then [lits ''Words at PC: '' @ [w, Lit CHR '' '', w, Lit CHR '' '', w] @ crlf_items] else []) @
     RFLPC_DUMP_STACK sp m"

fun print_calls :: "(nat \<Rightarrow> 's \<Rightarrow> 's) \<Rightarrow> (u32 \<Rightarrow> string) \<Rightarrow> item list list \<Rightarrow> 's \<Rightarrow> 's option" where
  "print_calls putc str_at [] s = Some s"
| "print_calls putc str_at (its # calls) s =
     (case printf putc (\<lambda>s. s) (\<lambda>s. s) str_at (concat (map item_fmt its)) (concat (map item_args its)) s of
        None \<Rightarrow> None
      | Some (_, s) \<Rightarrow> print_calls putc str_at calls s)"

definition default_exception_handler_code ::
  "'d device \<Rightarrow> (u32 \<Rightarrow> string) \<Rightarrow> fault_regs \<Rightarrow> addr \<Rightarrow> mem \<Rightarrow> nat \<Rightarrow> 'd \<Rightarrow> 'd option" where
  "default_exception_handler_code D str_at F sp m n d =
     (case print_calls (rflpc_default_putchar D) str_at (fault_report F sp m) (Some d) of
        Some (Some d) \<Rightarrow> Some (RFLPC_STOP D (RFLPC_LED_1 OR RFLPC_LED_4) n d)
      | _ \<Rightarrow> None)"

definition default_peripheral_handler_code :: "'d device \<Rightarrow> nat \<Rightarrow> 'd \<Rightarrow> 'd" where
  "default_peripheral_handler_code D n d = RFLPC_STOP D (RFLPC_LED_1 OR RFLPC_LED_2) n d"

section \<open>What is printed\<close>

context char_sink
begin

lemma calls_printed:
  assumes "ok s" and "\<forall>its \<in> set calls. \<forall>it \<in> set its. item_ok it"
  shows "\<exists>s'. print_calls putc str_at calls s = Some s' \<and> ok s' \<and>
    chars s' = chars s @ map of_nat (concat (map (render str_at 4) calls))"
  using assms
proof (induction calls arbitrary: s)
  case (Cons its calls)
  then obtain s' where "printf putc (\<lambda>s. s) (\<lambda>s. s) str_at (concat (map item_fmt its)) (concat (map item_args its)) s =
      Some (length (render str_at 4 its), s')" "ok s'" "chars s' = chars s @ map of_nat (render str_at 4 its)"
    using printf_appends [of s its str_at] by auto
  with Cons.IH [of s'] Cons.prems(2) show ?case by auto
qed simp

end

lemma lit_ok: "(\<forall>it \<in> set (lits s). item_ok it) \<longleftrightarrow> CHR ''%'' \<notin> set s"
  by auto

lemma flag_ok: "(\<forall>it \<in> set its. item_ok it) \<Longrightarrow> \<forall>c \<in> set (flag x k its). \<forall>it \<in> set c. item_ok it"
  by (simp add: flag_def)

lemma fault_report_ok: "\<forall>c \<in> set (fault_report F sp m). \<forall>it \<in> set c. item_ok it"
proof -
  have "\<forall>c \<in> set (fault_flags F). \<forall>it \<in> set c. item_ok it"
    unfolding fault_flags_def set_append ball_Un by (intro conjI flag_ok) simp_all
  moreover have "\<forall>c \<in> set (stack_frame sp m). \<forall>it \<in> set c. item_ok it" by (simp add: stack_frame_def)
  moreover have "\<forall>c \<in> set (RFLPC_DUMP_STACK sp m). \<forall>it \<in> set c. item_ok it"
    by (auto simp: RFLPC_DUMP_STACK_def)
  ultimately show ?thesis
    unfolding fault_report_def set_append ball_Un by (simp add: Let_def)
qed

text \<open>A message about a flag is printed exactly when the flag is set.\<close>

lemma flag_printed: "flag x k its = (if bit x k then [its @ crlf_items] else [])" if "k < 32"
  using that by (simp add: flag_def and_two_power_eq_zero)

section \<open>The leds\<close>

context gpio_port
begin

lemma stop_blinks:
  assumes "RFLPC_GPIO_BASE (RFLPC_PIN_MAKE led_port 0) = b"
  shows "out (RFLPC_STOP D l (Suc n) d) AND 0xB40000 = (if even n then l else NOT l) AND 0xB40000"
proof -
  have val: "out (rflpc_led_val D v e) AND 0xB40000 = v AND 0xB40000" for v e
    by (unfold rflpc_led_val_def, unfold out_set_val [OF assms], simp add: led_vals)
      (rule bit_word_eqI, simp add: bit_simps, auto)
  have leds: "fst ((stop_turn D ^^ n) (l, d)) = (if even n then l else NOT l)" for n
    by (induction n) (auto simp: stop_turn_def split_def Let_def)
  have "snd ((stop_turn D ^^ Suc n) (l, d)) =
      rflpc_led_val D (fst ((stop_turn D ^^ n) (l, d))) (snd ((stop_turn D ^^ n) (l, d)))"
    by (simp add: stop_turn_def split_def Let_def)
  then show ?thesis by (simp add: RFLPC_STOP_def val leds)
qed

end

section \<open>Addresses\<close>

text \<open>The lower bound of the RAM lacks a digit, so that the test accepts the 240 Mbytes before it, where nothing is; and as
  the bounds are half open, the last byte of the flash and of each RAM is left out.\<close>

lemma ram_test_too_wide:
  "0x1000000 \<le> a \<Longrightarrow> a < 0x10000000 \<Longrightarrow> RFLPC_ADDR_IN_RAM a"
  "\<not> RFLPC_ADDR_IN_RAM 0x10007FFF" "\<not> RFLPC_ADDR_IN_RAM 0x2007FFFF" "\<not> RFLPC_ADDR_IN_FLASH 0x7FFFF"
  by (auto simp: RFLPC_ADDR_IN_RAM_def RFLPC_ADDR_IN_FLASH_def RFLPC_ADDR_IN_def word_less_nat_alt word_le_nat_alt)

section \<open>The whole handler\<close>

context uart0_ready
begin

lemma report_sent:
  assumes "\<not> bit (lcr (U d)) 7"
  shows "\<exists>e. (\<forall>n. default_exception_handler_code D str_at F sp m n d = Some (RFLPC_STOP D 0x840000 n e)) \<and>
    sent (U e) = sent (U d) @ map of_nat (concat (map (render str_at 4) (fault_report F sp m)))"
proof -
  have "sending U (Some d)" using assms by (simp add: sending_def)
  from uart.calls_printed [OF this fault_report_ok, of str_at F sp m] obtain s' where
    s': "print_calls (rflpc_default_putchar D) str_at (fault_report F sp m) (Some d) = Some s'" "sending U s'"
      "sent_chars U s' = sent_chars U (Some d) @ map of_nat (concat (map (render str_at 4) (fault_report F sp m)))"
    by blast
  then show ?thesis
    by (cases s') (auto simp: default_exception_handler_code_def sending_def sent_chars_def led_vals)
qed

end

text \<open>On a console whose transmitter always becomes ready again, the handler gets to its last loop, having sent its whole
  report.\<close>

lemma fault_handler_reports:
  assumes "uart0_ready D b U" and "\<not> bit (lcr (U d)) 7"
  shows "\<exists>e. (\<forall>n. default_exception_handler_code D str_at F sp m n d = Some (RFLPC_STOP D 0x840000 n e)) \<and>
    sent (U e) = sent (U d) @ map of_nat (concat (map (render str_at 4) (fault_report F sp m)))"
  by (rule uart0_ready.report_sent [OF assms])

end
