(* ===== verification/Spec2Isabelle.thy ===== *)
theory Spec2Isabelle
  imports TinyMem Rand Printf Pinconf Interrupt Clock Startup Timer Gpio Uart Ethernet Eth_Ring Iap I2c Adc
    Pwm Dma Spi Tick Protocols Dhcp Simple_Udp Responder
    Simple_Net Net_Start Answer Dhcp_Net Udp_Server Eth_Server Lcd Scroller Setjmp Flash_Test
    Mem_Test Basic_Test Fault
begin

text \<open>
  rflpc is a C library for the NXP LPC17xx microcontrollers (a Cortex-M3 core): the start-up code,
  drivers for the peripherals, a small C library, and sample programs. This development models the
  code under \<^verbatim>\<open>src/rflpc17xx\<close>, the display library under \<^verbatim>\<open>src/external_libs\<close> and the samples of
  \<^verbatim>\<open>src/samples\<close> that have an algorithm of their own, and proves what its parts do.

  \<^bold>\<open>How the parts interact.\<close> The reset routine (\<^verbatim>\<open>init.c\<close>) prepares the memory, the interrupt vectors, the
  clock and the standard output, then calls the program. Drivers configure pins (\<^verbatim>\<open>pinconf.c\<close>), power
  and clocks, and work on the registers of their block; their interrupt handlers are installed in
  the vector table in RAM (\<^verbatim>\<open>interrupt.c\<close>). \<^verbatim>\<open>printf\<close> sends characters through a function pointer
  that is the UART's by default. The Ethernet driver shares two descriptor rings with the
  hardware; the samples build and read packets in the buffers of these rings.

  \<^bold>\<open>Devices.\<close> A driver sees a register block through a \<open>device\<close> (theory Bus): a read, which may change
  the state of the device, and a write. Every driver routine takes the device as an argument and
  threads its state, one read or write for each access of the C code, in its order; the theorems
  assume of the device what its manual promises, as a locale, and each locale is
  interpreted on an executable model of the block. Polling loops are
  \<open>partial_function (option)\<close>: \<open>None\<close> is a loop that never ends, and the theorems prove \<open>Some\<close>. The layout
  of the blocks and the addresses of the registers are computed from the structures of
  \<^verbatim>\<open>nxp/LPC17xx.h\<close> (theory Registers).

  \<^bold>\<open>Conditions.\<close> The text before a theorem states all the conditions of the theorem. Most are of three kinds: laws
  of a device (the locales, each from the manual of its part), areas of memory that lie apart (\<open>memcpy_apart\<close>,
  \<open>buffers_apart\<close>, \<open>frame_apart\<close>, \<open>dma_apart\<close>), and rules a caller has to keep that the code does not test
  (\<open>tx_reach\<close>, \<open>sector_write\<close>, \<open>buffered_ok\<close>). These predicates model no code; where a call that breaks
  such a rule goes wrong, a lemma or a text says how.

  \<^bold>\<open>Theories and sources\<close> (paths under \<^verbatim>\<open>src/rflpc17xx\<close>):
  \<^item> Prelude: integer types, shifts and masks as bits and as arithmetic; Bus: devices, polling,
    the register macros of \<^verbatim>\<open>tools.h\<close>, configuration registers (locale \<open>config_regs\<close>, interpreted on plain
    memory, on a status register and on a scripted device); Registers: \<^verbatim>\<open>nxp/LPC17xx.h\<close>.
  \<^item> TinyMem: \<^verbatim>\<open>tinylibc/memcpy.c\<close> and \<^verbatim>\<open>memset.c\<close>, Duff's devices on a byte memory with wrapping
    addresses; the contract of a block copy (locale \<open>block_copier\<close>) that every other user of \<^verbatim>\<open>memcpy\<close>
    rests on, and where the code breaks it. Rand: \<^verbatim>\<open>tinylibc/rand.c\<close>. Printf: \<^verbatim>\<open>tinylibc/printf.c\<close>,
    refined to the rendering of a list of items. Setjmp: \<^verbatim>\<open>tinylibc/setjmp.c\<close>, on the registers of the
    processor.
  \<^item> Pinconf, Interrupt (locale \<open>nvic\<close>), Clock, Startup: \<^verbatim>\<open>pinconf.c\<close>, \<^verbatim>\<open>interrupt.c\<close>, \<^verbatim>\<open>clock.c\<close>,
    \<^verbatim>\<open>init.c\<close> and their headers, with the configuration of the mbed board.
  \<^item> Timer, Gpio (locale \<open>gpio_port\<close>), Uart (locales \<open>uart_block\<close>, \<open>char_sink\<close>), I2c (\<open>i2c_block\<close>), Spi
    (\<open>spi_port\<close>), Adc, Pwm, Dma (\<open>dma_controller\<close>), Tick: the drivers of the same names under
    \<^verbatim>\<open>drivers/\<close>. I2c also has the temperature sensor of \<^verbatim>\<open>samples/i2c-test-mbed-board/lm75b.c\<close>.
  \<^item> Lcd (\<open>lcd_wires\<close>, which joins \<open>spi_port\<close> and \<open>gpio_port\<close>): the display of \<^verbatim>\<open>external_libs/nhd_spi_lcd\<close>.
    Scroller (\<open>led_matrix\<close>, an \<open>spi_port\<close> with a timer): \<^verbatim>\<open>samples/spi-leds\<close>, a font, the drawing of a text
    in a picture of 64 leds, and the demonstration that scrolls one.
  \<^item> Fault: the default handlers of \<^verbatim>\<open>interrupt.c\<close> and the macros of \<^verbatim>\<open>debug.h\<close>, on the console and the leds.
  \<^item> Ethernet (locale \<open>mii_phy\<close>, which assumes nothing of the link or of a negotiation) and Eth_Ring (\<open>eth_tx\<close>, \<open>eth_rx\<close>): \<^verbatim>\<open>drivers/ethernet.c\<close>, \<^verbatim>\<open>ethernet.h\<close> and
    \<^verbatim>\<open>eth_const.h\<close>. Reachability of the transmit ring is the inductive \<open>tx_reach\<close>.
  \<^item> Iap (locale \<open>iap_rom\<close>): \<^verbatim>\<open>iap.c\<close>; the routine in the boot ROM is a parameter. Flash_Test:
    \<^verbatim>\<open>samples/test-flash/main.c\<close>, the tests of the flash, on top of it.
  \<^item> Protocols (locale \<open>header_codec\<close>): \<^verbatim>\<open>samples/dhcp/protocols.c\<close>; Dhcp: \<^verbatim>\<open>samples/dhcp/dhcp.c\<close> and
    \<^verbatim>\<open>main.c\<close>; Simple_Udp and Udp_Server (\<open>udp_rings\<close>): \<^verbatim>\<open>samples/simple_udp\<close>, the accessors of the headers,
    and the program on the driver. Responder and Eth_Server (\<open>responder_rings\<close>): \<^verbatim>\<open>samples/ethernet/main.c\<close>, the packet
    handler, and the program on the driver. Both programs are instances of Answer (\<open>answer_rings\<close>, both rings on
    one device): a frame that asks for an answer gets the first free transmit descriptor. Simple_Net (\<open>net_tx\<close>, \<open>net_rx\<close>) and Net_Start (\<open>net_start\<close>):
    \<^verbatim>\<open>samples/dhcp/simple_net.c\<close>, the interface between the DHCP client and the rings;
    Dhcp_Net composes the two. The \<^verbatim>\<open>sizeof\<close> and offsets of a \<^verbatim>\<open>DhcpHead\<close> come from its layout.
  \<^item> Mem_Test: \<^verbatim>\<open>samples/memset\<close> and \<^verbatim>\<open>samples/memcpy\<close>, what the tests of the block operations return; Basic_Test
    (in \<open>uart0_ready\<close> and \<open>gpio_port\<close>): \<^verbatim>\<open>samples/basic_tests\<close>, the echo test, the leds, the timer handlers.

  \<^bold>\<open>What the lemmas show.\<close> For the C library: what memcpy and memset write, with the requests they do
  not serve; that printf sends the rendering of its format; that the generator has its period and
  range. For the drivers: the value every register has after a configuration, and that no other
  changes; that transfers (UART, SPI, I2C, DMA) deliver the bytes in order and end; that the I2C
  automata refine the transfer of the protocol. For Ethernet: the two rings as queues (a
  descriptor handed out is not the hardware's, the transmit ring is never overfull as long as calls keep the rules of \<open>tx_reach\<close>, packets are
  processed in the order received), all the outcomes of a negotiation of the link, the address registers. For the
  flash: what a write leaves in every byte, and the writes that fail, and the test that stores an
  object through a small buffer. For the scroller: the picture is the window on the strip of the letters, and what the matrix
  receives in any number of rounds. For the samples: round
  trips of all headers, the checksum as the Internet checksum, what the handlers answer, and across
  the components: every received frame reaches the callback once and in order, every
  request is answered as long as a descriptor is free, and a DHCP
  message ends in the descriptor the hardware sends next, as a frame with correct headers.

  \<^bold>\<open>Bounds.\<close> Machine integers are words of their width, so every wrap-around is in the model.
  The loop of the option search and the polling loops are not bounded by fuel. The checksum
  theorems hold up to 128 kbytes, where its 32 bit sum could overflow. The option pointers of
  the DHCP client are offsets, as the array is never at the end of the address space.

  \<^bold>\<open>Not modelled\<close>: \<^verbatim>\<open>nxp/core_cm3.c\<close> and the inline functions of \<^verbatim>\<open>core_cm3.h\<close>, which are one instruction
  each and ARM's; \<^verbatim>\<open>profiling.h\<close> and the delays; the register blocks no driver uses (CAN, USB, QEI, MCPWM, I2S, watchdog); the
  other test programs under \<^verbatim>\<open>samples\<close>, which only call the drivers; and the console output of the samples.
\<close>

end
